(* ===== verification/Prelude.thy ===== *)
theory Prelude
  imports Main "HOL-Library.Word" "HOL-Library.Signed_Division" "HOL-Library.Product_Lexorder"
begin

text \<open>
  Shared vocabulary of the development: the machine integer types of the C++ sources, the
  saturating 64-bit arithmetic of \<^verbatim>\<open>planner/cpu_planner.h\<close> (every cost of the three planner
  generations is computed with it), the reason convention (an empty string means "no objection"),
  and generic facts on words, folds and sorted lists that several components use.
\<close>

unbundle bit_operations_syntax

type_synonym u8 = "8 word"
type_synonym u16 = "16 word"
type_synonym u32 = "32 word"
type_synonym u64 = "64 word"
type_synonym i64 = "64 word" \<comment> \<open>read with \<open>sint\<close>: two's complement\<close>
type_synonym reason = string \<comment> \<open>\<open>std::string_view\<close>; \<open>[]\<close> is the empty view\<close>

named_theorems legality_simps \<open>definitions of the legality gates\<close>
named_theorems registry_simps \<open>definitions of the constant registries\<close>

section \<open>Limits\<close>

definition u64_max :: u64 where "u64_max = - 1"
definition u32_max :: u32 where "u32_max = - 1"
definition u16_max :: u16 where "u16_max = - 1"

lemma unat_u64_max [simp]: "unat u64_max = 2 ^ 64 - 1"
  by (simp add: u64_max_def unsigned_minus_1_eq_mask mask_eq_exp_minus_1)

lemma unat_u32_max [simp]: "unat u32_max = 2 ^ 32 - 1"
  by (simp add: u32_max_def unsigned_minus_1_eq_mask mask_eq_exp_minus_1)

lemma u64_le_max [simp]: "(x::u64) \<le> u64_max"
  by (simp add: u64_max_def)

lemma u32_le_max [simp]: "(x::u32) \<le> u32_max"
  by (simp add: u32_max_def)

lemma unat_lt64 [simp]: "unat (x::u64) < 18446744073709551616"
  using unsigned_less [of x] by simp

lemma unat_lt32 [simp]: "unat (x::u32) < 4294967296"
  using unsigned_less [of x] by simp

lemma unat_of_nat64: "n < 18446744073709551616 \<Longrightarrow> unat (of_nat n :: u64) = n"
  by (simp add: unsigned_of_nat take_bit_nat_eq_self)

lemma word_eq_unatI: "unat x = unat y \<Longrightarrow> x = y"
  by (simp add: word_unat_eq_iff)

text \<open>The \<open>%\<close> of C++ on signed 64-bit values (the sign follows the dividend).\<close>

definition i64_rem :: "i64 \<Rightarrow> int \<Rightarrow> i64" where
  "i64_rem a b = word_of_int (sint a smod b)"

text \<open>Widening casts between unsigned types.\<close>

abbreviation u32_to_u64 :: "u32 \<Rightarrow> u64" where
  "u32_to_u64 x \<equiv> ucast x"

lemma unat_u32_to_u64 [simp]: "unat (u32_to_u64 x) = unat x"
proof -
  have "unat x < 2 ^ 64"
    using unat_lt32 [of x] by (rule less_trans) simp
  then show ?thesis by (simp add: unsigned_ucast_eq take_bit_nat_eq_self)
qed

section \<open>Saturating arithmetic (detail::saturating_add, saturating_multiply)\<close>

definition saturating_add :: "u64 \<Rightarrow> u64 \<Rightarrow> u64" where
  "saturating_add lhs rhs =
     (let maximum = u64_max in if rhs > maximum - lhs then maximum else lhs + rhs)"

definition saturating_multiply :: "u64 \<Rightarrow> u64 \<Rightarrow> u64" where
  "saturating_multiply lhs rhs =
     (let maximum = u64_max
      in if lhs \<noteq> 0 \<and> rhs > maximum div lhs then maximum else lhs * rhs)"

lemma unat_u64_max_minus: "unat (u64_max - x) = 2 ^ 64 - 1 - unat x"
proof -
  have "unat x \<le> unat u64_max"
    using u64_le_max [of x] by (simp only: word_le_nat_alt)
  then show ?thesis by (simp add: unat_sub_if')
qed

lemma unat_saturating_add:
  "unat (saturating_add a b) = min (unat a + unat b) (2 ^ 64 - 1)"
proof -
  have "(b > u64_max - a) = (unat a + unat b > 2 ^ 64 - 1)"
    using unat_lt64 [of a] unat_lt64 [of b]
    by (simp add: word_less_nat_alt unat_u64_max_minus, arith)
  moreover have "unat a + unat b \<le> 2 ^ 64 - 1 \<Longrightarrow> unat (a + b) = unat a + unat b"
    by (simp add: unat_plus_if')
  ultimately show ?thesis
    by (auto simp: saturating_add_def Let_def min_def)
qed

lemma nat_mult_gt_iff_div:
  fixes a b m :: nat
  assumes "0 < a"
  shows "(m div a < b) = (m < a * b)"
proof -
  have "(m div a < b) = (m < b * a)"
    using assms by (rule div_less_iff_less_mult)
  then show ?thesis by (simp add: mult.commute)
qed

lemma unat_saturating_multiply:
  "unat (saturating_multiply a b) = min (unat a * unat b) (2 ^ 64 - 1)"
proof (cases "a = 0")
  case True
  then show ?thesis by (simp add: saturating_multiply_def)
next
  case False
  then have pos: "0 < unat a"
    by (simp add: unat_gt_0)
  have iff: "(b > u64_max div a) = (unat a * unat b > 2 ^ 64 - 1)"
    using nat_mult_gt_iff_div [OF pos, of "2 ^ 64 - 1" "unat b"]
    by (simp add: word_less_nat_alt unat_div)
  moreover have "unat a * unat b \<le> 2 ^ 64 - 1 \<Longrightarrow> unat (a * b) = unat a * unat b"
    by (simp add: unat_word_ariths)
  ultimately show ?thesis
    using False by (auto simp: saturating_multiply_def Let_def min_def)
qed

lemma saturating_add_mono:
  "a \<le> a' \<Longrightarrow> b \<le> b' \<Longrightarrow> saturating_add a b \<le> saturating_add a' b'"
  by (simp add: word_le_nat_alt unat_saturating_add)

lemma saturating_multiply_mono:
  "a \<le> a' \<Longrightarrow> b \<le> b' \<Longrightarrow> saturating_multiply a b \<le> saturating_multiply a' b'"
  unfolding word_le_nat_alt unat_saturating_multiply
  by (meson min.mono mult_le_mono order_refl)

lemma saturating_add_ge: "a \<le> saturating_add a b" "b \<le> saturating_add a b"
  using unat_lt64 [of a] unat_lt64 [of b]
  by (simp_all add: word_le_nat_alt unat_saturating_add, arith+)

section \<open>Statuses as values\<close>

text \<open>A function that returns a status and fills an output parameter is modelled with a sum:
  \<open>Inl\<close> is the status of the early return, \<open>Inr\<close> the output of a successful call.\<close>

definition and_then :: "'e + 'a \<Rightarrow> ('a \<Rightarrow> 'e + 'b) \<Rightarrow> 'e + 'b" where
  "and_then r f = (case r of Inl e \<Rightarrow> Inl e | Inr x \<Rightarrow> f x)"

definition require :: "bool \<Rightarrow> 'e \<Rightarrow> 'e + unit" where
  "require b e = (if b then Inr () else Inl e)"

definition or_fail :: "'a option \<Rightarrow> 'e \<Rightarrow> 'e + 'a" where
  "or_fail x e = (case x of None \<Rightarrow> Inl e | Some y \<Rightarrow> Inr y)"

lemma and_then_simps [simp]: "and_then (Inl e) f = Inl e" "and_then (Inr x) f = f x"
  by (simp_all add: and_then_def)

lemma require_simps [simp]: "require True e = Inr ()" "require False e = Inl e"
  by (simp_all add: require_def)

lemma or_fail_simps [simp]: "or_fail None e = Inl e" "or_fail (Some y) e = Inr y"
  by (simp_all add: or_fail_def)

lemma and_then_Inr: "and_then r f = Inr y \<longleftrightarrow> (\<exists>x. r = Inr x \<and> f x = Inr y)"
  by (cases r) simp_all

lemma require_Inr: "require b e = Inr u \<longleftrightarrow> b"
  by (cases b) simp_all

lemma or_fail_Inr: "or_fail x e = Inr y \<longleftrightarrow> x = Some y"
  by (cases x) simp_all

lemma and_then_Inl: "and_then r f = Inl e \<longleftrightarrow> r = Inl e \<or> (\<exists>x. r = Inr x \<and> f x = Inl e)"
  by (cases r) simp_all

lemma require_Inl: "require b e = Inl d \<longleftrightarrow> \<not> b \<and> d = e"
  by (cases b) auto

lemma or_fail_Inl: "or_fail x e = Inl d \<longleftrightarrow> x = None \<and> d = e"
  by (cases x) auto

lemmas result_simps = and_then_Inr require_Inr or_fail_Inr and_then_Inl require_Inl or_fail_Inl

section \<open>Sorted lists of identifiers\<close>

text \<open>
  \<open>std::is_sorted\<close> together with an empty \<open>std::adjacent_find\<close> is the check the platform code
  uses for "unique and sorted": strict ascent.
\<close>

fun adjacent_equal :: "'a list \<Rightarrow> bool" where
  "adjacent_equal (x # y # zs) = (x = y \<or> adjacent_equal (y # zs))"
| "adjacent_equal _ = False"

lemma adjacent_equal_sorted:
  "sorted xs \<Longrightarrow> adjacent_equal xs = (\<not> distinct (xs :: 'a::linorder list))"
  by (induction xs rule: adjacent_equal.induct) (auto simp: less_le)

lemma unique_sorted_iff:
  "(sorted xs \<and> \<not> adjacent_equal xs) = sorted_wrt (<) (xs :: 'a::linorder list)"
  by (auto simp: adjacent_equal_sorted strict_sorted_iff)

text \<open>The projection of a fold over independent cells of an array.\<close>

lemma fold_invariant_length:
  "(\<And>x s. x \<in> set xs \<Longrightarrow> length (f x s) = length s) \<Longrightarrow> length (fold f xs s) = length s"
  by (induction xs arbitrary: s) auto

end
