(* ===== verification/Selection.thy ===== *)
theory Selection
  imports Prelude
begin

text \<open>
  The candidate search that closes the loop of every planner generation
  (\<^verbatim>\<open>plan_cpu_gemm_v1\<close>, \<^verbatim>\<open>plan_cpu_gemm_v2\<close>, \<^verbatim>\<open>plan_cpu_gemm_v3\<close>): the five local variables
  \<^verbatim>\<open>found\<close>, \<^verbatim>\<open>best_cost\<close>, \<^verbatim>\<open>best_priority\<close>, \<^verbatim>\<open>best_index\<close> and the selected variant, and the
  contract every planner's loop body meets. The contract is the locale \<open>candidate_search\<close>;
  its lemmas say that the loop returns the lexicographically least eligible candidate.
\<close>

record 'v search =
  srch_found :: bool
  srch_cost :: u64
  srch_priority :: u16
  srch_index :: nat
  srch_variant :: 'v
  srch_id :: string

definition search_start :: "'v \<Rightarrow> nat \<Rightarrow> 'v search" where
  "search_start v count =
     \<lparr>srch_found = False, srch_cost = u64_max, srch_priority = u16_max, srch_index = count,
      srch_variant = v, srch_id = []\<rparr>"

definition search_step :: "nat \<Rightarrow> u64 \<Rightarrow> u16 \<Rightarrow> 'v \<Rightarrow> string \<Rightarrow> 'v search \<Rightarrow> 'v search" where
  "search_step index cost priority variant ident s =
     (if \<not> srch_found s \<or> cost < srch_cost s \<or>
         (cost = srch_cost s \<and>
          (priority < srch_priority s \<or>
           (priority = srch_priority s \<and> index < srch_index s)))
      then s\<lparr>srch_found := True, srch_cost := cost, srch_priority := priority,
             srch_index := index, srch_variant := variant, srch_id := ident\<rparr>
      else s)"

fun search_over :: "(nat \<Rightarrow> 'd \<Rightarrow> 'v search \<Rightarrow> 'v search) \<Rightarrow> nat \<Rightarrow> 'd list \<Rightarrow> 'v search \<Rightarrow> 'v search"
where
  "search_over step index [] s = s"
| "search_over step index (d # ds) s = search_over step (Suc index) ds (step index d s)"

locale candidate_search =
  fixes eligible :: "'d \<Rightarrow> bool"
    and cost :: "'d \<Rightarrow> u64"
    and priority :: "'d \<Rightarrow> u16"
    and variant :: "'d \<Rightarrow> 'v"
    and ident :: "'d \<Rightarrow> string"
    and step :: "nat \<Rightarrow> 'd \<Rightarrow> 'v search \<Rightarrow> 'v search"
  assumes step_eligible:
      "eligible d \<Longrightarrow> step i d s = search_step i (cost d) (priority d) (variant d) (ident d) s"
    and step_skip: "\<not> eligible d \<Longrightarrow> step i d s = s"
begin

definition key :: "'d list \<Rightarrow> nat \<Rightarrow> u64 \<times> u16 \<times> nat" where
  "key ds i = (cost (ds ! i), priority (ds ! i), i)"

definition best :: "'d list \<Rightarrow> nat \<Rightarrow> bool" where
  "best ds r \<longleftrightarrow> r < length ds \<and> eligible (ds ! r) \<and>
     (\<forall>i < length ds. eligible (ds ! i) \<longrightarrow> key ds r \<le> key ds i)"

definition search_inv :: "'d list \<Rightarrow> nat \<Rightarrow> 'v search \<Rightarrow> bool" where
  "search_inv ds n s \<longleftrightarrow>
     (if srch_found s
      then srch_index s < n \<and> n \<le> length ds \<and> eligible (ds ! srch_index s) \<and>
           (srch_cost s, srch_priority s, srch_index s) = key ds (srch_index s) \<and>
           srch_variant s = variant (ds ! srch_index s) \<and>
           srch_id s = ident (ds ! srch_index s) \<and>
           (\<forall>i < n. eligible (ds ! i) \<longrightarrow> key ds (srch_index s) \<le> key ds i)
      else \<forall>i < n. \<not> eligible (ds ! i))"

lemma step_inv:
  assumes "search_inv ds n s" and n: "n < length ds"
  shows "search_inv ds (Suc n) (step n (ds ! n) s)"
proof (cases "eligible (ds ! n)")
  case False
  with assms show ?thesis
    by (auto simp: search_inv_def step_skip less_Suc_eq)
next
  case el: True
  show ?thesis
  proof (cases "srch_found s")
    case False
    with assms el show ?thesis
      by (auto simp: search_inv_def step_eligible search_step_def less_Suc_eq key_def)
  next
    case True
    let ?b = "(srch_cost s, srch_priority s, srch_index s)"
    have take_iff: "step n (ds ! n) s =
        (if key ds n < ?b
         then s\<lparr>srch_found := True, srch_cost := cost (ds ! n), srch_priority := priority (ds ! n),
                srch_index := n, srch_variant := variant (ds ! n), srch_id := ident (ds ! n)\<rparr>
         else s)"
      using el True by (simp add: step_eligible search_step_def key_def less_prod_def' conj_commute)
    have b: "?b = key ds (srch_index s)"
      and le: "\<And>i. i < n \<Longrightarrow> eligible (ds ! i) \<Longrightarrow> ?b \<le> key ds i"
      using assms(1) True by (auto simp: search_inv_def)
    show ?thesis
    proof (cases "key ds n < ?b")
      case lt: True
      then have "\<And>i. i < n \<Longrightarrow> eligible (ds ! i) \<Longrightarrow> key ds n \<le> key ds i"
        using le by (meson order.strict_implies_order order.trans)
      with lt take_iff assms el show ?thesis
        by (auto simp: search_inv_def less_Suc_eq key_def)
    next
      case False
      then have "?b \<le> key ds n" by (simp add: not_less)
      with False take_iff assms el True b show ?thesis
        by (auto simp: search_inv_def less_Suc_eq)
    qed
  qed
qed

lemma search_over_inv:
  "search_inv ds n s \<Longrightarrow> n \<le> length ds \<Longrightarrow>
   search_inv ds (length ds) (search_over step n (drop n ds) s)"
proof (induction "length ds - n" arbitrary: n s)
  case 0
  then show ?case by simp
next
  case (Suc m)
  then have n: "n < length ds" by simp
  then have "drop n ds = ds ! n # drop (Suc n) ds"
    by (simp add: Cons_nth_drop_Suc)
  moreover have "search_inv ds (Suc n) (step n (ds ! n) s)"
    using Suc.prems(1) n by (rule step_inv)
  ultimately show ?case
    using Suc.hyps(1) [of "Suc n" "step n (ds ! n) s"] Suc.hyps(2) n by simp
qed

lemma search_inv_result:
  "search_inv ds (length ds) (search_over step 0 ds (search_start v k))"
  using search_over_inv [of ds 0 "search_start v k"]
  by (simp add: search_inv_def search_start_def)

lemma not_found_iff:
  "srch_found (search_over step 0 ds (search_start v k)) \<longleftrightarrow> (\<exists>d \<in> set ds. eligible d)"
  using search_inv_result [of ds v k]
  by (auto simp: search_inv_def in_set_conv_nth dest: nth_mem split: if_splits)

lemma found_best:
  assumes "srch_found (search_over step 0 ds (search_start v k))"
  shows "\<exists>r. best ds r
      \<and> srch_variant (search_over step 0 ds (search_start v k)) = variant (ds ! r)
      \<and> srch_id (search_over step 0 ds (search_start v k)) = ident (ds ! r)"
proof -
  let ?s = "search_over step 0 ds (search_start v k)"
  have "best ds (srch_index ?s) \<and> srch_variant ?s = variant (ds ! srch_index ?s)
      \<and> srch_id ?s = ident (ds ! srch_index ?s)"
    using search_inv_result [of ds v k] assms by (simp add: search_inv_def best_def)
  then show ?thesis by blast
qed

lemma best_unique:
  assumes "best ds r" "best ds q"
  shows "r = q"
proof -
  have "key ds r \<le> key ds q" "key ds q \<le> key ds r"
    using assms by (simp_all add: best_def)
  then have "key ds r = key ds q" by (rule order.antisym)
  then show ?thesis by (simp add: key_def)
qed

lemma best_iff:
  "best ds r \<longleftrightarrow> r < length ds \<and> eligible (ds ! r) \<and>
     (\<forall>i < length ds. eligible (ds ! i) \<longrightarrow>
        cost (ds ! r) < cost (ds ! i) \<or>
        cost (ds ! r) = cost (ds ! i) \<and>
          (priority (ds ! r) < priority (ds ! i) \<or>
           priority (ds ! r) = priority (ds ! i) \<and> r \<le> i))"
  by (auto simp: best_def key_def less_eq_prod_def less_le)

end

end
