(* ===== verification/DiagnosticWriter.thy ===== *)
theory DiagnosticWriter
  imports Prelude
begin

text \<open>
  The allocation-free writer \<^verbatim>\<open>detail::DiagnosticWriter\<close> of \<^verbatim>\<open>planner/cpu_planner.h\<close>, which all
  three plan formatters use. The caller's buffer is a list of bytes (\<open>None\<close> is the null pointer);
  \<open>wr_required\<close> counts every character offered, written or not. The lemmas say what the
  buffer holds after any sequence of calls: the longest prefix that fits, a terminator, and the
  caller's own bytes after it.
\<close>

section \<open>Decimal text\<close>

function decimal :: "nat \<Rightarrow> string" where
  "decimal n = (if n < 10 then [char_of (48 + n)]
                else decimal (n div 10) @ [char_of (48 + n mod 10)])"
  by pat_completeness auto
termination
  by (relation "measure id") auto

declare decimal.simps [simp del]

definition digit_value :: "char \<Rightarrow> nat" where
  "digit_value c = of_char c - 48"

definition is_digit :: "char \<Rightarrow> bool" where
  "is_digit c \<longleftrightarrow> 48 \<le> (of_char c :: nat) \<and> (of_char c :: nat) \<le> 57"

definition decimal_value :: "string \<Rightarrow> nat" where
  "decimal_value s = foldl (\<lambda>acc c. 10 * acc + digit_value c) 0 s"

lemma digit_char:
  assumes "d < 10"
  shows "is_digit (char_of (48 + d))" "digit_value (char_of (48 + d)) = d"
proof -
  have "(of_char (char_of (48 + d)) :: nat) = 48 + d"
    using assms by (simp add: of_char_of)
  then show "is_digit (char_of (48 + d))" "digit_value (char_of (48 + d)) = d"
    using assms by (simp_all add: is_digit_def digit_value_def)
qed

lemma decimal_value_snoc: "decimal_value (s @ [c]) = 10 * decimal_value s + digit_value c"
  by (simp add: decimal_value_def)

lemma decimal_not_Nil [simp]: "decimal n \<noteq> []"
  by (subst decimal.simps) simp

lemma decimal_digits: "c \<in> set (decimal n) \<Longrightarrow> is_digit c"
proof (induction n arbitrary: c rule: decimal.induct)
  case (1 n)
  then show ?case
    by (subst (asm) (2) decimal.simps) (auto simp: digit_char split: if_splits)
qed

lemma decimal_value_decimal [simp]: "decimal_value (decimal n) = n"
proof (induction n rule: decimal.induct)
  case (1 n)
  show ?case
  proof (cases "n < 10")
    case True
    then show ?thesis
      by (subst decimal.simps) (simp add: decimal_value_def digit_char)
  next
    case False
    with 1 show ?thesis
      by (subst decimal.simps) (simp add: decimal_value_snoc digit_char)
  qed
qed

lemma length_decimal: "n < 10 ^ k \<Longrightarrow> 0 < k \<Longrightarrow> length (decimal n) \<le> k"
proof (induction n arbitrary: k rule: decimal.induct)
  case (1 n)
  show ?case
  proof (cases "n < 10")
    case True
    with 1 show ?thesis by (subst decimal.simps) simp
  next
    case False
    then obtain j where k: "k = Suc j" and j: "0 < j"
      using 1 by (metis One_nat_def Suc_pred gr0I neq0_conv power_one_right)
    with 1 False have "length (decimal (n div 10)) \<le> j"
      by (simp add: div_less_iff_less_mult mult.commute)
    with False k show ?thesis by (subst decimal.simps) simp
  qed
qed

text \<open>A loop that writes a comma before every item but the first.\<close>

fun comma_joined :: "string list \<Rightarrow> string" where
  "comma_joined [] = []"
| "comma_joined [x] = x"
| "comma_joined (x # y # ys) = x @ '','' @ comma_joined (y # ys)"

section \<open>The writer\<close>

record writer =
  wr_output :: "char list option"
  wr_capacity :: nat
  wr_required :: nat

definition NUL :: char where "NUL = char_of (0::nat)"

definition wr_character :: "char \<Rightarrow> writer \<Rightarrow> writer" where
  "wr_character v w =
     (let w' = (case wr_output w of
                  None \<Rightarrow> w
                | Some buf \<Rightarrow>
                    if wr_capacity w \<noteq> 0 \<and> wr_required w + 1 < wr_capacity w
                    then w\<lparr>wr_output := Some (buf[wr_required w := v])\<rparr> else w)
      in w'\<lparr>wr_required := wr_required w' + 1\<rparr>)"

definition wr_text :: "string \<Rightarrow> writer \<Rightarrow> writer" where
  "wr_text s w = fold wr_character s w"

text \<open>\<^verbatim>\<open>number\<close>: the do-while loop fills \<^verbatim>\<open>reversed\<close> from the least digit, a second loop reads it
  back. The list is the filled part of the twenty-byte local array.\<close>

function reversed_digits :: "u64 \<Rightarrow> char list" where
  "reversed_digits value =
     char_of (48 + unat (value mod 10)) #
     (if value div 10 = 0 then [] else reversed_digits (value div 10))"
  by pat_completeness auto
termination
proof (relation "measure unat", simp)
  fix v :: u64
  assume "v div 10 \<noteq> 0"
  then have "unat v div 10 \<noteq> 0"
    by (simp add: word_unat_eq_iff unat_div)
  then show "(v div 10, v) \<in> measure unat"
    by (simp add: unat_div)
qed

declare reversed_digits.simps [simp del]

definition wr_number :: "u64 \<Rightarrow> writer \<Rightarrow> writer" where
  "wr_number value w = fold wr_character (rev (reversed_digits value)) w"

definition wr_finish :: "writer \<Rightarrow> nat \<times> char list option" where
  "wr_finish w =
     (case wr_output w of
        None \<Rightarrow> (wr_required w, None)
      | Some buf \<Rightarrow>
          if wr_capacity w \<noteq> 0
          then let terminator = (if wr_required w < wr_capacity w then wr_required w
                                 else wr_capacity w - 1)
               in (wr_required w, Some (buf[terminator := NUL]))
          else (wr_required w, Some buf))"

text \<open>A formatter opens with \<^verbatim>\<open>if (output == nullptr) capacity = 0\<close>, then makes a fixed sequence
  of calls, then returns \<^verbatim>\<open>finish()\<close>.\<close>

datatype wr_op = W_text string | W_char char | W_number u64

definition writer_start :: "char list option \<Rightarrow> nat \<Rightarrow> writer" where
  "writer_start output capacity =
     \<lparr>wr_output = output,
      wr_capacity = (case output of None \<Rightarrow> 0 | Some _ \<Rightarrow> capacity), wr_required = 0\<rparr>"

fun wr_op_run :: "wr_op \<Rightarrow> writer \<Rightarrow> writer" where
  "wr_op_run (W_text s) w = wr_text s w"
| "wr_op_run (W_char c) w = wr_character c w"
| "wr_op_run (W_number n) w = wr_number n w"

definition wr_run :: "wr_op list \<Rightarrow> char list option \<Rightarrow> nat \<Rightarrow> nat \<times> char list option" where
  "wr_run ops output capacity = wr_finish (fold wr_op_run ops (writer_start output capacity))"

fun wr_op_string :: "wr_op \<Rightarrow> string" where
  "wr_op_string (W_text s) = s"
| "wr_op_string (W_char c) = [c]"
| "wr_op_string (W_number n) = decimal (unat n)"

definition rendered :: "wr_op list \<Rightarrow> string" where
  "rendered ops = concat (map wr_op_string ops)"

lemma rendered_simps [simp]:
  "rendered [] = []"
  "rendered (x # xs) = wr_op_string x @ rendered xs"
  "rendered (xs @ ys) = rendered xs @ rendered ys"
  by (simp_all add: rendered_def)

lemma rev_reversed_digits: "rev (reversed_digits v) = decimal (unat v)"
proof (induction v rule: reversed_digits.induct)
  case (1 v)
  have zero: "(v div 10 = 0) = (unat v < 10)"
    by (simp add: word_unat_eq_iff unat_div div_eq_0_iff)
  show ?case
  proof (cases "unat v < 10")
    case True
    with zero show ?thesis
      by (subst reversed_digits.simps, subst decimal.simps) (simp add: unat_mod)
  next
    case False
    with zero have nz: "v div 10 \<noteq> 0" by simp
    with 1 have "rev (reversed_digits (v div 10)) = decimal (unat v div 10)"
      by (simp add: unat_div)
    with False nz show ?thesis
      by (subst reversed_digits.simps, subst decimal.simps) (simp add: unat_mod)
  qed
qed

text \<open>The local array of twenty bytes is never overrun.\<close>

lemma length_reversed_digits: "length (reversed_digits v) \<le> 20"
proof -
  have "unat v < 10 ^ 20"
    using unat_lt64 [of v] by (rule less_trans) simp
  then have "length (decimal (unat v)) \<le> 20"
    by (rule length_decimal) simp
  then show ?thesis
    by (metis length_rev rev_reversed_digits)
qed

lemma wr_op_run_fold: "wr_op_run x w = fold wr_character (wr_op_string x) w"
  by (cases x) (simp_all add: wr_text_def wr_number_def rev_reversed_digits)

lemma fold_wr_op_run: "fold wr_op_run ops w = fold wr_character (rendered ops) w"
  by (induction ops arbitrary: w) (simp_all add: wr_op_run_fold)

section \<open>What a formatter leaves behind\<close>

definition kept :: "nat \<Rightarrow> string \<Rightarrow> nat" where
  "kept capacity t = min (length t) (capacity - 1)"

lemma fold_wr_null:
  "fold wr_character t (writer_start None c) =
     \<lparr>wr_output = None, wr_capacity = 0, wr_required = length t\<rparr>"
  by (induction t rule: rev_induct) (simp_all add: writer_start_def wr_character_def)

lemma fold_wr_some:
  assumes "c \<le> length buf"
  shows "fold wr_character t (writer_start (Some buf) c) =
     \<lparr>wr_output = Some (take (kept c t) t @ drop (kept c t) buf), wr_capacity = c,
      wr_required = length t\<rparr>"
proof (induction t rule: rev_induct)
  case Nil
  then show ?case by (simp add: writer_start_def kept_def)
next
  case (snoc x t)
  show ?case
  proof (cases "length t + 1 < c")
    case True
    then have k: "kept c t = length t" "kept c (t @ [x]) = Suc (length t)"
      by (simp_all add: kept_def)
    moreover have "(t @ drop (length t) buf)[length t := x] = t @ x # drop (Suc (length t)) buf"
      using True assms by (simp add: list_update_append flip: Cons_nth_drop_Suc)
    ultimately show ?thesis
      using True snoc by (simp add: wr_character_def)
  next
    case False
    then have "kept c (t @ [x]) = kept c t" "kept c t \<le> length t"
      by (auto simp: kept_def)
    then show ?thesis
      using False snoc by (auto simp: wr_character_def)
  qed
qed

lemma wr_run_null: "wr_run ops None c = (length (rendered ops), None)"
  by (simp add: wr_run_def fold_wr_op_run fold_wr_null wr_finish_def)

lemma wr_run_some:
  assumes c: "c \<le> length buf" "0 < c" and t: "rendered ops = t"
  shows "wr_run ops (Some buf) c =
     (length t, Some (take (c - 1) t @ NUL # drop (Suc (kept c t)) buf))"
proof -
  have fin: "wr_finish \<lparr>wr_output = Some b, wr_capacity = c, wr_required = length t\<rparr> =
      (length t, Some (b[kept c t := NUL]))" for b
    using c(2) by (auto simp: wr_finish_def Let_def kept_def)
  have "kept c t < length buf" "kept c t \<le> length t"
    using c by (auto simp: kept_def)
  then have "(take (kept c t) t @ drop (kept c t) buf)[kept c t := NUL] =
      take (kept c t) t @ NUL # drop (Suc (kept c t)) buf"
    by (simp add: list_update_append flip: Cons_nth_drop_Suc)
  moreover have "take (kept c t) t = take (c - 1) t"
    by (simp add: kept_def min_def)
  ultimately show ?thesis
    using c(1) by (simp add: wr_run_def fold_wr_op_run t fold_wr_some fin)
qed

lemma wr_run_zero: "wr_run ops (Some buf) 0 = (length (rendered ops), Some buf)"
  by (simp add: wr_run_def fold_wr_op_run fold_wr_some wr_finish_def kept_def)

end
