(* ===== verification/PlannerTypesV1.thy ===== *)
theory PlannerTypesV1
  imports Prelude
begin

text \<open>
  The data of \<^verbatim>\<open>planner/cpu_planner.h\<close>: capabilities, problem, variants, requests, candidate
  decisions and plans. A scoped enumeration with a fixed underlying type can hold any value of
  that type, and the code checks for it (\<^verbatim>\<open>default\<close> branches, fall-through returns); every
  enumeration therefore has one more constructor, ending in \<open>_other\<close>, for the values outside its
  enumerators.
\<close>

datatype CpuArchitectureV1 = arch1_unknown | arch1_x86_64 | arch1_aarch64 | arch1_other u8

datatype CpuFeatureV1 = feat1_portable_scalar_f32 | feat1_avx2 | feat1_fma

fun feature_bit_v1 :: "CpuFeatureV1 \<Rightarrow> u64" where
  "feature_bit_v1 feat1_portable_scalar_f32 = 1"
| "feature_bit_v1 feat1_avx2 = 2"
| "feature_bit_v1 feat1_fma = 4"

record CpuCapabilitiesV1 =
  cap1_version :: u32
  cap1_architecture :: CpuArchitectureV1
  cap1_detection_complete :: bool
  cap1_features :: u64
  cap1_usable_vector_bits :: u16

definition default_capabilities_v1 :: CpuCapabilitiesV1 where
  "default_capabilities_v1 =
     \<lparr>cap1_version = 1, cap1_architecture = arch1_unknown, cap1_detection_complete = False,
      cap1_features = feature_bit_v1 feat1_portable_scalar_f32, cap1_usable_vector_bits = 0\<rparr>"

definition has_feature_v1 :: "CpuCapabilitiesV1 \<Rightarrow> CpuFeatureV1 \<Rightarrow> bool" where
  "has_feature_v1 c f \<longleftrightarrow> cap1_features c AND feature_bit_v1 f \<noteq> 0"

datatype CpuScalarTypeV1 = scalar_invalid | scalar_f32 | scalar_other u8

datatype CpuLayoutV1 = layout_invalid | layout_row_major_contiguous | layout_other u8

record CpuGemmProblemV1 =
  prob_m :: i64
  prob_n :: i64
  prob_k :: i64
  prob_element_type :: CpuScalarTypeV1
  prob_accumulation_type :: CpuScalarTypeV1
  prob_layout :: CpuLayoutV1
  prob_minimum_alignment_bytes :: u32

datatype CpuGemmVariantV1 =
  var1_reference | var1_tiled | var1_compiler_vectorized | var1_other u8

datatype CpuGemmRequestV1 =
  req1_automatic | req1_force_reference | req1_force_tiled | req1_force_compiler_vectorized
  | req1_other u8

record CpuGemmVariantRecordV1 =
  rec1_variant :: CpuGemmVariantV1
  rec1_stable_id :: string
  rec1_required_features :: u64
  rec1_deterministic_priority :: u16

definition kCpuGemmVariantRegistryV1 :: "CpuGemmVariantRecordV1 list" where
  [registry_simps]: "kCpuGemmVariantRegistryV1 =
    [\<lparr>rec1_variant = var1_reference, rec1_stable_id = ''cpu.reference.f32.v1'',
      rec1_required_features = feature_bit_v1 feat1_portable_scalar_f32,
      rec1_deterministic_priority = 30\<rparr>,
     \<lparr>rec1_variant = var1_tiled, rec1_stable_id = ''cpu.tiled.f32.v1'',
      rec1_required_features = feature_bit_v1 feat1_portable_scalar_f32,
      rec1_deterministic_priority = 20\<rparr>,
     \<lparr>rec1_variant = var1_compiler_vectorized,
      rec1_stable_id = ''cpu.compiler-vectorized.avx2-fma.f32.v1'',
      rec1_required_features = feature_bit_v1 feat1_portable_scalar_f32 OR
        feature_bit_v1 feat1_avx2 OR feature_bit_v1 feat1_fma,
      rec1_deterministic_priority = 10\<rparr>]"

datatype CpuPlanStatusV1 =
  st1_selected | st1_no_legal_variant | st1_forced_variant_illegal | st1_invalid_problem
  | st1_invalid_capabilities | st1_other u8

record CpuCandidateDecisionV1 =
  dec1_variant :: CpuGemmVariantV1
  dec1_stable_id :: string
  dec1_legal :: bool
  dec1_reason :: reason
  dec1_estimated_cost :: u64
  dec1_deterministic_priority :: u16

record CpuGemmPlanV1 =
  plan1_version :: u32
  plan1_status :: CpuPlanStatusV1
  plan1_problem :: CpuGemmProblemV1
  plan1_capabilities :: CpuCapabilitiesV1
  plan1_request :: CpuGemmRequestV1
  plan1_candidates :: "CpuCandidateDecisionV1 list"
  plan1_selected_variant :: CpuGemmVariantV1
  plan1_selected_id :: string
  plan1_selection_reason :: reason

text \<open>The value of an enumerator, for the casts to an integer in the sources.\<close>

fun architecture_code_v1 :: "CpuArchitectureV1 \<Rightarrow> u8" where
  "architecture_code_v1 arch1_unknown = 0"
| "architecture_code_v1 arch1_x86_64 = 1"
| "architecture_code_v1 arch1_aarch64 = 2"
| "architecture_code_v1 (arch1_other c) = c"

fun variant_code_v1 :: "CpuGemmVariantV1 \<Rightarrow> nat" where
  "variant_code_v1 var1_reference = 0"
| "variant_code_v1 var1_tiled = 1"
| "variant_code_v1 var1_compiler_vectorized = 2"
| "variant_code_v1 (var1_other c) = unat c"

lemma feature_bits_v1_nonzero [simp]: "feature_bit_v1 f \<noteq> 0"
  by (cases f) simp_all

end
