(* ===== verification/GemmKernels.thy ===== *)
theory GemmKernels
  imports PlannerTypesV1
begin

text \<open>
  The three in-tree CPU kernels of \<^verbatim>\<open>planner/cpu_planner.h\<close>. A \<^verbatim>\<open>float\<close> is a value of an
  arbitrary type with three operations and no laws: nothing below uses associativity,
  commutativity or a neutral element, so two kernels shown equal here perform the same additions
  in the same order on every output cell and agree bit for bit (as long as the compiler neither
  contracts nor reassociates them, which \<^verbatim>\<open>platform/fp_compile_contract_v1.h\<close> is there to
  forbid). A buffer is a list of floats; the three buffers do not overlap.
\<close>

record 'f float_ops =
  fl_zero :: 'f
  fl_add :: "'f \<Rightarrow> 'f \<Rightarrow> 'f"
  fl_mul :: "'f \<Rightarrow> 'f \<Rightarrow> 'f"

definition dim :: "i64 \<Rightarrow> nat" where
  "dim x = nat (sint x)"

lemma unat_positive_dim:
  assumes "0 < sint x"
  shows "unat x = dim x"
proof -
  have "sint x < 2 ^ 64"
    using sint_lt [of x] by simp
  then have "uint x = sint x"
    using assms by (simp add: uint_sint take_bit_int_eq_self)
  then show ?thesis
    by (simp add: dim_def flip: nat_uint_eq)
qed

definition reference_gemm ::
  "'f float_ops \<Rightarrow> CpuGemmProblemV1 \<Rightarrow> 'f list \<Rightarrow> 'f list \<Rightarrow> 'f list \<Rightarrow> 'f list" where
  "reference_gemm F problem lhs rhs out =
     (let m = dim (prob_m problem); n = dim (prob_n problem); k = dim (prob_k problem)
      in fold (\<lambda>i. fold (\<lambda>j out.
           let sum = fold (\<lambda>p sum. fl_add F sum (fl_mul F (lhs ! (i * k + p)) (rhs ! (p * n + j))))
                       [0..<k] (fl_zero F)
           in out[i * n + j := sum]) [0..<n]) [0..<m] out)"

text \<open>\<^verbatim>\<open>for (x = lo; x < bound; x += step)\<close>\<close>

function strided :: "nat \<Rightarrow> nat \<Rightarrow> nat \<Rightarrow> nat list" where
  "strided lo step bound =
     (if lo < bound \<and> 0 < step then lo # strided (lo + step) step bound else [])"
  by pat_completeness auto
termination
  by (relation "measure (\<lambda>(lo, step, bound). bound - lo)") auto

declare strided.simps [simp del]

definition tiled_gemm ::
  "'f float_ops \<Rightarrow> CpuGemmProblemV1 \<Rightarrow> 'f list \<Rightarrow> 'f list \<Rightarrow> 'f list \<Rightarrow> 'f list" where
  "tiled_gemm F problem lhs rhs out =
     (let m = dim (prob_m problem); n = dim (prob_n problem); k = dim (prob_k problem);
          tile_m = 32; tile_n = 32; tile_k = 64;
          cleared = fold (\<lambda>i. fold (\<lambda>j out. out[i * n + j := fl_zero F]) [0..<n]) [0..<m] out
      in fold (\<lambda>ii. let i_end = (if ii + tile_m < m then ii + tile_m else m) in
           fold (\<lambda>pp. let p_end = (if pp + tile_k < k then pp + tile_k else k) in
             fold (\<lambda>jj. let j_end = (if jj + tile_n < n then jj + tile_n else n) in
               fold (\<lambda>i. fold (\<lambda>p. let a = lhs ! (i * k + p) in
                 fold (\<lambda>j out. out[i * n + j :=
                           fl_add F (out ! (i * n + j)) (fl_mul F a (rhs ! (p * n + j)))])
                   [jj..<j_end]) [pp..<p_end]) [ii..<i_end])
               (strided 0 tile_n n))
             (strided 0 tile_k k))
           (strided 0 tile_m m) cleared)"

definition compiler_vectorized_gemm ::
  "'f float_ops \<Rightarrow> CpuGemmProblemV1 \<Rightarrow> 'f list \<Rightarrow> 'f list \<Rightarrow> 'f list \<Rightarrow> 'f list" where
  "compiler_vectorized_gemm F problem lhs rhs out =
     (let m = dim (prob_m problem); n = dim (prob_n problem); k = dim (prob_k problem);
          cleared = fold (\<lambda>i. fold (\<lambda>j out. out[i * n + j := fl_zero F]) [0..<n]) [0..<m] out
      in fold (\<lambda>i. fold (\<lambda>p. let a = lhs ! (i * k + p) in
           fold (\<lambda>j out. out[i * n + j :=
                     fl_add F (out ! (i * n + j)) (fl_mul F a (rhs ! (p * n + j)))])
             [0..<n]) [0..<k]) [0..<m] cleared)"

section \<open>The specification\<close>

definition dot :: "'f float_ops \<Rightarrow> nat \<Rightarrow> nat \<Rightarrow> 'f list \<Rightarrow> 'f list \<Rightarrow> nat \<Rightarrow> nat \<Rightarrow> 'f" where
  "dot F n k lhs rhs i j =
     fold (\<lambda>p s. fl_add F s (fl_mul F (lhs ! (i * k + p)) (rhs ! (p * n + j)))) [0..<k] (fl_zero F)"

definition gemm_result ::
  "'f float_ops \<Rightarrow> CpuGemmProblemV1 \<Rightarrow> 'f list \<Rightarrow> 'f list \<Rightarrow> 'f list \<Rightarrow> 'f list" where
  "gemm_result F problem lhs rhs out =
     (let m = dim (prob_m problem); n = dim (prob_n problem); k = dim (prob_k problem)
      in map (\<lambda>c. if c < m * n then dot F n k lhs rhs (c div n) (c mod n) else out ! c)
           [0..<length out])"

text \<open>A kernel's contract; everything a caller needs follows from it.\<close>

locale gemm_kernel =
  fixes kernel :: "'f float_ops \<Rightarrow> CpuGemmProblemV1 \<Rightarrow> 'f list \<Rightarrow> 'f list \<Rightarrow> 'f list \<Rightarrow> 'f list"
  assumes kernel_result: "kernel F problem lhs rhs out = gemm_result F problem lhs rhs out"
begin

lemma length_kernel [simp]: "length (kernel F problem lhs rhs out) = length out"
  by (simp add: kernel_result gemm_result_def Let_def)

lemma kernel_outside:
  "dim (prob_m problem) * dim (prob_n problem) \<le> c \<Longrightarrow> c < length out \<Longrightarrow>
   kernel F problem lhs rhs out ! c = out ! c"
  by (simp add: kernel_result gemm_result_def Let_def)

lemma kernel_inside:
  "i < dim (prob_m problem) \<Longrightarrow> j < dim (prob_n problem) \<Longrightarrow>
   dim (prob_m problem) * dim (prob_n problem) \<le> length out \<Longrightarrow>
   kernel F problem lhs rhs out ! (i * dim (prob_n problem) + j) =
     dot F (dim (prob_n problem)) (dim (prob_k problem)) lhs rhs i j"
proof -
  assume i: "i < dim (prob_m problem)" and j: "j < dim (prob_n problem)"
    and len: "dim (prob_m problem) * dim (prob_n problem) \<le> length out"
  have "i * dim (prob_n problem) + j < Suc i * dim (prob_n problem)" using j by simp
  also have "\<dots> \<le> dim (prob_m problem) * dim (prob_n problem)"
    using i by (intro mult_le_mono1) simp
  finally show ?thesis
    using j len by (simp add: kernel_result gemm_result_def Let_def)
qed

end

section \<open>Loops that act cell by cell\<close>

text \<open>\<open>cellwise f g\<close>: the array transformer \<open>f\<close> keeps the length, and what it leaves in cell \<open>c\<close>
  is \<open>g c\<close> of what it found there. Loop nests over \<open>out\<close> are cellwise, level by level.\<close>

definition cellwise :: "('f list \<Rightarrow> 'f list) \<Rightarrow> (nat \<Rightarrow> 'f \<Rightarrow> 'f) \<Rightarrow> bool" where
  "cellwise f g \<longleftrightarrow>
     (\<forall>out. length (f out) = length out \<and> (\<forall>c < length out. f out ! c = g c (out ! c)))"

lemma cellwise_update: "cellwise (\<lambda>out. out[a := h (out ! a)]) (\<lambda>c v. if c = a then h v else v)"
  by (auto simp: cellwise_def nth_list_update)

lemma cellwise_fold:
  assumes "\<And>x. cellwise (f x) (g x)"
  shows "cellwise (fold f xs) (\<lambda>c. fold (\<lambda>x. g x c) xs)"
proof (induction xs)
  case Nil
  then show ?case by (simp add: cellwise_def)
next
  case (Cons x xs)
  with assms [of x] show ?case by (auto simp: cellwise_def)
qed

lemma cellwise_eq_map:
  "cellwise f g \<Longrightarrow> f out = map (\<lambda>c. g c (out ! c)) [0..<length out]"
  by (auto simp: cellwise_def intro: nth_equalityI)

lemma fold_if_const: "fold (\<lambda>x v. if C then f x v else v) xs v = (if C then fold f xs v else v)"
  by (induction xs arbitrary: v) auto

lemma fold_id [simp]: "fold (\<lambda>x v. v) xs = (\<lambda>v. v)"
  by (induction xs) (auto simp: fun_eq_iff)

lemma fold_single:
  "fold (\<lambda>x v. if x = a then f x v else v) [lo..<hi] v = (if lo \<le> a \<and> a < hi then f a v else v)"
  by (induction hi) auto

lemma fold_single_and:
  "fold (\<lambda>x v. if x = a \<and> C then f x v else v) [lo..<hi] v =
   (if lo \<le> a \<and> a < hi \<and> C then f a v else v)"
  by (induction hi) auto

text \<open>A strided loop visits each position of its range in exactly one tile.\<close>

lemma fold_strided_tile:
  assumes "lo \<le> x" "x < bound" "0 < step"
  shows "fold (\<lambda>t v. if t \<le> x \<and> x < (if t + step < bound then t + step else bound) then f v else v)
           (strided lo step bound) v = f v"
  using assms
proof (induction lo step bound arbitrary: v rule: strided.induct)
  case (1 lo step bound)
  have skip: "x < t \<Longrightarrow> fold (\<lambda>t v. if t \<le> x \<and>
      x < (if t + step < bound then t + step else bound) then f v else v)
      (strided t step bound) v = v" for t v
  proof (induction t step bound arbitrary: v rule: strided.induct)
    case (1 t step bound)
    then show ?case by (subst strided.simps) auto
  qed
  show ?case
  proof (cases "x < lo + step")
    case True
    with 1 skip [of "lo + step"] show ?thesis by (subst strided.simps) auto
  next
    case False
    with 1 show ?thesis by (subst strided.simps) auto
  qed
qed

lemma fold_strided_concat:
  assumes "0 < step"
  shows "fold (\<lambda>t. fold f [t..<(if t + step < bound then t + step else bound)])
           (strided lo step bound) v = fold f [lo..<bound] v"
  using assms
proof (induction lo step bound arbitrary: v rule: strided.induct)
  case (1 lo step bound)
  show ?case
  proof (cases "lo + step < bound")
    case True
    then have "[lo..<bound] = [lo..<lo + step] @ [lo + step..<bound]"
      by (metis less_imp_le_nat le_add1 upt_add_eq_append le_add_diff_inverse)
    with True 1 show ?thesis by (subst strided.simps) simp
  next
    case False
    then have "strided (lo + step) step bound = []"
      by (subst strided.simps) simp
    with False 1 show ?thesis by (subst strided.simps) auto
  qed
qed

lemma cell_iff:
  fixes i j n c :: nat
  assumes "j < n"
  shows "(c = i * n + j) = (i = c div n \<and> j = c mod n)"
  using assms by auto

text \<open>The cell effect of clearing the output and of adding one product.\<close>

definition acc :: "'f float_ops \<Rightarrow> nat \<Rightarrow> nat \<Rightarrow> 'f list \<Rightarrow> 'f list \<Rightarrow> nat \<Rightarrow> nat \<Rightarrow> 'f \<Rightarrow> 'f" where
  "acc F n k lhs rhs c p v =
     fl_add F v (fl_mul F (lhs ! (c div n * k + p)) (rhs ! (p * n + c mod n)))"

lemma dot_acc: "dot F n k lhs rhs (c div n) (c mod n) = fold (acc F n k lhs rhs c) [0..<k] (fl_zero F)"
  by (simp add: dot_def acc_def [abs_def])

lemma inner_row:
  assumes "hi \<le> n"
  shows "fold (\<lambda>j v. if c = i * n + j then f j v else v) [lo..<hi] v =
         (if i = c div n \<and> lo \<le> c mod n \<and> c mod n < hi then f (c mod n) v else v)"
proof -
  have "fold (\<lambda>j v. if c = i * n + j then f j v else v) [lo..<hi] v =
        fold (\<lambda>j v. if j = c mod n \<and> i = c div n then f j v else v) [lo..<hi] v"
    using assms by (intro List.fold_cong refl) (auto simp: cell_iff)
  then show ?thesis
    by (auto simp: fold_single_and)
qed

lemma in_range_iff: "(c div n < m \<and> 0 < n) = (c < m * (n::nat))"
  by (cases "n = 0") (auto simp: div_less_iff_less_mult mult.commute)

text \<open>The cell effect of a whole block: rows \<open>[ilo..<ihi]\<close>, depth \<open>ps\<close>, columns \<open>[jlo..<jhi]\<close>.\<close>

lemma block_loop:
  assumes "jhi \<le> n"
  shows "fold (\<lambda>i. fold (\<lambda>p. fold (\<lambda>j v. if c = i * n + j then f i p j v else v) [jlo..<jhi]) ps)
           [ilo..<ihi] v =
         (if ilo \<le> c div n \<and> c div n < ihi \<and> jlo \<le> c mod n \<and> c mod n < jhi
          then fold (\<lambda>p. f (c div n) p (c mod n)) ps v else v)"
proof -
  let ?in = "jlo \<le> c mod n \<and> c mod n < jhi"
  have j: "fold (\<lambda>j v. if c = i * n + j then f i p j v else v) [jlo..<jhi] =
      (\<lambda>v. if i = c div n \<and> ?in then f i p (c mod n) v else v)" for i p
    using assms by (intro ext) (simp add: inner_row)
  have p: "fold (\<lambda>p. fold (\<lambda>j v. if c = i * n + j then f i p j v else v) [jlo..<jhi]) ps =
      (\<lambda>v. if i = c div n \<and> ?in then fold (\<lambda>p. f i p (c mod n)) ps v else v)" for i
    unfolding j by (intro ext) (simp only: fold_if_const)
  show ?thesis
    unfolding p fold_single_and by auto
qed

lemma cell_loop:
  "fold (\<lambda>i. fold (\<lambda>j v. if c = i * n + j then f i j v else v) [0..<n]) [0..<m] v =
   (if c < m * n then f (c div n) (c mod n) v else v)"
  using block_loop [of n n c "\<lambda>i p j. f i j" 0 "[()]" 0 m v] in_range_iff [of c n m]
  by auto

lemma cleared_cell:
  "cellwise (fold (\<lambda>i. fold (\<lambda>j out. out[i * n + j := z]) [0..<n]) [0..<m])
     (\<lambda>c v. if c < m * n then z else v)"
proof -
  let ?g = "\<lambda>c. fold (\<lambda>i. fold (\<lambda>j v. if c = i * n + j then z else v) [0..<n]) [0..<m]"
  have "cellwise (fold (\<lambda>i. fold (\<lambda>j out. out[i * n + j := z]) [0..<n]) [0..<m]) ?g"
    by (intro cellwise_fold) (rule cellwise_update [of _ "\<lambda>_. z"])
  moreover have "?g = (\<lambda>c v. if c < m * n then z else v)"
    by (intro ext) (rule cell_loop)
  ultimately show ?thesis
    by simp
qed

lemma cellwise_comp:
  "cellwise f g \<Longrightarrow> cellwise f' g' \<Longrightarrow> cellwise (\<lambda>out. f (f' out)) (\<lambda>c v. g c (g' c v))"
  by (simp add: cellwise_def)

section \<open>The kernels meet the contract\<close>

lemma reference_cell:
  "reference_gemm F problem lhs rhs out = gemm_result F problem lhs rhs out"
proof -
  let ?m = "dim (prob_m problem)" and ?n = "dim (prob_n problem)" and ?k = "dim (prob_k problem)"
  let ?d = "\<lambda>i j. dot F ?n ?k lhs rhs i j"
  let ?g = "\<lambda>c. fold (\<lambda>i. fold (\<lambda>j v. if c = i * ?n + j then ?d i j else v) [0..<?n]) [0..<?m]"
  have "cellwise (\<lambda>out. reference_gemm F problem lhs rhs out) ?g"
    unfolding reference_gemm_def Let_def dot_def [symmetric]
    by (intro cellwise_fold) (rule cellwise_update [of _ "\<lambda>_. ?d _ _"])
  moreover have "?g c v = (if c < ?m * ?n then ?d (c div ?n) (c mod ?n) else v)" for c v
    by (rule cell_loop)
  ultimately show ?thesis
    by (simp only: cellwise_eq_map [of _ ?g] gemm_result_def Let_def)
qed

lemma acc_fold:
  "fold (\<lambda>p v. fl_add F v (fl_mul F (lhs ! (c div n * k + p)) (rhs ! (p * n + c mod n)))) ps =
   fold (acc F n k lhs rhs c) ps"
  by (simp add: acc_def [abs_def])

lemma vectorized_cell:
  "compiler_vectorized_gemm F problem lhs rhs out = gemm_result F problem lhs rhs out"
proof -
  let ?m = "dim (prob_m problem)" and ?n = "dim (prob_n problem)" and ?k = "dim (prob_k problem)"
  let ?f = "\<lambda>i p j v. fl_add F v (fl_mul F (lhs ! (i * ?k + p)) (rhs ! (p * ?n + j)))"
  let ?g = "\<lambda>c. fold (\<lambda>i. fold (\<lambda>p. fold (\<lambda>j v. if c = i * ?n + j then ?f i p j v else v)
      [0..<?n]) [0..<?k]) [0..<?m]"
  have "cellwise (fold (\<lambda>i. fold (\<lambda>p. fold (\<lambda>j out. out[i * ?n + j := ?f i p j (out ! (i * ?n + j))])
      [0..<?n]) [0..<?k]) [0..<?m]) ?g"
    by (intro cellwise_fold cellwise_update)
  from cellwise_comp [OF this cleared_cell [of ?n "fl_zero F" ?m]]
  have "cellwise (\<lambda>out. compiler_vectorized_gemm F problem lhs rhs out)
      (\<lambda>c v. ?g c (if c < ?m * ?n then fl_zero F else v))"
    by (simp only: compiler_vectorized_gemm_def Let_def)
  moreover have "?g c (if c < ?m * ?n then fl_zero F else v) =
      (if c < ?m * ?n then dot F ?n ?k lhs rhs (c div ?n) (c mod ?n) else v)" for c v
    using in_range_iff [of c ?n ?m]
    by (subst block_loop) (auto simp: dot_acc acc_fold)
  ultimately show ?thesis
    by (simp only: cellwise_eq_map [of _ "\<lambda>c v. ?g c (if c < ?m * ?n then fl_zero F else v)"]
        gemm_result_def Let_def)
qed

text \<open>The tile loops: at one cell only the row tile and the column tile that hold it act, and the
  depth tiles add the products in increasing \<open>p\<close>, as the reference does.\<close>

lemma tile_loops:
  fixes f :: "nat \<Rightarrow> nat \<Rightarrow> nat \<Rightarrow> 'f \<Rightarrow> 'f"
  assumes "0 < tm" "0 < tn" "0 < tk"
  shows "fold (\<lambda>ii. fold (\<lambda>pp. fold (\<lambda>jj.
           fold (\<lambda>i. fold (\<lambda>p. fold (\<lambda>j v. if c = i * n + j then f i p j v else v)
             [jj..<(if jj + tn < n then jj + tn else n)])
             [pp..<(if pp + tk < k then pp + tk else k)])
             [ii..<(if ii + tm < m then ii + tm else m)])
           (strided 0 tn n)) (strided 0 tk k)) (strided 0 tm m) v =
         (if c < m * n then fold (\<lambda>p. f (c div n) p (c mod n)) [0..<k] v else v)"
    (is "fold (\<lambda>ii. fold (\<lambda>pp. fold (\<lambda>jj. ?B ii pp jj) _) _) _ v = _")
proof -
  let ?e = "\<lambda>x t b. if x + t < (b::nat) then x + t else b"
  let ?h = "\<lambda>p. f (c div n) p (c mod n)"
  let ?I = "\<lambda>ii. ii \<le> c div n \<and> c div n < ?e ii tm m"
  let ?J = "\<lambda>jj. jj \<le> c mod n \<and> c mod n < ?e jj tn n"
  have blk: "?B ii pp jj = (\<lambda>v. if ?J jj then (if ?I ii then fold ?h [pp..<?e pp tk k] v else v) else v)"
    for ii pp jj
    by (intro ext, subst block_loop) auto
  show ?thesis
  proof (cases "c < m * n")
    case True
    then have n: "0 < n" and row: "c div n < m" and col: "c mod n < n"
      using in_range_iff [of c n m] by auto
    have cols: "fold (?B ii pp) (strided 0 tn n) =
        (\<lambda>v. if ?I ii then fold ?h [pp..<?e pp tk k] v else v)" for ii pp
      unfolding blk using col assms(2) by (intro ext fold_strided_tile) auto
    have depth: "fold (\<lambda>pp. fold (?B ii pp) (strided 0 tn n)) (strided 0 tk k) =
        (\<lambda>v. if ?I ii then fold ?h [0..<k] v else v)" for ii
      unfolding cols
      by (intro ext) (simp only: fold_if_const fold_strided_concat [OF assms(3), of ?h k 0])
    show ?thesis
      unfolding depth using True row assms(1)
      by (subst fold_strided_tile) auto
  next
    case False
    have out: "\<not> (?I ii \<and> ?J jj)" for ii jj
      using False in_range_iff [of c n m] by (auto split: if_splits)
    have "?B ii pp jj = (\<lambda>v. v)" for ii pp jj
      unfolding blk using out [of ii jj]
      by (cases "?J jj"; cases "?I ii") (simp_all only: if_True if_False simp_thms)
    then show ?thesis using False by simp
  qed
qed

lemma tiled_cell:
  "tiled_gemm F problem lhs rhs out = gemm_result F problem lhs rhs out"
proof -
  let ?m = "dim (prob_m problem)" and ?n = "dim (prob_n problem)" and ?k = "dim (prob_k problem)"
  let ?e = "\<lambda>x t b. if x + t < (b::nat) then x + t else b"
  let ?f = "\<lambda>i p j v. fl_add F v (fl_mul F (lhs ! (i * ?k + p)) (rhs ! (p * ?n + j)))"
  let ?g = "\<lambda>c. fold (\<lambda>ii. fold (\<lambda>pp. fold (\<lambda>jj.
           fold (\<lambda>i. fold (\<lambda>p. fold (\<lambda>j v. if c = i * ?n + j then ?f i p j v else v)
             [jj..<?e jj 32 ?n]) [pp..<?e pp 64 ?k]) [ii..<?e ii 32 ?m])
           (strided 0 32 ?n)) (strided 0 64 ?k)) (strided 0 32 ?m)"
  have "cellwise (fold (\<lambda>ii. fold (\<lambda>pp. fold (\<lambda>jj.
           fold (\<lambda>i. fold (\<lambda>p. fold (\<lambda>j out. out[i * ?n + j := ?f i p j (out ! (i * ?n + j))])
             [jj..<?e jj 32 ?n]) [pp..<?e pp 64 ?k]) [ii..<?e ii 32 ?m])
           (strided 0 32 ?n)) (strided 0 64 ?k)) (strided 0 32 ?m)) ?g"
    by (intro cellwise_fold cellwise_update)
  from cellwise_comp [OF this cleared_cell [of ?n "fl_zero F" ?m]]
  have "cellwise (\<lambda>out. tiled_gemm F problem lhs rhs out)
      (\<lambda>c v. ?g c (if c < ?m * ?n then fl_zero F else v))"
    by (simp only: tiled_gemm_def Let_def)
  moreover have "?g c (if c < ?m * ?n then fl_zero F else v) =
      (if c < ?m * ?n then dot F ?n ?k lhs rhs (c div ?n) (c mod ?n) else v)" for c v
    by (subst tile_loops) (auto simp: dot_acc acc_fold)
  ultimately show ?thesis
    by (simp only: cellwise_eq_map [of _ "\<lambda>c v. ?g c (if c < ?m * ?n then fl_zero F else v)"]
        gemm_result_def Let_def)
qed

interpretation reference: gemm_kernel reference_gemm
  by unfold_locales (rule reference_cell)

interpretation tiled: gemm_kernel tiled_gemm
  by unfold_locales (rule tiled_cell)

interpretation vectorized: gemm_kernel compiler_vectorized_gemm
  by unfold_locales (rule vectorized_cell)

end
