(* ===== verification/PlannerV1.thy ===== *)
theory PlannerV1
  imports Selection DiagnosticWriter GemmKernels
begin

text \<open>
  The first planner generation, \<^verbatim>\<open>planner/cpu_planner.h\<close>: capability discovery, the legality
  gates, the static cost model, \<^verbatim>\<open>plan_cpu_gemm_v1\<close>, \<^verbatim>\<open>execute_cpu_gemm_plan_v1\<close>,
  \<^verbatim>\<open>pointer_alignment_bytes\<close> and \<^verbatim>\<open>format_cpu_gemm_plan_v1\<close>. The compile-time macro
  \<^verbatim>\<open>MATCORE_MDSLC_CPU_INSTRUMENTED_BUILD\<close> is the parameter \<open>instrumented\<close>. The planning loop
  decides every candidate and searches the best one in the same pass; the decision does not read
  the search state, so the model computes the decisions first and searches them in registry order.
\<close>

section \<open>Capability discovery\<close>

definition cpu_compiler_vectorization_build_available_v1 :: "bool \<Rightarrow> bool" where
  "cpu_compiler_vectorization_build_available_v1 instrumented \<longleftrightarrow> \<not> instrumented"

text \<open>The preprocessor branches: the answers of \<^verbatim>\<open>__builtin_cpu_supports\<close>, or (clang-cl) the
  registers \<^verbatim>\<open>(eax, ebx, ecx, edx)\<close> of \<^verbatim>\<open>__cpuidex\<close> for a leaf and the value of \<^verbatim>\<open>_xgetbv(0)\<close>.\<close>

datatype discovery_target_v1 =
  target_x86_gnu bool bool
  | target_x86_clang_cl "nat \<Rightarrow> u32 \<times> u32 \<times> u32 \<times> u32" u64
  | target_x86_other
  | target_aarch64
  | target_other

text \<open>Both x86 branches end in the same two updates of the record.\<close>

definition record_isa_v1 :: "CpuCapabilitiesV1 \<Rightarrow> bool \<Rightarrow> bool \<Rightarrow> CpuCapabilitiesV1" where
  "record_isa_v1 result avx2 fma =
    (let result = (if avx2
                   then result\<lparr>cap1_features := cap1_features result OR feature_bit_v1 feat1_avx2,
                               cap1_usable_vector_bits := 256\<rparr> else result)
     in if fma
        then result\<lparr>cap1_features := cap1_features result OR feature_bit_v1 feat1_fma\<rparr>
        else result)"

definition discover_cpu_capabilities_v1 :: "discovery_target_v1 \<Rightarrow> CpuCapabilitiesV1" where
  "discover_cpu_capabilities_v1 target =
    (let result = default_capabilities_v1 in
     case target of
       target_x86_gnu has_avx2 has_fma \<Rightarrow>
         record_isa_v1 (result\<lparr>cap1_architecture := arch1_x86_64, cap1_detection_complete := True\<rparr>)
           has_avx2 has_fma
     | target_x86_clang_cl cpuidex xgetbv0 \<Rightarrow>
         (let result = result\<lparr>cap1_architecture := arch1_x86_64\<rparr>;
              (maximum, _, _, _) = cpuidex 0
          in if 1 \<le> sint maximum
             then let result = result\<lparr>cap1_detection_complete := True\<rparr>;
                      (_, _, leaf1_ecx, _) = cpuidex 1;
                      (_, leaf7_ebx, _, _) = (if 7 \<le> sint maximum then cpuidex 7 else (0, 0, 0, 0));
                      hardware_avx = leaf1_ecx AND push_bit 28 1 \<noteq> 0;
                      hardware_fma = leaf1_ecx AND push_bit 12 1 \<noteq> 0;
                      osxsave = leaf1_ecx AND push_bit 27 1 \<noteq> 0;
                      hardware_avx2 = leaf7_ebx AND push_bit 5 1 \<noteq> 0;
                      required_xstate = push_bit 1 1 OR push_bit 2 1;
                      os_avx_state = (osxsave \<and> xgetbv0 AND required_xstate = required_xstate)
                  in record_isa_v1 result (hardware_avx \<and> hardware_avx2 \<and> os_avx_state)
                       (hardware_avx \<and> hardware_fma \<and> os_avx_state)
             else result)
     | target_x86_other \<Rightarrow> result\<lparr>cap1_architecture := arch1_x86_64\<rparr>
     | target_aarch64 \<Rightarrow> result\<lparr>cap1_architecture := arch1_aarch64, cap1_detection_complete := True\<rparr>
     | target_other \<Rightarrow> result)"

section \<open>Legality\<close>

definition kKnownCpuFeatureBitsV1 :: u64 where
  [registry_simps]: "kKnownCpuFeatureBitsV1 =
     feature_bit_v1 feat1_portable_scalar_f32 OR feature_bit_v1 feat1_avx2 OR feature_bit_v1 feat1_fma"

fun architecture_known_v1 :: "CpuArchitectureV1 \<Rightarrow> bool" where
  "architecture_known_v1 (arch1_other _) = False"
| "architecture_known_v1 _ = True"

definition capability_record_reason :: "CpuCapabilitiesV1 \<Rightarrow> reason" where
  "capability_record_reason capabilities =
    (if cap1_version capabilities \<noteq> 1
     then ''CPU capability record version is unsupported''
     else if \<not> architecture_known_v1 (cap1_architecture capabilities)
     then ''CPU capability record architecture is invalid''
     else if cap1_features capabilities AND NOT kKnownCpuFeatureBitsV1 \<noteq> 0
     then ''CPU capability record contains unknown feature bits''
     else if cap1_detection_complete capabilities \<and> cap1_architecture capabilities = arch1_unknown
     then ''complete CPU capability discovery requires a known architecture''
     else if has_feature_v1 capabilities feat1_avx2 \<and> cap1_architecture capabilities \<noteq> arch1_x86_64
     then ''AVX2 capability requires x86_64 architecture''
     else if cap1_usable_vector_bits capabilities \<noteq> 0 \<and> cap1_usable_vector_bits capabilities \<noteq> 128 \<and>
             cap1_usable_vector_bits capabilities \<noteq> 256 \<and> cap1_usable_vector_bits capabilities \<noteq> 512
     then ''CPU capability vector width is outside the v1 domain''
     else if cap1_usable_vector_bits capabilities \<noteq> 0 \<and>
             (\<not> has_feature_v1 capabilities feat1_avx2 \<or>
              cap1_architecture capabilities \<noteq> arch1_x86_64)
     then ''usable vector width requires modeled x86_64 AVX2 capability''
     else [])"

definition operation_count :: "CpuGemmProblemV1 \<Rightarrow> u64" where
  "operation_count problem =
    (if sint (prob_m problem) \<le> 0 \<or> sint (prob_n problem) \<le> 0 \<or> sint (prob_k problem) \<le> 0 then 0
     else saturating_multiply (saturating_multiply (prob_m problem) (prob_n problem)) (prob_k problem))"

definition common_legality_reason :: "CpuGemmProblemV1 \<Rightarrow> reason" where
  "common_legality_reason problem =
    (if sint (prob_m problem) \<le> 0 \<or> sint (prob_n problem) \<le> 0 \<or> sint (prob_k problem) \<le> 0
     then ''M, N, and K must be positive''
     else if prob_element_type problem \<noteq> scalar_f32
     then ''variant supports only f32 elements''
     else if prob_accumulation_type problem \<noteq> scalar_f32
     then ''variant supports only f32 accumulation''
     else if prob_layout problem \<noteq> layout_row_major_contiguous
     then ''variant requires row-major contiguous matrices''
     else if prob_minimum_alignment_bytes problem < 4
     then ''variant requires float-aligned storage''
     else if prob_minimum_alignment_bytes problem AND (prob_minimum_alignment_bytes problem - 1) \<noteq> 0
     then ''minimum alignment must be a power of two''
     else [])"

definition capability_legality_reason ::
  "bool \<Rightarrow> CpuGemmVariantRecordV1 \<Rightarrow> CpuCapabilitiesV1 \<Rightarrow> reason" where
  "capability_legality_reason instrumented record capabilities =
    (if cap1_version capabilities \<noteq> 1
     then ''CPU capability record version is unsupported''
     else if \<not> has_feature_v1 capabilities feat1_portable_scalar_f32
     then ''portable scalar f32 capability is required''
     else if rec1_variant record = var1_compiler_vectorized
     then if \<not> cap1_detection_complete capabilities
          then ''AVX2/FMA discovery is incomplete''
          else if cap1_features capabilities AND rec1_required_features record \<noteq>
                  rec1_required_features record
          then ''AVX2 and FMA are required''
          else if cap1_architecture capabilities \<noteq> arch1_x86_64
          then ''compiler-vectorized candidate requires x86_64''
          else if cap1_usable_vector_bits capabilities < 256
          then ''compiler-vectorized candidate requires 256-bit vectors''
          else if \<not> cpu_compiler_vectorization_build_available_v1 instrumented
          then ''compiler-vectorized implementation is unavailable in instrumented builds''
          else []
     else [])"

section \<open>Costs and requests\<close>

definition estimated_cost_v1 :: "CpuGemmVariantV1 \<Rightarrow> CpuGemmProblemV1 \<Rightarrow> u64" where
  "estimated_cost_v1 variant problem =
    (let work = operation_count problem in
     case variant of
       var1_reference \<Rightarrow> saturating_multiply work 8
     | var1_tiled \<Rightarrow>
         (let tail = i64_rem (prob_m problem) 32 + i64_rem (prob_n problem) 32 +
                     i64_rem (prob_k problem) 64
          in saturating_add (saturating_add (saturating_multiply work 4) 4096)
               (saturating_multiply tail 64))
     | var1_compiler_vectorized \<Rightarrow>
         (let cost = saturating_add (saturating_multiply work 2) 16384;
              cost = (if prob_minimum_alignment_bytes problem < 32
                      then saturating_add cost 24576 else cost)
          in saturating_add cost (saturating_multiply (i64_rem (prob_n problem) 8) 128))
     | var1_other _ \<Rightarrow> u64_max)"

fun request_matches_v1 :: "CpuGemmRequestV1 \<Rightarrow> CpuGemmVariantV1 \<Rightarrow> bool" where
  "request_matches_v1 req1_automatic variant = True"
| "request_matches_v1 req1_force_reference variant = (variant = var1_reference)"
| "request_matches_v1 req1_force_tiled variant = (variant = var1_tiled)"
| "request_matches_v1 req1_force_compiler_vectorized variant = (variant = var1_compiler_vectorized)"
| "request_matches_v1 (req1_other _) variant = False"

section \<open>Planning\<close>

definition decide_v1 ::
  "bool \<Rightarrow> CpuGemmProblemV1 \<Rightarrow> CpuCapabilitiesV1 \<Rightarrow> CpuGemmVariantRecordV1 \<Rightarrow> CpuCandidateDecisionV1"
where
  "decide_v1 instrumented problem capabilities record =
    (let problem_reason = common_legality_reason problem;
         capability_reason = capability_record_reason capabilities;
         decision = \<lparr>dec1_variant = rec1_variant record, dec1_stable_id = rec1_stable_id record,
                     dec1_legal = False, dec1_reason = [], dec1_estimated_cost = u64_max,
                     dec1_deterministic_priority = rec1_deterministic_priority record\<rparr>
     in if problem_reason \<noteq> [] then decision\<lparr>dec1_reason := problem_reason\<rparr>
        else if capability_reason \<noteq> [] then decision\<lparr>dec1_reason := capability_reason\<rparr>
        else let variant_capability_reason =
                   capability_legality_reason instrumented record capabilities
             in if variant_capability_reason \<noteq> []
                then decision\<lparr>dec1_reason := variant_capability_reason\<rparr>
                else decision\<lparr>dec1_legal := True, dec1_reason := ''legal'',
                              dec1_estimated_cost := estimated_cost_v1 (rec1_variant record) problem\<rparr>)"

definition eligible_v1 :: "CpuGemmRequestV1 \<Rightarrow> CpuCandidateDecisionV1 \<Rightarrow> bool" where
  "eligible_v1 request d \<longleftrightarrow> dec1_legal d \<and> request_matches_v1 request (dec1_variant d)"

definition search_step_v1 ::
  "CpuGemmRequestV1 \<Rightarrow> nat \<Rightarrow> CpuCandidateDecisionV1 \<Rightarrow> CpuGemmVariantV1 search \<Rightarrow>
   CpuGemmVariantV1 search" where
  "search_step_v1 request index d s =
    (if \<not> dec1_legal d then s
     else if \<not> request_matches_v1 request (dec1_variant d) then s
     else search_step index (dec1_estimated_cost d) (dec1_deterministic_priority d)
            (dec1_variant d) (dec1_stable_id d) s)"

definition plan_cpu_gemm_v1 ::
  "bool \<Rightarrow> CpuGemmProblemV1 \<Rightarrow> CpuCapabilitiesV1 \<Rightarrow> CpuGemmRequestV1 \<Rightarrow> CpuGemmPlanV1" where
  "plan_cpu_gemm_v1 instrumented problem capabilities request =
    (let problem_reason = common_legality_reason problem;
         capability_reason = capability_record_reason capabilities;
         candidates = map (decide_v1 instrumented problem capabilities) kCpuGemmVariantRegistryV1;
         s = search_over (search_step_v1 request) 0 candidates
               (search_start var1_reference (length kCpuGemmVariantRegistryV1));
         plan = \<lparr>plan1_version = 1, plan1_status = st1_no_legal_variant, plan1_problem = problem,
                 plan1_capabilities = capabilities, plan1_request = request,
                 plan1_candidates = candidates, plan1_selected_variant = srch_variant s,
                 plan1_selected_id = srch_id s, plan1_selection_reason = []\<rparr>
     in if problem_reason \<noteq> []
        then plan\<lparr>plan1_status := st1_invalid_problem, plan1_selection_reason := problem_reason\<rparr>
        else if capability_reason \<noteq> []
        then plan\<lparr>plan1_status := st1_invalid_capabilities,
                  plan1_selection_reason := capability_reason\<rparr>
        else if \<not> srch_found s
        then plan\<lparr>plan1_status := (if request = req1_automatic then st1_no_legal_variant
                                   else st1_forced_variant_illegal),
                  plan1_selection_reason := (if request = req1_automatic
                                             then ''no legal CPU GEMM variant''
                                             else ''requested CPU GEMM variant is illegal'')\<rparr>
        else plan\<lparr>plan1_status := st1_selected,
                  plan1_selection_reason :=
                    (if request = req1_automatic
                     then ''lowest deterministic cost; ties use priority then registry order''
                     else ''explicit legal variant request'')\<rparr>)"

text \<open>Buffers are \<open>None\<close> for the null pointer. The result is the returned flag and the output
  buffer afterwards.\<close>

definition execute_cpu_gemm_plan_v1 ::
  "'f float_ops \<Rightarrow> CpuGemmPlanV1 \<Rightarrow> 'f list option \<Rightarrow> 'f list option \<Rightarrow> 'f list option \<Rightarrow>
   bool \<times> 'f list option" where
  "execute_cpu_gemm_plan_v1 F plan lhs rhs out =
    (case (lhs, rhs, out) of
       (Some l, Some r, Some b) \<Rightarrow>
         if plan1_status plan \<noteq> st1_selected then (False, out)
         else let selected_index = variant_code_v1 (plan1_selected_variant plan) in
           if length (plan1_candidates plan) \<le> selected_index \<or>
              \<not> dec1_legal (plan1_candidates plan ! selected_index) \<or>
              dec1_variant (plan1_candidates plan ! selected_index) \<noteq> plan1_selected_variant plan
           then (False, out)
           else (case plan1_selected_variant plan of
                   var1_reference \<Rightarrow> (True, Some (reference_gemm F (plan1_problem plan) l r b))
                 | var1_tiled \<Rightarrow> (True, Some (tiled_gemm F (plan1_problem plan) l r b))
                 | var1_compiler_vectorized \<Rightarrow>
                     (True, Some (compiler_vectorized_gemm F (plan1_problem plan) l r b))
                 | var1_other _ \<Rightarrow> (False, out))
     | _ \<Rightarrow> (False, out))"

text \<open>\<^verbatim>\<open>while (alignment < 64 && address % (alignment * 2) == 0) alignment *= 2\<close>, from 1 on, so that
  \<open>alignment\<close> is positive whenever the guard is read.\<close>

function alignment_loop :: "nat \<Rightarrow> nat \<Rightarrow> nat" where
  "alignment_loop address alignment =
    (if 0 < alignment \<and> alignment < 64 \<and> address mod (alignment * 2) = 0
     then alignment_loop address (alignment * 2) else alignment)"
  by pat_completeness auto
termination
  by (relation "measure (\<lambda>(address, alignment). 64 - alignment)") auto

declare alignment_loop.simps [simp del]

definition pointer_alignment_bytes :: "u64 \<Rightarrow> nat" where
  "pointer_alignment_bytes address =
    (if address = 0 then 0 else alignment_loop (unat address) 1)"

section \<open>Formatting\<close>

definition write_feature_v1 ::
  "CpuCapabilitiesV1 \<Rightarrow> CpuFeatureV1 \<Rightarrow> string \<Rightarrow> wr_op list \<times> bool \<Rightarrow> wr_op list \<times> bool" where
  "write_feature_v1 capabilities feature name st =
    (let (ops, wrote_feature) = st in
     if \<not> has_feature_v1 capabilities feature then st
     else (ops @ (if wrote_feature then [W_char CHR '','', W_text name] else [W_text name]), True))"

fun architecture_ops_v1 :: "CpuArchitectureV1 \<Rightarrow> wr_op list" where
  "architecture_ops_v1 arch1_unknown = [W_text ''unknown'']"
| "architecture_ops_v1 arch1_x86_64 = [W_text ''x86_64'']"
| "architecture_ops_v1 arch1_aarch64 = [W_text ''aarch64'']"
| "architecture_ops_v1 (arch1_other c) =
     [W_text ''invalid('', W_number (ucast c), W_char CHR '')'']"

fun request_name_v1 :: "CpuGemmRequestV1 \<Rightarrow> string" where
  "request_name_v1 req1_automatic = ''automatic''"
| "request_name_v1 req1_force_reference = ''force-reference''"
| "request_name_v1 req1_force_tiled = ''force-tiled''"
| "request_name_v1 req1_force_compiler_vectorized = ''force-compiler-vectorized''"
| "request_name_v1 (req1_other _) = ''invalid''"

fun status_name_v1 :: "CpuPlanStatusV1 \<Rightarrow> string" where
  "status_name_v1 st1_selected = ''selected''"
| "status_name_v1 st1_no_legal_variant = ''no-legal-variant''"
| "status_name_v1 st1_forced_variant_illegal = ''forced-variant-illegal''"
| "status_name_v1 st1_invalid_problem = ''invalid-problem''"
| "status_name_v1 st1_invalid_capabilities = ''invalid-capabilities''"
| "status_name_v1 (st1_other _) = ''invalid''"

definition dimension_op :: "i64 \<Rightarrow> wr_op" where
  "dimension_op x = W_number (if sint x > 0 then x else 0)"

definition candidate_ops_v1 :: "CpuCandidateDecisionV1 \<Rightarrow> wr_op list" where
  "candidate_ops_v1 d =
     [W_text (dec1_stable_id d), W_char CHR '':''] @
     (if dec1_legal d then [W_text ''legal:cost='', W_number (dec1_estimated_cost d)]
      else [W_text ''rejected:'', W_text (dec1_reason d)])"

fun comma_separated :: "wr_op list list \<Rightarrow> wr_op list" where
  "comma_separated [] = []"
| "comma_separated [x] = x"
| "comma_separated (x # xs) = x @ [W_char CHR '',''] @ comma_separated xs"

definition plan_ops_v1 :: "CpuGemmPlanV1 \<Rightarrow> wr_op list" where
  "plan_ops_v1 plan =
    (let capabilities = plan1_capabilities plan;
         (features, wrote_feature) =
           write_feature_v1 capabilities feat1_fma ''fma''
             (write_feature_v1 capabilities feat1_avx2 ''avx2''
               (write_feature_v1 capabilities feat1_portable_scalar_f32 ''portable-scalar-f32''
                 ([], False)));
         unknown_feature_bits = cap1_features capabilities AND NOT kKnownCpuFeatureBitsV1
     in [W_text ''cpu-planner-v1 arch=''] @ architecture_ops_v1 (cap1_architecture capabilities) @
        [W_text '' detection_complete='',
         W_text (if cap1_detection_complete capabilities then ''true'' else ''false''),
         W_text '' features=[''] @ features @
        (if unknown_feature_bits \<noteq> 0
         then (if wrote_feature then [W_char CHR '',''] else []) @
              [W_text ''unknown-bits='', W_number unknown_feature_bits] else []) @
        [W_text ''] vector_bits='', W_number (ucast (cap1_usable_vector_bits capabilities)),
         W_text '' request='', W_text (request_name_v1 (plan1_request plan)),
         W_text '' status='', W_text (status_name_v1 (plan1_status plan)),
         W_text '' m='', dimension_op (prob_m (plan1_problem plan)),
         W_text '' n='', dimension_op (prob_n (plan1_problem plan)),
         W_text '' k='', dimension_op (prob_k (plan1_problem plan)),
         W_text '' selected='',
         W_text (if plan1_selected_id plan = [] then ''none'' else plan1_selected_id plan),
         W_text '' reason='', W_text (plan1_selection_reason plan),
         W_text '' candidates=[''] @
        comma_separated (map candidate_ops_v1 (plan1_candidates plan)) @ [W_char CHR '']''])"

definition format_cpu_gemm_plan_v1 ::
  "CpuGemmPlanV1 \<Rightarrow> char list option \<Rightarrow> nat \<Rightarrow> nat \<times> char list option" where
  "format_cpu_gemm_plan_v1 plan output capacity = wr_run (plan_ops_v1 plan) output capacity"

section \<open>The search is the shared search\<close>

interpretation v1: candidate_search "eligible_v1 request" dec1_estimated_cost
    dec1_deterministic_priority dec1_variant dec1_stable_id "search_step_v1 request" for request
  by unfold_locales (auto simp: eligible_v1_def search_step_v1_def)

abbreviation v1_ready :: "CpuGemmProblemV1 \<Rightarrow> CpuCapabilitiesV1 \<Rightarrow> bool" where
  "v1_ready problem capabilities \<equiv>
     common_legality_reason problem = [] \<and> capability_record_reason capabilities = []"

lemma length_registry_v1 [simp]: "length kCpuGemmVariantRegistryV1 = 3"
  by (simp add: registry_simps)

lemma candidates_v1:
  "plan1_candidates (plan_cpu_gemm_v1 ins problem caps req) =
     map (decide_v1 ins problem caps) kCpuGemmVariantRegistryV1"
  by (simp add: plan_cpu_gemm_v1_def Let_def)

lemma decide_v1_fields [simp]:
  "dec1_variant (decide_v1 ins problem caps r) = rec1_variant r"
  "dec1_stable_id (decide_v1 ins problem caps r) = rec1_stable_id r"
  "dec1_deterministic_priority (decide_v1 ins problem caps r) = rec1_deterministic_priority r"
  by (simp_all add: decide_v1_def Let_def)

lemma decide_v1_legal:
  "dec1_legal (decide_v1 ins problem caps r) \<longleftrightarrow>
     v1_ready problem caps \<and> capability_legality_reason ins r caps = []"
  by (simp add: decide_v1_def Let_def)

lemma decide_v1_reason:
  "dec1_reason (decide_v1 ins problem caps r) =
     (if common_legality_reason problem \<noteq> [] then common_legality_reason problem
      else if capability_record_reason caps \<noteq> [] then capability_record_reason caps
      else if capability_legality_reason ins r caps \<noteq> [] then capability_legality_reason ins r caps
      else ''legal'')"
  by (simp add: decide_v1_def Let_def)

lemma plan_v1_status_cases:
  "plan1_status (plan_cpu_gemm_v1 ins problem caps req) =
    (if common_legality_reason problem \<noteq> [] then st1_invalid_problem
     else if capability_record_reason caps \<noteq> [] then st1_invalid_capabilities
     else if \<exists>d \<in> set (plan1_candidates (plan_cpu_gemm_v1 ins problem caps req)). eligible_v1 req d
     then st1_selected
     else if req = req1_automatic then st1_no_legal_variant else st1_forced_variant_illegal)"
  by (simp add: plan_cpu_gemm_v1_def Let_def v1.not_found_iff [of req])

lemma eligible_candidate_v1:
  "(\<exists>d \<in> set (plan1_candidates (plan_cpu_gemm_v1 ins problem caps req)). eligible_v1 req d) \<longleftrightarrow>
   v1_ready problem caps \<and> (\<exists>r \<in> set kCpuGemmVariantRegistryV1.
     request_matches_v1 req (rec1_variant r) \<and> capability_legality_reason ins r caps = [])"
  by (auto simp: candidates_v1 eligible_v1_def decide_v1_legal)

lemma plan_v1_selected_iff:
  "plan1_status (plan_cpu_gemm_v1 ins problem caps req) = st1_selected \<longleftrightarrow>
   v1_ready problem caps \<and> (\<exists>r \<in> set kCpuGemmVariantRegistryV1.
     request_matches_v1 req (rec1_variant r) \<and> capability_legality_reason ins r caps = [])"
  unfolding plan_v1_status_cases eligible_candidate_v1 by auto

lemma plan_v1_best:
  assumes "plan1_status (plan_cpu_gemm_v1 ins problem caps req) = st1_selected"
  defines "p \<equiv> plan_cpu_gemm_v1 ins problem caps req"
  shows "\<exists>i. v1.best req (plan1_candidates p) i
      \<and> plan1_selected_variant p = dec1_variant (plan1_candidates p ! i)
      \<and> plan1_selected_id p = dec1_stable_id (plan1_candidates p ! i)"
proof -
  let ?s = "search_over (search_step_v1 req) 0 (plan1_candidates p) (search_start var1_reference 3)"
  have sel: "plan1_selected_variant p = srch_variant ?s" "plan1_selected_id p = srch_id ?s"
    by (simp_all add: p_def plan_cpu_gemm_v1_def Let_def)
  have "\<exists>d \<in> set (plan1_candidates p). eligible_v1 req d"
    using assms(1) unfolding p_def plan_v1_status_cases by (simp split: if_splits)
  then have "srch_found ?s"
    by (simp only: v1.not_found_iff)
  from v1.found_best [OF this] show ?thesis
    unfolding sel by blast
qed

lemma registry_v1_position:
  "i < 3 \<Longrightarrow> variant_code_v1 (rec1_variant (kCpuGemmVariantRegistryV1 ! i)) = i"
  by (auto simp: registry_simps less_Suc_eq numeral_3_eq_3)

lemma registry_v1_variants:
  "i < 3 \<Longrightarrow> rec1_variant (kCpuGemmVariantRegistryV1 ! i) \<in>
     {var1_reference, var1_tiled, var1_compiler_vectorized}"
  by (auto simp: registry_simps less_Suc_eq numeral_3_eq_3)

lemma plan_v1_request [simp]:
  "plan1_request (plan_cpu_gemm_v1 ins problem caps req) = req"
  "plan1_problem (plan_cpu_gemm_v1 ins problem caps req) = problem"
  "plan1_capabilities (plan_cpu_gemm_v1 ins problem caps req) = caps"
  by (simp_all add: plan_cpu_gemm_v1_def Let_def)

section \<open>A concrete input\<close>

definition small_problem :: CpuGemmProblemV1 where
  "small_problem = \<lparr>prob_m = 8, prob_n = 8, prob_k = 8, prob_element_type = scalar_f32,
     prob_accumulation_type = scalar_f32, prob_layout = layout_row_major_contiguous,
     prob_minimum_alignment_bytes = 64\<rparr>"

definition avx2_capabilities :: CpuCapabilitiesV1 where
  "avx2_capabilities = \<lparr>cap1_version = 1, cap1_architecture = arch1_x86_64,
     cap1_detection_complete = True, cap1_features = 7, cap1_usable_vector_bits = 256\<rparr>"

lemma example_ready: "v1_ready small_problem avx2_capabilities"
  by (simp add: small_problem_def common_legality_reason_def avx2_capabilities_def
      capability_record_reason_def kKnownCpuFeatureBitsV1_def has_feature_v1_def)

lemma example_selected:
  "plan1_status (plan_cpu_gemm_v1 False small_problem avx2_capabilities req1_automatic) = st1_selected"
  using example_ready
  by (simp add: plan_v1_selected_iff registry_simps capability_legality_reason_def
      avx2_capabilities_def has_feature_v1_def)

section \<open>Properties\<close>

text \<open>A plan of the first generation that reports \<^verbatim>\<open>selected\<close> names a candidate that is legal
  and matches the request, and no legal matching candidate is cheaper; ties go to the lower
  priority number, then to the earlier registry entry.\<close>

theorem plan_v1_selects_best:
  assumes "plan1_status (plan_cpu_gemm_v1 ins problem caps req) = st1_selected"
  shows "\<exists>i < 3. let cs = plan1_candidates (plan_cpu_gemm_v1 ins problem caps req); d = cs ! i in
     dec1_legal d \<and> request_matches_v1 req (dec1_variant d) \<and>
     plan1_selected_variant (plan_cpu_gemm_v1 ins problem caps req) = dec1_variant d \<and>
     plan1_selected_id (plan_cpu_gemm_v1 ins problem caps req) = dec1_stable_id d \<and>
     (\<forall>j < 3. dec1_legal (cs ! j) \<and> request_matches_v1 req (dec1_variant (cs ! j)) \<longrightarrow>
        dec1_estimated_cost d < dec1_estimated_cost (cs ! j) \<or>
        dec1_estimated_cost d = dec1_estimated_cost (cs ! j) \<and>
          (dec1_deterministic_priority d < dec1_deterministic_priority (cs ! j) \<or>
           dec1_deterministic_priority d = dec1_deterministic_priority (cs ! j) \<and> i \<le> j))"
proof -
  have len: "length (plan1_candidates (plan_cpu_gemm_v1 ins problem caps req)) = 3"
    by (simp add: candidates_v1)
  from plan_v1_best [OF assms] obtain i where
    "v1.best req (plan1_candidates (plan_cpu_gemm_v1 ins problem caps req)) i"
    "plan1_selected_variant (plan_cpu_gemm_v1 ins problem caps req) =
       dec1_variant (plan1_candidates (plan_cpu_gemm_v1 ins problem caps req) ! i)"
    "plan1_selected_id (plan_cpu_gemm_v1 ins problem caps req) =
       dec1_stable_id (plan1_candidates (plan_cpu_gemm_v1 ins problem caps req) ! i)"
    by blast
  then show ?thesis
    unfolding v1.best_iff len Let_def by (intro exI [of _ i]) (simp add: eligible_v1_def)
qed

theorem plan_v1_selects_best_witness:
  "\<exists>i < 3. dec1_legal (plan1_candidates (plan_cpu_gemm_v1 False small_problem avx2_capabilities
       req1_automatic) ! i) \<and>
     plan1_selected_variant (plan_cpu_gemm_v1 False small_problem avx2_capabilities req1_automatic) =
       dec1_variant (plan1_candidates (plan_cpu_gemm_v1 False small_problem avx2_capabilities
         req1_automatic) ! i)"
  using plan_v1_selects_best [OF example_selected] by (auto simp: Let_def)

text \<open>The status of a first-generation plan is decided by the record checks first (problem,
  then capabilities); otherwise the plan is \<^verbatim>\<open>selected\<close> exactly when some registry entry matches
  the request and passes its capability gate. An automatic request on a valid problem and record
  with the portable feature is therefore always planned.\<close>

theorem plan_v1_status:
  "plan1_status (plan_cpu_gemm_v1 ins problem caps req) =
    (if common_legality_reason problem \<noteq> [] then st1_invalid_problem
     else if capability_record_reason caps \<noteq> [] then st1_invalid_capabilities
     else if \<exists>r \<in> set kCpuGemmVariantRegistryV1.
               request_matches_v1 req (rec1_variant r) \<and> capability_legality_reason ins r caps = []
     then st1_selected
     else if req = req1_automatic then st1_no_legal_variant else st1_forced_variant_illegal)
   \<and> (v1_ready problem caps \<and> has_feature_v1 caps feat1_portable_scalar_f32 \<longrightarrow>
        plan1_status (plan_cpu_gemm_v1 ins problem caps req1_automatic) = st1_selected)"
proof -
  have "capability_record_reason caps = [] \<Longrightarrow> has_feature_v1 caps feat1_portable_scalar_f32 \<Longrightarrow>
      \<exists>r \<in> set kCpuGemmVariantRegistryV1. capability_legality_reason ins r caps = []"
    by (auto simp: registry_simps capability_legality_reason_def capability_record_reason_def
        split: if_splits)
  then show ?thesis
    unfolding plan_v1_status_cases eligible_candidate_v1 by auto
qed

theorem plan_v1_status_witness:
  "plan1_status (plan_cpu_gemm_v1 False small_problem avx2_capabilities req1_automatic) = st1_selected"
proof -
  have "has_feature_v1 avx2_capabilities feat1_portable_scalar_f32"
    by (simp add: has_feature_v1_def avx2_capabilities_def)
  with example_ready show ?thesis
    using plan_v1_status [of False small_problem avx2_capabilities req1_automatic] by blast
qed

text \<open>Executing a plan made by the planner runs a kernel exactly when the plan is
  \<^verbatim>\<open>selected\<close> and no buffer is null; whichever of the three kernels was selected, every output
  cell holds the same sequence of additions as the reference kernel's, the cells past \<open>m * n\<close> are
  untouched, and a refused execution writes nothing.\<close>

theorem execute_plan_v1_result:
  fixes F :: "'f float_ops"
  shows "execute_cpu_gemm_plan_v1 F (plan_cpu_gemm_v1 ins problem caps req) lhs rhs out =
    (case (lhs, rhs, out) of
       (Some l, Some r, Some b) \<Rightarrow>
         if plan1_status (plan_cpu_gemm_v1 ins problem caps req) = st1_selected
         then (True, Some (gemm_result F problem l r b)) else (False, out)
     | _ \<Rightarrow> (False, out))"
proof (cases "plan1_status (plan_cpu_gemm_v1 ins problem caps req) = st1_selected")
  case True
  let ?p = "plan_cpu_gemm_v1 ins problem caps req"
  from plan_v1_best [OF True] obtain i where i: "i < 3"
    and legal: "dec1_legal (plan1_candidates ?p ! i)"
    and sel: "plan1_selected_variant ?p = rec1_variant (kCpuGemmVariantRegistryV1 ! i)"
    by (auto simp: v1.best_def eligible_v1_def candidates_v1)
  then have code: "variant_code_v1 (plan1_selected_variant ?p) = i"
    and same: "dec1_variant (plan1_candidates ?p ! i) = plan1_selected_variant ?p"
    and len: "length (plan1_candidates ?p) = 3"
    by (simp_all add: registry_v1_position candidates_v1)
  have "plan1_selected_variant ?p \<in> {var1_reference, var1_tiled, var1_compiler_vectorized}"
    using registry_v1_variants [OF i] sel by simp
  then show ?thesis
    using True i legal code same len
    by (auto simp: execute_cpu_gemm_plan_v1_def reference.kernel_result tiled.kernel_result
        vectorized.kernel_result split: option.splits)
next
  case False
  then show ?thesis
    by (auto simp: execute_cpu_gemm_plan_v1_def split: option.splits)
qed

text \<open>The tiled and the vectorised kernel compute, cell by cell, the same floating-point
  expression as the reference triple loop, for any addition and multiplication whatsoever.\<close>

theorem kernels_agree:
  fixes F :: "'f float_ops"
  shows "tiled_gemm F problem lhs rhs out = reference_gemm F problem lhs rhs out
    \<and> compiler_vectorized_gemm F problem lhs rhs out = reference_gemm F problem lhs rhs out"
  by (simp add: reference.kernel_result tiled.kernel_result vectorized.kernel_result)

lemma has_feature_default [simp]:
  "has_feature_v1 c feat1_avx2 \<longleftrightarrow> cap1_features c AND 2 \<noteq> 0"
  "has_feature_v1 c feat1_fma \<longleftrightarrow> cap1_features c AND 4 \<noteq> 0"
  "has_feature_v1 c feat1_portable_scalar_f32 \<longleftrightarrow> cap1_features c AND 1 \<noteq> 0"
  by (simp_all add: has_feature_v1_def)

definition accepted_v1 :: "CpuCapabilitiesV1 \<Rightarrow> bool" where
  "accepted_v1 c \<longleftrightarrow> capability_record_reason c = []
     \<and> has_feature_v1 c feat1_portable_scalar_f32
     \<and> (has_feature_v1 c feat1_avx2 \<longleftrightarrow> cap1_usable_vector_bits c = 256)"

lemma record_isa_accepted:
  "accepted_v1 (record_isa_v1 (default_capabilities_v1
     \<lparr>cap1_architecture := arch1_x86_64, cap1_detection_complete := dc\<rparr>) a f)"
  by (cases a; cases f) (simp_all add: accepted_v1_def record_isa_v1_def default_capabilities_v1_def
      capability_record_reason_def kKnownCpuFeatureBitsV1_def)

lemma discover_accepted: "accepted_v1 (discover_cpu_capabilities_v1 target)"
proof (cases target)
  case (target_x86_gnu a f)
  then show ?thesis
    by (simp add: discover_cpu_capabilities_v1_def record_isa_accepted)
next
  case (target_x86_clang_cl cpuidex xgetbv0)
  have "accepted_v1 (default_capabilities_v1\<lparr>cap1_architecture := arch1_x86_64\<rparr>)"
    by (simp add: accepted_v1_def default_capabilities_v1_def
      capability_record_reason_def kKnownCpuFeatureBitsV1_def)
  with target_x86_clang_cl show ?thesis
    by (simp add: discover_cpu_capabilities_v1_def Let_def record_isa_accepted split: prod.split)
qed (simp_all add: discover_cpu_capabilities_v1_def accepted_v1_def default_capabilities_v1_def
        capability_record_reason_def kKnownCpuFeatureBitsV1_def)

text \<open>Every capability record that discovery can produce, on every target and for every answer
  of the processor, passes the planner's own record check and reports the portable feature; AVX2
  is reported exactly with a 256-bit vector width.\<close>

theorem discover_v1_accepted:
  "capability_record_reason (discover_cpu_capabilities_v1 target) = []
   \<and> has_feature_v1 (discover_cpu_capabilities_v1 target) feat1_portable_scalar_f32
   \<and> (has_feature_v1 (discover_cpu_capabilities_v1 target) feat1_avx2 \<longleftrightarrow>
        cap1_usable_vector_bits (discover_cpu_capabilities_v1 target) = 256)"
  using discover_accepted [of target] unfolding accepted_v1_def .

lemma alignment_loop_spec:
  assumes "2 ^ e dvd address" "e \<le> 6"
  shows "\<exists>r \<le> 6. e \<le> r \<and> alignment_loop address (2 ^ e) = 2 ^ r \<and> 2 ^ r dvd address \<and>
           (r = 6 \<or> \<not> 2 ^ Suc r dvd address)"
  using assms
proof (induction "6 - e" arbitrary: e)
  case 0
  then have "e = 6" by simp
  then show ?case
    using 0 by (intro exI [of _ 6]) (simp add: alignment_loop.simps)
next
  case (Suc d)
  then have e: "e < 6" by simp
  then have lt: "(2::nat) ^ e < 64"
    using power_strict_increasing [of e 6 "2::nat"] by simp
  show ?case
  proof (cases "2 ^ Suc e dvd address")
    case True
    then have "alignment_loop address (2 ^ e) = alignment_loop address (2 ^ Suc e)"
      using lt by (subst alignment_loop.simps) (simp add: mult.commute dvd_eq_mod_eq_0)
    with Suc.hyps(1) [of "Suc e"] Suc.hyps(2) True e show ?thesis
      by (metis Suc_leD Suc_leI Suc_diff_Suc diff_Suc_1)
  next
    case False
    then have "alignment_loop address (2 ^ e) = 2 ^ e"
      using lt by (subst alignment_loop.simps) (simp add: mult.commute dvd_eq_mod_eq_0)
    with False Suc.prems show ?thesis by auto
  qed
qed

text \<open>The alignment reported for a non-null address is the largest power of two that divides
  it, capped at 64 bytes (and 0 for the null pointer).\<close>

theorem pointer_alignment_largest:
  "(address = 0 \<longrightarrow> pointer_alignment_bytes address = 0) \<and>
   (address \<noteq> 0 \<longrightarrow> (\<exists>r \<le> 6. pointer_alignment_bytes address = 2 ^ r \<and> 2 ^ r dvd unat address \<and>
        (r = 6 \<or> \<not> 2 ^ Suc r dvd unat address)))"
  using alignment_loop_spec [of 0 "unat address"]
  by (auto simp: pointer_alignment_bytes_def)

theorem pointer_alignment_largest_witness:
  "\<exists>r \<le> 6. pointer_alignment_bytes 4128 = 2 ^ r \<and> \<not> 2 ^ Suc r dvd unat (4128 :: u64)"
proof -
  have "(4128 :: u64) \<noteq> 0" by simp
  then obtain r where "r \<le> 6" "pointer_alignment_bytes 4128 = 2 ^ r" "2 ^ r dvd unat (4128 :: u64)"
    "r = 6 \<or> \<not> 2 ^ Suc r dvd unat (4128 :: u64)"
    using pointer_alignment_largest [of 4128] by blast
  moreover have "\<not> (2::nat) ^ 6 dvd unat (4128 :: u64)" by simp
  ultimately show ?thesis by blast
qed

section \<open>The cost model in exact arithmetic\<close>

abbreviation sat :: "nat \<Rightarrow> nat" where
  "sat x \<equiv> min x 18446744073709551615"

lemma sat_mult:
  assumes "0 < c"
  shows "sat (sat a * c) = sat (a * (c::nat))"
proof (cases "a \<le> 18446744073709551615")
  case True
  then show ?thesis by simp
next
  case False
  obtain c' where c: "c = Suc c'" using assms by (cases c) auto
  have "18446744073709551615 \<le> 18446744073709551615 * c" "18446744073709551615 \<le> a * c"
    using False unfolding c mult_Suc_right by linarith+
  with False show ?thesis by simp
qed

lemma sat_add: "sat (sat a + b) = sat (a + b)" "sat (a + sat b) = sat (a + b)"
  by (simp_all add: min_def)

lemma unat_operation_count:
  assumes "common_legality_reason problem = []"
  shows "unat (operation_count problem) =
    sat (dim (prob_m problem) * dim (prob_n problem) * dim (prob_k problem))"
proof -
  have pos: "0 < sint (prob_m problem)" "0 < sint (prob_n problem)" "0 < sint (prob_k problem)"
    using assms by (auto simp: common_legality_reason_def split: if_splits)
  then have "0 < dim (prob_k problem)" by (simp add: dim_def)
  from sat_mult [OF this] show ?thesis
    using pos by (simp add: operation_count_def unat_saturating_multiply unat_positive_dim not_le)
qed

lemma unat_i64_rem:
  assumes "0 < sint x" "0 < k" "k < 2 ^ 63"
  shows "unat (i64_rem x (int k)) = dim x mod k"
proof -
  have "sint x smod int k = sint x mod int k"
    using assms by (simp add: signed_modulo_int_def)
  also have "\<dots> = int (dim x mod k)"
    using assms by (simp add: dim_def zmod_int)
  finally have "i64_rem x (int k) = word_of_nat (dim x mod k)"
    by (simp add: i64_rem_def)
  moreover have "dim x mod k < 2 ^ 64"
    using mod_less_divisor [OF assms(2), of "dim x"] assms(3) by simp
  ultimately show ?thesis
    by (simp add: unsigned_of_nat take_bit_nat_eq_self)
qed

lemma sat_cost_reference:
  assumes "unat work = sat w"
  shows "unat (saturating_multiply work 8) = sat (8 * w)"
  using assms by (simp add: unat_saturating_multiply min_def)

lemma sat_cost_tiled:
  assumes "unat work = sat w"
  shows "unat (saturating_add (saturating_add (saturating_multiply work 4) 4096)
     (saturating_multiply tail 64)) = sat (4 * w + 4096 + 64 * unat tail)"
  using assms by (simp add: unat_saturating_multiply unat_saturating_add min_def)

lemma sat_cost_vectorized:
  assumes "unat work = sat w"
  shows "unat (saturating_add (if small then saturating_add (saturating_add
       (saturating_multiply work 2) 16384) 24576 else saturating_add (saturating_multiply work 2) 16384)
     (saturating_multiply tail 128)) =
     sat (2 * w + 16384 + (if small then 24576 else 0) + 128 * unat tail)"
  using assms by (simp add: unat_saturating_multiply unat_saturating_add min_def)

lemma unat_small_sum:
  fixes a b c :: u64
  assumes "unat a < 64" "unat b < 64" "unat c < 64"
  shows "unat (a + b + c) = unat a + unat b + unat c"
  using assms by (simp add: unat_plus_if')

text \<open>The first planner's costs are the intended linear functions of \<open>m * n * k\<close>, the tile
  tails and the alignment, computed in exact arithmetic and clamped once at \<open>2^64 - 1\<close>: no
  intermediate overflow distorts the comparison of candidates.\<close>

theorem estimated_cost_v1_exact:
  assumes "common_legality_reason problem = []"
  shows "let m = dim (prob_m problem); n = dim (prob_n problem); k = dim (prob_k problem);
             w = m * n * k
    in unat (estimated_cost_v1 var1_reference problem) = min (8 * w) (2 ^ 64 - 1) \<and>
       unat (estimated_cost_v1 var1_tiled problem) =
         min (4 * w + 4096 + 64 * (m mod 32 + n mod 32 + k mod 64)) (2 ^ 64 - 1) \<and>
       unat (estimated_cost_v1 var1_compiler_vectorized problem) =
         min (2 * w + 16384 + (if prob_minimum_alignment_bytes problem < 32 then 24576 else 0) +
              128 * (n mod 8)) (2 ^ 64 - 1)"
proof -
  let ?m = "dim (prob_m problem)" and ?n = "dim (prob_n problem)" and ?k = "dim (prob_k problem)"
  have pos: "0 < sint (prob_m problem)" "0 < sint (prob_n problem)" "0 < sint (prob_k problem)"
    using assms by (auto simp: common_legality_reason_def split: if_splits)
  note w = unat_operation_count [OF assms]
  have r: "unat (i64_rem (prob_m problem) 32) = ?m mod 32"
    "unat (i64_rem (prob_n problem) 32) = ?n mod 32"
    "unat (i64_rem (prob_k problem) 64) = ?k mod 64"
    "unat (i64_rem (prob_n problem) 8) = ?n mod 8"
    using unat_i64_rem [OF pos(1), of 32] unat_i64_rem [OF pos(2), of 32]
      unat_i64_rem [OF pos(3), of 64] unat_i64_rem [OF pos(2), of 8] by simp_all
  have small: "?m mod 32 < 64" "?n mod 32 < 64" "?k mod 64 < 64"
    using mod_less_divisor [of 32 ?m] mod_less_divisor [of 32 ?n] by simp_all
  have tail: "unat (i64_rem (prob_m problem) 32 + i64_rem (prob_n problem) 32 +
      i64_rem (prob_k problem) 64) = ?m mod 32 + ?n mod 32 + ?k mod 64"
    using small by (subst unat_small_sum) (simp_all add: r)
  show ?thesis
    by (simp only: estimated_cost_v1_def Let_def CpuGemmVariantV1.case
        sat_cost_reference [OF w] sat_cost_tiled [OF w] sat_cost_vectorized [OF w] tail r) simp
qed

theorem estimated_cost_v1_exact_witness:
  "unat (estimated_cost_v1 var1_reference
     \<lparr>prob_m = 3, prob_n = 5, prob_k = 7, prob_element_type = scalar_f32,
      prob_accumulation_type = scalar_f32, prob_layout = layout_row_major_contiguous,
      prob_minimum_alignment_bytes = 4\<rparr>) = 840"
  using estimated_cost_v1_exact [of "\<lparr>prob_m = 3, prob_n = 5, prob_k = 7,
      prob_element_type = scalar_f32, prob_accumulation_type = scalar_f32,
      prob_layout = layout_row_major_contiguous, prob_minimum_alignment_bytes = 4\<rparr>"]
  by (simp add: common_legality_reason_def dim_def Let_def)

end
