(* ===== verification/PlannerV2.thy ===== *)
theory PlannerV2
  imports PlannerV1
begin

text \<open>
  The second planner generation, \<^verbatim>\<open>planner/cpu_planner_v2.h\<close>: five candidates, among them the
  external OpenBLAS provider and the packed AVX2 kernel, with workspace and thread requirements.
  It asks the first generation whether a legacy variant is legal and adds its own gates.
\<close>

datatype CpuGemmVariantV2 =
  var2_reference | var2_tiled | var2_compiler_vectorized | var2_external_openblas
  | var2_native_packed_avx2_fma | var2_other u8

datatype CpuGemmRequestV2 =
  req2_automatic | req2_force_reference | req2_force_tiled | req2_force_compiler_vectorized
  | req2_force_external_openblas | req2_force_native_packed_avx2_fma | req2_other u8

record CpuGemmImplementationResourcesV1 =
  res1_openblas_linked :: bool
  res1_openblas_local_thread_control :: bool
  res1_native_packed_avx2_fma_compiled :: bool
  res1_native_packed_workspace_size_valid :: bool
  res1_native_packed_workspace_bytes :: u64
  res1_native_packed_workspace_alignment :: u32
  res1_openblas_maximum_threads :: u32
  res1_requested_threads :: u32
  res1_openblas_conformance_evaluated :: bool
  res1_openblas_conformant :: bool

record CpuGemmVariantRecordV2 =
  rec2_variant :: CpuGemmVariantV2
  rec2_stable_id :: string
  rec2_required_features :: u64
  rec2_deterministic_priority :: u16

definition kCpuGemmVariantRegistryV2 :: "CpuGemmVariantRecordV2 list" where
  [registry_simps]: "kCpuGemmVariantRegistryV2 =
    [\<lparr>rec2_variant = var2_reference, rec2_stable_id = ''cpu.reference.f32.v1'',
      rec2_required_features = feature_bit_v1 feat1_portable_scalar_f32,
      rec2_deterministic_priority = 50\<rparr>,
     \<lparr>rec2_variant = var2_tiled, rec2_stable_id = ''cpu.tiled.f32.v1'',
      rec2_required_features = feature_bit_v1 feat1_portable_scalar_f32,
      rec2_deterministic_priority = 40\<rparr>,
     \<lparr>rec2_variant = var2_compiler_vectorized,
      rec2_stable_id = ''cpu.compiler-vectorized.avx2-fma.f32.v1'',
      rec2_required_features = feature_bit_v1 feat1_portable_scalar_f32 OR
        feature_bit_v1 feat1_avx2 OR feature_bit_v1 feat1_fma,
      rec2_deterministic_priority = 30\<rparr>,
     \<lparr>rec2_variant = var2_external_openblas, rec2_stable_id = ''cpu.external.openblas.f32.v1'',
      rec2_required_features = feature_bit_v1 feat1_portable_scalar_f32,
      rec2_deterministic_priority = 10\<rparr>,
     \<lparr>rec2_variant = var2_native_packed_avx2_fma,
      rec2_stable_id = ''cpu.native-packed.avx2-fma.f32.v1'',
      rec2_required_features = feature_bit_v1 feat1_portable_scalar_f32 OR
        feature_bit_v1 feat1_avx2 OR feature_bit_v1 feat1_fma,
      rec2_deterministic_priority = 20\<rparr>]"

record CpuCandidateDecisionV2 =
  dec2_variant :: CpuGemmVariantV2
  dec2_stable_id :: string
  dec2_legal :: bool
  dec2_reason :: reason
  dec2_estimated_cost :: u64
  dec2_required_workspace_bytes :: u64
  dec2_required_workspace_alignment :: u32
  dec2_actual_threads :: u32
  dec2_deterministic_priority :: u16

record CpuGemmPlanV2 =
  plan2_version :: u32
  plan2_status :: CpuPlanStatusV1
  plan2_problem :: CpuGemmProblemV1
  plan2_capabilities :: CpuCapabilitiesV1
  plan2_resources :: CpuGemmImplementationResourcesV1
  plan2_request :: CpuGemmRequestV2
  plan2_candidates :: "CpuCandidateDecisionV2 list"
  plan2_selected_variant :: CpuGemmVariantV2
  plan2_selected_id :: string
  plan2_selection_reason :: reason

section \<open>Requests, gates and costs\<close>

fun legacy_request :: "CpuGemmVariantV2 \<Rightarrow> CpuGemmRequestV1" where
  "legacy_request var2_reference = req1_force_reference"
| "legacy_request var2_tiled = req1_force_tiled"
| "legacy_request var2_compiler_vectorized = req1_force_compiler_vectorized"
| "legacy_request var2_external_openblas = req1_force_reference"
| "legacy_request var2_native_packed_avx2_fma = req1_force_reference"
| "legacy_request (var2_other _) = req1_force_reference"

fun request_matches_v2 :: "CpuGemmRequestV2 \<Rightarrow> CpuGemmVariantV2 \<Rightarrow> bool" where
  "request_matches_v2 req2_automatic variant = True"
| "request_matches_v2 req2_force_reference variant = (variant = var2_reference)"
| "request_matches_v2 req2_force_tiled variant = (variant = var2_tiled)"
| "request_matches_v2 req2_force_compiler_vectorized variant = (variant = var2_compiler_vectorized)"
| "request_matches_v2 req2_force_external_openblas variant = (variant = var2_external_openblas)"
| "request_matches_v2 req2_force_native_packed_avx2_fma variant =
     (variant = var2_native_packed_avx2_fma)"
| "request_matches_v2 (req2_other _) variant = False"

definition INT_MAX :: int where "INT_MAX = 2147483647"

definition power_of_two_or_zero :: "u32 \<Rightarrow> bool" where
  "power_of_two_or_zero x \<longleftrightarrow> x AND (x - 1) = 0"

definition extra_legality_reason ::
  "CpuGemmVariantV2 \<Rightarrow> CpuGemmProblemV1 \<Rightarrow> CpuCapabilitiesV1 \<Rightarrow>
   CpuGemmImplementationResourcesV1 \<Rightarrow> reason" where
  "extra_legality_reason variant problem capabilities resources =
    (if res1_requested_threads resources = 0 then ''requested thread count must be positive''
     else case variant of
       var2_reference \<Rightarrow> [] | var2_tiled \<Rightarrow> [] | var2_compiler_vectorized \<Rightarrow> []
     | var2_external_openblas \<Rightarrow>
         (if \<not> res1_openblas_linked resources
          then ''OpenBLAS CBLAS adapter is not linked''
          else if \<not> res1_openblas_conformance_evaluated resources
          then ''OpenBLAS conformance was not evaluated for this request''
          else if \<not> res1_openblas_conformant resources
          then ''OpenBLAS conformance validation failed''
          else if \<not> res1_openblas_local_thread_control resources
          then ''OpenBLAS local thread control is unavailable''
          else if uint (res1_requested_threads resources) > INT_MAX
          then ''OpenBLAS thread count exceeds INT_MAX''
          else if res1_openblas_maximum_threads resources = 0
          then ''OpenBLAS provider thread ceiling is unavailable''
          else if res1_requested_threads resources > res1_openblas_maximum_threads resources
          then ''OpenBLAS requested thread count exceeds provider maximum''
          else if sint (prob_m problem) > INT_MAX \<or> sint (prob_n problem) > INT_MAX \<or>
                  sint (prob_k problem) > INT_MAX
          then ''OpenBLAS LP64 dimensions exceed INT_MAX''
          else [])
     | var2_native_packed_avx2_fma \<Rightarrow>
         (if \<not> res1_native_packed_avx2_fma_compiled resources
          then ''native packed AVX2/FMA implementation is not compiled''
          else if \<not> res1_native_packed_workspace_size_valid resources
          then ''native packed workspace requirement overflowed''
          else if res1_native_packed_workspace_alignment resources < 32 \<or>
                  \<not> power_of_two_or_zero (res1_native_packed_workspace_alignment resources)
          then ''native packed workspace alignment is invalid''
          else if \<not> cap1_detection_complete capabilities \<or>
                  cap1_architecture capabilities \<noteq> arch1_x86_64 \<or>
                  \<not> has_feature_v1 capabilities feat1_avx2 \<or>
                  \<not> has_feature_v1 capabilities feat1_fma \<or>
                  cap1_usable_vector_bits capabilities < 256
          then ''native packed candidate requires usable x86_64 AVX2/FMA''
          else if res1_requested_threads resources \<noteq> 1
          then ''native packed v1 is single-threaded''
          else [])
     | var2_other _ \<Rightarrow> ''unknown CPU GEMM variant'')"

definition packing_count :: "CpuGemmProblemV1 \<Rightarrow> u64" where
  "packing_count problem =
     saturating_add (saturating_multiply (prob_m problem) (prob_k problem))
       (saturating_multiply (prob_k problem) (prob_n problem))"

definition estimated_cost_v2 :: "CpuGemmVariantV2 \<Rightarrow> CpuGemmProblemV1 \<Rightarrow> u64" where
  "estimated_cost_v2 variant problem =
    (let work = operation_count problem; packing = packing_count problem in
     case variant of
       var2_reference \<Rightarrow> saturating_multiply work 16
     | var2_tiled \<Rightarrow> saturating_add (saturating_multiply work 7) 4096
     | var2_compiler_vectorized \<Rightarrow> saturating_add (saturating_multiply work 4) 16384
     | var2_external_openblas \<Rightarrow>
         (if prob_m problem = 1 then u64_max else saturating_add work 2000)
     | var2_native_packed_avx2_fma \<Rightarrow>
         saturating_add (saturating_add (saturating_multiply work 2) (saturating_multiply packing 6))
           48000
     | var2_other _ \<Rightarrow> u64_max)"

section \<open>Planning\<close>

fun legacy_index :: "CpuGemmVariantV2 \<Rightarrow> nat" where
  "legacy_index var2_reference = 0"
| "legacy_index var2_tiled = 1"
| "legacy_index _ = 2"

text \<open>The reason of the \<^verbatim>\<open>continue\<close> that rejects a candidate, \<open>None\<close> when the loop body runs to its
  end.\<close>

definition reject_v2 ::
  "bool \<Rightarrow> CpuGemmProblemV1 \<Rightarrow> CpuCapabilitiesV1 \<Rightarrow> CpuGemmImplementationResourcesV1 \<Rightarrow>
   CpuGemmVariantRecordV2 \<Rightarrow> reason option" where
  "reject_v2 instrumented problem capabilities resources record =
    (let base = plan_cpu_gemm_v1 instrumented problem capabilities req1_force_reference;
         variant = rec2_variant record;
         legacy = plan_cpu_gemm_v1 instrumented problem capabilities (legacy_request variant);
         extra_reason = extra_legality_reason variant problem capabilities resources
     in if plan1_status base = st1_invalid_problem \<or> plan1_status base = st1_invalid_capabilities
        then Some (plan1_selection_reason base)
        else if cap1_features capabilities AND rec2_required_features record \<noteq>
                rec2_required_features record
        then Some ''required CPU feature set is unavailable''
        else if variant \<in> {var2_reference, var2_tiled, var2_compiler_vectorized} \<and>
                plan1_status legacy \<noteq> st1_selected
        then Some (dec1_reason (plan1_candidates legacy ! legacy_index variant))
        else if extra_reason \<noteq> [] then Some extra_reason
        else None)"

definition decide_v2 ::
  "bool \<Rightarrow> CpuGemmProblemV1 \<Rightarrow> CpuCapabilitiesV1 \<Rightarrow> CpuGemmImplementationResourcesV1 \<Rightarrow>
   CpuGemmVariantRecordV2 \<Rightarrow> CpuCandidateDecisionV2" where
  "decide_v2 instrumented problem capabilities resources record =
    (let variant = rec2_variant record;
         decision = \<lparr>dec2_variant = variant, dec2_stable_id = rec2_stable_id record,
                     dec2_legal = False, dec2_reason = [], dec2_estimated_cost = u64_max,
                     dec2_required_workspace_bytes =
                       (if variant = var2_native_packed_avx2_fma
                        then res1_native_packed_workspace_bytes resources else 0),
                     dec2_required_workspace_alignment =
                       (if variant = var2_native_packed_avx2_fma
                        then res1_native_packed_workspace_alignment resources else 1),
                     dec2_actual_threads = 0,
                     dec2_deterministic_priority = rec2_deterministic_priority record\<rparr>
     in case reject_v2 instrumented problem capabilities resources record of
          Some why \<Rightarrow> decision\<lparr>dec2_reason := why\<rparr>
        | None \<Rightarrow> decision\<lparr>dec2_legal := True, dec2_reason := ''legal'',
                    dec2_actual_threads := (if variant = var2_external_openblas
                                            then res1_requested_threads resources else 1),
                    dec2_estimated_cost := estimated_cost_v2 variant problem\<rparr>)"

definition eligible_v2 :: "CpuGemmRequestV2 \<Rightarrow> CpuCandidateDecisionV2 \<Rightarrow> bool" where
  "eligible_v2 request d \<longleftrightarrow> dec2_legal d \<and> request_matches_v2 request (dec2_variant d)"

definition search_step_v2 ::
  "CpuGemmRequestV2 \<Rightarrow> nat \<Rightarrow> CpuCandidateDecisionV2 \<Rightarrow> CpuGemmVariantV2 search \<Rightarrow>
   CpuGemmVariantV2 search" where
  "search_step_v2 request index d s =
    (if \<not> dec2_legal d then s
     else if \<not> request_matches_v2 request (dec2_variant d) then s
     else search_step index (dec2_estimated_cost d) (dec2_deterministic_priority d)
            (dec2_variant d) (dec2_stable_id d) s)"

definition plan_cpu_gemm_v2 ::
  "bool \<Rightarrow> CpuGemmProblemV1 \<Rightarrow> CpuCapabilitiesV1 \<Rightarrow> CpuGemmImplementationResourcesV1 \<Rightarrow>
   CpuGemmRequestV2 \<Rightarrow> CpuGemmPlanV2" where
  "plan_cpu_gemm_v2 instrumented problem capabilities resources request =
    (let base = plan_cpu_gemm_v1 instrumented problem capabilities req1_force_reference;
         candidates = map (decide_v2 instrumented problem capabilities resources)
                        kCpuGemmVariantRegistryV2;
         s = search_over (search_step_v2 request) 0 candidates
               (search_start var2_reference (length kCpuGemmVariantRegistryV2));
         plan = \<lparr>plan2_version = 2, plan2_status = st1_no_legal_variant, plan2_problem = problem,
                 plan2_capabilities = capabilities, plan2_resources = resources,
                 plan2_request = request, plan2_candidates = candidates,
                 plan2_selected_variant = srch_variant s, plan2_selected_id = srch_id s,
                 plan2_selection_reason = []\<rparr>
     in if plan1_status base = st1_invalid_problem \<or> plan1_status base = st1_invalid_capabilities
        then plan\<lparr>plan2_status := plan1_status base,
                  plan2_selection_reason := plan1_selection_reason base\<rparr>
        else if \<not> srch_found s
        then plan\<lparr>plan2_status := (if request = req2_automatic then st1_no_legal_variant
                                   else st1_forced_variant_illegal),
                  plan2_selection_reason := (if request = req2_automatic
                                             then ''no legal CPU GEMM variant''
                                             else ''requested CPU GEMM variant is illegal'')\<rparr>
        else plan\<lparr>plan2_status := st1_selected,
                  plan2_selection_reason :=
                    (if request = req2_automatic
                     then ''lowest deterministic calibrated cost; ties use priority then registry order''
                     else ''explicit legal variant request'')\<rparr>)"

section \<open>Formatting\<close>

fun request_name_v2 :: "CpuGemmRequestV2 \<Rightarrow> string" where
  "request_name_v2 req2_automatic = ''automatic''"
| "request_name_v2 req2_force_reference = ''force-reference''"
| "request_name_v2 req2_force_tiled = ''force-tiled''"
| "request_name_v2 req2_force_compiler_vectorized = ''force-compiler-vectorized''"
| "request_name_v2 req2_force_external_openblas = ''force-external-openblas''"
| "request_name_v2 req2_force_native_packed_avx2_fma = ''force-native-packed-avx2-fma''"
| "request_name_v2 (req2_other _) = ''invalid''"

definition candidate_ops_v2 :: "CpuCandidateDecisionV2 \<Rightarrow> wr_op list" where
  "candidate_ops_v2 d =
     [W_text (dec2_stable_id d), W_char CHR '':''] @
     (if dec2_legal d
      then [W_text ''legal:cost='', W_number (dec2_estimated_cost d),
            W_text '':workspace='', W_number (dec2_required_workspace_bytes d),
            W_text '':alignment='', W_number (ucast (dec2_required_workspace_alignment d)),
            W_text '':threads='', W_number (ucast (dec2_actual_threads d))]
      else [W_text ''rejected:'', W_text (dec2_reason d)])"

definition plan_ops_v2 :: "CpuGemmPlanV2 \<Rightarrow> wr_op list" where
  "plan_ops_v2 plan =
     [W_text ''cpu-planner-v2 request='', W_text (request_name_v2 (plan2_request plan)),
      W_text '' threads='', W_number (ucast (res1_requested_threads (plan2_resources plan))),
      W_text '' openblas-max-threads='',
      W_number (ucast (res1_openblas_maximum_threads (plan2_resources plan))),
      W_text '' status='', W_text (status_name_v1 (plan2_status plan)),
      W_text '' m='', dimension_op (prob_m (plan2_problem plan)),
      W_text '' n='', dimension_op (prob_n (plan2_problem plan)),
      W_text '' k='', dimension_op (prob_k (plan2_problem plan)),
      W_text '' selected='',
      W_text (if plan2_selected_id plan = [] then ''none'' else plan2_selected_id plan),
      W_text '' reason='', W_text (plan2_selection_reason plan),
      W_text '' candidates=[''] @
     comma_separated (map candidate_ops_v2 (plan2_candidates plan)) @ [W_char CHR '']'']"

definition format_cpu_gemm_plan_v2 ::
  "CpuGemmPlanV2 \<Rightarrow> char list option \<Rightarrow> nat \<Rightarrow> nat \<times> char list option" where
  "format_cpu_gemm_plan_v2 plan output capacity = wr_run (plan_ops_v2 plan) output capacity"

section \<open>The search is the shared search\<close>

interpretation v2: candidate_search "eligible_v2 request" dec2_estimated_cost
    dec2_deterministic_priority dec2_variant dec2_stable_id "search_step_v2 request" for request
  by unfold_locales (auto simp: eligible_v2_def search_step_v2_def)

lemma length_registry_v2 [simp]: "length kCpuGemmVariantRegistryV2 = 5"
  by (simp add: registry_simps)

lemma candidates_v2:
  "plan2_candidates (plan_cpu_gemm_v2 ins problem caps res req) =
     map (decide_v2 ins problem caps res) kCpuGemmVariantRegistryV2"
  by (simp add: plan_cpu_gemm_v2_def Let_def)

lemma base_refused_iff:
  "plan1_status (plan_cpu_gemm_v1 ins problem caps req) = st1_invalid_problem \<or>
   plan1_status (plan_cpu_gemm_v1 ins problem caps req) = st1_invalid_capabilities \<longleftrightarrow>
   \<not> v1_ready problem caps"
  by (simp add: plan_v1_status_cases)

lemma decide_v2_fields [simp]:
  "dec2_variant (decide_v2 ins problem caps res r) = rec2_variant r"
  "dec2_stable_id (decide_v2 ins problem caps res r) = rec2_stable_id r"
  "dec2_deterministic_priority (decide_v2 ins problem caps res r) = rec2_deterministic_priority r"
  by (simp_all add: decide_v2_def Let_def split: option.split)

abbreviation features_present :: "CpuCapabilitiesV1 \<Rightarrow> u64 \<Rightarrow> bool" where
  "features_present caps required \<equiv> cap1_features caps AND required = required"

definition legacy_accepts ::
  "bool \<Rightarrow> CpuGemmProblemV1 \<Rightarrow> CpuCapabilitiesV1 \<Rightarrow> CpuGemmVariantV2 \<Rightarrow> bool" where
  "legacy_accepts ins problem caps variant \<longleftrightarrow>
     \<not> (variant \<in> {var2_reference, var2_tiled, var2_compiler_vectorized} \<and>
        plan1_status (plan_cpu_gemm_v1 ins problem caps (legacy_request variant)) \<noteq> st1_selected)"

lemma reject_v2_None:
  "reject_v2 ins problem caps res r = None \<longleftrightarrow>
     v1_ready problem caps \<and> features_present caps (rec2_required_features r) \<and>
     legacy_accepts ins problem caps (rec2_variant r) \<and>
     extra_legality_reason (rec2_variant r) problem caps res = []"
  unfolding reject_v2_def Let_def base_refused_iff legacy_accepts_def by auto

lemma decide_v2_legal:
  "dec2_legal (decide_v2 ins problem caps res r) \<longleftrightarrow>
     v1_ready problem caps \<and> features_present caps (rec2_required_features r) \<and>
     legacy_accepts ins problem caps (rec2_variant r) \<and>
     extra_legality_reason (rec2_variant r) problem caps res = []"
  unfolding reject_v2_None [of ins, symmetric]
  by (simp add: decide_v2_def Let_def split: option.split)

lemma decide_v2_result:
  assumes "dec2_legal (decide_v2 ins problem caps res r)"
  shows "dec2_estimated_cost (decide_v2 ins problem caps res r) =
           estimated_cost_v2 (rec2_variant r) problem"
    and "dec2_actual_threads (decide_v2 ins problem caps res r) =
           (if rec2_variant r = var2_external_openblas then res1_requested_threads res else 1)"
  using assms by (simp_all add: decide_v2_def Let_def split: option.splits)

lemma plan_v2_status_cases:
  "plan2_status (plan_cpu_gemm_v2 ins problem caps res req) =
    (if \<not> v1_ready problem caps
     then plan1_status (plan_cpu_gemm_v1 ins problem caps req1_force_reference)
     else if \<exists>d \<in> set (plan2_candidates (plan_cpu_gemm_v2 ins problem caps res req)). eligible_v2 req d
     then st1_selected
     else if req = req2_automatic then st1_no_legal_variant else st1_forced_variant_illegal)"
  using base_refused_iff [of ins problem caps req1_force_reference]
  by (simp add: plan_cpu_gemm_v2_def Let_def v2.not_found_iff [of req])

lemma plan_v2_ready:
  "plan2_status (plan_cpu_gemm_v2 ins problem caps res req) = st1_selected \<Longrightarrow> v1_ready problem caps"
  unfolding plan_v2_status_cases by (auto simp: plan_v1_status_cases split: if_splits)

lemma plan_v2_best:
  assumes "plan2_status (plan_cpu_gemm_v2 ins problem caps res req) = st1_selected"
  defines "p \<equiv> plan_cpu_gemm_v2 ins problem caps res req"
  shows "\<exists>i. v2.best req (plan2_candidates p) i
      \<and> plan2_selected_variant p = dec2_variant (plan2_candidates p ! i)
      \<and> plan2_selected_id p = dec2_stable_id (plan2_candidates p ! i)"
proof -
  let ?s = "search_over (search_step_v2 req) 0 (plan2_candidates p) (search_start var2_reference 5)"
  have sel: "plan2_selected_variant p = srch_variant ?s" "plan2_selected_id p = srch_id ?s"
    by (simp_all add: p_def plan_cpu_gemm_v2_def Let_def)
  have "\<exists>d \<in> set (plan2_candidates p). eligible_v2 req d"
    using assms(1) plan_v2_ready [OF assms(1)] unfolding p_def plan_v2_status_cases
    by (simp split: if_splits)
  then have "srch_found ?s"
    by (simp only: v2.not_found_iff)
  from v2.found_best [OF this] show ?thesis
    unfolding sel by blast
qed

section \<open>Properties\<close>

definition full_resources_v1 :: CpuGemmImplementationResourcesV1 where
  "full_resources_v1 = \<lparr>res1_openblas_linked = True, res1_openblas_local_thread_control = True,
     res1_native_packed_avx2_fma_compiled = True, res1_native_packed_workspace_size_valid = True,
     res1_native_packed_workspace_bytes = 4096, res1_native_packed_workspace_alignment = 64,
     res1_openblas_maximum_threads = 8, res1_requested_threads = 1,
     res1_openblas_conformance_evaluated = True, res1_openblas_conformant = True\<rparr>"

text \<open>A selected plan of the second generation names a legal candidate that matches the
  request and is least in cost, then priority, then registry order.\<close>

theorem plan_v2_selects_best:
  assumes "plan2_status (plan_cpu_gemm_v2 ins problem caps res req) = st1_selected"
  shows "\<exists>i < 5. let cs = plan2_candidates (plan_cpu_gemm_v2 ins problem caps res req); d = cs ! i in
     dec2_legal d \<and> request_matches_v2 req (dec2_variant d) \<and>
     plan2_selected_variant (plan_cpu_gemm_v2 ins problem caps res req) = dec2_variant d \<and>
     plan2_selected_id (plan_cpu_gemm_v2 ins problem caps res req) = dec2_stable_id d \<and>
     (\<forall>j < 5. dec2_legal (cs ! j) \<and> request_matches_v2 req (dec2_variant (cs ! j)) \<longrightarrow>
        dec2_estimated_cost d < dec2_estimated_cost (cs ! j) \<or>
        dec2_estimated_cost d = dec2_estimated_cost (cs ! j) \<and>
          (dec2_deterministic_priority d < dec2_deterministic_priority (cs ! j) \<or>
           dec2_deterministic_priority d = dec2_deterministic_priority (cs ! j) \<and> i \<le> j))"
proof -
  have len: "length (plan2_candidates (plan_cpu_gemm_v2 ins problem caps res req)) = 5"
    by (simp add: candidates_v2)
  from plan_v2_best [OF assms] obtain i where
    "v2.best req (plan2_candidates (plan_cpu_gemm_v2 ins problem caps res req)) i"
    "plan2_selected_variant (plan_cpu_gemm_v2 ins problem caps res req) =
       dec2_variant (plan2_candidates (plan_cpu_gemm_v2 ins problem caps res req) ! i)"
    "plan2_selected_id (plan_cpu_gemm_v2 ins problem caps res req) =
       dec2_stable_id (plan2_candidates (plan_cpu_gemm_v2 ins problem caps res req) ! i)"
    by blast
  then show ?thesis
    unfolding v2.best_iff len Let_def by (intro exI [of _ i]) (simp add: eligible_v2_def)
qed

text \<open>The registry, entry by entry.\<close>

lemma registry_v2_nth:
  "rec2_variant (kCpuGemmVariantRegistryV2 ! 0) = var2_reference"
  "rec2_variant (kCpuGemmVariantRegistryV2 ! 1) = var2_tiled"
  "rec2_variant (kCpuGemmVariantRegistryV2 ! 2) = var2_compiler_vectorized"
  "rec2_variant (kCpuGemmVariantRegistryV2 ! 3) = var2_external_openblas"
  "rec2_variant (kCpuGemmVariantRegistryV2 ! 4) = var2_native_packed_avx2_fma"
  by (simp_all add: registry_simps)

lemma registry_v1_v2_features:
  "i < 3 \<Longrightarrow> rec2_required_features (kCpuGemmVariantRegistryV2 ! i) =
             rec1_required_features (kCpuGemmVariantRegistryV1 ! i)"
  by (auto simp: registry_simps less_Suc_eq numeral_3_eq_3)

lemma legacy_accepts_iff:
  assumes "i < 3"
  shows "legacy_accepts ins problem caps (rec2_variant (kCpuGemmVariantRegistryV2 ! i)) \<longleftrightarrow>
   dec1_legal (decide_v1 ins problem caps (kCpuGemmVariantRegistryV1 ! i))"
proof -
  consider "i = 0" | "i = 1" | "i = 2" using assms by linarith
  then show ?thesis
    by cases (auto simp: legacy_accepts_def plan_v1_selected_iff decide_v1_legal registry_simps)
qed

lemma legal_v1_features:
  assumes "i < 3" and "dec1_legal (decide_v1 ins problem caps (kCpuGemmVariantRegistryV1 ! i))"
  shows "features_present caps (rec1_required_features (kCpuGemmVariantRegistryV1 ! i))"
proof -
  have one: "x AND 1 = 1" if "x AND 1 \<noteq> (0 :: u64)" for x
    using that by (simp add: and_one_eq mod_2_eq_odd split: if_splits)
  consider "i = 0" | "i = 1" | "i = 2" using assms(1) by linarith
  then show ?thesis
    using assms(2)
    by cases (simp_all add: decide_v1_legal capability_legality_reason_def registry_simps one
        split: if_splits)
qed

lemma extra_legacy:
  "v \<in> {var2_reference, var2_tiled, var2_compiler_vectorized} \<Longrightarrow>
   extra_legality_reason v problem caps res = [] \<longleftrightarrow> res1_requested_threads res \<noteq> 0"
  by (elim insertE emptyE) (simp_all add: extra_legality_reason_def)

text \<open>The second generation refines the first: each of its three legacy candidates is legal
  exactly when the first generation's candidate for the same variant is, provided the request asks
  for at least one thread.\<close>

theorem v2_legacy_refines_v1:
  "\<forall>i < 3. dec2_legal (plan2_candidates (plan_cpu_gemm_v2 ins problem caps res req) ! i) \<longleftrightarrow>
     dec1_legal (plan1_candidates (plan_cpu_gemm_v1 ins problem caps req1) ! i) \<and>
     res1_requested_threads res \<noteq> 0"
proof (intro allI impI)
  fix i :: nat
  assume i: "i < 3"
  let ?r2 = "kCpuGemmVariantRegistryV2 ! i" and ?r1 = "kCpuGemmVariantRegistryV1 ! i"
  have "rec2_variant ?r2 \<in> {var2_reference, var2_tiled, var2_compiler_vectorized}"
    using i by (auto simp: registry_simps less_Suc_eq numeral_3_eq_3)
  then have extra: "extra_legality_reason (rec2_variant ?r2) problem caps res = [] \<longleftrightarrow>
      res1_requested_threads res \<noteq> 0"
    by (rule extra_legacy)
  have "dec2_legal (decide_v2 ins problem caps res ?r2) \<longleftrightarrow>
      dec1_legal (decide_v1 ins problem caps ?r1) \<and> res1_requested_threads res \<noteq> 0"
    unfolding decide_v2_legal extra legacy_accepts_iff [OF i] registry_v1_v2_features [OF i]
    using legal_v1_features [OF i, of ins problem caps] decide_v1_legal [of ins problem caps ?r1]
    by blast
  then show "dec2_legal (plan2_candidates (plan_cpu_gemm_v2 ins problem caps res req) ! i) \<longleftrightarrow>
     dec1_legal (plan1_candidates (plan_cpu_gemm_v1 ins problem caps req1) ! i) \<and>
     res1_requested_threads res \<noteq> 0"
    using i by (simp add: candidates_v1 candidates_v2)
qed

theorem v2_legacy_refines_v1_witness:
  "dec2_legal (plan2_candidates (plan_cpu_gemm_v2 False small_problem avx2_capabilities
     full_resources_v1 req2_automatic) ! 2) \<longleftrightarrow>
   dec1_legal (plan1_candidates (plan_cpu_gemm_v1 False small_problem avx2_capabilities
     req1_automatic) ! 2)"
proof -
  have "(2::nat) < 3" by simp
  then show ?thesis
    using v2_legacy_refines_v1 [of False small_problem avx2_capabilities full_resources_v1
        req2_automatic req1_automatic]
    by (auto simp: full_resources_v1_def)
qed

text \<open>The external provider is never legal without evidence: a legal OpenBLAS candidate was
  linked, evaluated and found conformant, has local thread control, runs on exactly the requested
  number of threads, at least one and at most the provider's ceiling, and its dimensions fit the
  32-bit interface.\<close>

theorem openblas_legal_evidence:
  assumes "dec2_legal (plan2_candidates (plan_cpu_gemm_v2 ins problem caps res req) ! 3)"
  shows "res1_openblas_linked res \<and> res1_openblas_conformance_evaluated res \<and>
     res1_openblas_conformant res \<and> res1_openblas_local_thread_control res \<and>
     (let t = dec2_actual_threads (plan2_candidates (plan_cpu_gemm_v2 ins problem caps res req) ! 3)
      in t = res1_requested_threads res \<and> 0 < t \<and> t \<le> res1_openblas_maximum_threads res \<and>
         uint t \<le> INT_MAX) \<and>
     (\<forall>d \<in> {prob_m problem, prob_n problem, prob_k problem}. 0 < sint d \<and> sint d \<le> INT_MAX)"
proof -
  let ?r = "kCpuGemmVariantRegistryV2 ! 3"
  have legal: "dec2_legal (decide_v2 ins problem caps res ?r)"
    using assms by (simp add: candidates_v2)
  then have extra: "extra_legality_reason var2_external_openblas problem caps res = []"
    and ready: "common_legality_reason problem = []"
    by (simp_all add: decide_v2_legal registry_v2_nth)
  have threads: "dec2_actual_threads (decide_v2 ins problem caps res ?r) = res1_requested_threads res"
    using decide_v2_result(2) [OF legal] by (simp add: registry_v2_nth)
  have "0 < sint (prob_m problem)" "0 < sint (prob_n problem)" "0 < sint (prob_k problem)"
    using ready by (auto simp: common_legality_reason_def split: if_splits)
  with extra show ?thesis
    by (auto simp: candidates_v2 threads extra_legality_reason_def word_gt_0 Let_def
        split: if_splits)
qed

lemma example_openblas:
  "dec2_legal (plan2_candidates (plan_cpu_gemm_v2 False small_problem avx2_capabilities
     full_resources_v1 req2_automatic) ! 3)"
proof -
  have "extra_legality_reason var2_external_openblas small_problem avx2_capabilities
      full_resources_v1 = []"
    by (simp add: extra_legality_reason_def full_resources_v1_def small_problem_def INT_MAX_def)
  then show ?thesis
    using example_ready
    by (simp add: candidates_v2 decide_v2_legal registry_v2_nth legacy_accepts_def)
      (simp add: registry_simps avx2_capabilities_def)
qed

theorem openblas_legal_evidence_witness:
  "res1_openblas_linked full_resources_v1 \<and>
   dec2_actual_threads (plan2_candidates (plan_cpu_gemm_v2 False small_problem avx2_capabilities
     full_resources_v1 req2_automatic) ! 3) = 1"
  using openblas_legal_evidence [OF example_openblas]
  by (simp add: full_resources_v1_def Let_def)

theorem plan_v2_selects_best_witness:
  "\<exists>i < 5. dec2_legal (plan2_candidates (plan_cpu_gemm_v2 False small_problem avx2_capabilities
       full_resources_v1 req2_force_external_openblas) ! i) \<and>
     dec2_variant (plan2_candidates (plan_cpu_gemm_v2 False small_problem avx2_capabilities
       full_resources_v1 req2_force_external_openblas) ! i) = var2_external_openblas"
proof -
  let ?p = "plan_cpu_gemm_v2 False small_problem avx2_capabilities full_resources_v1
      req2_force_external_openblas"
  have "dec2_legal (plan2_candidates ?p ! 3)"
    using example_openblas by (simp add: candidates_v2)
  then have "eligible_v2 req2_force_external_openblas (plan2_candidates ?p ! 3)"
    by (simp add: eligible_v2_def candidates_v2 registry_v2_nth)
  moreover have "3 < length (plan2_candidates ?p)"
    by (simp add: candidates_v2)
  ultimately have "plan2_status ?p = st1_selected"
    unfolding plan_v2_status_cases using example_ready nth_mem by auto
  from plan_v2_selects_best [OF this] show ?thesis
    by (auto simp: Let_def)
qed

section \<open>The single-row rule\<close>

lemma scalar_legal_with_openblas:
  assumes "dec2_legal (decide_v2 ins problem caps res (kCpuGemmVariantRegistryV2 ! 3))" "i \<in> {0, 1}"
  shows "dec2_legal (decide_v2 ins problem caps res (kCpuGemmVariantRegistryV2 ! i))"
proof -
  have ready: "v1_ready problem caps" and f: "features_present caps 1"
    and extra: "extra_legality_reason var2_external_openblas problem caps res = []"
    using assms(1) by (simp_all add: decide_v2_legal registry_v2_nth) (simp add: registry_simps)
  from extra have threads: "res1_requested_threads res \<noteq> 0"
    by (auto simp: extra_legality_reason_def)
  have scalar: "rec1_required_features (kCpuGemmVariantRegistryV1 ! i) = 1"
    "rec2_required_features (kCpuGemmVariantRegistryV2 ! i) = 1"
    "rec1_variant (kCpuGemmVariantRegistryV1 ! i) \<noteq> var1_compiler_vectorized"
    "rec2_variant (kCpuGemmVariantRegistryV2 ! i) \<in> {var2_reference, var2_tiled, var2_compiler_vectorized}"
    and i: "i < 3"
    using assms(2) by (auto simp: registry_simps)
  have "dec1_legal (decide_v1 ins problem caps (kCpuGemmVariantRegistryV1 ! i))"
    using ready f scalar(3)
    by (auto simp: decide_v1_legal capability_legality_reason_def capability_record_reason_def
        split: if_splits)
  then show ?thesis
    using ready f legacy_accepts_iff [OF i, of ins problem caps] threads extra_legacy [OF scalar(4)]
    by (simp add: decide_v2_legal scalar(2))
qed

lemma reference_legal_with_openblas:
  "dec2_legal (decide_v2 ins problem caps res (kCpuGemmVariantRegistryV2 ! 3)) \<Longrightarrow>
   dec2_legal (decide_v2 ins problem caps res (kCpuGemmVariantRegistryV2 ! 0))"
  by (rule scalar_legal_with_openblas) simp_all

text \<open>An automatic request never selects OpenBLAS for a single-row product, the case the cost
  model singles out, as long as the reference cost \<open>16 * n * k\<close> stays below the sentinel.\<close>

theorem v2_single_row_avoids_openblas:
  assumes "prob_m problem = 1" and "16 * dim (prob_n problem) * dim (prob_k problem) < 2 ^ 64 - 1"
    and "plan2_status (plan_cpu_gemm_v2 ins problem caps res req2_automatic) = st1_selected"
  shows "plan2_selected_variant (plan_cpu_gemm_v2 ins problem caps res req2_automatic) \<noteq>
    var2_external_openblas"
proof
  let ?p = "plan_cpu_gemm_v2 ins problem caps res req2_automatic"
  let ?d = "\<lambda>i. decide_v2 ins problem caps res (kCpuGemmVariantRegistryV2 ! i)"
  assume sel: "plan2_selected_variant ?p = var2_external_openblas"
  from plan_v2_best [OF assms(3)] obtain i where
    best: "v2.best req2_automatic (plan2_candidates ?p) i"
    and v: "plan2_selected_variant ?p = dec2_variant (plan2_candidates ?p ! i)" by blast
  then have i: "i < 5" by (simp add: v2.best_def candidates_v2)
  have "i = 3"
    using i sel v by (auto simp: candidates_v2 registry_simps less_Suc_eq numeral_eq_Suc)
  with best have legal: "dec2_legal (?d 3)"
    by (simp add: v2.best_def eligible_v2_def candidates_v2)
  note ref = reference_legal_with_openblas [OF legal]
  have "dec2_estimated_cost (?d 3) \<le> dec2_estimated_cost (?d 0)"
    using best ref \<open>i = 3\<close>
    unfolding v2.best_iff by (auto simp: eligible_v2_def candidates_v2 dest!: spec [of _ 0])
  moreover have "dec2_estimated_cost (?d 3) = u64_max"
    using decide_v2_result(1) [OF legal] assms(1)
    by (simp add: registry_v2_nth estimated_cost_v2_def)
  moreover have "dec2_estimated_cost (?d 0) = saturating_multiply (operation_count problem) 16"
    using decide_v2_result(1) [OF ref] by (simp add: registry_v2_nth estimated_cost_v2_def)
  ultimately have "2 ^ 64 - 1 \<le> unat (saturating_multiply (operation_count problem) 16)"
    by (simp add: word_le_nat_alt)
  moreover have "common_legality_reason problem = []"
    using legal by (simp add: decide_v2_legal)
  ultimately show False
    using assms(1,2) unat_operation_count [of problem]
    by (simp add: unat_saturating_multiply dim_def min_def split: if_splits)
qed

definition row_problem :: "i64 \<Rightarrow> CpuGemmProblemV1" where
  "row_problem n = small_problem\<lparr>prob_m := 1, prob_n := n, prob_k := n\<rparr>"

definition portable_capabilities :: CpuCapabilitiesV1 where
  "portable_capabilities = \<lparr>cap1_version = 1, cap1_architecture = arch1_aarch64,
     cap1_detection_complete = True, cap1_features = 1, cap1_usable_vector_bits = 0\<rparr>"

theorem v2_single_row_avoids_openblas_witness:
  "plan2_selected_variant (plan_cpu_gemm_v2 False (row_problem 512) portable_capabilities
     full_resources_v1 req2_automatic) \<noteq> var2_external_openblas"
proof (rule v2_single_row_avoids_openblas)
  show "prob_m (row_problem 512) = 1"
    by (simp add: row_problem_def)
  show "16 * dim (prob_n (row_problem 512)) * dim (prob_k (row_problem 512)) < 2 ^ 64 - 1"
    by (simp add: row_problem_def small_problem_def dim_def)
  show "plan2_status (plan_cpu_gemm_v2 False (row_problem 512) portable_capabilities
     full_resources_v1 req2_automatic) = st1_selected"
    by code_simp
qed

lemma single_row_costs:
  assumes "prob_m problem = 1" "common_legality_reason problem = []"
  defines "n \<equiv> dim (prob_n problem)" and "k \<equiv> dim (prob_k problem)"
  shows "estimated_cost_v2 var2_reference problem = u64_max \<longleftrightarrow> 2 ^ 64 - 1 \<le> 16 * (n * k)"
    "estimated_cost_v2 var2_tiled problem = u64_max \<longleftrightarrow> 2 ^ 64 - 1 \<le> 7 * (n * k) + 4096"
    "estimated_cost_v2 var2_compiler_vectorized problem = u64_max \<longleftrightarrow> 2 ^ 64 - 1 \<le> 4 * (n * k) + 16384"
    "estimated_cost_v2 var2_external_openblas problem = u64_max"
    "estimated_cost_v2 var2_native_packed_avx2_fma problem = u64_max \<longleftrightarrow>
       2 ^ 64 - 1 \<le> 2 * (n * k) + 6 * (k + n * k) + 48000"
proof -
  have max: "x = u64_max \<longleftrightarrow> 2 ^ 64 - 1 \<le> unat x" for x :: u64
    using unat_lt64 [of x] by (simp add: word_unat_eq_iff del: unat_lt64, arith)
  have work: "unat (operation_count problem) = min (n * k) (2 ^ 64 - 1)"
    using unat_operation_count [OF assms(2)] assms(1) by (simp add: n_def k_def dim_def)
  have "0 < sint (prob_n problem)" "0 < sint (prob_k problem)"
    using assms(2) by (auto simp: common_legality_reason_def split: if_splits)
  then have "unat (prob_n problem) = n" "unat (prob_k problem) = k"
    by (simp_all add: n_def k_def unat_positive_dim)
  then have packing: "unat (packing_count problem) = min (k + n * k) (2 ^ 64 - 1)"
    unfolding packing_count_def unat_saturating_add unat_saturating_multiply
    by (simp add: assms(1) mult.commute [of k n] min_def)
  define w where "w = n * k"
  note costs [unfolded w_def [symmetric]] = max unat_saturating_add unat_saturating_multiply work packing
  show "estimated_cost_v2 var2_reference problem = u64_max \<longleftrightarrow> 2 ^ 64 - 1 \<le> 16 * (n * k)"
    "estimated_cost_v2 var2_tiled problem = u64_max \<longleftrightarrow> 2 ^ 64 - 1 \<le> 7 * (n * k) + 4096"
    "estimated_cost_v2 var2_compiler_vectorized problem = u64_max \<longleftrightarrow> 2 ^ 64 - 1 \<le> 4 * (n * k) + 16384"
    "estimated_cost_v2 var2_external_openblas problem = u64_max"
    "estimated_cost_v2 var2_native_packed_avx2_fma problem = u64_max \<longleftrightarrow>
       2 ^ 64 - 1 \<le> 2 * (n * k) + 6 * (k + n * k) + 48000"
    unfolding w_def [symmetric] by (simp_all add: estimated_cost_v2_def Let_def costs assms(1) min_def, arith+)
qed

lemma openblas_dims:
  assumes "dec2_legal (decide_v2 ins problem caps res (kCpuGemmVariantRegistryV2 ! 3))"
  shows "dim (prob_n problem) * dim (prob_k problem) \<le> 2147483647 * 2147483647"
proof -
  have "sint (prob_n problem) \<le> 2147483647" "sint (prob_k problem) \<le> 2147483647"
    using assms by (auto simp: decide_v2_legal registry_v2_nth extra_legality_reason_def INT_MAX_def
        split: if_splits)
  then show ?thesis
    by (intro mult_le_mono) (simp_all add: dim_def)
qed

text \<open>C33: The cost \<open>2^64 - 1\<close> that is to keep OpenBLAS out of single-row products is also what a saturated
  cost is, and ties go to OpenBLAS, which has the first priority. When OpenBLAS is legal, an automatic plan
  for a single row selects it exactly when every legal alternative saturates: the tiled kernel's cost
  \<open>7 * n * k + 4096\<close> does, the compiler-vectorised kernel is not legal (its cost cannot saturate within the
  provider's dimensions), and the packed kernel is not legal or its cost saturates too.\<close>

theorem v2_single_row_sentinel_ties:
  fixes problem :: CpuGemmProblemV1
  defines "n \<equiv> dim (prob_n problem)" and "k \<equiv> dim (prob_k problem)"
  assumes "prob_m problem = 1"
    and legal: "dec2_legal (plan2_candidates (plan_cpu_gemm_v2 ins problem caps res req2_automatic) ! 3)"
  shows "plan2_status (plan_cpu_gemm_v2 ins problem caps res req2_automatic) = st1_selected \<and>
   (plan2_selected_variant (plan_cpu_gemm_v2 ins problem caps res req2_automatic) = var2_external_openblas \<longleftrightarrow>
      2 ^ 64 - 1 \<le> 7 * (n * k) + 4096 \<and>
      \<not> dec2_legal (plan2_candidates (plan_cpu_gemm_v2 ins problem caps res req2_automatic) ! 2) \<and>
      (dec2_legal (plan2_candidates (plan_cpu_gemm_v2 ins problem caps res req2_automatic) ! 4) \<longrightarrow>
       2 ^ 64 - 1 \<le> 2 * (n * k) + 6 * (k + n * k) + 48000))"
proof -
  let ?p = "plan_cpu_gemm_v2 ins problem caps res req2_automatic"
  let ?d = "\<lambda>i. decide_v2 ins problem caps res (kCpuGemmVariantRegistryV2 ! i)"
  have c: "i < 5 \<Longrightarrow> plan2_candidates ?p ! i = ?d i" for i by (simp add: candidates_v2)
  have len: "length (plan2_candidates ?p) = 5" by (simp add: candidates_v2)
  have legal3: "dec2_legal (?d 3)" using legal by (simp add: c)
  then have common: "common_legality_reason problem = []" and ready: "v1_ready problem caps"
    by (simp_all add: decide_v2_legal)
  note cost = single_row_costs [OF assms(3) common, folded n_def k_def]
  have scalar: "dec2_legal (?d 0)" "dec2_legal (?d 1)"
    using scalar_legal_with_openblas [OF legal3] by simp_all
  have costs: "dec2_legal (?d i) \<Longrightarrow> dec2_estimated_cost (?d i) =
      estimated_cost_v2 (rec2_variant (kCpuGemmVariantRegistryV2 ! i)) problem" for i
    by (rule decide_v2_result)
  have not_above: "\<not> u64_max < x" for x :: u64
    by (simp add: not_less)
  have priority: "dec2_deterministic_priority (?d 3) = 10" by (simp add: registry_simps)
  have others: "10 < dec2_deterministic_priority (?d i)" if "i < 5" "i \<noteq> 3" for i
  proof -
    have "i = 0 \<or> i = 1 \<or> i = 2 \<or> i = 4" using that by linarith
    then show ?thesis by (elim disjE) (simp_all add: registry_simps)
  qed
  have "eligible_v2 req2_automatic (plan2_candidates ?p ! 3)" using legal by (simp add: eligible_v2_def)
  then have selected: "plan2_status ?p = st1_selected"
    using ready nth_mem [of 3 "plan2_candidates ?p"] unfolding plan_v2_status_cases len by auto
  from plan_v2_best [OF selected] obtain i where
    best: "v2.best req2_automatic (plan2_candidates ?p) i"
    and v: "plan2_selected_variant ?p = dec2_variant (plan2_candidates ?p ! i)" by blast
  have i: "i < 5" using best by (simp add: v2.best_def len)
  have is_provider: "plan2_selected_variant ?p = var2_external_openblas \<longleftrightarrow> i = 3"
    using i unfolding v c [OF i] by (auto simp: registry_simps less_Suc_eq numeral_eq_Suc)
  have least: "dec2_legal (?d i)" "\<And>j. j < 5 \<Longrightarrow> dec2_legal (?d j) \<Longrightarrow>
      dec2_estimated_cost (?d i) < dec2_estimated_cost (?d j) \<or>
      dec2_estimated_cost (?d i) = dec2_estimated_cost (?d j) \<and>
        dec2_deterministic_priority (?d i) \<le> dec2_deterministic_priority (?d j)"
    using best i unfolding v2.best_iff len by (auto simp: eligible_v2_def c)
  have top: "dec2_estimated_cost (?d 3) = u64_max" using costs [OF legal3] cost(4) by (simp add: registry_v2_nth)
  have "i = 3 \<longleftrightarrow> (\<forall>j < 5. dec2_legal (?d j) \<longrightarrow> dec2_estimated_cost (?d j) = u64_max)"
  proof
    assume "i = 3"
    then show "\<forall>j < 5. dec2_legal (?d j) \<longrightarrow> dec2_estimated_cost (?d j) = u64_max"
      using least(2) top not_above by auto
  next
    assume *: "\<forall>j < 5. dec2_legal (?d j) \<longrightarrow> dec2_estimated_cost (?d j) = u64_max"
    show "i = 3"
    proof (rule ccontr)
      assume "i \<noteq> 3"
      with * i least(1) least(2) [of 3] legal3 top priority others [OF i] show False by auto
    qed
  qed
  moreover have "(\<forall>j < 5. dec2_legal (?d j) \<longrightarrow> dec2_estimated_cost (?d j) = u64_max) \<longleftrightarrow>
      2 ^ 64 - 1 \<le> 7 * (n * k) + 4096 \<and> \<not> dec2_legal (?d 2) \<and>
      (dec2_legal (?d 4) \<longrightarrow> 2 ^ 64 - 1 \<le> 2 * (n * k) + 6 * (k + n * k) + 48000)"
  proof -
    have all: "(\<forall>j < 5. P j) \<longleftrightarrow> P 0 \<and> P 1 \<and> P 2 \<and> P 3 \<and> P (4 :: nat)" for P
      by (auto simp: less_Suc_eq numeral_eq_Suc)
    have "\<not> 2 ^ 64 - 1 \<le> 4 * (n * k) + 16384"
      using openblas_dims [OF legal3, folded n_def k_def] by simp
    then have two: "\<not> (dec2_legal (?d 2) \<and> dec2_estimated_cost (?d 2) = u64_max)"
      using costs [of 2] cost(3) by (auto simp: registry_v2_nth)
    have zero: "dec2_estimated_cost (?d 0) = u64_max \<longleftrightarrow> 2 ^ 64 - 1 \<le> 16 * (n * k)"
      and one: "dec2_estimated_cost (?d 1) = u64_max \<longleftrightarrow> 2 ^ 64 - 1 \<le> 7 * (n * k) + 4096"
      using costs [OF scalar(1)] costs [OF scalar(2)] cost(1,2)
      by (simp_all only: registry_v2_nth)
    have four: "dec2_legal (?d 4) \<Longrightarrow> dec2_estimated_cost (?d 4) = u64_max \<longleftrightarrow>
        2 ^ 64 - 1 \<le> 2 * (n * k) + 6 * (k + n * k) + 48000"
      using costs [of 4] cost(5) by (simp add: registry_v2_nth)
    have "2 ^ 64 - 1 \<le> 7 * (n * k) + 4096 \<Longrightarrow> 2 ^ 64 - 1 \<le> 16 * (n * k)"
      by (simp add: mult.commute [of k n])
    then show ?thesis
      unfolding all using scalar zero one two four top by blast
  qed
  ultimately show ?thesis
    using selected is_provider by (simp add: c)
qed

theorem v2_single_row_sentinel_ties_witness:
  "plan2_selected_variant (plan_cpu_gemm_v2 False (row_problem 2147483647) portable_capabilities
     full_resources_v1 req2_automatic) = var2_external_openblas"
proof -
  let ?cs = "plan2_candidates (plan_cpu_gemm_v2 False (row_problem 2147483647) portable_capabilities
     full_resources_v1 req2_automatic)"
  have "prob_m (row_problem 2147483647) = 1" "dec2_legal (?cs ! 3)"
    by code_simp+
  moreover have "\<not> dec2_legal (?cs ! 2)" "\<not> dec2_legal (?cs ! 4)"
    by code_simp+
  moreover have "dim (prob_n (row_problem 2147483647)) = 2147483647"
    "dim (prob_k (row_problem 2147483647)) = 2147483647"
    by (simp_all add: row_problem_def dim_def)
  ultimately show ?thesis
    using v2_single_row_sentinel_ties [of "row_problem 2147483647" False portable_capabilities
      full_resources_v1] by simp
qed

end
