(* ===== verification/ParallelTasks.thy ===== *)
theory ParallelTasks
  imports PlannerV1
begin

text \<open>
  \<^verbatim>\<open>plan_cpu_parallel_tasks_v1\<close> of \<^verbatim>\<open>planner/cpu_planner_v3.cpp\<close>: how the output of a product is cut
  into disjoint row and column tasks, with the rounding division, the Euclidean loop and the
  least common multiple it uses. The loop over row task counts is a fold over the counts
  \<open>1, ..., maximum_row_tasks\<close>. The lemmas give exact natural-number meanings of the word
  computations; from these follow the bounds of a task plan, the cache line property of its row
  quantum and the optimality of its task count.
\<close>

section \<open>The plan\<close>

definition kCpuParallelMacroTileRowsV1 :: u64 where "kCpuParallelMacroTileRowsV1 = 128"
definition kCpuParallelRegisterTileRowsV1 :: u64 where "kCpuParallelRegisterTileRowsV1 = 4"
definition kCpuParallelCacheLineFloatCountV1 :: u64 where "kCpuParallelCacheLineFloatCountV1 = 16"
definition kCpuParallelColumnTileColumnsV1 :: u64 where "kCpuParallelColumnTileColumnsV1 = 256"
definition kCpuParallelColumnOnlyMinimumWorkPerThreadV1 :: u64 where
  "kCpuParallelColumnOnlyMinimumWorkPerThreadV1 = push_bit 23 1"
definition kCpuParallelTwoDimensionalMinimumWorkPerThreadV1 :: u64 where
  "kCpuParallelTwoDimensionalMinimumWorkPerThreadV1 = push_bit 25 1"

lemmas task_constants = kCpuParallelMacroTileRowsV1_def kCpuParallelRegisterTileRowsV1_def
  kCpuParallelCacheLineFloatCountV1_def kCpuParallelColumnTileColumnsV1_def

record CpuParallelTaskPlanV1 =
  ptp_macro_tile_count :: u64
  ptp_row_quantum :: u64
  ptp_row_group_count :: u64
  ptp_row_task_count :: u64
  ptp_column_panel_count :: u64
  ptp_column_task_count :: u64
  ptp_task_count :: u64
  ptp_actual_threads :: u32

definition default_task_plan :: CpuParallelTaskPlanV1 where
  "default_task_plan = \<lparr>ptp_macro_tile_count = 0, ptp_row_quantum = 0, ptp_row_group_count = 0,
     ptp_row_task_count = 0, ptp_column_panel_count = 0, ptp_column_task_count = 0,
     ptp_task_count = 0, ptp_actual_threads = 0\<rparr>"

section \<open>Arithmetic\<close>

definition divide_round_up :: "u64 \<Rightarrow> u64 \<Rightarrow> u64" where
  "divide_round_up numerator denominator =
     (if denominator = 0 then u64_max
      else numerator div denominator + (if numerator mod denominator \<noteq> 0 then 1 else 0))"

function greatest_common_divisor :: "u64 \<Rightarrow> u64 \<Rightarrow> u64" where
  "greatest_common_divisor lhs rhs =
     (if rhs \<noteq> 0 then greatest_common_divisor rhs (lhs mod rhs) else lhs)"
  by pat_completeness auto
termination
  by (relation "measure (\<lambda>(lhs, rhs). unat rhs)") (auto simp: unat_mod unat_gt_0)

declare greatest_common_divisor.simps [simp del]

definition least_common_multiple :: "u64 \<Rightarrow> u64 \<Rightarrow> u64" where
  "least_common_multiple lhs rhs =
     (let divisor = greatest_common_divisor lhs rhs
      in if divisor = 0 then 0 else saturating_multiply (lhs div divisor) rhs)"

text \<open>\<open>None\<close> is the result \<^verbatim>\<open>false\<close>.\<close>

definition total_parallel_workspace :: "u64 \<Rightarrow> u64 \<Rightarrow> u32 \<Rightarrow> u64 option" where
  "total_parallel_workspace shared_bytes per_worker_bytes threads =
     (if per_worker_bytes \<noteq> 0 \<and> u32_to_u64 threads > u64_max div per_worker_bytes then None
      else let worker_bytes = per_worker_bytes * u32_to_u64 threads
           in if worker_bytes > u64_max - shared_bytes then None
              else Some (shared_bytes + worker_bytes))"

section \<open>The task search\<close>

record task_search =
  tsk_rows :: u64
  tsk_columns :: u64
  tsk_count :: u64

definition task_step :: "u64 \<Rightarrow> u32 \<Rightarrow> u64 \<Rightarrow> task_search \<Rightarrow> task_search" where
  "task_step column_panel_count requested_threads row_tasks s =
     (let column_tasks = min column_panel_count (u32_to_u64 requested_threads div row_tasks);
          candidate_tasks = row_tasks * column_tasks
      in if candidate_tasks > tsk_count s \<or>
            (candidate_tasks = tsk_count s \<and> row_tasks > tsk_rows s)
         then \<lparr>tsk_rows = row_tasks, tsk_columns = column_tasks, tsk_count = candidate_tasks\<rparr>
         else s)"

definition task_loop :: "u64 \<Rightarrow> u32 \<Rightarrow> u64 \<Rightarrow> task_search \<Rightarrow> task_search" where
  "task_loop column_panel_count requested_threads maximum_row_tasks s =
     fold (task_step column_panel_count requested_threads)
       (map of_nat [1..<Suc (unat maximum_row_tasks)]) s"

definition row_tasks_only :: "u64 \<Rightarrow> task_search" where
  "row_tasks_only maximum_row_tasks =
     \<lparr>tsk_rows = maximum_row_tasks, tsk_columns = 1, tsk_count = maximum_row_tasks\<rparr>"

text \<open>The work floor that takes column tasks back.\<close>

definition work_floor :: "CpuGemmProblemV1 \<Rightarrow> u64 \<Rightarrow> task_search \<Rightarrow> task_search" where
  "work_floor problem maximum_row_tasks s =
     (if tsk_count s > maximum_row_tasks
      then let minimum_work_per_thread =
                 (if tsk_rows s = 1 then kCpuParallelColumnOnlyMinimumWorkPerThreadV1
                  else kCpuParallelTwoDimensionalMinimumWorkPerThreadV1);
               floating_point_operations = saturating_multiply 2 (operation_count problem)
           in if floating_point_operations div tsk_count s < minimum_work_per_thread
              then row_tasks_only maximum_row_tasks else s
      else s)"

definition plan_cpu_parallel_tasks_v1 :: "CpuGemmProblemV1 \<Rightarrow> u32 \<Rightarrow> CpuParallelTaskPlanV1" where
  "plan_cpu_parallel_tasks_v1 problem requested_threads =
    (if sint (prob_m problem) \<le> 0 \<or> sint (prob_n problem) \<le> 0 \<or> sint (prob_k problem) \<le> 0 \<or>
        requested_threads = 0
     then default_task_plan
     else
       let rows = prob_m problem;
           columns = prob_n problem;
           macro_tile_count = divide_round_up rows kCpuParallelMacroTileRowsV1;
           rows_per_cacheline_boundary = kCpuParallelCacheLineFloatCountV1 div
             greatest_common_divisor columns kCpuParallelCacheLineFloatCountV1;
           row_quantum = least_common_multiple kCpuParallelRegisterTileRowsV1
             rows_per_cacheline_boundary
       in if row_quantum = 0 then default_task_plan
          else
            let row_group_count = divide_round_up rows row_quantum;
                column_panel_count = divide_round_up columns kCpuParallelColumnTileColumnsV1;
                maximum_row_tasks = min (u32_to_u64 requested_threads)
                  (min macro_tile_count row_group_count);
                start = row_tasks_only maximum_row_tasks;
                column_partition_safe = prob_minimum_alignment_bytes problem \<ge> 64 \<and>
                  columns mod kCpuParallelCacheLineFloatCountV1 = 0;
                searched = (if column_partition_safe \<and> column_panel_count > 1
                  then task_loop column_panel_count requested_threads maximum_row_tasks start
                  else start);
                s = work_floor problem maximum_row_tasks searched
            in \<lparr>ptp_macro_tile_count = macro_tile_count, ptp_row_quantum = row_quantum,
                ptp_row_group_count = row_group_count, ptp_row_task_count = tsk_rows s,
                ptp_column_panel_count = column_panel_count,
                ptp_column_task_count = tsk_columns s, ptp_task_count = tsk_count s,
                ptp_actual_threads = ucast (min (u32_to_u64 requested_threads) (tsk_count s))\<rparr>)"

section \<open>The arithmetic in natural numbers\<close>

lemma unat_divide_round_up:
  assumes "b \<noteq> 0"
  shows "unat (divide_round_up a b) = (unat a + unat b - 1) div unat b"
proof -
  have b: "0 < unat b" using assms by (simp add: unat_gt_0)
  have split: "unat a = unat b * (unat a div unat b) + unat a mod unat b" by simp
  show ?thesis
  proof (cases "unat a mod unat b = 0")
    case True
    then have "a mod b = 0" by (simp add: word_eq_unatI unat_mod)
    moreover have "(unat a + unat b - 1) div unat b = unat a div unat b"
    proof -
      have "unat a + unat b - 1 = (unat b - 1) + unat b * (unat a div unat b)"
        using split True b by linarith
      then have "(unat a + unat b - 1) div unat b = (unat b - 1) div unat b + unat a div unat b"
        using b by (simp only: div_mult_self2)
      then show ?thesis using b by simp
    qed
    ultimately show ?thesis using assms by (simp add: divide_round_up_def unat_div)
  next
    case False
    then have "a mod b \<noteq> 0" by (metis unat_0 unat_mod)
    have "unat b \<noteq> 1" using False by auto
    then have "unat a div unat b \<le> unat a div 2" using b by (intro div_le_mono2) linarith+
    moreover have "unat a div 2 < 2 ^ 63" using unat_lt64 [of a] by (simp add: div_less_iff_less_mult)
    ultimately have "unat a div unat b < 2 ^ 64 - 1" by simp
    moreover have "(unat a + unat b - 1) div unat b = unat a div unat b + 1"
    proof -
      have "unat a + unat b - 1 = (unat a mod unat b - 1) + unat b * (unat a div unat b + 1)"
        using split False b distrib_left [of "unat b" "unat a div unat b" 1] by linarith
      moreover have "(unat a mod unat b - 1) div unat b = 0"
        using b by (meson div_less less_imp_diff_less mod_less_divisor)
      moreover have "((unat a mod unat b - 1) + unat b * (unat a div unat b + 1)) div unat b =
          (unat a div unat b + 1) + (unat a mod unat b - 1) div unat b"
        using b by (intro div_mult_self2) simp
      ultimately show ?thesis by (simp only: add_0_right)
    qed
    ultimately show ?thesis
      using assms \<open>a mod b \<noteq> 0\<close> by (simp add: divide_round_up_def unat_div unat_plus_if')
  qed
qed

lemma unat_greatest_common_divisor: "unat (greatest_common_divisor a b) = gcd (unat a) (unat b)"
proof (induction a b rule: greatest_common_divisor.induct)
  case (1 a b)
  show ?case
  proof (cases "b = 0")
    case True
    then show ?thesis by (subst greatest_common_divisor.simps) simp
  next
    case False
    then have "unat (greatest_common_divisor a b) = gcd (unat b) (unat a mod unat b)"
      using 1 by (subst greatest_common_divisor.simps) (simp add: unat_mod)
    also have "\<dots> = gcd (unat a) (unat b)" by (simp add: gcd_red_nat [of "unat a" "unat b"])
    finally show ?thesis .
  qed
qed

lemma unat_least_common_multiple:
  "unat (least_common_multiple a b) = sat (lcm (unat a) (unat b))"
proof (cases "greatest_common_divisor a b = 0")
  case True
  then have "gcd (unat a) (unat b) = 0" by (metis unat_0 unat_greatest_common_divisor)
  then show ?thesis using True by (simp add: least_common_multiple_def)
next
  case False
  have "lcm (unat a) (unat b) = unat a div gcd (unat a) (unat b) * unat b"
    by (simp add: lcm_nat_def div_mult_swap mult.commute)
  then show ?thesis
    using False
    by (simp add: least_common_multiple_def unat_saturating_multiply unat_div unat_greatest_common_divisor)
qed

lemma total_parallel_workspace_Some:
  "total_parallel_workspace s w t = Some x \<longleftrightarrow>
     unat s + unat w * unat t \<le> 2 ^ 64 - 1 \<and> unat x = unat s + unat w * unat t"
proof (cases "w \<noteq> 0 \<and> u32_to_u64 t > u64_max div w")
  case True
  then have "2 ^ 64 - 1 < unat w * unat t"
    using nat_mult_gt_iff_div [of "unat w" "2 ^ 64 - 1" "unat t"]
    by (simp add: word_less_nat_alt unat_div unat_gt_0)
  then show ?thesis using True by (simp add: total_parallel_workspace_def)
next
  case False
  have small: "unat w * unat t \<le> 2 ^ 64 - 1"
  proof (cases "w = 0")
    case w: False
    then have "\<not> 2 ^ 64 - 1 < unat w * unat t"
      using False nat_mult_gt_iff_div [of "unat w" "2 ^ 64 - 1" "unat t"]
      by (simp add: word_less_nat_alt unat_div unat_gt_0)
    then show ?thesis by simp
  qed simp
  then have "unat (w * u32_to_u64 t) = unat w * unat t" by (simp add: unat_word_ariths)
  moreover have "w * u32_to_u64 t > u64_max - s \<longleftrightarrow> unat s + unat (w * u32_to_u64 t) > 2 ^ 64 - 1"
    using unat_lt64 [of s] by (simp add: word_less_nat_alt unat_u64_max_minus, arith)
  ultimately show ?thesis
    using False by (auto simp: total_parallel_workspace_def Let_def unat_plus_if' intro!: word_eq_unatI)
qed

section \<open>The search in natural numbers\<close>

text \<open>The tasks a grid with \<open>r\<close> rows of tasks offers.\<close>

definition grid_tasks :: "nat \<Rightarrow> nat \<Rightarrow> nat \<Rightarrow> nat" where
  "grid_tasks panels threads r = r * min panels (threads div r)"

lemma grid_tasks_le: "grid_tasks panels threads r \<le> threads"
  unfolding grid_tasks_def
  by (rule le_trans [OF mult_le_mono2 [OF min.cobounded2]]) (simp add: mult.commute)

definition grid_ok :: "u64 \<Rightarrow> u32 \<Rightarrow> u64 \<Rightarrow> task_search \<Rightarrow> bool" where
  "grid_ok P T M s \<longleftrightarrow>
     unat (tsk_rows s) * unat (tsk_columns s) = unat (tsk_count s) \<and>
     unat (tsk_rows s) \<in> {1..unat M} \<and> unat (tsk_columns s) \<in> {1..unat P} \<and>
     unat M \<le> unat (tsk_count s) \<and> unat (tsk_count s) \<le> unat T"

definition search_ok :: "u64 \<Rightarrow> u32 \<Rightarrow> u64 \<Rightarrow> nat \<Rightarrow> task_search \<Rightarrow> bool" where
  "search_ok P T M j s \<longleftrightarrow> grid_ok P T M s \<and>
     (\<forall>r \<in> {1..j}. grid_tasks (unat P) (unat T) r \<le> unat (tsk_count s)) \<and>
     (s = row_tasks_only M \<or> (\<exists>r \<in> {1..j}. unat (tsk_count s) = grid_tasks (unat P) (unat T) r))"

lemma task_step_ok:
  assumes "search_ok P T M j s" "1 \<le> unat P" "Suc j \<le> unat M" "unat M \<le> unat T"
    and w: "unat w = Suc j"
  shows "search_ok P T M (Suc j) (task_step P T w s)"
proof -
  define c where "c = min P (u32_to_u64 T div w)"
  let ?g = "grid_tasks (unat P) (unat T) (Suc j)"
  have c: "unat c = min (unat P) (unat T div Suc j)"
    by (simp add: c_def min_def word_le_nat_alt unat_div w)
  have "unat w * unat c = ?g" by (simp only: c w grid_tasks_def)
  moreover have "?g < 2 ^ 64"
    by (rule le_less_trans [OF grid_tasks_le]) (rule less_trans [OF unat_lt32], simp)
  ultimately have k: "unat (w * c) = ?g" by (simp add: unat_word_ariths)
  have "1 \<le> unat T div Suc j" using assms(3,4) by (simp add: div_greater_zero_iff Suc_leI)
  then have c1: "unat c \<in> {1..unat P}" using assms(2) c by simp
  have upto: "{1..Suc j} = insert (Suc j) {1..j}" by auto
  show ?thesis
  proof (cases "w * c > tsk_count s \<or> w * c = tsk_count s \<and> w > tsk_rows s")
    case True
    then have ge: "unat (tsk_count s) \<le> ?g" using k by (auto simp: word_less_nat_alt)
    have "search_ok P T M (Suc j) \<lparr>tsk_rows = w, tsk_columns = c, tsk_count = w * c\<rparr>"
      unfolding search_ok_def grid_ok_def upto task_search.select_convs k w
      using assms(1,3) c1 ge \<open>unat w * unat c = ?g\<close> grid_tasks_le [of "unat P" "unat T" "Suc j"]
      by (auto simp: search_ok_def grid_ok_def w intro: le_trans)
    then show ?thesis using True by (simp add: task_step_def Let_def c_def)
  next
    case False
    then have "?g \<le> unat (tsk_count s)" using k by (simp add: not_less word_le_nat_alt)
    then have "search_ok P T M (Suc j) s"
      using assms(1) unfolding search_ok_def grid_ok_def upto by auto
    moreover have "task_step P T w s = s" using False by (auto simp: task_step_def Let_def c_def)
    ultimately show ?thesis by (simp only:)
  qed
qed

lemma task_loop_ok:
  assumes "1 \<le> unat P" "1 \<le> unat M" "unat M \<le> unat T"
  shows "search_ok P T M (unat M) (task_loop P T M (row_tasks_only M))"
proof -
  have "search_ok P T M j (fold (task_step P T) (map of_nat [1..<Suc j]) (row_tasks_only M))"
    if "j \<le> unat M" for j
    using that
  proof (induction j)
    case 0
    then show ?case using assms by (simp add: search_ok_def grid_ok_def row_tasks_only_def)
  next
    case (Suc j)
    have "unat (of_nat (Suc j) :: u64) = Suc j"
      using le_less_trans [OF Suc.prems unat_lt64]
      by (simp only: unsigned_of_nat take_bit_nat_def) simp
    then have "search_ok P T M (Suc j) (task_step P T (of_nat (Suc j))
        (fold (task_step P T) (map of_nat [1..<Suc j]) (row_tasks_only M)))"
      using Suc assms by (intro task_step_ok) simp_all
    then show ?case by simp
  qed
  then show ?thesis by (simp add: task_loop_def)
qed

definition flops :: "CpuGemmProblemV1 \<Rightarrow> nat" where
  "flops problem = sat (2 * unat (operation_count problem))"

lemma work_floor_cases:
  "work_floor problem M s = s \<or> work_floor problem M s = row_tasks_only M"
  by (simp add: work_floor_def Let_def)

lemma work_floor_result:
  "work_floor problem M s \<noteq> s \<Longrightarrow>
     unat (tsk_count s) > unat M \<and> flops problem div unat (tsk_count s) < 2 ^ 25"
  by (auto simp: work_floor_def Let_def flops_def word_less_nat_alt unat_div unat_saturating_multiply
      kCpuParallelColumnOnlyMinimumWorkPerThreadV1_def push_bit_eq_mult
      kCpuParallelTwoDimensionalMinimumWorkPerThreadV1_def split: if_splits)

lemma work_floor_kept:
  "work_floor problem M s = s \<and> unat (tsk_count s) > unat M \<Longrightarrow> s \<noteq> row_tasks_only M \<Longrightarrow>
     (if tsk_rows s = 1 then 2 ^ 23 else 2 ^ 25) \<le> flops problem div unat (tsk_count s)"
  by (auto simp: work_floor_def Let_def flops_def word_less_nat_alt unat_div unat_saturating_multiply
      kCpuParallelColumnOnlyMinimumWorkPerThreadV1_def push_bit_eq_mult
      kCpuParallelTwoDimensionalMinimumWorkPerThreadV1_def split: if_splits)

section \<open>The plan in natural numbers\<close>

definition task_problem_ok :: "CpuGemmProblemV1 \<Rightarrow> u32 \<Rightarrow> bool" where
  "task_problem_ok problem threads \<longleftrightarrow>
     0 < sint (prob_m problem) \<and> 0 < sint (prob_n problem) \<and> 0 < sint (prob_k problem) \<and> threads \<noteq> 0"

definition quantum :: "CpuGemmProblemV1 \<Rightarrow> nat" where
  "quantum problem = lcm 4 (16 div gcd (dim (prob_n problem)) 16)"

definition column_safe :: "CpuGemmProblemV1 \<Rightarrow> bool" where
  "column_safe problem \<longleftrightarrow> prob_minimum_alignment_bytes problem \<ge> 64 \<and> 16 dvd dim (prob_n problem)"

definition panels :: "CpuGemmProblemV1 \<Rightarrow> nat" where
  "panels problem = (dim (prob_n problem) + 255) div 256"

definition maximum_rows :: "CpuGemmProblemV1 \<Rightarrow> u32 \<Rightarrow> nat" where
  "maximum_rows problem threads = min (unat threads)
     (min ((dim (prob_m problem) + 127) div 128)
        ((dim (prob_m problem) + quantum problem - 1) div quantum problem))"

lemma gcd_16: "gcd n 16 \<in> {1, 2, 4, 8, 16 :: nat}"
proof -
  have small: "d = 0 \<or> d = 1 \<or> d = 2 \<or> d = 3 \<or> d = 4 \<or> d = 5 \<or> d = 6 \<or> d = 7 \<or> d = 8 \<or> d = 9 \<or>
      d = 10 \<or> d = 11 \<or> d = 12 \<or> d = 13 \<or> d = 14 \<or> d = 15 \<or> d = 16" if "d \<le> 16" for d :: nat
    using that by presburger
  have "d \<in> {1, 2, 4, 8, 16}" if "d \<le> 16" "d dvd (16 :: nat)" for d
    using small [OF that(1)] that(2) by auto
  then show ?thesis using gcd_le2_nat [of 16 n] gcd_dvd2 [of n 16] by simp
qed

lemma quantum_table: "\<forall>d \<in> {1, 2, 4, 8, 16 :: nat}. lcm 4 (16 div d) \<in> {4, 8, 16 :: nat}"
  by (simp add: lcm_proj1_if_dvd_nat lcm_proj2_if_dvd_nat)

lemma quantum_values: "quantum problem \<in> {4, 8, 16}"
  using quantum_table gcd_16 unfolding quantum_def by blast

lemma unat_min: "unat (min a b) = min (unat a) (unat b)"
  by (simp add: min_def word_le_nat_alt)

lemma row_quantum_word:
  assumes "0 < sint n"
  shows "unat (least_common_multiple kCpuParallelRegisterTileRowsV1
      (kCpuParallelCacheLineFloatCountV1 div
        greatest_common_divisor n kCpuParallelCacheLineFloatCountV1)) =
    lcm 4 (16 div gcd (dim n) 16)"
proof -
  have "lcm 4 (16 div gcd (dim n) 16) \<in> {4, 8, 16}" using quantum_table gcd_16 by blast
  then have "sat (lcm 4 (16 div gcd (dim n) 16)) = lcm 4 (16 div gcd (dim n) 16)" by fastforce
  moreover have "unat kCpuParallelCacheLineFloatCountV1 = 16" "unat kCpuParallelRegisterTileRowsV1 = 4"
    by (simp_all add: task_constants)
  ultimately show ?thesis
    by (simp only: unat_least_common_multiple unat_div unat_greatest_common_divisor
        unat_positive_dim [OF assms])
qed

lemma task_plan_exact:
  assumes "task_problem_ok problem threads"
  defines "p \<equiv> plan_cpu_parallel_tasks_v1 problem threads"
  shows "\<exists>P M s. unat P = panels problem \<and> unat M = maximum_rows problem threads \<and>
    ptp_row_task_count p = tsk_rows s \<and> ptp_column_task_count p = tsk_columns s \<and>
    ptp_task_count p = tsk_count s \<and>
    ptp_actual_threads p = ucast (min (u32_to_u64 threads) (tsk_count s)) \<and>
    unat (ptp_row_quantum p) = quantum problem \<and>
    unat (ptp_macro_tile_count p) = (dim (prob_m problem) + 127) div 128 \<and>
    unat (ptp_row_group_count p) = (dim (prob_m problem) + quantum problem - 1) div quantum problem \<and>
    unat (ptp_column_panel_count p) = panels problem \<and>
    s = work_floor problem M (if column_safe problem \<and> panels problem > 1
                      then task_loop P threads M (row_tasks_only M) else row_tasks_only M)"
proof -
  let ?m = "prob_m problem" and ?n = "prob_n problem"
  have pos: "0 < sint ?m" "0 < sint ?n" "0 < sint (prob_k problem)" "threads \<noteq> 0"
    using assms(1) by (simp_all add: task_problem_ok_def)
  note dims = unat_positive_dim [OF pos(1)] unat_positive_dim [OF pos(2)]
  let ?q = "least_common_multiple kCpuParallelRegisterTileRowsV1
      (kCpuParallelCacheLineFloatCountV1 div
        greatest_common_divisor ?n kCpuParallelCacheLineFloatCountV1)"
  have q: "unat ?q = quantum problem" by (simp add: row_quantum_word [OF pos(2)] quantum_def)
  then have "?q \<noteq> 0" using quantum_values [of problem] by auto
  let ?macro = "divide_round_up ?m kCpuParallelMacroTileRowsV1" and ?groups = "divide_round_up ?m ?q"
  let ?P = "divide_round_up ?n kCpuParallelColumnTileColumnsV1"
  let ?M = "min (u32_to_u64 threads) (min ?macro ?groups)"
  have macro: "unat ?macro = (dim ?m + 127) div 128"
    by (subst unat_divide_round_up) (simp_all add: task_constants dims)
  have groups: "unat ?groups = (dim ?m + quantum problem - 1) div quantum problem"
    by (subst unat_divide_round_up) (simp_all add: \<open>?q \<noteq> 0\<close> q dims)
  have P: "unat ?P = panels problem"
    by (subst unat_divide_round_up) (simp_all add: task_constants dims panels_def)
  have M: "unat ?M = maximum_rows problem threads"
    by (simp add: unat_min macro groups maximum_rows_def)
  have "?n mod kCpuParallelCacheLineFloatCountV1 = 0 \<longleftrightarrow> 16 dvd dim ?n"
    by (simp add: task_constants dims unat_mod dvd_eq_mod_eq_0 unat_eq_zero flip: unat_0_iff)
  then have safe: "(prob_minimum_alignment_bytes problem \<ge> 64 \<and> ?n mod kCpuParallelCacheLineFloatCountV1 = 0) =
      column_safe problem" by (simp add: column_safe_def)
  have P1: "(?P > 1) = (panels problem > 1)" by (simp add: word_less_nat_alt P)
  have no: "(sint ?m \<le> 0 \<or> sint ?n \<le> 0 \<or> sint (prob_k problem) \<le> 0 \<or> threads = 0) = False"
    and q0: "(?q = 0) = False" using pos \<open>?q \<noteq> 0\<close> by (simp_all add: not_le)
  note plan = p_def [unfolded plan_cpu_parallel_tasks_v1_def Let_def no if_False q0 safe P1]
  show ?thesis
    by (intro exI [of _ ?P] exI [of _ ?M] exI conjI)
      (simp_all only: plan CpuParallelTaskPlanV1.select_convs P M q macro groups)
qed

lemma maximum_rows_bounds:
  assumes "task_problem_ok problem threads"
  shows "1 \<le> maximum_rows problem threads" "maximum_rows problem threads \<le> unat threads"
    "1 \<le> panels problem"
proof -
  have d: "1 \<le> dim (prob_m problem)" "1 \<le> dim (prob_n problem)"
    using assms by (simp_all add: task_problem_ok_def dim_def Suc_le_eq)
  have q: "1 \<le> quantum problem" using quantum_values [of problem] by auto
  have "1 \<le> (dim (prob_m problem) + quantum problem - 1) div quantum problem"
    using d(1) q div_le_mono [of "quantum problem" "dim (prob_m problem) + quantum problem - 1" "quantum problem"]
    by simp
  moreover have "1 \<le> (dim (prob_m problem) + 127) div 128" "1 \<le> unat threads"
    using d(1) assms div_le_mono [of 128 "dim (prob_m problem) + 127" 128]
    by (simp_all add: task_problem_ok_def Suc_leI unat_gt_0)
  ultimately show "1 \<le> maximum_rows problem threads" by (simp add: maximum_rows_def)
  show "maximum_rows problem threads \<le> unat threads" by (simp add: maximum_rows_def)
  show "1 \<le> panels problem"
    using d(2) div_le_mono [of 256 "dim (prob_n problem) + 255" 256] by (simp add: panels_def)
qed

text \<open>What the search leaves, whatever the work floor says.\<close>

lemma task_plan_facts:
  assumes "task_problem_ok problem threads"
  defines "p \<equiv> plan_cpu_parallel_tasks_v1 problem threads"
  defines "M \<equiv> maximum_rows problem threads" and "T \<equiv> unat threads" and "P \<equiv> panels problem"
  shows "unat (ptp_row_task_count p) * unat (ptp_column_task_count p) = unat (ptp_task_count p)"
    "unat (ptp_row_task_count p) \<in> {1..M}" "unat (ptp_column_task_count p) \<in> {1..P}"
    "unat (ptp_task_count p) \<in> {M..T}" "unat (ptp_actual_threads p) = unat (ptp_task_count p)"
    "ptp_column_task_count p \<noteq> 1 \<Longrightarrow> column_safe problem"
    "column_safe problem \<Longrightarrow> (\<forall>r \<in> {1..M}. grid_tasks P T r \<le> unat (ptp_task_count p)) \<or>
       (unat (ptp_task_count p) = M \<and>
        (\<exists>r \<in> {1..M}. M < grid_tasks P T r \<and> flops problem div grid_tasks P T r < 2 ^ 25))"
proof -
  obtain P' M' s where w: "unat P' = P" "unat M' = M" "ptp_row_task_count p = tsk_rows s"
    "ptp_column_task_count p = tsk_columns s" "ptp_task_count p = tsk_count s"
    "ptp_actual_threads p = ucast (min (u32_to_u64 threads) (tsk_count s))"
    and s: "s = work_floor problem M' (if column_safe problem \<and> panels problem > 1
                      then task_loop P' threads M' (row_tasks_only M') else row_tasks_only M')"
    using task_plan_exact [OF assms(1)] unfolding p_def M_def P_def by blast
  note b = maximum_rows_bounds [OF assms(1), folded M_def P_def T_def]
  have plain: "grid_ok P' threads M' (row_tasks_only M')"
    using b w(1,2) by (simp add: grid_ok_def row_tasks_only_def T_def)
  have loop: "search_ok P' threads M' M (task_loop P' threads M' (row_tasks_only M'))"
    using task_loop_ok [of P' M' threads] b w(1,2) by (simp add: T_def)
  let ?l = "if column_safe problem \<and> panels problem > 1
      then task_loop P' threads M' (row_tasks_only M') else row_tasks_only M'"
  have ok: "grid_ok P' threads M' s"
    using plain loop work_floor_cases [of problem M' ?l] unfolding s search_ok_def by (auto split: if_splits)
  show "unat (ptp_row_task_count p) * unat (ptp_column_task_count p) = unat (ptp_task_count p)"
    "unat (ptp_row_task_count p) \<in> {1..M}" "unat (ptp_column_task_count p) \<in> {1..P}"
    using ok by (simp_all only: grid_ok_def w)
  show count: "unat (ptp_task_count p) \<in> {M..T}"
    using ok by (simp only: grid_ok_def w T_def atLeastAtMost_iff)
  then have "unat (min (u32_to_u64 threads) (tsk_count s)) = unat (tsk_count s)"
    by (simp add: unat_min w T_def)
  then show "unat (ptp_actual_threads p) = unat (ptp_task_count p)"
    using count le_less_trans [OF _ unat_lt32 [of threads]] by (simp add: w unsigned_ucast_eq T_def take_bit_nat_eq_self)
  show "ptp_column_task_count p \<noteq> 1 \<Longrightarrow> column_safe problem"
    using work_floor_cases [of problem M' ?l] unfolding w(4) s
    by (auto simp: row_tasks_only_def split: if_splits)
  assume safe: "column_safe problem"
  have grid1: "grid_tasks P T r \<le> M" if "panels problem = 1" "r \<in> {1..M}" for r
  proof -
    have "grid_tasks P T r \<le> r * 1"
      unfolding grid_tasks_def P_def that(1) by (intro mult_le_mono2 min.cobounded1)
    then show ?thesis using that(2) by simp
  qed
  show "(\<forall>r \<in> {1..M}. grid_tasks P T r \<le> unat (ptp_task_count p)) \<or>
       (unat (ptp_task_count p) = M \<and>
        (\<exists>r \<in> {1..M}. M < grid_tasks P T r \<and> flops problem div grid_tasks P T r < 2 ^ 25))"
  proof (cases "panels problem = 1")
    case True
    then show ?thesis using grid1 count by fastforce
  next
    case False
    then have l: "?l = task_loop P' threads M' (row_tasks_only M')" using safe b(3) by (simp add: P_def)
    show ?thesis
    proof (cases "s = ?l")
      case True
      then show ?thesis using loop unfolding l search_ok_def w T_def by auto
    next
      case veto: False
      then have "unat (tsk_count ?l) > M" "flops problem div unat (tsk_count ?l) < 2 ^ 25"
        using work_floor_result [of problem M' ?l] w(2) unfolding s by auto
      moreover from this have "\<exists>r \<in> {1..M}. unat (tsk_count ?l) = grid_tasks P T r"
        using loop w(1,2) unfolding l search_ok_def T_def by (auto simp: row_tasks_only_def)
      moreover have "s = row_tasks_only M'" using veto work_floor_cases unfolding s by blast
      then have "unat (ptp_task_count p) = M" by (simp add: w row_tasks_only_def)
      ultimately show ?thesis by metis
    qed
  qed
qed

section \<open>Properties\<close>

text \<open>The Euclidean loop of the task planner ends with the greatest common divisor, and the least
  common multiple built on it is exact up to saturation at \<open>2^64 - 1\<close>.\<close>

theorem greatest_common_divisor_exact:
  "unat (greatest_common_divisor a b) = gcd (unat a) (unat b) \<and>
   unat (least_common_multiple a b) = min (lcm (unat a) (unat b)) (2 ^ 64 - 1)"
  using unat_greatest_common_divisor [of a b] unat_least_common_multiple [of a b] by simp

text \<open>C32: A task plan for a positive problem cuts the output into a full grid of at least one and at
  most as many tasks as threads were granted, one thread per task, never more row tasks than
  macro tiles or row groups, never more column tasks than panels. Columns are split only when rows
  start on cache lines.\<close>

theorem parallel_tasks_bounds:
  assumes "0 < sint (prob_m problem)" "0 < sint (prob_n problem)" "0 < sint (prob_k problem)" "threads \<noteq> 0"
    and "p = plan_cpu_parallel_tasks_v1 problem threads"
  shows "unat (ptp_row_task_count p) * unat (ptp_column_task_count p) = unat (ptp_task_count p) \<and>
    1 \<le> unat (ptp_row_task_count p) \<and> 1 \<le> unat (ptp_column_task_count p) \<and>
    unat (ptp_task_count p) \<le> unat threads \<and>
    unat (ptp_actual_threads p) = unat (ptp_task_count p) \<and>
    unat (ptp_row_task_count p) \<le> unat (ptp_macro_tile_count p) \<and>
    unat (ptp_row_task_count p) \<le> unat (ptp_row_group_count p) \<and>
    unat (ptp_column_task_count p) \<le> unat (ptp_column_panel_count p) \<and>
    (ptp_column_task_count p \<noteq> 1 \<longrightarrow>
       prob_minimum_alignment_bytes problem \<ge> 64 \<and> 16 dvd dim (prob_n problem))"
proof -
  have ok: "task_problem_ok problem threads" using assms(1-4) by (simp add: task_problem_ok_def)
  note f = task_plan_facts [OF ok, folded assms(5)]
  have "unat (ptp_macro_tile_count p) = (dim (prob_m problem) + 127) div 128"
    "unat (ptp_row_group_count p) = (dim (prob_m problem) + quantum problem - 1) div quantum problem"
    "unat (ptp_column_panel_count p) = panels problem"
    using task_plan_exact [OF ok, folded assms(5)] by auto
  then show ?thesis using f(1-5) f(6) [unfolded column_safe_def] by (simp add: maximum_rows_def)
qed

text \<open>The row quantum of a plan is the least number of rows that is a multiple of the register
  tile and after which a row of the output starts on a cache line again: every other such number
  is a multiple of it, so row tasks never share an output cache line.\<close>

theorem row_quantum_least:
  assumes "0 < sint (prob_m problem)" "0 < sint (prob_n problem)" "0 < sint (prob_k problem)" "threads \<noteq> 0"
    and "q = unat (ptp_row_quantum (plan_cpu_parallel_tasks_v1 problem threads))"
  shows "4 dvd q \<and> 16 dvd q * dim (prob_n problem) \<and> q \<le> 16 \<and>
    (\<forall>r. 4 dvd r \<and> 16 dvd r * dim (prob_n problem) \<longrightarrow> q dvd r)"
proof -
  have ok: "task_problem_ok problem threads" using assms(1-4) by (simp add: task_problem_ok_def)
  have q: "q = quantum problem" using task_plan_exact [OF ok] assms(5) by auto
  let ?g = "gcd (dim (prob_n problem)) 16"
  have line: "16 dvd r * dim (prob_n problem) \<longleftrightarrow> 16 div ?g dvd r" for r
  proof -
    have "?g \<noteq> 0" by simp
    have "coprime (16 div ?g) (dim (prob_n problem) div ?g)"
      by (metis coprime_commute div_gcd_coprime gcd_eq_0_iff zero_neq_numeral)
    have "16 div ?g * ?g = 16" "dim (prob_n problem) div ?g * ?g = dim (prob_n problem)"
      by (rule dvd_div_mult_self, simp)+
    then have "16 dvd r * dim (prob_n problem) \<longleftrightarrow>
        16 div ?g * ?g dvd r * (dim (prob_n problem) div ?g) * ?g"
      by (simp only: mult.assoc)
    also have "\<dots> \<longleftrightarrow> 16 div ?g dvd r * (dim (prob_n problem) div ?g)"
      using \<open>?g \<noteq> 0\<close> by (rule dvd_times_right_cancel_iff)
    also have "\<dots> \<longleftrightarrow> 16 div ?g dvd r"
      using \<open>coprime (16 div ?g) _\<close> by (rule coprime_dvd_mult_left_iff)
    finally show ?thesis .
  qed
  have "4 dvd q" "16 div ?g dvd q" by (simp_all add: q quantum_def)
  moreover have "q \<le> 16" using quantum_values [of problem] q by auto
  moreover have "q dvd r" if "4 dvd r" "16 div ?g dvd r" for r
    using that unfolding q quantum_def by (rule lcm_least)
  ultimately show ?thesis using line by blast
qed

text \<open>The task count is the best a grid can offer: no admissible number of row tasks combined with
  as many column tasks as panels and threads allow would give more tasks, unless the work floor
  took the column tasks back, because the best grid left less than \<open>2^25\<close> operations per task.\<close>

theorem task_count_maximal:
  assumes "0 < sint (prob_m problem)" "0 < sint (prob_n problem)" "0 < sint (prob_k problem)" "threads \<noteq> 0"
    and "prob_minimum_alignment_bytes problem \<ge> 64" "16 dvd dim (prob_n problem)"
    and "t = unat (ptp_task_count (plan_cpu_parallel_tasks_v1 problem threads))"
  shows "(\<forall>r \<in> {1..maximum_rows problem threads}. grid_tasks (panels problem) (unat threads) r \<le> t) \<or>
    (t = maximum_rows problem threads \<and>
     (\<exists>r \<in> {1..maximum_rows problem threads}. t < grid_tasks (panels problem) (unat threads) r \<and>
       flops problem div grid_tasks (panels problem) (unat threads) r < 2 ^ 25))"
  using task_plan_facts(7) [of problem threads] assms
  by (auto simp: task_problem_ok_def column_safe_def)

text \<open>The total workspace of a parallel candidate is reported only when it fits 64 bits, and then
  exactly.\<close>

theorem total_workspace_exact:
  "total_parallel_workspace shared per_worker threads =
    (if unat shared + unat per_worker * unat threads < 2 ^ 64
     then Some (of_nat (unat shared + unat per_worker * unat threads)) else None)"
proof (cases "total_parallel_workspace shared per_worker threads")
  case None
  have "\<not> unat shared + unat per_worker * unat threads < 2 ^ 64"
  proof
    let ?n = "unat shared + unat per_worker * unat threads"
    assume n: "?n < 2 ^ 64"
    then have "unat (of_nat ?n :: u64) = ?n"
      by (simp only: unsigned_of_nat take_bit_nat_def mod_less len_num1 len_bit0 len_num0) simp
    then show False
      using None n total_parallel_workspace_Some [of shared per_worker threads "of_nat ?n"] by simp
  qed
  then show ?thesis using None by simp
next
  case (Some x)
  then have x: "unat shared + unat per_worker * unat threads \<le> 2 ^ 64 - 1"
    "unat x = unat shared + unat per_worker * unat threads"
    by (simp_all add: total_parallel_workspace_Some)
  have "x = of_nat (unat shared + unat per_worker * unat threads)"
    unfolding x(2) [symmetric] by simp
  then show ?thesis using Some x(1) by simp
qed

section \<open>Witnesses\<close>

definition wide_problem :: CpuGemmProblemV1 where
  "wide_problem = small_problem\<lparr>prob_m := 256, prob_n := 1024, prob_k := 1024,
     prob_minimum_alignment_bytes := 64\<rparr>"

lemma wide_problem_positive:
  "0 < sint (prob_m wide_problem)" "0 < sint (prob_n wide_problem)" "0 < sint (prob_k wide_problem)"
  "(8 :: u32) \<noteq> 0" "prob_minimum_alignment_bytes wide_problem \<ge> 64" "16 dvd dim (prob_n wide_problem)"
  by (simp_all add: wide_problem_def small_problem_def dim_def)

theorem parallel_tasks_bounds_witness:
  "unat (ptp_task_count (plan_cpu_parallel_tasks_v1 wide_problem 8)) \<le> 8 \<and>
   unat (ptp_row_task_count (plan_cpu_parallel_tasks_v1 wide_problem 8)) *
     unat (ptp_column_task_count (plan_cpu_parallel_tasks_v1 wide_problem 8)) =
   unat (ptp_task_count (plan_cpu_parallel_tasks_v1 wide_problem 8))"
  using parallel_tasks_bounds [OF wide_problem_positive(1-4) refl] by simp

theorem row_quantum_least_witness:
  "4 dvd unat (ptp_row_quantum (plan_cpu_parallel_tasks_v1 wide_problem 8))"
  using row_quantum_least [OF wide_problem_positive(1-4) refl] by blast

theorem task_count_maximal_witness:
  "grid_tasks (panels wide_problem) 8 2 \<le> unat (ptp_task_count (plan_cpu_parallel_tasks_v1 wide_problem 8))"
proof -
  have "unat (ptp_task_count (plan_cpu_parallel_tasks_v1 wide_problem 8)) \<noteq> maximum_rows wide_problem 8"
    by code_simp
  moreover have "2 \<in> {1..maximum_rows wide_problem 8}" by code_simp
  ultimately show ?thesis
    using task_count_maximal [OF wide_problem_positive refl] by auto
qed

section \<open>The plan is stable\<close>

text \<open>The search keeps the last of the best grids.\<close>

definition last_best :: "u64 \<Rightarrow> u32 \<Rightarrow> u64 \<Rightarrow> nat \<Rightarrow> task_search \<Rightarrow> bool" where
  "last_best P T M j s \<longleftrightarrow> search_ok P T M j s \<and>
     (\<forall>r \<in> {1..j}. grid_tasks (unat P) (unat T) r = unat (tsk_count s) \<longrightarrow> r \<le> unat (tsk_rows s)) \<and>
     (s = row_tasks_only M \<or> unat (tsk_count s) = grid_tasks (unat P) (unat T) (unat (tsk_rows s)))"

lemma task_step_last:
  assumes s: "last_best P T M j s" and b: "1 \<le> unat P" "Suc j \<le> unat M" "unat M \<le> unat T"
    and w: "unat w = Suc j"
  shows "last_best P T M (Suc j) (task_step P T w s)"
proof -
  define c where "c = min P (u32_to_u64 T div w)"
  let ?g = "grid_tasks (unat P) (unat T)" and ?s' = "task_step P T w s"
  have c: "unat c = min (unat P) (unat T div Suc j)"
    by (simp add: c_def min_def word_le_nat_alt unat_div w)
  have "unat w * unat c = ?g (Suc j)" by (simp only: c w grid_tasks_def)
  moreover have "?g (Suc j) < 2 ^ 64"
    by (rule le_less_trans [OF grid_tasks_le]) (rule less_trans [OF unat_lt32], simp)
  ultimately have k: "unat (w * c) = ?g (Suc j)" by (simp add: unat_word_ariths)
  have ok: "search_ok P T M (Suc j) ?s'"
    using s b w by (intro task_step_ok) (simp_all add: last_best_def)
  have step: "?s' = (if w * c > tsk_count s \<or> w * c = tsk_count s \<and> w > tsk_rows s
      then \<lparr>tsk_rows = w, tsk_columns = c, tsk_count = w * c\<rparr> else s)"
    by (simp add: task_step_def Let_def c_def)
  have old: "?g r \<le> unat (tsk_count s)" "?g r = unat (tsk_count s) \<longrightarrow> r \<le> unat (tsk_rows s)"
    if "r \<in> {1..j}" for r
    using s that by (simp_all add: last_best_def search_ok_def)
  have upto: "r \<in> {1..j} \<or> r = Suc j" if "r \<in> {1..Suc j}" for r using that by auto
  have "?g r = unat (tsk_count ?s') \<longrightarrow> r \<le> unat (tsk_rows ?s')" if "r \<in> {1..Suc j}" for r
    using upto [OF that] old [of r] k w
    by (auto simp: step word_less_nat_alt word_unat_eq_iff)
  moreover have "?s' = row_tasks_only M \<or> unat (tsk_count ?s') = ?g (unat (tsk_rows ?s'))"
    using s k w by (auto simp: step last_best_def)
  ultimately show ?thesis using ok unfolding last_best_def by blast
qed

lemma task_loop_last:
  assumes "1 \<le> unat P" "1 \<le> unat M" "unat M \<le> unat T"
  shows "last_best P T M (unat M) (task_loop P T M (row_tasks_only M))"
proof -
  have "last_best P T M j (fold (task_step P T) (map of_nat [1..<Suc j]) (row_tasks_only M))"
    if "j \<le> unat M" for j
    using that
  proof (induction j)
    case 0
    then show ?case
      using assms by (simp add: last_best_def search_ok_def grid_ok_def row_tasks_only_def)
  next
    case (Suc j)
    have "unat (of_nat (Suc j) :: u64) = Suc j"
      using le_less_trans [OF Suc.prems unat_lt64] by (simp only: unsigned_of_nat take_bit_nat_def) simp
    then have "last_best P T M (Suc j) (task_step P T (of_nat (Suc j))
        (fold (task_step P T) (map of_nat [1..<Suc j]) (row_tasks_only M)))"
      using Suc assms by (intro task_step_last) simp_all
    then show ?case by simp
  qed
  then show ?thesis by (simp add: task_loop_def)
qed

lemma grid_tasks_mono: "t \<le> u \<Longrightarrow> grid_tasks p t r \<le> grid_tasks p u r"
  unfolding grid_tasks_def by (intro mult_le_mono2 min.mono div_le_mono order_refl)

lemma grid_tasks_row: "1 \<le> p \<Longrightarrow> 1 \<le> r \<Longrightarrow> r \<le> t \<Longrightarrow> r \<le> grid_tasks p t r"
  unfolding grid_tasks_def using div_le_mono [of r t r] by simp

lemma search_final:
  assumes "1 \<le> unat P" "1 \<le> unat M" "unat M \<le> unat T"
  defines "s \<equiv> task_loop P T M (row_tasks_only M)" and "g \<equiv> grid_tasks (unat P) (unat T)"
  shows "unat (tsk_count s) = g (unat (tsk_rows s))" "unat (tsk_rows s) \<in> {1..unat M}"
    "unat (tsk_rows s) * unat (tsk_columns s) = unat (tsk_count s)"
    "r \<in> {1..unat M} \<Longrightarrow> g r \<le> unat (tsk_count s)"
    "r \<in> {1..unat M} \<Longrightarrow> g r = unat (tsk_count s) \<Longrightarrow> r \<le> unat (tsk_rows s)"
    "unat M \<le> unat (tsk_count s)" "unat (tsk_count s) \<le> unat T"
proof -
  have l: "last_best P T M (unat M) s" unfolding s_def by (rule task_loop_last [OF assms(1-3)])
  then show "unat (tsk_rows s) \<in> {1..unat M}" "unat (tsk_rows s) * unat (tsk_columns s) = unat (tsk_count s)"
    "r \<in> {1..unat M} \<Longrightarrow> g r = unat (tsk_count s) \<Longrightarrow> r \<le> unat (tsk_rows s)"
    and le: "r \<in> {1..unat M} \<Longrightarrow> g r \<le> unat (tsk_count s)"
    and "unat M \<le> unat (tsk_count s)" "unat (tsk_count s) \<le> unat T" for r
    by (simp_all add: last_best_def search_ok_def grid_ok_def g_def)
  show "unat (tsk_count s) = g (unat (tsk_rows s))"
  proof (cases "s = row_tasks_only M")
    case True
    then have "unat (tsk_count s) = unat M" "unat (tsk_rows s) = unat M" by (simp_all add: row_tasks_only_def)
    then show ?thesis
      using le [of "unat M"] grid_tasks_row [of "unat P" "unat M" "unat T"] assms(1-3) by (simp add: g_def)
  next
    case False
    then show ?thesis using l by (simp add: last_best_def g_def)
  qed
qed

text \<open>The best grid for exactly the threads it uses is the same grid.\<close>

lemma search_stable:
  assumes "1 \<le> unat P" "1 \<le> unat M" "unat M \<le> unat T"
    and t: "unat t = unat (tsk_count (task_loop P T M (row_tasks_only M)))"
  shows "task_loop P t M (row_tasks_only M) = task_loop P T M (row_tasks_only M)"
proof -
  let ?s = "task_loop P T M (row_tasks_only M)" and ?s' = "task_loop P t M (row_tasks_only M)"
  note s = search_final [OF assms(1-3)]
  have M: "unat M \<le> unat t" using s(6) t by simp
  note s' = search_final [OF assms(1,2) M]
  have "grid_tasks (unat P) (unat t) (unat (tsk_rows ?s)) = unat t"
  proof -
    have "unat t div unat (tsk_rows ?s) = unat (tsk_columns ?s)"
      using s(2) unfolding t s(3) [symmetric] by simp
    moreover have "unat (tsk_columns ?s) \<le> unat P"
    proof -
      have "unat (tsk_rows ?s) * unat (tsk_columns ?s) \<le> unat (tsk_rows ?s) * unat P"
        unfolding s(3) unfolding s(1) grid_tasks_def by (intro mult_le_mono2) simp
      then show ?thesis using s(2) by simp
    qed
    ultimately show ?thesis unfolding grid_tasks_def using s(3) t by (simp add: min_absorb2)
  qed
  note same = this
  have count: "unat (tsk_count ?s') = unat (tsk_count ?s)"
    using s'(4) [OF s(2)] s'(7) same t by simp
  have "unat (tsk_rows ?s) \<le> unat (tsk_rows ?s')"
    using s'(5) [OF s(2)] same count t by simp
  moreover have "unat (tsk_rows ?s') \<le> unat (tsk_rows ?s)"
  proof (rule s(5) [OF s'(2)])
    have "unat (tsk_count ?s) \<le> grid_tasks (unat P) (unat T) (unat (tsk_rows ?s'))"
      unfolding count [symmetric] s'(1) using s(7) t by (intro grid_tasks_mono) simp
    then show "grid_tasks (unat P) (unat T) (unat (tsk_rows ?s')) = unat (tsk_count ?s)"
      using s(4) [OF s'(2)] by simp
  qed
  ultimately have rows: "unat (tsk_rows ?s') = unat (tsk_rows ?s)" by simp
  then have "unat (tsk_columns ?s') = unat (tsk_columns ?s)"
    using s(2,3) s'(3) count by (metis atLeastAtMost_iff mult_left_cancel not_one_le_zero)
  then show ?thesis using rows count by (intro task_search.equality) (simp_all add: word_unat_eq_iff)
qed

lemma plan_stable:
  "plan_cpu_parallel_tasks_v1 problem (ptp_actual_threads (plan_cpu_parallel_tasks_v1 problem threads)) =
   plan_cpu_parallel_tasks_v1 problem threads"
proof (cases "task_problem_ok problem threads")
  case False
  then have "plan_cpu_parallel_tasks_v1 problem threads = default_task_plan"
    by (auto simp: plan_cpu_parallel_tasks_v1_def task_problem_ok_def not_less)
  then show ?thesis by (simp add: default_task_plan_def plan_cpu_parallel_tasks_v1_def)
next
  case True
  let ?p = "plan_cpu_parallel_tasks_v1 problem threads"
  define t where "t = ptp_actual_threads ?p"
  let ?q = "plan_cpu_parallel_tasks_v1 problem t"
  note f = task_plan_facts [OF True] and b = maximum_rows_bounds [OF True]
  have t: "unat t = unat (ptp_task_count ?p)" using f(5) by (simp add: t_def)
  have "t \<noteq> 0" using f(4) b(1) t by auto
  then have ok: "task_problem_ok problem t" using True by (simp add: task_problem_ok_def)
  have maximum: "maximum_rows problem t = maximum_rows problem threads"
  proof -
    have "min a x = min b x" if "min b x \<le> a" "a \<le> b" for a b x :: nat
      using that by (simp add: min_def split: if_splits)
    then show ?thesis
      using f(4) unfolding t maximum_rows_def atLeastAtMost_iff by blast
  qed
  note f' = task_plan_facts [OF ok]
  obtain P M s where e: "unat P = panels problem" "unat M = maximum_rows problem threads"
    "ptp_row_task_count ?p = tsk_rows s" "ptp_column_task_count ?p = tsk_columns s"
    "ptp_task_count ?p = tsk_count s"
    "unat (ptp_row_quantum ?p) = quantum problem"
    "unat (ptp_macro_tile_count ?p) = (dim (prob_m problem) + 127) div 128"
    "unat (ptp_row_group_count ?p) = (dim (prob_m problem) + quantum problem - 1) div quantum problem"
    "unat (ptp_column_panel_count ?p) = panels problem"
    and s: "s = work_floor problem M (if column_safe problem \<and> panels problem > 1
                      then task_loop P threads M (row_tasks_only M) else row_tasks_only M)"
    using task_plan_exact [OF True] by blast
  obtain P' M' s' where e': "unat P' = panels problem" "unat M' = maximum_rows problem t"
    "ptp_row_task_count ?q = tsk_rows s'" "ptp_column_task_count ?q = tsk_columns s'"
    "ptp_task_count ?q = tsk_count s'"
    "unat (ptp_row_quantum ?q) = quantum problem"
    "unat (ptp_macro_tile_count ?q) = (dim (prob_m problem) + 127) div 128"
    "unat (ptp_row_group_count ?q) = (dim (prob_m problem) + quantum problem - 1) div quantum problem"
    "unat (ptp_column_panel_count ?q) = panels problem"
    and s': "s' = work_floor problem M' (if column_safe problem \<and> panels problem > 1
                      then task_loop P' t M' (row_tasks_only M') else row_tasks_only M')"
    using task_plan_exact [OF ok] by blast
  have words: "P' = P" "M' = M" using e(1,2) e'(1,2) maximum by (simp_all add: word_unat_eq_iff)
  have bounds: "1 \<le> unat P" "1 \<le> unat M" "unat M \<le> unat threads" using b e(1,2) by simp_all
  have floor: "work_floor problem M (row_tasks_only M) = row_tasks_only M"
    by (simp add: work_floor_def row_tasks_only_def)
  have "s' = s"
  proof (cases "column_safe problem \<and> panels problem > 1")
    case False
    then show ?thesis by (simp only: s s' words if_False)
  next
    case safe: True
    let ?l = "task_loop P threads M (row_tasks_only M)"
    consider "s = ?l" | "s = row_tasks_only M" "?l \<noteq> row_tasks_only M"
      using work_floor_cases [of problem M ?l] safe by (cases "?l = row_tasks_only M") (auto simp: s)
    then show ?thesis
    proof cases
      case 1
      then have "unat t = unat (tsk_count ?l)" using t e(5) by simp
      then show ?thesis using search_stable [OF bounds] safe by (simp add: s s' words)
    next
      case 2
      then have tM: "unat t = unat M" using t e(5) by (simp add: row_tasks_only_def)
      let ?m = "task_loop P t M (row_tasks_only M)"
      note m = search_final [OF bounds(1,2), of t, unfolded tM, OF order_refl]
      have "unat (tsk_rows ?m) = unat M" "unat (tsk_count ?m) = unat M"
        using m(2,6,7) m(5) [of "unat M"] bounds(1,2) by (auto simp: grid_tasks_def)
      then have "?m = row_tasks_only M"
        using m(3) bounds(2) by (intro task_search.equality) (simp_all add: row_tasks_only_def word_unat_eq_iff)
      then show ?thesis using safe 2(1) floor by (simp add: s' words)
    qed
  qed
  moreover have "unat (ptp_actual_threads ?q) = unat (ptp_actual_threads ?p)"
    unfolding f(5) f'(5) e(5) e'(5) \<open>s' = s\<close> ..
  ultimately have "?q = ?p"
    using e e' by (intro CpuParallelTaskPlanV1.equality) (simp_all add: word_unat_eq_iff)
  then show ?thesis by (simp add: t_def)
qed

text \<open>C40: Planning again for exactly the threads a plan uses gives the same plan, as the workers of a
  parallel execution rely on when they check the plan they work by.\<close>

theorem task_plan_stable:
  "plan_cpu_parallel_tasks_v1 problem (ptp_actual_threads (plan_cpu_parallel_tasks_v1 problem threads)) =
   plan_cpu_parallel_tasks_v1 problem threads"
  by (rule plan_stable)

end
