(* ===== verification/Platform.thy ===== *)
theory Platform
  imports DiagnosticWriter
begin

text \<open>
  The platform record of \<^verbatim>\<open>platform/platform.h\<close> and \<^verbatim>\<open>platform.cpp\<close>: what the compiler believes about
  its host and target, the record validator, the compile-time discovery and the two pipeline
  queries. The preprocessor symbols that discovery tests are the fields of \<open>build_symbols\<close>.
\<close>

datatype PlatformKindV1 = plat_unknown | plat_linux | plat_windows | plat_other u8
datatype ArchitectureKindV1 = archk_unknown | archk_x86_64 | archk_aarch64 | archk_other u8
datatype CompilerFrontendV1 = front_unknown | front_clang_gnu | front_clang_cl | front_gcc | front_msvc | front_other u8
datatype ObjectFormatV1 = obj_unknown | obj_elf | obj_coff | obj_other u8
datatype ExecutableFormatV1 = exe_unknown | exe_elf | exe_portable_executable | exe_other u8
datatype RuntimeLibraryModelV1 = rtl_unknown | rtl_elf_shared_object | rtl_windows_dll_import_library | rtl_other u8
datatype ProcessLaunchBackendV1 = launch_unavailable | launch_posix_fork_exec | launch_windows_create_process | launch_other u8
datatype DynamicLibraryModelV1 = dynl_unavailable | dynl_posix_dlopen | dynl_windows_load_library | dynl_other u8
datatype CapabilitySupportV1 = sup_unavailable | sup_modeled | sup_implemented | sup_other u8
datatype RuntimeValidationV1 = rtv_not_applicable | rtv_not_validated | rtv_runtime_validated | rtv_other u8

record CapabilityStatusV1 =
  cs_support :: CapabilitySupportV1
  cs_discovery_complete :: bool
  cs_runtime_validation :: RuntimeValidationV1

record PlatformRecordV1 =
  pr_version :: u32
  pr_platform :: PlatformKindV1
  pr_architecture :: ArchitectureKindV1
  pr_compiler_frontend :: CompilerFrontendV1
  pr_object_format :: ObjectFormatV1
  pr_executable_format :: ExecutableFormatV1
  pr_runtime_library_model :: RuntimeLibraryModelV1
  pr_process_launch_backend :: ProcessLaunchBackendV1
  pr_dynamic_library_model :: DynamicLibraryModelV1
  pr_discovery_complete :: bool
  pr_toolchain :: CapabilityStatusV1
  pr_artifact_model :: CapabilityStatusV1
  pr_runtime_library :: CapabilityStatusV1
  pr_process_launch :: CapabilityStatusV1
  pr_dynamic_library :: CapabilityStatusV1

text \<open>A validation result: \<open>None\<close> is \<^verbatim>\<open>{true, {}}\<close>, \<open>Some reason\<close> is \<^verbatim>\<open>{false, reason}\<close>.\<close>

type_synonym validation = "reason option"

definition default_status :: CapabilityStatusV1 where
  "default_status = \<lparr>cs_support = sup_unavailable, cs_discovery_complete = False,
     cs_runtime_validation = rtv_not_applicable\<rparr>"

definition default_platform_record :: PlatformRecordV1 where
  "default_platform_record =
     \<lparr>pr_version = 1, pr_platform = plat_unknown, pr_architecture = archk_unknown,
      pr_compiler_frontend = front_unknown, pr_object_format = obj_unknown,
      pr_executable_format = exe_unknown, pr_runtime_library_model = rtl_unknown,
      pr_process_launch_backend = launch_unavailable,
      pr_dynamic_library_model = dynl_unavailable, pr_discovery_complete = False,
      pr_toolchain = default_status, pr_artifact_model = default_status,
      pr_runtime_library = default_status, pr_process_launch = default_status,
      pr_dynamic_library = default_status\<rparr>"

section \<open>known(...)\<close>

fun known_plat :: "PlatformKindV1 \<Rightarrow> bool" where
  "known_plat (plat_other _) = False"
| "known_plat _ = True"

fun known_archk :: "ArchitectureKindV1 \<Rightarrow> bool" where
  "known_archk (archk_other _) = False"
| "known_archk _ = True"

fun known_front :: "CompilerFrontendV1 \<Rightarrow> bool" where
  "known_front (front_other _) = False"
| "known_front _ = True"

fun known_obj :: "ObjectFormatV1 \<Rightarrow> bool" where
  "known_obj (obj_other _) = False"
| "known_obj _ = True"

fun known_exe :: "ExecutableFormatV1 \<Rightarrow> bool" where
  "known_exe (exe_other _) = False"
| "known_exe _ = True"

fun known_rtl :: "RuntimeLibraryModelV1 \<Rightarrow> bool" where
  "known_rtl (rtl_other _) = False"
| "known_rtl _ = True"

fun known_launch :: "ProcessLaunchBackendV1 \<Rightarrow> bool" where
  "known_launch (launch_other _) = False"
| "known_launch _ = True"

fun known_dynl :: "DynamicLibraryModelV1 \<Rightarrow> bool" where
  "known_dynl (dynl_other _) = False"
| "known_dynl _ = True"

fun known_sup :: "CapabilitySupportV1 \<Rightarrow> bool" where
  "known_sup (sup_other _) = False"
| "known_sup _ = True"

fun known_rtv :: "RuntimeValidationV1 \<Rightarrow> bool" where
  "known_rtv (rtv_other _) = False"
| "known_rtv _ = True"

section \<open>to_string(...)\<close>

fun to_string_plat :: "PlatformKindV1 \<Rightarrow> string" where
  "to_string_plat plat_unknown = ''unknown''"
| "to_string_plat plat_linux = ''linux''"
| "to_string_plat plat_windows = ''windows''"
| "to_string_plat (plat_other _) = ''invalid''"

fun to_string_archk :: "ArchitectureKindV1 \<Rightarrow> string" where
  "to_string_archk archk_unknown = ''unknown''"
| "to_string_archk archk_x86_64 = ''x86_64''"
| "to_string_archk archk_aarch64 = ''aarch64''"
| "to_string_archk (archk_other _) = ''invalid''"

fun to_string_front :: "CompilerFrontendV1 \<Rightarrow> string" where
  "to_string_front front_unknown = ''unknown''"
| "to_string_front front_clang_gnu = ''clang-gnu''"
| "to_string_front front_clang_cl = ''clang-cl''"
| "to_string_front front_gcc = ''gcc''"
| "to_string_front front_msvc = ''msvc''"
| "to_string_front (front_other _) = ''invalid''"

fun to_string_obj :: "ObjectFormatV1 \<Rightarrow> string" where
  "to_string_obj obj_unknown = ''unknown''"
| "to_string_obj obj_elf = ''elf''"
| "to_string_obj obj_coff = ''coff''"
| "to_string_obj (obj_other _) = ''invalid''"

fun to_string_exe :: "ExecutableFormatV1 \<Rightarrow> string" where
  "to_string_exe exe_unknown = ''unknown''"
| "to_string_exe exe_elf = ''elf''"
| "to_string_exe exe_portable_executable = ''pe''"
| "to_string_exe (exe_other _) = ''invalid''"

fun to_string_rtl :: "RuntimeLibraryModelV1 \<Rightarrow> string" where
  "to_string_rtl rtl_unknown = ''unknown''"
| "to_string_rtl rtl_elf_shared_object = ''elf-shared-object''"
| "to_string_rtl rtl_windows_dll_import_library = ''windows-dll-import-library''"
| "to_string_rtl (rtl_other _) = ''invalid''"

fun to_string_launch :: "ProcessLaunchBackendV1 \<Rightarrow> string" where
  "to_string_launch launch_unavailable = ''unavailable''"
| "to_string_launch launch_posix_fork_exec = ''posix-fork-exec''"
| "to_string_launch launch_windows_create_process = ''windows-create-process''"
| "to_string_launch (launch_other _) = ''invalid''"

fun to_string_dynl :: "DynamicLibraryModelV1 \<Rightarrow> string" where
  "to_string_dynl dynl_unavailable = ''unavailable''"
| "to_string_dynl dynl_posix_dlopen = ''posix-dlopen''"
| "to_string_dynl dynl_windows_load_library = ''windows-load-library''"
| "to_string_dynl (dynl_other _) = ''invalid''"

fun to_string_sup :: "CapabilitySupportV1 \<Rightarrow> string" where
  "to_string_sup sup_unavailable = ''unavailable''"
| "to_string_sup sup_modeled = ''modeled''"
| "to_string_sup sup_implemented = ''implemented''"
| "to_string_sup (sup_other _) = ''invalid''"

fun to_string_rtv :: "RuntimeValidationV1 \<Rightarrow> string" where
  "to_string_rtv rtv_not_applicable = ''not-applicable''"
| "to_string_rtv rtv_not_validated = ''not-validated''"
| "to_string_rtv rtv_runtime_validated = ''runtime-validated''"
| "to_string_rtv (rtv_other _) = ''invalid''"

section \<open>Validation\<close>

definition validate_capability_status_v1 :: "CapabilityStatusV1 \<Rightarrow> validation" where
  "validate_capability_status_v1 status =
    (if \<not> known_sup (cs_support status) \<or> \<not> known_rtv (cs_runtime_validation status)
     then Some ''capability status contains an unknown enum value''
     else if cs_support status = sup_unavailable
     then if cs_runtime_validation status \<noteq> rtv_not_applicable
          then Some ''unavailable capability must use not-applicable validation''
          else None
     else if cs_runtime_validation status = rtv_not_applicable
     then Some ''modeled or implemented capability requires a validation state''
     else if cs_runtime_validation status = rtv_runtime_validated \<and>
             (cs_support status \<noteq> sup_implemented \<or> \<not> cs_discovery_complete status)
     then Some ''runtime validation requires implemented, complete capability''
     else None)"

fun first_failure :: "validation list \<Rightarrow> validation" where
  "first_failure [] = None"
| "first_failure (Some why # rest) = Some why"
| "first_failure (None # rest) = first_failure rest"

text \<open>The branch on the platform (object and executable format, library, process and loader
  model).\<close>

definition platform_model_failure :: "PlatformRecordV1 \<Rightarrow> validation" where
  "platform_model_failure record =
    (case pr_platform record of
       plat_unknown \<Rightarrow>
         (if pr_object_format record \<noteq> obj_unknown \<or> pr_executable_format record \<noteq> exe_unknown \<or>
             pr_runtime_library_model record \<noteq> rtl_unknown \<or>
             pr_process_launch_backend record \<noteq> launch_unavailable \<or>
             pr_dynamic_library_model record \<noteq> dynl_unavailable
          then Some ''unknown platform cannot claim a concrete platform model'' else None)
     | plat_linux \<Rightarrow>
         (if pr_object_format record \<noteq> obj_elf \<or> pr_executable_format record \<noteq> exe_elf \<or>
             pr_runtime_library_model record \<noteq> rtl_elf_shared_object \<or>
             pr_process_launch_backend record \<noteq> launch_posix_fork_exec \<or>
             pr_dynamic_library_model record \<noteq> dynl_posix_dlopen
          then Some ''Linux record requires the ELF and POSIX platform model'' else None)
     | plat_windows \<Rightarrow>
         (if pr_object_format record \<noteq> obj_coff \<or>
             pr_executable_format record \<noteq> exe_portable_executable \<or>
             pr_runtime_library_model record \<noteq> rtl_windows_dll_import_library \<or>
             pr_process_launch_backend record \<noteq> launch_windows_create_process \<or>
             pr_dynamic_library_model record \<noteq> dynl_windows_load_library
          then Some ''Windows record requires the COFF and PE platform model'' else None)
     | plat_other _ \<Rightarrow> None)"

text \<open>The conjunction both the validator and discovery test.\<close>

definition every_platform_field :: "PlatformRecordV1 \<Rightarrow> bool" where
  "every_platform_field record \<longleftrightarrow>
     pr_platform record \<noteq> plat_unknown \<and> pr_architecture record \<noteq> archk_unknown \<and>
     pr_compiler_frontend record \<noteq> front_unknown \<and> pr_object_format record \<noteq> obj_unknown \<and>
     pr_executable_format record \<noteq> exe_unknown \<and>
     pr_runtime_library_model record \<noteq> rtl_unknown \<and>
     pr_process_launch_backend record \<noteq> launch_unavailable \<and>
     pr_dynamic_library_model record \<noteq> dynl_unavailable"

definition validate_platform_record_v1 :: "PlatformRecordV1 \<Rightarrow> validation" where
  "validate_platform_record_v1 record =
    (if pr_version record \<noteq> 1 then Some ''platform record version is unsupported''
     else if \<not> known_plat (pr_platform record) \<or> \<not> known_archk (pr_architecture record) \<or>
             \<not> known_front (pr_compiler_frontend record) \<or> \<not> known_obj (pr_object_format record) \<or>
             \<not> known_exe (pr_executable_format record) \<or>
             \<not> known_rtl (pr_runtime_library_model record) \<or>
             \<not> known_launch (pr_process_launch_backend record) \<or>
             \<not> known_dynl (pr_dynamic_library_model record)
     then Some ''platform record contains an unknown enum value''
     else first_failure
       [first_failure (map validate_capability_status_v1
          [pr_toolchain record, pr_artifact_model record, pr_runtime_library record,
           pr_process_launch record, pr_dynamic_library record]),
        (if pr_discovery_complete record \<and> \<not> every_platform_field record
         then Some ''complete discovery requires every modeled platform field'' else None),
        platform_model_failure record,
        (if (pr_compiler_frontend record = front_clang_cl \<or>
             pr_compiler_frontend record = front_msvc) \<and> pr_platform record \<noteq> plat_windows
         then Some ''MSVC-style compiler frontend requires Windows'' else None),
        (if pr_compiler_frontend record = front_gcc \<and> pr_platform record = plat_windows
         then Some ''GCC frontend is outside the Windows MSVC ABI model'' else None),
        (if cs_support (pr_toolchain record) = sup_implemented \<and>
            pr_compiler_frontend record = front_unknown
         then Some ''implemented toolchain requires a known compiler frontend'' else None),
        (if cs_support (pr_artifact_model record) = sup_implemented \<and>
            (pr_object_format record = obj_unknown \<or> pr_executable_format record = exe_unknown)
         then Some ''implemented artifact model requires known formats'' else None),
        (if cs_support (pr_runtime_library record) = sup_implemented \<and>
            pr_runtime_library_model record = rtl_unknown
         then Some ''implemented runtime library requires a known model'' else None),
        (if cs_support (pr_process_launch record) = sup_implemented \<and>
            pr_process_launch_backend record = launch_unavailable
         then Some ''implemented process launch requires a backend'' else None),
        (if cs_support (pr_dynamic_library record) = sup_implemented \<and>
            pr_dynamic_library_model record = dynl_unavailable
         then Some ''implemented dynamic loading requires a model'' else None)])"

section \<open>Queries and discovery\<close>

definition compiler_pipeline_supported_v1 :: "PlatformRecordV1 \<Rightarrow> bool" where
  "compiler_pipeline_supported_v1 record \<longleftrightarrow>
     validate_platform_record_v1 record = None \<and>
     cs_support (pr_toolchain record) = sup_implemented \<and>
     cs_support (pr_artifact_model record) = sup_implemented \<and>
     cs_support (pr_runtime_library record) = sup_implemented \<and>
     cs_support (pr_process_launch record) = sup_implemented"

definition compiler_pipeline_runtime_validated_v1 :: "PlatformRecordV1 \<Rightarrow> bool" where
  "compiler_pipeline_runtime_validated_v1 record \<longleftrightarrow>
     compiler_pipeline_supported_v1 record \<and>
     cs_runtime_validation (pr_toolchain record) = rtv_runtime_validated \<and>
     cs_runtime_validation (pr_artifact_model record) = rtv_runtime_validated \<and>
     cs_runtime_validation (pr_runtime_library record) = rtv_runtime_validated \<and>
     cs_runtime_validation (pr_process_launch record) = rtv_runtime_validated"

record build_symbols =
  def_WIN32 :: bool
  def_linux :: bool
  def_x86_64 :: bool
  def_aarch64 :: bool
  def_clang :: bool
  def_MSC_VER :: bool
  def_GNUC :: bool

definition compile_frontend :: "build_symbols \<Rightarrow> CompilerFrontendV1" where
  "compile_frontend b =
    (if def_clang b \<and> def_MSC_VER b then front_clang_cl
     else if def_clang b then front_clang_gnu
     else if def_MSC_VER b then front_msvc
     else if def_GNUC b then front_gcc else front_unknown)"

definition compile_architecture :: "build_symbols \<Rightarrow> ArchitectureKindV1" where
  "compile_architecture b =
    (if def_x86_64 b then archk_x86_64 else if def_aarch64 b then archk_aarch64 else archk_unknown)"

definition discover_compile_platform_v1 :: "build_symbols \<Rightarrow> PlatformRecordV1" where
  "discover_compile_platform_v1 b =
    (let record = default_platform_record;
         record = (if def_WIN32 b
           then record\<lparr>pr_platform := plat_windows, pr_object_format := obj_coff,
                  pr_executable_format := exe_portable_executable,
                  pr_runtime_library_model := rtl_windows_dll_import_library,
                  pr_process_launch_backend := launch_windows_create_process,
                  pr_dynamic_library_model := dynl_windows_load_library\<rparr>
           else if def_linux b
           then record\<lparr>pr_platform := plat_linux, pr_object_format := obj_elf,
                  pr_executable_format := exe_elf,
                  pr_runtime_library_model := rtl_elf_shared_object,
                  pr_process_launch_backend := launch_posix_fork_exec,
                  pr_dynamic_library_model := dynl_posix_dlopen\<rparr>
           else record);
         record = record\<lparr>pr_architecture := compile_architecture b,
                         pr_compiler_frontend := compile_frontend b\<rparr>;
         record = record\<lparr>pr_discovery_complete := every_platform_field record\<rparr>;
         complete = pr_discovery_complete record;
         implemented = \<lparr>cs_support = sup_implemented, cs_discovery_complete = complete,
                        cs_runtime_validation = rtv_not_validated\<rparr>;
         modeled = \<lparr>cs_support = sup_modeled, cs_discovery_complete = complete,
                    cs_runtime_validation = rtv_not_validated\<rparr>
     in if pr_platform record = plat_linux
        then record\<lparr>pr_toolchain := implemented, pr_artifact_model := implemented,
               pr_runtime_library := implemented, pr_process_launch := implemented,
               pr_dynamic_library := modeled\<rparr>
        else if pr_platform record = plat_windows
        then record\<lparr>pr_toolchain := modeled, pr_artifact_model := modeled,
               pr_runtime_library := modeled, pr_process_launch := modeled,
               pr_dynamic_library := modeled\<rparr>
        else record)"

section \<open>Formatting\<close>

definition append_capability :: "string \<Rightarrow> CapabilityStatusV1 \<Rightarrow> string" where
  "append_capability name status =
     name @ '':'' @ to_string_sup (cs_support status) @ ''/'' @
     (if cs_discovery_complete status then ''complete'' else ''incomplete'') @ ''/'' @
     to_string_rtv (cs_runtime_validation status)"

definition format_platform_record_v1 :: "PlatformRecordV1 \<Rightarrow> string" where
  "format_platform_record_v1 record =
     ''platform-record-v1{version='' @ decimal (unat (pr_version record)) @
     '',platform='' @ to_string_plat (pr_platform record) @
     '',architecture='' @ to_string_archk (pr_architecture record) @
     '',compiler='' @ to_string_front (pr_compiler_frontend record) @
     '',object='' @ to_string_obj (pr_object_format record) @
     '',executable='' @ to_string_exe (pr_executable_format record) @
     '',runtime='' @ to_string_rtl (pr_runtime_library_model record) @
     '',process='' @ to_string_launch (pr_process_launch_backend record) @
     '',dynamic-library='' @ to_string_dynl (pr_dynamic_library_model record) @
     '',discovery='' @ (if pr_discovery_complete record then ''complete'' else ''incomplete'') @
     '',capabilities=['' @ append_capability ''toolchain'' (pr_toolchain record) @ '','' @
     append_capability ''artifact'' (pr_artifact_model record) @ '','' @
     append_capability ''runtime'' (pr_runtime_library record) @ '','' @
     append_capability ''process'' (pr_process_launch record) @ '','' @
     append_capability ''dynamic-library'' (pr_dynamic_library record) @ '']}''"

section \<open>Properties\<close>

lemma first_failure_None: "first_failure vs = None \<longleftrightarrow> (\<forall>v \<in> set vs. v = None)"
  by (induction vs rule: first_failure.induct) auto

text \<open>The record that compile-time discovery builds passes the validator exactly on the
  toolchains the project models: a known non-MSVC compiler on Linux, anything but GCC on Windows,
  and no MSVC-style front end elsewhere. The compiler pipeline is supported exactly on the valid
  Linux builds, and no build claims runtime validation for itself.\<close>

theorem discover_platform_validity:
  "(validate_platform_record_v1 (discover_compile_platform_v1 b) = None \<longleftrightarrow>
     (if def_WIN32 b then compile_frontend b \<noteq> front_gcc
      else if def_linux b then compile_frontend b \<in> {front_clang_gnu, front_gcc}
      else compile_frontend b \<notin> {front_clang_cl, front_msvc}))
   \<and> (compiler_pipeline_supported_v1 (discover_compile_platform_v1 b) \<longleftrightarrow>
        \<not> def_WIN32 b \<and> def_linux b \<and> compile_frontend b \<in> {front_clang_gnu, front_gcc})
   \<and> \<not> compiler_pipeline_runtime_validated_v1 (discover_compile_platform_v1 b)"
proof -
  have arch: "known_archk (compile_architecture b)"
    by (simp add: compile_architecture_def)
  have front: "compile_frontend b \<in> {front_unknown, front_clang_gnu, front_clang_cl, front_gcc,
      front_msvc}"
    by (simp add: compile_frontend_def)
  let ?r = "discover_compile_platform_v1 b"
  note fields = discover_compile_platform_v1_def default_platform_record_def default_status_def
    Let_def every_platform_field_def
  have stages: "cs_support (pr_toolchain ?r) = sup_implemented \<and>
      cs_support (pr_artifact_model ?r) = sup_implemented \<and>
      cs_support (pr_runtime_library ?r) = sup_implemented \<and>
      cs_support (pr_process_launch ?r) = sup_implemented \<longleftrightarrow> \<not> def_WIN32 b \<and> def_linux b"
    and unvalidated: "cs_runtime_validation (pr_toolchain ?r) \<noteq> rtv_runtime_validated"
    by (simp_all add: fields)
  consider "def_WIN32 b" | "\<not> def_WIN32 b" "def_linux b" | "\<not> def_WIN32 b" "\<not> def_linux b"
    by blast
  then have valid: "validate_platform_record_v1 ?r = None \<longleftrightarrow>
     (if def_WIN32 b then compile_frontend b \<noteq> front_gcc
      else if def_linux b then compile_frontend b \<in> {front_clang_gnu, front_gcc}
      else compile_frontend b \<notin> {front_clang_cl, front_msvc})"
    using arch front
    by cases (elim insertE emptyE; simp add: fields validate_platform_record_v1_def
        first_failure_None validate_capability_status_v1_def platform_model_failure_def)+
  show ?thesis
    using stages unvalidated valid
    by (auto simp: compiler_pipeline_supported_v1_def compiler_pipeline_runtime_validated_v1_def)
qed

end
