(* ===== verification/TopologyText.thy ===== *)
theory TopologyText
  imports DiagnosticWriter
begin

text \<open>
  The text readers of \<^verbatim>\<open>platform/cpu_topology_v1.cpp\<close>, which turn the files of
  \<^verbatim>\<open>/sys/devices/system\<close> into numbers and CPU lists: \<^verbatim>\<open>trim\<close>, \<^verbatim>\<open>parse_u32\<close>, \<^verbatim>\<open>parse_cpu_list\<close>,
  \<^verbatim>\<open>parse_cache_size\<close>, \<^verbatim>\<open>id_from_name\<close>. \<^verbatim>\<open>std::nullopt\<close> is \<open>None\<close>. The lemmas say which lists the
  parser can return and that it reads back every list of ranges as it is printed.
\<close>

section \<open>Characters and numbers\<close>

definition is_space :: "char \<Rightarrow> bool" where
  "is_space c \<longleftrightarrow> (of_char c :: nat) = 32 \<or> 9 \<le> (of_char c :: nat) \<and> (of_char c :: nat) \<le> 13"

definition trim :: "string \<Rightarrow> string" where
  "trim s = rev (dropWhile is_space (rev (dropWhile is_space s)))"

text \<open>\<^verbatim>\<open>std::from_chars\<close> on an unsigned type with the given number of bits: the digits at the front,
  the value if it fits, and the text that is left.\<close>

definition from_chars :: "nat \<Rightarrow> string \<Rightarrow> (nat \<times> string) option" where
  "from_chars bits s =
     (let digits = takeWhile is_digit s in
      if digits = [] then None
      else if decimal_value digits < 2 ^ bits then Some (decimal_value digits, dropWhile is_digit s)
      else None)"

definition parse_u32 :: "string \<Rightarrow> u32 option" where
  "parse_u32 text =
     (if text = [] then None
      else case from_chars 32 text of
             None \<Rightarrow> None
           | Some (v, rest) \<Rightarrow> if rest \<noteq> [] then None else Some (of_nat v))"

section \<open>CPU lists\<close>

lemma unat_succ32:
  assumes "cpu \<noteq> u32_max"
  shows "unat cpu < 4294967295" "unat (cpu + 1) = Suc (unat cpu)"
proof -
  have "unat cpu \<noteq> unat u32_max" using assms by (simp add: word_unat_eq_iff)
  then show less: "unat cpu < 4294967295" using unat_lt32 [of cpu] by (simp del: unat_lt32)
  then show "unat (cpu + 1) = Suc (unat cpu)" by (simp add: unat_word_ariths)
qed

lemma dropWhile_Cons_shorter: "c # after = dropWhile P xs \<Longrightarrow> length after < length xs"
  using length_dropWhile_le [of P xs] by (metis Suc_le_lessD length_Cons)

text \<open>The loop \<^verbatim>\<open>for (cpu = *first;; ++cpu)\<close>; \<open>None\<close> is the return from inside it.\<close>

function push_range :: "u32 \<Rightarrow> u32 \<Rightarrow> u32 list \<Rightarrow> u32 list option" where
  "push_range cpu final cpus =
     (let cpus = cpus @ [cpu] in
      if cpu = final then Some cpus
      else if cpu = u32_max then None
      else push_range (cpu + 1) final cpus)"
  by pat_completeness auto

termination
proof (relation "measure (\<lambda>(cpu, final, cpus). 2 ^ 32 - unat cpu)")
  show "cpu \<noteq> u32_max \<Longrightarrow> ((cpu + 1, final, new), cpu, final, cpus)
      \<in> measure (\<lambda>(cpu, final, cpus). 2 ^ 32 - unat cpu)" for cpu final :: u32 and new cpus :: "u32 list"
    using unat_succ32 [of cpu] by simp
qed simp

declare push_range.simps [simp del]

definition parse_range :: "string \<Rightarrow> (u32 \<times> u32) option" where
  "parse_range token =
     (if token = [] then None
      else let head = takeWhile (\<lambda>c. c \<noteq> CHR ''-'') token;
               tail = dropWhile (\<lambda>c. c \<noteq> CHR ''-'') token
        in case parse_u32 head of
             None \<Rightarrow> None
           | Some first \<Rightarrow>
               (case tail of
                  [] \<Rightarrow> Some (first, first)
                | _ # after \<Rightarrow>
                    if CHR ''-'' \<in> set after then None
                    else case parse_u32 after of
                           None \<Rightarrow> None
                         | Some final \<Rightarrow> if final < first then None else Some (first, final)))"

definition range_too_long :: "u32 \<Rightarrow> u32 \<Rightarrow> bool" where
  "range_too_long first final \<longleftrightarrow> u32_to_u64 final - u32_to_u64 first > 1048576"

function parse_cpu_tokens :: "string \<Rightarrow> u32 list \<Rightarrow> u32 list option" where
  "parse_cpu_tokens text cpus =
     (if text = [] then Some cpus
      else let token = takeWhile (\<lambda>c. c \<noteq> CHR '','') text;
               rest = dropWhile (\<lambda>c. c \<noteq> CHR '','') text
        in case parse_range token of
             None \<Rightarrow> None
           | Some (first, final) \<Rightarrow>
               if range_too_long first final then None
               else case push_range first final cpus of
                      None \<Rightarrow> None
                    | Some cpus \<Rightarrow>
                        (case rest of
                           [] \<Rightarrow> Some cpus
                         | _ # after \<Rightarrow> if after = [] then None else parse_cpu_tokens after cpus))"
  by pat_completeness auto
termination
  by (relation "measure (\<lambda>(s, cpus). length s)") (simp_all add: dropWhile_Cons_shorter)

declare parse_cpu_tokens.simps [simp del]

definition parse_cpu_list :: "string \<Rightarrow> u32 list option" where
  "parse_cpu_list text =
     (case parse_cpu_tokens text [] of
        None \<Rightarrow> None
      | Some cpus \<Rightarrow> (let cpus = sort cpus in if adjacent_equal cpus then None else Some cpus))"

section \<open>Cache sizes and names\<close>

definition parse_cache_size :: "string \<Rightarrow> u64 option" where
  "parse_cache_size text =
     (if text = [] then None
      else let suffix = last text;
               (multiplier, text) =
                 (if suffix = CHR ''K'' \<or> suffix = CHR ''k'' then (1024, butlast text)
                  else if suffix = CHR ''M'' \<or> suffix = CHR ''m'' then (1024 * 1024, butlast text)
                  else if suffix = CHR ''G'' \<or> suffix = CHR ''g''
                  then (1024 * 1024 * 1024, butlast text)
                  else (1, text))
        in if text = [] then None
           else case from_chars 64 text of
                  None \<Rightarrow> None
                | Some (v, rest) \<Rightarrow>
                    if rest \<noteq> [] \<or> of_nat v > u64_max div multiplier then None
                    else Some (of_nat v * multiplier))"

definition starts_with :: "string \<Rightarrow> string \<Rightarrow> bool" where
  "starts_with name prefix \<longleftrightarrow> take (length prefix) name = prefix"

definition id_from_name :: "string \<Rightarrow> string \<Rightarrow> u32 option" where
  "id_from_name name prefix =
     (if \<not> starts_with name prefix then None else parse_u32 (drop (length prefix) name))"

section \<open>Numbers\<close>

lemma unat_of_nat32: "n < 4294967296 \<Longrightarrow> unat (of_nat n :: u32) = n"
  by (simp add: unsigned_of_nat take_bit_nat_eq_self)

lemma takeWhile_digits [simp]: "(\<And>c. c \<in> set ds \<Longrightarrow> is_digit c) \<Longrightarrow>
    takeWhile is_digit (ds @ c # s) = ds @ takeWhile is_digit (c # s)"
  by (induction ds) auto

lemma from_chars_decimal:
  assumes "s = [] \<or> \<not> is_digit (hd s)"
  shows "from_chars bits (decimal n @ s) = (if n < 2 ^ bits then Some (n, s) else None)"
proof -
  have all: "\<forall>c \<in> set (decimal n). is_digit c" by (auto intro: decimal_digits)
  have "takeWhile is_digit (decimal n @ s) = decimal n @ takeWhile is_digit s"
    "dropWhile is_digit (decimal n @ s) = dropWhile is_digit s"
    using all by (simp_all add: takeWhile_append dropWhile_append)
  moreover have "takeWhile is_digit s = []" "dropWhile is_digit s = s"
    using assms by (cases s; simp)+
  ultimately show ?thesis by (simp add: from_chars_def Let_def)
qed

lemma parse_u32_decimal: "parse_u32 (decimal n) = (if n < 2 ^ 32 then Some (of_nat n) else None)"
  using from_chars_decimal [of "[]" 32 n] by (simp add: parse_u32_def)

lemma parse_u32_unat [simp]: "parse_u32 (decimal (unat (v::u32))) = Some v"
  by (simp add: parse_u32_decimal)

lemma parse_u32_Some:
  assumes "parse_u32 s = Some v"
  shows "s \<noteq> []" "list_all is_digit s" "decimal_value s = unat v"
proof -
  obtain n rest where fc: "from_chars 32 s = Some (n, rest)" "rest = []" "v = of_nat n"
    using assms by (auto simp: parse_u32_def split: if_splits option.splits)
  then have drop: "dropWhile is_digit s = []" and n: "n = decimal_value (takeWhile is_digit s)"
    "n < 2 ^ 32"
    by (auto simp: from_chars_def Let_def split: if_splits)
  then show "s \<noteq> []" "list_all is_digit s" using assms
    by (auto simp: parse_u32_def list_all_iff dropWhile_eq_Nil_conv)
  have "takeWhile is_digit s = s"
    using drop by (metis append_Nil2 takeWhile_dropWhile_id)
  then show "decimal_value s = unat v"
    using n fc(3) unat_of_nat32 [of n] by (simp del: takeWhile_eq_all_conv)
qed

lemma decimal_value_bound:
  "list_all is_digit s \<Longrightarrow> decimal_value s < 10 ^ length s"
proof (induction s rule: rev_induct)
  case Nil
  show ?case by (simp add: decimal_value_def)
next
  case (snoc c s)
  then have "is_digit c" by simp
  then have "digit_value c < 10" unfolding is_digit_def digit_value_def by linarith
  with snoc show ?case by (simp add: decimal_value_snoc)
qed

lemma id_from_name_decimal:
  "id_from_name (prefix @ decimal (unat (v::u32))) prefix = Some v"
  by (simp add: id_from_name_def starts_with_def)

section \<open>Ranges\<close>

definition cpu_span :: "u32 \<Rightarrow> u32 \<Rightarrow> u32 list" where
  "cpu_span first final = map of_nat [unat first ..< Suc (unat final)]"

lemma push_range_spec:
  assumes "first \<le> final"
  shows "push_range first final cpus = Some (cpus @ cpu_span first final)"
  using assms
proof (induction first final cpus rule: push_range.induct)
  case (1 cpu final cpus)
  show ?case
  proof (cases "cpu = final")
    case True
    then show ?thesis by (subst push_range.simps) (simp add: cpu_span_def)
  next
    case False
    then have less: "cpu < final" using 1 by simp
    then have nm: "cpu \<noteq> u32_max" using u32_le_max [of final] by (metis leD)
    have le: "cpu + 1 \<le> final"
      using less unat_succ32 [OF nm] by (simp add: word_less_nat_alt word_le_nat_alt)
    have "unat cpu < unat final" using less by (simp add: word_less_nat_alt)
    then have "cpu_span cpu final = cpu # cpu_span (cpu + 1) final"
      unfolding cpu_span_def unat_succ32(2) [OF nm]
      by (simp add: upt_conv_Cons del: upt_Suc)
    then show ?thesis
      using 1(1) [OF refl False nm le] False nm by (subst push_range.simps) simp
  qed
qed

lemma set_cpu_span: "set (cpu_span first final) = {cpu. first \<le> cpu \<and> cpu \<le> final}"
proof -
  have "unat ` {cpu. first \<le> cpu \<and> cpu \<le> final} = {unat first ..< Suc (unat final)}"
  proof
    show "{unat first ..< Suc (unat final)} \<subseteq> unat ` {cpu. first \<le> cpu \<and> cpu \<le> final}"
    proof
      fix n assume n: "n \<in> {unat first ..< Suc (unat final)}"
      then have "n < 4294967296" using unat_lt32 [of final] by (simp del: unat_lt32)
      then have "unat (of_nat n :: u32) = n" by (simp add: unat_of_nat32)
      with n show "n \<in> unat ` {cpu. first \<le> cpu \<and> cpu \<le> final}"
        by (intro image_eqI [of _ _ "of_nat n"]) (auto simp: word_le_nat_alt)
    qed
  qed (auto simp: word_le_nat_alt)
  then have "set (cpu_span first final) = of_nat ` unat ` {cpu. first \<le> cpu \<and> cpu \<le> final}"
    by (simp only: cpu_span_def set_map set_upt)
  then show ?thesis by (simp add: image_image)
qed

lemma sorted_cpu_span: "sorted_wrt (<) (cpu_span first final)"
proof -
  have "sorted_wrt (<) (map (of_nat :: nat \<Rightarrow> u32) [a ..< Suc b])" if "b < 2 ^ 32" for a b
    unfolding sorted_wrt_map
    by (rule sorted_wrt_mono_rel [of _ "(<)"])
      (use that in \<open>auto simp: word_less_nat_alt unat_of_nat32 simp del: upt_Suc\<close>)
  then show ?thesis by (simp add: cpu_span_def)
qed

section \<open>Printed lists\<close>

text \<open>The kernel's format: single CPUs and ranges, separated by commas.\<close>

fun print_range :: "u32 \<times> u32 \<Rightarrow> string" where
  "print_range (first, final) =
     (if first = final then decimal (unat first)
      else decimal (unat first) @ ''-'' @ decimal (unat final))"

fun print_cpu_list :: "(u32 \<times> u32) list \<Rightarrow> string" where
  "print_cpu_list [] = []"
| "print_cpu_list [r] = print_range r"
| "print_cpu_list (r # r' # rs) = print_range r @ '','' @ print_cpu_list (r' # rs)"

definition readable_range :: "u32 \<times> u32 \<Rightarrow> bool" where
  "readable_range r \<longleftrightarrow> fst r \<le> snd r \<and> unat (snd r) - unat (fst r) \<le> 1048576"

lemma digit_chars: "\<not> is_digit (CHR ''-'')" "\<not> is_digit (CHR '','')"
  by (simp_all add: is_digit_def of_char_def)

lemma decimal_no_sep: "CHR ''-'' \<notin> set (decimal n)" "CHR '','' \<notin> set (decimal n)"
  using decimal_digits digit_chars by metis+

lemma parse_print_range:
  assumes "fst r \<le> snd r"
  shows "parse_range (print_range r) = Some r"
proof -
  obtain first final where r: "r = (first, final)" by fastforce
  have tw: "takeWhile (\<lambda>c. c \<noteq> CHR ''-'') (decimal n @ CHR ''-'' # s) = decimal n"
    "dropWhile (\<lambda>c. c \<noteq> CHR ''-'') (decimal n @ CHR ''-'' # s) = CHR ''-'' # s"
    "takeWhile (\<lambda>c. c \<noteq> CHR ''-'') (decimal n) = decimal n"
    "dropWhile (\<lambda>c. c \<noteq> CHR ''-'') (decimal n) = []" for n s
    using decimal_no_sep(1) [of n]
    by (auto simp: takeWhile_append dropWhile_append takeWhile_eq_all_conv dropWhile_eq_Nil_conv)
  have "\<not> final < first" using assms r by simp
  then show ?thesis
    by (simp add: r parse_range_def Let_def tw decimal_no_sep(1))
qed

lemma print_range_no_comma: "CHR '','' \<notin> set (print_range r)" and print_range_not_Nil: "print_range r \<noteq> []"
  by (cases r; simp add: decimal_no_sep)+

lemma readable_not_long: "readable_range (first, final) \<Longrightarrow> \<not> range_too_long first final"
proof -
  assume r: "readable_range (first, final)"
  then have "u32_to_u64 first \<le> u32_to_u64 final"
    by (simp add: readable_range_def word_le_nat_alt)
  then show ?thesis
    using r by (simp add: range_too_long_def readable_range_def word_less_nat_alt unat_sub)
qed

lemma parse_print_tokens:
  "rs \<noteq> [] \<Longrightarrow> list_all readable_range rs \<Longrightarrow>
     parse_cpu_tokens (print_cpu_list rs) cpus =
       Some (cpus @ concat (map (\<lambda>(first, final). cpu_span first final) rs))"
proof (induction rs arbitrary: cpus rule: print_cpu_list.induct)
  case (2 r)
  obtain first final where r: "r = (first, final)" by fastforce
  have tw: "takeWhile (\<lambda>c. c \<noteq> CHR '','') (print_range (first, final)) = print_range (first, final)"
    "dropWhile (\<lambda>c. c \<noteq> CHR '','') (print_range (first, final)) = []"
    using print_range_no_comma [of "(first, final)"] by (auto simp: takeWhile_eq_all_conv dropWhile_eq_Nil_conv simp del: print_range.simps)
  have le: "first \<le> final" using 2 r by (simp add: readable_range_def)
  then show ?case
    using 2 r readable_not_long [of first final] parse_print_range [of r]
    by (subst parse_cpu_tokens.simps)
      (simp add: tw print_range_not_Nil push_range_spec Let_def del: print_range.simps)
next
  case (3 r r' rs)
  obtain first final where r: "r = (first, final)" by fastforce
  let ?rest = "print_cpu_list (r' # rs)"
  have tw: "takeWhile (\<lambda>c. c \<noteq> CHR '','') (print_range (first, final) @ CHR '','' # ?rest) =
      print_range (first, final)"
    "dropWhile (\<lambda>c. c \<noteq> CHR '','') (print_range (first, final) @ CHR '','' # ?rest) =
      CHR '','' # ?rest"
    using print_range_no_comma [of "(first, final)"] by (auto simp: takeWhile_append dropWhile_append simp del: print_range.simps)
  have le: "first \<le> final" using 3 r by (simp add: readable_range_def)
  have "?rest \<noteq> []" by (cases rs) (simp_all add: print_range_not_Nil)
  then show ?case
    using 3 r le readable_not_long [of first final] parse_print_range [of r]
    by (subst parse_cpu_tokens.simps)
      (simp add: tw print_range_not_Nil push_range_spec Let_def del: print_range.simps print_cpu_list.simps(2,3)
        add: print_cpu_list.simps(3))
qed simp

text \<open>Cache sizes.\<close>

fun suffix_factor :: "string \<Rightarrow> nat" where
  "suffix_factor s =
     (if s = ''K'' \<or> s = ''k'' then 1024
      else if s = ''M'' \<or> s = ''m'' then 1048576
      else if s = ''G'' \<or> s = ''g'' then 1073741824 else 1)"

lemma suffix_factor_bounds: "0 < suffix_factor s" "suffix_factor s < 18446744073709551616"
  by simp_all

lemma last_decimal: "last (decimal n) \<noteq> CHR ''K''" "last (decimal n) \<noteq> CHR ''k''"
  "last (decimal n) \<noteq> CHR ''M''" "last (decimal n) \<noteq> CHR ''m''"
  "last (decimal n) \<noteq> CHR ''G''" "last (decimal n) \<noteq> CHR ''g''"
proof -
  have "is_digit (last (decimal n))" by (rule decimal_digits [of _ n]) (simp add: last_in_set)
  then show "last (decimal n) \<noteq> CHR ''K''" "last (decimal n) \<noteq> CHR ''k''"
    "last (decimal n) \<noteq> CHR ''M''" "last (decimal n) \<noteq> CHR ''m''"
    "last (decimal n) \<noteq> CHR ''G''" "last (decimal n) \<noteq> CHR ''g''"
    by (auto simp: is_digit_def of_char_def)
qed

lemma parse_suffixed_size:
  assumes "suffix \<in> {[], ''K'', ''k'', ''M'', ''m'', ''G'', ''g''}"
  shows "parse_cache_size (decimal n @ suffix) =
      (if n < 2 ^ 64 \<and> \<not> of_nat n > u64_max div of_nat (suffix_factor suffix)
       then Some (of_nat n * of_nat (suffix_factor suffix)) else None)"
proof -
  have fc: "from_chars 64 (decimal n) = (if n < 2 ^ 64 then Some (n, []) else None)"
    using from_chars_decimal [of "[]" 64 n] by simp
  show ?thesis
    using assms last_decimal [of n]
    by (elim insertE emptyE; cases "n < 2 ^ 64"; simp add: parse_cache_size_def Let_def fc)
qed

lemma checked_product:
  fixes n m :: nat
  assumes "0 < m" "m < 18446744073709551616"
  shows "(if n < 2 ^ 64 \<and> \<not> (of_nat n :: u64) > u64_max div of_nat m
          then Some (of_nat n * of_nat m) else None) =
         (if n * m < 2 ^ 64 then Some (of_nat (n * m) :: u64) else None)"
proof -
  have "(of_nat n :: u64) > u64_max div of_nat m \<longleftrightarrow> \<not> n * m < 2 ^ 64" if n: "n < 2 ^ 64"
  proof -
    have "unat (of_nat n :: u64) = n" "unat (of_nat m :: u64) = m"
      using n assms(2) by (simp_all add: unat_of_nat64)
    then show ?thesis
      using nat_mult_gt_iff_div [OF assms(1), of "2 ^ 64 - 1" n]
      by (auto simp: word_less_nat_alt unat_div mult.commute)
  qed
  moreover have "n \<le> n * m" using assms(1) by simp
  then have "n * m < 2 ^ 64 \<Longrightarrow> n < 2 ^ 64" by (rule le_less_trans)
  ultimately show ?thesis by auto
qed

section \<open>Properties\<close>

lemma parse_cpu_list_sorted: "parse_cpu_list s = Some cpus \<Longrightarrow> sorted_wrt (<) cpus"
  using unique_sorted_iff [of "sort (the (parse_cpu_tokens s []))"]
  by (auto simp: parse_cpu_list_def Let_def split: option.splits if_splits)

text \<open>C34: The CPU list parser reads back what the kernel prints: for every non-empty list of ranges in
  any order, each no longer than the parser's limit, it returns the CPUs of the ranges in ascending
  order when no CPU occurs twice, and refuses the text otherwise.\<close>

theorem parse_cpu_list_roundtrip:
  assumes "rs \<noteq> []" "list_all readable_range rs"
  shows "parse_cpu_list (print_cpu_list rs) =
    (let cpus = concat (map (\<lambda>(first, final). cpu_span first final) rs)
     in if distinct cpus then Some (sort cpus) else None)"
  using parse_print_tokens [OF assms, of "[]"]
  by (simp add: parse_cpu_list_def Let_def adjacent_equal_sorted)

theorem parse_cpu_list_roundtrip_witness:
  "parse_cpu_list (print_cpu_list [(8, 8), (0, 3)]) = Some [0, 1, 2, 3, 8]"
proof -
  have "list_all readable_range [(8, 8), (0, 3)]" by (simp add: readable_range_def)
  moreover have "cpu_span 8 8 = [8]" "cpu_span 0 3 = [0, 1, 2, 3]"
    by (simp_all add: cpu_span_def upt_rec)
  moreover have "sort [8, 0, 1, 2, 3] = [0, 1, 2, 3, 8::u32]" by code_simp
  ultimately show ?thesis
    using parse_cpu_list_roundtrip [of "[(8, 8), (0, 3)]"]
    by (simp del: print_cpu_list.simps insort_key.simps)
qed

text \<open>A cache size is read exactly or refused: a decimal number with an optional binary suffix
  gives the number of bytes when it fits into 64 bits, and \<^verbatim>\<open>nullopt\<close> (never a wrapped product) when
  it does not.\<close>

theorem parse_cache_size_exact:
  assumes "suffix \<in> {[], ''K'', ''k'', ''M'', ''m'', ''G'', ''g''}"
  shows "parse_cache_size (decimal n @ suffix) =
    (if n * suffix_factor suffix < 2 ^ 64 then Some (of_nat (n * suffix_factor suffix)) else None)"
  unfolding parse_suffixed_size [OF assms] using suffix_factor_bounds
  by (rule checked_product)

theorem parse_cache_size_exact_witness: "parse_cache_size (decimal 32 @ ''K'') = Some 32768"
  using parse_cache_size_exact [of "''K''" 32] by simp

end
