(* ===== verification/Topology.thy ===== *)
theory Topology
  imports Platform TopologyText "HOL-Library.List_Lexorder"
begin

text \<open>
  The topology record of \<^verbatim>\<open>platform/cpu_topology_v1.h\<close> and its validator
  (\<^verbatim>\<open>validate_cpu_topology_v1\<close> in \<^verbatim>\<open>cpu_topology_v1.cpp\<close>), the counts derived from it and its
  printing. Tables that are kept strictly ascending by a key (logical CPUs, NUMA nodes, CPU lists)
  are searched with \<^verbatim>\<open>std::lower_bound\<close>; the contract of that search is the locale
  \<open>ascending_table\<close>. The main lemma reduces the validator, loop by loop, to a declarative
  well-formedness predicate.
\<close>

section \<open>Data\<close>

definition kUnknownTopologyIdV1 :: u32 where "kUnknownTopologyIdV1 = u32_max"

datatype CpuCacheTypeV1 = cache_unknown | cache_data | cache_instruction | cache_unified | cache_other u8

record CpuLogicalProcessorV1 =
  lp_logical_cpu :: u32
  lp_core_id :: u32
  lp_package_id :: u32
  lp_numa_node_id :: u32
  lp_thread_index :: u32
  lp_online :: bool

record CpuNumaNodeV1 =
  nn_node_id :: u32
  nn_logical_cpus :: "u32 list"

record CpuCacheGroupV1 =
  cg_level :: u32
  cg_type :: CpuCacheTypeV1
  cg_size_bytes :: u64
  cg_line_size_bytes :: u32
  cg_shared_logical_cpus :: "u32 list"

record CpuTopologyV1 =
  topo_version :: u32
  topo_architecture :: ArchitectureKindV1
  topo_discovery_complete :: bool
  topo_logical_processors :: "CpuLogicalProcessorV1 list"
  topo_numa_nodes :: "CpuNumaNodeV1 list"
  topo_cache_groups :: "CpuCacheGroupV1 list"

definition default_processor :: CpuLogicalProcessorV1 where
  "default_processor =
     \<lparr>lp_logical_cpu = kUnknownTopologyIdV1, lp_core_id = kUnknownTopologyIdV1,
      lp_package_id = kUnknownTopologyIdV1, lp_numa_node_id = kUnknownTopologyIdV1,
      lp_thread_index = kUnknownTopologyIdV1, lp_online = False\<rparr>"

definition default_topology :: CpuTopologyV1 where
  "default_topology =
     \<lparr>topo_version = 1, topo_architecture = archk_unknown, topo_discovery_complete = False,
      topo_logical_processors = [], topo_numa_nodes = [], topo_cache_groups = []\<rparr>"

fun known_cache_type :: "CpuCacheTypeV1 \<Rightarrow> bool" where
  "known_cache_type (cache_other _) = False"
| "known_cache_type _ = True"

text \<open>The order of the enumerators, for the comparisons by \<^verbatim>\<open>std::tie\<close>.\<close>

fun cache_type_code :: "CpuCacheTypeV1 \<Rightarrow> u8" where
  "cache_type_code cache_unknown = 0"
| "cache_type_code cache_data = 1"
| "cache_type_code cache_instruction = 2"
| "cache_type_code cache_unified = 3"
| "cache_type_code (cache_other c) = c"

section \<open>Searching an ascending table\<close>

text \<open>\<^verbatim>\<open>std::lower_bound\<close> by a key: the first entry whose key is not smaller.\<close>

definition lower_bound :: "('r \<Rightarrow> u32) \<Rightarrow> 'r list \<Rightarrow> u32 \<Rightarrow> 'r option" where
  "lower_bound key table k =
     (case dropWhile (\<lambda>r. key r < k) table of [] \<Rightarrow> None | r # _ \<Rightarrow> Some r)"

text \<open>The pattern of its uses: found, and the key is the one asked for.\<close>

definition lookup :: "('r \<Rightarrow> u32) \<Rightarrow> 'r list \<Rightarrow> u32 \<Rightarrow> 'r option" where
  "lookup key table k =
     (case lower_bound key table k of
        None \<Rightarrow> None | Some r \<Rightarrow> if key r \<noteq> k then None else Some r)"

definition contains_cpu :: "u32 list \<Rightarrow> u32 \<Rightarrow> bool" where
  "contains_cpu cpus cpu \<longleftrightarrow>
     (case lower_bound (\<lambda>c. c) cpus cpu of None \<Rightarrow> False | Some c \<Rightarrow> \<not> cpu < c)"

definition find_processor :: "CpuLogicalProcessorV1 list \<Rightarrow> u32 \<Rightarrow> CpuLogicalProcessorV1 option" where
  "find_processor = lookup lp_logical_cpu"

definition find_node :: "CpuNumaNodeV1 list \<Rightarrow> u32 \<Rightarrow> CpuNumaNodeV1 option" where
  "find_node = lookup nn_node_id"

section \<open>Validation\<close>

fun check_processors :: "bool \<Rightarrow> u32 option \<Rightarrow> CpuLogicalProcessorV1 list \<Rightarrow> validation" where
  \<comment> \<open>the second argument is \<^verbatim>\<open>previous_cpu\<close>, \<open>None\<close> while \<^verbatim>\<open>first_cpu\<close>\<close>
  "check_processors complete previous [] = None"
| "check_processors complete previous (p # ps) =
     (if lp_logical_cpu p = kUnknownTopologyIdV1
      then Some ''CPU topology contains an unknown logical CPU ID''
      else if (case previous of None \<Rightarrow> False | Some q \<Rightarrow> lp_logical_cpu p \<le> q)
      then Some ''CPU topology logical CPUs must be unique and sorted''
      else if complete \<and>
              (\<not> lp_online p \<or> lp_core_id p = kUnknownTopologyIdV1 \<or>
               lp_package_id p = kUnknownTopologyIdV1 \<or> lp_numa_node_id p = kUnknownTopologyIdV1 \<or>
               lp_thread_index p = kUnknownTopologyIdV1)
      then Some ''complete topology requires every online CPU mapping''
      else check_processors complete (Some (lp_logical_cpu p)) ps)"

fun check_node_cpus :: "CpuLogicalProcessorV1 list \<Rightarrow> u32 \<Rightarrow> u32 list \<Rightarrow> validation" where
  "check_node_cpus processors node [] = None"
| "check_node_cpus processors node (cpu # cpus) =
     (case find_processor processors cpu of
        None \<Rightarrow> Some ''NUMA mapping disagrees with logical CPU records''
      | Some p \<Rightarrow>
          if lp_numa_node_id p \<noteq> node
          then Some ''NUMA mapping disagrees with logical CPU records''
          else check_node_cpus processors node cpus)"

fun check_nodes :: "CpuLogicalProcessorV1 list \<Rightarrow> u32 option \<Rightarrow> CpuNumaNodeV1 list \<Rightarrow> validation" where
  "check_nodes processors previous [] = None"
| "check_nodes processors previous (node # nodes) =
     (if nn_node_id node = kUnknownTopologyIdV1 \<or>
         (case previous of None \<Rightarrow> False | Some q \<Rightarrow> nn_node_id node \<le> q)
      then Some ''NUMA node IDs must be known, unique, and sorted''
      else if \<not> sorted (nn_logical_cpus node) \<or> adjacent_equal (nn_logical_cpus node)
      then Some ''NUMA logical CPU lists must be unique and sorted''
      else case check_node_cpus processors (nn_node_id node) (nn_logical_cpus node) of
             Some why \<Rightarrow> Some why
           | None \<Rightarrow> check_nodes processors (Some (nn_node_id node)) nodes)"

fun check_processor_nodes :: "CpuNumaNodeV1 list \<Rightarrow> CpuLogicalProcessorV1 list \<Rightarrow> validation" where
  "check_processor_nodes nodes [] = None"
| "check_processor_nodes nodes (p # ps) =
     (if lp_numa_node_id p = kUnknownTopologyIdV1 then check_processor_nodes nodes ps
      else case find_node nodes (lp_numa_node_id p) of
             None \<Rightarrow> Some ''logical CPU references an absent NUMA node mapping''
           | Some node \<Rightarrow>
               if \<not> contains_cpu (nn_logical_cpus node) (lp_logical_cpu p)
               then Some ''logical CPU references an absent NUMA node mapping''
               else check_processor_nodes nodes ps)"

fun check_cache_cpus :: "CpuLogicalProcessorV1 list \<Rightarrow> u32 list \<Rightarrow> validation" where
  "check_cache_cpus processors [] = None"
| "check_cache_cpus processors (cpu # cpus) =
     (if find_processor processors cpu = None
      then Some ''cache group references an absent logical CPU''
      else check_cache_cpus processors cpus)"

fun check_caches :: "CpuLogicalProcessorV1 list \<Rightarrow> CpuCacheGroupV1 list \<Rightarrow> validation" where
  "check_caches processors [] = None"
| "check_caches processors (c # cs) =
     (if \<not> known_cache_type (cg_type c) \<or> cg_type c = cache_unknown \<or> cg_level c = 0 \<or>
         cg_size_bytes c = 0 \<or> cg_line_size_bytes c = 0 \<or> cg_shared_logical_cpus c = []
      then Some ''CPU cache group is incomplete or invalid''
      else if \<not> sorted (cg_shared_logical_cpus c) \<or> adjacent_equal (cg_shared_logical_cpus c)
      then Some ''cache-sharing CPU lists must be unique and sorted''
      else case check_cache_cpus processors (cg_shared_logical_cpus c) of
             Some why \<Rightarrow> Some why | None \<Rightarrow> check_caches processors cs)"

definition validate_cpu_topology_v1 :: "CpuTopologyV1 \<Rightarrow> validation" where
  "validate_cpu_topology_v1 r =
     (if topo_version r \<noteq> 1 then Some ''CPU topology record version is unsupported''
      else if \<not> known_archk (topo_architecture r)
      then Some ''CPU topology architecture is invalid''
      else first_failure
        [check_processors (topo_discovery_complete r) None (topo_logical_processors r),
         check_nodes (topo_logical_processors r) None (topo_numa_nodes r),
         check_processor_nodes (topo_numa_nodes r) (topo_logical_processors r),
         check_caches (topo_logical_processors r) (topo_cache_groups r),
         (if topo_discovery_complete r \<and>
             (topo_architecture r = archk_unknown \<or> topo_logical_processors r = [] \<or>
              topo_numa_nodes r = [] \<or> topo_cache_groups r = [])
          then Some ''complete CPU topology requires architecture, CPU, NUMA, and cache records''
          else None)])"

section \<open>Counts and text\<close>

definition count_up :: "bool \<Rightarrow> u32 \<Rightarrow> u32" where
  "count_up c n = (if c \<and> n \<noteq> u32_max then n + 1 else n)"

definition logical_cpu_count_v1 :: "CpuTopologyV1 \<Rightarrow> u32" where
  "logical_cpu_count_v1 r = fold (\<lambda>p. count_up (lp_online p)) (topo_logical_processors r) 0"

text \<open>The loops with a \<^verbatim>\<open>seen\<close> flag: the entry counts when no earlier one matches it.\<close>

fun count_first :: "('r \<Rightarrow> bool) \<Rightarrow> ('r \<Rightarrow> 'r \<Rightarrow> bool) \<Rightarrow> 'r list \<Rightarrow> 'r list \<Rightarrow> u32 \<Rightarrow> u32" where
  "count_first usable same prior [] n = n"
| "count_first usable same prior (p # ps) n =
     count_first usable same (prior @ [p]) ps
       (if \<not> usable p then n
        else let seen = list_ex (\<lambda>q. same q p) prior in count_up (\<not> seen) n)"

definition physical_core_count_v1 :: "CpuTopologyV1 \<Rightarrow> u32" where
  "physical_core_count_v1 r =
     count_first
       (\<lambda>p. \<not> (\<not> lp_online p \<or> lp_core_id p = kUnknownTopologyIdV1 \<or>
               lp_package_id p = kUnknownTopologyIdV1))
       (\<lambda>q p. lp_online q \<and> lp_core_id q = lp_core_id p \<and> lp_package_id q = lp_package_id p)
       [] (topo_logical_processors r) 0"

definition socket_count_v1 :: "CpuTopologyV1 \<Rightarrow> u32" where
  "socket_count_v1 r =
     count_first (\<lambda>p. \<not> (\<not> lp_online p \<or> lp_package_id p = kUnknownTopologyIdV1))
       (\<lambda>q p. lp_online q \<and> lp_package_id q = lp_package_id p)
       [] (topo_logical_processors r) 0"

definition numa_node_count_v1 :: "CpuTopologyV1 \<Rightarrow> u32" where
  "numa_node_count_v1 r =
     (if length (topo_numa_nodes r) > unat u32_max then u32_max
      else of_nat (length (topo_numa_nodes r)))"

fun to_string_cache_type :: "CpuCacheTypeV1 \<Rightarrow> string" where
  "to_string_cache_type cache_unknown = ''unknown''"
| "to_string_cache_type cache_data = ''data''"
| "to_string_cache_type cache_instruction = ''instruction''"
| "to_string_cache_type cache_unified = ''unified''"
| "to_string_cache_type (cache_other _) = ''invalid''"


definition processor_text :: "CpuLogicalProcessorV1 \<Rightarrow> string" where
  "processor_text p =
     decimal (unat (lp_logical_cpu p)) @ '':core='' @ decimal (unat (lp_core_id p)) @
     ''/socket='' @ decimal (unat (lp_package_id p)) @
     ''/node='' @ decimal (unat (lp_numa_node_id p)) @
     ''/thread='' @ decimal (unat (lp_thread_index p))"

definition format_cpu_topology_v1 :: "CpuTopologyV1 \<Rightarrow> string" where
  "format_cpu_topology_v1 r =
     ''cpu-topology-v1{version='' @ decimal (unat (topo_version r)) @
     '',architecture='' @ to_string_archk (topo_architecture r) @
     '',discovery='' @ (if topo_discovery_complete r then ''complete'' else ''incomplete'') @
     '',logical-cpus='' @ decimal (unat (logical_cpu_count_v1 r)) @
     '',physical-cores='' @ decimal (unat (physical_core_count_v1 r)) @
     '',sockets='' @ decimal (unat (socket_count_v1 r)) @
     '',numa-nodes='' @ decimal (unat (numa_node_count_v1 r)) @
     '',cpu-map=['' @ comma_joined (map processor_text (topo_logical_processors r)) @
     ''],cache-groups='' @ decimal (length (topo_cache_groups r)) @ ''}''"

section \<open>The contract of the searches\<close>

locale ascending_table =
  fixes key :: "'r \<Rightarrow> u32"
    and find :: "'r list \<Rightarrow> u32 \<Rightarrow> 'r option"
  assumes find_Some:
    "sorted_wrt (<) (map key t) \<Longrightarrow> find t k = Some r \<longleftrightarrow> r \<in> set t \<and> key r = k"
begin

lemma find_None: "sorted_wrt (<) (map key t) \<Longrightarrow> find t k = None \<longleftrightarrow> k \<notin> key ` set t"
  using find_Some [of t k] by (cases "find t k") force+

lemma find_member: "sorted_wrt (<) (map key t) \<Longrightarrow> r \<in> set t \<Longrightarrow> find t (key r) = Some r"
  by (simp add: find_Some)

lemma key_unique:
  "sorted_wrt (<) (map key t) \<Longrightarrow> r \<in> set t \<Longrightarrow> s \<in> set t \<Longrightarrow> key r = key s \<Longrightarrow> r = s"
  using find_Some [of t "key r" r] find_Some [of t "key r" s] by simp

lemma sorted_filter: "sorted_wrt (<) (map key t) \<Longrightarrow> sorted_wrt (<) (map key (filter P t))"
  by (simp add: sorted_wrt_map sorted_wrt_filter)

lemma find_filter:
  "sorted_wrt (<) (map key t) \<Longrightarrow> P r \<Longrightarrow> find t k = Some r \<Longrightarrow> find (filter P t) k = Some r"
  using sorted_filter [of t P] by (simp add: find_Some)

end

lemma lookup_Some:
  assumes "sorted_wrt (<) (map key t)"
  shows "lookup key t k = Some r \<longleftrightarrow> r \<in> set t \<and> key r = k"
  using assms
proof (induction t)
  case (Cons a t)
  then have IH: "lookup key t k = Some r \<longleftrightarrow> r \<in> set t \<and> key r = k"
    and above: "\<forall>b \<in> set t. key a < key b" by auto
  show ?case
  proof (cases "key a < k")
    case True
    then show ?thesis using IH by (auto simp: lookup_def lower_bound_def)
  next
    case False
    then have "lookup key (a # t) k = (if key a \<noteq> k then None else Some a)"
      by (simp add: lookup_def lower_bound_def)
    then show ?thesis using False above by auto
  qed
qed (simp add: lookup_def lower_bound_def)

lemma contains_cpu_lookup: "contains_cpu cpus cpu \<longleftrightarrow> lookup (\<lambda>c. c) cpus cpu = Some cpu"
proof (cases "lower_bound (\<lambda>c. c) cpus cpu")
  case (Some c)
  then have "\<not> c < cpu"
    unfolding lower_bound_def by (auto split: list.splits dest!: dropWhile_eq_Cons_conv [THEN iffD1])
  with Some show ?thesis by (auto simp: contains_cpu_def lookup_def)
qed (simp add: contains_cpu_def lookup_def)

interpretation processors: ascending_table lp_logical_cpu find_processor
  by unfold_locales (simp add: find_processor_def lookup_Some)

interpretation nodes: ascending_table nn_node_id find_node
  by unfold_locales (simp add: find_node_def lookup_Some)

interpretation cpus: ascending_table "\<lambda>c. c" "\<lambda>t cpu. if contains_cpu t cpu then Some cpu else None"
  by unfold_locales (auto simp: contains_cpu_lookup lookup_Some)

lemma contains_cpu_iff: "sorted_wrt (<) cpus \<Longrightarrow> contains_cpu cpus cpu \<longleftrightarrow> cpu \<in> set cpus"
  using cpus.find_Some [of cpus cpu cpu] by (auto split: if_splits)

section \<open>Well-formed topologies\<close>

definition processor_ok :: "bool \<Rightarrow> CpuLogicalProcessorV1 \<Rightarrow> bool" where
  "processor_ok complete p \<longleftrightarrow>
     lp_logical_cpu p \<noteq> kUnknownTopologyIdV1 \<and>
     (complete \<longrightarrow> lp_online p \<and> lp_core_id p \<noteq> kUnknownTopologyIdV1 \<and>
        lp_package_id p \<noteq> kUnknownTopologyIdV1 \<and> lp_numa_node_id p \<noteq> kUnknownTopologyIdV1 \<and>
        lp_thread_index p \<noteq> kUnknownTopologyIdV1)"

definition node_ok :: "CpuLogicalProcessorV1 list \<Rightarrow> CpuNumaNodeV1 \<Rightarrow> bool" where
  "node_ok processors node \<longleftrightarrow>
     nn_node_id node \<noteq> kUnknownTopologyIdV1 \<and> sorted_wrt (<) (nn_logical_cpus node) \<and>
     (\<forall>cpu \<in> set (nn_logical_cpus node).
        \<exists>p \<in> set processors. lp_logical_cpu p = cpu \<and> lp_numa_node_id p = nn_node_id node)"

definition cache_ok :: "CpuLogicalProcessorV1 list \<Rightarrow> CpuCacheGroupV1 \<Rightarrow> bool" where
  "cache_ok processors c \<longleftrightarrow>
     cg_type c \<in> {cache_data, cache_instruction, cache_unified} \<and> cg_level c \<noteq> 0 \<and>
     cg_size_bytes c \<noteq> 0 \<and> cg_line_size_bytes c \<noteq> 0 \<and> cg_shared_logical_cpus c \<noteq> [] \<and>
     sorted_wrt (<) (cg_shared_logical_cpus c) \<and>
     set (cg_shared_logical_cpus c) \<subseteq> lp_logical_cpu ` set processors"

definition topology_ok :: "CpuTopologyV1 \<Rightarrow> bool" where
  "topology_ok r \<longleftrightarrow>
     (let ps = topo_logical_processors r; ns = topo_numa_nodes r in
      topo_version r = 1 \<and> known_archk (topo_architecture r) \<and>
      sorted_wrt (<) (map lp_logical_cpu ps) \<and>
      (\<forall>p \<in> set ps. processor_ok (topo_discovery_complete r) p) \<and>
      sorted_wrt (<) (map nn_node_id ns) \<and> (\<forall>n \<in> set ns. node_ok ps n) \<and>
      (\<forall>p \<in> set ps. lp_numa_node_id p \<noteq> kUnknownTopologyIdV1 \<longrightarrow>
         (\<exists>n \<in> set ns. nn_node_id n = lp_numa_node_id p \<and> lp_logical_cpu p \<in> set (nn_logical_cpus n))) \<and>
      (\<forall>c \<in> set (topo_cache_groups r). cache_ok ps c) \<and>
      (topo_discovery_complete r \<longrightarrow>
         topo_architecture r \<noteq> archk_unknown \<and> ps \<noteq> [] \<and> ns \<noteq> [] \<and> topo_cache_groups r \<noteq> []))"

lemma check_processors_None:
  "check_processors complete previous ps = None \<longleftrightarrow>
     (\<forall>p \<in> set ps. processor_ok complete p) \<and> sorted_wrt (<) (map lp_logical_cpu ps) \<and>
     (\<forall>q p. previous = Some q \<longrightarrow> p \<in> set ps \<longrightarrow> q < lp_logical_cpu p)"
proof (induction ps arbitrary: previous)
  case (Cons p ps)
  show ?case
    by (cases previous)
      (auto simp: Cons processor_ok_def not_le intro: less_trans)
qed simp

lemma check_node_cpus_None:
  assumes "sorted_wrt (<) (map lp_logical_cpu processors)"
  shows "check_node_cpus processors node cpus = None \<longleftrightarrow>
    (\<forall>cpu \<in> set cpus. \<exists>p \<in> set processors. lp_logical_cpu p = cpu \<and> lp_numa_node_id p = node)"
proof (induction cpus)
  case (Cons cpu cpus)
  show ?case
  proof (cases "find_processor processors cpu")
    case None
    then show ?thesis using processors.find_None [OF assms, of cpu] by auto
  next
    case (Some p)
    then have p: "p \<in> set processors" "lp_logical_cpu p = cpu"
      using processors.find_Some [OF assms] by simp_all
    then have "(\<exists>q \<in> set processors. lp_logical_cpu q = cpu \<and> lp_numa_node_id q = node) \<longleftrightarrow>
        lp_numa_node_id p = node"
      using processors.key_unique [OF assms] by blast
    then show ?thesis using Some Cons by simp
  qed
qed simp

lemma check_nodes_None:
  assumes "sorted_wrt (<) (map lp_logical_cpu processors)"
  shows "check_nodes processors previous ns = None \<longleftrightarrow>
    (\<forall>n \<in> set ns. node_ok processors n) \<and> sorted_wrt (<) (map nn_node_id ns) \<and>
    (\<forall>q n. previous = Some q \<longrightarrow> n \<in> set ns \<longrightarrow> q < nn_node_id n)"
proof (induction ns arbitrary: previous)
  case (Cons n ns)
  have step: "check_nodes processors previous (n # ns) = None \<longleftrightarrow>
     nn_node_id n \<noteq> kUnknownTopologyIdV1 \<and> (\<forall>q. previous = Some q \<longrightarrow> q < nn_node_id n) \<and>
     sorted_wrt (<) (nn_logical_cpus n) \<and>
     check_node_cpus processors (nn_node_id n) (nn_logical_cpus n) = None \<and>
     check_nodes processors (Some (nn_node_id n)) ns = None"
    by (auto simp: unique_sorted_iff [symmetric] not_le split: option.splits)
  show ?case
    unfolding step Cons check_node_cpus_None [OF assms] node_ok_def
    by (auto intro: less_trans)
qed simp

lemma check_processor_nodes_None:
  assumes "sorted_wrt (<) (map nn_node_id ns)" "\<forall>n \<in> set ns. sorted_wrt (<) (nn_logical_cpus n)"
  shows "check_processor_nodes ns ps = None \<longleftrightarrow>
    (\<forall>p \<in> set ps. lp_numa_node_id p \<noteq> kUnknownTopologyIdV1 \<longrightarrow>
       (\<exists>n \<in> set ns. nn_node_id n = lp_numa_node_id p \<and> lp_logical_cpu p \<in> set (nn_logical_cpus n)))"
proof (induction ps)
  case (Cons p ps)
  show ?case
  proof (cases "find_node ns (lp_numa_node_id p)")
    case None
    then have "\<forall>n \<in> set ns. nn_node_id n \<noteq> lp_numa_node_id p"
      using nodes.find_None [OF assms(1), of "lp_numa_node_id p"] by force
    then show ?thesis using None Cons by simp
  next
    case (Some n)
    then have n: "n \<in> set ns" "nn_node_id n = lp_numa_node_id p"
      using nodes.find_Some [OF assms(1)] by simp_all
    then have "(\<exists>n \<in> set ns. nn_node_id n = lp_numa_node_id p \<and> lp_logical_cpu p \<in> set (nn_logical_cpus n))
        \<longleftrightarrow> contains_cpu (nn_logical_cpus n) (lp_logical_cpu p)"
      using nodes.key_unique [OF assms(1)] assms(2) by (metis contains_cpu_iff)
    then show ?thesis using Some Cons by auto
  qed
qed simp

lemma check_cache_cpus_None:
  assumes "sorted_wrt (<) (map lp_logical_cpu processors)"
  shows "check_cache_cpus processors cpus = None \<longleftrightarrow> set cpus \<subseteq> lp_logical_cpu ` set processors"
  by (induction cpus) (auto simp: processors.find_None [OF assms])

lemma check_caches_None:
  assumes "sorted_wrt (<) (map lp_logical_cpu processors)"
  shows "check_caches processors cs = None \<longleftrightarrow> (\<forall>c \<in> set cs. cache_ok processors c)"
proof (induction cs)
  case (Cons c cs)
  have type: "known_cache_type t \<and> t \<noteq> cache_unknown \<longleftrightarrow> t \<in> {cache_data, cache_instruction, cache_unified}"
    for t by (cases t) simp_all
  have step: "check_caches processors (c # cs) = None \<longleftrightarrow>
     known_cache_type (cg_type c) \<and> cg_type c \<noteq> cache_unknown \<and> cg_level c \<noteq> 0 \<and>
     cg_size_bytes c \<noteq> 0 \<and> cg_line_size_bytes c \<noteq> 0 \<and> cg_shared_logical_cpus c \<noteq> [] \<and>
     sorted_wrt (<) (cg_shared_logical_cpus c) \<and>
     check_cache_cpus processors (cg_shared_logical_cpus c) = None \<and> check_caches processors cs = None"
    by (auto simp: unique_sorted_iff [symmetric] split: option.splits)
  show ?case
    unfolding step Cons check_cache_cpus_None [OF assms] cache_ok_def using type [of "cg_type c"]
    by auto
qed simp

lemma first_failure_Cons: "first_failure (v # vs) = None \<longleftrightarrow> v = None \<and> first_failure vs = None"
  "first_failure [] = None"
  by (simp_all add: first_failure_None)

lemma validate_topology_None:
  "validate_cpu_topology_v1 r = None \<longleftrightarrow>
     topo_version r = 1 \<and> known_archk (topo_architecture r) \<and>
     check_processors (topo_discovery_complete r) None (topo_logical_processors r) = None \<and>
     check_nodes (topo_logical_processors r) None (topo_numa_nodes r) = None \<and>
     check_processor_nodes (topo_numa_nodes r) (topo_logical_processors r) = None \<and>
     check_caches (topo_logical_processors r) (topo_cache_groups r) = None \<and>
     (topo_discovery_complete r \<longrightarrow> topo_architecture r \<noteq> archk_unknown \<and>
        topo_logical_processors r \<noteq> [] \<and> topo_numa_nodes r \<noteq> [] \<and> topo_cache_groups r \<noteq> [])"
  unfolding validate_cpu_topology_v1_def
  by (auto simp del: first_failure.simps simp: first_failure_Cons split: if_splits)

lemma validate_topology_iff: "validate_cpu_topology_v1 r = None \<longleftrightarrow> topology_ok r"
proof (cases "sorted_wrt (<) (map lp_logical_cpu (topo_logical_processors r))")
  case False
  then show ?thesis
    by (simp add: validate_topology_None check_processors_None
        topology_ok_def Let_def)
next
  case True
  note checks = check_processors_None check_nodes_None [OF True] check_caches_None [OF True]
  show ?thesis
  proof (cases "sorted_wrt (<) (map nn_node_id (topo_numa_nodes r)) \<and>
      (\<forall>n \<in> set (topo_numa_nodes r). node_ok (topo_logical_processors r) n)")
    case False
    then show ?thesis
      by (auto simp: validate_topology_None checks topology_ok_def Let_def)
  next
    case wf: True
    then have "\<forall>n \<in> set (topo_numa_nodes r). sorted_wrt (<) (nn_logical_cpus n)"
      by (simp add: node_ok_def)
    with wf have cross: "check_processor_nodes (topo_numa_nodes r) ps = None \<longleftrightarrow>
        (\<forall>p \<in> set ps. lp_numa_node_id p \<noteq> kUnknownTopologyIdV1 \<longrightarrow>
          (\<exists>n \<in> set (topo_numa_nodes r). nn_node_id n = lp_numa_node_id p \<and>
             lp_logical_cpu p \<in> set (nn_logical_cpus n)))" for ps
      by (intro check_processor_nodes_None) blast+
    show ?thesis
      using True wf
      by (simp add: validate_topology_None checks cross topology_ok_def
          Let_def)
  qed
qed

section \<open>Counts\<close>

lemma count_up_unat: "unat n < 4294967295 \<Longrightarrow> unat (count_up c n) = (if c then Suc (unat n) else unat n)"
  using unat_succ32(2) [of n] by (auto simp: count_up_def)

lemma count_first_spec:
  assumes "\<And>q p. usable p \<Longrightarrow> same q p \<longleftrightarrow> usable q \<and> f q = f p"
    and "unat n + length ps \<le> 4294967295"
  shows "unat (count_first usable same prior ps n) =
    unat n + card (f ` {p \<in> set ps. usable p} - f ` {p \<in> set prior. usable p})"
  using assms(2)
proof (induction ps arbitrary: prior n)
  case (Cons p ps)
  let ?F = "\<lambda>xs. f ` {p \<in> set xs. usable p}"
  show ?case
  proof (cases "usable p")
    case False
    then have "?F (p # ps) = ?F ps" "?F (prior @ [p]) = ?F prior" by auto
    then show ?thesis using False Cons by simp
  next
    case True
    have seen: "list_ex (\<lambda>q. same q p) prior \<longleftrightarrow> f p \<in> ?F prior"
      using assms(1) [OF True] by (auto simp: list_ex_iff image_iff)
    have split: "?F (p # ps) = insert (f p) (?F ps)" "?F (prior @ [p]) = insert (f p) (?F prior)"
      using True by auto
    let ?n = "count_up (f p \<notin> ?F prior) n"
    have n: "unat ?n = unat n + (if f p \<in> ?F prior then 0 else 1)"
      using Cons.prems by (simp add: count_up_unat)
    then have "unat ?n + length ps \<le> 4294967295" using Cons.prems by simp
    note IH = Cons.IH [OF this, of "prior @ [p]", unfolded split]
    have card: "card (insert (f p) (?F ps) - ?F prior) =
        (if f p \<in> ?F prior then 0 else 1) + card (?F ps - insert (f p) (?F prior))"
    proof (cases "f p \<in> ?F prior")
      case True
      then show ?thesis by (simp add: insert_absorb)
    next
      case False
      have "insert (f p) (?F ps) - ?F prior = insert (f p) (?F ps - insert (f p) (?F prior))"
        using False by auto
      moreover have "card \<dots> = Suc (card (?F ps - insert (f p) (?F prior)))"
        by (subst card_insert_disjoint) auto
      ultimately show ?thesis using False by simp
    qed
    have "count_first usable same prior (p # ps) n = count_first usable same (prior @ [p]) ps ?n"
      using True seen by (simp add: Let_def)
    then show ?thesis unfolding split card using IH n by simp
  qed
qed simp

lemma topology_count_facts:
  assumes "length (topo_logical_processors r) \<le> 4294967295"
  shows "unat (physical_core_count_v1 r) =
      card ((\<lambda>p. (lp_package_id p, lp_core_id p)) ` {p \<in> set (topo_logical_processors r).
        lp_online p \<and> lp_core_id p \<noteq> kUnknownTopologyIdV1 \<and> lp_package_id p \<noteq> kUnknownTopologyIdV1})"
    and "unat (socket_count_v1 r) =
      card (lp_package_id ` {p \<in> set (topo_logical_processors r).
        lp_online p \<and> lp_package_id p \<noteq> kUnknownTopologyIdV1})"
    and "unat (logical_cpu_count_v1 r) = length (filter lp_online (topo_logical_processors r))"
proof -
  show "unat (physical_core_count_v1 r) =
      card ((\<lambda>p. (lp_package_id p, lp_core_id p)) ` {p \<in> set (topo_logical_processors r).
        lp_online p \<and> lp_core_id p \<noteq> kUnknownTopologyIdV1 \<and> lp_package_id p \<noteq> kUnknownTopologyIdV1})"
    unfolding physical_core_count_v1_def
    using assms
    by (subst count_first_spec [where f = "\<lambda>p. (lp_package_id p, lp_core_id p)"]) auto
  show "unat (socket_count_v1 r) =
      card (lp_package_id ` {p \<in> set (topo_logical_processors r).
        lp_online p \<and> lp_package_id p \<noteq> kUnknownTopologyIdV1})"
    unfolding socket_count_v1_def
    using assms by (subst count_first_spec [where f = lp_package_id]) auto
  have "unat (fold (\<lambda>p. count_up (lp_online p)) ps n) = unat n + length (filter lp_online ps)"
    if "unat n + length ps \<le> 4294967295" for ps n
    using that
  proof (induction ps arbitrary: n)
    case (Cons p ps)
    then have "unat n < 4294967295" by simp
    from count_up_unat [OF this, of "lp_online p"] Cons show ?case by simp
  qed simp
  from this [of 0] assms
  show "unat (logical_cpu_count_v1 r) = length (filter lp_online (topo_logical_processors r))"
    by (simp add: logical_cpu_count_v1_def)
qed

section \<open>Properties\<close>

text \<open>C31: The topology validator accepts exactly the well-formed records: CPU and NUMA tables strictly
  ascending, NUMA lists and processor records naming each other, every cache group complete and
  made of existing CPUs, and in a complete record every CPU online with all its identifiers known
  and no table empty.\<close>

theorem validate_topology_exact:
  "validate_cpu_topology_v1 r = None \<longleftrightarrow>
    (let ps = topo_logical_processors r; ns = topo_numa_nodes r; complete = topo_discovery_complete r in
      topo_version r = 1 \<and> known_archk (topo_architecture r) \<and>
      sorted_wrt (<) (map lp_logical_cpu ps) \<and> sorted_wrt (<) (map nn_node_id ns) \<and>
      (\<forall>p \<in> set ps. processor_ok complete p) \<and> (\<forall>n \<in> set ns. node_ok ps n) \<and>
      (\<forall>p \<in> set ps. lp_numa_node_id p \<noteq> kUnknownTopologyIdV1 \<longrightarrow>
         (\<exists>n \<in> set ns. nn_node_id n = lp_numa_node_id p \<and> lp_logical_cpu p \<in> set (nn_logical_cpus n))) \<and>
      (\<forall>c \<in> set (topo_cache_groups r). cache_ok ps c) \<and>
      (complete \<longrightarrow> topo_architecture r \<noteq> archk_unknown \<and> ps \<noteq> [] \<and> ns \<noteq> [] \<and>
         topo_cache_groups r \<noteq> []))"
  unfolding validate_topology_iff topology_ok_def Let_def by blast

text \<open>A machine with two NUMA nodes, two cores and a sibling thread on the first.\<close>

definition example_processor :: "u32 \<Rightarrow> u32 \<Rightarrow> u32 \<Rightarrow> u32 \<Rightarrow> CpuLogicalProcessorV1" where
  "example_processor cpu core node thread =
     \<lparr>lp_logical_cpu = cpu, lp_core_id = core, lp_package_id = node, lp_numa_node_id = node,
      lp_thread_index = thread, lp_online = True\<rparr>"

definition example_topology :: CpuTopologyV1 where
  "example_topology =
     \<lparr>topo_version = 1, topo_architecture = archk_x86_64, topo_discovery_complete = True,
      topo_logical_processors =
        [example_processor 0 0 0 0, example_processor 1 0 1 0, example_processor 2 0 0 1,
         example_processor 3 1 0 0],
      topo_numa_nodes =
        [\<lparr>nn_node_id = 0, nn_logical_cpus = [0, 2, 3]\<rparr>, \<lparr>nn_node_id = 1, nn_logical_cpus = [1]\<rparr>],
      topo_cache_groups =
        [\<lparr>cg_level = 1, cg_type = cache_data, cg_size_bytes = 32768, cg_line_size_bytes = 64,
          cg_shared_logical_cpus = [0, 2]\<rparr>,
         \<lparr>cg_level = 2, cg_type = cache_unified, cg_size_bytes = 1048576, cg_line_size_bytes = 64,
          cg_shared_logical_cpus = [0, 2, 3]\<rparr>]\<rparr>"

lemma example_topology_valid: "validate_cpu_topology_v1 example_topology = None"
  by code_simp

theorem validate_topology_exact_witness:
  "node_ok (topo_logical_processors example_topology) \<lparr>nn_node_id = 1, nn_logical_cpus = [1]\<rparr>"
proof -
  have "\<lparr>nn_node_id = 1, nn_logical_cpus = [1]\<rparr> \<in> set (topo_numa_nodes example_topology)"
    by (simp add: example_topology_def)
  then show ?thesis
    using validate_topology_exact [of example_topology] example_topology_valid
    unfolding Let_def by blast
qed

text \<open>The core count is the number of different (package, core) pairs of the online processors whose
  identifiers are known, the socket count the number of different packages, and the CPU count the
  number of online processors: no pair is counted twice and none is missed.\<close>

theorem topology_counts:
  assumes "length (topo_logical_processors r) \<le> 4294967295"
  shows "unat (physical_core_count_v1 r) =
      card ((\<lambda>p. (lp_package_id p, lp_core_id p)) ` {p \<in> set (topo_logical_processors r).
        lp_online p \<and> lp_core_id p \<noteq> kUnknownTopologyIdV1 \<and> lp_package_id p \<noteq> kUnknownTopologyIdV1}) \<and>
    unat (socket_count_v1 r) =
      card (lp_package_id ` {p \<in> set (topo_logical_processors r).
        lp_online p \<and> lp_package_id p \<noteq> kUnknownTopologyIdV1}) \<and>
    unat (logical_cpu_count_v1 r) = length (filter lp_online (topo_logical_processors r))"
  using topology_count_facts [OF assms] by blast

theorem topology_counts_witness:
  "physical_core_count_v1 example_topology = 3 \<and> unat (logical_cpu_count_v1 example_topology) = 4"
proof
  show "physical_core_count_v1 example_topology = 3" by code_simp
  show "unat (logical_cpu_count_v1 example_topology) = 4"
    using topology_counts [of example_topology]
    by (simp add: example_topology_def example_processor_def)
qed

end
