(* ===== verification/TopologyRestrict.thy ===== *)
theory TopologyRestrict
  imports Topology
begin

text \<open>
  \<^verbatim>\<open>restrict_cpu_topology_v1\<close> of \<^verbatim>\<open>platform/cpu_topology_v1.cpp\<close>: the projection of a discovered topology
  onto the CPUs a process may use (an affinity mask). NUMA and cache groups are intersected with the
  allowed set, empty groups dropped, SMT thread indices recomputed, and the result is validated
  again. Its lemmas show when the projection succeeds and what it then contains. The
  exceptions the \<^verbatim>\<open>try\<close> block can meet (memory) are two flags: one for the copy of the mask, one for
  building the projection.
\<close>

datatype CpuTopologyRestrictionStatusV1 =
  restr_selected | restr_invalid_topology | restr_empty_cpu_set | restr_duplicate_cpu_id
  | restr_unavailable_cpu_id | restr_resource_exhausted | restr_other u8

record CpuTopologyRestrictionV1 =
  restr_status :: CpuTopologyRestrictionStatusV1
  restr_topology :: CpuTopologyV1
  restr_reason :: string

definition default_restriction :: CpuTopologyRestrictionV1 where
  "default_restriction =
     \<lparr>restr_status = restr_invalid_topology, restr_topology = default_topology, restr_reason = []\<rparr>"

text \<open>\<^verbatim>\<open>std::set_intersection\<close>.\<close>

fun set_intersection :: "u32 list \<Rightarrow> u32 list \<Rightarrow> u32 list" where
  "set_intersection (x # xs) (y # ys) =
     (if x < y then set_intersection xs (y # ys)
      else if y < x then set_intersection (x # xs) ys
      else x # set_intersection xs ys)"
| "set_intersection [] _ = []"
| "set_intersection _ [] = []"

definition same_core :: "CpuLogicalProcessorV1 \<Rightarrow> CpuLogicalProcessorV1 \<Rightarrow> bool" where
  "same_core p q \<longleftrightarrow> lp_package_id q = lp_package_id p \<and> lp_core_id q = lp_core_id p"

text \<open>The inner loop that counts the lower-numbered siblings of a processor.\<close>

definition sibling_index :: "CpuLogicalProcessorV1 list \<Rightarrow> CpuLogicalProcessorV1 \<Rightarrow> u32" where
  "sibling_index ps p =
     fold (\<lambda>q n. if same_core p q \<and> lp_logical_cpu q < lp_logical_cpu p then n + 1 else n) ps 0"

definition reindex_threads :: "CpuLogicalProcessorV1 list \<Rightarrow> CpuLogicalProcessorV1 list" where
  "reindex_threads ps = map (\<lambda>p. p\<lparr>lp_thread_index := sibling_index ps p\<rparr>) ps"

definition restrict_nodes :: "u32 list \<Rightarrow> CpuNumaNodeV1 list \<Rightarrow> CpuNumaNodeV1 list" where
  "restrict_nodes allowed nodes =
     filter (\<lambda>n. nn_logical_cpus n \<noteq> [])
       (map (\<lambda>n. n\<lparr>nn_logical_cpus := set_intersection (nn_logical_cpus n) allowed\<rparr>) nodes)"

text \<open>The \<^verbatim>\<open>std::tie\<close> order of cache groups.\<close>

definition cache_key :: "CpuCacheGroupV1 \<Rightarrow> u32 \<times> u8 \<times> u32 list \<times> u64 \<times> u32" where
  "cache_key c = (cg_level c, cache_type_code (cg_type c), cg_shared_logical_cpus c,
     cg_size_bytes c, cg_line_size_bytes c)"

definition restrict_caches :: "u32 list \<Rightarrow> CpuCacheGroupV1 list \<Rightarrow> CpuCacheGroupV1 list" where
  "restrict_caches allowed caches =
     remdups_adj (sort_key cache_key
       (filter (\<lambda>c. cg_shared_logical_cpus c \<noteq> [])
         (map (\<lambda>c. c\<lparr>cg_shared_logical_cpus :=
                      set_intersection (cg_shared_logical_cpus c) allowed\<rparr>) caches)))"

definition restricted_topology :: "CpuTopologyV1 \<Rightarrow> u32 list \<Rightarrow> CpuTopologyV1" where
  "restricted_topology topology allowed =
     default_topology\<lparr>topo_architecture := topo_architecture topology,
       topo_discovery_complete := True,
       topo_logical_processors := reindex_threads
         (filter (\<lambda>p. contains_cpu allowed (lp_logical_cpu p)) (topo_logical_processors topology)),
       topo_numa_nodes := restrict_nodes allowed (topo_numa_nodes topology),
       topo_cache_groups := restrict_caches allowed (topo_cache_groups topology)\<rparr>"

text \<open>The loop that looks for an allowed CPU the topology does not offer.\<close>

definition cpu_available :: "CpuTopologyV1 \<Rightarrow> u32 \<Rightarrow> bool" where
  "cpu_available topology cpu =
     (case find_processor (topo_logical_processors topology) cpu of
        None \<Rightarrow> False | Some p \<Rightarrow> lp_online p)"

definition restrict_cpu_topology_v1 ::
  "bool \<Rightarrow> bool \<Rightarrow> CpuTopologyV1 \<Rightarrow> u32 list \<Rightarrow> CpuTopologyRestrictionV1" where
  "restrict_cpu_topology_v1 copy_throws build_throws topology allowed_logical_cpus =
     (let result = default_restriction in
      case validate_cpu_topology_v1 topology of
        Some why \<Rightarrow> result\<lparr>restr_status := restr_invalid_topology, restr_reason := why\<rparr>
      | None \<Rightarrow>
          if \<not> topo_discovery_complete topology
          then result\<lparr>restr_status := restr_invalid_topology,
                      restr_reason := ''CPU topology discovery is incomplete''\<rparr>
          else if allowed_logical_cpus = []
          then result\<lparr>restr_status := restr_empty_cpu_set,
                      restr_reason := ''allowed logical CPU set is empty''\<rparr>
          else if copy_throws
          then result\<lparr>restr_status := restr_resource_exhausted,
                      restr_reason := ''topology restriction exhausted process resources''\<rparr>
          else let allowed = sort allowed_logical_cpus in
            if adjacent_equal allowed
            then result\<lparr>restr_status := restr_duplicate_cpu_id,
                        restr_reason := ''allowed logical CPU set contains duplicate IDs''\<rparr>
            else if list_ex (\<lambda>cpu. \<not> cpu_available topology cpu) allowed
            then result\<lparr>restr_status := restr_unavailable_cpu_id,
                        restr_reason := ''allowed logical CPU set references an unavailable ID''\<rparr>
            else if build_throws
            then result\<lparr>restr_status := restr_resource_exhausted,
                        restr_reason := ''topology restriction exhausted process resources''\<rparr>
            else let restricted = restricted_topology topology allowed in
              case validate_cpu_topology_v1 restricted of
                Some why \<Rightarrow> result\<lparr>restr_status := restr_invalid_topology, restr_reason := why\<rparr>
              | None \<Rightarrow>
                  result\<lparr>restr_status := restr_selected, restr_topology := restricted,
                         restr_reason := ''topology restricted to the allowed logical CPU set''\<rparr>)"

fun to_string_restriction_status :: "CpuTopologyRestrictionStatusV1 \<Rightarrow> string" where
  "to_string_restriction_status restr_selected = ''selected''"
| "to_string_restriction_status restr_invalid_topology = ''invalid-topology''"
| "to_string_restriction_status restr_empty_cpu_set = ''empty-cpu-set''"
| "to_string_restriction_status restr_duplicate_cpu_id = ''duplicate-cpu-id''"
| "to_string_restriction_status restr_unavailable_cpu_id = ''unavailable-cpu-id''"
| "to_string_restriction_status restr_resource_exhausted = ''resource-exhausted''"
| "to_string_restriction_status (restr_other _) = ''invalid''"

section \<open>Intersections and sibling counts\<close>

lemma set_intersection_filter:
  "sorted_wrt (<) xs \<Longrightarrow> sorted_wrt (<) ys \<Longrightarrow> set_intersection xs ys = filter (\<lambda>x. x \<in> set ys) xs"
proof (induction xs ys rule: set_intersection.induct)
  case (1 x xs y ys)
  consider "x < y" | "y < x" | "x = y" by (rule linorder_cases)
  then show ?case
  proof cases
    case 1
    then have "x \<notin> set (y # ys)" using "1.prems" by auto
    then show ?thesis using 1 "1.IH"(1) "1.prems" by auto
  next
    case 2
    then have "\<forall>z \<in> set (x # xs). z \<noteq> y" using "1.prems" by auto
    then have "filter (\<lambda>z. z \<in> set (y # ys)) (x # xs) = filter (\<lambda>z. z \<in> set ys) (x # xs)"
      by (intro filter_cong) auto
    then show ?thesis using 2 "1.IH"(2) "1.prems" by auto
  next
    case 3
    then have "\<forall>z \<in> set xs. z \<noteq> y" using "1.prems" by auto
    then have "filter (\<lambda>z. z \<in> set (y # ys)) xs = filter (\<lambda>z. z \<in> set ys) xs"
      by (intro filter_cong) auto
    then show ?thesis using 3 "1.IH"(3) "1.prems" by auto
  qed
qed simp_all

lemma fold_count:
  "fold (\<lambda>q n. if P q then n + 1 else n) ps (n :: u32) = n + of_nat (length (filter P ps))"
  by (induction ps arbitrary: n) (simp_all add: ac_simps)

definition lower_siblings :: "CpuLogicalProcessorV1 list \<Rightarrow> CpuLogicalProcessorV1 \<Rightarrow> CpuLogicalProcessorV1 list" where
  "lower_siblings ps p = filter (\<lambda>q. same_core p q \<and> lp_logical_cpu q < lp_logical_cpu p) ps"

lemma sibling_index_count: "sibling_index ps p = of_nat (length (lower_siblings ps p))"
  by (simp add: sibling_index_def lower_siblings_def fold_count)

lemma length_below: "distinct xs \<Longrightarrow> \<forall>x \<in> set xs. x < (c::u32) \<Longrightarrow> length xs \<le> unat c"
proof -
  assume d: "distinct xs" and below: "\<forall>x \<in> set xs. x < c"
  have "distinct (map unat xs)" using d by (simp add: distinct_map inj_on_def word_unat_eq_iff)
  then have "length xs = card (set (map unat xs))" by (metis distinct_card length_map)
  also have "\<dots> \<le> card {..< unat c}"
    using below by (intro card_mono) (auto simp: word_less_nat_alt)
  finally show ?thesis by simp
qed

lemma lower_siblings_bound:
  assumes "sorted_wrt (<) (map lp_logical_cpu ps)"
  shows "length (lower_siblings ps p) \<le> unat (lp_logical_cpu p)"
proof -
  have "distinct (map lp_logical_cpu ps)" using assms by (simp add: strict_sorted_iff)
  then have "distinct (map lp_logical_cpu (lower_siblings ps p))"
    unfolding lower_siblings_def by (rule distinct_map_filter)
  from length_below [OF this, of "lp_logical_cpu p"] show ?thesis
    by (simp add: lower_siblings_def)
qed

lemma unat_sibling_index:
  assumes "sorted_wrt (<) (map lp_logical_cpu ps)"
  shows "unat (sibling_index ps p) = length (lower_siblings ps p)"
proof -
  have "length (lower_siblings ps p) < 4294967296"
    using lower_siblings_bound [OF assms, of p] unat_lt32 [of "lp_logical_cpu p"] by (simp del: unat_lt32)
  then show ?thesis by (simp add: sibling_index_count unat_of_nat32)
qed

lemma sibling_index_known:
  assumes "sorted_wrt (<) (map lp_logical_cpu ps)" "lp_logical_cpu p \<noteq> kUnknownTopologyIdV1"
  shows "sibling_index ps p \<noteq> kUnknownTopologyIdV1"
proof
  assume "sibling_index ps p = kUnknownTopologyIdV1"
  then have "length (lower_siblings ps p) = 4294967295"
    using unat_sibling_index [OF assms(1), of p] by (simp add: kUnknownTopologyIdV1_def)
  then show False
    using lower_siblings_bound [OF assms(1), of p] unat_succ32(1) [of "lp_logical_cpu p"] assms(2)
    by (simp add: kUnknownTopologyIdV1_def)
qed

lemma reindex_fields [simp]:
  "map lp_logical_cpu (reindex_threads ps) = map lp_logical_cpu ps"
  "lp_logical_cpu ` set (reindex_threads ps) = lp_logical_cpu ` set ps"
  "reindex_threads ps = [] \<longleftrightarrow> ps = []"
  by (simp_all add: reindex_threads_def image_image)

text \<open>Within one core the indices count up from zero: different threads have different ones, and
  the lowest-numbered CPU has index zero.\<close>

lemma sibling_index_less:
  assumes "sorted_wrt (<) (map lp_logical_cpu ps)" "p \<in> set ps" "same_core q p"
    "lp_logical_cpu p < lp_logical_cpu q"
  shows "sibling_index ps p < sibling_index ps q"
proof -
  let ?P = "\<lambda>r. same_core p r \<and> lp_logical_cpu r < lp_logical_cpu p"
  let ?Q = "\<lambda>r. same_core q r \<and> lp_logical_cpu r < lp_logical_cpu q"
  have "lower_siblings ps p = filter ?P (lower_siblings ps q)"
    using assms(3,4) by (auto simp: lower_siblings_def same_core_def intro!: filter_cong)
  moreover have "p \<in> set (lower_siblings ps q)"
    using assms(2-4) by (simp add: lower_siblings_def)
  moreover have "\<not> ?P p" by simp
  ultimately have "length (lower_siblings ps p) < length (lower_siblings ps q)"
    by (metis length_filter_less)
  then show ?thesis
    by (simp add: word_less_nat_alt unat_sibling_index [OF assms(1)])
qed

lemma sibling_index_inject:
  assumes "sorted_wrt (<) (map lp_logical_cpu ps)" "p \<in> set ps" "q \<in> set ps" "same_core p q"
    "sibling_index ps p = sibling_index ps q"
  shows "p = q"
proof -
  have "same_core q p" using assms(4) by (simp add: same_core_def)
  then have "lp_logical_cpu p = lp_logical_cpu q"
    using sibling_index_less [OF assms(1), of p q] sibling_index_less [OF assms(1), of q p] assms
    by (metis less_irrefl linorder_cases)
  then show ?thesis using processors.key_unique [OF assms(1)] assms(2,3) by blast
qed

lemma primary_thread_exists:
  assumes "sorted_wrt (<) (map lp_logical_cpu ps)" "p \<in> set ps"
  shows "\<exists>q \<in> set ps. same_core p q \<and> sibling_index ps q = 0"
proof -
  define S where "S = {q \<in> set ps. same_core p q}"
  have "finite S" "p \<in> S" using assms(2) by (auto simp: S_def same_core_def)
  then have "lp_logical_cpu ` S \<noteq> {}" "finite (lp_logical_cpu ` S)" by auto
  then have "Min (lp_logical_cpu ` S) \<in> lp_logical_cpu ` S" by (rule Min_in [rotated])
  then obtain q where q: "q \<in> S" "lp_logical_cpu q = Min (lp_logical_cpu ` S)" by auto
  have "lower_siblings ps q = []"
  proof (rule ccontr)
    assume "lower_siblings ps q \<noteq> []"
    then obtain r where "r \<in> set (lower_siblings ps q)" by (meson list.set_sel(1))
    then have "r \<in> S" "lp_logical_cpu r < lp_logical_cpu q"
      using q(1) by (auto simp: lower_siblings_def S_def same_core_def)
    then show False
      using q(2) \<open>finite (lp_logical_cpu ` S)\<close> by (metis Min_le image_eqI leD)
  qed
  then show ?thesis using q(1) by (auto simp: S_def sibling_index_count)
qed

section \<open>The projection\<close>

text \<open>What a caller passes: a complete valid topology and a duplicate-free subset of its CPUs.\<close>

definition mask_ok :: "CpuTopologyV1 \<Rightarrow> u32 list \<Rightarrow> bool" where
  "mask_ok t allowed \<longleftrightarrow>
     topology_ok t \<and> topo_discovery_complete t \<and> allowed \<noteq> [] \<and> sorted_wrt (<) allowed \<and>
     set allowed \<subseteq> lp_logical_cpu ` set (topo_logical_processors t)"

lemma mask_ascending:
  assumes "mask_ok t allowed"
  shows "sorted_wrt (<) allowed"
    "sorted_wrt (<) (map lp_logical_cpu (topo_logical_processors t))"
    "sorted_wrt (<) (map nn_node_id (topo_numa_nodes t))"
  using assms by (simp_all add: mask_ok_def topology_ok_def Let_def)

abbreviation kept_processors :: "CpuTopologyV1 \<Rightarrow> u32 list \<Rightarrow> CpuLogicalProcessorV1 list" where
  "kept_processors t allowed \<equiv>
     filter (\<lambda>p. lp_logical_cpu p \<in> set allowed) (topo_logical_processors t)"

lemma restricted_processors:
  assumes "mask_ok t allowed"
  shows "topo_logical_processors (restricted_topology t allowed) =
      reindex_threads (kept_processors t allowed)"
    "map lp_logical_cpu (topo_logical_processors (restricted_topology t allowed)) = allowed"
proof -
  note asc = mask_ascending [OF assms]
  show procs: "topo_logical_processors (restricted_topology t allowed) =
      reindex_threads (kept_processors t allowed)"
    using asc(1) by (simp add: restricted_topology_def default_topology_def contains_cpu_iff)
  have "sorted_wrt (<) (map lp_logical_cpu (kept_processors t allowed))"
    by (rule processors.sorted_filter [OF asc(2)])
  moreover have "set (map lp_logical_cpu (kept_processors t allowed)) = set allowed"
    using assms by (auto simp: mask_ok_def)
  ultimately have "map lp_logical_cpu (kept_processors t allowed) = allowed"
    using asc(1) by (simp add: strict_sorted_equal)
  then show "map lp_logical_cpu (topo_logical_processors (restricted_topology t allowed)) = allowed"
    by (simp only: procs reindex_fields)
qed

lemma restrict_nodes_filter:
  assumes "sorted_wrt (<) allowed" "\<forall>n \<in> set ns. sorted_wrt (<) (nn_logical_cpus n)"
  shows "restrict_nodes allowed ns =
    filter (\<lambda>n. nn_logical_cpus n \<noteq> [])
      (map (\<lambda>n. n\<lparr>nn_logical_cpus := filter (\<lambda>cpu. cpu \<in> set allowed) (nn_logical_cpus n)\<rparr>) ns)"
  using assms unfolding restrict_nodes_def
  by (intro arg_cong [of _ _ "filter _"] map_cong) (simp_all add: set_intersection_filter)

lemma restrict_caches_set:
  assumes "sorted_wrt (<) allowed" "\<forall>c \<in> set cs. sorted_wrt (<) (cg_shared_logical_cpus c)"
  shows "set (restrict_caches allowed cs) =
    {c\<lparr>cg_shared_logical_cpus := filter (\<lambda>cpu. cpu \<in> set allowed) (cg_shared_logical_cpus c)\<rparr> | c.
       c \<in> set cs \<and> set (cg_shared_logical_cpus c) \<inter> set allowed \<noteq> {}}"
proof -
  let ?f = "\<lambda>c. c\<lparr>cg_shared_logical_cpus := filter (\<lambda>cpu. cpu \<in> set allowed) (cg_shared_logical_cpus c)\<rparr>"
  have "map (\<lambda>c. c\<lparr>cg_shared_logical_cpus := set_intersection (cg_shared_logical_cpus c) allowed\<rparr>) cs =
      map ?f cs"
    using assms by (intro map_cong) (simp_all add: set_intersection_filter)
  then have "set (restrict_caches allowed cs) = {c \<in> ?f ` set cs. cg_shared_logical_cpus c \<noteq> []}"
    by (simp add: restrict_caches_def)
  also have "\<dots> = {?f c | c. c \<in> set cs \<and> set (cg_shared_logical_cpus c) \<inter> set allowed \<noteq> {}}"
  proof -
    have key: "cg_shared_logical_cpus (?f c) \<noteq> [] \<longleftrightarrow> set (cg_shared_logical_cpus c) \<inter> set allowed \<noteq> {}" for c
      by (auto simp: filter_empty_conv)
    show ?thesis
    proof (intro set_eqI iffI)
      fix x assume "x \<in> {c \<in> ?f ` set cs. cg_shared_logical_cpus c \<noteq> []}"
      then obtain c where "c \<in> set cs" "x = ?f c" "cg_shared_logical_cpus (?f c) \<noteq> []" by blast
      then show "x \<in> {?f c | c. c \<in> set cs \<and> set (cg_shared_logical_cpus c) \<inter> set allowed \<noteq> {}}"
        using key by blast
    next
      fix x assume "x \<in> {?f c | c. c \<in> set cs \<and> set (cg_shared_logical_cpus c) \<inter> set allowed \<noteq> {}}"
      then obtain c where "c \<in> set cs" "x = ?f c" "set (cg_shared_logical_cpus c) \<inter> set allowed \<noteq> {}"
        by blast
      then show "x \<in> {c \<in> ?f ` set cs. cg_shared_logical_cpus c \<noteq> []}"
        using key by blast
    qed
  qed
  finally show ?thesis .
qed

lemma restricted_nodes_ascending:
  "sorted_wrt (<) (map nn_node_id ns) \<Longrightarrow> sorted_wrt (<) (map nn_node_id (restrict_nodes allowed ns))"
proof -
  assume "sorted_wrt (<) (map nn_node_id ns)"
  then have "sorted_wrt (<) (map nn_node_id
      (map (\<lambda>n. n\<lparr>nn_logical_cpus := set_intersection (nn_logical_cpus n) allowed\<rparr>) ns))"
    by (simp add: comp_def)
  then show ?thesis unfolding restrict_nodes_def by (rule nodes.sorted_filter)
qed

lemma restricted_topology_ok:
  assumes mask: "mask_ok t allowed"
    and cache: "\<exists>c \<in> set (topo_cache_groups t). set (cg_shared_logical_cpus c) \<inter> set allowed \<noteq> {}"
  shows "topology_ok (restricted_topology t allowed)"
proof -
  let ?r = "restricted_topology t allowed"
  note asc = mask_ascending [OF mask] and procs = restricted_processors [OF mask]
  have ok: "topology_ok t" "topo_discovery_complete t" "allowed \<noteq> []" using mask by (simp_all add: mask_ok_def)
  note t = ok(1) [unfolded topology_ok_def Let_def]
  have nodes: "topo_numa_nodes ?r = filter (\<lambda>n. nn_logical_cpus n \<noteq> [])
      (map (\<lambda>n. n\<lparr>nn_logical_cpus := filter (\<lambda>cpu. cpu \<in> set allowed) (nn_logical_cpus n)\<rparr>)
        (topo_numa_nodes t))"
    using t asc(1)
    by (simp add: restricted_topology_def default_topology_def restrict_nodes_filter node_ok_def)
  have caches: "set (topo_cache_groups ?r) =
    {c\<lparr>cg_shared_logical_cpus := filter (\<lambda>cpu. cpu \<in> set allowed) (cg_shared_logical_cpus c)\<rparr> | c.
       c \<in> set (topo_cache_groups t) \<and> set (cg_shared_logical_cpus c) \<inter> set allowed \<noteq> {}}"
    using t asc(1)
    by (simp add: restricted_topology_def default_topology_def restrict_caches_set cache_ok_def)
  have cpus: "lp_logical_cpu ` set (topo_logical_processors ?r) = set allowed"
    using arg_cong [OF procs(2), of set] by (simp only: set_map)
  have same: "\<exists>q \<in> set (topo_logical_processors ?r). lp_logical_cpu q = lp_logical_cpu p \<and>
      lp_numa_node_id q = lp_numa_node_id p"
    if "p \<in> set (topo_logical_processors t)" "lp_logical_cpu p \<in> set allowed" for p
    using that by (force simp: procs(1) reindex_threads_def)
  have kept: "\<exists>q \<in> set (topo_logical_processors t). lp_logical_cpu q = lp_logical_cpu p \<and>
      lp_numa_node_id q = lp_numa_node_id p \<and> lp_core_id q = lp_core_id p \<and>
      lp_package_id q = lp_package_id p \<and> lp_online q = lp_online p \<and> lp_logical_cpu q \<in> set allowed"
    if "p \<in> set (topo_logical_processors ?r)" for p
    using that by (auto simp: procs(1) reindex_threads_def)
  have p_ok: "\<forall>p \<in> set (topo_logical_processors ?r). processor_ok True p"
  proof
    fix p assume p: "p \<in> set (topo_logical_processors ?r)"
    then obtain q where q: "q \<in> set (kept_processors t allowed)"
      "p = q\<lparr>lp_thread_index := sibling_index (kept_processors t allowed) q\<rparr>"
      by (auto simp: procs(1) reindex_threads_def)
    then have "processor_ok True q" using t ok(2) by auto
    moreover from this have "sibling_index (kept_processors t allowed) q \<noteq> kUnknownTopologyIdV1"
      by (intro sibling_index_known processors.sorted_filter [OF asc(2)]) (simp add: processor_ok_def)
    ultimately show "processor_ok True p" using q(2) by (simp add: processor_ok_def)
  qed
  have n_ok: "\<forall>n \<in> set (topo_numa_nodes ?r). node_ok (topo_logical_processors ?r) n"
  proof
    fix n assume "n \<in> set (topo_numa_nodes ?r)"
    then obtain m where m: "m \<in> set (topo_numa_nodes t)"
      "n = m\<lparr>nn_logical_cpus := filter (\<lambda>cpu. cpu \<in> set allowed) (nn_logical_cpus m)\<rparr>"
      by (auto simp: nodes)
    then have "node_ok (topo_logical_processors t) m" using t by blast
    then show "node_ok (topo_logical_processors ?r) n"
      using same by (force simp: node_ok_def m(2) sorted_wrt_filter)
  qed
  have refs: "\<forall>p \<in> set (topo_logical_processors ?r). \<exists>n \<in> set (topo_numa_nodes ?r).
      nn_node_id n = lp_numa_node_id p \<and> lp_logical_cpu p \<in> set (nn_logical_cpus n)"
  proof
    fix p assume "p \<in> set (topo_logical_processors ?r)"
    then obtain q where q: "q \<in> set (topo_logical_processors t)" "lp_logical_cpu q = lp_logical_cpu p"
      "lp_numa_node_id q = lp_numa_node_id p" "lp_logical_cpu q \<in> set allowed"
      using kept by blast
    then have "lp_numa_node_id q \<noteq> kUnknownTopologyIdV1"
      using t ok(2) by (auto simp: processor_ok_def)
    then obtain m where m: "m \<in> set (topo_numa_nodes t)" "nn_node_id m = lp_numa_node_id q"
      "lp_logical_cpu q \<in> set (nn_logical_cpus m)" using t q(1) by blast
    let ?n = "m\<lparr>nn_logical_cpus := filter (\<lambda>cpu. cpu \<in> set allowed) (nn_logical_cpus m)\<rparr>"
    have "?n \<in> set (topo_numa_nodes ?r)"
      using m q(4) by (force simp: nodes filter_empty_conv)
    then show "\<exists>n \<in> set (topo_numa_nodes ?r).
        nn_node_id n = lp_numa_node_id p \<and> lp_logical_cpu p \<in> set (nn_logical_cpus n)"
      using m q by (intro bexI [of _ ?n]) simp_all
  qed
  have c_ok: "\<forall>c \<in> set (topo_cache_groups ?r). cache_ok (topo_logical_processors ?r) c"
    using t cpus by (auto simp: caches cache_ok_def sorted_wrt_filter filter_empty_conv)
  have nonempty: "topo_logical_processors ?r \<noteq> []" "topo_cache_groups ?r \<noteq> []"
    using cpus ok(3) caches cache by (auto simp del: set_empty simp flip: set_empty)
  then have "topo_numa_nodes ?r \<noteq> []"
    using refs by (cases "topo_logical_processors ?r") auto
  moreover have "topo_version ?r = 1" "topo_architecture ?r = topo_architecture t"
    "topo_discovery_complete ?r"
    "sorted_wrt (<) (map nn_node_id (topo_numa_nodes ?r))"
    using restricted_nodes_ascending [OF asc(3)]
    by (simp_all add: restricted_topology_def default_topology_def)
  ultimately show ?thesis
    using t p_ok n_ok refs c_ok nonempty procs(2) asc(1) ok(2)
    by (simp add: topology_ok_def Let_def)
qed

section \<open>Properties\<close>

lemma sort_eq_Nil [simp]: "sort xs = [] \<longleftrightarrow> xs = []"
  by (metis set_empty set_sort)

lemma cpu_available_iff:
  assumes "topology_ok t" "topo_discovery_complete t"
  shows "cpu_available t cpu \<longleftrightarrow> cpu \<in> lp_logical_cpu ` set (topo_logical_processors t)"
proof -
  note t = assms(1) [unfolded topology_ok_def Let_def]
  then have asc: "sorted_wrt (<) (map lp_logical_cpu (topo_logical_processors t))" by blast
  show ?thesis
  proof (cases "find_processor (topo_logical_processors t) cpu")
    case None
    then show ?thesis using processors.find_None [OF asc, of cpu] by (simp add: cpu_available_def)
  next
    case (Some p)
    then have p: "p \<in> set (topo_logical_processors t)" "lp_logical_cpu p = cpu"
      using processors.find_Some [OF asc] by simp_all
    then have "lp_online p" using t assms(2) by (auto simp: processor_ok_def)
    then show ?thesis using Some p by (auto simp: cpu_available_def)
  qed
qed

lemma restrict_selected:
  "restr_status (restrict_cpu_topology_v1 a b t allowed) = restr_selected \<longleftrightarrow>
     \<not> a \<and> \<not> b \<and> mask_ok t (sort allowed) \<and> distinct allowed \<and>
     topology_ok (restricted_topology t (sort allowed))"
proof (cases "topology_ok t \<and> topo_discovery_complete t")
  case False
  then show ?thesis
    using validate_topology_iff [of t]
    by (auto simp: restrict_cpu_topology_v1_def Let_def default_restriction_def mask_ok_def
        split: option.split)
next
  case True
  then have v: "validate_cpu_topology_v1 t = None" by (simp add: validate_topology_iff)
  have avail: "list_ex (\<lambda>cpu. \<not> cpu_available t cpu) (sort allowed) \<longleftrightarrow>
      \<not> set allowed \<subseteq> lp_logical_cpu ` set (topo_logical_processors t)"
    using True by (auto simp: list_ex_iff cpu_available_iff)
  have r: "topology_ok (restricted_topology t (sort allowed)) \<longleftrightarrow>
      validate_cpu_topology_v1 (restricted_topology t (sort allowed)) = None"
    by (simp add: validate_topology_iff)
  show ?thesis
    using True avail
    by (auto simp: restrict_cpu_topology_v1_def Let_def default_restriction_def mask_ok_def v r
        adjacent_equal_sorted strict_sorted_iff split: option.split)
qed

lemma restrict_selected_topology:
  assumes "restr_status (restrict_cpu_topology_v1 a b t allowed) = restr_selected"
  shows "restr_topology (restrict_cpu_topology_v1 a b t allowed) = restricted_topology t (sort allowed)"
  using assms
  by (auto simp: restrict_cpu_topology_v1_def Let_def default_restriction_def split: option.splits if_splits)

text \<open>Every core of a projected topology has exactly one thread with index zero.\<close>

lemma restricted_primary:
  assumes mask: "mask_ok t allowed"
    and p: "p \<in> set (topo_logical_processors (restricted_topology t allowed))"
  shows "\<exists>!q. q \<in> set (topo_logical_processors (restricted_topology t allowed)) \<and>
       lp_package_id q = lp_package_id p \<and> lp_core_id q = lp_core_id p \<and> lp_thread_index q = 0"
proof -
  let ?k = "kept_processors t allowed"
  define r where "r = restricted_topology t allowed"
  have procs: "topo_logical_processors r = reindex_threads ?k"
    using restricted_processors [OF mask] by (simp_all only: r_def)
  have asc: "sorted_wrt (<) (map lp_logical_cpu ?k)"
    by (rule processors.sorted_filter [OF mask_ascending(2) [OF mask]])
  have "p \<in> set (topo_logical_processors r)" using p by (simp only: r_def)
  note p = this
  obtain p' where p': "p' \<in> set ?k" "p = p'\<lparr>lp_thread_index := sibling_index ?k p'\<rparr>"
    using p unfolding procs reindex_threads_def set_map by blast
  obtain q where q: "q \<in> set ?k" "same_core p' q" "sibling_index ?k q = 0"
    using primary_thread_exists [OF asc p'(1)] by blast
  show ?thesis unfolding r_def [symmetric]
  proof (rule ex1I [of _ "q\<lparr>lp_thread_index := sibling_index ?k q\<rparr>"])
    show "q\<lparr>lp_thread_index := sibling_index ?k q\<rparr> \<in> set (topo_logical_processors r) \<and>
      lp_package_id (q\<lparr>lp_thread_index := sibling_index ?k q\<rparr>) = lp_package_id p \<and>
      lp_core_id (q\<lparr>lp_thread_index := sibling_index ?k q\<rparr>) = lp_core_id p \<and>
      lp_thread_index (q\<lparr>lp_thread_index := sibling_index ?k q\<rparr>) = 0"
      using imageI [OF q(1), of "\<lambda>x. x\<lparr>lp_thread_index := sibling_index ?k x\<rparr>"] q p'(2)
      unfolding procs reindex_threads_def set_map same_core_def
      by simp
    fix s assume s: "s \<in> set (topo_logical_processors r) \<and>
      lp_package_id s = lp_package_id p \<and> lp_core_id s = lp_core_id p \<and> lp_thread_index s = 0"
    then obtain s' where s': "s' \<in> set ?k" "s = s'\<lparr>lp_thread_index := sibling_index ?k s'\<rparr>"
      unfolding procs reindex_threads_def set_map by blast
    have "same_core s' q" "sibling_index ?k s' = sibling_index ?k q"
      using s s'(2) p'(2) q by (auto simp: same_core_def)
    then have "s' = q" using sibling_index_inject [OF asc s'(1) q(1)] by blast
    then show "s = q\<lparr>lp_thread_index := sibling_index ?k q\<rparr>" using s'(2) by simp
  qed
qed

text \<open>Restricting a topology succeeds exactly when memory does not run out, the topology is valid
  and complete, the mask is not empty, has no duplicate, names only CPUs of the topology, and at
  least one of its CPUs has a cache group. In particular the second validation never refuses a
  projection for any other reason.\<close>

theorem restrict_succeeds_iff:
  "restr_status (restrict_cpu_topology_v1 copy_throws build_throws t allowed) = restr_selected \<longleftrightarrow>
    \<not> copy_throws \<and> \<not> build_throws \<and> validate_cpu_topology_v1 t = None \<and> topo_discovery_complete t \<and>
    allowed \<noteq> [] \<and> distinct allowed \<and>
    set allowed \<subseteq> lp_logical_cpu ` set (topo_logical_processors t) \<and>
    (\<exists>c. c \<in> set (topo_cache_groups t) \<and> set (cg_shared_logical_cpus c) \<inter> set allowed \<noteq> {})"
proof (cases "mask_ok t (sort allowed) \<and> distinct allowed")
  case False
  then show ?thesis
    by (auto simp: restrict_selected mask_ok_def validate_topology_iff strict_sorted_iff)
next
  case True
  have "(\<exists>c. c \<in> set (topo_cache_groups t) \<and> set (cg_shared_logical_cpus c) \<inter> set allowed \<noteq> {})"
    if "topology_ok (restricted_topology t (sort allowed))"
  proof -
    have "topo_cache_groups (restricted_topology t (sort allowed)) \<noteq> []"
      using that by (simp add: topology_ok_def Let_def restricted_topology_def)
    moreover have "\<forall>c \<in> set (topo_cache_groups t). sorted_wrt (<) (cg_shared_logical_cpus c)"
      using True by (simp add: mask_ok_def topology_ok_def Let_def cache_ok_def)
    ultimately show ?thesis
      using restrict_caches_set [OF mask_ascending(1), of t "sort allowed" "topo_cache_groups t"] True
      by (auto simp: restricted_topology_def default_topology_def simp flip: set_empty)
  qed
  moreover have "topology_ok (restricted_topology t (sort allowed))"
    if "\<exists>c. c \<in> set (topo_cache_groups t) \<and> set (cg_shared_logical_cpus c) \<inter> set allowed \<noteq> {}"
    using restricted_topology_ok [of t "sort allowed"] True that by auto
  ultimately show ?thesis
    using True by (auto simp: restrict_selected mask_ok_def validate_topology_iff)
qed

text \<open>C35: The projected topology is valid and complete, lists exactly the allowed CPUs in ascending
  order, keeps core, package and NUMA node of each, and gives every core exactly one thread with
  index zero, so that a policy that uses one thread per core still finds every allowed core.\<close>

theorem restrict_projection:
  assumes "restr_status (restrict_cpu_topology_v1 a b t allowed) = restr_selected"
    and "r = restr_topology (restrict_cpu_topology_v1 a b t allowed)"
  shows "validate_cpu_topology_v1 r = None \<and> topo_discovery_complete r \<and>
    map lp_logical_cpu (topo_logical_processors r) = sort allowed \<and>
    (\<forall>p \<in> set (topo_logical_processors r). \<exists>q \<in> set (topo_logical_processors t).
       p = q\<lparr>lp_thread_index := lp_thread_index p\<rparr>) \<and>
    (\<forall>p \<in> set (topo_logical_processors r). \<exists>!q. q \<in> set (topo_logical_processors r) \<and>
       lp_package_id q = lp_package_id p \<and> lp_core_id q = lp_core_id p \<and> lp_thread_index q = 0)"
proof -
  let ?k = "kept_processors t (sort allowed)"
  have r: "r = restricted_topology t (sort allowed)"
    using restrict_selected_topology [OF assms(1)] assms(2) by simp
  have mask: "mask_ok t (sort allowed)" and ok: "topology_ok r"
    using assms(1) by (simp_all add: restrict_selected r)
  have procs: "topo_logical_processors r = reindex_threads ?k"
    "map lp_logical_cpu (topo_logical_processors r) = sort allowed"
    using restricted_processors [OF mask] by (simp_all only: r)
  have asc: "sorted_wrt (<) (map lp_logical_cpu ?k)"
    by (rule processors.sorted_filter [OF mask_ascending(2) [OF mask]])
  have origin: "\<exists>q \<in> set (topo_logical_processors t). p = q\<lparr>lp_thread_index := lp_thread_index p\<rparr>"
    if "p \<in> set (topo_logical_processors r)" for p
    using that by (auto simp: procs(1) reindex_threads_def)
  have primary: "\<exists>!q. q \<in> set (topo_logical_processors r) \<and>
       lp_package_id q = lp_package_id p \<and> lp_core_id q = lp_core_id p \<and> lp_thread_index q = 0"
    if "p \<in> set (topo_logical_processors r)" for p
    using restricted_primary [OF mask] that by (simp only: r)
  have "topo_discovery_complete r" by (simp add: r restricted_topology_def)
  then show ?thesis using ok procs(2) origin primary by (simp add: validate_topology_iff)
qed

theorem restrict_projection_witness:
  "map lp_logical_cpu (topo_logical_processors
     (restr_topology (restrict_cpu_topology_v1 False False example_topology [3, 2]))) = [2, 3]"
proof -
  have "restr_status (restrict_cpu_topology_v1 False False example_topology [3, 2]) = restr_selected"
    by code_simp
  moreover have "sort [3, 2] = [2, 3::u32]" by code_simp
  ultimately show ?thesis using restrict_projection [OF _ refl] by metis
qed

end
