(* ===== verification/Placement.thy ===== *)
theory Placement
  imports TopologyRestrict "HOL-Library.Multiset"
begin

text \<open>
  \<^verbatim>\<open>plan_cpu_placement_v1\<close> of \<^verbatim>\<open>platform/cpu_topology_v1.cpp\<close>: the choice of the CPUs that the workers
  of a parallel product run on. A plan filters the CPUs by NUMA node and SMT policy, orders them by
  affinity policy and takes the first ones. \<^verbatim>\<open>std::set\<close> is a set, \<^verbatim>\<open>std::map\<close> an association
  list in key order, the round-robin loop of the scatter policy a recursion with its own termination
  proof. The lemmas show that the orderings are permutations and what their first elements are.
\<close>

section \<open>Requests and plans\<close>

definition kCpuPlacementVersionV1 :: u32 where
  "kCpuPlacementVersionV1 = 1"

datatype CpuAffinityPolicyV1 = aff_compact | aff_scatter | aff_local_first | aff_other u8

datatype CpuSmtPolicyV1 =
  smt_physical_cores_only | smt_prefer_physical_cores | smt_allow_smt | smt_other u8

datatype CpuPlacementStatusV1 =
  pls_selected | pls_invalid_topology | pls_invalid_request | pls_insufficient_cpus
  | pls_cross_numa_disallowed | pls_other u8

record CpuPlacementRequestV1 =
  plr_version :: u32
  plr_requested_workers :: u32
  plr_affinity :: CpuAffinityPolicyV1
  plr_smt :: CpuSmtPolicyV1
  plr_preferred_numa_node :: u32
  plr_allow_cross_numa :: bool

record CpuPlacementPlanV1 =
  plp_version :: u32
  plp_status :: CpuPlacementStatusV1
  plp_requested_workers :: u32
  plp_actual_workers :: u32
  plp_affinity :: CpuAffinityPolicyV1
  plp_smt :: CpuSmtPolicyV1
  plp_logical_cpus :: "u32 list"
  plp_numa_nodes :: "u32 list"
  plp_crosses_numa_nodes :: bool
  plp_affinity_application_required :: bool
  plp_caller_first_touch_required :: bool
  plp_reason :: string

definition default_placement_request :: CpuPlacementRequestV1 where
  "default_placement_request =
     \<lparr>plr_version = kCpuPlacementVersionV1, plr_requested_workers = 1, plr_affinity = aff_compact,
      plr_smt = smt_prefer_physical_cores, plr_preferred_numa_node = kUnknownTopologyIdV1,
      plr_allow_cross_numa = False\<rparr>"

definition default_placement_plan :: CpuPlacementPlanV1 where
  "default_placement_plan =
     \<lparr>plp_version = kCpuPlacementVersionV1, plp_status = pls_invalid_request,
      plp_requested_workers = 0, plp_actual_workers = 0, plp_affinity = aff_compact,
      plp_smt = smt_prefer_physical_cores, plp_logical_cpus = [], plp_numa_nodes = [],
      plp_crosses_numa_nodes = False, plp_affinity_application_required = False,
      plp_caller_first_touch_required = False, plp_reason = []\<rparr>"

fun known_affinity :: "CpuAffinityPolicyV1 \<Rightarrow> bool" where
  "known_affinity aff_compact = True"
| "known_affinity aff_scatter = True"
| "known_affinity aff_local_first = True"
| "known_affinity (aff_other _) = False"

fun known_smt :: "CpuSmtPolicyV1 \<Rightarrow> bool" where
  "known_smt smt_physical_cores_only = True"
| "known_smt smt_prefer_physical_cores = True"
| "known_smt smt_allow_smt = True"
| "known_smt (smt_other _) = False"

section \<open>Candidates\<close>

text \<open>The \<^verbatim>\<open>std::tie\<close> order of candidates.\<close>

definition candidate_key :: "CpuLogicalProcessorV1 \<Rightarrow> u32 \<times> u32 \<times> u32 \<times> u32 \<times> u32" where
  "candidate_key p =
     (lp_numa_node_id p, lp_package_id p, lp_core_id p, lp_thread_index p, lp_logical_cpu p)"

definition eligible :: "CpuSmtPolicyV1 \<Rightarrow> u32 set \<Rightarrow> CpuLogicalProcessorV1 \<Rightarrow> bool" where
  "eligible smt allowed_nodes p \<longleftrightarrow>
     \<not> (\<not> lp_online p \<or> lp_numa_node_id p \<notin> allowed_nodes) \<and>
     \<not> (smt = smt_physical_cores_only \<and> lp_thread_index p \<noteq> 0)"

definition topology_candidates ::
  "CpuTopologyV1 \<Rightarrow> CpuSmtPolicyV1 \<Rightarrow> u32 set \<Rightarrow> CpuLogicalProcessorV1 list" where
  "topology_candidates topology smt allowed_nodes =
     (let base = sort_key candidate_key
            (filter (eligible smt allowed_nodes) (topo_logical_processors topology))
      in if smt \<noteq> smt_prefer_physical_cores then base
         else sort_key (\<lambda>p. lp_thread_index p \<noteq> 0) base)"

text \<open>The buckets of the scatter policy, in the order of their keys.\<close>

type_synonym buckets = "((u32 \<times> u32) \<times> CpuLogicalProcessorV1 list) list"

definition bucket_key :: "CpuLogicalProcessorV1 \<Rightarrow> u32 \<times> u32" where
  "bucket_key p = (lp_numa_node_id p, lp_package_id p)"

fun bucket_push :: "CpuLogicalProcessorV1 \<Rightarrow> buckets \<Rightarrow> buckets" where
  "bucket_push p [] = [(bucket_key p, [p])]"
| "bucket_push p ((k, b) # bs) =
     (if bucket_key p < k then (bucket_key p, [p]) # (k, b) # bs
      else if k = bucket_key p then (k, b @ [p]) # bs
      else (k, b) # bucket_push p bs)"

definition fill_buckets :: "CpuLogicalProcessorV1 list \<Rightarrow> buckets" where
  "fill_buckets input = fold bucket_push input []"

text \<open>One pass over the buckets: the elements at a position, from every bucket that reaches it.\<close>

definition scatter_row :: "buckets \<Rightarrow> nat \<Rightarrow> CpuLogicalProcessorV1 list" where
  "scatter_row bs position =
     map (\<lambda>(k, b). b ! position) (filter (\<lambda>(k, b). position < length b) bs)"

function scatter_loop ::
  "buckets \<Rightarrow> nat \<Rightarrow> nat \<Rightarrow> CpuLogicalProcessorV1 list \<Rightarrow> CpuLogicalProcessorV1 list" where
  "scatter_loop bs goal position output =
     (if length output < goal
      then (let row = scatter_row bs position in
            if row = [] then output else scatter_loop bs goal (position + 1) (output @ row))
      else output)"
  by pat_completeness auto
termination
  by (relation "measure (\<lambda>(bs, goal, position, output). goal - length output)")
    (auto simp: diff_less_mono2 simp flip: length_greater_0_conv)

declare scatter_loop.simps [simp del]

definition scatter_candidates :: "CpuLogicalProcessorV1 list \<Rightarrow> CpuLogicalProcessorV1 list" where
  "scatter_candidates input = scatter_loop (fill_buckets input) (length input) 0 []"

section \<open>Planning\<close>

definition all_nodes :: "CpuTopologyV1 \<Rightarrow> u32 set" where
  "all_nodes topology = set (map nn_node_id (topo_numa_nodes topology))"

definition allowed_nodes :: "CpuTopologyV1 \<Rightarrow> CpuPlacementRequestV1 \<Rightarrow> u32 set" where
  "allowed_nodes topology request =
     (if plr_allow_cross_numa request then all_nodes topology
      else if plr_preferred_numa_node request \<noteq> kUnknownTopologyIdV1
      then {plr_preferred_numa_node request}
      else if all_nodes topology \<noteq> {} then {Min (all_nodes topology)}
      else {})"

definition ordered_candidates ::
  "CpuTopologyV1 \<Rightarrow> CpuPlacementRequestV1 \<Rightarrow> CpuLogicalProcessorV1 list" where
  "ordered_candidates topology request =
     (let candidates =
        topology_candidates topology (plr_smt request) (allowed_nodes topology request)
      in if plr_affinity request = aff_local_first \<and> plr_allow_cross_numa request
         then sort_key (\<lambda>p. lp_numa_node_id p \<noteq> plr_preferred_numa_node request) candidates
         else if plr_affinity request = aff_scatter then scatter_candidates candidates
         else candidates)"

definition plan_cpu_placement_v1 ::
  "CpuTopologyV1 \<Rightarrow> CpuPlacementRequestV1 \<Rightarrow> CpuPlacementPlanV1" where
  "plan_cpu_placement_v1 topology request =
     (let plan = default_placement_plan\<lparr>plp_requested_workers := plr_requested_workers request,
            plp_affinity := plr_affinity request, plp_smt := plr_smt request\<rparr>;
          invalid = plan\<lparr>plp_status := pls_invalid_topology\<rparr>;
          refused = plan\<lparr>plp_status := pls_invalid_request\<rparr>
      in case validate_cpu_topology_v1 topology of
           Some why \<Rightarrow> invalid\<lparr>plp_reason := why\<rparr>
         | None \<Rightarrow>
             if \<not> topo_discovery_complete topology
             then invalid\<lparr>plp_reason := ''CPU topology discovery is incomplete''\<rparr>
             else if plr_version request \<noteq> kCpuPlacementVersionV1 \<or>
               plr_requested_workers request = 0 \<or> \<not> known_affinity (plr_affinity request) \<or>
               \<not> known_smt (plr_smt request)
             then refused\<lparr>plp_reason := ''CPU placement request is invalid or unsupported''\<rparr>
             else if plr_preferred_numa_node request \<noteq> kUnknownTopologyIdV1 \<and>
               plr_preferred_numa_node request \<notin> all_nodes topology
             then refused\<lparr>plp_reason := ''preferred NUMA node is absent from the topology''\<rparr>
             else if plr_affinity request = aff_local_first \<and>
               plr_preferred_numa_node request = kUnknownTopologyIdV1
             then refused\<lparr>plp_reason :=
                    ''local-first placement requires an explicit NUMA node''\<rparr>
             else let candidates = ordered_candidates topology request;
                      requested = unat (plr_requested_workers request) in
               if length candidates < requested
               then if \<not> plr_allow_cross_numa request \<and>
                      card (all_nodes topology) > card (allowed_nodes topology request) \<and>
                      length (topology_candidates topology (plr_smt request) (all_nodes topology))
                        \<ge> requested
                    then plan\<lparr>plp_status := pls_cross_numa_disallowed,
                              plp_reason := ''requested workers require explicit cross-NUMA authorization''\<rparr>
                    else plan\<lparr>plp_status := pls_insufficient_cpus,
                              plp_reason := ''topology has insufficient legal CPUs for requested workers''\<rparr>
               else let chosen = take requested candidates;
                        nodes = remdups_adj (sort (map lp_numa_node_id chosen)) in
                 plan\<lparr>plp_logical_cpus := map lp_logical_cpu chosen,
                      plp_numa_nodes := nodes,
                      plp_status := pls_selected,
                      plp_actual_workers := plr_requested_workers request,
                      plp_crosses_numa_nodes := length nodes > 1,
                      plp_affinity_application_required := True,
                      plp_caller_first_touch_required := plr_requested_workers request > 1,
                      plp_reason := ''selected deterministic placement; affinity and first-touch remain caller-owned''\<rparr>)"

section \<open>Printing\<close>

fun to_string_affinity :: "CpuAffinityPolicyV1 \<Rightarrow> string" where
  "to_string_affinity aff_compact = ''compact''"
| "to_string_affinity aff_scatter = ''scatter''"
| "to_string_affinity aff_local_first = ''local-first''"
| "to_string_affinity (aff_other _) = ''invalid''"

fun to_string_smt :: "CpuSmtPolicyV1 \<Rightarrow> string" where
  "to_string_smt smt_physical_cores_only = ''physical-cores-only''"
| "to_string_smt smt_prefer_physical_cores = ''prefer-physical-cores''"
| "to_string_smt smt_allow_smt = ''allow-smt''"
| "to_string_smt (smt_other _) = ''invalid''"

fun to_string_placement_status :: "CpuPlacementStatusV1 \<Rightarrow> string" where
  "to_string_placement_status pls_selected = ''selected''"
| "to_string_placement_status pls_invalid_topology = ''invalid-topology''"
| "to_string_placement_status pls_invalid_request = ''invalid-request''"
| "to_string_placement_status pls_insufficient_cpus = ''insufficient-cpus''"
| "to_string_placement_status pls_cross_numa_disallowed = ''cross-numa-disallowed''"
| "to_string_placement_status (pls_other _) = ''invalid''"

definition format_cpu_placement_v1 :: "CpuPlacementPlanV1 \<Rightarrow> string" where
  "format_cpu_placement_v1 plan =
     ''cpu-placement-v1{version='' @ decimal (unat (plp_version plan)) @
     '',status='' @ to_string_placement_status (plp_status plan) @
     '',requested='' @ decimal (unat (plp_requested_workers plan)) @
     '',actual='' @ decimal (unat (plp_actual_workers plan)) @
     '',affinity='' @ to_string_affinity (plp_affinity plan) @
     '',smt='' @ to_string_smt (plp_smt plan) @
     '',cross-numa='' @ (if plp_crosses_numa_nodes plan then ''yes'' else ''no'') @
     '',affinity-application='' @ (if plp_affinity_application_required plan then ''caller'' else ''none'') @
     '',first-touch='' @ (if plp_caller_first_touch_required plan then ''caller'' else ''not-required'') @
     '',cpus=['' @ comma_joined (map (\<lambda>c. decimal (unat c)) (plp_logical_cpus plan)) @
     ''],nodes=['' @ comma_joined (map (\<lambda>c. decimal (unat c)) (plp_numa_nodes plan)) @
     ''],reason='' @ plp_reason plan @ ''}''"

section \<open>Arrangements\<close>

text \<open>The contract of every reordering of candidates: nothing is lost, invented or repeated.\<close>

locale arrangement =
  fixes arrange :: "CpuLogicalProcessorV1 list \<Rightarrow> CpuLogicalProcessorV1 list"
  assumes mset_arrange: "mset (arrange ps) = mset ps"
begin

lemma set_arrange: "set (arrange ps) = set ps"
  by (rule mset_eq_setD [OF mset_arrange])

lemma length_arrange: "length (arrange ps) = length ps"
  by (rule mset_eq_length [OF mset_arrange])

lemma distinct_arrange: "distinct (map f (arrange ps)) \<longleftrightarrow> distinct (map f ps)"
  by (metis mset_arrange mset_map mset_eq_imp_distinct_iff)

lemma take_arrange: "set (take n (arrange ps)) \<subseteq> set ps"
  using set_take_subset [of n "arrange ps"] by (simp add: set_arrange)

end

text \<open>A stable sort by a boolean key puts the elements with a false key first.\<close>

lemma sort_key_bool: "sort_key k xs = filter (\<lambda>x. \<not> k x) xs @ filter k xs"
proof (induction xs)
  case (Cons x xs)
  have front: "insort_key k x (ys @ zs) = x # ys @ zs"
    if "\<not> k x" for ys zs using that by (cases ys; cases zs) auto
  have behind: "insort_key k x (filter (\<lambda>y. \<not> k y) ys @ filter k zs) = filter (\<lambda>y. \<not> k y) ys @ x # filter k zs"
    if "k x" for ys zs
    using that by (induction ys) (auto simp: not_le, cases "filter k zs", auto simp: filter_eq_Cons_iff)
  show ?case using Cons front behind by (cases "k x") simp_all
qed simp

text \<open>The rows of the first passes hold the front parts of all buckets.\<close>

definition all_taken :: "nat \<Rightarrow> buckets \<Rightarrow> CpuLogicalProcessorV1 list" where
  "all_taken n bs = concat (map (\<lambda>(k, b). take n b) bs)"

lemma take_Suc_mset: "mset (take (Suc n) b) = mset (take n b) + (if n < length b then {#b ! n#} else {#})"
  by (simp add: take_Suc_conv_app_nth)

lemma scatter_row_mset: "mset (all_taken n bs @ scatter_row bs n) = mset (all_taken (Suc n) bs)"
  by (induction bs) (auto simp: all_taken_def scatter_row_def take_Suc_mset simp del: take_Suc)

lemma all_taken_submset: "mset (all_taken n bs) \<subseteq># mset (concat (map snd bs))"
proof (induction bs)
  case (Cons kb bs)
  have "mset (take n (snd kb)) \<subseteq># mset (snd kb)"
    by (metis append_take_drop_id mset_append mset_subset_eq_add_left)
  then show ?case
    using Cons by (auto simp: all_taken_def case_prod_beta intro: subset_mset.add_mono)
qed (simp add: all_taken_def)

lemma all_taken_all: "scatter_row bs n = [] \<Longrightarrow> all_taken n bs = concat (map snd bs)"
  by (induction bs) (auto simp: all_taken_def scatter_row_def split: if_splits)

lemma mset_full: "A \<subseteq># B \<Longrightarrow> size B \<le> size A \<Longrightarrow> A = B"
  by (metis mset_subset_size not_le subset_mset.le_neq_trans)

lemma scatter_loop_mset:
  assumes "goal = length (concat (map snd bs))" "mset out = mset (all_taken n bs)"
  shows "mset (scatter_loop bs goal n out) = mset (concat (map snd bs))"
  using assms
proof (induction bs goal n out rule: scatter_loop.induct)
  case (1 bs goal n out)
  show ?case
  proof (cases "length out < goal \<and> scatter_row bs n \<noteq> []")
    case True
    have "mset (out @ scatter_row bs n) = mset (all_taken (n + 1) bs)"
      using 1(3) scatter_row_mset [of n bs] by simp
    then have "mset (scatter_loop bs goal (n + 1) (out @ scatter_row bs n)) = mset (concat (map snd bs))"
      using True 1(1) [OF _ refl] 1(2) by blast
    moreover have "scatter_loop bs goal n out = scatter_loop bs goal (n + 1) (out @ scatter_row bs n)"
      using True by (subst scatter_loop.simps) (simp add: Let_def)
    ultimately show ?thesis by simp
  next
    case False
    then have "mset out = mset (concat (map snd bs))"
    proof (cases "scatter_row bs n = []")
      case True
      then show ?thesis using 1(3) by (simp add: all_taken_all)
    next
      case row: False
      then have "size (mset (concat (map snd bs))) \<le> size (mset out)"
        using False 1(2) by simp
      then show ?thesis using mset_full [OF all_taken_submset] 1(3) by metis
    qed
    moreover have "scatter_loop bs goal n out = out"
      using False by (subst scatter_loop.simps) (auto simp: Let_def)
    ultimately show ?thesis by simp
  qed
qed

lemma bucket_push_mset:
  "mset (concat (map snd (bucket_push p bs))) = add_mset p (mset (concat (map snd bs)))"
  by (induction p bs rule: bucket_push.induct) auto

lemma fill_buckets_mset: "mset (concat (map snd (fill_buckets ps))) = mset ps"
proof -
  have "mset (concat (map snd (fold bucket_push ps bs))) = mset ps + mset (concat (map snd bs))" for bs
    by (induction ps arbitrary: bs) (simp_all add: bucket_push_mset)
  then show ?thesis by (simp add: fill_buckets_def)
qed

interpretation scatter: arrangement scatter_candidates
proof unfold_locales
  fix ps
  have "length ps = length (concat (map snd (fill_buckets ps)))"
    by (rule mset_eq_length [symmetric, OF fill_buckets_mset])
  then show "mset (scatter_candidates ps) = mset ps"
    unfolding scatter_candidates_def
    by (subst scatter_loop_mset) (simp_all add: all_taken_def fill_buckets_mset comp_def case_prod_beta)
qed

interpretation primaries_first: arrangement "sort_key (\<lambda>p. lp_thread_index p \<noteq> 0)"
  by unfold_locales simp

interpretation local_first: arrangement "sort_key (\<lambda>p. lp_numa_node_id p \<noteq> node)" for node
  by unfold_locales simp

interpretation by_key: arrangement "sort_key candidate_key"
  by unfold_locales simp

section \<open>The first row of a scattered list\<close>

definition buckets_ok :: "buckets \<Rightarrow> bool" where
  "buckets_ok bs \<longleftrightarrow> sorted_wrt (<) (map fst bs) \<and>
     (\<forall>(k, b) \<in> set bs. b \<noteq> [] \<and> (\<forall>p \<in> set b. bucket_key p = k))"

lemma bucket_push_keys: "fst ` set (bucket_push p bs) = insert (bucket_key p) (fst ` set bs)"
  by (induction p bs rule: bucket_push.induct) auto

lemma bucket_push_ok: "buckets_ok bs \<Longrightarrow> buckets_ok (bucket_push p bs)"
proof (induction p bs rule: bucket_push.induct)
  case (2 p k b bs)
  have tail: "buckets_ok bs" "\<forall>k' \<in> fst ` set bs. k < k'" "b \<noteq> []" "\<forall>q \<in> set b. bucket_key q = k"
    using "2.prems" by (auto simp: buckets_ok_def)
  consider "bucket_key p < k" | "k = bucket_key p" | "k < bucket_key p" by fastforce
  then show ?case
  proof cases
    case 1
    then have "\<forall>k' \<in> fst ` set bs. bucket_key p < k'" using tail(2) order.strict_trans by blast
    moreover have "bucket_push p ((k, b) # bs) = (bucket_key p, [p]) # (k, b) # bs" using 1 by simp
    ultimately show ?thesis using 1 tail by (auto simp: buckets_ok_def)
  next
    case 2
    then have "bucket_push p ((k, b) # bs) = (k, b @ [p]) # bs" "bucket_key p = k" by simp_all
    then show ?thesis using tail by (auto simp: buckets_ok_def)
  next
    case 3
    then have "buckets_ok (bucket_push p bs)" using "2.IH" tail(1) by auto
    moreover have "\<forall>k' \<in> fst ` set (bucket_push p bs). k < k'" using 3 tail(2) by (simp add: bucket_push_keys)
    moreover have "bucket_push p ((k, b) # bs) = (k, b) # bucket_push p bs" using 3 by auto
    ultimately show ?thesis using 3 tail by (auto simp: buckets_ok_def)
  qed
qed (simp add: buckets_ok_def)

lemma fill_buckets_ok: "buckets_ok (fill_buckets ps)"
proof -
  have "buckets_ok bs \<Longrightarrow> buckets_ok (fold bucket_push ps bs)" for bs
    by (induction ps arbitrary: bs) (simp_all add: bucket_push_ok)
  moreover have "buckets_ok []" by (simp add: buckets_ok_def)
  ultimately show ?thesis by (simp add: fill_buckets_def)
qed

lemma fill_buckets_keys: "fst ` set (fill_buckets ps) = bucket_key ` set ps"
proof -
  have "fst ` set (fold bucket_push ps bs) = bucket_key ` set ps \<union> fst ` set bs" for bs
    by (induction ps arbitrary: bs) (auto simp: bucket_push_keys)
  then show ?thesis by (simp add: fill_buckets_def)
qed

lemma fill_buckets_length: "length (fill_buckets ps) = card (bucket_key ` set ps)"
proof -
  have "distinct (map fst (fill_buckets ps))"
    using fill_buckets_ok [of ps] by (simp add: buckets_ok_def strict_sorted_iff)
  then have "length (fill_buckets ps) = card (set (map fst (fill_buckets ps)))"
    using distinct_card [of "map fst (fill_buckets ps)"] by simp
  then show ?thesis by (simp add: fill_buckets_keys)
qed

lemma first_row_keys: "buckets_ok bs \<Longrightarrow> map bucket_key (scatter_row bs 0) = map fst bs"
proof (induction bs)
  case (Cons kb bs)
  obtain k b where kb: "kb = (k, b)" by (cases kb)
  have "buckets_ok bs" "b \<noteq> []" "\<forall>p \<in> set b. bucket_key p = k"
    using Cons.prems by (auto simp: buckets_ok_def kb)
  then show ?case using Cons.IH by (simp add: scatter_row_def kb)
qed (simp add: scatter_row_def)

lemma scatter_loop_prefix: "\<exists>rest. scatter_loop bs goal n out = out @ rest"
proof (induction bs goal n out rule: scatter_loop.induct)
  case (1 bs goal n out)
  show ?case
  proof (cases "length out < goal \<and> scatter_row bs n \<noteq> []")
    case True
    then obtain rest where "scatter_loop bs goal (n + 1) (out @ scatter_row bs n) = (out @ scatter_row bs n) @ rest"
      using 1 [OF _ refl] by blast
    then show ?thesis using True by (subst scatter_loop.simps) (simp add: Let_def)
  qed (subst scatter_loop.simps, auto simp: Let_def)
qed

lemma scatter_first_row:
  assumes "ps \<noteq> []"
  shows "\<exists>rest. scatter_candidates ps = scatter_row (fill_buckets ps) 0 @ rest"
proof -
  have "length (scatter_row (fill_buckets ps) 0) = card (bucket_key ` set ps)"
    using arg_cong [OF first_row_keys [OF fill_buckets_ok], of length ps]
    by (simp add: fill_buckets_length)
  then have "scatter_row (fill_buckets ps) 0 \<noteq> []" using assms by (auto simp: card_eq_0_iff)
  then have "scatter_candidates ps =
      scatter_loop (fill_buckets ps) (length ps) (0 + 1) ([] @ scatter_row (fill_buckets ps) 0)"
    using assms unfolding scatter_candidates_def
    by (subst scatter_loop.simps) (simp add: Let_def)
  then show ?thesis using scatter_loop_prefix by (metis append_Nil)
qed

lemma scatter_take_distinct:
  assumes "n \<le> card (bucket_key ` set ps)"
  shows "distinct (map bucket_key (take n (scatter_candidates ps)))"
proof (cases "ps = []")
  case True
  then show ?thesis using assms by simp
next
  case False
  then obtain rest where rest: "scatter_candidates ps = scatter_row (fill_buckets ps) 0 @ rest"
    using scatter_first_row by blast
  have keys: "map bucket_key (scatter_row (fill_buckets ps) 0) = map fst (fill_buckets ps)"
    by (rule first_row_keys [OF fill_buckets_ok])
  then have "n \<le> length (scatter_row (fill_buckets ps) 0)"
    using assms by (metis fill_buckets_length length_map)
  then have "map bucket_key (take n (scatter_candidates ps)) = take n (map fst (fill_buckets ps))"
    by (simp add: rest keys flip: take_map)
  moreover have "distinct (map fst (fill_buckets ps))"
    using fill_buckets_ok [of ps] by (simp add: buckets_ok_def strict_sorted_iff)
  ultimately show ?thesis by simp
qed

section \<open>Plans\<close>

definition placement_request_ok :: "CpuTopologyV1 \<Rightarrow> CpuPlacementRequestV1 \<Rightarrow> bool" where
  "placement_request_ok t request \<longleftrightarrow>
     plr_version request = kCpuPlacementVersionV1 \<and> plr_requested_workers request \<noteq> 0 \<and>
     known_affinity (plr_affinity request) \<and> known_smt (plr_smt request) \<and>
     (plr_preferred_numa_node request = kUnknownTopologyIdV1 \<or>
      plr_preferred_numa_node request \<in> all_nodes t) \<and>
     \<not> (plr_affinity request = aff_local_first \<and> plr_preferred_numa_node request = kUnknownTopologyIdV1)"

text \<open>The processors a request may use when it may use these nodes.\<close>

abbreviation usable :: "CpuTopologyV1 \<Rightarrow> CpuPlacementRequestV1 \<Rightarrow> u32 set \<Rightarrow> CpuLogicalProcessorV1 list" where
  "usable t request nodes \<equiv> filter (eligible (plr_smt request) nodes) (topo_logical_processors t)"

lemma topology_candidates_mset [simp]:
  "mset (topology_candidates t smt nodes) = mset (filter (eligible smt nodes) (topo_logical_processors t))"
  by (simp add: topology_candidates_def Let_def primaries_first.mset_arrange by_key.mset_arrange)

lemma ordered_candidates_mset:
  "mset (ordered_candidates t request) = mset (usable t request (allowed_nodes t request))"
  by (simp add: ordered_candidates_def Let_def scatter.mset_arrange local_first.mset_arrange)

lemma topology_candidates_length [simp]:
  "length (topology_candidates t smt nodes) = length (filter (eligible smt nodes) (topo_logical_processors t))"
  by (rule mset_eq_length) simp

lemmas ordered_candidates_facts =
  mset_eq_length [OF ordered_candidates_mset] mset_eq_setD [OF ordered_candidates_mset]

lemma placement_selected_iff:
  "plp_status (plan_cpu_placement_v1 t request) = pls_selected \<longleftrightarrow>
     topology_ok t \<and> topo_discovery_complete t \<and> placement_request_ok t request \<and>
     unat (plr_requested_workers request) \<le> length (usable t request (allowed_nodes t request))"
proof (cases "topology_ok t")
  case True
  then have "validate_cpu_topology_v1 t = None" by (simp add: validate_topology_iff)
  then show ?thesis
    using True ordered_candidates_facts(1) [of t request]
    by (auto simp: plan_cpu_placement_v1_def Let_def placement_request_ok_def)
next
  case False
  then have "validate_cpu_topology_v1 t \<noteq> None" by (simp add: validate_topology_iff)
  then obtain why where "validate_cpu_topology_v1 t = Some why" by blast
  then show ?thesis using False by (simp add: plan_cpu_placement_v1_def Let_def)
qed

lemma placement_selected_plan:
  assumes "plp_status (plan_cpu_placement_v1 t request) = pls_selected"
  defines "chosen \<equiv> take (unat (plr_requested_workers request)) (ordered_candidates t request)"
  shows "plp_logical_cpus (plan_cpu_placement_v1 t request) = map lp_logical_cpu chosen"
    "plp_numa_nodes (plan_cpu_placement_v1 t request) = remdups_adj (sort (map lp_numa_node_id chosen))"
    "plp_actual_workers (plan_cpu_placement_v1 t request) = plr_requested_workers request"
    "plp_crosses_numa_nodes (plan_cpu_placement_v1 t request) \<longleftrightarrow>
       length (remdups_adj (sort (map lp_numa_node_id chosen))) > 1"
  using assms ordered_candidates_facts(1) [of t request] unfolding placement_selected_iff
  by (auto simp: plan_cpu_placement_v1_def Let_def placement_request_ok_def validate_topology_iff [symmetric])

lemma remdups_adj_sorted_distinct: "sorted (xs :: 'a::linorder list) \<Longrightarrow> distinct (remdups_adj xs)"
  by (induction xs rule: remdups_adj.induct) auto

text \<open>The processors a plan chose.\<close>

definition chosen :: "CpuTopologyV1 \<Rightarrow> CpuPlacementPlanV1 \<Rightarrow> CpuLogicalProcessorV1 set" where
  "chosen t plan = {p \<in> set (topo_logical_processors t). lp_logical_cpu p \<in> set (plp_logical_cpus plan)}"

abbreviation chosen_list :: "CpuTopologyV1 \<Rightarrow> CpuPlacementRequestV1 \<Rightarrow> CpuLogicalProcessorV1 list" where
  "chosen_list t request \<equiv> take (unat (plr_requested_workers request)) (ordered_candidates t request)"

lemma topology_cpus_distinct:
  "topology_ok t \<Longrightarrow> distinct (map lp_logical_cpu (topo_logical_processors t))"
  by (simp add: topology_ok_def Let_def strict_sorted_iff)

lemma chosen_list_distinct:
  assumes "topology_ok t"
  shows "distinct (map lp_logical_cpu (chosen_list t request))"
proof -
  have "mset (map lp_logical_cpu (ordered_candidates t request)) =
      mset (map lp_logical_cpu (usable t request (allowed_nodes t request)))"
    by (simp add: ordered_candidates_mset)
  moreover have "distinct (map lp_logical_cpu (usable t request (allowed_nodes t request)))"
    using topology_cpus_distinct [OF assms] by (rule distinct_map_filter)
  ultimately have "distinct (map lp_logical_cpu (ordered_candidates t request))"
    by (metis mset_eq_imp_distinct_iff)
  then show ?thesis by (simp flip: take_map)
qed

lemma chosen_list_usable:
  "p \<in> set (chosen_list t request) \<Longrightarrow> p \<in> set (usable t request (allowed_nodes t request))"
  by (metis in_set_takeD ordered_candidates_facts(2))

lemma chosen_eq:
  assumes "plp_status (plan_cpu_placement_v1 t request) = pls_selected"
  shows "chosen t (plan_cpu_placement_v1 t request) = set (chosen_list t request)"
proof -
  have ok: "topology_ok t" using assms by (simp add: placement_selected_iff)
  have "set (chosen_list t request) \<subseteq> set (topo_logical_processors t)"
    using chosen_list_usable by fastforce
  moreover have "inj_on lp_logical_cpu (set (topo_logical_processors t))"
    using topology_cpus_distinct [OF ok] by (simp add: distinct_map)
  ultimately show ?thesis
    unfolding chosen_def placement_selected_plan(1) [OF assms] set_map
    by (blast dest: inj_onD)
qed

lemma chosen_card:
  assumes "plp_status (plan_cpu_placement_v1 t request) = pls_selected"
  shows "length (chosen_list t request) = unat (plr_requested_workers request)"
    "card (chosen t (plan_cpu_placement_v1 t request)) = unat (plr_requested_workers request)"
proof -
  show len: "length (chosen_list t request) = unat (plr_requested_workers request)"
    using assms ordered_candidates_facts(1) [of t request] by (simp add: placement_selected_iff)
  have "distinct (chosen_list t request)"
    using chosen_list_distinct assms distinct_map placement_selected_iff by blast
  then show "card (chosen t (plan_cpu_placement_v1 t request)) = unat (plr_requested_workers request)"
    using len distinct_card by (metis chosen_eq [OF assms])
qed

lemma allowed_nodes_subset:
  "topology_ok t \<Longrightarrow> placement_request_ok t request \<Longrightarrow> allowed_nodes t request \<subseteq> all_nodes t"
  by (auto simp: allowed_nodes_def placement_request_ok_def all_nodes_def)

section \<open>Properties\<close>

text \<open>C36: A selected placement names as many CPUs as requested, all different, all online CPUs of the
  topology on allowed nodes; the node list is the sorted set of their NUMA nodes. It crosses NUMA
  nodes only when the request allows it. Otherwise it stays on the preferred node, or without a
  preference on the node of the topology with the least identifier. Under
  \<^verbatim>\<open>physical_cores_only\<close> it uses first hardware threads only.\<close>

theorem placement_selected_sound:
  assumes "plan = plan_cpu_placement_v1 t request" "plp_status plan = pls_selected"
  shows "length (plp_logical_cpus plan) = unat (plr_requested_workers request) \<and>
    plp_actual_workers plan = plr_requested_workers request \<and>
    distinct (plp_logical_cpus plan) \<and>
    set (plp_logical_cpus plan) = lp_logical_cpu ` chosen t plan \<and>
    (\<forall>p \<in> chosen t plan. lp_online p \<and> lp_numa_node_id p \<in> allowed_nodes t request \<and>
       (plr_smt request = smt_physical_cores_only \<longrightarrow> lp_thread_index p = 0)) \<and>
    plp_numa_nodes plan = sorted_list_of_set (lp_numa_node_id ` chosen t plan) \<and>
    (plp_crosses_numa_nodes plan \<longleftrightarrow> card (lp_numa_node_id ` chosen t plan) > 1) \<and>
    (plp_crosses_numa_nodes plan \<longrightarrow> plr_allow_cross_numa request) \<and>
    (\<not> plr_allow_cross_numa request \<and> plr_preferred_numa_node request \<noteq> kUnknownTopologyIdV1 \<longrightarrow>
       plp_numa_nodes plan = [plr_preferred_numa_node request]) \<and>
    (\<not> plr_allow_cross_numa request \<and> plr_preferred_numa_node request = kUnknownTopologyIdV1 \<longrightarrow>
       (\<exists>least \<in> nn_node_id ` set (topo_numa_nodes t). plp_numa_nodes plan = [least] \<and>
          (\<forall>node \<in> set (topo_numa_nodes t). least \<le> nn_node_id node)))"
proof -
  have sel: "plp_status (plan_cpu_placement_v1 t request) = pls_selected" using assms by simp
  note plan = placement_selected_plan [OF sel, folded assms(1)]
  note ch = chosen_eq [OF sel, folded assms(1)]
  have ok: "topology_ok t" "placement_request_ok t request" using sel by (simp_all add: placement_selected_iff)
  have el: "eligible (plr_smt request) (allowed_nodes t request) p" if "p \<in> chosen t plan" for p
    using that chosen_list_usable by (fastforce simp: ch)
  have "set (remdups_adj (sort (map lp_numa_node_id (chosen_list t request)))) = lp_numa_node_id ` chosen t plan"
    by (simp add: ch)
  moreover have "sorted (remdups_adj (sort (map lp_numa_node_id (chosen_list t request))))"
    "distinct (remdups_adj (sort (map lp_numa_node_id (chosen_list t request))))"
    by (simp_all add: sorted_remdups_adj remdups_adj_sorted_distinct)
  ultimately have nodes: "plp_numa_nodes plan = sorted_list_of_set (lp_numa_node_id ` chosen t plan)"
    unfolding plan(2) by (metis sorted_list_of_set.idem_if_sorted_distinct)
  have crosses: "plp_crosses_numa_nodes plan \<longleftrightarrow> card (lp_numa_node_id ` chosen t plan) > 1"
    using nodes plan(2,4) by (metis sorted_list_of_set.length_sorted_key_list_of_set)
  have nonempty: "chosen t plan \<noteq> {}"
    using chosen_card(2) [OF sel, folded assms(1)] ok(2)
    by (auto simp: placement_request_ok_def unat_eq_zero)
  have one: "lp_numa_node_id ` chosen t plan = {n}" if "allowed_nodes t request = {n}" for n
    using el that nonempty by (auto simp: eligible_def)
  have single: "\<exists>n. allowed_nodes t request = {n}" if "\<not> plr_allow_cross_numa request"
    using that nonempty el by (auto simp: allowed_nodes_def eligible_def)
  have permitted: "plp_crosses_numa_nodes plan \<longrightarrow> plr_allow_cross_numa request"
    using crosses single one by fastforce
  have preferred: "\<not> plr_allow_cross_numa request \<and> plr_preferred_numa_node request \<noteq> kUnknownTopologyIdV1 \<longrightarrow>
       plp_numa_nodes plan = [plr_preferred_numa_node request]"
    using one by (simp add: allowed_nodes_def nodes)
  have default: "\<exists>least \<in> nn_node_id ` set (topo_numa_nodes t). plp_numa_nodes plan = [least] \<and>
      (\<forall>node \<in> set (topo_numa_nodes t). least \<le> nn_node_id node)"
    if "\<not> plr_allow_cross_numa request" "plr_preferred_numa_node request = kUnknownTopologyIdV1"
  proof -
    have some: "all_nodes t \<noteq> {}" using single [OF that(1)] that by (auto simp: allowed_nodes_def)
    then have "plp_numa_nodes plan = [Min (all_nodes t)]"
      using one [of "Min (all_nodes t)"] that by (simp add: allowed_nodes_def nodes)
    moreover have "Min (all_nodes t) \<in> all_nodes t" "n \<in> all_nodes t \<Longrightarrow> Min (all_nodes t) \<le> n" for n
      using some by (simp_all add: all_nodes_def)
    ultimately show ?thesis by (auto simp: all_nodes_def)
  qed
  have "plp_logical_cpus plan = map lp_logical_cpu (chosen_list t request)" by (rule plan(1))
  then show ?thesis
    using chosen_card(1) [OF sel] chosen_list_distinct [OF ok(1), of request] el nodes crosses
      permitted preferred default plan(3)
    by (simp add: ch eligible_def)
qed

text \<open>When each status is reported: a request is refused as invalid before any CPU is counted;
  a plan is selected exactly when the allowed nodes hold enough usable CPUs, and the refusal names
  the missing permission exactly when all nodes together would.\<close>

theorem placement_status_exact:
  "plp_status (plan_cpu_placement_v1 t request) =
    (if \<not> (validate_cpu_topology_v1 t = None \<and> topo_discovery_complete t) then pls_invalid_topology
     else if \<not> placement_request_ok t request then pls_invalid_request
     else if unat (plr_requested_workers request) \<le> length (usable t request (allowed_nodes t request))
     then pls_selected
     else if \<not> plr_allow_cross_numa request \<and>
       unat (plr_requested_workers request) \<le> length (usable t request (all_nodes t))
     then pls_cross_numa_disallowed
     else pls_insufficient_cpus)"
proof (cases "validate_cpu_topology_v1 t")
  case (Some why)
  then show ?thesis by (simp add: plan_cpu_placement_v1_def Let_def)
next
  case None
  then have ok: "topology_ok t" by (simp add: validate_topology_iff)
  have more: "card (all_nodes t) > card (allowed_nodes t request)"
    if "placement_request_ok t request" "allowed_nodes t request \<noteq> all_nodes t"
    using allowed_nodes_subset [OF ok that(1)] that(2)
    by (auto simp: all_nodes_def intro!: psubset_card_mono)
  show ?thesis
  proof (cases "placement_request_ok t request")
    case False
    then show ?thesis
      using None by (auto simp: plan_cpu_placement_v1_def Let_def placement_request_ok_def)
  next
    case True
    then show ?thesis
      using None more ordered_candidates_facts(1) [of t request]
      by (cases "allowed_nodes t request = all_nodes t")
        (auto simp: plan_cpu_placement_v1_def Let_def placement_request_ok_def)
  qed
qed

text \<open>The scatter policy spreads: as long as no more workers are requested than there are
  (NUMA node, package) pairs with a usable CPU, no two chosen CPUs share such a pair.\<close>

theorem scatter_spreads:
  assumes "plp_status (plan_cpu_placement_v1 t request) = pls_selected"
    and "plr_affinity request = aff_scatter"
    and "unat (plr_requested_workers request) \<le>
      card (bucket_key ` set (usable t request (allowed_nodes t request)))"
  shows "inj_on bucket_key (chosen t (plan_cpu_placement_v1 t request))"
proof -
  let ?c = "topology_candidates t (plr_smt request) (allowed_nodes t request)"
  have ordered: "ordered_candidates t request = scatter_candidates ?c"
    using assms(2) by (simp add: ordered_candidates_def Let_def)
  have "set ?c = set (usable t request (allowed_nodes t request))"
    by (rule mset_eq_setD) simp
  then have "distinct (map bucket_key (chosen_list t request))"
    using assms(3) unfolding ordered by (intro scatter_take_distinct) metis
  then show ?thesis by (simp only: chosen_eq [OF assms(1)] distinct_map)
qed

lemma take_sort_key_bool:
  assumes "n \<le> length (filter (\<lambda>x. \<not> k x) xs)"
  shows "\<forall>x \<in> set (take n (sort_key k xs)). \<not> k x"
  using assms by (auto simp: sort_key_bool dest: in_set_takeD)

lemma length_filter_mset: "mset xs = mset ys \<Longrightarrow> length (filter P xs) = length (filter P ys)"
  by (metis mset_filter size_mset)

lemma compact_prefers_primaries:
  assumes "plp_status (plan_cpu_placement_v1 t request) = pls_selected"
    and "plr_affinity request = aff_compact" "plr_smt request = smt_prefer_physical_cores"
    and "unat (plr_requested_workers request) \<le>
      length (filter (\<lambda>p. lp_thread_index p = 0) (usable t request (allowed_nodes t request)))"
  shows "\<forall>p \<in> chosen t (plan_cpu_placement_v1 t request). lp_thread_index p = 0"
proof -
  let ?base = "sort_key candidate_key (usable t request (allowed_nodes t request))"
  let ?k = "\<lambda>p. lp_thread_index p \<noteq> 0"
  have ordered: "ordered_candidates t request = sort_key ?k ?base"
    using assms(2,3) by (simp add: ordered_candidates_def topology_candidates_def Let_def)
  have "length (filter (\<lambda>p. \<not> ?k p) ?base) =
      length (filter (\<lambda>p. \<not> ?k p) (usable t request (allowed_nodes t request)))"
    by (rule length_filter_mset) simp
  then have bound: "unat (plr_requested_workers request) \<le> length (filter (\<lambda>p. \<not> ?k p) ?base)"
    using assms(4) by (simp only: not_not)
  have "\<forall>p \<in> set (chosen_list t request). \<not> ?k p"
    unfolding ordered by (rule take_sort_key_bool [OF bound])
  then show ?thesis by (simp only: chosen_eq [OF assms(1)] not_not)
qed

lemma local_first_stays:
  assumes "plp_status (plan_cpu_placement_v1 t request) = pls_selected"
    and "plr_affinity request = aff_local_first"
    and "unat (plr_requested_workers request) \<le>
      length (usable t request {plr_preferred_numa_node request})"
  shows "\<forall>p \<in> chosen t (plan_cpu_placement_v1 t request). lp_numa_node_id p = plr_preferred_numa_node request"
proof (cases "plr_allow_cross_numa request")
  case True
  let ?c = "topology_candidates t (plr_smt request) (allowed_nodes t request)"
  let ?k = "\<lambda>p. lp_numa_node_id p \<noteq> plr_preferred_numa_node request"
  have pref: "plr_preferred_numa_node request \<in> all_nodes t"
    using assms(1,2) by (auto simp: placement_selected_iff placement_request_ok_def)
  have "length (filter (\<lambda>p. \<not> ?k p) ?c) =
      length (filter (\<lambda>p. \<not> ?k p) (usable t request (allowed_nodes t request)))"
    by (rule length_filter_mset) simp
  also have "filter (\<lambda>p. \<not> ?k p) (usable t request (allowed_nodes t request)) =
      usable t request {plr_preferred_numa_node request}"
    using True pref by (auto simp: eligible_def allowed_nodes_def intro!: filter_cong)
  finally have bound: "unat (plr_requested_workers request) \<le> length (filter (\<lambda>p. \<not> ?k p) ?c)"
    using assms(3) by (simp only:)
  have ordered: "ordered_candidates t request = sort_key ?k ?c"
    using assms(2) True by (simp add: ordered_candidates_def Let_def)
  have "\<forall>p \<in> set (chosen_list t request). \<not> ?k p"
    unfolding ordered by (rule take_sort_key_bool [OF bound])
  then show ?thesis by (simp only: chosen_eq [OF assms(1)] not_not)
next
  case False
  then show ?thesis
    using assms(1,2) chosen_list_usable [where t = t and request = request] unfolding chosen_eq [OF assms(1)]
    by (force simp: placement_selected_iff placement_request_ok_def allowed_nodes_def eligible_def)
qed

text \<open>Preferences decide before the order of identifiers: with enough first hardware threads the
  compact policy under \<^verbatim>\<open>prefer_physical_cores\<close> uses no sibling thread, and with enough usable CPUs
  on the preferred node the local-first policy leaves that node for none.\<close>

theorem placement_policies:
  assumes "plp_status (plan_cpu_placement_v1 t request) = pls_selected"
  shows "(plr_affinity request = aff_compact \<and> plr_smt request = smt_prefer_physical_cores \<and>
      unat (plr_requested_workers request) \<le>
        length (filter (\<lambda>p. lp_thread_index p = 0) (usable t request (allowed_nodes t request))) \<longrightarrow>
      (\<forall>p \<in> chosen t (plan_cpu_placement_v1 t request). lp_thread_index p = 0)) \<and>
    (plr_affinity request = aff_local_first \<and>
      unat (plr_requested_workers request) \<le> length (usable t request {plr_preferred_numa_node request}) \<longrightarrow>
      (\<forall>p \<in> chosen t (plan_cpu_placement_v1 t request). lp_numa_node_id p = plr_preferred_numa_node request))"
  using compact_prefers_primaries [where t = t and request = request]
    local_first_stays [where t = t and request = request] assms by blast

text \<open>Restriction and placement together: on a topology projected onto an affinity mask, a
  \<^verbatim>\<open>physical_cores_only\<close> plan never puts two workers on one physical core, and it can use every core
  of which the mask leaves some thread: it is refused for a lack of CPUs only when there are fewer
  cores than workers.\<close>

theorem restricted_placement_cores:
  assumes "restr_status (restrict_cpu_topology_v1 a b t allowed) = restr_selected"
    and "r = restr_topology (restrict_cpu_topology_v1 a b t allowed)"
    and "plr_smt request = smt_physical_cores_only"
  shows "(plp_status (plan_cpu_placement_v1 r request) = pls_selected \<longrightarrow>
      inj_on (\<lambda>p. (lp_package_id p, lp_core_id p)) (chosen r (plan_cpu_placement_v1 r request))) \<and>
    (plp_status (plan_cpu_placement_v1 r request) = pls_insufficient_cpus \<and> plr_allow_cross_numa request \<longrightarrow>
      card ((\<lambda>p. (lp_package_id p, lp_core_id p)) ` set (topo_logical_processors r)) <
        unat (plr_requested_workers request))"
proof -
  let ?core = "\<lambda>p. (lp_package_id p, lp_core_id p)"
  let ?ps = "topo_logical_processors r"
  have r: "r = restricted_topology t (sort allowed)"
    using restrict_selected_topology [OF assms(1)] assms(2) by simp
  have mask: "mask_ok t (sort allowed)" and ok: "topology_ok r" using assms(1) by (simp_all add: restrict_selected r)
  have complete: "topo_discovery_complete r" by (simp add: r restricted_topology_def)
  have primary: "\<exists>!q. q \<in> set ?ps \<and> lp_package_id q = lp_package_id p \<and> lp_core_id q = lp_core_id p \<and>
      lp_thread_index q = 0" if "p \<in> set ?ps" for p
    using restricted_primary [OF mask] that by (simp only: r)
  let ?first = "filter (\<lambda>p. lp_thread_index p = 0) ?ps"
  have inj: "inj_on ?core (set ?first)"
    using primary by (auto simp: inj_on_def)
  have one: "inj_on ?core (chosen r (plan_cpu_placement_v1 r request))"
    if sel: "plp_status (plan_cpu_placement_v1 r request) = pls_selected"
  proof (rule inj_on_subset [OF inj])
    show "chosen r (plan_cpu_placement_v1 r request) \<subseteq> set ?first"
      using chosen_list_usable assms(3) by (fastforce simp: chosen_eq [OF sel] eligible_def)
  qed
  have few: "card (?core ` set ?ps) < unat (plr_requested_workers request)"
    if bad: "plp_status (plan_cpu_placement_v1 r request) = pls_insufficient_cpus" "plr_allow_cross_numa request"
  proof -
    have v: "validate_cpu_topology_v1 r = None" using ok by (simp add: validate_topology_iff)
    have nodes: "\<forall>p \<in> set ?ps. lp_online p \<and> lp_numa_node_id p \<in> all_nodes r"
      using ok complete by (auto simp: topology_ok_def Let_def processor_ok_def all_nodes_def) (metis image_eqI)
    have "usable r request (allowed_nodes r request) = ?first"
      using nodes assms(3) bad(2) by (auto simp: eligible_def allowed_nodes_def intro!: filter_cong)
    moreover have "\<not> unat (plr_requested_workers request) \<le> length (usable r request (allowed_nodes r request))"
      using bad v complete ordered_candidates_facts(1) [of r request]
      by (auto simp: plan_cpu_placement_v1_def Let_def split: if_splits)
    ultimately have "length ?first < unat (plr_requested_workers request)" by (simp only: not_le)
    moreover have "?core p \<in> ?core ` set ?first" if "p \<in> set ?ps" for p
    proof -
      note p = that
      obtain q where "q \<in> set ?ps" "?core p = ?core q" "lp_thread_index q = 0"
        using primary [OF p] by auto
      then show ?thesis by (intro image_eqI [of _ _ q]) simp_all
    qed
    then have "?core ` set ?ps \<subseteq> ?core ` set ?first" by blast
    then have "card (?core ` set ?ps) \<le> card (?core ` set ?first)" by (intro card_mono) simp_all
    moreover have "card (?core ` set ?first) \<le> length ?first"
      by (rule le_trans [OF card_image_le [OF finite_set] card_length])
    ultimately show ?thesis by linarith
  qed
  show ?thesis using one few by blast
qed

text \<open>The round-robin loop of the scatter policy ends with every candidate emitted exactly once: the
  exit for a pass that emits nothing never cuts the list short.\<close>

theorem scatter_complete:
  "mset (scatter_candidates ps) = mset ps \<and>
   (distinct (map lp_logical_cpu ps) \<longleftrightarrow> distinct (map lp_logical_cpu (scatter_candidates ps)))"
  using scatter.mset_arrange scatter.distinct_arrange by blast

section \<open>Witnesses\<close>

definition example_placement :: CpuPlacementRequestV1 where
  "example_placement = default_placement_request\<lparr>plr_requested_workers := 2,
     plr_affinity := aff_scatter, plr_smt := smt_physical_cores_only, plr_allow_cross_numa := True\<rparr>"

lemma example_placement_selected:
  "plp_status (plan_cpu_placement_v1 example_topology example_placement) = pls_selected"
  by code_simp

theorem placement_selected_sound_witness:
  "length (plp_logical_cpus (plan_cpu_placement_v1 example_topology example_placement)) = 2 \<and>
   distinct (plp_logical_cpus (plan_cpu_placement_v1 example_topology example_placement))"
  using placement_selected_sound [OF refl example_placement_selected]
  by (simp add: example_placement_def)

theorem placement_status_exact_witness:
  "plp_status (plan_cpu_placement_v1 example_topology
     (example_placement\<lparr>plr_requested_workers := 4, plr_allow_cross_numa := False\<rparr>)) = pls_insufficient_cpus"
  unfolding placement_status_exact by code_simp

theorem scatter_spreads_witness:
  "inj_on bucket_key (chosen example_topology (plan_cpu_placement_v1 example_topology example_placement))"
proof (rule scatter_spreads [OF example_placement_selected])
  show "plr_affinity example_placement = aff_scatter" by (simp add: example_placement_def)
  show "unat (plr_requested_workers example_placement) \<le> card (bucket_key `
      set (usable example_topology example_placement (allowed_nodes example_topology example_placement)))"
    by code_simp
qed

abbreviation example_compact :: CpuPlacementRequestV1 where
  "example_compact \<equiv> example_placement\<lparr>plr_affinity := aff_compact, plr_smt := smt_prefer_physical_cores\<rparr>"

theorem placement_policies_witness:
  "chosen example_topology (plan_cpu_placement_v1 example_topology example_compact) \<subseteq>
     {p. lp_thread_index p = 0}"
proof -
  have "plp_status (plan_cpu_placement_v1 example_topology example_compact) = pls_selected" by code_simp
  moreover have "plr_affinity example_compact = aff_compact \<and> plr_smt example_compact = smt_prefer_physical_cores \<and>
      unat (plr_requested_workers example_compact) \<le> length (filter (\<lambda>p. lp_thread_index p = 0)
        (usable example_topology example_compact (allowed_nodes example_topology example_compact)))"
    by code_simp
  ultimately show ?thesis
    using placement_policies [where t = example_topology and request = example_compact] by blast
qed

theorem restricted_placement_cores_witness:
  "inj_on (\<lambda>p. (lp_package_id p, lp_core_id p))
     (chosen (restr_topology (restrict_cpu_topology_v1 False False example_topology [3, 2]))
       (plan_cpu_placement_v1 (restr_topology (restrict_cpu_topology_v1 False False example_topology [3, 2]))
          example_placement))"
proof -
  let ?r = "restrict_cpu_topology_v1 False False example_topology [3, 2]"
  have "restr_status ?r = restr_selected" by code_simp
  moreover have "plr_smt example_placement = smt_physical_cores_only" by (simp add: example_placement_def)
  moreover have "plp_status (plan_cpu_placement_v1 (restr_topology ?r) example_placement) = pls_selected"
    by code_simp
  ultimately show ?thesis using restricted_placement_cores [OF _ refl] by blast
qed

end
