(* ===== verification/CapabilityV2.thy ===== *)
theory CapabilityV2
  imports Platform
begin

text \<open>
  The second capability record, \<^verbatim>\<open>platform/cpu_capability_v2.h\<close> and \<^verbatim>\<open>cpu_capability_v2.cpp\<close>, with the
  probes of \<^verbatim>\<open>cpu_x86_probe_internal.h\<close> and the availability the runtime reports to it
  (\<^verbatim>\<open>runtime/cpu_runtime.cpp\<close>, \<^verbatim>\<open>cpu_packed_avx2.cpp\<close>, \<^verbatim>\<open>cpu_packed_avx512.cpp\<close>). A feature domain has
  two words, one bit per feature: known and available. What the processor and the operating system
  answer (CPUID registers, XCR0, the AMX permission word) is the record \<open>cpu_environment\<close>.
\<close>

section \<open>Features and domains\<close>

datatype CpuFeatureV2 =
  feat_portable_scalar_f32 | feat_avx2 | feat_fma | feat_avx512f | feat_avx512dq | feat_avx512bw
  | feat_avx512vl | feat_avx512vnni | feat_avx512bf16 | feat_amx_tile | feat_amx_bf16 | feat_amx_int8

text \<open>The shift in the value of the enumerator.\<close>

fun feature_index :: "CpuFeatureV2 \<Rightarrow> nat" where
  "feature_index feat_portable_scalar_f32 = 0"
| "feature_index feat_avx2 = 1"
| "feature_index feat_fma = 2"
| "feature_index feat_avx512f = 3"
| "feature_index feat_avx512dq = 4"
| "feature_index feat_avx512bw = 5"
| "feature_index feat_avx512vl = 6"
| "feature_index feat_avx512vnni = 7"
| "feature_index feat_avx512bf16 = 8"
| "feature_index feat_amx_tile = 9"
| "feature_index feat_amx_bf16 = 10"
| "feature_index feat_amx_int8 = 11"

definition kCpuFeatureOrderV2 :: "CpuFeatureV2 list" where
  "kCpuFeatureOrderV2 =
     [feat_portable_scalar_f32, feat_avx2, feat_fma, feat_avx512f, feat_avx512dq, feat_avx512bw,
      feat_avx512vl, feat_avx512vnni, feat_avx512bf16, feat_amx_tile, feat_amx_bf16, feat_amx_int8]"

definition feature_bit_v2 :: "CpuFeatureV2 \<Rightarrow> u64" where
  "feature_bit_v2 f = push_bit (feature_index f) 1"

definition kKnownCpuFeatureBitsV2 :: u64 where
  "kKnownCpuFeatureBitsV2 = fold (\<lambda>f bits. bits OR feature_bit_v2 f) kCpuFeatureOrderV2 0"

definition kX86CpuFeatureBitsV2 :: u64 where
  "kX86CpuFeatureBitsV2 = kKnownCpuFeatureBitsV2 AND NOT (feature_bit_v2 feat_portable_scalar_f32)"

record CpuFeatureDomainV2 =
  dom_known :: u64
  dom_available :: u64

definition empty_domain :: CpuFeatureDomainV2 where
  "empty_domain = \<lparr>dom_known = 0, dom_available = 0\<rparr>"

definition feature_known :: "CpuFeatureDomainV2 \<Rightarrow> CpuFeatureV2 \<Rightarrow> bool" where
  "feature_known d f \<longleftrightarrow> dom_known d AND feature_bit_v2 f \<noteq> 0"

definition feature_available :: "CpuFeatureDomainV2 \<Rightarrow> CpuFeatureV2 \<Rightarrow> bool" where
  "feature_available d f \<longleftrightarrow> feature_known d f \<and> dom_available d AND feature_bit_v2 f \<noteq> 0"

record CpuImplementationAvailabilityV2 =
  impl_version :: u32
  impl_compiled :: CpuFeatureDomainV2
  impl_runtime_validated :: CpuFeatureDomainV2

definition unknown_cpu_implementation_availability_v2 :: CpuImplementationAvailabilityV2 where
  "unknown_cpu_implementation_availability_v2 =
     \<lparr>impl_version = 2, impl_compiled = empty_domain, impl_runtime_validated = empty_domain\<rparr>"

record CpuCapabilitiesV2 =
  cap2_version :: u32
  cap2_architecture :: ArchitectureKindV1
  cap2_hardware :: CpuFeatureDomainV2
  cap2_os_enabled :: CpuFeatureDomainV2
  cap2_compiler :: CpuFeatureDomainV2
  cap2_implementation :: CpuFeatureDomainV2
  cap2_runtime_validation :: CpuFeatureDomainV2
  cap2_os_xstate_mask :: u64
  cap2_os_xstate_mask_known :: bool
  cap2_amx_permission_known :: bool
  cap2_amx_permission_granted :: bool
  cap2_usable_vector_bits :: u16

definition default_capabilities_v2 :: CpuCapabilitiesV2 where
  "default_capabilities_v2 =
     \<lparr>cap2_version = 2, cap2_architecture = archk_unknown, cap2_hardware = empty_domain,
      cap2_os_enabled = empty_domain, cap2_compiler = empty_domain,
      cap2_implementation = empty_domain, cap2_runtime_validation = empty_domain,
      cap2_os_xstate_mask = 0, cap2_os_xstate_mask_known = False,
      cap2_amx_permission_known = False, cap2_amx_permission_granted = False,
      cap2_usable_vector_bits = 0\<rparr>"

definition has_usable_feature_v2 :: "CpuCapabilitiesV2 \<Rightarrow> CpuFeatureV2 \<Rightarrow> bool" where
  "has_usable_feature_v2 r f \<longleftrightarrow>
     feature_available (cap2_hardware r) f \<and> feature_available (cap2_os_enabled r) f \<and>
     feature_available (cap2_compiler r) f \<and> feature_available (cap2_implementation r) f"

definition has_runtime_validated_feature_v2 :: "CpuCapabilitiesV2 \<Rightarrow> CpuFeatureV2 \<Rightarrow> bool" where
  "has_runtime_validated_feature_v2 r f \<longleftrightarrow>
     has_usable_feature_v2 r f \<and> feature_available (cap2_runtime_validation r) f"

fun required_feature_bits_v2 :: "ArchitectureKindV1 \<Rightarrow> u64" where
  "required_feature_bits_v2 archk_x86_64 = kKnownCpuFeatureBitsV2"
| "required_feature_bits_v2 archk_aarch64 = feature_bit_v2 feat_portable_scalar_f32"
| "required_feature_bits_v2 archk_unknown = 0"
| "required_feature_bits_v2 (archk_other _) = 0"

definition domain_complete_v2 :: "CpuFeatureDomainV2 \<Rightarrow> ArchitectureKindV1 \<Rightarrow> bool" where
  "domain_complete_v2 d architecture =
     (let required = required_feature_bits_v2 architecture
      in required \<noteq> 0 \<and> dom_known d AND required = required)"

definition domain_well_formed :: "CpuFeatureDomainV2 \<Rightarrow> bool" where
  "domain_well_formed d \<longleftrightarrow>
     dom_known d AND NOT kKnownCpuFeatureBitsV2 = 0 \<and> dom_available d AND NOT (dom_known d) = 0"

definition dependencies_satisfied :: "CpuFeatureDomainV2 \<Rightarrow> bool" where
  "dependencies_satisfied d =
     (let available = feature_available d in
      if (available feat_avx512dq \<or> available feat_avx512bw \<or> available feat_avx512vl \<or>
          available feat_avx512vnni \<or> available feat_avx512bf16) \<and> \<not> available feat_avx512f
      then False
      else if (available feat_amx_bf16 \<or> available feat_amx_int8) \<and> \<not> available feat_amx_tile
      then False
      else True)"

definition domain_state :: "CpuFeatureDomainV2 \<Rightarrow> CpuFeatureV2 \<Rightarrow> string" where
  "domain_state d f =
     (if \<not> feature_known d f then ''unknown''
      else if feature_available d f then ''yes'' else ''no'')"

definition mark_known :: "u64 \<Rightarrow> CpuFeatureDomainV2 \<Rightarrow> CpuFeatureDomainV2" where
  "mark_known bits d = d\<lparr>dom_known := dom_known d OR bits\<rparr>"

definition mark_available :: "CpuFeatureV2 \<Rightarrow> CpuFeatureDomainV2 \<Rightarrow> CpuFeatureDomainV2" where
  "mark_available f d =
     d\<lparr>dom_known := dom_known d OR feature_bit_v2 f,
       dom_available := dom_available d OR feature_bit_v2 f\<rparr>"

definition derive_usable_vector_bits :: "CpuCapabilitiesV2 \<Rightarrow> u16" where
  "derive_usable_vector_bits r =
     (if has_usable_feature_v2 r feat_avx512f then 512
      else if has_usable_feature_v2 r feat_avx2 then 256 else 0)"

section \<open>Validation\<close>

definition kAvxXstate :: u64 where "kAvxXstate = push_bit 1 1 OR push_bit 2 1"

definition kAvx512Xstate :: u64 where
  "kAvx512Xstate = kAvxXstate OR push_bit 5 1 OR push_bit 6 1 OR push_bit 7 1"

definition kAmxXstate :: u64 where "kAmxXstate = push_bit 17 1 OR push_bit 18 1"

definition domain_failure :: "CpuFeatureDomainV2 \<Rightarrow> validation" where
  "domain_failure d =
     (if \<not> domain_well_formed d then Some ''CPU feature domain contains unknown or unproven bits''
      else if \<not> dependencies_satisfied d
      then Some ''CPU feature domain violates ISA feature dependencies'' else None)"

text \<open>The checks that only a non-x86 record has to pass, and those on the XSTATE mask.\<close>

definition non_x86_failure :: "CpuCapabilitiesV2 \<Rightarrow> validation" where
  "non_x86_failure r =
     (if cap2_architecture r \<noteq> archk_x86_64
      then let available_x86 =
             (dom_available (cap2_hardware r) OR dom_available (cap2_os_enabled r) OR
              dom_available (cap2_compiler r) OR dom_available (cap2_implementation r) OR
              dom_available (cap2_runtime_validation r)) AND kX86CpuFeatureBitsV2
           in if available_x86 \<noteq> 0 then Some ''x86 ISA feature requires x86_64 architecture''
              else if cap2_os_xstate_mask_known r \<or> cap2_amx_permission_known r
              then Some ''non-x86 record cannot claim x86 OS state'' else None
      else None)"

definition xstate_failure :: "CpuCapabilitiesV2 \<Rightarrow> validation" where
  "xstate_failure r =
     (if cap2_os_xstate_mask_known r
      then if (feature_available (cap2_os_enabled r) feat_avx2 \<or>
               feature_available (cap2_os_enabled r) feat_fma) \<and>
              cap2_os_xstate_mask r AND kAvxXstate \<noteq> kAvxXstate
           then Some ''OS-enabled AVX2/FMA requires XMM and YMM XSTATE''
           else if feature_available (cap2_os_enabled r) feat_avx512f \<and>
              cap2_os_xstate_mask r AND kAvx512Xstate \<noteq> kAvx512Xstate
           then Some ''OS-enabled AVX-512 requires complete ZMM XSTATE''
           else if feature_available (cap2_os_enabled r) feat_amx_tile \<and>
              cap2_os_xstate_mask r AND kAmxXstate \<noteq> kAmxXstate
           then Some ''OS-enabled AMX requires tile configuration and data XSTATE''
           else None
      else None)"

definition amx_failure :: "CpuCapabilitiesV2 \<Rightarrow> validation" where
  "amx_failure r =
     (if cap2_amx_permission_granted r \<and> \<not> cap2_amx_permission_known r
      then Some ''AMX permission cannot be granted when its state is unknown''
      else if (feature_available (cap2_os_enabled r) feat_amx_tile \<or>
               feature_available (cap2_os_enabled r) feat_amx_bf16 \<or>
               feature_available (cap2_os_enabled r) feat_amx_int8) \<and>
              (\<not> cap2_amx_permission_known r \<or> \<not> cap2_amx_permission_granted r)
      then Some ''OS-enabled AMX requires explicit architectural-state permission''
      else None)"

definition baseline_failure :: "CpuCapabilitiesV2 \<Rightarrow> validation" where
  "baseline_failure r =
     (if dom_available (cap2_hardware r) AND feature_bit_v2 feat_portable_scalar_f32 = 0 \<or>
         dom_available (cap2_os_enabled r) AND feature_bit_v2 feat_portable_scalar_f32 = 0 \<or>
         dom_available (cap2_compiler r) AND feature_bit_v2 feat_portable_scalar_f32 = 0
      then Some ''known CPU requires portable scalar hardware, OS, and compiler support''
      else if dom_available (cap2_os_enabled r) AND NOT (dom_available (cap2_hardware r)) \<noteq> 0
      then Some ''OS-enabled feature cannot exceed hardware support''
      else if dom_available (cap2_runtime_validation r) AND
              NOT (dom_available (cap2_hardware r) AND dom_available (cap2_os_enabled r) AND
                   dom_available (cap2_compiler r) AND dom_available (cap2_implementation r)) \<noteq> 0
      then Some ''runtime validation requires a usable implementation''
      else None)"

definition validate_cpu_capabilities_v2 :: "CpuCapabilitiesV2 \<Rightarrow> validation" where
  "validate_cpu_capabilities_v2 r =
     (if cap2_version r \<noteq> 2 then Some ''CPU capability record version is unsupported''
      else if \<not> known_archk (cap2_architecture r)
      then Some ''CPU capability record architecture is invalid''
      else case first_failure (map domain_failure
             [cap2_hardware r, cap2_os_enabled r, cap2_compiler r, cap2_implementation r,
              cap2_runtime_validation r]) of
        Some why \<Rightarrow> Some why
      | None \<Rightarrow>
          if cap2_architecture r = archk_unknown
          then if dom_known (cap2_hardware r) \<noteq> 0 \<or> dom_known (cap2_os_enabled r) \<noteq> 0 \<or>
                  dom_known (cap2_compiler r) \<noteq> 0 \<or> dom_known (cap2_implementation r) \<noteq> 0 \<or>
                  dom_known (cap2_runtime_validation r) \<noteq> 0 \<or> cap2_os_xstate_mask_known r \<or>
                  cap2_amx_permission_known r \<or> cap2_usable_vector_bits r \<noteq> 0
               then Some ''unknown CPU architecture cannot claim feature state''
               else None
          else first_failure
            [baseline_failure r, non_x86_failure r, amx_failure r, xstate_failure r,
             (if cap2_usable_vector_bits r \<noteq> derive_usable_vector_bits r
              then Some ''usable vector width disagrees with usable feature domains''
              else None)])"

section \<open>Compiler support\<close>

definition legacy_isa_bits :: u64 where
  "legacy_isa_bits =
     feature_bit_v2 feat_avx2 OR feature_bit_v2 feat_fma OR feature_bit_v2 feat_avx512f OR
     feature_bit_v2 feat_avx512dq OR feature_bit_v2 feat_avx512bw OR
     feature_bit_v2 feat_avx512vl OR feature_bit_v2 feat_avx512vnni"

definition or_available :: "u64 \<Rightarrow> CpuFeatureDomainV2 \<Rightarrow> CpuFeatureDomainV2" where
  "or_available bits d = d\<lparr>dom_available := dom_available d OR bits\<rparr>"

definition cpu_compiler_feature_domain_v2 ::
  "ArchitectureKindV1 \<Rightarrow> CompilerFrontendV1 \<Rightarrow> u32 \<Rightarrow> CpuFeatureDomainV2" where
  "cpu_compiler_feature_domain_v2 architecture frontend compiler_major_version =
     (let result = empty_domain in
      if \<not> known_archk architecture \<or> \<not> known_front frontend \<or>
         architecture = archk_unknown \<or> frontend = front_unknown
      then result
      else let result = mark_available feat_portable_scalar_f32 result in
        if architecture \<noteq> archk_x86_64 then result
        else if frontend = front_clang_gnu \<or> frontend = front_clang_cl
        then let result = mark_known kX86CpuFeatureBitsV2 result
             in if compiler_major_version \<ge> 14 then or_available kX86CpuFeatureBitsV2 result
                else if compiler_major_version \<noteq> 0 then or_available legacy_isa_bits result
                else result
        else if frontend = front_gcc
        then let result = mark_known kX86CpuFeatureBitsV2 result
             in if compiler_major_version \<ge> 12 then or_available kX86CpuFeatureBitsV2 result
                else if compiler_major_version \<ge> 8 then or_available legacy_isa_bits result
                else result
        else if frontend = front_msvc then mark_known kX86CpuFeatureBitsV2 result
        else if frontend = front_unknown then empty_domain
        else result)"

section \<open>Probes\<close>

text \<open>The build and the machine: the version macros, the highest CPUID leaf, the registers of a leaf
  and subleaf, the value of XCR0, and the permission word of \<^verbatim>\<open>ARCH_GET_XCOMP_PERM\<close> (\<open>None\<close> when the
  call is not there or fails).\<close>

record cpuid_registers =
  reg_eax :: u32
  reg_ebx :: u32
  reg_ecx :: u32
  reg_edx :: u32

record cpu_environment =
  env_build :: build_symbols
  env_clang_major :: u32
  env_gnuc :: u32
  env_msc_ver :: u32
  env_cpuid_max :: u32
  env_cpuid :: "u32 \<Rightarrow> u32 \<Rightarrow> cpuid_registers"
  env_xcr0 :: u64
  env_xcomp_perm :: "u64 option"

definition compile_frontend_major_version :: "cpu_environment \<Rightarrow> u32" where
  "compile_frontend_major_version env =
     (let b = env_build env in
      if def_clang b then env_clang_major env
      else if def_GNUC b \<and> \<not> def_MSC_VER b then env_gnuc env
      else if def_MSC_VER b then env_msc_ver env
      else 0)"

definition probe_compiled :: "cpu_environment \<Rightarrow> bool" where
  "probe_compiled env \<longleftrightarrow>
     (let b = env_build env in def_x86_64 b \<and> (def_MSC_VER b \<or> def_clang b \<or> def_GNUC b))"

definition read_cpuid :: "cpu_environment \<Rightarrow> u32 \<Rightarrow> u32 \<Rightarrow> cpuid_registers option" where
  "read_cpuid env leaf subleaf =
     (if probe_compiled env
      then if leaf > env_cpuid_max env then None else Some (env_cpuid env leaf subleaf)
      else None)"

definition read_xcr0 :: "cpu_environment \<Rightarrow> u64 option" where
  "read_xcr0 env = (if probe_compiled env then Some (env_xcr0 env) else None)"

definition read_amx_permission :: "cpu_environment \<Rightarrow> bool option" where
  "read_amx_permission env =
     (if def_linux (env_build env) \<and> def_x86_64 (env_build env)
      then case env_xcomp_perm env of
             None \<Rightarrow> None | Some permissions \<Rightarrow> Some (permissions AND push_bit 18 1 \<noteq> 0)
      else None)"

section \<open>Discovery\<close>

definition reg_bit :: "u32 \<Rightarrow> nat \<Rightarrow> bool" where
  "reg_bit r n \<longleftrightarrow> r AND push_bit n 1 \<noteq> 0"

definition mark_if :: "bool \<Rightarrow> CpuFeatureV2 \<Rightarrow> CpuFeatureDomainV2 \<Rightarrow> CpuFeatureDomainV2" where
  "mark_if c f d = (if c then mark_available f d else d)"

text \<open>The marks on the hardware domain, given leaf 1: from leaf 1, leaf 7 subleaf 0 and leaf 7
  subleaf 1.\<close>

definition discover_hardware ::
  "cpu_environment \<Rightarrow> cpuid_registers \<Rightarrow> CpuFeatureDomainV2 \<Rightarrow> CpuFeatureDomainV2" where
  "discover_hardware env leaf1 hw =
     (let hw = mark_known kX86CpuFeatureBitsV2 hw;
          hardware_avx = reg_bit (reg_ecx leaf1) 28;
          hardware_fma = reg_bit (reg_ecx leaf1) 12;
          hw = mark_if (hardware_avx \<and> hardware_fma) feat_fma hw;
          (hw, maximum_leaf7_subleaf) =
            (case read_cpuid env 7 0 of
               None \<Rightarrow> (hw, 0)
             | Some leaf7_0 \<Rightarrow>
                 (mark_if (reg_bit (reg_edx leaf7_0) 25) feat_amx_int8
                 (mark_if (reg_bit (reg_edx leaf7_0) 22) feat_amx_bf16
                 (mark_if (reg_bit (reg_edx leaf7_0) 24) feat_amx_tile
                 (mark_if (reg_bit (reg_ecx leaf7_0) 11) feat_avx512vnni
                 (mark_if (reg_bit (reg_ebx leaf7_0) 31) feat_avx512vl
                 (mark_if (reg_bit (reg_ebx leaf7_0) 30) feat_avx512bw
                 (mark_if (reg_bit (reg_ebx leaf7_0) 17) feat_avx512dq
                 (mark_if (reg_bit (reg_ebx leaf7_0) 16) feat_avx512f
                 (mark_if (hardware_avx \<and> reg_bit (reg_ebx leaf7_0) 5) feat_avx2 hw)))))))),
                  reg_eax leaf7_0))
      in if maximum_leaf7_subleaf \<ge> 1
         then case read_cpuid env 7 1 of
                None \<Rightarrow> hw
              | Some leaf7_1 \<Rightarrow> mark_if (reg_bit (reg_eax leaf7_1) 5) feat_avx512bf16 hw
         else hw)"

definition kAvx512FeaturesV2 :: "CpuFeatureV2 list" where
  "kAvx512FeaturesV2 = [feat_avx512f, feat_avx512dq, feat_avx512bw, feat_avx512vl,
     feat_avx512vnni, feat_avx512bf16]"

definition kAmxFeaturesV2 :: "CpuFeatureV2 list" where
  "kAmxFeaturesV2 = [feat_amx_tile, feat_amx_bf16, feat_amx_int8]"

text \<open>A range-for over features that marks those the hardware has.\<close>

definition mark_present ::
  "bool \<Rightarrow> CpuFeatureDomainV2 \<Rightarrow> CpuFeatureV2 list \<Rightarrow> CpuFeatureDomainV2 \<Rightarrow> CpuFeatureDomainV2" where
  "mark_present c hw fs os = fold (\<lambda>f os. mark_if (c \<and> feature_available hw f) f os) fs os"

definition amx_bits :: u64 where
  "amx_bits = feature_bit_v2 feat_amx_tile OR feature_bit_v2 feat_amx_bf16 OR
     feature_bit_v2 feat_amx_int8"

definition forget :: "u64 \<Rightarrow> CpuFeatureDomainV2 \<Rightarrow> CpuFeatureDomainV2" where
  "forget bits d = \<lparr>dom_known = dom_known d AND NOT bits, dom_available = dom_available d AND NOT bits\<rparr>"

text \<open>The part that runs when XCR0 was read.\<close>

definition discover_amx :: "cpu_environment \<Rightarrow> u64 \<Rightarrow> CpuCapabilitiesV2 \<Rightarrow> CpuCapabilitiesV2" where
  "discover_amx env xcr0 r =
     (let hw = cap2_hardware r in
      if feature_available hw feat_amx_tile \<or> feature_available hw feat_amx_bf16 \<or>
         feature_available hw feat_amx_int8
      then case read_amx_permission env of
          None \<Rightarrow> r\<lparr>cap2_amx_permission_known := False, cap2_amx_permission_granted := False,
                    cap2_os_enabled := forget amx_bits (cap2_os_enabled r)\<rparr>
        | Some permission \<Rightarrow>
            (let r = r\<lparr>cap2_amx_permission_known := True,
                       cap2_amx_permission_granted := permission\<rparr>
             in if permission \<and> xcr0 AND kAmxXstate = kAmxXstate
                then r\<lparr>cap2_os_enabled := mark_present True hw kAmxFeaturesV2 (cap2_os_enabled r)\<rparr>
                else r)
      else r\<lparr>cap2_amx_permission_known := True, cap2_amx_permission_granted := False\<rparr>)"

definition discover_os :: "cpu_environment \<Rightarrow> cpuid_registers \<Rightarrow> CpuCapabilitiesV2 \<Rightarrow> CpuCapabilitiesV2"
where
  "discover_os env leaf1 r =
     (let hw = cap2_hardware r;
          r = r\<lparr>cap2_os_enabled := mark_known kX86CpuFeatureBitsV2 (cap2_os_enabled r)\<rparr>
      in case (if reg_bit (reg_ecx leaf1) 27 then read_xcr0 env else None) of
           None \<Rightarrow> r
         | Some xcr0 \<Rightarrow>
             (let avx_state = (xcr0 AND kAvxXstate = kAvxXstate);
                  avx512_state = (xcr0 AND kAvx512Xstate = kAvx512Xstate);
                  os = mark_if (avx_state \<and> feature_available hw feat_avx2) feat_avx2
                         (cap2_os_enabled r);
                  os = mark_if (avx_state \<and> feature_available hw feat_fma) feat_fma os;
                  os = mark_present avx512_state hw kAvx512FeaturesV2 os
              in discover_amx env xcr0
                   (r\<lparr>cap2_os_xstate_mask := xcr0, cap2_os_xstate_mask_known := True,
                      cap2_os_enabled := os\<rparr>)))"

text \<open>The record before any probe: architecture, the portable baseline, the compiler domain and the
  domains reported by the implementation.\<close>

definition discover_base :: "cpu_environment \<Rightarrow> CpuImplementationAvailabilityV2 \<Rightarrow> CpuCapabilitiesV2" where
  "discover_base env implementation =
     (let architecture = compile_architecture (env_build env);
          r = default_capabilities_v2\<lparr>cap2_architecture := architecture,
                cap2_hardware := mark_available feat_portable_scalar_f32 empty_domain,
                cap2_os_enabled := mark_available feat_portable_scalar_f32 empty_domain,
                cap2_compiler := cpu_compiler_feature_domain_v2 architecture
                  (compile_frontend (env_build env)) (compile_frontend_major_version env)\<rparr>
      in if impl_version implementation = 2 \<and>
            domain_well_formed (impl_compiled implementation) \<and>
            domain_well_formed (impl_runtime_validated implementation)
         then r\<lparr>cap2_implementation := impl_compiled implementation,
                cap2_runtime_validation := impl_runtime_validated implementation\<rparr>
         else r)"

definition discover_cpu_capabilities_v2 ::
  "cpu_environment \<Rightarrow> CpuImplementationAvailabilityV2 \<Rightarrow> CpuCapabilitiesV2" where
  "discover_cpu_capabilities_v2 env implementation =
     (if compile_architecture (env_build env) = archk_unknown then default_capabilities_v2
      else let r = discover_base env implementation in
        if cap2_architecture r \<noteq> archk_x86_64
        then r\<lparr>cap2_usable_vector_bits := derive_usable_vector_bits r\<rparr>
        else case read_cpuid env 1 0 of
            None \<Rightarrow> r\<lparr>cap2_usable_vector_bits := derive_usable_vector_bits r\<rparr>
          | Some leaf1 \<Rightarrow>
              (let r = r\<lparr>cap2_hardware := discover_hardware env leaf1 (cap2_hardware r)\<rparr>;
                   r = discover_os env leaf1 r
               in r\<lparr>cap2_usable_vector_bits := derive_usable_vector_bits r\<rparr>))"

section \<open>What the runtime implements\<close>

text \<open>The macros \<^verbatim>\<open>MATCORE_MDSLC_PACKED_AVX2_COMPILED\<close> and \<^verbatim>\<open>MATCORE_MDSLC_PACKED_AVX512_COMPILED\<close>, and
  whether each micro kernel's products come out as the self test expects (floating-point code, an
  input here).\<close>

definition cpu_packed_avx2_build_available_v1 :: "cpu_environment \<Rightarrow> bool" where
  "cpu_packed_avx2_build_available_v1 env \<longleftrightarrow>
     (let b = env_build env in def_x86_64 b \<and> (def_clang b \<or> def_GNUC b))"

definition cpu_packed_avx512_build_available_v1 :: "cpu_environment \<Rightarrow> bool" where
  "cpu_packed_avx512_build_available_v1 env \<longleftrightarrow>
     (let b = env_build env in def_x86_64 b \<and> (def_clang b \<or> def_GNUC b))"

record self_test_products =
  avx2_products_expected :: bool
  avx512_products_expected :: bool

definition run_packed_microkernel_self_test_v1 :: "bool \<Rightarrow> bool \<Rightarrow> bool" where
  "run_packed_microkernel_self_test_v1 products_expected runtime_usable =
     (if \<not> runtime_usable then False else products_expected)"

definition execution_safe :: "CpuCapabilitiesV2 \<Rightarrow> CpuFeatureV2 \<Rightarrow> bool" where
  "execution_safe r f \<longleftrightarrow> feature_available (cap2_hardware r) f \<and>
     feature_available (cap2_os_enabled r) f \<and> feature_available (cap2_compiler r) f"

definition cpu_packed_avx2_runtime_usable_v1 :: "cpu_environment \<Rightarrow> bool" where
  "cpu_packed_avx2_runtime_usable_v1 env =
     (if cpu_packed_avx2_build_available_v1 env
      then let r = discover_cpu_capabilities_v2 env unknown_cpu_implementation_availability_v2
           in if validate_cpu_capabilities_v2 r \<noteq> None then False
              else cap2_architecture r = archk_x86_64 \<and> execution_safe r feat_avx2 \<and>
                   execution_safe r feat_fma
      else False)"

definition cpu_packed_avx512_runtime_usable_v1 :: "cpu_environment \<Rightarrow> bool" where
  "cpu_packed_avx512_runtime_usable_v1 env =
     (if cpu_packed_avx512_build_available_v1 env
      then let r = discover_cpu_capabilities_v2 env unknown_cpu_implementation_availability_v2
           in if validate_cpu_capabilities_v2 r \<noteq> None then False
              else cap2_architecture r = archk_x86_64 \<and> execution_safe r feat_avx512f \<and>
                   execution_safe r feat_fma
      else False)"

definition cpu_runtime_self_tests_v1 :: "cpu_environment \<Rightarrow> self_test_products \<Rightarrow> bool \<times> bool" where
  "cpu_runtime_self_tests_v1 env b =
     (run_packed_microkernel_self_test_v1 (avx2_products_expected b)
        (cpu_packed_avx2_build_available_v1 env \<and> cpu_packed_avx2_runtime_usable_v1 env),
      run_packed_microkernel_self_test_v1 (avx512_products_expected b)
        (cpu_packed_avx512_build_available_v1 env \<and> cpu_packed_avx512_runtime_usable_v1 env))"

definition cpu_implementation_availability_v2 ::
  "cpu_environment \<Rightarrow> self_test_products \<Rightarrow> CpuImplementationAvailabilityV2" where
  "cpu_implementation_availability_v2 env b =
     (let known = (if def_x86_64 (env_build env) then kKnownCpuFeatureBitsV2
                   else if def_aarch64 (env_build env) then feature_bit_v2 feat_portable_scalar_f32
                   else 0);
          portable = feature_bit_v2 feat_portable_scalar_f32;
          avx2_fma = feature_bit_v2 feat_avx2 OR feature_bit_v2 feat_fma;
          avx512_fma = feature_bit_v2 feat_avx512f OR feature_bit_v2 feat_fma;
          compiled = portable OR (if cpu_packed_avx2_build_available_v1 env then avx2_fma else 0)
                              OR (if cpu_packed_avx512_build_available_v1 env then avx512_fma else 0);
          (avx2, avx512) = cpu_runtime_self_tests_v1 env b;
          validated = portable OR (if avx2 then avx2_fma else 0)
                               OR (if avx512 then avx512_fma else 0)
      in \<lparr>impl_version = 2,
          impl_compiled = \<lparr>dom_known = known, dom_available = compiled\<rparr>,
          impl_runtime_validated = \<lparr>dom_known = known, dom_available = validated\<rparr>\<rparr>)"

definition discover_runtime_cpu_capabilities_v2 ::
  "cpu_environment \<Rightarrow> self_test_products \<Rightarrow> CpuCapabilitiesV2" where
  "discover_runtime_cpu_capabilities_v2 env b =
     discover_cpu_capabilities_v2 env (cpu_implementation_availability_v2 env b)"

definition capability_detection_complete_v2 :: "CpuCapabilitiesV2 \<Rightarrow> bool" where
  "capability_detection_complete_v2 r \<longleftrightarrow>
     validate_cpu_capabilities_v2 r = None \<and> cap2_architecture r \<noteq> archk_unknown \<and>
     domain_complete_v2 (cap2_hardware r) (cap2_architecture r) \<and>
     domain_complete_v2 (cap2_os_enabled r) (cap2_architecture r) \<and>
     domain_complete_v2 (cap2_compiler r) (cap2_architecture r)"

section \<open>Domains, feature by feature\<close>

lemma bit_less_64: "bit (w::u64) i \<Longrightarrow> i < 64"
  by (drule bit_imp_le_length) simp

lemma subset_bits: "(a::u64) AND NOT b = 0 \<longleftrightarrow> (\<forall>i. bit a i \<longrightarrow> bit b i)"
  by (auto simp: bit_eq_iff bit_simps dest: bit_less_64)

lemma superset_bits: "(a::u64) AND b = b \<longleftrightarrow> (\<forall>i. bit b i \<longrightarrow> bit a i)"
  by (auto simp: bit_eq_iff bit_simps dest: bit_less_64)

lemma feature_index_less [simp]: "feature_index f < 12"
  by (cases f) simp_all

lemma bit_feature_bit [simp]: "bit (feature_bit_v2 f) i \<longleftrightarrow> i = feature_index f"
proof -
  have "feature_index f < 64" by (rule less_trans [OF feature_index_less]) simp
  then show ?thesis unfolding feature_bit_v2_def bit_push_bit_iff bit_1_iff by auto
qed

lemma and_feature_bit: "(w::u64) AND feature_bit_v2 f \<noteq> 0 \<longleftrightarrow> bit w (feature_index f)"
proof
  assume "w AND feature_bit_v2 f \<noteq> 0"
  then obtain i where "bit (w AND feature_bit_v2 f) i"
    by (auto simp: bit_eq_iff)
  then show "bit w (feature_index f)" by (auto simp: bit_and_iff)
next
  assume "bit w (feature_index f)"
  then have "bit (w AND feature_bit_v2 f) (feature_index f)" by (simp add: bit_and_iff)
  then show "w AND feature_bit_v2 f \<noteq> 0" by auto
qed

lemma feature_index_inject [simp]: "feature_index f = feature_index g \<longleftrightarrow> f = g"
  by (cases f; cases g) simp_all

lemma feature_of_index:
  assumes "i < 12"
  obtains f where "feature_index f = i"
proof -
  have "i \<in> set (map feature_index kCpuFeatureOrderV2)"
    using assms by (simp add: kCpuFeatureOrderV2_def) presburger
  then show ?thesis using that by auto
qed

lemma known_bits [simp]: "bit kKnownCpuFeatureBitsV2 i \<longleftrightarrow> i < 12"
proof -
  have "kKnownCpuFeatureBitsV2 = mask 12"
    by (simp add: kKnownCpuFeatureBitsV2_def kCpuFeatureOrderV2_def feature_bit_v2_def mask_eq_exp_minus_1)
  then have "bit kKnownCpuFeatureBitsV2 i = bit (mask 12 :: u64) i" by (rule arg_cong)
  also have "\<dots> = (i < 12)" unfolding bit_mask_iff by auto
  finally show ?thesis .
qed

lemma x86_bits [simp]: "bit kX86CpuFeatureBitsV2 i \<longleftrightarrow> 0 < i \<and> i < 12"
  by (auto simp: kX86CpuFeatureBitsV2_def bit_simps)

lemma feature_known_bit: "feature_known d f \<longleftrightarrow> bit (dom_known d) (feature_index f)"
  by (simp add: feature_known_def and_feature_bit)

lemma feature_available_bit:
  "feature_available d f \<longleftrightarrow>
     bit (dom_known d) (feature_index f) \<and> bit (dom_available d) (feature_index f)"
  by (simp add: feature_available_def feature_known_bit and_feature_bit)

lemma domain_well_formed_bits:
  "domain_well_formed d \<longleftrightarrow>
     (\<forall>i. bit (dom_known d) i \<longrightarrow> i < 12) \<and> (\<forall>i. bit (dom_available d) i \<longrightarrow> bit (dom_known d) i)"
  by (simp add: domain_well_formed_def subset_bits)

lemma well_formed_available:
  "domain_well_formed d \<Longrightarrow> bit (dom_available d) (feature_index f) = feature_available d f"
  by (auto simp: domain_well_formed_bits feature_available_bit)

lemma well_formed_subset:
  assumes "domain_well_formed d"
  shows "(\<forall>i. bit (dom_available d) i \<longrightarrow> P i) \<longleftrightarrow> (\<forall>f. feature_available d f \<longrightarrow> P (feature_index f))"
proof (intro iffI allI impI)
  fix i assume all: "\<forall>f. feature_available d f \<longrightarrow> P (feature_index f)" and "bit (dom_available d) i"
  then have "i < 12" using assms by (auto simp: domain_well_formed_bits)
  then obtain f where "feature_index f = i" by (rule feature_of_index)
  then show "P i" using all \<open>bit (dom_available d) i\<close> assms by (auto simp: well_formed_available)
qed (use assms in \<open>auto simp: feature_available_bit\<close>)

lemma known_empty [simp]: "\<not> feature_known empty_domain f"
  and available_empty [simp]: "\<not> feature_available empty_domain f"
  and well_formed_empty [simp]: "domain_well_formed empty_domain"
  by (simp_all add: feature_known_bit feature_available_bit empty_domain_def domain_well_formed_def)

lemma available_mark_available [simp]:
  "feature_available (mark_available f d) g \<longleftrightarrow> g = f \<or> feature_available d g"
  by (auto simp: feature_available_bit mark_available_def bit_simps)

lemma available_mark_if [simp]:
  "feature_available (mark_if c f d) g \<longleftrightarrow> c \<and> g = f \<or> feature_available d g"
  by (simp add: mark_if_def)

lemma well_formed_mark_available [simp]:
  "domain_well_formed d \<Longrightarrow> domain_well_formed (mark_available f d)"
  by (auto simp: domain_well_formed_bits mark_available_def bit_simps)

lemma well_formed_mark_if [simp]: "domain_well_formed d \<Longrightarrow> domain_well_formed (mark_if c f d)"
  by (simp add: mark_if_def)

lemma well_formed_mark_known [simp]:
  "domain_well_formed d \<Longrightarrow> domain_well_formed (mark_known kX86CpuFeatureBitsV2 d)"
  by (auto simp: domain_well_formed_bits mark_known_def bit_simps)

lemma available_mark_known:
  "domain_well_formed d \<Longrightarrow>
     feature_available (mark_known kX86CpuFeatureBitsV2 d) g \<longleftrightarrow> feature_available d g"
  by (auto simp: feature_available_bit mark_known_def bit_simps domain_well_formed_bits)

lemma mark_present_spec:
  "feature_available (mark_present c hw fs os) g \<longleftrightarrow>
     c \<and> g \<in> set fs \<and> feature_available hw g \<or> feature_available os g"
  "domain_well_formed os \<Longrightarrow> domain_well_formed (mark_present c hw fs os)"
  by (induction fs arbitrary: os) (auto simp: mark_present_def)

lemma amx_bits_bit: "bit amx_bits (feature_index g) \<longleftrightarrow> g \<in> set kAmxFeaturesV2"
  by (cases g) (simp_all add: amx_bits_def bit_simps kAmxFeaturesV2_def)

lemma forget_spec:
  "feature_available (forget amx_bits d) g \<longleftrightarrow> feature_available d g \<and> g \<notin> set kAmxFeaturesV2"
  "domain_well_formed d \<Longrightarrow> domain_well_formed (forget amx_bits d)"
proof -
  show "feature_available (forget amx_bits d) g \<longleftrightarrow> feature_available d g \<and> g \<notin> set kAmxFeaturesV2"
    using feature_index_less [of g]
    by (auto simp: feature_available_bit forget_def bit_simps amx_bits_bit simp del: feature_index_less)
  show "domain_well_formed d \<Longrightarrow> domain_well_formed (forget amx_bits d)"
    by (auto simp: domain_well_formed_bits forget_def bit_simps)
qed

lemmas domain_simps = available_mark_known mark_present_spec forget_spec

section \<open>Discovery, domain by domain\<close>

abbreviation portable_domain :: CpuFeatureDomainV2 where
  "portable_domain \<equiv> mark_available feat_portable_scalar_f32 empty_domain"

lemma available_or_available:
  "feature_available (or_available bits d) g \<longleftrightarrow>
     feature_available d g \<or> feature_known d g \<and> bit bits (feature_index g)"
  by (auto simp: feature_available_bit feature_known_bit or_available_def bit_simps)

lemma known_mark [simp]:
  "feature_known (mark_known kX86CpuFeatureBitsV2 d) g \<longleftrightarrow>
     feature_known d g \<or> g \<noteq> feat_portable_scalar_f32"
  "feature_known (mark_available f d) g \<longleftrightarrow> g = f \<or> feature_known d g"
  "feature_known (or_available bits d) g = feature_known d g"
  by (cases g; simp add: feature_known_bit mark_known_def bit_simps)
     (auto simp: feature_known_bit mark_available_def or_available_def bit_simps)

lemma legacy_isa_bit:
  "bit legacy_isa_bits i \<longleftrightarrow> i \<in> {1..7}"
  by (auto simp: legacy_isa_bits_def bit_simps)

lemma well_formed_or_available:
  assumes "domain_well_formed d" "\<And>i. bit bits i \<Longrightarrow> bit (dom_known d) i"
  shows "domain_well_formed (or_available bits d)"
  using assms by (auto simp: domain_well_formed_bits or_available_def bit_simps)

lemma if_memI: "(c \<Longrightarrow> x \<in> S) \<Longrightarrow> (\<not> c \<Longrightarrow> y \<in> S) \<Longrightarrow> (if c then x else y) \<in> S"
  by simp

lemma compiler_domain_cases:
  "cpu_compiler_feature_domain_v2 a fe v \<in>
     {empty_domain, portable_domain, mark_known kX86CpuFeatureBitsV2 portable_domain,
      or_available kX86CpuFeatureBitsV2 (mark_known kX86CpuFeatureBitsV2 portable_domain),
      or_available legacy_isa_bits (mark_known kX86CpuFeatureBitsV2 portable_domain)}"
  unfolding cpu_compiler_feature_domain_v2_def Let_def
  by (intro if_memI; simp only: insert_iff simp_thms)

lemma bit_mark_known:
  "bit (dom_known (mark_known kX86CpuFeatureBitsV2 d)) i \<longleftrightarrow> bit (dom_known d) i \<or> 0 < i \<and> i < 12"
  by (simp add: mark_known_def bit_simps)

lemma well_formed_compiler: "domain_well_formed (cpu_compiler_feature_domain_v2 a fe v)"
  using compiler_domain_cases [of a fe v]
  by (elim insertE emptyE; simp)
    (auto intro!: well_formed_or_available simp: bit_mark_known legacy_isa_bit)

lemma compiler_dependencies: "dependencies_satisfied (cpu_compiler_feature_domain_v2 a fe v)"
  using compiler_domain_cases [of a fe v]
  by (elim insertE emptyE; simp add: dependencies_satisfied_def available_or_available
      available_mark_known legacy_isa_bit)

lemma compiler_portable:
  "feature_available (cpu_compiler_feature_domain_v2 a fe v) feat_portable_scalar_f32 \<longleftrightarrow>
     known_archk a \<and> known_front fe \<and> a \<noteq> archk_unknown \<and> fe \<noteq> front_unknown"
  by (simp add: cpu_compiler_feature_domain_v2_def Let_def available_or_available
      available_mark_known)

lemma compiler_non_x86:
  "a \<noteq> archk_x86_64 \<Longrightarrow> feature_available (cpu_compiler_feature_domain_v2 a fe v) f \<Longrightarrow>
     f = feat_portable_scalar_f32"
  by (simp add: cpu_compiler_feature_domain_v2_def Let_def split: if_splits)

text \<open>The architectural rules CPUID follows: no AVX-512 extension without the foundation, no AMX
  data type without tiles.\<close>

definition isa_consistent :: "cpu_environment \<Rightarrow> bool" where
  "isa_consistent env \<longleftrightarrow>
     (let r0 = env_cpuid env 7 0; r1 = env_cpuid env 7 1 in
      (reg_bit (reg_ebx r0) 17 \<or> reg_bit (reg_ebx r0) 30 \<or> reg_bit (reg_ebx r0) 31 \<or>
       reg_bit (reg_ecx r0) 11 \<or> (reg_eax r0 \<ge> 1 \<and> reg_bit (reg_eax r1) 5)
         \<longrightarrow> reg_bit (reg_ebx r0) 16) \<and>
      (reg_bit (reg_edx r0) 22 \<or> reg_bit (reg_edx r0) 25 \<longrightarrow> reg_bit (reg_edx r0) 24))"

lemma read_cpuid_Some: "read_cpuid env l s = Some r \<Longrightarrow> r = env_cpuid env l s"
  by (auto simp: read_cpuid_def split: if_splits)

lemma hardware_well_formed:
  "domain_well_formed hw \<Longrightarrow> domain_well_formed (discover_hardware env leaf1 hw)"
  by (simp add: discover_hardware_def Let_def split: option.split)

lemma hardware_portable:
  "feature_available (discover_hardware env leaf1 portable_domain) feat_portable_scalar_f32"
  by (simp add: discover_hardware_def Let_def available_mark_known split: option.split)

lemma hardware_dependencies:
  assumes "isa_consistent env"
  shows "dependencies_satisfied (discover_hardware env leaf1 portable_domain)"
  using assms
  by (auto simp: discover_hardware_def Let_def available_mark_known dependencies_satisfied_def
      isa_consistent_def dest!: read_cpuid_Some split: option.splits)

lemma discover_os_frame [simp]:
  "cap2_version (discover_os env leaf1 r) = cap2_version r"
  "cap2_architecture (discover_os env leaf1 r) = cap2_architecture r"
  "cap2_hardware (discover_os env leaf1 r) = cap2_hardware r"
  "cap2_compiler (discover_os env leaf1 r) = cap2_compiler r"
  "cap2_implementation (discover_os env leaf1 r) = cap2_implementation r"
  "cap2_runtime_validation (discover_os env leaf1 r) = cap2_runtime_validation r"
  by (auto simp: discover_os_def discover_amx_def Let_def split: option.split)

lemma discover_os_well_formed:
  assumes "domain_well_formed (cap2_os_enabled r)"
  shows "domain_well_formed (cap2_os_enabled (discover_os env leaf1 r))"
  using assms
  by (auto simp: discover_os_def discover_amx_def Let_def domain_simps split: option.split)

lemma discover_os_available:
  assumes "cap2_os_enabled r = portable_domain"
    and "feature_available (cap2_os_enabled (discover_os env leaf1 r)) f"
  shows "f = feat_portable_scalar_f32 \<or> feature_available (cap2_hardware r) f"
  using assms
  by (auto simp: discover_os_def discover_amx_def Let_def domain_simps split: option.splits if_splits)

lemma discover_os_portable:
  assumes "cap2_os_enabled r = portable_domain"
  shows "feature_available (cap2_os_enabled (discover_os env leaf1 r)) feat_portable_scalar_f32"
  using assms
  by (auto simp: discover_os_def discover_amx_def Let_def domain_simps kAmxFeaturesV2_def
      split: option.splits if_splits)

lemma discover_os_dependencies:
  assumes "cap2_os_enabled r = portable_domain" "dependencies_satisfied (cap2_hardware r)"
  shows "dependencies_satisfied (cap2_os_enabled (discover_os env leaf1 r))"
  using assms
  by (auto simp: discover_os_def discover_amx_def Let_def domain_simps kAmxFeaturesV2_def
      kAvx512FeaturesV2_def dependencies_satisfied_def split: option.splits if_splits)

lemma discover_os_amx:
  assumes "cap2_os_enabled r = portable_domain" "\<not> cap2_amx_permission_granted r"
  shows "amx_failure (discover_os env leaf1 r) = None"
  using assms
  by (auto simp: discover_os_def discover_amx_def Let_def domain_simps kAmxFeaturesV2_def
      kAvx512FeaturesV2_def amx_failure_def split: option.splits if_splits)

lemma discover_os_xstate:
  assumes "cap2_os_enabled r = portable_domain" "\<not> cap2_os_xstate_mask_known r"
  shows "xstate_failure (discover_os env leaf1 r) = None"
  using assms
  by (auto simp: discover_os_def discover_amx_def Let_def domain_simps kAmxFeaturesV2_def
      kAvx512FeaturesV2_def xstate_failure_def split: option.splits if_splits)

section \<open>Valid records\<close>

lemma domain_failure_None: "domain_failure d = None \<longleftrightarrow> domain_well_formed d \<and> dependencies_satisfied d"
  by (simp add: domain_failure_def)

abbreviation all_domains :: "CpuCapabilitiesV2 \<Rightarrow> CpuFeatureDomainV2 list" where
  "all_domains r \<equiv> [cap2_hardware r, cap2_os_enabled r, cap2_compiler r, cap2_implementation r,
     cap2_runtime_validation r]"

lemma baseline_failure_None:
  assumes "\<forall>d \<in> set (all_domains r). domain_well_formed d"
  shows "baseline_failure r = None \<longleftrightarrow>
    execution_safe r feat_portable_scalar_f32 \<and>
    (\<forall>f. feature_available (cap2_os_enabled r) f \<longrightarrow> feature_available (cap2_hardware r) f) \<and>
    (\<forall>f. feature_available (cap2_runtime_validation r) f \<longrightarrow> has_usable_feature_v2 r f)"
proof -
  have wf: "domain_well_formed (cap2_hardware r)" "domain_well_formed (cap2_os_enabled r)"
    "domain_well_formed (cap2_compiler r)" "domain_well_formed (cap2_implementation r)"
    "domain_well_formed (cap2_runtime_validation r)"
    using assms by simp_all
  have portable: "domain_well_formed d \<Longrightarrow>
      dom_available d AND feature_bit_v2 feat_portable_scalar_f32 = 0 \<longleftrightarrow>
      \<not> feature_available d feat_portable_scalar_f32" for d
    using and_feature_bit [of "dom_available d" feat_portable_scalar_f32]
      well_formed_available [of d feat_portable_scalar_f32] by blast
  have os: "(\<forall>i. bit (dom_available (cap2_os_enabled r)) i \<longrightarrow> bit (dom_available (cap2_hardware r)) i)
      \<longleftrightarrow> (\<forall>f. feature_available (cap2_os_enabled r) f \<longrightarrow> feature_available (cap2_hardware r) f)"
    using wf by (simp add: well_formed_subset well_formed_available)
  have rv: "(\<forall>i. bit (dom_available (cap2_runtime_validation r)) i \<longrightarrow>
        bit (dom_available (cap2_hardware r) AND dom_available (cap2_os_enabled r) AND
             dom_available (cap2_compiler r) AND dom_available (cap2_implementation r)) i)
      \<longleftrightarrow> (\<forall>f. feature_available (cap2_runtime_validation r) f \<longrightarrow> has_usable_feature_v2 r f)"
    using wf
    by (simp add: well_formed_subset well_formed_available bit_and_iff has_usable_feature_v2_def
        conj_ac)
  show ?thesis
    unfolding baseline_failure_def subset_bits os rv portable [OF wf(1)] portable [OF wf(2)]
      portable [OF wf(3)] execution_safe_def
    by auto
qed

lemma non_x86_failure_None:
  assumes "\<forall>d \<in> set (all_domains r). domain_well_formed d"
  shows "non_x86_failure r = None \<longleftrightarrow>
    cap2_architecture r = archk_x86_64 \<or>
    (\<forall>d \<in> set (all_domains r). \<forall>f. feature_available d f \<longrightarrow> f = feat_portable_scalar_f32) \<and>
    \<not> cap2_os_xstate_mask_known r \<and> \<not> cap2_amx_permission_known r"
proof -
  have lift: "(\<forall>i. bit (dom_available d) i \<longrightarrow> \<not> (0 < i \<and> i < 12)) \<longleftrightarrow>
      (\<forall>f. feature_available d f \<longrightarrow> f = feat_portable_scalar_f32)"
    if "domain_well_formed d" for d
    unfolding well_formed_subset [OF that] 
    by (metis feature_index.simps(1) feature_index_inject feature_index_less neq0_conv)
  have zero: "(w::u64) = 0 \<longleftrightarrow> (\<forall>i. \<not> bit w i)" for w
    by (auto simp: bit_eq_iff dest: bit_less_64)
  have x86: "(dom_available (cap2_hardware r) OR dom_available (cap2_os_enabled r) OR
        dom_available (cap2_compiler r) OR dom_available (cap2_implementation r) OR
        dom_available (cap2_runtime_validation r)) AND kX86CpuFeatureBitsV2 = 0 \<longleftrightarrow>
      (\<forall>d \<in> set (all_domains r). \<forall>i. bit (dom_available d) i \<longrightarrow> \<not> (0 < i \<and> i < 12))"
    unfolding zero bit_and_iff bit_or_iff x86_bits by auto
  have "(\<forall>d \<in> set (all_domains r). \<forall>i. bit (dom_available d) i \<longrightarrow> \<not> (0 < i \<and> i < 12)) \<longleftrightarrow>
      (\<forall>d \<in> set (all_domains r). \<forall>f. feature_available d f \<longrightarrow> f = feat_portable_scalar_f32)"
    using assms lift by blast
  then show ?thesis
    unfolding non_x86_failure_def Let_def x86 by auto
qed

lemma validate_v2_iff:
  assumes "cap2_architecture r \<noteq> archk_unknown"
  shows "validate_cpu_capabilities_v2 r = None \<longleftrightarrow>
    cap2_version r = 2 \<and> known_archk (cap2_architecture r) \<and>
    (\<forall>d \<in> set (all_domains r). domain_well_formed d \<and> dependencies_satisfied d) \<and>
    baseline_failure r = None \<and> non_x86_failure r = None \<and> amx_failure r = None \<and>
    xstate_failure r = None \<and> cap2_usable_vector_bits r = derive_usable_vector_bits r"
proof -
  define ff where "ff = first_failure (map domain_failure (all_domains r))"
  have good: "(\<forall>d \<in> set (all_domains r). domain_well_formed d \<and> dependencies_satisfied d) \<longleftrightarrow> ff = None"
    by (simp only: ff_def first_failure_None set_map ball_simps domain_failure_None)
  have v: "validate_cpu_capabilities_v2 r = None \<longleftrightarrow>
      cap2_version r = 2 \<and> known_archk (cap2_architecture r) \<and> ff = None \<and>
      first_failure
            [baseline_failure r, non_x86_failure r, amx_failure r, xstate_failure r,
             (if cap2_usable_vector_bits r \<noteq> derive_usable_vector_bits r
              then Some ''usable vector width disagrees with usable feature domains''
              else None)] = None"
    unfolding validate_cpu_capabilities_v2_def ff_def [symmetric]
    using assms by (auto split: option.splits)
  show ?thesis unfolding good v by (auto simp: first_failure_None)
qed

section \<open>Discovered records are valid\<close>

lemma vector_bits_irrelevant [simp]:
  "baseline_failure (r\<lparr>cap2_usable_vector_bits := x\<rparr>) = baseline_failure r"
  "non_x86_failure (r\<lparr>cap2_usable_vector_bits := x\<rparr>) = non_x86_failure r"
  "amx_failure (r\<lparr>cap2_usable_vector_bits := x\<rparr>) = amx_failure r"
  "xstate_failure (r\<lparr>cap2_usable_vector_bits := x\<rparr>) = xstate_failure r"
  "derive_usable_vector_bits (r\<lparr>cap2_usable_vector_bits := x\<rparr>) = derive_usable_vector_bits r"
  "execution_safe (r\<lparr>cap2_usable_vector_bits := x\<rparr>) f = execution_safe r f"
  by (simp_all add: baseline_failure_def non_x86_failure_def amx_failure_def xstate_failure_def
      derive_usable_vector_bits_def has_usable_feature_v2_def execution_safe_def)

text \<open>The record the last assignment completes.\<close>

definition probed :: "cpu_environment \<Rightarrow> CpuImplementationAvailabilityV2 \<Rightarrow> CpuCapabilitiesV2" where
  "probed env i =
     (let r = discover_base env i in
      if cap2_architecture r \<noteq> archk_x86_64 then r
      else case read_cpuid env 1 0 of None \<Rightarrow> r
        | Some leaf1 \<Rightarrow> discover_os env leaf1
            (r\<lparr>cap2_hardware := discover_hardware env leaf1 (cap2_hardware r)\<rparr>))"

lemma discover_probed:
  "compile_architecture (env_build env) \<noteq> archk_unknown \<Longrightarrow>
     discover_cpu_capabilities_v2 env i =
       (probed env i)\<lparr>cap2_usable_vector_bits := derive_usable_vector_bits (probed env i)\<rparr>"
  by (simp add: discover_cpu_capabilities_v2_def probed_def Let_def split: option.split)

lemma base_fields [simp]:
  "cap2_version (discover_base env i) = 2"
  "cap2_architecture (discover_base env i) = compile_architecture (env_build env)"
  "cap2_hardware (discover_base env i) = portable_domain"
  "cap2_os_enabled (discover_base env i) = portable_domain"
  "cap2_compiler (discover_base env i) =
     cpu_compiler_feature_domain_v2 (compile_architecture (env_build env))
       (compile_frontend (env_build env)) (compile_frontend_major_version env)"
  "cap2_os_xstate_mask_known (discover_base env i) = False"
  "cap2_amx_permission_known (discover_base env i) = False"
  "cap2_amx_permission_granted (discover_base env i) = False"
  by (simp_all add: discover_base_def Let_def default_capabilities_v2_def)

lemma base_implementation:
  assumes "impl_version i = 2" "domain_well_formed (impl_compiled i)"
    "domain_well_formed (impl_runtime_validated i)"
  shows "cap2_implementation (discover_base env i) = impl_compiled i"
    "cap2_runtime_validation (discover_base env i) = impl_runtime_validated i"
  using assms by (simp_all add: discover_base_def Let_def)

lemma probed_frame [simp]:
  "cap2_version (probed env i) = 2"
  "cap2_architecture (probed env i) = compile_architecture (env_build env)"
  "cap2_compiler (probed env i) = cap2_compiler (discover_base env i)"
  "cap2_implementation (probed env i) = cap2_implementation (discover_base env i)"
  "cap2_runtime_validation (probed env i) = cap2_runtime_validation (discover_base env i)"
  by (simp_all add: probed_def Let_def split: option.split)

lemma portable_dependencies [simp]: "dependencies_satisfied portable_domain"
  and empty_dependencies [simp]: "dependencies_satisfied empty_domain"
  by (simp_all add: dependencies_satisfied_def)

text \<open>Hardware, OS and compiler do not depend on what the implementation reports.\<close>

lemma discover_os_cong:
  assumes "cap2_os_enabled r = cap2_os_enabled s" "cap2_hardware r = cap2_hardware s"
  shows "cap2_os_enabled (discover_os env leaf1 r) = cap2_os_enabled (discover_os env leaf1 s)"
  using assms by (simp add: discover_os_def discover_amx_def Let_def split: option.split)

lemma probed_independent:
  "cap2_hardware (probed env i) = cap2_hardware (probed env j)"
  "cap2_os_enabled (probed env i) = cap2_os_enabled (probed env j)"
  by (auto simp: probed_def Let_def split: option.split intro: discover_os_cong)

lemma execution_safe_independent:
  "execution_safe (discover_cpu_capabilities_v2 env i) f =
     execution_safe (discover_cpu_capabilities_v2 env j) f"
proof (cases "compile_architecture (env_build env) = archk_unknown")
  case True
  then show ?thesis by (simp add: discover_cpu_capabilities_v2_def)
next
  case False
  show ?thesis
    unfolding execution_safe_def discover_probed [OF False]
    by (simp add: probed_independent [of env i j])
qed

lemma probed_os_facts:
  assumes "isa_consistent env"
  shows "domain_well_formed (cap2_hardware (probed env i))"
    "domain_well_formed (cap2_os_enabled (probed env i))"
    "dependencies_satisfied (cap2_hardware (probed env i))"
    "dependencies_satisfied (cap2_os_enabled (probed env i))"
    "feature_available (cap2_hardware (probed env i)) feat_portable_scalar_f32"
    "feature_available (cap2_os_enabled (probed env i)) feat_portable_scalar_f32"
    "feature_available (cap2_os_enabled (probed env i)) f \<Longrightarrow>
       feature_available (cap2_hardware (probed env i)) f"
    "amx_failure (probed env i) = None"
    "xstate_failure (probed env i) = None"
proof -
  let ?b = "discover_base env i"
  have "domain_well_formed (cap2_hardware (probed env i)) \<and>
    domain_well_formed (cap2_os_enabled (probed env i)) \<and>
    dependencies_satisfied (cap2_hardware (probed env i)) \<and>
    dependencies_satisfied (cap2_os_enabled (probed env i)) \<and>
    feature_available (cap2_hardware (probed env i)) feat_portable_scalar_f32 \<and>
    feature_available (cap2_os_enabled (probed env i)) feat_portable_scalar_f32 \<and>
    (\<forall>f. feature_available (cap2_os_enabled (probed env i)) f \<longrightarrow>
       feature_available (cap2_hardware (probed env i)) f) \<and>
    amx_failure (probed env i) = None \<and> xstate_failure (probed env i) = None"
  proof (cases "compile_architecture (env_build env) = archk_x86_64 \<and> read_cpuid env 1 0 \<noteq> None")
    case False
    then have "probed env i = ?b" by (auto simp: probed_def Let_def split: option.split)
    then show ?thesis by (simp add: amx_failure_def xstate_failure_def)
  next
    case True
    then obtain leaf1 where l: "read_cpuid env 1 0 = Some leaf1" by blast
    let ?r = "?b\<lparr>cap2_hardware := discover_hardware env leaf1 portable_domain\<rparr>"
    have p: "probed env i = discover_os env leaf1 ?r"
      using True l by (simp add: probed_def Let_def)
    have os: "cap2_os_enabled ?r = portable_domain" by simp
    show ?thesis
      unfolding p
      using hardware_dependencies [OF assms, of leaf1] hardware_portable [of env leaf1]
        discover_os_well_formed [of ?r env leaf1] discover_os_dependencies [OF os, of env leaf1]
        discover_os_portable [OF os, of env leaf1] discover_os_available [OF os, of env leaf1]
        discover_os_amx [OF os, of env leaf1] discover_os_xstate [OF os, of env leaf1]
      by (auto simp: hardware_well_formed)
  qed
  then show "domain_well_formed (cap2_hardware (probed env i))"
    "domain_well_formed (cap2_os_enabled (probed env i))"
    "dependencies_satisfied (cap2_hardware (probed env i))"
    "dependencies_satisfied (cap2_os_enabled (probed env i))"
    "feature_available (cap2_hardware (probed env i)) feat_portable_scalar_f32"
    "feature_available (cap2_os_enabled (probed env i)) feat_portable_scalar_f32"
    "feature_available (cap2_os_enabled (probed env i)) f \<Longrightarrow>
       feature_available (cap2_hardware (probed env i)) f"
    "amx_failure (probed env i) = None"
    "xstate_failure (probed env i) = None"
    by blast+
qed

lemma probed_non_x86:
  assumes "compile_architecture (env_build env) \<noteq> archk_x86_64"
  shows "cap2_hardware (probed env i) = portable_domain"
    "cap2_os_enabled (probed env i) = portable_domain"
    "\<not> cap2_os_xstate_mask_known (probed env i)" "\<not> cap2_amx_permission_known (probed env i)"
  using assms by (simp_all add: probed_def Let_def)

text \<open>What discovery may trust about the implementation's report.\<close>

definition admissible_report :: "cpu_environment \<Rightarrow> CpuImplementationAvailabilityV2 \<Rightarrow> bool" where
  "admissible_report env i \<longleftrightarrow>
     impl_version i = 2 \<and>
     domain_well_formed (impl_compiled i) \<and> domain_well_formed (impl_runtime_validated i) \<and>
     dependencies_satisfied (impl_compiled i) \<and> dependencies_satisfied (impl_runtime_validated i) \<and>
     (\<forall>f. feature_available (impl_runtime_validated i) f \<longrightarrow>
        feature_available (impl_compiled i) f \<and>
        execution_safe (discover_cpu_capabilities_v2 env i) f) \<and>
     (compile_architecture (env_build env) \<noteq> archk_x86_64 \<longrightarrow>
        (\<forall>f. feature_available (impl_compiled i) f \<longrightarrow> f = feat_portable_scalar_f32))"

lemma discover_v2_valid:
  assumes isa: "isa_consistent env" and fe: "compile_frontend (env_build env) \<noteq> front_unknown"
    and arch: "compile_architecture (env_build env) \<noteq> archk_unknown"
    and report: "admissible_report env i"
  shows "validate_cpu_capabilities_v2 (discover_cpu_capabilities_v2 env i) = None"
proof -
  let ?p = "probed env i"
  note r = report [unfolded admissible_report_def]
  note os = probed_os_facts [OF isa, of i]
  have impl: "cap2_implementation ?p = impl_compiled i"
    "cap2_runtime_validation ?p = impl_runtime_validated i"
    using r by (simp_all add: base_implementation)
  have frontend: "known_front (compile_frontend (env_build env))"
    and architecture: "known_archk (compile_architecture (env_build env))"
    by (simp_all add: compile_frontend_def compile_architecture_def)
  have wf: "\<forall>d \<in> set (all_domains ?p). domain_well_formed d"
    and deps: "\<forall>d \<in> set (all_domains ?p). dependencies_satisfied d"
    using os r by (simp_all add: impl well_formed_compiler compiler_dependencies
        del: probed_frame(4,5))
  have safe: "execution_safe (discover_cpu_capabilities_v2 env i) f = execution_safe ?p f" for f
    by (simp add: discover_probed [OF arch])
  have validated: "has_usable_feature_v2 ?p f"
    if "feature_available (impl_runtime_validated i) f" for f
  proof -
    have "execution_safe ?p f" "feature_available (impl_compiled i) f"
      using r that safe [of f] by blast+
    then show ?thesis
      by (simp add: execution_safe_def has_usable_feature_v2_def impl del: probed_frame(4,5))
  qed
  have "execution_safe ?p feat_portable_scalar_f32"
    using os(5,6) fe arch architecture frontend by (simp add: execution_safe_def compiler_portable)
  then have base: "baseline_failure ?p = None"
    unfolding baseline_failure_None [OF wf] impl using os(7) validated by blast
  have x86: "non_x86_failure ?p = None"
  proof (cases "compile_architecture (env_build env) = archk_x86_64")
    case False
    then show ?thesis
      unfolding non_x86_failure_None [OF wf]
      using r probed_non_x86 [OF False, of i] compiler_non_x86 [OF False]
      by (auto simp: impl simp del: probed_frame(4,5))
  qed (simp add: non_x86_failure_def)
  have "cap2_architecture ((probed env i)\<lparr>cap2_usable_vector_bits := derive_usable_vector_bits ?p\<rparr>)
      \<noteq> archk_unknown"
    using arch by simp
  then show ?thesis
    unfolding discover_probed [OF arch]
    using wf deps base x86 os architecture
    by (subst validate_v2_iff) (simp_all del: probed_frame(4,5))
qed

section \<open>The runtime's report is admissible\<close>

lemma available_portable_union:
  "feature_available \<lparr>dom_known = k, dom_available = feature_bit_v2 p OR a OR b\<rparr> f \<longleftrightarrow>
     bit k (feature_index f) \<and>
     (f = p \<or> bit a (feature_index f) \<or> bit b (feature_index f))"
  by (auto simp: feature_available_bit bit_simps)

lemma runtime_report_fields:
  fixes env b
  defines "i \<equiv> cpu_implementation_availability_v2 env b"
  shows "impl_version i = 2"
    "feature_available (impl_compiled i) f \<longleftrightarrow>
       (if def_x86_64 (env_build env) then True
        else def_aarch64 (env_build env) \<and> f = feat_portable_scalar_f32) \<and>
       (f = feat_portable_scalar_f32 \<or>
        cpu_packed_avx2_build_available_v1 env \<and> f \<in> {feat_avx2, feat_fma} \<or>
        cpu_packed_avx512_build_available_v1 env \<and> f \<in> {feat_avx512f, feat_fma})"
    "feature_available (impl_runtime_validated i) f \<longleftrightarrow>
       (if def_x86_64 (env_build env) then True
        else def_aarch64 (env_build env) \<and> f = feat_portable_scalar_f32) \<and>
       (f = feat_portable_scalar_f32 \<or>
        fst (cpu_runtime_self_tests_v1 env b) \<and> f \<in> {feat_avx2, feat_fma} \<or>
        snd (cpu_runtime_self_tests_v1 env b) \<and> f \<in> {feat_avx512f, feat_fma})"
proof -
  let ?k = "if def_x86_64 (env_build env) then kKnownCpuFeatureBitsV2
    else if def_aarch64 (env_build env) then feature_bit_v2 feat_portable_scalar_f32 else 0"
  have k: "bit ?k (feature_index f) \<longleftrightarrow>
      (if def_x86_64 (env_build env) then True
       else def_aarch64 (env_build env) \<and> f = feat_portable_scalar_f32)"
    using feature_index_inject [of f feat_portable_scalar_f32]
    by (simp del: feature_index_inject)
  have pair: "bit (if c then feature_bit_v2 x OR feature_bit_v2 y else 0) (feature_index f) \<longleftrightarrow>
      c \<and> f \<in> {x, y}" for c x y
    by (auto simp: bit_or_iff simp del: feature_index.simps)
  obtain t u where tests: "cpu_runtime_self_tests_v1 env b = (t, u)" by fastforce
  show "impl_version i = 2"
    by (simp add: i_def cpu_implementation_availability_v2_def Let_def tests)
  show "feature_available (impl_compiled i) f \<longleftrightarrow>
       (if def_x86_64 (env_build env) then True
        else def_aarch64 (env_build env) \<and> f = feat_portable_scalar_f32) \<and>
       (f = feat_portable_scalar_f32 \<or>
        cpu_packed_avx2_build_available_v1 env \<and> f \<in> {feat_avx2, feat_fma} \<or>
        cpu_packed_avx512_build_available_v1 env \<and> f \<in> {feat_avx512f, feat_fma})"
    unfolding i_def cpu_implementation_availability_v2_def Let_def tests prod.case
      CpuImplementationAvailabilityV2.simps available_portable_union k pair ..
  show "feature_available (impl_runtime_validated i) f \<longleftrightarrow>
       (if def_x86_64 (env_build env) then True
        else def_aarch64 (env_build env) \<and> f = feat_portable_scalar_f32) \<and>
       (f = feat_portable_scalar_f32 \<or>
        fst (cpu_runtime_self_tests_v1 env b) \<and> f \<in> {feat_avx2, feat_fma} \<or>
        snd (cpu_runtime_self_tests_v1 env b) \<and> f \<in> {feat_avx512f, feat_fma})"
    unfolding i_def cpu_implementation_availability_v2_def Let_def tests prod.case
      CpuImplementationAvailabilityV2.simps available_portable_union k pair fst_conv snd_conv ..
qed

lemma self_tests_imply:
  assumes "fst (cpu_runtime_self_tests_v1 env b)"
  shows "cpu_packed_avx2_build_available_v1 env"
    "execution_safe (discover_cpu_capabilities_v2 env i) feat_avx2"
    "execution_safe (discover_cpu_capabilities_v2 env i) feat_fma"
  using assms
    execution_safe_independent [of env i _ unknown_cpu_implementation_availability_v2]
  by (auto simp: cpu_runtime_self_tests_v1_def run_packed_microkernel_self_test_v1_def
      cpu_packed_avx2_runtime_usable_v1_def Let_def split: if_splits)

lemma self_tests_imply_512:
  assumes "snd (cpu_runtime_self_tests_v1 env b)"
  shows "cpu_packed_avx512_build_available_v1 env"
    "execution_safe (discover_cpu_capabilities_v2 env i) feat_avx512f"
    "execution_safe (discover_cpu_capabilities_v2 env i) feat_fma"
  using assms
    execution_safe_independent [of env i _ unknown_cpu_implementation_availability_v2]
  by (auto simp: cpu_runtime_self_tests_v1_def run_packed_microkernel_self_test_v1_def
      cpu_packed_avx512_runtime_usable_v1_def Let_def split: if_splits)

lemma portable_safe:
  assumes "isa_consistent env" "compile_frontend (env_build env) \<noteq> front_unknown"
    "compile_architecture (env_build env) \<noteq> archk_unknown"
  shows "execution_safe (discover_cpu_capabilities_v2 env i) feat_portable_scalar_f32"
proof -
  have "known_front (compile_frontend (env_build env))"
    "known_archk (compile_architecture (env_build env))"
    by (simp_all add: compile_frontend_def compile_architecture_def)
  then show ?thesis
    using probed_os_facts(5,6) [OF assms(1), of i] assms
    by (simp add: discover_probed execution_safe_def compiler_portable)
qed

lemma runtime_report_well_formed:
  assumes "compile_architecture (env_build env) \<noteq> archk_unknown"
  shows "domain_well_formed (impl_compiled (cpu_implementation_availability_v2 env b))"
    "domain_well_formed (impl_runtime_validated (cpu_implementation_availability_v2 env b))"
proof -
  obtain t u where tests: "cpu_runtime_self_tests_v1 env b = (t, u)" by fastforce
  have t: "t \<Longrightarrow> cpu_packed_avx2_build_available_v1 env"
    and u: "u \<Longrightarrow> cpu_packed_avx512_build_available_v1 env"
    using self_tests_imply(1) [of env b] self_tests_imply_512(1) [of env b] tests by simp_all
  have pair: "bit (if c then feature_bit_v2 x OR feature_bit_v2 y else 0) i \<longleftrightarrow>
      c \<and> (i = feature_index x \<or> i = feature_index y)" for c x y i
    by (auto simp: bit_or_iff simp del: feature_index.simps)
  show "domain_well_formed (impl_compiled (cpu_implementation_availability_v2 env b))"
    "domain_well_formed (impl_runtime_validated (cpu_implementation_availability_v2 env b))"
    using assms t u
    by (auto simp: domain_well_formed_bits cpu_implementation_availability_v2_def Let_def tests
        bit_or_iff pair compile_architecture_def cpu_packed_avx2_build_available_v1_def
        cpu_packed_avx512_build_available_v1_def split: if_splits)
qed

lemma runtime_report_admissible:
  assumes "isa_consistent env" "compile_frontend (env_build env) \<noteq> front_unknown"
    "compile_architecture (env_build env) \<noteq> archk_unknown"
  shows "admissible_report env (cpu_implementation_availability_v2 env b)"
proof -
  let ?i = "cpu_implementation_availability_v2 env b"
  note fields = runtime_report_fields [of env b]
  have deps: "dependencies_satisfied (impl_compiled ?i)"
    "dependencies_satisfied (impl_runtime_validated ?i)"
    by (simp_all add: dependencies_satisfied_def fields)
  have non_x86: "f = feat_portable_scalar_f32"
    if "compile_architecture (env_build env) \<noteq> archk_x86_64" "feature_available (impl_compiled ?i) f"
    for f
    using that by (auto simp: fields compile_architecture_def split: if_splits)
  have validated: "feature_available (impl_compiled ?i) f \<and>
      execution_safe (discover_cpu_capabilities_v2 env ?i) f"
    if "feature_available (impl_runtime_validated ?i) f" for f
    using that self_tests_imply(1) [of env b] self_tests_imply(2,3) [of env b ?i]
      self_tests_imply_512(1) [of env b] self_tests_imply_512(2,3) [of env b ?i]
      portable_safe [OF assms, of ?i]
    unfolding fields by (auto split: if_splits)
  show ?thesis
    unfolding admissible_report_def
    using fields(1) runtime_report_well_formed [OF assms(3), of b] deps non_x86 validated by blast
qed

lemma runtime_record_valid:
  assumes "isa_consistent env" "compile_frontend (env_build env) \<noteq> front_unknown"
  shows "validate_cpu_capabilities_v2 (discover_runtime_cpu_capabilities_v2 env b) = None"
proof (cases "compile_architecture (env_build env) = archk_unknown")
  case True
  have "domain_failure empty_domain = None" by (simp add: domain_failure_None)
  then show ?thesis
    using True
    by (simp add: discover_runtime_cpu_capabilities_v2_def discover_cpu_capabilities_v2_def
        validate_cpu_capabilities_v2_def default_capabilities_v2_def)
      (simp add: empty_domain_def)
next
  case False
  then show ?thesis
    unfolding discover_runtime_cpu_capabilities_v2_def
    by (intro discover_v2_valid runtime_report_admissible assms)
qed

text \<open>A valid record, read feature by feature.\<close>

lemma dependency_avx512:
  "dependencies_satisfied d \<Longrightarrow> feature_available d f \<Longrightarrow> f \<in> set kAvx512FeaturesV2 \<Longrightarrow>
     feature_available d feat_avx512f"
  by (auto simp: dependencies_satisfied_def Let_def kAvx512FeaturesV2_def split: if_splits)

lemma dependency_amx:
  "dependencies_satisfied d \<Longrightarrow> feature_available d f \<Longrightarrow> f \<in> set kAmxFeaturesV2 \<Longrightarrow>
     feature_available d feat_amx_tile"
  by (auto simp: dependencies_satisfied_def Let_def kAmxFeaturesV2_def split: if_splits)

lemma valid_v2_facts:
  assumes "validate_cpu_capabilities_v2 r = None"
  shows
    "(feature_available (cap2_runtime_validation r) f \<longrightarrow> has_usable_feature_v2 r f) \<and>
     (feature_available (cap2_os_enabled r) f \<longrightarrow> feature_available (cap2_hardware r) f) \<and>
     (has_usable_feature_v2 r f \<longrightarrow> f \<noteq> feat_portable_scalar_f32 \<longrightarrow>
       cap2_architecture r = archk_x86_64) \<and>
     (feature_available (cap2_os_enabled r) f \<longrightarrow> f \<in> set kAmxFeaturesV2 \<longrightarrow>
       cap2_amx_permission_granted r) \<and>
     (has_usable_feature_v2 r f \<longrightarrow> f \<in> set kAvx512FeaturesV2 \<longrightarrow>
       has_usable_feature_v2 r feat_avx512f) \<and>
     (has_usable_feature_v2 r f \<longrightarrow> f \<in> set kAmxFeaturesV2 \<longrightarrow>
       has_usable_feature_v2 r feat_amx_tile) \<and>
     cap2_usable_vector_bits r = derive_usable_vector_bits r"
proof (cases "cap2_architecture r = archk_unknown")
  case True
  then have "\<forall>d \<in> set (all_domains r). dom_known d = 0" "cap2_usable_vector_bits r = 0"
    using assms by (auto simp: validate_cpu_capabilities_v2_def split: if_splits option.splits)
  moreover have "\<not> feature_available d f" if "dom_known d = 0" for d f
    using that by (simp add: feature_available_def feature_known_def)
  ultimately show ?thesis
    by (auto simp: has_usable_feature_v2_def derive_usable_vector_bits_def)
next
  case False
  note v = assms [unfolded validate_v2_iff [OF False]]
  then have wf: "\<forall>d \<in> set (all_domains r). domain_well_formed d"
    and deps: "\<forall>d \<in> set (all_domains r). dependencies_satisfied d" by blast+
  note closed = dependency_avx512 [OF bspec [OF deps]] and closed_amx = dependency_amx [OF bspec [OF deps]]
  have base: "feature_available (cap2_runtime_validation r) f \<longrightarrow> has_usable_feature_v2 r f"
    "feature_available (cap2_os_enabled r) f \<longrightarrow> feature_available (cap2_hardware r) f"
    using v unfolding baseline_failure_None [OF wf] by blast+
  have x86: "has_usable_feature_v2 r f \<longrightarrow> f \<noteq> feat_portable_scalar_f32 \<longrightarrow>
       cap2_architecture r = archk_x86_64"
    using v unfolding non_x86_failure_None [OF wf] has_usable_feature_v2_def by auto
  have amx: "feature_available (cap2_os_enabled r) f \<longrightarrow> f \<in> set kAmxFeaturesV2 \<longrightarrow>
       cap2_amx_permission_granted r"
    using v unfolding amx_failure_def kAmxFeaturesV2_def by (auto split: if_splits)
  show ?thesis
    using base x86 amx v
    by (auto simp: has_usable_feature_v2_def intro: closed closed_amx)
qed

lemma valid_v2_features:
  assumes "validate_cpu_capabilities_v2 r = None"
  shows "feature_available (cap2_runtime_validation r) f \<Longrightarrow> has_usable_feature_v2 r f"
    "feature_available (cap2_os_enabled r) f \<Longrightarrow> feature_available (cap2_hardware r) f"
    "has_usable_feature_v2 r f \<Longrightarrow> f \<noteq> feat_portable_scalar_f32 \<Longrightarrow> cap2_architecture r = archk_x86_64"
    "feature_available (cap2_os_enabled r) f \<Longrightarrow> f \<in> set kAmxFeaturesV2 \<Longrightarrow>
       cap2_amx_permission_granted r"
    "has_usable_feature_v2 r f \<Longrightarrow> f \<in> set kAvx512FeaturesV2 \<Longrightarrow> has_usable_feature_v2 r feat_avx512f"
    "has_usable_feature_v2 r f \<Longrightarrow> f \<in> set kAmxFeaturesV2 \<Longrightarrow> has_usable_feature_v2 r feat_amx_tile"
    "cap2_usable_vector_bits r = derive_usable_vector_bits r"
  using valid_v2_facts [OF assms, of f] by blast+

lemma compiler_available:
  "feature_available (cpu_compiler_feature_domain_v2 a fe v) f \<longleftrightarrow>
     known_archk a \<and> known_front fe \<and> a \<noteq> archk_unknown \<and> fe \<noteq> front_unknown \<and>
     (f = feat_portable_scalar_f32 \<or>
      a = archk_x86_64 \<and> f \<noteq> feat_portable_scalar_f32 \<and>
      (fe \<in> {front_clang_gnu, front_clang_cl} \<and> (14 \<le> v \<or> v \<noteq> 0 \<and> bit legacy_isa_bits (feature_index f)) \<or>
       fe = front_gcc \<and> (12 \<le> v \<or> 8 \<le> v \<and> bit legacy_isa_bits (feature_index f))))"
proof -
  have idx: "0 < feature_index f \<longleftrightarrow> f \<noteq> feat_portable_scalar_f32" by (cases f) simp_all
  have "\<not> bit legacy_isa_bits (feature_index feat_portable_scalar_f32)" by (simp add: legacy_isa_bit)
  then show ?thesis
    unfolding cpu_compiler_feature_domain_v2_def Let_def
    by (cases fe; cases "a = archk_x86_64"; cases "f = feat_portable_scalar_f32";
        simp add: available_or_available available_mark_known idx)
qed

text \<open>When detection is complete.\<close>

lemma domain_complete_x86: "domain_complete_v2 d archk_x86_64 \<longleftrightarrow> (\<forall>f. feature_known d f)"
proof -
  have "kKnownCpuFeatureBitsV2 \<noteq> 0"
    using known_bits [of 0] by (metis bit_0_eq bot_apply bot_bool_def zero_less_numeral)
  moreover have "(\<forall>i. i < 12 \<longrightarrow> bit (dom_known d) i) \<longleftrightarrow> (\<forall>f. feature_known d f)"
    unfolding feature_known_bit by (metis feature_index_less feature_of_index)
  ultimately show ?thesis
    by (simp add: domain_complete_v2_def superset_bits)
qed

lemma domain_complete_aarch64:
  "domain_complete_v2 d archk_aarch64 \<longleftrightarrow> feature_known d feat_portable_scalar_f32"
proof -
  have "feature_bit_v2 feat_portable_scalar_f32 \<noteq> 0" by (simp add: feature_bit_v2_def)
  then show ?thesis
    by (auto simp: domain_complete_v2_def superset_bits feature_known_bit simp del: feature_index.simps)
qed

lemma known_mark_if [simp]: "feature_known (mark_if c f d) g \<longleftrightarrow> c \<and> g = f \<or> feature_known d g"
  by (simp add: mark_if_def)

lemma known_mark_present: "feature_known d g \<Longrightarrow> feature_known (mark_present c hw fs d) g"
  by (induction fs arbitrary: d) (auto simp: mark_present_def)

lemma known_forget: "feature_known (forget amx_bits d) g \<longleftrightarrow> feature_known d g \<and> g \<notin> set kAmxFeaturesV2"
  using bit_less_64 [of "dom_known d" "feature_index g"]
  by (auto simp: feature_known_bit forget_def bit_simps amx_bits_bit)

lemma hardware_known: "feature_known (discover_hardware env leaf1 portable_domain) f"
  by (cases "f = feat_portable_scalar_f32") (simp_all add: discover_hardware_def Let_def split: option.split)

lemma amx_in_features:
  "(\<exists>f \<in> set kAmxFeaturesV2. feature_available hw f) \<longleftrightarrow>
     feature_available hw feat_amx_tile \<or> feature_available hw feat_amx_bf16 \<or>
     feature_available hw feat_amx_int8"
  by (simp add: kAmxFeaturesV2_def)

lemma os_known:
  assumes "cap2_os_enabled r = portable_domain" and "read_xcr0 env \<noteq> None"
  shows "(\<forall>f. feature_known (cap2_os_enabled (discover_os env leaf1 r)) f) \<longleftrightarrow>
    \<not> (reg_bit (reg_ecx leaf1) 27 \<and> (\<exists>f \<in> set kAmxFeaturesV2. feature_available (cap2_hardware r) f) \<and>
       read_amx_permission env = None)"
proof -
  have all: "feature_known (mark_known kX86CpuFeatureBitsV2 portable_domain) f" for f
    by (cases "f = feat_portable_scalar_f32") simp_all
  have "feat_amx_tile \<in> set kAmxFeaturesV2" by (simp add: kAmxFeaturesV2_def)
  then show ?thesis
    using assms unfolding amx_in_features
    by (auto simp: discover_os_def discover_amx_def Let_def known_mark_present all known_forget
        split: option.splits)
qed

lemma compiler_known:
  assumes "fe \<noteq> front_unknown" "known_front fe"
  shows "feature_known (cpu_compiler_feature_domain_v2 archk_x86_64 fe v) f"
    "feature_known (cpu_compiler_feature_domain_v2 archk_aarch64 fe v) feat_portable_scalar_f32"
proof -
  show "feature_known (cpu_compiler_feature_domain_v2 archk_x86_64 fe v) f"
    using assms
    by (cases "f = feat_portable_scalar_f32"; cases fe;
        simp add: cpu_compiler_feature_domain_v2_def Let_def)
  show "feature_known (cpu_compiler_feature_domain_v2 archk_aarch64 fe v) feat_portable_scalar_f32"
    using assms by (simp add: cpu_compiler_feature_domain_v2_def Let_def)
qed

lemma read_xcr0_after_cpuid: "read_cpuid env l s \<noteq> None \<Longrightarrow> read_xcr0 env \<noteq> None"
  by (auto simp: read_cpuid_def read_xcr0_def split: if_splits)

lemma complete_unknown [simp]:
  "\<not> domain_complete_v2 d archk_unknown" by (simp add: domain_complete_v2_def)

lemma detection_complete_record:
  fixes env b
  assumes "isa_consistent env" "compile_frontend (env_build env) \<noteq> front_unknown"
  defines "r \<equiv> discover_runtime_cpu_capabilities_v2 env b"
  shows "capability_detection_complete_v2 r \<longleftrightarrow>
    (case compile_architecture (env_build env) of
       archk_x86_64 \<Rightarrow> (case read_cpuid env 1 0 of None \<Rightarrow> False
         | Some leaf1 \<Rightarrow> \<not> (reg_bit (reg_ecx leaf1) 27 \<and>
             (\<exists>f \<in> set kAmxFeaturesV2. feature_available (cap2_hardware r) f) \<and>
             read_amx_permission env = None))
     | archk_aarch64 \<Rightarrow> True | _ \<Rightarrow> False)"
proof -
  let ?i = "cpu_implementation_availability_v2 env b"
  have front: "known_front (compile_frontend (env_build env))"
    by (simp add: compile_frontend_def)
  have valid: "validate_cpu_capabilities_v2 r = None"
    unfolding r_def by (rule runtime_record_valid [OF assms(1,2)])
  have arch: "compile_architecture (env_build env) \<in> {archk_unknown, archk_x86_64, archk_aarch64}"
    by (simp add: compile_architecture_def)
  have r: "compile_architecture (env_build env) \<noteq> archk_unknown \<Longrightarrow>
      cap2_architecture r = compile_architecture (env_build env) \<and>
      cap2_hardware r = cap2_hardware (probed env ?i) \<and>
      cap2_os_enabled r = cap2_os_enabled (probed env ?i) \<and>
      cap2_compiler r = cpu_compiler_feature_domain_v2 (compile_architecture (env_build env))
        (compile_frontend (env_build env)) (compile_frontend_major_version env)"
    unfolding r_def discover_runtime_cpu_capabilities_v2_def
    by (simp add: discover_probed)
  show ?thesis
  proof (cases "compile_architecture (env_build env) = archk_unknown")
    case True
    then show ?thesis
      by (simp add: capability_detection_complete_v2_def r_def discover_runtime_cpu_capabilities_v2_def
          discover_cpu_capabilities_v2_def default_capabilities_v2_def)
  next
    case False
    note r = r [OF False]
    consider "compile_architecture (env_build env) = archk_aarch64"
      | "compile_architecture (env_build env) = archk_x86_64" using arch False by blast
    then show ?thesis
    proof cases
      case 1
      then show ?thesis
        using r valid front assms(2) probed_non_x86 [of env ?i]
        by (simp add: capability_detection_complete_v2_def domain_complete_aarch64 compiler_known)
    next
      case 2
      show ?thesis
      proof (cases "read_cpuid env 1 0")
        case None
        then have "cap2_hardware (probed env ?i) = portable_domain"
          by (simp add: probed_def Let_def)
        then have "\<not> feature_known (cap2_hardware r) feat_avx2" using r by simp
        then show ?thesis
          using None 2 r
          by (auto simp: capability_detection_complete_v2_def domain_complete_x86)
      next
        case (Some leaf1)
        let ?s = "(discover_base env ?i)\<lparr>cap2_hardware := discover_hardware env leaf1 portable_domain\<rparr>"
        have p: "probed env ?i = discover_os env leaf1 ?s"
          using 2 Some by (simp add: probed_def Let_def)
        have "read_xcr0 env \<noteq> None" using Some read_xcr0_after_cpuid by fastforce
        from os_known [OF _ this, of ?s leaf1] show ?thesis
          using 2 Some r valid front assms(2)
          by (simp add: capability_detection_complete_v2_def domain_complete_x86 compiler_known p
              hardware_known)
      qed
    qed
  qed
qed

section \<open>Formatting\<close>

fun to_string_feature :: "CpuFeatureV2 \<Rightarrow> string" where
  "to_string_feature feat_portable_scalar_f32 = ''portable-scalar-f32''"
| "to_string_feature feat_avx2 = ''avx2''"
| "to_string_feature feat_fma = ''fma''"
| "to_string_feature feat_avx512f = ''avx512f''"
| "to_string_feature feat_avx512dq = ''avx512dq''"
| "to_string_feature feat_avx512bw = ''avx512bw''"
| "to_string_feature feat_avx512vl = ''avx512vl''"
| "to_string_feature feat_avx512vnni = ''avx512vnni''"
| "to_string_feature feat_avx512bf16 = ''avx512bf16''"
| "to_string_feature feat_amx_tile = ''amx-tile''"
| "to_string_feature feat_amx_bf16 = ''amx-bf16''"
| "to_string_feature feat_amx_int8 = ''amx-int8''"

text \<open>\<^verbatim>\<open>std::hex\<close>: lower case, no leading zero.\<close>

definition hex_digit :: "nat \<Rightarrow> char" where
  "hex_digit n = ''0123456789abcdef'' ! n"

function hexadecimal :: "nat \<Rightarrow> string" where
  "hexadecimal n = (if n < 16 then [hex_digit n] else hexadecimal (n div 16) @ [hex_digit (n mod 16)])"
  by pat_completeness auto
termination by (relation "measure id") auto

declare hexadecimal.simps [simp del]

definition feature_line :: "CpuCapabilitiesV2 \<Rightarrow> CpuFeatureV2 \<Rightarrow> string" where
  "feature_line r f =
     to_string_feature f @ '':hardware='' @ domain_state (cap2_hardware r) f @
     ''/os='' @ domain_state (cap2_os_enabled r) f @
     ''/compiler='' @ domain_state (cap2_compiler r) f @
     ''/implementation='' @ domain_state (cap2_implementation r) f @
     ''/runtime='' @ domain_state (cap2_runtime_validation r) f"

definition format_cpu_capabilities_v2 :: "CpuCapabilitiesV2 \<Rightarrow> string" where
  "format_cpu_capabilities_v2 r =
     ''cpu-capabilities-v2{version='' @ decimal (unat (cap2_version r)) @
     '',architecture='' @ to_string_archk (cap2_architecture r) @
     '',usable-vector-bits='' @ decimal (unat (cap2_usable_vector_bits r)) @
     '',xstate='' @
     (if cap2_os_xstate_mask_known r then ''0x'' @ hexadecimal (unat (cap2_os_xstate_mask r))
      else ''unknown'') @
     '',amx-permission='' @
     (if \<not> cap2_amx_permission_known r then ''unknown''
      else if cap2_amx_permission_granted r then ''granted'' else ''not-granted'') @
     '',features=['' @ comma_joined (map (feature_line r) kCpuFeatureOrderV2) @ '']}''"

text \<open>Features are ordered by their bit, and \<^verbatim>\<open>kCpuFeatureOrderV2\<close> lists all of them in that order.\<close>

instantiation CpuFeatureV2 :: linorder
begin

definition less_eq_CpuFeatureV2 :: "CpuFeatureV2 \<Rightarrow> CpuFeatureV2 \<Rightarrow> bool" where
  "less_eq_CpuFeatureV2 f g \<longleftrightarrow> feature_index f \<le> feature_index g"

definition less_CpuFeatureV2 :: "CpuFeatureV2 \<Rightarrow> CpuFeatureV2 \<Rightarrow> bool" where
  "less_CpuFeatureV2 f g \<longleftrightarrow> feature_index f < feature_index g"

instance
  by intro_classes
    (auto simp: less_eq_CpuFeatureV2_def less_CpuFeatureV2_def simp flip: feature_index_inject)

end

lemma feature_order: "sorted_wrt (<) kCpuFeatureOrderV2" "set kCpuFeatureOrderV2 = UNIV"
proof -
  show "sorted_wrt (<) kCpuFeatureOrderV2"
    by (simp add: kCpuFeatureOrderV2_def less_CpuFeatureV2_def)
  have "f \<in> set kCpuFeatureOrderV2" for f
    by (cases f) (simp_all add: kCpuFeatureOrderV2_def)
  then show "set kCpuFeatureOrderV2 = UNIV" by blast
qed

section \<open>Properties\<close>

text \<open>A Linux build with Clang 18 on a machine with AVX2, AVX-512F and no AMX.\<close>

definition example_cpu :: cpu_environment where
  "example_cpu =
     \<lparr>env_build = \<lparr>def_WIN32 = False, def_linux = True, def_x86_64 = True, def_aarch64 = False,
        def_clang = True, def_MSC_VER = False, def_GNUC = True\<rparr>,
      env_clang_major = 18, env_gnuc = 4, env_msc_ver = 0, env_cpuid_max = 13,
      env_cpuid = (\<lambda>leaf subleaf.
        if leaf = 1 then \<lparr>reg_eax = 0, reg_ebx = 0, reg_ecx = push_bit 28 1 OR push_bit 27 1 OR push_bit 12 1, reg_edx = 0\<rparr>
        else if leaf = 7 \<and> subleaf = 0
        then \<lparr>reg_eax = 1, reg_ebx = push_bit 5 1 OR push_bit 16 1, reg_ecx = 0, reg_edx = 0\<rparr>
        else \<lparr>reg_eax = 0, reg_ebx = 0, reg_ecx = 0, reg_edx = 0\<rparr>),
      env_xcr0 = 231, env_xcomp_perm = None\<rparr>"

definition passing_self_tests :: self_test_products where
  "passing_self_tests = \<lparr>avx2_products_expected = True, avx512_products_expected = True\<rparr>"

text \<open>Facts about the example machine, for the witnesses.\<close>

lemma example_build:
  "compile_architecture (env_build example_cpu) = archk_x86_64"
  "compile_frontend (env_build example_cpu) = front_clang_gnu"
  "compile_frontend_major_version example_cpu = 18"
  "cpu_packed_avx2_build_available_v1 example_cpu" "cpu_packed_avx512_build_available_v1 example_cpu"
  "def_x86_64 (env_build example_cpu)"
  by (simp_all add: example_cpu_def compile_architecture_def compile_frontend_def
      compile_frontend_major_version_def cpu_packed_avx2_build_available_v1_def
      cpu_packed_avx512_build_available_v1_def)

lemma example_reads:
  "read_cpuid example_cpu 1 0 = Some (env_cpuid example_cpu 1 0)"
  "read_cpuid example_cpu 7 0 = Some (env_cpuid example_cpu 7 0)"
  "read_cpuid example_cpu 7 1 = Some (env_cpuid example_cpu 7 1)"
  "read_xcr0 example_cpu = Some 231"
  by (simp_all add: read_cpuid_def read_xcr0_def probe_compiled_def example_cpu_def)

lemma example_registers:
  "reg_bit (reg_ecx (env_cpuid example_cpu 1 0)) 28"
  "reg_bit (reg_ecx (env_cpuid example_cpu 1 0)) 27"
  "reg_bit (reg_ecx (env_cpuid example_cpu 1 0)) 12"
  "reg_bit (reg_ebx (env_cpuid example_cpu 7 0)) 5"
  "reg_bit (reg_ebx (env_cpuid example_cpu 7 0)) 16"
  "1 \<le> reg_eax (env_cpuid example_cpu 7 0)"
  "\<not> reg_bit (reg_edx (env_cpuid example_cpu 7 0)) 24"
  "\<not> reg_bit (reg_edx (env_cpuid example_cpu 7 0)) 22"
  "\<not> reg_bit (reg_edx (env_cpuid example_cpu 7 0)) 25"
  "(231::u64) AND kAvxXstate = kAvxXstate" "(231::u64) AND kAvx512Xstate = kAvx512Xstate"
  by (simp_all add: reg_bit_def example_cpu_def kAvxXstate_def kAvx512Xstate_def)

lemma example_isa: "isa_consistent example_cpu"
  by (simp add: isa_consistent_def Let_def example_registers)

lemma example_safe:
  assumes "f \<in> {feat_avx2, feat_fma, feat_avx512f}"
  shows "execution_safe (discover_cpu_capabilities_v2 example_cpu i) f"
  using assms
  by (auto simp: discover_probed execution_safe_def probed_def example_build example_reads
      example_registers Let_def discover_hardware_def discover_os_def discover_amx_def
      compiler_available domain_simps kAvx512FeaturesV2_def)

lemma example_validated:
  assumes "f \<in> {feat_avx2, feat_fma, feat_avx512f}"
  shows "has_runtime_validated_feature_v2
     (discover_runtime_cpu_capabilities_v2 example_cpu passing_self_tests) f"
proof -
  let ?i = "cpu_implementation_availability_v2 example_cpu passing_self_tests"
  let ?u = "unknown_cpu_implementation_availability_v2"
  have "validate_cpu_capabilities_v2 (discover_cpu_capabilities_v2 example_cpu ?u) = None"
    by (rule discover_v2_valid [OF example_isa])
      (simp_all add: example_build admissible_report_def unknown_cpu_implementation_availability_v2_def)
  then have "cpu_runtime_self_tests_v1 example_cpu passing_self_tests = (True, True)"
    using example_safe [of _ ?u]
    by (simp add: cpu_runtime_self_tests_v1_def example_build passing_self_tests_def
        run_packed_microkernel_self_test_v1_def cpu_packed_avx2_runtime_usable_v1_def
        cpu_packed_avx512_runtime_usable_v1_def Let_def discover_probed)
  then have tests: "fst (cpu_runtime_self_tests_v1 example_cpu passing_self_tests)"
    "snd (cpu_runtime_self_tests_v1 example_cpu passing_self_tests)" by simp_all
  have "impl_version ?i = 2" "domain_well_formed (impl_compiled ?i)"
    "domain_well_formed (impl_runtime_validated ?i)"
    using runtime_report_fields(1) runtime_report_well_formed [of example_cpu passing_self_tests]
    by (simp_all add: example_build)
  note impl = base_implementation [OF this, of example_cpu]
  have "feature_available (impl_compiled ?i) f" "feature_available (impl_runtime_validated ?i) f"
    using assms tests by (auto simp: runtime_report_fields example_build)
  then show ?thesis
    using example_safe [OF assms, of ?i]
    by (simp add: discover_runtime_cpu_capabilities_v2_def has_runtime_validated_feature_v2_def
        has_usable_feature_v2_def execution_safe_def discover_probed example_build impl)
qed

text \<open>C30: The capability record the runtime builds for itself is always a valid one, on every
  build whose compiler family is known and for every processor that follows the architectural
  CPUID rules, whatever XCR0 and the AMX permission call answer: domains are well formed and closed
  under ISA dependencies, nothing is OS-enabled beyond the hardware, nothing is reported as
  runtime-validated that is not usable, and the vector width agrees with the domains.\<close>

theorem runtime_capabilities_valid:
  assumes "isa_consistent env" "compile_frontend (env_build env) \<noteq> front_unknown"
  shows "validate_cpu_capabilities_v2 (discover_runtime_cpu_capabilities_v2 env b) = None"
  using assms by (rule runtime_record_valid)

theorem runtime_capabilities_valid_witness:
  "validate_cpu_capabilities_v2
     (discover_runtime_cpu_capabilities_v2 example_cpu passing_self_tests) = None \<and>
   has_runtime_validated_feature_v2
     (discover_runtime_cpu_capabilities_v2 example_cpu passing_self_tests) feat_avx512f"
proof
  have "compile_frontend (env_build example_cpu) \<noteq> front_unknown" by (simp add: example_build)
  then show "validate_cpu_capabilities_v2
     (discover_runtime_cpu_capabilities_v2 example_cpu passing_self_tests) = None"
    by (rule runtime_capabilities_valid [OF example_isa])
  show "has_runtime_validated_feature_v2
     (discover_runtime_cpu_capabilities_v2 example_cpu passing_self_tests) feat_avx512f"
    by (rule example_validated) simp
qed

text \<open>In a record the validator accepts, a runtime-validated feature is usable, an OS-enabled
  feature is a hardware feature, ISA features are usable on x86-64 only, OS-enabled AMX means that
  the permission was granted, usable AVX-512 and AMX extensions come with their foundation, and the
  vector width is 512 exactly when AVX-512F is usable.\<close>

theorem valid_record_features:
  assumes "validate_cpu_capabilities_v2 r = None"
  shows "(feature_available (cap2_runtime_validation r) f \<longrightarrow> has_runtime_validated_feature_v2 r f) \<and>
    (feature_available (cap2_os_enabled r) f \<longrightarrow> feature_available (cap2_hardware r) f) \<and>
    (has_usable_feature_v2 r f \<and> f \<noteq> feat_portable_scalar_f32 \<longrightarrow> cap2_architecture r = archk_x86_64) \<and>
    (has_usable_feature_v2 r f \<and> f \<in> {feat_amx_tile, feat_amx_bf16, feat_amx_int8} \<longrightarrow>
       cap2_amx_permission_granted r \<and> has_usable_feature_v2 r feat_amx_tile) \<and>
    (has_usable_feature_v2 r f \<and> f \<in> {feat_avx512dq, feat_avx512bw, feat_avx512vl, feat_avx512vnni,
        feat_avx512bf16} \<longrightarrow> has_usable_feature_v2 r feat_avx512f) \<and>
    (cap2_usable_vector_bits r = 512 \<longleftrightarrow> has_usable_feature_v2 r feat_avx512f)"
proof -
  have amx: "f \<in> {feat_amx_tile, feat_amx_bf16, feat_amx_int8} \<longleftrightarrow> f \<in> set kAmxFeaturesV2"
    by (auto simp: kAmxFeaturesV2_def)
  have avx512: "f \<in> {feat_avx512dq, feat_avx512bw, feat_avx512vl, feat_avx512vnni, feat_avx512bf16}
      \<longrightarrow> f \<in> set kAvx512FeaturesV2"
    by (auto simp: kAvx512FeaturesV2_def)
  have os: "has_usable_feature_v2 r f \<longrightarrow> feature_available (cap2_os_enabled r) f"
    by (simp add: has_usable_feature_v2_def)
  have width: "derive_usable_vector_bits r = 512 \<longleftrightarrow> has_usable_feature_v2 r feat_avx512f"
    by (simp add: derive_usable_vector_bits_def)
  show ?thesis
    unfolding has_runtime_validated_feature_v2_def amx
    using valid_v2_facts [OF assms, of f] avx512 os width by metis
qed

theorem valid_record_features_witness:
  "cap2_architecture (discover_runtime_cpu_capabilities_v2 example_cpu passing_self_tests) =
     archk_x86_64"
proof -
  let ?r = "discover_runtime_cpu_capabilities_v2 example_cpu passing_self_tests"
  have "validate_cpu_capabilities_v2 ?r = None"
    by (rule runtime_record_valid [OF example_isa]) (simp add: example_build)
  moreover have "has_usable_feature_v2 ?r feat_avx512f"
    using example_validated [of feat_avx512f] by (simp add: has_runtime_validated_feature_v2_def)
  ultimately show ?thesis
    using valid_record_features [of ?r feat_avx512f] by blast
qed

text \<open>The compiler's feature domain is well formed and closed under ISA dependencies for every
  architecture, front end and version; a newer compiler of the same family never loses a feature;
  and it claims an ISA feature only on x86-64 for Clang (any numbered version) or GCC 8 and later.\<close>

theorem compiler_domain_sound:
  assumes "v \<le> w"
  shows "domain_well_formed (cpu_compiler_feature_domain_v2 a fe v) \<and>
    dependencies_satisfied (cpu_compiler_feature_domain_v2 a fe v) \<and>
    (feature_available (cpu_compiler_feature_domain_v2 a fe v) f \<longrightarrow>
       feature_available (cpu_compiler_feature_domain_v2 a fe w) f \<and>
       (f \<noteq> feat_portable_scalar_f32 \<longrightarrow> a = archk_x86_64 \<and>
          (fe \<in> {front_clang_gnu, front_clang_cl} \<and> v \<noteq> 0 \<or> fe = front_gcc \<and> 8 \<le> v)))"
proof -
  have order: "14 \<le> v \<longrightarrow> 14 \<le> w" "12 \<le> v \<longrightarrow> 12 \<le> w" "8 \<le> v \<longrightarrow> 8 \<le> w" "v \<noteq> 0 \<longrightarrow> w \<noteq> 0"
    and gcc: "12 \<le> v \<longrightarrow> 8 \<le> v" and clang: "14 \<le> v \<longrightarrow> v \<noteq> 0"
    using assms by (auto intro: order_trans [of _ v w] order_trans [of "8::u32" 12 v])
  have "feature_available (cpu_compiler_feature_domain_v2 a fe v) f \<longrightarrow>
       feature_available (cpu_compiler_feature_domain_v2 a fe w) f \<and>
       (f \<noteq> feat_portable_scalar_f32 \<longrightarrow> a = archk_x86_64 \<and>
          (fe \<in> {front_clang_gnu, front_clang_cl} \<and> v \<noteq> 0 \<or> fe = front_gcc \<and> 8 \<le> v))"
    unfolding compiler_available using order gcc clang by blast
  then show ?thesis using well_formed_compiler compiler_dependencies by blast
qed

theorem compiler_domain_sound_witness:
  "feature_available (cpu_compiler_feature_domain_v2 archk_x86_64 front_gcc 13) feat_avx512f"
proof -
  have "(9::u32) \<le> 13" by simp
  moreover have "feature_available (cpu_compiler_feature_domain_v2 archk_x86_64 front_gcc 9) feat_avx512f"
    by code_simp
  ultimately show ?thesis
    using compiler_domain_sound [of 9 13 archk_x86_64 front_gcc feat_avx512f] by blast
qed

text \<open>The runtime reports complete detection exactly on AArch64, and on x86-64 when CPUID could be
  read and no AMX hardware was left with an unknown permission (the operating system lets user code
  look at the extended state, the processor has AMX, and the permission call is not available).\<close>

theorem detection_complete_iff:
  assumes "isa_consistent env" "compile_frontend (env_build env) \<noteq> front_unknown"
  shows "capability_detection_complete_v2 (discover_runtime_cpu_capabilities_v2 env b) \<longleftrightarrow>
    (case compile_architecture (env_build env) of
       archk_x86_64 \<Rightarrow> (case read_cpuid env 1 0 of None \<Rightarrow> False
         | Some leaf1 \<Rightarrow> \<not> (reg_bit (reg_ecx leaf1) 27 \<and>
             (\<exists>f \<in> set kAmxFeaturesV2.
                feature_available (cap2_hardware (discover_runtime_cpu_capabilities_v2 env b)) f) \<and>
             read_amx_permission env = None))
     | archk_aarch64 \<Rightarrow> True | _ \<Rightarrow> False)"
  by (rule detection_complete_record [OF assms])

theorem detection_complete_iff_witness:
  "capability_detection_complete_v2
     (discover_runtime_cpu_capabilities_v2 example_cpu passing_self_tests)"
proof -
  let ?i = "cpu_implementation_availability_v2 example_cpu passing_self_tests"
  have "\<not> (\<exists>f \<in> set kAmxFeaturesV2.
      feature_available (cap2_hardware (discover_cpu_capabilities_v2 example_cpu ?i)) f)"
    by (simp add: kAmxFeaturesV2_def discover_probed example_build probed_def Let_def example_reads
        discover_hardware_def example_registers available_mark_known)
  then show ?thesis
    using detection_complete_iff [OF example_isa, of passing_self_tests]
    by (simp add: example_build example_reads discover_runtime_cpu_capabilities_v2_def)
qed

end
