(* ===== verification/PlannerV3.thy ===== *)
theory PlannerV3
  imports PlannerV2 ParallelTasks Placement CapabilityV2
begin

text \<open>
  The third planner generation, \<^verbatim>\<open>planner/cpu_planner_v3.h\<close> and \<^verbatim>\<open>cpu_planner_v3.cpp\<close>: eight candidates,
  five that go back to the second generation, the packed AVX-512 kernel, and the two parallel kernels
  that need a topology, a thread policy, an execution context and placement evidence. The local
  variables of \<^verbatim>\<open>plan_cpu_gemm_v3\<close> that its loop reads are the record \<open>v3_locals\<close>; each branch of the
  loop body is a function of them. A fixed-size \<^verbatim>\<open>std::array\<close> is a list.
\<close>

section \<open>Data\<close>

datatype CpuGemmVariantV3 =
  var3_reference | var3_tiled | var3_compiler_vectorized | var3_external_openblas
  | var3_native_packed_avx2_fma | var3_native_packed_avx512_fma
  | var3_native_parallel_avx2_fma | var3_native_parallel_avx512_fma | var3_other u8

datatype CpuGemmRequestV3 =
  req3_automatic | req3_force_reference | req3_force_tiled | req3_force_compiler_vectorized
  | req3_force_external_openblas | req3_force_native_packed_avx2_fma
  | req3_force_native_packed_avx512_fma | req3_force_native_parallel_avx2_fma
  | req3_force_native_parallel_avx512_fma | req3_other u8

datatype CpuPlannerNumaPolicyV1 = numa_single_node | numa_local_first | numa_other u8

fun variant_code_v3 :: "CpuGemmVariantV3 \<Rightarrow> nat" where
  "variant_code_v3 var3_reference = 0"
| "variant_code_v3 var3_tiled = 1"
| "variant_code_v3 var3_compiler_vectorized = 2"
| "variant_code_v3 var3_external_openblas = 3"
| "variant_code_v3 var3_native_packed_avx2_fma = 4"
| "variant_code_v3 var3_native_packed_avx512_fma = 5"
| "variant_code_v3 var3_native_parallel_avx2_fma = 6"
| "variant_code_v3 var3_native_parallel_avx512_fma = 7"
| "variant_code_v3 (var3_other c) = unat c"

fun request_code_v3 :: "CpuGemmRequestV3 \<Rightarrow> nat" where
  "request_code_v3 req3_automatic = 0"
| "request_code_v3 req3_force_reference = 1"
| "request_code_v3 req3_force_tiled = 2"
| "request_code_v3 req3_force_compiler_vectorized = 3"
| "request_code_v3 req3_force_external_openblas = 4"
| "request_code_v3 req3_force_native_packed_avx2_fma = 5"
| "request_code_v3 req3_force_native_packed_avx512_fma = 6"
| "request_code_v3 req3_force_native_parallel_avx2_fma = 7"
| "request_code_v3 req3_force_native_parallel_avx512_fma = 8"
| "request_code_v3 (req3_other c) = unat c"

definition kCpuPlannerReportedNumaNodeLimitV1 :: nat where
  "kCpuPlannerReportedNumaNodeLimitV1 = 16"

definition kCpuParallelMinimumWorkPerThreadV1 :: u64 where
  "kCpuParallelMinimumWorkPerThreadV1 = push_bit 20 1"

record CpuPlannerTopologyViewV1 =
  tv_version :: u32
  tv_discovery_complete :: bool
  tv_logical_processors :: u32
  tv_physical_cores :: u32
  tv_available_processors :: u32
  tv_numa_nodes :: u32
  tv_numa_node_ids_complete :: bool
  tv_numa_node_ids :: "u32 list"

definition default_topology_view :: CpuPlannerTopologyViewV1 where
  "default_topology_view = \<lparr>tv_version = 1, tv_discovery_complete = False,
     tv_logical_processors = 0, tv_physical_cores = 0, tv_available_processors = 0,
     tv_numa_nodes = 0, tv_numa_node_ids_complete = False,
     tv_numa_node_ids = replicate kCpuPlannerReportedNumaNodeLimitV1 0\<rparr>"

record CpuThreadPolicyV1 =
  tp_version :: u32
  tp_requested_threads :: u32
  tp_maximum_threads :: u32
  tp_allow_smt :: bool
  tp_external_provider_parallelism_active :: bool
  tp_worker_affinity_active :: bool

record CpuPlannerPlacementEvidenceV1 =
  pe_version :: u32
  pe_evidence_complete :: bool
  pe_affinity_requested :: bool
  pe_affinity_applied :: bool
  pe_affinity :: CpuAffinityPolicyV1
  pe_numa :: CpuPlannerNumaPolicyV1
  pe_local_logical_processor_capacity :: u32
  pe_local_physical_core_capacity :: u32
  pe_selected_numa_node_count :: u32
  pe_selected_numa_nodes :: "u32 list"
  pe_crosses_numa_nodes :: bool
  pe_caller_first_touch_required :: bool

record CpuGemmImplementationResourcesV2 =
  res2_baseline :: CpuGemmImplementationResourcesV1
  res2_reference_f32_runtime_validated :: bool
  res2_tiled_f32_runtime_validated :: bool
  res2_compiler_vectorized_f32_runtime_validated :: bool
  res2_external_openblas_f32_runtime_validated :: bool
  res2_native_packed_avx2_fma_runtime_validated :: bool
  res2_execution_context_available :: bool
  res2_execution_context_worker_capacity :: u32
  res2_native_parallel_avx2_fma_compiled :: bool
  res2_native_parallel_avx2_fma_runtime_validated :: bool
  res2_native_parallel_avx2_workspace_size_valid :: bool
  res2_native_parallel_avx2_shared_workspace_bytes :: u64
  res2_native_parallel_avx2_per_worker_workspace_bytes :: u64
  res2_native_parallel_avx2_workspace_alignment :: u32
  res2_native_packed_avx512_fma_compiled :: bool
  res2_native_packed_avx512_fma_runtime_validated :: bool
  res2_native_packed_avx512_workspace_size_valid :: bool
  res2_native_packed_avx512_workspace_bytes :: u64
  res2_native_packed_avx512_workspace_alignment :: u32
  res2_native_parallel_avx512_fma_compiled :: bool
  res2_native_parallel_avx512_fma_runtime_validated :: bool
  res2_native_parallel_avx512_workspace_size_valid :: bool
  res2_native_parallel_avx512_shared_workspace_bytes :: u64
  res2_native_parallel_avx512_per_worker_workspace_bytes :: u64
  res2_native_parallel_avx512_workspace_alignment :: u32
  res2_avx512f_hardware :: bool
  res2_avx512f_os_enabled :: bool
  res2_avx512f_compiler_supported :: bool

record CpuGemmVariantRecordV3 =
  rec3_variant :: CpuGemmVariantV3
  rec3_stable_id :: string
  rec3_deterministic_priority :: u16

definition kCpuGemmVariantRegistryV3 :: "CpuGemmVariantRecordV3 list" where
  [registry_simps]: "kCpuGemmVariantRegistryV3 =
    [\<lparr>rec3_variant = var3_reference, rec3_stable_id = ''cpu.reference.f32.v1'',
      rec3_deterministic_priority = 80\<rparr>,
     \<lparr>rec3_variant = var3_tiled, rec3_stable_id = ''cpu.tiled.f32.v1'',
      rec3_deterministic_priority = 70\<rparr>,
     \<lparr>rec3_variant = var3_compiler_vectorized,
      rec3_stable_id = ''cpu.compiler-vectorized.avx2-fma.f32.v1'',
      rec3_deterministic_priority = 60\<rparr>,
     \<lparr>rec3_variant = var3_external_openblas, rec3_stable_id = ''cpu.external.openblas.f32.v1'',
      rec3_deterministic_priority = 10\<rparr>,
     \<lparr>rec3_variant = var3_native_packed_avx2_fma,
      rec3_stable_id = ''cpu.native-packed.avx2-fma.f32.v1'', rec3_deterministic_priority = 50\<rparr>,
     \<lparr>rec3_variant = var3_native_packed_avx512_fma,
      rec3_stable_id = ''cpu.native-packed.avx512-fma.f32.v1'', rec3_deterministic_priority = 40\<rparr>,
     \<lparr>rec3_variant = var3_native_parallel_avx2_fma,
      rec3_stable_id = ''cpu.native-parallel.avx2-fma.f32.v1'', rec3_deterministic_priority = 30\<rparr>,
     \<lparr>rec3_variant = var3_native_parallel_avx512_fma,
      rec3_stable_id = ''cpu.native-parallel.avx512-fma.f32.v1'', rec3_deterministic_priority = 20\<rparr>]"

record CpuCandidateDecisionV3 =
  dec3_variant :: CpuGemmVariantV3
  dec3_stable_id :: string
  dec3_legal :: bool
  dec3_reason :: reason
  dec3_estimated_cost :: u64
  dec3_required_workspace_bytes :: u64
  dec3_required_workspace_alignment :: u32
  dec3_actual_threads :: u32
  dec3_requested_thread_ceiling :: u32
  dec3_parallel_row_tasks :: u64
  dec3_parallel_column_tasks :: u64
  dec3_parallel_task_count :: u64
  dec3_thread_capacity_limited :: bool
  dec3_deterministic_priority :: u16
  dec3_shared_workspace_bytes :: u64
  dec3_per_worker_workspace_bytes :: u64
  dec3_required_hardware_features :: u64
  dec3_required_os_features :: u64
  dec3_required_compiler_features :: u64
  dec3_required_implementation_features :: u64
  dec3_runtime_validated :: bool
  dec3_crosses_numa_nodes :: bool

record CpuGemmPlanV3 =
  plan3_version :: u32
  plan3_status :: CpuPlanStatusV1
  plan3_problem :: CpuGemmProblemV1
  plan3_baseline_capabilities :: CpuCapabilitiesV1
  plan3_topology :: CpuPlannerTopologyViewV1
  plan3_thread_policy :: CpuThreadPolicyV1
  plan3_placement :: CpuPlannerPlacementEvidenceV1
  plan3_resources :: CpuGemmImplementationResourcesV2
  plan3_request :: CpuGemmRequestV3
  plan3_candidates :: "CpuCandidateDecisionV3 list"
  plan3_selected_variant :: CpuGemmVariantV3
  plan3_selected_id :: string
  plan3_selection_reason :: reason

section \<open>Metadata\<close>

definition fresh_decision_v3 :: "CpuGemmVariantRecordV3 \<Rightarrow> CpuCandidateDecisionV3" where
  "fresh_decision_v3 record =
     \<lparr>dec3_variant = rec3_variant record, dec3_stable_id = rec3_stable_id record,
      dec3_legal = False, dec3_reason = [], dec3_estimated_cost = u64_max,
      dec3_required_workspace_bytes = 0, dec3_required_workspace_alignment = 1,
      dec3_actual_threads = 0, dec3_requested_thread_ceiling = 0, dec3_parallel_row_tasks = 0,
      dec3_parallel_column_tasks = 0, dec3_parallel_task_count = 0,
      dec3_thread_capacity_limited = False,
      dec3_deterministic_priority = rec3_deterministic_priority record,
      dec3_shared_workspace_bytes = 0, dec3_per_worker_workspace_bytes = 0,
      dec3_required_hardware_features = 0, dec3_required_os_features = 0,
      dec3_required_compiler_features = 0, dec3_required_implementation_features = 0,
      dec3_runtime_validated = False, dec3_crosses_numa_nodes = False\<rparr>"

definition required_features_v3 :: "CpuGemmVariantV3 \<Rightarrow> u64" where
  "required_features_v3 variant =
    (let portable = feature_bit_v2 feat_portable_scalar_f32;
         avx2_fma = feature_bit_v2 feat_avx2 OR feature_bit_v2 feat_fma;
         avx512_fma = feature_bit_v2 feat_avx512f OR feature_bit_v2 feat_fma
     in case variant of
          var3_compiler_vectorized \<Rightarrow> portable OR avx2_fma
        | var3_native_packed_avx2_fma \<Rightarrow> portable OR avx2_fma
        | var3_native_parallel_avx2_fma \<Rightarrow> portable OR avx2_fma
        | var3_native_packed_avx512_fma \<Rightarrow> portable OR avx512_fma
        | var3_native_parallel_avx512_fma \<Rightarrow> portable OR avx512_fma
        | _ \<Rightarrow> portable)"

definition populate_requirement_metadata :: "CpuCandidateDecisionV3 \<Rightarrow> CpuCandidateDecisionV3" where
  "populate_requirement_metadata d =
    (let required = required_features_v3 (dec3_variant d)
     in d\<lparr>dec3_required_hardware_features := required, dec3_required_os_features := required,
          dec3_required_compiler_features := required,
          dec3_required_implementation_features := required\<rparr>)"

definition populate_resource_metadata ::
  "CpuGemmImplementationResourcesV2 \<Rightarrow> CpuCandidateDecisionV3 \<Rightarrow> CpuCandidateDecisionV3" where
  "populate_resource_metadata res d =
    (case dec3_variant d of
       var3_reference \<Rightarrow> d\<lparr>dec3_runtime_validated := res2_reference_f32_runtime_validated res\<rparr>
     | var3_tiled \<Rightarrow> d\<lparr>dec3_runtime_validated := res2_tiled_f32_runtime_validated res\<rparr>
     | var3_compiler_vectorized \<Rightarrow>
         d\<lparr>dec3_runtime_validated := res2_compiler_vectorized_f32_runtime_validated res\<rparr>
     | var3_external_openblas \<Rightarrow>
         d\<lparr>dec3_runtime_validated := res2_external_openblas_f32_runtime_validated res\<rparr>
     | var3_native_packed_avx2_fma \<Rightarrow>
         (let d = d\<lparr>dec3_runtime_validated := res2_native_packed_avx2_fma_runtime_validated res\<rparr>
          in if res1_native_packed_workspace_size_valid (res2_baseline res)
             then d\<lparr>dec3_required_workspace_bytes := res1_native_packed_workspace_bytes (res2_baseline res),
                    dec3_shared_workspace_bytes := res1_native_packed_workspace_bytes (res2_baseline res),
                    dec3_required_workspace_alignment :=
                      res1_native_packed_workspace_alignment (res2_baseline res)\<rparr>
             else d)
     | var3_native_packed_avx512_fma \<Rightarrow>
         (let d = d\<lparr>dec3_runtime_validated := res2_native_packed_avx512_fma_runtime_validated res\<rparr>
          in if res2_native_packed_avx512_workspace_size_valid res
             then d\<lparr>dec3_required_workspace_bytes := res2_native_packed_avx512_workspace_bytes res,
                    dec3_shared_workspace_bytes := res2_native_packed_avx512_workspace_bytes res,
                    dec3_required_workspace_alignment := res2_native_packed_avx512_workspace_alignment res\<rparr>
             else d)
     | var3_native_parallel_avx2_fma \<Rightarrow>
         (let d = d\<lparr>dec3_runtime_validated := res2_native_parallel_avx2_fma_runtime_validated res\<rparr>
          in if res2_native_parallel_avx2_workspace_size_valid res
             then d\<lparr>dec3_shared_workspace_bytes := res2_native_parallel_avx2_shared_workspace_bytes res,
                    dec3_per_worker_workspace_bytes := res2_native_parallel_avx2_per_worker_workspace_bytes res,
                    dec3_required_workspace_alignment := res2_native_parallel_avx2_workspace_alignment res\<rparr>
             else d)
     | var3_native_parallel_avx512_fma \<Rightarrow>
         (let d = d\<lparr>dec3_runtime_validated := res2_native_parallel_avx512_fma_runtime_validated res\<rparr>
          in if res2_native_parallel_avx512_workspace_size_valid res
             then d\<lparr>dec3_shared_workspace_bytes := res2_native_parallel_avx512_shared_workspace_bytes res,
                    dec3_per_worker_workspace_bytes := res2_native_parallel_avx512_per_worker_workspace_bytes res,
                    dec3_required_workspace_alignment := res2_native_parallel_avx512_workspace_alignment res\<rparr>
             else d)
     | var3_other _ \<Rightarrow> d)"

definition request_matches_v3 :: "CpuGemmRequestV3 \<Rightarrow> CpuGemmVariantV3 \<Rightarrow> bool" where
  "request_matches_v3 request variant \<longleftrightarrow>
     request = req3_automatic \<or> request_code_v3 request = variant_code_v3 variant + 1"

fun v2_request :: "CpuGemmVariantV3 \<Rightarrow> CpuGemmRequestV2" where
  "v2_request var3_reference = req2_force_reference"
| "v2_request var3_tiled = req2_force_tiled"
| "v2_request var3_compiler_vectorized = req2_force_compiler_vectorized"
| "v2_request var3_external_openblas = req2_force_external_openblas"
| "v2_request var3_native_packed_avx2_fma = req2_force_native_packed_avx2_fma"
| "v2_request var3_native_packed_avx512_fma = req2_force_native_packed_avx2_fma"
| "v2_request var3_native_parallel_avx2_fma = req2_force_native_packed_avx2_fma"
| "v2_request var3_native_parallel_avx512_fma = req2_force_native_packed_avx2_fma"
| "v2_request (var3_other _) = req2_force_reference"

fun v2_index :: "CpuGemmVariantV3 \<Rightarrow> nat" where
  "v2_index var3_reference = 0"
| "v2_index var3_tiled = 1"
| "v2_index var3_compiler_vectorized = 2"
| "v2_index var3_external_openblas = 3"
| "v2_index var3_native_packed_avx2_fma = 4"
| "v2_index var3_native_packed_avx512_fma = 4"
| "v2_index var3_native_parallel_avx2_fma = 4"
| "v2_index var3_native_parallel_avx512_fma = 4"
| "v2_index (var3_other _) = 0"
section \<open>Topology, policy and placement gates\<close>

text \<open>The first reason of a sequence of checks, as a loop with early returns finds it.\<close>

fun first_reason :: "reason list \<Rightarrow> reason" where
  "first_reason [] = []"
| "first_reason (r # rs) = (if r \<noteq> [] then r else first_reason rs)"

text \<open>Whether the identifier at an index is unknown or not above its predecessor.\<close>

definition node_id_bad :: "u32 list \<Rightarrow> nat \<Rightarrow> bool" where
  "node_id_bad ids index \<longleftrightarrow>
     ids ! index = kUnknownTopologyIdV1 \<or> (index \<noteq> 0 \<and> ids ! index \<le> ids ! (index - 1))"

definition topology_reason :: "CpuPlannerTopologyViewV1 \<Rightarrow> reason" where
  "topology_reason t =
    (if tv_version t \<noteq> 1 then ''CPU planner topology view version is unsupported''
     else if \<not> tv_discovery_complete t
     then ''complete CPU topology discovery is required for parallel planning''
     else if tv_logical_processors t = 0 \<or> tv_physical_cores t = 0 \<or>
             tv_available_processors t = 0 \<or> tv_numa_nodes t = 0
     then ''complete CPU topology counts must be positive''
     else if \<not> tv_numa_node_ids_complete t \<or>
             unat (tv_numa_nodes t) > kCpuPlannerReportedNumaNodeLimitV1
     then ''complete CPU topology NUMA-node IDs are required''
     else if list_ex (node_id_bad (tv_numa_node_ids t)) [0..<unat (tv_numa_nodes t)]
     then ''CPU topology NUMA-node IDs must be known, unique, and sorted''
     else if tv_physical_cores t > tv_logical_processors t
     then ''physical core count exceeds logical processor count''
     else if tv_available_processors t > tv_logical_processors t
     then ''available processor count exceeds logical processor count''
     else [])"

definition thread_policy_reason :: "CpuThreadPolicyV1 \<Rightarrow> reason" where
  "thread_policy_reason p =
    (if tp_version p \<noteq> 1 then ''CPU thread policy version is unsupported''
     else if tp_requested_threads p = 0 then ''requested thread count must be positive''
     else [])"

fun known_affinity_v3 :: "CpuAffinityPolicyV1 \<Rightarrow> bool" where
  "known_affinity_v3 aff_compact = True"
| "known_affinity_v3 aff_scatter = True"
| "known_affinity_v3 aff_local_first = True"
| "known_affinity_v3 (aff_other _) = False"

fun known_numa_policy :: "CpuPlannerNumaPolicyV1 \<Rightarrow> bool" where
  "known_numa_policy numa_single_node = True"
| "known_numa_policy numa_local_first = True"
| "known_numa_policy (numa_other _) = False"

fun numa_policy_name :: "CpuPlannerNumaPolicyV1 \<Rightarrow> string" where
  "numa_policy_name numa_single_node = ''single-node''"
| "numa_policy_name numa_local_first = ''local-first''"
| "numa_policy_name (numa_other _) = ''invalid''"

definition selected_node_reason :: "CpuPlannerTopologyViewV1 \<Rightarrow> u32 list \<Rightarrow> nat \<Rightarrow> reason" where
  "selected_node_reason t nodes index =
    (if node_id_bad nodes index
     then ''CPU placement NUMA-node IDs must be known, unique, and sorted''
     else if \<not> contains_cpu (take (unat (tv_numa_nodes t)) (tv_numa_node_ids t)) (nodes ! index)
     then ''CPU placement references a NUMA node absent from topology''
     else [])"

definition placement_reason ::
  "CpuPlannerTopologyViewV1 \<Rightarrow> CpuPlannerPlacementEvidenceV1 \<Rightarrow> reason" where
  "placement_reason t p =
    (if pe_version p \<noteq> 1 then ''CPU placement evidence version is unsupported''
     else if \<not> pe_evidence_complete p
     then ''complete CPU placement evidence is required for parallel planning''
     else if \<not> known_affinity_v3 (pe_affinity p) \<or> \<not> known_numa_policy (pe_numa p)
     then ''CPU placement policy is invalid''
     else if pe_local_logical_processor_capacity p = 0 \<or> pe_local_physical_core_capacity p = 0 \<or>
             pe_local_physical_core_capacity p > pe_local_logical_processor_capacity p \<or>
             pe_local_logical_processor_capacity p > tv_logical_processors t \<or>
             pe_local_physical_core_capacity p > tv_physical_cores t
     then ''CPU placement local capacity is invalid''
     else if pe_selected_numa_node_count p = 0 \<or> pe_selected_numa_node_count p > tv_numa_nodes t \<or>
             unat (pe_selected_numa_node_count p) > kCpuPlannerReportedNumaNodeLimitV1
     then ''CPU placement selected NUMA-node count is invalid''
     else let node_error = first_reason (map (selected_node_reason t (pe_selected_numa_nodes p))
                [0..<unat (pe_selected_numa_node_count p)])
       in if node_error \<noteq> [] then node_error
          else if pe_crosses_numa_nodes p \<noteq> (pe_selected_numa_node_count p > 1)
          then ''CPU placement cross-NUMA evidence is inconsistent''
          else if pe_affinity_applied p \<and> \<not> pe_affinity_requested p
          then ''CPU affinity cannot be applied when it was not requested''
          else if pe_affinity_requested p \<and> \<not> pe_affinity_applied p
          then ''requested CPU affinity was not completely applied''
          else if pe_numa p = numa_single_node \<and> pe_crosses_numa_nodes p
          then ''single-node NUMA policy cannot cross NUMA nodes''
          else if pe_numa p = numa_single_node \<and> tv_numa_nodes t > 1 \<and> \<not> pe_affinity_applied p
          then ''multi-node single-node policy requires applied affinity''
          else if pe_crosses_numa_nodes p \<and> \<not> pe_caller_first_touch_required p
          then ''cross-NUMA placement must expose caller-owned first touch''
          else [])"

definition local_thread_capacity :: "CpuThreadPolicyV1 \<Rightarrow> CpuPlannerPlacementEvidenceV1 \<Rightarrow> u32" where
  "local_thread_capacity policy placement =
    (if tp_allow_smt policy then pe_local_logical_processor_capacity placement
     else pe_local_physical_core_capacity placement)"

definition topology_thread_limit :: "CpuPlannerTopologyViewV1 \<Rightarrow> CpuThreadPolicyV1 \<Rightarrow> u32" where
  "topology_thread_limit t policy =
     (if tp_allow_smt policy then tv_logical_processors t else tv_physical_cores t)"

definition policy_thread_ceiling ::
  "CpuPlannerTopologyViewV1 \<Rightarrow> CpuThreadPolicyV1 \<Rightarrow> CpuGemmImplementationResourcesV2 \<Rightarrow>
   CpuPlannerPlacementEvidenceV1 \<Rightarrow> u32" where
  "policy_thread_ceiling t policy res placement =
    (let result = tp_requested_threads policy;
         result = (if tp_maximum_threads policy \<noteq> 0 then min result (tp_maximum_threads policy)
                   else result);
         result = min result (res2_execution_context_worker_capacity res);
         result = min result (tv_available_processors t);
         result = min result (topology_thread_limit t policy)
     in if pe_evidence_complete placement \<and> pe_numa placement = numa_single_node
        then min result (local_thread_capacity policy placement) else result)"

section \<open>Costs\<close>

definition parallel_cost :: "CpuGemmProblemV1 \<Rightarrow> u32 \<Rightarrow> bool \<Rightarrow> bool \<Rightarrow> u64" where
  "parallel_cost problem threads avx512 crosses_numa_nodes =
    (let work = operation_count problem;
         compute_factor = (if avx512 then 1 else 2);
         compute = divide_round_up (saturating_multiply work compute_factor) (u32_to_u64 threads);
         a_pack = saturating_multiply (saturating_multiply (prob_m problem) (prob_k problem)) 6;
         b_pack = saturating_multiply (saturating_multiply (prob_k problem) (prob_n problem)) 6;
         result = saturating_add (saturating_add compute (saturating_add a_pack b_pack))
                    (saturating_add 200000 (saturating_multiply (u32_to_u64 threads) 20000))
     in if crosses_numa_nodes
        then let remote_compute = divide_round_up work 4;
                 remote_packing = saturating_multiply b_pack 2
             in saturating_add result
                  (saturating_add (saturating_add remote_compute remote_packing) 250000)
        else result)"

definition avx512_single_cost :: "CpuGemmProblemV1 \<Rightarrow> u64" where
  "avx512_single_cost problem =
     saturating_add
       (saturating_add (operation_count problem)
         (saturating_multiply
           (saturating_add (saturating_multiply (prob_m problem) (prob_k problem))
             (saturating_multiply (prob_k problem) (prob_n problem))) 5)) 48000"

definition external_cost :: "CpuGemmProblemV1 \<Rightarrow> u32 \<Rightarrow> u64" where
  "external_cost problem threads =
    (if prob_m problem = 1 then u64_max
     else saturating_add (divide_round_up (operation_count problem) (u32_to_u64 threads)) 2000)"

definition kBoundPackedAvx2MinimumWorkV1 :: u64 where
  "kBoundPackedAvx2MinimumWorkV1 = push_bit 12 1"
definition kBoundPackedAvx2MaximumWorkV1 :: u64 where
  "kBoundPackedAvx2MaximumWorkV1 = push_bit 15 1"
definition kBoundPackedAvx2MinimumRowsV1 :: int where "kBoundPackedAvx2MinimumRowsV1 = 4"

definition use_bound_packed_avx2_calibration :: "CpuGemmProblemV1 \<Rightarrow> CpuThreadPolicyV1 \<Rightarrow> bool" where
  "use_bound_packed_avx2_calibration problem policy =
    (if \<not> tp_worker_affinity_active policy \<or> tp_requested_threads policy \<le> 1 \<or>
        sint (prob_m problem) < kBoundPackedAvx2MinimumRowsV1
     then False
     else let work = operation_count problem
          in work \<ge> kBoundPackedAvx2MinimumWorkV1 \<and> work < kBoundPackedAvx2MaximumWorkV1)"
section \<open>The loop body\<close>

record v3_locals =
  loc_instrumented :: bool
  loc_problem :: CpuGemmProblemV1
  loc_capabilities :: CpuCapabilitiesV1
  loc_topology :: CpuPlannerTopologyViewV1
  loc_policy :: CpuThreadPolicyV1
  loc_resources :: CpuGemmImplementationResourcesV2
  loc_placement :: CpuPlannerPlacementEvidenceV1
  loc_topology_error :: reason
  loc_placement_error :: reason
  loc_thread_ceiling :: u32
  loc_tasks :: CpuParallelTaskPlanV1

definition v3_locals_of ::
  "bool \<Rightarrow> CpuGemmProblemV1 \<Rightarrow> CpuCapabilitiesV1 \<Rightarrow> CpuPlannerTopologyViewV1 \<Rightarrow> CpuThreadPolicyV1 \<Rightarrow>
   CpuGemmImplementationResourcesV2 \<Rightarrow> CpuPlannerPlacementEvidenceV1 \<Rightarrow> v3_locals" where
  "v3_locals_of instrumented problem capabilities t policy res placement =
    (let topology_error = topology_reason t;
         placement_error = (if topology_error = [] then placement_reason t placement else topology_error);
         thread_ceiling = (if topology_error = [] then policy_thread_ceiling t policy res placement else 0)
     in \<lparr>loc_instrumented = instrumented, loc_problem = problem, loc_capabilities = capabilities,
         loc_topology = t, loc_policy = policy, loc_resources = res, loc_placement = placement,
         loc_topology_error = topology_error, loc_placement_error = placement_error,
         loc_thread_ceiling = thread_ceiling,
         loc_tasks = plan_cpu_parallel_tasks_v1 problem thread_ceiling\<rparr>)"

definition refuse_v3 :: "reason \<Rightarrow> CpuCandidateDecisionV3 \<Rightarrow> CpuCandidateDecisionV3" where
  "refuse_v3 why d = d\<lparr>dec3_legal := False, dec3_reason := why, dec3_estimated_cost := u64_max\<rparr>"

definition require_validated :: "bool \<Rightarrow> reason \<Rightarrow> CpuCandidateDecisionV3 \<Rightarrow> CpuCandidateDecisionV3" where
  "require_validated validated why d =
    (let d = d\<lparr>dec3_runtime_validated := validated\<rparr>
     in if dec3_legal d \<and> \<not> dec3_runtime_validated d then refuse_v3 why d else d)"

definition provider_threads_v3 :: "v3_locals \<Rightarrow> u32" where
  "provider_threads_v3 l =
    (let t = loc_topology l; policy = loc_policy l; base = res2_baseline (loc_resources l);
         topology_limit = (if loc_topology_error l = []
           then min (tv_available_processors t) (topology_thread_limit t policy) else 1);
         provider_threads = min (tp_requested_threads policy) topology_limit;
         provider_threads = (if tp_maximum_threads policy \<noteq> 0
           then min provider_threads (tp_maximum_threads policy) else provider_threads)
     in if res1_openblas_linked base \<and> res1_openblas_maximum_threads base \<noteq> 0
        then min provider_threads (res1_openblas_maximum_threads base) else provider_threads)"

definition v2_resources_v3 :: "v3_locals \<Rightarrow> CpuGemmVariantV3 \<Rightarrow> CpuGemmImplementationResourcesV1" where
  "v2_resources_v3 l variant = (res2_baseline (loc_resources l))\<lparr>res1_requested_threads :=
     (if variant = var3_external_openblas then provider_threads_v3 l else 1)\<rparr>"

text \<open>The branch of the five variants the second generation knows.\<close>

definition decide_base_v3 :: "v3_locals \<Rightarrow> CpuCandidateDecisionV3 \<Rightarrow> CpuCandidateDecisionV3" where
  "decide_base_v3 l d =
    (let variant = dec3_variant d; problem = loc_problem l; res = loc_resources l;
         base = plan_cpu_gemm_v2 (loc_instrumented l) problem (loc_capabilities l)
                  (v2_resources_v3 l variant) (v2_request variant);
         b = plan2_candidates base ! v2_index variant;
         d = d\<lparr>dec3_legal := dec2_legal b, dec3_reason := dec2_reason b,
               dec3_required_workspace_bytes := dec2_required_workspace_bytes b,
               dec3_required_workspace_alignment := dec2_required_workspace_alignment b,
               dec3_actual_threads := dec2_actual_threads b,
               dec3_estimated_cost := dec2_estimated_cost b,
               dec3_shared_workspace_bytes := dec2_required_workspace_bytes b\<rparr>;
         d = (if variant = var3_external_openblas \<and> dec3_legal d \<and>
                 tp_worker_affinity_active (loc_policy l) \<and> dec3_actual_threads d > 1
              then refuse_v3 ''multi-thread OpenBLAS is unavailable under bound native workers'' d
              else d);
         d = (if variant = var3_reference
              then require_validated (res2_reference_f32_runtime_validated res)
                     ''reference F32 implementation is not runtime-validated'' d
              else if variant = var3_tiled
              then require_validated (res2_tiled_f32_runtime_validated res)
                     ''tiled F32 implementation is not runtime-validated'' d
              else if variant = var3_external_openblas
              then require_validated (res2_external_openblas_f32_runtime_validated res)
                     ''OpenBLAS F32 implementation is not runtime-validated'' d
              else if variant = var3_compiler_vectorized
              then require_validated (res2_compiler_vectorized_f32_runtime_validated res)
                     ''compiler-vectorized AVX2/FMA implementation is not runtime-validated'' d
              else require_validated (res2_native_packed_avx2_fma_runtime_validated res)
                     ''native packed AVX2/FMA implementation is not runtime-validated'' d);
         d = (if variant = var3_native_packed_avx2_fma \<and> dec3_legal d \<and>
                 use_bound_packed_avx2_calibration problem (loc_policy l)
              then d\<lparr>dec3_estimated_cost := min (dec3_estimated_cost d) (operation_count problem)\<rparr>
              else d)
     in if variant = var3_external_openblas \<and> dec3_legal d
        then d\<lparr>dec3_estimated_cost := external_cost problem (dec3_actual_threads d)\<rparr> else d)"

definition packed_avx512_reason :: "v3_locals \<Rightarrow> reason" where
  "packed_avx512_reason l =
    (let res = loc_resources l; caps = loc_capabilities l in
     if \<not> res2_avx512f_hardware res then ''AVX-512F hardware support is unavailable''
     else if \<not> cap1_detection_complete caps \<or> cap1_architecture caps \<noteq> arch1_x86_64
     then ''AVX-512 F32 candidate requires complete x86_64 discovery''
     else if \<not> has_feature_v1 caps feat1_fma then ''AVX-512 F32 candidate requires FMA''
     else if \<not> res2_avx512f_os_enabled res then ''AVX-512F architectural state is not OS-enabled''
     else if \<not> res2_avx512f_compiler_supported res then ''AVX-512F compiler support is unavailable''
     else if \<not> res2_native_packed_avx512_fma_compiled res
     then ''native packed AVX-512 implementation is not compiled''
     else if \<not> res2_native_packed_avx512_fma_runtime_validated res
     then ''native packed AVX-512 implementation is not runtime-validated''
     else if \<not> res2_native_packed_avx512_workspace_size_valid res
     then ''native packed AVX-512 workspace requirement overflowed''
     else if res2_native_packed_avx512_workspace_alignment res < 64 \<or>
             \<not> power_of_two_or_zero (res2_native_packed_avx512_workspace_alignment res)
     then ''native packed AVX-512 workspace alignment is invalid''
     else [])"

definition decide_packed_avx512_v3 :: "v3_locals \<Rightarrow> CpuCandidateDecisionV3 \<Rightarrow> CpuCandidateDecisionV3" where
  "decide_packed_avx512_v3 l d =
    (let res = loc_resources l; why = packed_avx512_reason l in
     if why \<noteq> [] then d\<lparr>dec3_reason := why\<rparr>
     else d\<lparr>dec3_legal := True, dec3_reason := ''legal'', dec3_actual_threads := 1,
            dec3_required_workspace_bytes := res2_native_packed_avx512_workspace_bytes res,
            dec3_required_workspace_alignment := res2_native_packed_avx512_workspace_alignment res,
            dec3_shared_workspace_bytes := res2_native_packed_avx512_workspace_bytes res,
            dec3_runtime_validated := True,
            dec3_estimated_cost := avx512_single_cost (loc_problem l)\<rparr>)"

text \<open>The chain of conditions of the parallel branch, up to the innermost \<^verbatim>\<open>else\<close>.\<close>

definition parallel_reason :: "v3_locals \<Rightarrow> bool \<Rightarrow> CpuCandidateDecisionV3 \<Rightarrow> reason" where
  "parallel_reason l avx512 d =
    (let res = loc_resources l; caps = loc_capabilities l; threads = ptp_actual_threads (loc_tasks l) in
     if loc_placement_error l \<noteq> [] then loc_placement_error l
     else if \<not> res2_execution_context_available res \<or> res2_execution_context_worker_capacity res = 0
     then ''persistent CPU execution context is unavailable''
     else if tp_external_provider_parallelism_active (loc_policy l)
     then ''native/provider nested parallelism is prohibited''
     else if (\<not> avx512 \<and> \<not> res2_native_parallel_avx2_fma_compiled res) \<or>
             (avx512 \<and> \<not> res2_native_parallel_avx512_fma_compiled res)
     then (if avx512 then ''parallel AVX-512 implementation is not compiled''
           else ''parallel AVX2/FMA implementation is not compiled'')
     else if \<not> avx512 \<and> \<not> res2_native_parallel_avx2_fma_runtime_validated res
     then ''parallel AVX2/FMA implementation is not runtime-validated''
     else if avx512 \<and> \<not> res2_native_parallel_avx512_fma_runtime_validated res
     then ''parallel AVX-512 implementation is not runtime-validated''
     else if \<not> avx512 \<and> (\<not> res1_native_packed_avx2_fma_compiled (res2_baseline res) \<or>
                        \<not> res2_native_parallel_avx2_workspace_size_valid res)
     then ''parallel AVX2/FMA workspace implementation is unavailable''
     else if avx512 \<and> (\<not> res2_native_packed_avx512_fma_compiled res \<or>
                      \<not> res2_native_parallel_avx512_workspace_size_valid res)
     then ''parallel AVX-512 workspace implementation is unavailable''
     else if avx512 \<and> \<not> res2_avx512f_hardware res then ''AVX-512F hardware support is unavailable''
     else if avx512 \<and> (\<not> cap1_detection_complete caps \<or> cap1_architecture caps \<noteq> arch1_x86_64)
     then ''parallel AVX-512 requires complete x86_64 discovery''
     else if avx512 \<and> \<not> res2_avx512f_os_enabled res
     then ''AVX-512F architectural state is not OS-enabled''
     else if avx512 \<and> \<not> res2_avx512f_compiler_supported res
     then ''AVX-512F compiler support is unavailable''
     else if avx512 \<and> \<not> res2_native_packed_avx512_fma_runtime_validated res
     then ''native packed AVX-512 implementation is not runtime-validated''
     else if \<not> avx512 \<and> (\<not> cap1_detection_complete caps \<or> cap1_architecture caps \<noteq> arch1_x86_64 \<or>
                        \<not> has_feature_v1 caps feat1_avx2 \<or> \<not> has_feature_v1 caps feat1_fma \<or>
                        cap1_usable_vector_bits caps < 256)
     then ''parallel AVX2/FMA requires usable 256-bit state''
     else if \<not> avx512 \<and> \<not> res2_native_packed_avx2_fma_runtime_validated res
     then ''native packed AVX2/FMA implementation is not runtime-validated''
     else if avx512 \<and> \<not> has_feature_v1 caps feat1_fma then ''parallel AVX-512 F32 requires FMA''
     else if threads < 2
     then ''parallel candidate requires at least two disjoint output tasks and workers''
     else if divide_round_up (operation_count (loc_problem l)) (u32_to_u64 threads) <
             kCpuParallelMinimumWorkPerThreadV1
     then ''parallel work per thread is below the deterministic threshold''
     else if dec3_shared_workspace_bytes d = 0 \<or> dec3_per_worker_workspace_bytes d = 0
     then ''parallel workspace requirements must be nonzero''
     else if dec3_required_workspace_alignment d < 32 \<or>
             \<not> power_of_two_or_zero (dec3_required_workspace_alignment d)
     then ''parallel per-worker workspace alignment is invalid''
     else if dec3_required_workspace_bytes d = 0 then ''parallel workspace requirement overflowed''
     else [])"

text \<open>\<^verbatim>\<open>total_workspace\<close>: \<open>None\<close> while it keeps its initial value.\<close>

definition parallel_total_workspace :: "v3_locals \<Rightarrow> CpuCandidateDecisionV3 \<Rightarrow> u64 option" where
  "parallel_total_workspace l d =
    (let actual_threads = ptp_actual_threads (loc_tasks l)
     in if dec3_shared_workspace_bytes d \<noteq> 0 \<and> dec3_per_worker_workspace_bytes d \<noteq> 0 \<and>
           actual_threads \<noteq> 0
        then total_parallel_workspace (dec3_shared_workspace_bytes d)
               (dec3_per_worker_workspace_bytes d) actual_threads
        else None)"

text \<open>The decision before the chain of conditions.\<close>

definition parallel_sized_v3 :: "v3_locals \<Rightarrow> CpuCandidateDecisionV3 \<Rightarrow> CpuCandidateDecisionV3" where
  "parallel_sized_v3 l d =
    (let placement = loc_placement l; tasks = loc_tasks l;
         actual_threads = ptp_actual_threads tasks
     in d\<lparr>dec3_actual_threads := actual_threads,
          dec3_requested_thread_ceiling := loc_thread_ceiling l,
          dec3_parallel_row_tasks := ptp_row_task_count tasks,
          dec3_parallel_column_tasks := ptp_column_task_count tasks,
          dec3_parallel_task_count := ptp_task_count tasks,
          dec3_thread_capacity_limited :=
            (actual_threads \<noteq> 0 \<and> actual_threads < loc_thread_ceiling l),
          dec3_required_workspace_bytes :=
            (case parallel_total_workspace l d of
               None \<Rightarrow> dec3_required_workspace_bytes d | Some bytes \<Rightarrow> bytes),
          dec3_crosses_numa_nodes :=
            (if pe_evidence_complete placement \<and> pe_crosses_numa_nodes placement
             then pe_affinity placement \<noteq> aff_local_first \<or>
                  actual_threads > local_thread_capacity (loc_policy l) placement
             else dec3_crosses_numa_nodes d)\<rparr>)"

definition decide_parallel_v3 :: "v3_locals \<Rightarrow> CpuCandidateDecisionV3 \<Rightarrow> CpuCandidateDecisionV3" where
  "decide_parallel_v3 l d =
    (let res = loc_resources l; actual_threads = ptp_actual_threads (loc_tasks l);
         avx512 = (dec3_variant d = var3_native_parallel_avx512_fma);
         total_workspace = (case parallel_total_workspace l d of None \<Rightarrow> 0 | Some bytes \<Rightarrow> bytes);
         d = parallel_sized_v3 l d;
         why = parallel_reason l avx512 d
     in if why \<noteq> [] then d\<lparr>dec3_reason := why\<rparr>
        else d\<lparr>dec3_legal := True, dec3_reason := ''legal'',
               dec3_actual_threads := actual_threads,
               dec3_required_workspace_bytes := total_workspace,
               dec3_runtime_validated :=
                 (if avx512 then res2_native_parallel_avx512_fma_runtime_validated res
                  else res2_native_parallel_avx2_fma_runtime_validated res),
               dec3_estimated_cost :=
                 parallel_cost (loc_problem l) actual_threads avx512 (dec3_crosses_numa_nodes d)\<rparr>)"

definition described_v3 ::
  "CpuGemmImplementationResourcesV2 \<Rightarrow> CpuGemmVariantRecordV3 \<Rightarrow> CpuCandidateDecisionV3" where
  "described_v3 res record =
     populate_resource_metadata res (populate_requirement_metadata (fresh_decision_v3 record))"

definition decide_v3 :: "v3_locals \<Rightarrow> CpuGemmVariantRecordV3 \<Rightarrow> CpuCandidateDecisionV3" where
  "decide_v3 l record =
    (let d = described_v3 (loc_resources l) record in
     if variant_code_v3 (rec3_variant record) \<le> variant_code_v3 var3_native_packed_avx2_fma
     then decide_base_v3 l d
     else if rec3_variant record = var3_native_packed_avx512_fma then decide_packed_avx512_v3 l d
     else decide_parallel_v3 l d)"

section \<open>Planning\<close>

definition eligible_v3 :: "CpuGemmRequestV3 \<Rightarrow> CpuCandidateDecisionV3 \<Rightarrow> bool" where
  "eligible_v3 request d \<longleftrightarrow> dec3_legal d \<and> request_matches_v3 request (dec3_variant d)"

definition search_step_v3 ::
  "CpuGemmRequestV3 \<Rightarrow> nat \<Rightarrow> CpuCandidateDecisionV3 \<Rightarrow> CpuGemmVariantV3 search \<Rightarrow>
   CpuGemmVariantV3 search" where
  "search_step_v3 request index d s =
    (if \<not> dec3_legal d \<or> \<not> request_matches_v3 request (dec3_variant d) then s
     else search_step index (dec3_estimated_cost d) (dec3_deterministic_priority d)
            (dec3_variant d) (dec3_stable_id d) s)"

text \<open>The status and reason set before the loop, \<open>None\<close> when planning goes on.\<close>

definition refused_v3 ::
  "bool \<Rightarrow> CpuGemmProblemV1 \<Rightarrow> CpuCapabilitiesV1 \<Rightarrow> CpuThreadPolicyV1 \<Rightarrow> (CpuPlanStatusV1 \<times> reason) option" where
  "refused_v3 instrumented problem capabilities policy =
    (let policy_error = thread_policy_reason policy;
         problem_check = plan_cpu_gemm_v1 instrumented problem capabilities req1_force_reference
     in if plan1_status problem_check = st1_invalid_problem \<or>
           plan1_status problem_check = st1_invalid_capabilities
        then Some (plan1_status problem_check, plan1_selection_reason problem_check)
        else if policy_error \<noteq> [] then Some (st1_invalid_capabilities, policy_error)
        else None)"

definition empty_plan_v3 ::
  "CpuGemmProblemV1 \<Rightarrow> CpuCapabilitiesV1 \<Rightarrow> CpuPlannerTopologyViewV1 \<Rightarrow> CpuThreadPolicyV1 \<Rightarrow>
   CpuGemmImplementationResourcesV2 \<Rightarrow> CpuGemmRequestV3 \<Rightarrow> CpuPlannerPlacementEvidenceV1 \<Rightarrow> CpuGemmPlanV3" where
  "empty_plan_v3 problem capabilities t policy res request placement =
     \<lparr>plan3_version = 3, plan3_status = st1_no_legal_variant, plan3_problem = problem,
      plan3_baseline_capabilities = capabilities, plan3_topology = t, plan3_thread_policy = policy,
      plan3_placement = placement, plan3_resources = res, plan3_request = request,
      plan3_candidates = [], plan3_selected_variant = var3_reference, plan3_selected_id = [],
      plan3_selection_reason = []\<rparr>"

definition plan_cpu_gemm_v3 ::
  "bool \<Rightarrow> CpuGemmProblemV1 \<Rightarrow> CpuCapabilitiesV1 \<Rightarrow> CpuPlannerTopologyViewV1 \<Rightarrow> CpuThreadPolicyV1 \<Rightarrow>
   CpuGemmImplementationResourcesV2 \<Rightarrow> CpuGemmRequestV3 \<Rightarrow> CpuPlannerPlacementEvidenceV1 \<Rightarrow> CpuGemmPlanV3" where
  "plan_cpu_gemm_v3 instrumented problem capabilities t policy res request placement =
    (let plan = empty_plan_v3 problem capabilities t policy res request placement in
     case refused_v3 instrumented problem capabilities policy of
       Some (status, why) \<Rightarrow>
         plan\<lparr>plan3_status := status, plan3_selection_reason := why,
              plan3_candidates := map (\<lambda>record. (described_v3 res record)\<lparr>dec3_reason := why\<rparr>)
                                    kCpuGemmVariantRegistryV3\<rparr>
     | None \<Rightarrow>
         let l = v3_locals_of instrumented problem capabilities t policy res placement;
             candidates = map (decide_v3 l) kCpuGemmVariantRegistryV3;
             s = search_over (search_step_v3 request) 0 candidates
                   (search_start var3_reference (length kCpuGemmVariantRegistryV3));
             plan = plan\<lparr>plan3_candidates := candidates, plan3_selected_variant := srch_variant s,
                         plan3_selected_id := srch_id s\<rparr>
         in if \<not> srch_found s
            then plan\<lparr>plan3_status := (if request = req3_automatic then st1_no_legal_variant
                                       else st1_forced_variant_illegal),
                      plan3_selection_reason := (if request = req3_automatic
                                                 then ''no legal CPU GEMM variant''
                                                 else ''requested CPU GEMM variant is illegal'')\<rparr>
            else plan\<lparr>plan3_status := st1_selected,
                      plan3_selection_reason :=
                        (if request = req3_automatic
                         then ''lowest deterministic static cost; ties use priority then registry order''
                         else ''explicit legal variant request'')\<rparr>)"
section \<open>Projections of the platform records\<close>

record CpuPlannerCapabilityProjectionV1 =
  cp_valid :: bool
  cp_reason :: reason
  cp_baseline :: CpuCapabilitiesV1
  cp_avx512f_hardware :: bool
  cp_avx512f_os_enabled :: bool
  cp_avx512f_compiler_supported :: bool
  cp_avx512f_implementation_available :: bool
  cp_avx512f_runtime_validated :: bool
  cp_avx2_implementation_available :: bool
  cp_avx2_runtime_validated :: bool
  cp_fma_implementation_available :: bool
  cp_fma_runtime_validated :: bool

definition default_projection :: CpuPlannerCapabilityProjectionV1 where
  "default_projection = \<lparr>cp_valid = False, cp_reason = [], cp_baseline = default_capabilities_v1,
     cp_avx512f_hardware = False, cp_avx512f_os_enabled = False,
     cp_avx512f_compiler_supported = False, cp_avx512f_implementation_available = False,
     cp_avx512f_runtime_validated = False, cp_avx2_implementation_available = False,
     cp_avx2_runtime_validated = False, cp_fma_implementation_available = False,
     cp_fma_runtime_validated = False\<rparr>"

fun projected_architecture :: "ArchitectureKindV1 \<Rightarrow> CpuArchitectureV1" where
  "projected_architecture archk_x86_64 = arch1_x86_64"
| "projected_architecture archk_aarch64 = arch1_aarch64"
| "projected_architecture archk_unknown = arch1_unknown"
| "projected_architecture (archk_other _) = cap1_architecture default_capabilities_v1"

definition discovery_knows :: "CpuCapabilitiesV2 \<Rightarrow> CpuFeatureV2 \<Rightarrow> bool" where
  "discovery_knows r f \<longleftrightarrow>
     feature_known (cap2_hardware r) f \<and> feature_known (cap2_os_enabled r) f \<and>
     feature_known (cap2_compiler r) f"

definition add_feature_if :: "bool \<Rightarrow> CpuFeatureV1 \<Rightarrow> u64 \<Rightarrow> u64" where
  "add_feature_if c f bits = (if c then bits OR feature_bit_v1 f else bits)"

definition projected_baseline :: "CpuCapabilitiesV2 \<Rightarrow> CpuCapabilitiesV1" where
  "projected_baseline r =
     \<lparr>cap1_version = 1,
      cap1_architecture = projected_architecture (cap2_architecture r),
      cap1_detection_complete =
        (cap2_architecture r \<noteq> archk_unknown \<and> discovery_knows r feat_portable_scalar_f32 \<and>
         (cap2_architecture r \<noteq> archk_x86_64 \<or>
          (discovery_knows r feat_avx2 \<and> discovery_knows r feat_fma))),
      cap1_features =
        add_feature_if (has_usable_feature_v2 r feat_fma) feat1_fma
          (add_feature_if (has_usable_feature_v2 r feat_avx2) feat1_avx2
            (add_feature_if (has_usable_feature_v2 r feat_portable_scalar_f32)
              feat1_portable_scalar_f32 0)),
      cap1_usable_vector_bits = cap2_usable_vector_bits r\<rparr>"

definition project_cpu_capabilities_v2_for_planner_v1 ::
  "CpuCapabilitiesV2 \<Rightarrow> CpuPlannerCapabilityProjectionV1" where
  "project_cpu_capabilities_v2_for_planner_v1 r =
    (case validate_cpu_capabilities_v2 r of
       Some why \<Rightarrow> default_projection\<lparr>cp_valid := False, cp_reason := why\<rparr>
     | None \<Rightarrow>
         \<lparr>cp_valid = True, cp_reason = [], cp_baseline = projected_baseline r,
          cp_avx512f_hardware = feature_available (cap2_hardware r) feat_avx512f,
          cp_avx512f_os_enabled = feature_available (cap2_os_enabled r) feat_avx512f,
          cp_avx512f_compiler_supported = feature_available (cap2_compiler r) feat_avx512f,
          cp_avx512f_implementation_available = feature_available (cap2_implementation r) feat_avx512f,
          cp_avx512f_runtime_validated = has_runtime_validated_feature_v2 r feat_avx512f,
          cp_avx2_implementation_available = feature_available (cap2_implementation r) feat_avx2,
          cp_avx2_runtime_validated = has_runtime_validated_feature_v2 r feat_avx2,
          cp_fma_implementation_available = feature_available (cap2_implementation r) feat_fma,
          cp_fma_runtime_validated = has_runtime_validated_feature_v2 r feat_fma\<rparr>)"

definition project_cpu_topology_v1_for_planner_v1 ::
  "CpuTopologyV1 \<Rightarrow> u32 \<Rightarrow> CpuPlannerTopologyViewV1" where
  "project_cpu_topology_v1_for_planner_v1 topology override =
    (let logical = logical_cpu_count_v1 topology;
         available = (if override = 0 then logical else override);
         ids_complete = length (topo_numa_nodes topology) \<le> kCpuPlannerReportedNumaNodeLimitV1;
         ids = (if ids_complete
                then map nn_node_id (topo_numa_nodes topology) @
                     drop (length (topo_numa_nodes topology)) (tv_numa_node_ids default_topology_view)
                else tv_numa_node_ids default_topology_view)
     in \<lparr>tv_version = 1,
         tv_discovery_complete =
           (validate_cpu_topology_v1 topology = None \<and> topo_discovery_complete topology \<and>
            \<not> available > logical \<and> \<not> (override \<noteq> 0 \<and> override \<noteq> logical) \<and> ids_complete),
         tv_logical_processors = logical, tv_physical_cores = physical_core_count_v1 topology,
         tv_available_processors = available, tv_numa_nodes = numa_node_count_v1 topology,
         tv_numa_node_ids_complete = ids_complete, tv_numa_node_ids = ids\<rparr>)"

text \<open>The resources after the normalisation against the capability record.\<close>

definition normalized_resources ::
  "CpuPlannerCapabilityProjectionV1 \<Rightarrow> CpuGemmImplementationResourcesV2 \<Rightarrow>
   CpuGemmImplementationResourcesV2" where
  "normalized_resources c res =
     res\<lparr>res2_avx512f_hardware := cp_avx512f_hardware c,
         res2_avx512f_os_enabled := cp_avx512f_os_enabled c,
         res2_avx512f_compiler_supported := cp_avx512f_compiler_supported c,
         res2_baseline := (res2_baseline res)\<lparr>res1_native_packed_avx2_fma_compiled :=
           (res1_native_packed_avx2_fma_compiled (res2_baseline res) \<and>
            cp_avx2_implementation_available c \<and> cp_fma_implementation_available c)\<rparr>,
         res2_native_parallel_avx2_fma_compiled :=
           (res2_native_parallel_avx2_fma_compiled res \<and> cp_avx2_implementation_available c \<and>
            cp_fma_implementation_available c),
         res2_native_packed_avx2_fma_runtime_validated :=
           (res2_native_packed_avx2_fma_runtime_validated res \<and> cp_avx2_runtime_validated c \<and>
            cp_fma_runtime_validated c),
         res2_native_packed_avx512_fma_compiled :=
           (res2_native_packed_avx512_fma_compiled res \<and> cp_avx512f_implementation_available c),
         res2_native_parallel_avx512_fma_compiled :=
           (res2_native_parallel_avx512_fma_compiled res \<and> cp_avx512f_implementation_available c),
         res2_native_packed_avx512_fma_runtime_validated :=
           (res2_native_packed_avx512_fma_runtime_validated res \<and> cp_avx512f_runtime_validated c)\<rparr>"

text \<open>The overload that takes the platform records.\<close>

definition plan_cpu_gemm_v3_records ::
  "bool \<Rightarrow> CpuGemmProblemV1 \<Rightarrow> CpuCapabilitiesV2 \<Rightarrow> CpuTopologyV1 \<Rightarrow> CpuThreadPolicyV1 \<Rightarrow>
   CpuGemmImplementationResourcesV2 \<Rightarrow> CpuGemmRequestV3 \<Rightarrow> u32 \<Rightarrow> CpuPlannerPlacementEvidenceV1 \<Rightarrow>
   CpuGemmPlanV3" where
  "plan_cpu_gemm_v3_records instrumented problem capabilities topology policy res request override
     placement =
    (let c = project_cpu_capabilities_v2_for_planner_v1 capabilities;
         view = project_cpu_topology_v1_for_planner_v1 topology override;
         normalized = normalized_resources c res
     in if \<not> cp_valid c
        then (empty_plan_v3 problem (cp_baseline c) view policy normalized request placement)
               \<lparr>plan3_status := st1_invalid_capabilities, plan3_selection_reason := cp_reason c,
                plan3_candidates :=
                  map (\<lambda>record. (described_v3 normalized record)\<lparr>dec3_reason := cp_reason c\<rparr>)
                    kCpuGemmVariantRegistryV3\<rparr>
        else plan_cpu_gemm_v3 instrumented problem (cp_baseline c) view policy normalized request
               placement)"

section \<open>Formatting\<close>

fun request_name_v3 :: "CpuGemmRequestV3 \<Rightarrow> string" where
  "request_name_v3 req3_automatic = ''automatic''"
| "request_name_v3 req3_force_reference = ''force-reference''"
| "request_name_v3 req3_force_tiled = ''force-tiled''"
| "request_name_v3 req3_force_compiler_vectorized = ''force-compiler-vectorized''"
| "request_name_v3 req3_force_external_openblas = ''force-external-openblas''"
| "request_name_v3 req3_force_native_packed_avx2_fma = ''force-native-packed-avx2-fma''"
| "request_name_v3 req3_force_native_packed_avx512_fma = ''force-native-packed-avx512-fma''"
| "request_name_v3 req3_force_native_parallel_avx2_fma = ''force-native-parallel-avx2-fma''"
| "request_name_v3 req3_force_native_parallel_avx512_fma = ''force-native-parallel-avx512-fma''"
| "request_name_v3 (req3_other _) = ''invalid''"

fun status_name_v3 :: "CpuPlanStatusV1 \<Rightarrow> string" where
  "status_name_v3 st1_selected = ''selected''"
| "status_name_v3 st1_no_legal_variant = ''no-legal-variant''"
| "status_name_v3 st1_forced_variant_illegal = ''forced-variant-illegal''"
| "status_name_v3 st1_invalid_problem = ''invalid-problem''"
| "status_name_v3 st1_invalid_capabilities = ''invalid-capabilities''"
| "status_name_v3 (st1_other _) = ''invalid''"

definition bool_op :: "bool \<Rightarrow> wr_op" where
  "bool_op b = W_text (if b then ''true'' else ''false'')"

abbreviation number_u32 :: "u32 \<Rightarrow> wr_op" where
  "number_u32 x \<equiv> W_number (u32_to_u64 x)"

definition candidate_ops_v3 :: "CpuCandidateDecisionV3 \<Rightarrow> wr_op list" where
  "candidate_ops_v3 c =
     [W_text (dec3_stable_id c), W_char CHR '':'',
      W_text (if dec3_legal c then ''legal'' else ''rejected''),
      W_text '':reason='', W_text (dec3_reason c),
      W_text '':cost='', W_number (dec3_estimated_cost c),
      W_text '':priority='', W_number (ucast (dec3_deterministic_priority c)),
      W_text '':workspace='', W_number (dec3_required_workspace_bytes c),
      W_text '':shared-workspace='', W_number (dec3_shared_workspace_bytes c),
      W_text '':per-worker-workspace='', W_number (dec3_per_worker_workspace_bytes c),
      W_text '':alignment='', number_u32 (dec3_required_workspace_alignment c),
      W_text '':threads='', number_u32 (dec3_actual_threads c),
      W_text '':thread-ceiling='', number_u32 (dec3_requested_thread_ceiling c),
      W_text '':row-tasks='', W_number (dec3_parallel_row_tasks c),
      W_text '':column-tasks='', W_number (dec3_parallel_column_tasks c),
      W_text '':task-count='', W_number (dec3_parallel_task_count c),
      W_text '':thread-capacity-limited='', bool_op (dec3_thread_capacity_limited c),
      W_text '':runtime-validated='', bool_op (dec3_runtime_validated c),
      W_text '':required-hardware='', W_number (dec3_required_hardware_features c),
      W_text '':required-os='', W_number (dec3_required_os_features c),
      W_text '':required-compiler='', W_number (dec3_required_compiler_features c),
      W_text '':required-implementation='', W_number (dec3_required_implementation_features c),
      W_text '':cross-numa='', bool_op (dec3_crosses_numa_nodes c)]"

definition reported_nodes :: "CpuPlannerPlacementEvidenceV1 \<Rightarrow> u32 list" where
  "reported_nodes p =
     map (\<lambda>index. pe_selected_numa_nodes p ! index)
       [0..<min (unat (pe_selected_numa_node_count p)) kCpuPlannerReportedNumaNodeLimitV1]"

definition plan_ops_v3 :: "CpuGemmPlanV3 \<Rightarrow> wr_op list" where
  "plan_ops_v3 plan =
    (let policy = plan3_thread_policy plan; t = plan3_topology plan; p = plan3_placement plan in
     [W_text ''cpu-planner-v3 request-id='', W_number (of_nat (request_code_v3 (plan3_request plan))),
      W_text '' request='', W_text (request_name_v3 (plan3_request plan)),
      W_text '' requested-threads='', number_u32 (tp_requested_threads policy),
      W_text '' max-threads='', number_u32 (tp_maximum_threads policy),
      W_text '' allow-smt='', bool_op (tp_allow_smt policy),
      W_text '' external-provider-parallelism='',
      bool_op (tp_external_provider_parallelism_active policy),
      W_text '' worker-affinity-active='', bool_op (tp_worker_affinity_active policy),
      W_text '' physical-cores='', number_u32 (tv_physical_cores t),
      W_text '' logical-processors='', number_u32 (tv_logical_processors t),
      W_text '' available-processors='', number_u32 (tv_available_processors t),
      W_text '' numa-nodes='', number_u32 (tv_numa_nodes t),
      W_text '' placement-complete='', bool_op (pe_evidence_complete p),
      W_text '' affinity-requested='', bool_op (pe_affinity_requested p),
      W_text '' affinity-applied='', bool_op (pe_affinity_applied p),
      W_text '' affinity='', W_text (to_string_affinity (pe_affinity p)),
      W_text '' numa-policy='', W_text (numa_policy_name (pe_numa p)),
      W_text '' local-logical-capacity='', number_u32 (pe_local_logical_processor_capacity p),
      W_text '' local-physical-capacity='', number_u32 (pe_local_physical_core_capacity p),
      W_text '' selected-numa-nodes=[''] @
     comma_separated (map (\<lambda>n. [number_u32 n]) (reported_nodes p)) @
     [W_char CHR '']'',
      W_text '' cross-numa='', bool_op (pe_crosses_numa_nodes p),
      W_text '' caller-first-touch='', bool_op (pe_caller_first_touch_required p),
      W_text '' status='', W_text (status_name_v3 (plan3_status plan)),
      W_text '' selected='',
      W_text (if plan3_selected_id plan = [] then ''none'' else plan3_selected_id plan),
      W_text '' reason='', W_text (plan3_selection_reason plan),
      W_text '' candidates=[''] @
     comma_separated (map candidate_ops_v3 (plan3_candidates plan)) @ [W_char CHR '']''])"

definition format_cpu_gemm_plan_v3 ::
  "CpuGemmPlanV3 \<Rightarrow> char list option \<Rightarrow> nat \<Rightarrow> nat \<times> char list option" where
  "format_cpu_gemm_plan_v3 plan output capacity = wr_run (plan_ops_v3 plan) output capacity"
end
