(* ===== verification/PlannerV3Decisions.thy ===== *)
theory PlannerV3Decisions
  imports PlannerV3
begin

text \<open>
  What the third planner generation guarantees. The first sections describe each branch of the loop
  body; the locale \<open>candidate_search\<close> gives the outcome of the search. The properties say which
  candidate is selected, what a legal parallel candidate rests on, how the base candidates relate to
  the second generation, and what the platform records behind a plan have shown.
\<close>

section \<open>Shape of the decisions\<close>

text \<open>The resource flag that stands for the runtime validation of a variant.\<close>

fun validated_flag :: "CpuGemmImplementationResourcesV2 \<Rightarrow> CpuGemmVariantV3 \<Rightarrow> bool" where
  "validated_flag res var3_reference = res2_reference_f32_runtime_validated res"
| "validated_flag res var3_tiled = res2_tiled_f32_runtime_validated res"
| "validated_flag res var3_compiler_vectorized = res2_compiler_vectorized_f32_runtime_validated res"
| "validated_flag res var3_external_openblas = res2_external_openblas_f32_runtime_validated res"
| "validated_flag res var3_native_packed_avx2_fma = res2_native_packed_avx2_fma_runtime_validated res"
| "validated_flag res var3_native_packed_avx512_fma = res2_native_packed_avx512_fma_runtime_validated res"
| "validated_flag res var3_native_parallel_avx2_fma = res2_native_parallel_avx2_fma_runtime_validated res"
| "validated_flag res var3_native_parallel_avx512_fma = res2_native_parallel_avx512_fma_runtime_validated res"
| "validated_flag res (var3_other _) = False"

definition known_variant_v3 :: "CpuGemmVariantV3 \<Rightarrow> bool" where
  "known_variant_v3 v \<longleftrightarrow> v \<in> rec3_variant ` set kCpuGemmVariantRegistryV3"

definition base_variant_v3 :: "CpuGemmVariantV3 \<Rightarrow> bool" where
  "base_variant_v3 v \<longleftrightarrow> v \<in> {var3_reference, var3_tiled, var3_compiler_vectorized,
     var3_external_openblas, var3_native_packed_avx2_fma}"

definition parallel_variant_v3 :: "CpuGemmVariantV3 \<Rightarrow> bool" where
  "parallel_variant_v3 v \<longleftrightarrow> v \<in> {var3_native_parallel_avx2_fma, var3_native_parallel_avx512_fma}"

lemma described_fields [simp]:
  "dec3_variant (described_v3 res r) = rec3_variant r"
  "dec3_stable_id (described_v3 res r) = rec3_stable_id r"
  "dec3_deterministic_priority (described_v3 res r) = rec3_deterministic_priority r"
  "dec3_legal (described_v3 res r) = False"
  by (cases "rec3_variant r"; simp add: described_v3_def populate_resource_metadata_def
      populate_requirement_metadata_def fresh_decision_v3_def Let_def)+

lemma require_validated_simps [simp]:
  "dec3_variant (require_validated b why d) = dec3_variant d"
  "dec3_stable_id (require_validated b why d) = dec3_stable_id d"
  "dec3_deterministic_priority (require_validated b why d) = dec3_deterministic_priority d"
  "dec3_actual_threads (require_validated b why d) = dec3_actual_threads d"
  "dec3_legal (require_validated b why d) \<longleftrightarrow> dec3_legal d \<and> b"
  "dec3_runtime_validated (require_validated b why d) = b"
  "b \<Longrightarrow> dec3_estimated_cost (require_validated b why d) = dec3_estimated_cost d"
  by (auto simp: require_validated_def refuse_v3_def Let_def)

lemma refuse_v3_simps [simp]:
  "dec3_variant (refuse_v3 why d) = dec3_variant d"
  "dec3_stable_id (refuse_v3 why d) = dec3_stable_id d"
  "dec3_deterministic_priority (refuse_v3 why d) = dec3_deterministic_priority d"
  "dec3_actual_threads (refuse_v3 why d) = dec3_actual_threads d"
  "dec3_legal (refuse_v3 why d) = False"
  by (simp_all add: refuse_v3_def)

text \<open>The decision of the second generation that a base variant goes back to.\<close>

definition base_decision :: "v3_locals \<Rightarrow> CpuGemmVariantV3 \<Rightarrow> CpuCandidateDecisionV2" where
  "base_decision l v = decide_v2 (loc_instrumented l) (loc_problem l) (loc_capabilities l)
     (v2_resources_v3 l v) (kCpuGemmVariantRegistryV2 ! v2_index v)"

lemma base_decision_eq:
  "plan2_candidates (plan_cpu_gemm_v2 (loc_instrumented l) (loc_problem l) (loc_capabilities l)
      (v2_resources_v3 l v) req) ! v2_index v = base_decision l v"
proof -
  have "v2_index v < 5" by (cases v) simp_all
  then show ?thesis by (simp add: base_decision_def candidates_v2)
qed

lemma decide_base_fields [simp]:
  "dec3_variant (decide_base_v3 l d) = dec3_variant d"
  "dec3_stable_id (decide_base_v3 l d) = dec3_stable_id d"
  "dec3_deterministic_priority (decide_base_v3 l d) = dec3_deterministic_priority d"
  "dec3_actual_threads (decide_base_v3 l d) = dec2_actual_threads (base_decision l (dec3_variant d))"
  unfolding decide_base_v3_def Let_def base_decision_eq by simp_all

lemma decide_base_legal:
  assumes "base_variant_v3 (dec3_variant d)"
  shows "dec3_legal (decide_base_v3 l d) \<longleftrightarrow>
    dec2_legal (base_decision l (dec3_variant d)) \<and>
    \<not> (dec3_variant d = var3_external_openblas \<and> tp_worker_affinity_active (loc_policy l) \<and>
       dec2_actual_threads (base_decision l (dec3_variant d)) > 1) \<and>
    validated_flag (loc_resources l) (dec3_variant d)"
  using assms unfolding base_variant_v3_def decide_base_v3_def Let_def base_decision_eq
  by (elim insertE emptyE) (auto split: if_splits)

lemma decide_base_result:
  assumes "base_variant_v3 (dec3_variant d)" "dec3_legal (decide_base_v3 l d)"
  shows "dec3_estimated_cost (decide_base_v3 l d) =
    (if dec3_variant d = var3_external_openblas
     then external_cost (loc_problem l) (dec2_actual_threads (base_decision l (dec3_variant d)))
     else if dec3_variant d = var3_native_packed_avx2_fma \<and>
       use_bound_packed_avx2_calibration (loc_problem l) (loc_policy l)
     then min (dec2_estimated_cost (base_decision l (dec3_variant d))) (operation_count (loc_problem l))
     else dec2_estimated_cost (base_decision l (dec3_variant d))) \<and>
    dec3_runtime_validated (decide_base_v3 l d)"
proof -
  note legal = assms(2) [unfolded decide_base_legal [OF assms(1)]]
  show ?thesis
    using legal assms(1) unfolding decide_base_v3_def Let_def base_decision_eq
    by (cases "dec3_variant d") (auto simp: base_variant_v3_def)
qed

lemma decide_packed_avx512_legal:
  "dec3_legal (decide_packed_avx512_v3 l d) \<longleftrightarrow> (packed_avx512_reason l = [] \<or> dec3_legal d)"
  "dec3_variant (decide_packed_avx512_v3 l d) = dec3_variant d"
  "dec3_stable_id (decide_packed_avx512_v3 l d) = dec3_stable_id d"
  "dec3_deterministic_priority (decide_packed_avx512_v3 l d) = dec3_deterministic_priority d"
  "packed_avx512_reason l = [] \<Longrightarrow> dec3_actual_threads (decide_packed_avx512_v3 l d) = 1"
  "packed_avx512_reason l = [] \<Longrightarrow> dec3_runtime_validated (decide_packed_avx512_v3 l d)"
  by (simp_all add: decide_packed_avx512_v3_def Let_def)

lemma parallel_sized_fields [simp]:
  "dec3_variant (parallel_sized_v3 l d) = dec3_variant d"
  "dec3_stable_id (parallel_sized_v3 l d) = dec3_stable_id d"
  "dec3_legal (parallel_sized_v3 l d) = dec3_legal d"
  "dec3_deterministic_priority (parallel_sized_v3 l d) = dec3_deterministic_priority d"
  "dec3_actual_threads (parallel_sized_v3 l d) = ptp_actual_threads (loc_tasks l)"
  "dec3_parallel_row_tasks (parallel_sized_v3 l d) = ptp_row_task_count (loc_tasks l)"
  "dec3_parallel_column_tasks (parallel_sized_v3 l d) = ptp_column_task_count (loc_tasks l)"
  "dec3_parallel_task_count (parallel_sized_v3 l d) = ptp_task_count (loc_tasks l)"
  "dec3_shared_workspace_bytes (parallel_sized_v3 l d) = dec3_shared_workspace_bytes d"
  "dec3_per_worker_workspace_bytes (parallel_sized_v3 l d) = dec3_per_worker_workspace_bytes d"
  "dec3_required_workspace_alignment (parallel_sized_v3 l d) = dec3_required_workspace_alignment d"
  "dec3_required_workspace_bytes (parallel_sized_v3 l d) = (case parallel_total_workspace l d of
     None \<Rightarrow> dec3_required_workspace_bytes d | Some bytes \<Rightarrow> bytes)"
  by (simp_all add: parallel_sized_v3_def Let_def)

lemma decide_parallel_fields [simp]:
  "dec3_variant (decide_parallel_v3 l d) = dec3_variant d"
  "dec3_stable_id (decide_parallel_v3 l d) = dec3_stable_id d"
  "dec3_deterministic_priority (decide_parallel_v3 l d) = dec3_deterministic_priority d"
  "dec3_actual_threads (decide_parallel_v3 l d) = ptp_actual_threads (loc_tasks l)"
  "dec3_parallel_row_tasks (decide_parallel_v3 l d) = ptp_row_task_count (loc_tasks l)"
  "dec3_parallel_column_tasks (decide_parallel_v3 l d) = ptp_column_task_count (loc_tasks l)"
  "dec3_parallel_task_count (decide_parallel_v3 l d) = ptp_task_count (loc_tasks l)"
  "dec3_shared_workspace_bytes (decide_parallel_v3 l d) = dec3_shared_workspace_bytes d"
  "dec3_per_worker_workspace_bytes (decide_parallel_v3 l d) = dec3_per_worker_workspace_bytes d"
  "dec3_required_workspace_alignment (decide_parallel_v3 l d) = dec3_required_workspace_alignment d"
  by (simp_all add: decide_parallel_v3_def Let_def)

lemma parallel_reason_none:
  assumes "parallel_reason l avx512 d = []"
  defines "res \<equiv> loc_resources l" and "caps \<equiv> loc_capabilities l"
    and "threads \<equiv> ptp_actual_threads (loc_tasks l)"
  shows "loc_placement_error l = []" "res2_execution_context_available res"
    "res2_execution_context_worker_capacity res \<noteq> 0"
    "\<not> tp_external_provider_parallelism_active (loc_policy l)" "\<not> threads < 2"
    "\<not> divide_round_up (operation_count (loc_problem l)) (u32_to_u64 threads) <
       kCpuParallelMinimumWorkPerThreadV1"
    "dec3_shared_workspace_bytes d \<noteq> 0" "dec3_per_worker_workspace_bytes d \<noteq> 0"
    "dec3_required_workspace_alignment d \<ge> 32"
    "power_of_two_or_zero (dec3_required_workspace_alignment d)" "dec3_required_workspace_bytes d \<noteq> 0"
    "cap1_detection_complete caps" "cap1_architecture caps = arch1_x86_64" "has_feature_v1 caps feat1_fma"
  using assms(1) unfolding parallel_reason_def Let_def res_def [symmetric] caps_def [symmetric]
    threads_def [symmetric]
  by (cases avx512, simp_all add: not_less split: if_splits)+

lemma parallel_reason_avx512:
  assumes "parallel_reason l True d = []"
  shows "res2_avx512f_hardware (loc_resources l)" "res2_avx512f_os_enabled (loc_resources l)"
    "res2_avx512f_compiler_supported (loc_resources l)"
    "res2_native_packed_avx512_fma_compiled (loc_resources l)"
    "res2_native_parallel_avx512_fma_compiled (loc_resources l)"
    "res2_native_packed_avx512_fma_runtime_validated (loc_resources l)"
    "res2_native_parallel_avx512_fma_runtime_validated (loc_resources l)"
  using assms unfolding parallel_reason_def Let_def by (simp_all split: if_splits)

lemma parallel_reason_avx2:
  assumes "parallel_reason l False d = []"
  shows "has_feature_v1 (loc_capabilities l) feat1_avx2"
    "cap1_usable_vector_bits (loc_capabilities l) \<ge> 256"
    "res1_native_packed_avx2_fma_compiled (res2_baseline (loc_resources l))"
    "res2_native_parallel_avx2_fma_compiled (loc_resources l)"
    "res2_native_packed_avx2_fma_runtime_validated (loc_resources l)"
    "res2_native_parallel_avx2_fma_runtime_validated (loc_resources l)"
  using assms unfolding parallel_reason_def Let_def by (simp_all split: if_splits)

lemma decide_parallel_legal:
  assumes "\<not> dec3_legal d" "dec3_legal (decide_parallel_v3 l d)"
  shows "parallel_reason l (dec3_variant d = var3_native_parallel_avx512_fma) (parallel_sized_v3 l d) = []"
    "dec3_required_workspace_bytes (decide_parallel_v3 l d) =
       (case parallel_total_workspace l d of None \<Rightarrow> 0 | Some bytes \<Rightarrow> bytes)"
    "dec3_runtime_validated (decide_parallel_v3 l d) =
      (if dec3_variant d = var3_native_parallel_avx512_fma
       then res2_native_parallel_avx512_fma_runtime_validated (loc_resources l)
       else res2_native_parallel_avx2_fma_runtime_validated (loc_resources l))"
proof -
  show why: "parallel_reason l (dec3_variant d = var3_native_parallel_avx512_fma) (parallel_sized_v3 l d) = []"
    using assms unfolding decide_parallel_v3_def Let_def by (auto split: if_splits)
  show "dec3_required_workspace_bytes (decide_parallel_v3 l d) =
       (case parallel_total_workspace l d of None \<Rightarrow> 0 | Some bytes \<Rightarrow> bytes)"
    "dec3_runtime_validated (decide_parallel_v3 l d) =
      (if dec3_variant d = var3_native_parallel_avx512_fma
       then res2_native_parallel_avx512_fma_runtime_validated (loc_resources l)
       else res2_native_parallel_avx2_fma_runtime_validated (loc_resources l))"
    unfolding decide_parallel_v3_def Let_def why by simp_all
qed

section \<open>Decisions of a plan\<close>

lemma length_registry_v3 [simp]: "length kCpuGemmVariantRegistryV3 = 8"
  by (simp add: registry_simps)

lemma registry_v3_code: "i < 8 \<Longrightarrow> variant_code_v3 (rec3_variant (kCpuGemmVariantRegistryV3 ! i)) = i"
  by (auto simp: registry_simps less_Suc_eq numeral_eq_Suc)

lemma variant_code_base: "base_variant_v3 v \<Longrightarrow> variant_code_v3 v \<le> 4"
  by (auto simp: base_variant_v3_def)

lemma decide_v3_base:
  "base_variant_v3 (rec3_variant r) \<Longrightarrow> decide_v3 l r = decide_base_v3 l (described_v3 (loc_resources l) r)"
  by (simp add: decide_v3_def Let_def variant_code_base)

lemma decide_v3_packed:
  "rec3_variant r = var3_native_packed_avx512_fma \<Longrightarrow>
   decide_v3 l r = decide_packed_avx512_v3 l (described_v3 (loc_resources l) r)"
  by (simp add: decide_v3_def Let_def)

lemma decide_v3_parallel:
  "parallel_variant_v3 (rec3_variant r) \<Longrightarrow>
   decide_v3 l r = decide_parallel_v3 l (described_v3 (loc_resources l) r)"
  by (auto simp: decide_v3_def Let_def parallel_variant_v3_def)

lemma decide_v3_fields [simp]:
  "dec3_variant (decide_v3 l r) = rec3_variant r"
  "dec3_stable_id (decide_v3 l r) = rec3_stable_id r"
  "dec3_deterministic_priority (decide_v3 l r) = rec3_deterministic_priority r"
  by (simp_all add: decide_v3_def Let_def decide_packed_avx512_legal)

lemma known_variant_cases:
  assumes "r \<in> set kCpuGemmVariantRegistryV3"
  obtains "base_variant_v3 (rec3_variant r)" | "rec3_variant r = var3_native_packed_avx512_fma"
    | "parallel_variant_v3 (rec3_variant r)"
  using assms by (auto simp: registry_simps base_variant_v3_def parallel_variant_v3_def)

interpretation v3: candidate_search "eligible_v3 request" dec3_estimated_cost
    dec3_deterministic_priority dec3_variant dec3_stable_id "search_step_v3 request" for request
  by unfold_locales (auto simp: eligible_v3_def search_step_v3_def)

abbreviation v3_ready :: "CpuGemmProblemV1 \<Rightarrow> CpuCapabilitiesV1 \<Rightarrow> CpuThreadPolicyV1 \<Rightarrow> bool" where
  "v3_ready problem caps policy \<equiv> v1_ready problem caps \<and> thread_policy_reason policy = []"

lemma refused_v3_None: "refused_v3 ins problem caps policy = None \<longleftrightarrow> v3_ready problem caps policy"
  using base_refused_iff [of ins problem caps req1_force_reference]
  by (auto simp: refused_v3_def Let_def)

lemma refused_v3_Some:
  "refused_v3 ins problem caps policy = Some (status, why) \<Longrightarrow>
     status = st1_invalid_problem \<or> status = st1_invalid_capabilities"
  by (auto simp: refused_v3_def Let_def split: if_splits)

lemma candidates_v3:
  "v3_ready problem caps policy \<Longrightarrow>
   plan3_candidates (plan_cpu_gemm_v3 ins problem caps t policy res req pl) =
     map (decide_v3 (v3_locals_of ins problem caps t policy res pl)) kCpuGemmVariantRegistryV3"
  unfolding refused_v3_None [of ins, symmetric] by (simp add: plan_cpu_gemm_v3_def Let_def)

lemma candidates_v3_refused:
  "\<not> v3_ready problem caps policy \<Longrightarrow>
   d \<in> set (plan3_candidates (plan_cpu_gemm_v3 ins problem caps t policy res req pl)) \<Longrightarrow> \<not> dec3_legal d"
  unfolding refused_v3_None [of ins, symmetric]
  by (auto simp: plan_cpu_gemm_v3_def Let_def)

lemma legal_candidate_v3:
  assumes "d \<in> set (plan3_candidates (plan_cpu_gemm_v3 ins problem caps t policy res req pl))"
    "dec3_legal d"
  shows "v3_ready problem caps policy \<and> (\<exists>r \<in> set kCpuGemmVariantRegistryV3.
    d = decide_v3 (v3_locals_of ins problem caps t policy res pl) r)"
proof -
  have ready: "v3_ready problem caps policy" using candidates_v3_refused assms by blast
  then show ?thesis using assms(1) by (auto simp: candidates_v3)
qed

lemma locals_fields [simp]:
  "loc_instrumented (v3_locals_of ins problem caps t policy res pl) = ins"
  "loc_problem (v3_locals_of ins problem caps t policy res pl) = problem"
  "loc_capabilities (v3_locals_of ins problem caps t policy res pl) = caps"
  "loc_topology (v3_locals_of ins problem caps t policy res pl) = t"
  "loc_policy (v3_locals_of ins problem caps t policy res pl) = policy"
  "loc_resources (v3_locals_of ins problem caps t policy res pl) = res"
  "loc_placement (v3_locals_of ins problem caps t policy res pl) = pl"
  "loc_topology_error (v3_locals_of ins problem caps t policy res pl) = topology_reason t"
  by (simp_all add: v3_locals_of_def Let_def)

section \<open>The outcome of a plan\<close>

lemma plan_v3_status_cases:
  "plan3_status (plan_cpu_gemm_v3 ins problem caps t policy res req pl) =
    (case refused_v3 ins problem caps policy of
       Some (status, why) \<Rightarrow> status
     | None \<Rightarrow>
         if \<exists>d \<in> set (plan3_candidates (plan_cpu_gemm_v3 ins problem caps t policy res req pl)). eligible_v3 req d
         then st1_selected
         else if req = req3_automatic then st1_no_legal_variant else st1_forced_variant_illegal)"
  by (simp add: plan_cpu_gemm_v3_def Let_def v3.not_found_iff split: option.split prod.split)

lemma plan_v3_ready:
  "plan3_status (plan_cpu_gemm_v3 ins problem caps t policy res req pl) = st1_selected \<Longrightarrow>
     v3_ready problem caps policy"
  unfolding plan_v3_status_cases refused_v3_None [of ins, symmetric]
  using refused_v3_Some by (fastforce split: option.splits)

lemma plan_v3_best:
  assumes "plan3_status (plan_cpu_gemm_v3 ins problem caps t policy res req pl) = st1_selected"
  defines "p \<equiv> plan_cpu_gemm_v3 ins problem caps t policy res req pl"
  shows "\<exists>i. v3.best req (plan3_candidates p) i
      \<and> plan3_selected_variant p = dec3_variant (plan3_candidates p ! i)
      \<and> plan3_selected_id p = dec3_stable_id (plan3_candidates p ! i)"
proof -
  let ?s = "search_over (search_step_v3 req) 0 (plan3_candidates p) (search_start var3_reference 8)"
  have none: "refused_v3 ins problem caps policy = None"
    using plan_v3_ready [OF assms(1)] by (simp add: refused_v3_None)
  have sel: "plan3_selected_variant p = srch_variant ?s" "plan3_selected_id p = srch_id ?s"
    using none by (simp_all add: p_def plan_cpu_gemm_v3_def Let_def)
  have "\<exists>d \<in> set (plan3_candidates p). eligible_v3 req d"
    using assms(1) none unfolding p_def plan_v3_status_cases by (simp split: if_splits)
  then have "srch_found ?s" by (simp only: v3.not_found_iff)
  from v3.found_best [OF this] show ?thesis unfolding sel by blast
qed

section \<open>Thread ceilings\<close>

lemma policy_thread_ceiling_bounds:
  "policy_thread_ceiling t policy res pl \<le> tp_requested_threads policy"
  "tp_maximum_threads policy \<noteq> 0 \<Longrightarrow> policy_thread_ceiling t policy res pl \<le> tp_maximum_threads policy"
  "policy_thread_ceiling t policy res pl \<le> res2_execution_context_worker_capacity res"
  "policy_thread_ceiling t policy res pl \<le> tv_available_processors t"
  "policy_thread_ceiling t policy res pl \<le> topology_thread_limit t policy"
  "pe_evidence_complete pl \<Longrightarrow> pe_numa pl = numa_single_node \<Longrightarrow>
     policy_thread_ceiling t policy res pl \<le> local_thread_capacity policy pl"
  by (simp_all add: policy_thread_ceiling_def Let_def min.coboundedI1)

lemma provider_threads_bounds:
  "provider_threads_v3 l \<le> tp_requested_threads (loc_policy l)"
  "tp_maximum_threads (loc_policy l) \<noteq> 0 \<Longrightarrow> provider_threads_v3 l \<le> tp_maximum_threads (loc_policy l)"
  by (simp_all add: provider_threads_v3_def Let_def min.coboundedI1)

lemma word_le_antisym_unat: "unat a = unat b \<Longrightarrow> a = (b :: 'a::len word)"
  by (simp add: word_unat_eq_iff)

text \<open>A task plan that leaves threads was made for a positive problem and a positive ceiling.\<close>

lemma task_threads_bounds:
  assumes "ptp_actual_threads (plan_cpu_parallel_tasks_v1 problem c) \<noteq> 0"
  shows "task_problem_ok problem c" "ptp_actual_threads (plan_cpu_parallel_tasks_v1 problem c) \<le> c"
proof -
  show ok: "task_problem_ok problem c"
    using assms by (auto simp: plan_cpu_parallel_tasks_v1_def default_task_plan_def task_problem_ok_def
        not_le [symmetric] split: if_splits)
  show "ptp_actual_threads (plan_cpu_parallel_tasks_v1 problem c) \<le> c"
    using task_plan_facts(4,5) [OF ok] by (simp add: word_le_nat_alt)
qed

section \<open>Legal parallel candidates\<close>

lemma described_parallel_bytes:
  "parallel_variant_v3 (rec3_variant r) \<Longrightarrow> dec3_required_workspace_bytes (described_v3 res r) = 0"
  by (auto simp: parallel_variant_v3_def described_v3_def populate_resource_metadata_def
      populate_requirement_metadata_def fresh_decision_v3_def Let_def)

lemma legal_parallel_facts:
  assumes "parallel_variant_v3 (rec3_variant r)" "dec3_legal (decide_v3 l r)"
    and l: "l = v3_locals_of ins problem caps t policy res pl"
  defines "d \<equiv> decide_v3 l r" and "c \<equiv> policy_thread_ceiling t policy res pl"
  shows "topology_reason t = []" "placement_reason t pl = []"
    "loc_tasks l = plan_cpu_parallel_tasks_v1 problem c" "task_problem_ok problem c"
    "\<not> dec3_actual_threads d < 2" "dec3_actual_threads d \<le> c"
    "dec3_actual_threads d = ptp_actual_threads (loc_tasks l)"
    "unat (dec3_required_workspace_bytes d) = unat (dec3_shared_workspace_bytes d) +
       unat (dec3_per_worker_workspace_bytes d) * unat (dec3_actual_threads d)"
    "dec3_runtime_validated d"
proof -
  let ?e = "described_v3 res r"
  let ?a = "dec3_variant ?e = var3_native_parallel_avx512_fma"
  have d: "d = decide_parallel_v3 l ?e" by (simp add: d_def decide_v3_parallel [OF assms(1)] l)
  have "\<not> dec3_legal ?e" "dec3_legal (decide_parallel_v3 l ?e)" using assms(2) d by (simp_all add: d_def)
  note legal = decide_parallel_legal [OF this]
  note none = parallel_reason_none [OF legal(1)]
  have err: "loc_placement_error l = (if topology_reason t = [] then placement_reason t pl else topology_reason t)"
    and ceil: "loc_thread_ceiling l = (if topology_reason t = [] then c else 0)"
    and tasks: "loc_tasks l = plan_cpu_parallel_tasks_v1 problem (loc_thread_ceiling l)"
    by (simp_all add: l v3_locals_of_def Let_def c_def)
  show t: "topology_reason t = []" using none(1) err by (auto split: if_splits)
  show "placement_reason t pl = []" using none(1) err t by simp
  show tk: "loc_tasks l = plan_cpu_parallel_tasks_v1 problem c" using tasks ceil t by simp
  have n: "ptp_actual_threads (plan_cpu_parallel_tasks_v1 problem c) \<noteq> 0" using none(5) tk by auto
  show "task_problem_ok problem c" by (rule task_threads_bounds(1) [OF n])
  show two: "\<not> dec3_actual_threads d < 2" using none(5) by (simp add: d)
  show "dec3_actual_threads d \<le> c" using task_threads_bounds(2) [OF n] by (simp add: d tk)
  show "dec3_actual_threads d = ptp_actual_threads (loc_tasks l)" by (simp add: d)
  have "dec3_required_workspace_bytes (parallel_sized_v3 l ?e) \<noteq> 0" by (rule none(11))
  then obtain b where b: "parallel_total_workspace l ?e = Some b"
    using described_parallel_bytes [OF assms(1), of res] by (auto split: option.splits)
  then have "dec3_required_workspace_bytes d = b" using legal(2) by (simp add: d)
  moreover have "total_parallel_workspace (dec3_shared_workspace_bytes ?e)
      (dec3_per_worker_workspace_bytes ?e) (ptp_actual_threads (loc_tasks l)) = Some b"
    using b by (simp add: parallel_total_workspace_def Let_def split: if_splits)
  ultimately show "unat (dec3_required_workspace_bytes d) = unat (dec3_shared_workspace_bytes d) +
       unat (dec3_per_worker_workspace_bytes d) * unat (dec3_actual_threads d)"
    by (simp add: d total_parallel_workspace_Some)
  show "dec3_runtime_validated d"
  proof (cases ?a)
    case True
    then show ?thesis
      using legal(3) parallel_reason_avx512(7) [OF legal(1) [unfolded eqTrueI [OF True]]]
      by (simp add: d)
  next
    case False
    then have no: "?a = False" by simp
    show ?thesis
      using legal(3) parallel_reason_avx2(6) [OF legal(1) [unfolded no]]
      using l False by (simp add: d)
  qed
qed

section \<open>Properties\<close>

text \<open>C8: A selected plan of the third generation names a candidate that is legal, matches the request,
  and is least in cost, then priority, then registry order among those that are.\<close>

theorem plan_v3_selects_best:
  assumes "plan = plan_cpu_gemm_v3 ins problem caps t policy res req pl" "plan3_status plan = st1_selected"
  shows "\<exists>i < 8. let cs = plan3_candidates plan; d = cs ! i in
     dec3_legal d \<and> request_matches_v3 req (dec3_variant d) \<and>
     plan3_selected_variant plan = dec3_variant d \<and> plan3_selected_id plan = dec3_stable_id d \<and>
     (\<forall>j < 8. dec3_legal (cs ! j) \<and> request_matches_v3 req (dec3_variant (cs ! j)) \<longrightarrow>
        dec3_estimated_cost d < dec3_estimated_cost (cs ! j) \<or>
        dec3_estimated_cost d = dec3_estimated_cost (cs ! j) \<and>
          (dec3_deterministic_priority d < dec3_deterministic_priority (cs ! j) \<or>
           dec3_deterministic_priority d = dec3_deterministic_priority (cs ! j) \<and> i \<le> j))"
proof -
  have sel: "plan3_status (plan_cpu_gemm_v3 ins problem caps t policy res req pl) = st1_selected"
    using assms by simp
  have len: "length (plan3_candidates plan) = 8"
    using plan_v3_ready [OF sel] by (simp add: assms(1) candidates_v3)
  from plan_v3_best [OF sel, folded assms(1)] obtain i where
    "v3.best req (plan3_candidates plan) i"
    "plan3_selected_variant plan = dec3_variant (plan3_candidates plan ! i)"
    "plan3_selected_id plan = dec3_stable_id (plan3_candidates plan ! i)" by blast
  then show ?thesis
    unfolding v3.best_iff len Let_def by (intro exI [of _ i]) (simp add: eligible_v3_def)
qed

text \<open>C28: What a legal parallel candidate rests on: accepted topology and placement evidence, an execution
  context with enough workers, no provider parallelism around it, at least two threads within every
  ceiling of the policy, a full grid of that many disjoint tasks, at least \<open>2^20\<close> operations per
  thread, a workspace that is exactly the shared part plus one private part per thread, and a
  runtime-validated kernel.\<close>

theorem parallel_legal_evidence:
  assumes "d \<in> set (plan3_candidates (plan_cpu_gemm_v3 ins problem caps t policy res req pl))"
    and "dec3_legal d"
    and "dec3_variant d \<in> {var3_native_parallel_avx2_fma, var3_native_parallel_avx512_fma}"
  shows "topology_reason t = [] \<and> placement_reason t pl = [] \<and>
    res2_execution_context_available res \<and> \<not> tp_external_provider_parallelism_active policy \<and>
    dec3_runtime_validated d \<and>
    (let n = dec3_actual_threads d in
     2 \<le> unat n \<and> n \<le> tp_requested_threads policy \<and>
     (tp_maximum_threads policy \<noteq> 0 \<longrightarrow> n \<le> tp_maximum_threads policy) \<and>
     n \<le> res2_execution_context_worker_capacity res \<and> n \<le> tv_available_processors t \<and>
     n \<le> topology_thread_limit t policy \<and>
     (pe_numa pl = numa_single_node \<longrightarrow> n \<le> local_thread_capacity policy pl) \<and>
     unat (dec3_parallel_row_tasks d) * unat (dec3_parallel_column_tasks d) = unat n \<and>
     2 ^ 20 \<le> unat (divide_round_up (operation_count problem) (u32_to_u64 n)) \<and>
     unat (dec3_required_workspace_bytes d) = unat (dec3_shared_workspace_bytes d) +
       unat (dec3_per_worker_workspace_bytes d) * unat n)"
proof -
  let ?l = "v3_locals_of ins problem caps t policy res pl"
  obtain r where r: "d = decide_v3 ?l r" using legal_candidate_v3 [OF assms(1,2)] by blast
  have par: "parallel_variant_v3 (rec3_variant r)" using assms(3) by (simp add: r parallel_variant_v3_def)
  note f = legal_parallel_facts [OF par assms(2) [unfolded r] refl, folded r]
  note task = task_plan_facts [OF f(4)]
  have legal: "dec3_legal (decide_parallel_v3 ?l (described_v3 res r))"
    using assms(2) by (simp add: r decide_v3_parallel [OF par])
  note none = parallel_reason_none [OF decide_parallel_legal(1) [OF _ legal]]
  have "dec3_parallel_row_tasks d = ptp_row_task_count (loc_tasks ?l)"
    "dec3_parallel_column_tasks d = ptp_column_task_count (loc_tasks ?l)"
    by (simp_all add: r decide_v3_parallel [OF par])
  then have grid: "unat (dec3_parallel_row_tasks d) * unat (dec3_parallel_column_tasks d) =
      unat (dec3_actual_threads d)"
    using task(1,5) by (simp add: f(3,7))
  have two: "2 \<le> unat (dec3_actual_threads d)" using f(5) by (simp add: word_less_nat_alt)
  have work: "2 ^ 20 \<le> unat (divide_round_up (operation_count problem) (u32_to_u64 (dec3_actual_threads d)))"
    using none(6) by (simp add: f(7) word_less_nat_alt kCpuParallelMinimumWorkPerThreadV1_def push_bit_eq_mult)
  have "pe_evidence_complete pl"
    using f(2) by (auto simp: placement_reason_def split: if_splits)
  note c = policy_thread_ceiling_bounds [where t = t and policy = policy and res = res and pl = pl]
  show ?thesis
    using f(1,2,8,9) none(2,4) two grid work c(6) [OF \<open>pe_evidence_complete pl\<close>] c(2)
      order.trans [OF f(6) c(1)] order.trans [OF f(6) c(3)] order.trans [OF f(6) c(4)]
      order.trans [OF f(6) c(5)] f(6)
    unfolding Let_def by (auto intro: order.trans)
qed

text \<open>The registry entry of the second generation behind a base variant.\<close>

lemma base_registry_entry:
  "base_variant_v3 v \<Longrightarrow> v2_index v < 5 \<and>
     (rec2_variant (kCpuGemmVariantRegistryV2 ! v2_index v) = var2_external_openblas \<longleftrightarrow>
        v = var3_external_openblas)"
  by (auto simp: base_variant_v3_def registry_simps)

lemma base_decision_threads:
  assumes "base_variant_v3 v" "dec2_legal (base_decision l v)"
  shows "dec2_actual_threads (base_decision l v) =
      (if v = var3_external_openblas then provider_threads_v3 l else 1)"
    "dec2_actual_threads (base_decision l v) \<noteq> 0"
proof -
  let ?r = "kCpuGemmVariantRegistryV2 ! v2_index v"
  note legal = assms(2) [unfolded base_decision_def]
  show eq: "dec2_actual_threads (base_decision l v) =
      (if v = var3_external_openblas then provider_threads_v3 l else 1)"
    using decide_v2_result(2) [OF legal] base_registry_entry [OF assms(1)]
    by (auto simp: base_decision_def v2_resources_v3_def)
  have "res1_requested_threads (v2_resources_v3 l v) \<noteq> 0"
    using legal by (auto simp: decide_v2_legal extra_legality_reason_def split: if_splits)
  then show "dec2_actual_threads (base_decision l v) \<noteq> 0"
    using eq by (simp add: v2_resources_v3_def split: if_splits)
qed

text \<open>Whatever is legal runs on at least one thread and on no more threads than the policy asks
  for and allows.\<close>

theorem legal_threads_bounded:
  assumes "d \<in> set (plan3_candidates (plan_cpu_gemm_v3 ins problem caps t policy res req pl))"
    and "dec3_legal d"
  shows "dec3_actual_threads d \<noteq> 0 \<and> dec3_actual_threads d \<le> tp_requested_threads policy \<and>
    (tp_maximum_threads policy \<noteq> 0 \<longrightarrow> dec3_actual_threads d \<le> tp_maximum_threads policy)"
proof -
  let ?l = "v3_locals_of ins problem caps t policy res pl"
  obtain r where r: "r \<in> set kCpuGemmVariantRegistryV3" "d = decide_v3 ?l r"
    and ready: "v3_ready problem caps policy"
    using legal_candidate_v3 [OF assms] by blast
  have one: "1 \<le> x" if "x \<noteq> 0" for x :: u32
    using that by (simp add: word_le_nat_alt Suc_leI unat_gt_0)
  have req: "1 \<le> tp_requested_threads policy"
    using ready by (intro one) (auto simp: thread_policy_reason_def split: if_splits)
  from r(1) show ?thesis
  proof (cases rule: known_variant_cases)
    case 1
    have legal: "dec2_legal (base_decision ?l (rec3_variant r))"
      using assms(2) 1 by (simp add: r decide_v3_base decide_base_legal)
    note b = base_decision_threads [OF 1 legal]
    have "dec3_actual_threads d = dec2_actual_threads (base_decision ?l (rec3_variant r))"
      using 1 by (simp add: r decide_v3_base)
    then show ?thesis
      using b provider_threads_bounds [of ?l] req one by (auto split: if_splits)
  next
    case 2
    then have "dec3_actual_threads d = 1"
      using assms(2) by (simp add: r decide_v3_packed decide_packed_avx512_legal)
    then show ?thesis using req one by simp
  next
    case 3
    note f = legal_parallel_facts(5,6) [OF 3 assms(2) [unfolded r(2)] refl, folded r(2)]
    have "dec3_actual_threads d \<noteq> 0" using f(1) by auto
    then show ?thesis
      using f(2) policy_thread_ceiling_bounds [where t = t and policy = policy and res = res and pl = pl]
      by (auto intro: order.trans)
  qed
qed

text \<open>C29: The base candidates refine the second generation: each is legal exactly when the second
  generation, asked with one thread (or the provider threads for OpenBLAS), accepts it, its kernel
  was validated at run time, and it is not a multi-threaded provider under bound workers.\<close>

theorem v3_base_refines_v2:
  assumes "common_legality_reason problem = []" "capability_record_reason caps = []"
    and "thread_policy_reason policy = []" and "i < 5"
  shows "let d = plan3_candidates (plan_cpu_gemm_v3 ins problem caps t policy res req pl) ! i;
             l = v3_locals_of ins problem caps t policy res pl;
             v = rec3_variant (kCpuGemmVariantRegistryV3 ! i);
             b = plan2_candidates (plan_cpu_gemm_v2 ins problem caps (v2_resources_v3 l v) req2_automatic) ! i
         in dec3_variant d = v \<and>
            (dec3_legal d \<longleftrightarrow> dec2_legal b \<and> validated_flag res v \<and>
               \<not> (i = 3 \<and> tp_worker_affinity_active policy \<and> dec2_actual_threads b > 1))"
proof -
  let ?l = "v3_locals_of ins problem caps t policy res pl"
  let ?r = "kCpuGemmVariantRegistryV3 ! i"
  have entry: "base_variant_v3 (rec3_variant ?r) \<and> v2_index (rec3_variant ?r) = i \<and>
      (rec3_variant ?r = var3_external_openblas \<longleftrightarrow> i = 3)"
    using assms(4) by (auto simp: registry_simps base_variant_v3_def less_Suc_eq numeral_eq_Suc)
  have "plan2_candidates (plan_cpu_gemm_v2 ins problem caps (v2_resources_v3 ?l (rec3_variant ?r)) req2_automatic) ! i
      = base_decision ?l (rec3_variant ?r)"
    using base_decision_eq [of ?l "rec3_variant ?r" req2_automatic] entry by simp
  note second = this
  show ?thesis
    unfolding Let_def second
    using entry assms by (simp add: candidates_v3 decide_v3_base decide_base_legal) blast
qed

text \<open>Planning never fails for lack of a fast kernel: with the scalar reference validated, an
  accepted problem, record and policy always get a selected plan, whatever the topology, placement
  or resources; a forced reference request as well.\<close>

theorem reference_fallback:
  assumes "common_legality_reason problem = []" "capability_record_reason caps = []"
    and "thread_policy_reason policy = []" "has_feature_v1 caps feat1_portable_scalar_f32"
    and "res2_reference_f32_runtime_validated res" "req \<in> {req3_automatic, req3_force_reference}"
  shows "plan3_status (plan_cpu_gemm_v3 ins problem caps t policy res req pl) = st1_selected"
proof -
  let ?l = "v3_locals_of ins problem caps t policy res pl"
  let ?r = "kCpuGemmVariantRegistryV3 ! 0" and ?r1 = "kCpuGemmVariantRegistryV1 ! 0"
  have v: "rec3_variant ?r = var3_reference" by (simp add: registry_simps)
  have bit: "cap1_features caps AND 1 = 1"
    using assms(4) by (simp add: has_feature_v1_def and_one_eq mod_2_eq_odd split: if_splits)
  have "dec1_legal (decide_v1 ins problem caps ?r1)"
    using assms(1,2) bit
    by (auto simp: decide_v1_legal capability_legality_reason_def capability_record_reason_def
        registry_simps split: if_splits)
  then have "dec2_legal (base_decision ?l var3_reference)"
    using assms(1,2) bit legacy_accepts_iff [of 0 ins problem caps]
    by (simp add: base_decision_def decide_v2_legal registry_v2_nth extra_legacy v2_resources_v3_def)
      (simp add: registry_simps)
  then have "dec3_legal (decide_v3 ?l ?r)"
    using assms(5) v
    by (subst decide_v3_base) (simp_all add: decide_base_legal base_variant_v3_def)
  moreover have "request_matches_v3 req var3_reference"
    using assms(6) by (auto simp: request_matches_v3_def)
  ultimately have "eligible_v3 req (decide_v3 ?l ?r)" by (simp add: eligible_v3_def v)
  moreover have "?r \<in> set kCpuGemmVariantRegistryV3" by (simp add: registry_simps)
  ultimately have "\<exists>d \<in> set (plan3_candidates (plan_cpu_gemm_v3 ins problem caps t policy res req pl)).
      eligible_v3 req d"
    using assms(1-3) by (auto simp: candidates_v3)
  moreover have "refused_v3 ins problem caps policy = None"
    using assms(1-3) by (simp add: refused_v3_None)
  ultimately show ?thesis by (simp add: plan_v3_status_cases)
qed

section \<open>Evidence\<close>

lemma first_reason_Nil: "first_reason rs = [] \<longleftrightarrow> (\<forall>r \<in> set rs. r = [])"
  by (induction rs) auto

lemma node_ids_ascending:
  assumes "n \<le> length ids"
  shows "(\<forall>i < n. \<not> node_id_bad ids i) \<longleftrightarrow>
    kUnknownTopologyIdV1 \<notin> set (take n ids) \<and> sorted_wrt (<) (take n ids)"
proof -
  have "sorted_wrt (<) (take n ids) \<longleftrightarrow> (\<forall>i. Suc i < n \<longrightarrow> ids ! i < ids ! Suc i)"
    using assms by (subst sorted_wrt_iff_nth_Suc_transp) (auto intro: transpI)
  moreover have "(\<forall>i < n. i \<noteq> 0 \<longrightarrow> ids ! (i - 1) < ids ! i) \<longleftrightarrow> (\<forall>i. Suc i < n \<longrightarrow> ids ! i < ids ! Suc i)"
  proof (intro iffI allI impI)
    fix i assume "\<forall>i < n. i \<noteq> 0 \<longrightarrow> ids ! (i - 1) < ids ! i" "Suc i < n"
    then show "ids ! i < ids ! Suc i" by (auto dest: spec [of _ "Suc i"])
  next
    fix i assume "\<forall>i. Suc i < n \<longrightarrow> ids ! i < ids ! Suc i" "i < n" "i \<noteq> 0"
    then show "ids ! (i - 1) < ids ! i" by (cases i) simp_all
  qed
  moreover have "kUnknownTopologyIdV1 \<notin> set (take n ids) \<longleftrightarrow> (\<forall>i < n. ids ! i \<noteq> kUnknownTopologyIdV1)"
    using assms by (auto simp: in_set_conv_nth)
  ultimately show ?thesis by (auto simp: node_id_bad_def not_le)
qed

lemma reason_chain: "s \<noteq> [] \<Longrightarrow> (if c then s else r) = [] \<longleftrightarrow> \<not> c \<and> r = ([] :: reason)"
  by simp

lemma reason_or_rest: "(if r \<noteq> [] then r else s) = [] \<longleftrightarrow> r = [] \<and> s = ([] :: reason)"
  by simp

definition view_nodes :: "CpuPlannerTopologyViewV1 \<Rightarrow> u32 list" where
  "view_nodes t = take (unat (tv_numa_nodes t)) (tv_numa_node_ids t)"

definition evidence_nodes :: "CpuPlannerPlacementEvidenceV1 \<Rightarrow> u32 list" where
  "evidence_nodes p = take (unat (pe_selected_numa_node_count p)) (pe_selected_numa_nodes p)"

definition identifiers_ok :: "u32 list \<Rightarrow> bool" where
  "identifiers_ok ids \<longleftrightarrow> kUnknownTopologyIdV1 \<notin> set ids \<and> sorted_wrt (<) ids"

lemma topology_reason_None:
  assumes "length (tv_numa_node_ids t) = 16"
  shows "topology_reason t = [] \<longleftrightarrow> tv_version t = 1 \<and> tv_discovery_complete t \<and>
    0 < tv_physical_cores t \<and> tv_physical_cores t \<le> tv_logical_processors t \<and>
    0 < tv_available_processors t \<and> tv_available_processors t \<le> tv_logical_processors t \<and>
    0 < tv_numa_nodes t \<and> unat (tv_numa_nodes t) \<le> 16 \<and> tv_numa_node_ids_complete t \<and>
    identifiers_ok (view_nodes t)"
proof (cases "unat (tv_numa_nodes t) \<le> 16")
  case True
  have "list_ex (node_id_bad (tv_numa_node_ids t)) [0..<unat (tv_numa_nodes t)] \<longleftrightarrow>
      \<not> identifiers_ok (view_nodes t)"
    using node_ids_ascending [of "unat (tv_numa_nodes t)" "tv_numa_node_ids t"] True assms
    by (auto simp: list_ex_iff identifiers_ok_def view_nodes_def)
  then show ?thesis
    using True
    by (auto simp: topology_reason_def kCpuPlannerReportedNumaNodeLimitV1_def word_gt_0 not_less
        split: if_splits)
qed (simp add: topology_reason_def kCpuPlannerReportedNumaNodeLimitV1_def)

lemma selected_nodes_reason:
  assumes "identifiers_ok (view_nodes t)" "unat (pe_selected_numa_node_count p) \<le> length (pe_selected_numa_nodes p)"
  shows "first_reason (map (selected_node_reason t (pe_selected_numa_nodes p))
      [0..<unat (pe_selected_numa_node_count p)]) = [] \<longleftrightarrow>
    identifiers_ok (evidence_nodes p) \<and> set (evidence_nodes p) \<subseteq> set (view_nodes t)"
proof -
  let ?n = "unat (pe_selected_numa_node_count p)" and ?ids = "pe_selected_numa_nodes p"
  have "contains_cpu (view_nodes t) x \<longleftrightarrow> x \<in> set (view_nodes t)" for x
    using assms(1) by (intro contains_cpu_iff) (simp add: identifiers_ok_def)
  then have "selected_node_reason t ?ids i = [] \<longleftrightarrow> \<not> node_id_bad ?ids i \<and> ?ids ! i \<in> set (view_nodes t)" for i
    by (simp add: selected_node_reason_def view_nodes_def)
  then have "first_reason (map (selected_node_reason t ?ids) [0..<?n]) = [] \<longleftrightarrow>
      (\<forall>i < ?n. \<not> node_id_bad ?ids i) \<and> (\<forall>i < ?n. ?ids ! i \<in> set (view_nodes t))"
    by (auto simp: first_reason_Nil)
  moreover have "(\<forall>i < ?n. ?ids ! i \<in> set (view_nodes t)) \<longleftrightarrow> set (evidence_nodes p) \<subseteq> set (view_nodes t)"
    unfolding evidence_nodes_def nth_image [OF assms(2), symmetric] by auto
  ultimately show ?thesis
    using node_ids_ascending [OF assms(2)] by (simp add: identifiers_ok_def evidence_nodes_def)
qed

text \<open>Placement evidence is accepted exactly when it is complete and consistent: known policies, local
  capacities ordered and within the topology, selected nodes known, ascending and part of the
  topology, the cross-NUMA flag equal to having several nodes, affinity applied exactly when
  requested, a single-node policy that neither crosses nodes nor leaves workers unbound on a machine
  with several nodes, and first touch exposed whenever nodes are crossed.\<close>

theorem placement_evidence_exact:
  assumes "topology_reason t = []" "length (tv_numa_node_ids t) = 16" "length (pe_selected_numa_nodes p) = 16"
  shows "placement_reason t p = [] \<longleftrightarrow>
    pe_version p = 1 \<and> pe_evidence_complete p \<and> known_affinity_v3 (pe_affinity p) \<and>
    known_numa_policy (pe_numa p) \<and> 0 < pe_local_logical_processor_capacity p \<and>
    0 < pe_local_physical_core_capacity p \<and>
    pe_local_physical_core_capacity p \<le> pe_local_logical_processor_capacity p \<and>
    pe_local_logical_processor_capacity p \<le> tv_logical_processors t \<and>
    pe_local_physical_core_capacity p \<le> tv_physical_cores t \<and>
    0 < pe_selected_numa_node_count p \<and> pe_selected_numa_node_count p \<le> tv_numa_nodes t \<and>
    identifiers_ok (evidence_nodes p) \<and> set (evidence_nodes p) \<subseteq> set (view_nodes t) \<and>
    (pe_crosses_numa_nodes p \<longleftrightarrow> pe_selected_numa_node_count p > 1) \<and>
    (pe_affinity_applied p \<longleftrightarrow> pe_affinity_requested p) \<and>
    (pe_numa p = numa_single_node \<longrightarrow>
       \<not> pe_crosses_numa_nodes p \<and> (tv_numa_nodes t > 1 \<longrightarrow> pe_affinity_applied p)) \<and>
    (pe_crosses_numa_nodes p \<longrightarrow> pe_caller_first_touch_required p)"
proof -
  have t: "identifiers_ok (view_nodes t)" "unat (tv_numa_nodes t) \<le> 16"
    using assms(1) topology_reason_None [OF assms(2)] by blast+
  show ?thesis
  proof (cases "pe_selected_numa_node_count p \<le> tv_numa_nodes t")
    case True
    then have n: "unat (pe_selected_numa_node_count p) \<le> 16" using t(2) by (simp add: word_le_nat_alt)
    then have nodes: "first_reason (map (selected_node_reason t (pe_selected_numa_nodes p))
        [0..<unat (pe_selected_numa_node_count p)]) = [] \<longleftrightarrow>
      identifiers_ok (evidence_nodes p) \<and> set (evidence_nodes p) \<subseteq> set (view_nodes t)"
      using assms(3) by (intro selected_nodes_reason t) simp
    have "placement_reason t p = [] \<longleftrightarrow>
      pe_version p = 1 \<and> pe_evidence_complete p \<and> known_affinity_v3 (pe_affinity p) \<and>
      known_numa_policy (pe_numa p) \<and> pe_local_logical_processor_capacity p \<noteq> 0 \<and>
      pe_local_physical_core_capacity p \<noteq> 0 \<and>
      pe_local_physical_core_capacity p \<le> pe_local_logical_processor_capacity p \<and>
      pe_local_logical_processor_capacity p \<le> tv_logical_processors t \<and>
      pe_local_physical_core_capacity p \<le> tv_physical_cores t \<and>
      pe_selected_numa_node_count p \<noteq> 0 \<and>
      (identifiers_ok (evidence_nodes p) \<and> set (evidence_nodes p) \<subseteq> set (view_nodes t)) \<and>
      pe_crosses_numa_nodes p = (pe_selected_numa_node_count p > 1) \<and>
      (pe_affinity_applied p \<longrightarrow> pe_affinity_requested p) \<and>
      (pe_affinity_requested p \<longrightarrow> pe_affinity_applied p) \<and>
      \<not> (pe_numa p = numa_single_node \<and> pe_crosses_numa_nodes p) \<and>
      \<not> (pe_numa p = numa_single_node \<and> tv_numa_nodes t > 1 \<and> \<not> pe_affinity_applied p) \<and>
      (pe_crosses_numa_nodes p \<longrightarrow> pe_caller_first_touch_required p)"
      unfolding placement_reason_def Let_def nodes [symmetric]
      using n True by (simp add: reason_chain kCpuPlannerReportedNumaNodeLimitV1_def not_less)
        (simp add: not_le)
    then show ?thesis using True unfolding word_neq_0_conv [symmetric] by blast
  next
    case False
    then show ?thesis by (auto simp: placement_reason_def Let_def not_le split: if_splits)
  qed
qed

section \<open>Plans over the platform records\<close>

lemma projected_features:
  "has_feature_v1 (projected_baseline r) feat1_avx2 \<longleftrightarrow> has_usable_feature_v2 r feat_avx2"
  "has_feature_v1 (projected_baseline r) feat1_fma \<longleftrightarrow> has_usable_feature_v2 r feat_fma"
  "has_feature_v1 (projected_baseline r) feat1_portable_scalar_f32 \<longleftrightarrow>
     has_usable_feature_v2 r feat_portable_scalar_f32"
  by (simp_all add: projected_baseline_def has_feature_v1_def add_feature_if_def)

lemma compiler_vectorized_features:
  assumes "dec2_legal (base_decision l var3_compiler_vectorized)"
  shows "has_feature_v1 (loc_capabilities l) feat1_avx2 \<and> has_feature_v1 (loc_capabilities l) feat1_fma"
proof -
  have "features_present (loc_capabilities l) (rec2_required_features (kCpuGemmVariantRegistryV2 ! 2))"
    using assms by (simp add: base_decision_def decide_v2_legal)
  then have f: "cap1_features (loc_capabilities l) AND 7 = 7" by (simp add: registry_simps)
  have "cap1_features (loc_capabilities l) AND b \<noteq> 0" if "7 AND b = b" "b \<noteq> 0" for b
    using that f by (metis and.assoc)
  then show ?thesis by (simp add: has_feature_v1_def)
qed

text \<open>C37: End to end, from the platform record to the plan: no candidate whose kernel uses AVX2 and FMA, or
  AVX-512F, is legal unless the record is valid and shows the instruction set in its hardware,
  operating system, compiler and implementation domains; the native kernels need its run-time
  validation too.\<close>

theorem records_isa_safe:
  assumes "d \<in> set (plan3_candidates (plan_cpu_gemm_v3_records ins problem caps topology policy res req
      override pl))" and "dec3_legal d"
  shows "validate_cpu_capabilities_v2 caps = None \<and>
    (dec3_variant d = var3_compiler_vectorized \<longrightarrow>
       has_usable_feature_v2 caps feat_avx2 \<and> has_usable_feature_v2 caps feat_fma) \<and>
    (dec3_variant d \<in> {var3_native_packed_avx2_fma, var3_native_parallel_avx2_fma} \<longrightarrow>
       has_runtime_validated_feature_v2 caps feat_avx2 \<and> has_runtime_validated_feature_v2 caps feat_fma) \<and>
    (dec3_variant d \<in> {var3_native_packed_avx512_fma, var3_native_parallel_avx512_fma} \<longrightarrow>
       has_runtime_validated_feature_v2 caps feat_avx512f \<and> has_usable_feature_v2 caps feat_fma)"
proof (cases "validate_cpu_capabilities_v2 caps")
  case (Some why)
  then show ?thesis
    using assms by (auto simp: plan_cpu_gemm_v3_records_def Let_def
        project_cpu_capabilities_v2_for_planner_v1_def default_projection_def)
next
  case None
  let ?c = "project_cpu_capabilities_v2_for_planner_v1 caps"
  let ?res = "normalized_resources ?c res"
  let ?view = "project_cpu_topology_v1_for_planner_v1 topology override"
  let ?l = "v3_locals_of ins problem (projected_baseline caps) ?view policy ?res pl"
  have c: "cp_valid ?c" "cp_baseline ?c = projected_baseline caps"
    "cp_avx2_runtime_validated ?c = has_runtime_validated_feature_v2 caps feat_avx2"
    "cp_fma_runtime_validated ?c = has_runtime_validated_feature_v2 caps feat_fma"
    "cp_avx512f_runtime_validated ?c = has_runtime_validated_feature_v2 caps feat_avx512f"
    using None by (simp_all add: project_cpu_capabilities_v2_for_planner_v1_def)
  have flags: "res2_native_packed_avx2_fma_runtime_validated ?res \<Longrightarrow>
      has_runtime_validated_feature_v2 caps feat_avx2 \<and> has_runtime_validated_feature_v2 caps feat_fma"
    "res2_native_packed_avx512_fma_runtime_validated ?res \<Longrightarrow> has_runtime_validated_feature_v2 caps feat_avx512f"
    by (simp_all add: normalized_resources_def c)
  have "d \<in> set (plan3_candidates (plan_cpu_gemm_v3 ins problem (projected_baseline caps) ?view policy ?res req pl))"
    using assms(1) c by (simp add: plan_cpu_gemm_v3_records_def Let_def)
  then obtain r where r: "r \<in> set kCpuGemmVariantRegistryV3" "d = decide_v3 ?l r"
    using legal_candidate_v3 assms(2) by blast
  from r(1) show ?thesis
  proof (cases rule: known_variant_cases)
    case 1
    then have "dec2_legal (base_decision ?l (rec3_variant r)) \<and> validated_flag ?res (rec3_variant r)"
      using assms(2) by (simp add: r decide_v3_base decide_base_legal)
    moreover from this have "rec3_variant r = var3_compiler_vectorized \<Longrightarrow>
        has_usable_feature_v2 caps feat_avx2 \<and> has_usable_feature_v2 caps feat_fma"
      using compiler_vectorized_features [of ?l] unfolding locals_fields projected_features by simp
    ultimately show ?thesis using None 1 flags(1) by (auto simp: r base_variant_v3_def)
  next
    case 2
    then have "packed_avx512_reason ?l = []"
      using assms(2) by (simp add: r decide_v3_packed decide_packed_avx512_legal)
    then have "has_feature_v1 (projected_baseline caps) feat1_fma"
      and valid: "res2_native_packed_avx512_fma_runtime_validated ?res"
      unfolding packed_avx512_reason_def Let_def locals_fields by (auto split: if_splits)
    then have "has_usable_feature_v2 caps feat_fma" by (simp only: projected_features)
    then show ?thesis using None 2 flags(2) valid by (simp add: r)
  next
    case 3
    have legal: "dec3_legal (decide_parallel_v3 ?l (described_v3 ?res r))"
      using assms(2) by (simp add: r decide_v3_parallel [OF 3])
    note why = decide_parallel_legal(1) [OF _ legal, simplified]
    from 3 consider "rec3_variant r = var3_native_parallel_avx2_fma" | "rec3_variant r = var3_native_parallel_avx512_fma"
      by (auto simp: parallel_variant_v3_def)
    then show ?thesis
    proof cases
      case 1
      then show ?thesis
        using None flags(1) parallel_reason_avx2(5) [of ?l] why by (simp add: r)
    next
      case 2
      then have none: "parallel_reason ?l True (parallel_sized_v3 ?l (described_v3 ?res r)) = []"
        using why by simp
      then have "has_usable_feature_v2 caps feat_fma"
        using parallel_reason_none(14) [OF none] by (simp only: locals_fields projected_features)
      then show ?thesis
        using None 2 flags(2) parallel_reason_avx512(6) [OF none] by (simp add: r)
    qed
  qed
qed

section \<open>The topology view\<close>

lemma topology_ok_length:
  assumes "topology_ok t"
  shows "length (topo_logical_processors t) \<le> 4294967295"
proof -
  let ?ids = "map lp_logical_cpu (topo_logical_processors t)"
  have "distinct ?ids" by (rule topology_cpus_distinct [OF assms])
  moreover have "\<forall>x \<in> set ?ids. x < kUnknownTopologyIdV1"
  proof
    fix x assume "x \<in> set ?ids"
    then have "x \<noteq> u32_max" using assms by (auto simp: topology_ok_def Let_def processor_ok_def kUnknownTopologyIdV1_def)
    then show "x < kUnknownTopologyIdV1" using u32_le_max [of x] by (simp add: kUnknownTopologyIdV1_def order.strict_iff_order)
  qed
  ultimately have "length ?ids \<le> unat kUnknownTopologyIdV1" by (rule length_below)
  then show ?thesis by (simp add: kUnknownTopologyIdV1_def)
qed

lemma complete_topology_counts:
  assumes ok: "topology_ok t" and complete: "topo_discovery_complete t"
  shows "0 < physical_core_count_v1 t" "physical_core_count_v1 t \<le> logical_cpu_count_v1 t"
    "0 < logical_cpu_count_v1 t"
proof -
  let ?ps = "topo_logical_processors t"
  let ?core = "\<lambda>p. (lp_package_id p, lp_core_id p)"
  have ps: "?ps \<noteq> []" "\<forall>p \<in> set ?ps. lp_online p \<and> lp_core_id p \<noteq> kUnknownTopologyIdV1 \<and>
      lp_package_id p \<noteq> kUnknownTopologyIdV1"
    using ok complete by (auto simp: topology_ok_def Let_def processor_ok_def)
  note counts = topology_count_facts [OF topology_ok_length [OF ok]]
  have "{p \<in> set ?ps. lp_online p \<and> lp_core_id p \<noteq> kUnknownTopologyIdV1 \<and>
      lp_package_id p \<noteq> kUnknownTopologyIdV1} = set ?ps" using ps(2) by blast
  then have phys: "unat (physical_core_count_v1 t) = card (?core ` set ?ps)" using counts(1) by simp
  have log: "unat (logical_cpu_count_v1 t) = length ?ps" using counts(3) ps(2) by simp
  have "card (?core ` set ?ps) \<noteq> 0" using ps(1) by simp
  then show "0 < physical_core_count_v1 t" using phys by (simp add: word_less_nat_alt card_gt_0_iff)
  have "card (?core ` set ?ps) \<le> length ?ps"
    by (rule le_trans [OF card_image_le [OF finite_set] card_length])
  then show "physical_core_count_v1 t \<le> logical_cpu_count_v1 t" using phys log by (simp add: word_le_nat_alt)
  show "0 < logical_cpu_count_v1 t" using log ps(1) by (simp add: word_less_nat_alt)
qed

text \<open>The planner accepts the view of a topology exactly when the platform validated it as complete, it
  has at most sixteen NUMA nodes, and no count restricts it: counts, identifiers and order are then
  those of the record. In particular every topology restricted to an affinity mask is accepted.\<close>

theorem topology_view_accepted:
  "topology_reason (project_cpu_topology_v1_for_planner_v1 t override) = [] \<longleftrightarrow>
     validate_cpu_topology_v1 t = None \<and> topo_discovery_complete t \<and>
     length (topo_numa_nodes t) \<le> 16 \<and> (override = 0 \<or> override = logical_cpu_count_v1 t)"
proof (cases "validate_cpu_topology_v1 t = None \<and> topo_discovery_complete t \<and>
     length (topo_numa_nodes t) \<le> 16 \<and> (override = 0 \<or> override = logical_cpu_count_v1 t)")
  case True
  let ?v = "project_cpu_topology_v1_for_planner_v1 t override"
  have ok: "topology_ok t" using True by (simp add: validate_topology_iff)
  have n: "numa_node_count_v1 t = of_nat (length (topo_numa_nodes t))"
    "unat (numa_node_count_v1 t) = length (topo_numa_nodes t)"
    using True by (auto simp: numa_node_count_v1_def unsigned_of_nat take_bit_nat_eq_self)
  have nodes: "topo_numa_nodes t \<noteq> []" "sorted_wrt (<) (map nn_node_id (topo_numa_nodes t))"
    "kUnknownTopologyIdV1 \<notin> nn_node_id ` set (topo_numa_nodes t)"
    using ok True by (auto simp: topology_ok_def Let_def node_ok_def)
  have "view_nodes ?v = map nn_node_id (topo_numa_nodes t)"
    using True n(2)
    by (simp add: view_nodes_def project_cpu_topology_v1_for_planner_v1_def Let_def kCpuPlannerReportedNumaNodeLimitV1_def)
  then have ids: "identifiers_ok (view_nodes ?v)" using nodes by (simp add: identifiers_ok_def)
  have len: "length (tv_numa_node_ids ?v) = 16"
    using True by (simp add: project_cpu_topology_v1_for_planner_v1_def Let_def default_topology_view_def
        kCpuPlannerReportedNumaNodeLimitV1_def)
  have "0 < numa_node_count_v1 t" using n(2) nodes(1) by (simp add: word_less_nat_alt)
  then show ?thesis
    using True n complete_topology_counts [OF ok] ids topology_reason_None [OF len]
    by (auto simp: project_cpu_topology_v1_for_planner_v1_def Let_def kCpuPlannerReportedNumaNodeLimitV1_def)
next
  case False
  then have "\<not> tv_discovery_complete (project_cpu_topology_v1_for_planner_v1 t override)"
    by (auto simp: project_cpu_topology_v1_for_planner_v1_def Let_def kCpuPlannerReportedNumaNodeLimitV1_def)
  then show ?thesis using False by (auto simp: topology_reason_def)
qed

section \<open>Witnesses\<close>

definition example_view :: CpuPlannerTopologyViewV1 where
  "example_view = \<lparr>tv_version = 1, tv_discovery_complete = True, tv_logical_processors = 16,
     tv_physical_cores = 8, tv_available_processors = 16, tv_numa_nodes = 1,
     tv_numa_node_ids_complete = True, tv_numa_node_ids = replicate 16 0\<rparr>"

definition example_policy :: CpuThreadPolicyV1 where
  "example_policy = \<lparr>tp_version = 1, tp_requested_threads = 8, tp_maximum_threads = 0,
     tp_allow_smt = False, tp_external_provider_parallelism_active = False,
     tp_worker_affinity_active = True\<rparr>"

definition example_evidence :: CpuPlannerPlacementEvidenceV1 where
  "example_evidence = \<lparr>pe_version = 1, pe_evidence_complete = True, pe_affinity_requested = True,
     pe_affinity_applied = True, pe_affinity = aff_compact, pe_numa = numa_single_node,
     pe_local_logical_processor_capacity = 16, pe_local_physical_core_capacity = 8,
     pe_selected_numa_node_count = 1, pe_selected_numa_nodes = replicate 16 0,
     pe_crosses_numa_nodes = False, pe_caller_first_touch_required = True\<rparr>"

definition example_resources_v2 :: CpuGemmImplementationResourcesV2 where
  "example_resources_v2 = \<lparr>res2_baseline = full_resources_v1,
     res2_reference_f32_runtime_validated = True, res2_tiled_f32_runtime_validated = True,
     res2_compiler_vectorized_f32_runtime_validated = True,
     res2_external_openblas_f32_runtime_validated = True,
     res2_native_packed_avx2_fma_runtime_validated = True,
     res2_execution_context_available = True, res2_execution_context_worker_capacity = 8,
     res2_native_parallel_avx2_fma_compiled = True,
     res2_native_parallel_avx2_fma_runtime_validated = True,
     res2_native_parallel_avx2_workspace_size_valid = True,
     res2_native_parallel_avx2_shared_workspace_bytes = 4194304,
     res2_native_parallel_avx2_per_worker_workspace_bytes = 65536,
     res2_native_parallel_avx2_workspace_alignment = 64,
     res2_native_packed_avx512_fma_compiled = False,
     res2_native_packed_avx512_fma_runtime_validated = False,
     res2_native_packed_avx512_workspace_size_valid = False,
     res2_native_packed_avx512_workspace_bytes = 0, res2_native_packed_avx512_workspace_alignment = 0,
     res2_native_parallel_avx512_fma_compiled = False,
     res2_native_parallel_avx512_fma_runtime_validated = False,
     res2_native_parallel_avx512_workspace_size_valid = False,
     res2_native_parallel_avx512_shared_workspace_bytes = 0,
     res2_native_parallel_avx512_per_worker_workspace_bytes = 0,
     res2_native_parallel_avx512_workspace_alignment = 0,
     res2_avx512f_hardware = False, res2_avx512f_os_enabled = False,
     res2_avx512f_compiler_supported = False\<rparr>"

definition example_plan_v3 :: "CpuGemmRequestV3 \<Rightarrow> CpuGemmPlanV3" where
  "example_plan_v3 req = plan_cpu_gemm_v3 False wide_problem avx2_capabilities example_view example_policy
     example_resources_v2 req example_evidence"

lemma example_plan_ready: "v3_ready wide_problem avx2_capabilities example_policy"
  by code_simp

lemma example_tasks:
  "plan_cpu_parallel_tasks_v1 wide_problem 8 =
     \<lparr>ptp_macro_tile_count = 2, ptp_row_quantum = 4, ptp_row_group_count = 64,
      ptp_row_task_count = 2, ptp_column_panel_count = 4, ptp_column_task_count = 4,
      ptp_task_count = 8, ptp_actual_threads = 8\<rparr>"
  by code_simp

lemma example_gates:
  "topology_reason example_view = []" "placement_reason example_view example_evidence = []"
  "policy_thread_ceiling example_view example_policy example_resources_v2 example_evidence = 8"
  "divide_round_up (operation_count wide_problem) 8 = 33554432"
  by code_simp+

lemma decide_parallel_legalI:
  "parallel_reason l (dec3_variant d = var3_native_parallel_avx512_fma) (parallel_sized_v3 l d) = [] \<Longrightarrow>
   dec3_legal (decide_parallel_v3 l d)"
  by (simp add: decide_parallel_v3_def Let_def)

definition example_locals :: v3_locals where
  "example_locals = v3_locals_of False wide_problem avx2_capabilities example_view example_policy
     example_resources_v2 example_evidence"

lemma example_locals_fields:
  "loc_placement_error example_locals = []" "loc_thread_ceiling example_locals = 8"
  "loc_tasks example_locals = plan_cpu_parallel_tasks_v1 wide_problem 8"
  "loc_resources example_locals = example_resources_v2" "loc_policy example_locals = example_policy"
  "loc_capabilities example_locals = avx2_capabilities" "loc_problem example_locals = wide_problem"
  by (simp_all add: example_locals_def v3_locals_of_def Let_def example_gates)

lemma example_described:
  "dec3_variant (described_v3 example_resources_v2 (kCpuGemmVariantRegistryV3 ! 6)) = var3_native_parallel_avx2_fma"
  "dec3_shared_workspace_bytes (described_v3 example_resources_v2 (kCpuGemmVariantRegistryV3 ! 6)) = 4194304"
  "dec3_per_worker_workspace_bytes (described_v3 example_resources_v2 (kCpuGemmVariantRegistryV3 ! 6)) = 65536"
  "dec3_required_workspace_alignment (described_v3 example_resources_v2 (kCpuGemmVariantRegistryV3 ! 6)) = 64"
  by (simp_all add: described_v3_def populate_resource_metadata_def populate_requirement_metadata_def
      fresh_decision_v3_def Let_def registry_simps example_resources_v2_def)

lemma example_workspace: "total_parallel_workspace 4194304 65536 8 = Some 4718592"
  by code_simp

lemma example_parallel_legal:
  "dec3_legal (plan3_candidates (example_plan_v3 req) ! 6)"
  "dec3_variant (plan3_candidates (example_plan_v3 req) ! 6) = var3_native_parallel_avx2_fma"
  "plan3_candidates (example_plan_v3 req) ! 6 \<in> set (plan3_candidates (example_plan_v3 req))"
proof -
  let ?d = "described_v3 example_resources_v2 (kCpuGemmVariantRegistryV3 ! 6)"
  have cand: "plan3_candidates (example_plan_v3 req) = map (decide_v3 example_locals) kCpuGemmVariantRegistryV3"
    using example_plan_ready by (simp add: example_plan_v3_def candidates_v3 example_locals_def)
  have v: "rec3_variant (kCpuGemmVariantRegistryV3 ! 6) = var3_native_parallel_avx2_fma"
    by (simp add: registry_simps)
  have total: "parallel_total_workspace example_locals ?d = Some 4718592"
    by (simp add: parallel_total_workspace_def Let_def example_described example_locals_fields example_tasks
        example_workspace)
  have "parallel_reason example_locals False (parallel_sized_v3 example_locals ?d) = []"
    unfolding parallel_reason_def Let_def parallel_sized_fields example_locals_fields example_described total
      example_tasks
    by (simp add: example_gates example_resources_v2_def example_policy_def full_resources_v1_def
        avx2_capabilities_def has_feature_v1_def power_of_two_or_zero_def
        kCpuParallelMinimumWorkPerThreadV1_def)
  then have "dec3_legal (decide_parallel_v3 example_locals ?d)"
    by (intro decide_parallel_legalI) (simp add: v)
  moreover have "decide_v3 example_locals (kCpuGemmVariantRegistryV3 ! 6) = decide_parallel_v3 example_locals ?d"
    using v by (subst decide_v3_parallel) (simp_all add: parallel_variant_v3_def example_locals_fields)
  ultimately show "dec3_legal (plan3_candidates (example_plan_v3 req) ! 6)" by (simp add: cand)
  show "dec3_variant (plan3_candidates (example_plan_v3 req) ! 6) = var3_native_parallel_avx2_fma"
    by (simp add: cand v)
  show "plan3_candidates (example_plan_v3 req) ! 6 \<in> set (plan3_candidates (example_plan_v3 req))"
    by (rule nth_mem) (simp add: cand)
qed

theorem parallel_legal_evidence_witness:
  "2 \<le> unat (dec3_actual_threads (plan3_candidates (example_plan_v3 req3_automatic) ! 6)) \<and>
   res2_execution_context_available example_resources_v2"
  using parallel_legal_evidence [OF example_parallel_legal(3) [unfolded example_plan_v3_def]
      example_parallel_legal(1) [unfolded example_plan_v3_def], of req3_automatic]
    example_parallel_legal(2) [of req3_automatic]
  by (simp add: example_plan_v3_def Let_def)

theorem legal_threads_bounded_witness:
  "dec3_actual_threads (plan3_candidates (example_plan_v3 req3_automatic) ! 6) \<le> 8"
  using legal_threads_bounded [OF example_parallel_legal(3) [unfolded example_plan_v3_def]
      example_parallel_legal(1) [unfolded example_plan_v3_def], of req3_automatic]
  by (simp add: example_plan_v3_def example_policy_def)

lemma example_plan_selected:
  "plan3_status (example_plan_v3 req3_force_native_parallel_avx2_fma) = st1_selected"
proof -
  let ?req = "req3_force_native_parallel_avx2_fma"
  have "eligible_v3 ?req (plan3_candidates (example_plan_v3 ?req) ! 6)"
    using example_parallel_legal [of ?req] by (simp add: eligible_v3_def request_matches_v3_def)
  then have "\<exists>d \<in> set (plan3_candidates (example_plan_v3 ?req)). eligible_v3 ?req d"
    using example_parallel_legal(3) by blast
  moreover have "refused_v3 False wide_problem avx2_capabilities example_policy = None"
    using example_plan_ready by (simp add: refused_v3_None)
  ultimately show ?thesis by (simp add: example_plan_v3_def plan_v3_status_cases)
qed

theorem plan_v3_selects_best_witness:
  "variant_code_v3 (plan3_selected_variant (example_plan_v3 req3_force_native_parallel_avx2_fma)) = 6"
  using plan_v3_selects_best [OF example_plan_v3_def example_plan_selected]
  by (auto simp: Let_def request_matches_v3_def)

theorem v3_base_refines_v2_witness:
  "dec3_variant (plan3_candidates (example_plan_v3 req3_automatic) ! 4) = var3_native_packed_avx2_fma"
proof -
  have "rec3_variant (kCpuGemmVariantRegistryV3 ! 4) = var3_native_packed_avx2_fma" by (simp add: registry_simps)
  moreover have "(4::nat) < 5" by simp
  ultimately show ?thesis
    using v3_base_refines_v2 [of wide_problem avx2_capabilities example_policy 4] example_plan_ready
    unfolding example_plan_v3_def Let_def by metis
qed

theorem reference_fallback_witness:
  "plan3_status (plan_cpu_gemm_v3 False wide_problem avx2_capabilities default_topology_view example_policy
     example_resources_v2 req3_automatic example_evidence) = st1_selected"
  by (rule reference_fallback)
    (use example_plan_ready in \<open>simp_all add: avx2_capabilities_def has_feature_v1_def example_resources_v2_def\<close>)

theorem placement_evidence_exact_witness:
  "evidence_nodes example_evidence = [0] \<and> set (evidence_nodes example_evidence) \<subseteq> set (view_nodes example_view)"
proof -
  have "length (tv_numa_node_ids example_view) = 16" "length (pe_selected_numa_nodes example_evidence) = 16"
    by (simp_all add: example_view_def example_evidence_def)
  moreover have "evidence_nodes example_evidence = [0]" by code_simp
  ultimately show ?thesis
    using placement_evidence_exact [OF example_gates(1), of example_evidence] example_gates(2) by blast
qed

definition avx2_record :: CpuCapabilitiesV2 where
  "avx2_record = (let d = \<lparr>dom_known = 4095, dom_available = 7\<rparr> in
     \<lparr>cap2_version = 2, cap2_architecture = archk_x86_64, cap2_hardware = d, cap2_os_enabled = d,
      cap2_compiler = d, cap2_implementation = d, cap2_runtime_validation = d,
      cap2_os_xstate_mask = 7, cap2_os_xstate_mask_known = True, cap2_amx_permission_known = False,
      cap2_amx_permission_granted = False, cap2_usable_vector_bits = 256\<rparr>)"

lemma avx2_record_facts:
  "validate_cpu_capabilities_v2 avx2_record = None"
  "projected_baseline avx2_record = avx2_capabilities"
  "feature_available (cap2_implementation avx2_record) feat_avx2"
  "feature_available (cap2_implementation avx2_record) feat_fma"
  "has_runtime_validated_feature_v2 avx2_record feat_avx2"
  "has_runtime_validated_feature_v2 avx2_record feat_fma"
  by code_simp+

lemma avx2_record_projection:
  "cp_valid (project_cpu_capabilities_v2_for_planner_v1 avx2_record)"
  "cp_baseline (project_cpu_capabilities_v2_for_planner_v1 avx2_record) = avx2_capabilities"
  "cp_avx2_implementation_available (project_cpu_capabilities_v2_for_planner_v1 avx2_record)"
  "cp_fma_implementation_available (project_cpu_capabilities_v2_for_planner_v1 avx2_record)"
  "cp_avx2_runtime_validated (project_cpu_capabilities_v2_for_planner_v1 avx2_record)"
  "cp_fma_runtime_validated (project_cpu_capabilities_v2_for_planner_v1 avx2_record)"
  by (simp_all add: project_cpu_capabilities_v2_for_planner_v1_def avx2_record_facts)

definition records_plan :: CpuGemmPlanV3 where
  "records_plan = plan_cpu_gemm_v3_records False wide_problem avx2_record example_topology example_policy
     example_resources_v2 req3_automatic 0 example_evidence"

lemma records_candidate:
  "plan3_candidates records_plan ! 4 \<in> set (plan3_candidates records_plan)"
  "dec3_legal (plan3_candidates records_plan ! 4)"
  "dec3_variant (plan3_candidates records_plan ! 4) = var3_native_packed_avx2_fma"
proof -
  let ?res = "normalized_resources (project_cpu_capabilities_v2_for_planner_v1 avx2_record) example_resources_v2"
  let ?l = "v3_locals_of False wide_problem avx2_capabilities
    (project_cpu_topology_v1_for_planner_v1 example_topology 0) example_policy ?res example_evidence"
  let ?r = "kCpuGemmVariantRegistryV3 ! 4"
  have cand: "plan3_candidates records_plan = map (decide_v3 ?l) kCpuGemmVariantRegistryV3"
    using example_plan_ready
    by (simp add: records_plan_def plan_cpu_gemm_v3_records_def Let_def avx2_record_projection candidates_v3)
  have v: "rec3_variant ?r = var3_native_packed_avx2_fma" by (simp add: registry_simps)
  have res: "v2_resources_v3 ?l var3_native_packed_avx2_fma = full_resources_v1"
    by (simp add: v2_resources_v3_def normalized_resources_def avx2_record_projection example_resources_v2_def
        full_resources_v1_def)
  have "extra_legality_reason var2_native_packed_avx2_fma wide_problem avx2_capabilities full_resources_v1 = []"
    by code_simp
  moreover have "features_present avx2_capabilities (rec2_required_features (kCpuGemmVariantRegistryV2 ! 4))"
    by (simp add: registry_simps avx2_capabilities_def)
  ultimately have "dec2_legal (base_decision ?l var3_native_packed_avx2_fma)"
    using example_plan_ready
    by (simp add: base_decision_def decide_v2_legal registry_v2_nth legacy_accepts_def res)
  then have "dec3_legal (decide_v3 ?l ?r)"
    using v by (subst decide_v3_base)
      (simp_all add: decide_base_legal base_variant_v3_def normalized_resources_def avx2_record_projection
        example_resources_v2_def)
  then show "dec3_legal (plan3_candidates records_plan ! 4)"
    "plan3_candidates records_plan ! 4 \<in> set (plan3_candidates records_plan)"
    "dec3_variant (plan3_candidates records_plan ! 4) = var3_native_packed_avx2_fma"
    using v by (simp_all add: cand)
qed

theorem records_isa_safe_witness:
  "has_runtime_validated_feature_v2 avx2_record feat_avx2 \<and> has_runtime_validated_feature_v2 avx2_record feat_fma"
  using records_isa_safe [OF records_candidate(1,2) [unfolded records_plan_def]] records_candidate(3)
  by (simp add: records_plan_def)

end
