(* ===== verification/PackedLayout.thy ===== *)
theory PackedLayout
  imports PlannerTypesV1
begin

text \<open>
  Sizes, addresses and validation of the packed GEMM backends: \<^verbatim>\<open>runtime/cpu_gemm_backend.{h,cpp}\<close>,
  the packed-B view of \<^verbatim>\<open>cpu_packed_b_format.h\<close> and the validators of \<^verbatim>\<open>cpu_packed_avx2.cpp\<close> and
  \<^verbatim>\<open>cpu_packed_avx512.cpp\<close>. A pointer is its address, 0 the null pointer; \<^verbatim>\<open>size_t\<close> and
  \<^verbatim>\<open>uintptr_t\<close> are 64 bits wide. Output parameters that the sources pass the address of a local
  variable are never null, so that check of theirs has no branch here. The lemmas give the exact
  meaning of each check in natural numbers.
\<close>

section \<open>Constants and records (cpu_gemm_backend.h)\<close>

definition kCpuPackedGemmBackendVersionV1 :: u32 where "kCpuPackedGemmBackendVersionV1 = 1"
definition kCpuPackedGemmWorkspaceAlignmentV1 :: u64 where
  "kCpuPackedGemmWorkspaceAlignmentV1 = 64"
definition kCpuPackedGemmMrV1 :: u64 where "kCpuPackedGemmMrV1 = 4"
definition kCpuPackedGemmNrV1 :: u64 where "kCpuPackedGemmNrV1 = 16"
definition kCpuPackedGemmMcV1 :: u64 where "kCpuPackedGemmMcV1 = 128"
definition kCpuPackedGemmNcV1 :: u64 where "kCpuPackedGemmNcV1 = 256"
definition kCpuPackedGemmKcV1 :: u64 where "kCpuPackedGemmKcV1 = 256"

lemmas packed_constants = kCpuPackedGemmBackendVersionV1_def kCpuPackedGemmWorkspaceAlignmentV1_def
  kCpuPackedGemmMrV1_def kCpuPackedGemmNrV1_def kCpuPackedGemmMcV1_def kCpuPackedGemmNcV1_def
  kCpuPackedGemmKcV1_def

text \<open>\<^verbatim>\<open>sizeof(float)\<close> and \<^verbatim>\<open>sizeof(CpuPackedBViewV1)\<close> (LP64).\<close>

definition sizeof_float :: u64 where "sizeof_float = 4"
definition sizeof_packed_b_view :: u32 where "sizeof_packed_b_view = 80"

datatype CpuPackedGemmStatusV1 =
  pst_success | pst_invalid_problem | pst_null_pointer | pst_invalid_pointer_alignment
  | pst_alias_violation | pst_arithmetic_overflow | pst_isa_unavailable
  | pst_workspace_misaligned | pst_workspace_insufficient | pst_invalid_prepacked_b
  | pst_other u32

datatype CpuPackedGemmWorkspaceModeV1 =
  transient_a_and_b | transient_a_with_prepacked_b | workspace_mode_other u32

record CpuPackedGemmWorkspaceRequirementsV1 =
  preq_version :: u32
  preq_mode :: CpuPackedGemmWorkspaceModeV1
  preq_alignment_bytes :: u64
  preq_total_bytes :: u64
  preq_packed_a_offset :: u64
  preq_packed_a_bytes :: u64
  preq_packed_b_offset :: u64
  preq_packed_b_bytes :: u64

definition default_packed_requirements :: CpuPackedGemmWorkspaceRequirementsV1 where
  "default_packed_requirements =
     \<lparr>preq_version = kCpuPackedGemmBackendVersionV1, preq_mode = transient_a_and_b,
      preq_alignment_bytes = kCpuPackedGemmWorkspaceAlignmentV1, preq_total_bytes = 0,
      preq_packed_a_offset = 0, preq_packed_a_bytes = 0, preq_packed_b_offset = 0,
      preq_packed_b_bytes = 0\<rparr>"

record CpuPackedBViewV1 =
  pbv_version :: u32
  pbv_struct_size :: u32
  pbv_source_data :: u64
  pbv_packed_data :: u64
  pbv_storage_bytes :: u64
  pbv_packed_elements :: u64
  pbv_k :: i64
  pbv_n :: i64
  pbv_kc :: u32
  pbv_nc :: u32
  pbv_nr :: u32
  pbv_reserved0 :: u32
  pbv_provenance :: u64

definition default_packed_b_view :: CpuPackedBViewV1 where
  "default_packed_b_view =
     \<lparr>pbv_version = 0, pbv_struct_size = 0, pbv_source_data = 0, pbv_packed_data = 0,
      pbv_storage_bytes = 0, pbv_packed_elements = 0, pbv_k = 0, pbv_n = 0, pbv_kc = 0,
      pbv_nc = 0, pbv_nr = 0, pbv_reserved0 = 0, pbv_provenance = 0\<rparr>"

fun cpu_packed_gemm_status_message_v1 :: "CpuPackedGemmStatusV1 \<Rightarrow> string" where
  "cpu_packed_gemm_status_message_v1 pst_success = ''success''"
| "cpu_packed_gemm_status_message_v1 pst_invalid_problem = ''invalid packed GEMM problem''"
| "cpu_packed_gemm_status_message_v1 pst_null_pointer = ''required pointer is null''"
| "cpu_packed_gemm_status_message_v1 pst_invalid_pointer_alignment =
     ''tensor pointer violates the declared alignment''"
| "cpu_packed_gemm_status_message_v1 pst_alias_violation =
     ''packed GEMM buffers overlap illegally''"
| "cpu_packed_gemm_status_message_v1 pst_arithmetic_overflow =
     ''packed GEMM size arithmetic overflowed''"
| "cpu_packed_gemm_status_message_v1 pst_isa_unavailable =
     ''requested packed GEMM ISA execution is unavailable''"
| "cpu_packed_gemm_status_message_v1 pst_workspace_misaligned =
     ''packed GEMM workspace is not 64-byte aligned''"
| "cpu_packed_gemm_status_message_v1 pst_workspace_insufficient =
     ''packed GEMM workspace is too small''"
| "cpu_packed_gemm_status_message_v1 pst_invalid_prepacked_b =
     ''prepacked-B view is invalid or incompatible''"
| "cpu_packed_gemm_status_message_v1 (pst_other code) = ''unknown packed GEMM status''"

section \<open>Checked arithmetic\<close>

definition checked_multiply :: "u64 \<Rightarrow> u64 \<Rightarrow> u64 option" where
  "checked_multiply lhs rhs =
     (if lhs \<noteq> 0 \<and> rhs > u64_max div lhs then None else Some (lhs * rhs))"

definition checked_add :: "u64 \<Rightarrow> u64 \<Rightarrow> u64 option" where
  "checked_add lhs rhs = (if rhs > u64_max - lhs then None else Some (lhs + rhs))"

definition checked_round_up :: "u64 \<Rightarrow> u64 \<Rightarrow> u64 option" where
  "checked_round_up v multiple =
     (if multiple = 0 then None
      else let remainder = v mod multiple
           in if remainder = 0 then Some v else checked_add v (multiple - remainder))"

definition positive_dimension :: "i64 \<Rightarrow> u64 option" where
  "positive_dimension v =
     (if sint v \<le> 0 then None
      else let unsigned_value = v in if unsigned_value > u64_max then None else Some unsigned_value)"

text \<open>The size in bytes of a matrix of floats, as two checked products.\<close>

definition matrix_bytes :: "u64 \<Rightarrow> u64 \<Rightarrow> u64 option" where
  "matrix_bytes rows columns =
     Option.bind (checked_multiply rows columns) (\<lambda>elements. checked_multiply elements sizeof_float)"

section \<open>Requirements (cpu_gemm_backend.cpp)\<close>

definition validate_problem ::
  "CpuGemmProblemV1 \<Rightarrow> CpuPackedGemmStatusV1 + u64 \<times> u64 \<times> u64" where
  "validate_problem problem =
    (let alignment = prob_minimum_alignment_bytes problem
     in if prob_element_type problem \<noteq> scalar_f32 \<or>
           prob_accumulation_type problem \<noteq> scalar_f32 \<or>
           prob_layout problem \<noteq> layout_row_major_contiguous \<or>
           alignment < 4 \<or> alignment AND (alignment - 1) \<noteq> 0
        then Inl pst_invalid_problem
        else if sint (prob_m problem) \<le> 0 \<or> sint (prob_n problem) \<le> 0 \<or> sint (prob_k problem) \<le> 0
        then Inl pst_invalid_problem
        else
          and_then (or_fail (positive_dimension (prob_m problem)) pst_arithmetic_overflow) (\<lambda>m.
          and_then (or_fail (positive_dimension (prob_n problem)) pst_arithmetic_overflow) (\<lambda>n.
          and_then (or_fail (positive_dimension (prob_k problem)) pst_arithmetic_overflow) (\<lambda>k.
            if matrix_bytes m k = None \<or> matrix_bytes k n = None \<or> matrix_bytes m n = None
            then Inl pst_arithmetic_overflow
            else Inr (m, n, k)))))"

definition make_execution_requirements ::
  "CpuGemmProblemV1 \<Rightarrow> CpuPackedGemmWorkspaceModeV1 \<Rightarrow>
   CpuPackedGemmStatusV1 + CpuPackedGemmWorkspaceRequirementsV1" where
  "make_execution_requirements problem mode =
    (if mode \<noteq> transient_a_and_b \<and> mode \<noteq> transient_a_with_prepacked_b
     then Inl pst_invalid_problem
     else and_then (validate_problem problem) (\<lambda>(m, n, k).
       let block_m = min m kCpuPackedGemmMcV1;
           block_n = min n kCpuPackedGemmNcV1;
           block_k = min k kCpuPackedGemmKcV1;
           overflow = pst_arithmetic_overflow
       in and_then (or_fail (checked_round_up block_m kCpuPackedGemmMrV1) overflow) (\<lambda>padded_m.
          and_then (or_fail (checked_round_up block_n kCpuPackedGemmNrV1) overflow) (\<lambda>padded_n.
          and_then (or_fail (matrix_bytes padded_m block_k) overflow) (\<lambda>packed_a_bytes.
          and_then (if mode = transient_a_and_b
                    then or_fail (matrix_bytes padded_n block_k) overflow else Inr 0)
            (\<lambda>packed_b_bytes.
          and_then (if mode = transient_a_and_b
                    then and_then (or_fail (checked_round_up packed_a_bytes
                             kCpuPackedGemmWorkspaceAlignmentV1) overflow) (\<lambda>packed_b_offset.
                           and_then (or_fail (checked_add packed_b_offset packed_b_bytes) overflow)
                             (\<lambda>total_bytes. Inr (packed_b_offset, total_bytes)))
                    else Inr (0, packed_a_bytes)) (\<lambda>(packed_b_offset, total_bytes).
          and_then (or_fail (checked_round_up total_bytes kCpuPackedGemmWorkspaceAlignmentV1)
                      overflow) (\<lambda>total_bytes.
            Inr (default_packed_requirements
                   \<lparr>preq_mode := mode, preq_total_bytes := total_bytes,
                    preq_packed_a_bytes := packed_a_bytes,
                    preq_packed_b_offset := packed_b_offset,
                    preq_packed_b_bytes := packed_b_bytes\<rparr>)))))))))"

definition cpu_packed_avx2_workspace_requirements_v1 ::
  "CpuGemmProblemV1 \<Rightarrow> CpuPackedGemmWorkspaceModeV1 \<Rightarrow>
   CpuPackedGemmStatusV1 + CpuPackedGemmWorkspaceRequirementsV1" where
  "cpu_packed_avx2_workspace_requirements_v1 problem mode =
     make_execution_requirements problem mode"

definition cpu_packed_avx2_prepacked_b_requirements_v1 ::
  "CpuGemmProblemV1 \<Rightarrow> CpuPackedGemmStatusV1 + CpuPackedGemmWorkspaceRequirementsV1" where
  "cpu_packed_avx2_prepacked_b_requirements_v1 problem =
     and_then (validate_problem problem) (\<lambda>(m, n, k).
     and_then (or_fail (checked_round_up n kCpuPackedGemmNrV1) pst_arithmetic_overflow) (\<lambda>padded_n.
     and_then (or_fail (matrix_bytes padded_n k) pst_arithmetic_overflow) (\<lambda>packed_bytes.
     and_then (or_fail (checked_round_up packed_bytes kCpuPackedGemmWorkspaceAlignmentV1)
                 pst_arithmetic_overflow) (\<lambda>total_bytes.
       Inr (default_packed_requirements
              \<lparr>preq_mode := transient_a_with_prepacked_b, preq_total_bytes := total_bytes,
               preq_packed_b_bytes := packed_bytes\<rparr>)))))"

definition cpu_packed_avx512_workspace_requirements_v1 ::
  "CpuGemmProblemV1 \<Rightarrow> CpuPackedGemmWorkspaceModeV1 \<Rightarrow>
   CpuPackedGemmStatusV1 + CpuPackedGemmWorkspaceRequirementsV1" where
  "cpu_packed_avx512_workspace_requirements_v1 problem mode =
     cpu_packed_avx2_workspace_requirements_v1 problem mode"

definition cpu_packed_avx512_prepacked_b_requirements_v1 ::
  "CpuGemmProblemV1 \<Rightarrow> CpuPackedGemmStatusV1 + CpuPackedGemmWorkspaceRequirementsV1" where
  "cpu_packed_avx512_prepacked_b_requirements_v1 problem =
     cpu_packed_avx2_prepacked_b_requirements_v1 problem"

section \<open>The packed-B view (cpu_packed_b_format.h)\<close>

definition kCpuPackedBProvenanceSeedV1 :: u64 where
  "kCpuPackedBProvenanceSeedV1 = 0x4d43504241563131"

definition cpu_mix_packed_b_provenance_v1 :: "u64 \<Rightarrow> u64 \<Rightarrow> u64" where
  "cpu_mix_packed_b_provenance_v1 state v =
     state XOR (v + 0x9e3779b97f4a7c15 + push_bit 6 state + drop_bit 2 state)"

definition cpu_packed_b_provenance_v1 :: "CpuPackedBViewV1 \<Rightarrow> u64" where
  "cpu_packed_b_provenance_v1 view =
     fold (\<lambda>v state. cpu_mix_packed_b_provenance_v1 state v)
       [pbv_source_data view, pbv_packed_data view, pbv_storage_bytes view,
        pbv_packed_elements view, pbv_k view, pbv_n view, u32_to_u64 (pbv_kc view),
        u32_to_u64 (pbv_nc view), u32_to_u64 (pbv_nr view)]
       kCpuPackedBProvenanceSeedV1"

definition cpu_make_packed_b_view_v1 ::
  "CpuGemmProblemV1 \<Rightarrow> u64 \<Rightarrow> u64 \<Rightarrow> u64 \<Rightarrow> u64 \<Rightarrow> CpuPackedBViewV1" where
  "cpu_make_packed_b_view_v1 problem rhs packed_data storage_bytes packed_elements =
    (let result = default_packed_b_view
           \<lparr>pbv_version := kCpuPackedGemmBackendVersionV1, pbv_struct_size := sizeof_packed_b_view,
            pbv_source_data := rhs, pbv_packed_data := packed_data,
            pbv_storage_bytes := storage_bytes, pbv_packed_elements := packed_elements,
            pbv_k := prob_k problem, pbv_n := prob_n problem, pbv_kc := ucast kCpuPackedGemmKcV1,
            pbv_nc := ucast kCpuPackedGemmNcV1, pbv_nr := ucast kCpuPackedGemmNrV1\<rparr>
     in result\<lparr>pbv_provenance := cpu_packed_b_provenance_v1 result\<rparr>)"

definition cpu_validate_packed_b_view_metadata_v1 ::
  "CpuGemmProblemV1 \<Rightarrow> CpuPackedBViewV1 \<Rightarrow> u64 \<Rightarrow> u64 \<Rightarrow> bool" where
  "cpu_validate_packed_b_view_metadata_v1 problem view required_storage_bytes
       required_packed_elements \<longleftrightarrow>
     pbv_version view = kCpuPackedGemmBackendVersionV1 \<and>
     pbv_struct_size view = sizeof_packed_b_view \<and>
     pbv_source_data view \<noteq> 0 \<and> pbv_packed_data view \<noteq> 0 \<and>
     pbv_k view = prob_k problem \<and> pbv_n view = prob_n problem \<and>
     u32_to_u64 (pbv_kc view) = kCpuPackedGemmKcV1 \<and>
     u32_to_u64 (pbv_nc view) = kCpuPackedGemmNcV1 \<and>
     u32_to_u64 (pbv_nr view) = kCpuPackedGemmNrV1 \<and> pbv_reserved0 view = 0 \<and>
     pbv_packed_data view mod kCpuPackedGemmWorkspaceAlignmentV1 = 0 \<and>
     pbv_storage_bytes view \<ge> required_storage_bytes \<and>
     pbv_packed_elements view = required_packed_elements \<and>
     pbv_provenance view = cpu_packed_b_provenance_v1 view"

section \<open>Address spans and the validators (cpu_packed_avx2.cpp)\<close>

record ByteSpan =
  span_begin :: u64
  span_end :: u64

definition make_span :: "u64 \<Rightarrow> u64 \<Rightarrow> ByteSpan option" where
  "make_span pointer bytes =
     (if pointer = 0 then None
      else if bytes > u64_max - pointer then None
      else Some \<lparr>span_begin = pointer, span_end = pointer + bytes\<rparr>)"

definition make_matrix_span :: "u64 \<Rightarrow> u64 \<Rightarrow> u64 \<Rightarrow> ByteSpan option" where
  "make_matrix_span pointer rows columns =
     Option.bind (matrix_bytes rows columns) (make_span pointer)"

definition overlaps :: "ByteSpan \<Rightarrow> ByteSpan \<Rightarrow> bool" where
  "overlaps lhs rhs \<longleftrightarrow> span_begin lhs < span_end rhs \<and> span_begin rhs < span_end lhs"

definition pointer_has_alignment :: "u64 \<Rightarrow> u64 \<Rightarrow> bool" where
  "pointer_has_alignment pointer alignment \<longleftrightarrow>
     pointer \<noteq> 0 \<and> alignment \<noteq> 0 \<and> pointer mod alignment = 0"

definition dimensions :: "CpuGemmProblemV1 \<Rightarrow> CpuPackedGemmStatusV1 + u64 \<times> u64 \<times> u64" where
  "dimensions problem =
     and_then (cpu_packed_avx2_workspace_requirements_v1 problem transient_a_and_b)
       (\<lambda>requirements. Inr (prob_m problem, prob_n problem, prob_k problem))"

definition validate_tensor_contract ::
  "CpuGemmProblemV1 \<Rightarrow> u64 \<Rightarrow> u64 \<Rightarrow> u64 \<Rightarrow> u64 \<Rightarrow> u64 \<Rightarrow> u64 \<Rightarrow>
   CpuPackedGemmStatusV1 + ByteSpan \<times> ByteSpan \<times> ByteSpan" where
  "validate_tensor_contract problem lhs rhs out m n k =
    (let declared_alignment = u32_to_u64 (prob_minimum_alignment_bytes problem)
     in and_then (require (lhs \<noteq> 0 \<and> rhs \<noteq> 0 \<and> out \<noteq> 0) pst_null_pointer) (\<lambda>_.
        and_then (require (pointer_has_alignment lhs 4 \<and> pointer_has_alignment rhs 4 \<and>
            pointer_has_alignment out 4 \<and> pointer_has_alignment lhs declared_alignment \<and>
            pointer_has_alignment rhs declared_alignment \<and>
            pointer_has_alignment out declared_alignment) pst_invalid_pointer_alignment) (\<lambda>_.
        and_then (or_fail (make_matrix_span lhs m k) pst_arithmetic_overflow) (\<lambda>lhs_span.
        and_then (or_fail (make_matrix_span rhs k n) pst_arithmetic_overflow) (\<lambda>rhs_span.
        and_then (or_fail (make_matrix_span out m n) pst_arithmetic_overflow) (\<lambda>out_span.
        and_then (require (\<not> overlaps out_span lhs_span \<and> \<not> overlaps out_span rhs_span)
            pst_alias_violation) (\<lambda>_.
          Inr (lhs_span, rhs_span, out_span))))))))"

definition validate_workspace ::
  "u64 \<Rightarrow> u64 \<Rightarrow> CpuPackedGemmWorkspaceRequirementsV1 \<Rightarrow> ByteSpan list \<Rightarrow>
   CpuPackedGemmStatusV1 + ByteSpan" where
  "validate_workspace workspace workspace_bytes requirements forbidden =
     and_then (require (workspace \<noteq> 0) pst_null_pointer) (\<lambda>_.
     and_then (require (workspace_bytes \<ge> preq_total_bytes requirements)
         pst_workspace_insufficient) (\<lambda>_.
     and_then (require (pointer_has_alignment workspace (preq_alignment_bytes requirements))
         pst_workspace_misaligned) (\<lambda>_.
     and_then (or_fail (make_span workspace (preq_total_bytes requirements))
         pst_arithmetic_overflow) (\<lambda>workspace_span.
     and_then (require (\<not> list_ex (overlaps workspace_span) forbidden) pst_alias_violation) (\<lambda>_.
       Inr workspace_span)))))"

definition validate_prepacked_view ::
  "CpuGemmProblemV1 \<Rightarrow> CpuPackedBViewV1 \<Rightarrow> CpuPackedGemmStatusV1 + ByteSpan \<times> ByteSpan" where
  "validate_prepacked_view problem view =
     and_then (cpu_packed_avx2_prepacked_b_requirements_v1 problem) (\<lambda>requirements.
     and_then (require (cpu_validate_packed_b_view_metadata_v1 problem view
         (preq_total_bytes requirements) (preq_packed_b_bytes requirements div sizeof_float))
         pst_invalid_prepacked_b) (\<lambda>_.
     and_then (or_fail (make_matrix_span (pbv_source_data view) (prob_k problem) (prob_n problem))
         pst_arithmetic_overflow) (\<lambda>source_span.
     and_then (or_fail (make_span (pbv_packed_data view) (preq_packed_b_bytes requirements))
         pst_arithmetic_overflow) (\<lambda>packed_span.
     and_then (require (\<not> overlaps source_span packed_span) pst_invalid_prepacked_b) (\<lambda>_.
       Inr (source_span, packed_span))))))"

definition cpu_validate_prepare_packed_b_avx2_v1 ::
  "CpuGemmProblemV1 \<Rightarrow> u64 \<Rightarrow> u64 \<Rightarrow> u64 \<Rightarrow> CpuPackedGemmStatusV1 + CpuPackedBViewV1" where
  "cpu_validate_prepare_packed_b_avx2_v1 problem rhs packed_storage packed_storage_bytes =
     and_then (require (rhs \<noteq> 0 \<and> packed_storage \<noteq> 0) pst_null_pointer) (\<lambda>_.
     and_then (cpu_packed_avx2_prepacked_b_requirements_v1 problem) (\<lambda>requirements.
     and_then (require (pointer_has_alignment rhs 4 \<and>
         pointer_has_alignment rhs (u32_to_u64 (prob_minimum_alignment_bytes problem)))
         pst_invalid_pointer_alignment) (\<lambda>_.
     and_then (require (packed_storage_bytes \<ge> preq_total_bytes requirements)
         pst_workspace_insufficient) (\<lambda>_.
     and_then (require (pointer_has_alignment packed_storage kCpuPackedGemmWorkspaceAlignmentV1)
         pst_workspace_misaligned) (\<lambda>_.
     and_then (or_fail (make_matrix_span rhs (prob_k problem) (prob_n problem))
         pst_arithmetic_overflow) (\<lambda>rhs_span.
     and_then (or_fail (make_span packed_storage (preq_total_bytes requirements))
         pst_arithmetic_overflow) (\<lambda>storage_span.
     and_then (require (\<not> overlaps rhs_span storage_span) pst_alias_violation) (\<lambda>_.
       Inr (cpu_make_packed_b_view_v1 problem rhs packed_storage packed_storage_bytes
              (preq_packed_b_bytes requirements div sizeof_float))))))))))"

definition cpu_validate_packed_avx2_v1 ::
  "CpuGemmProblemV1 \<Rightarrow> u64 \<Rightarrow> u64 \<Rightarrow> u64 \<Rightarrow> u64 \<Rightarrow> u64 \<Rightarrow> CpuPackedGemmStatusV1 + unit" where
  "cpu_validate_packed_avx2_v1 problem lhs rhs out workspace workspace_bytes =
     and_then (cpu_packed_avx2_workspace_requirements_v1 problem transient_a_and_b)
       (\<lambda>requirements.
     and_then (dimensions problem) (\<lambda>(m, n, k).
     and_then (validate_tensor_contract problem lhs rhs out m n k)
       (\<lambda>(lhs_span, rhs_span, out_span).
     and_then (validate_workspace workspace workspace_bytes requirements
         [lhs_span, rhs_span, out_span]) (\<lambda>workspace_span. Inr ()))))"

definition cpu_validate_packed_avx2_prepacked_b_view_v1 ::
  "CpuGemmProblemV1 \<Rightarrow> u64 \<Rightarrow> u64 \<Rightarrow> CpuPackedBViewV1 \<Rightarrow> CpuPackedGemmStatusV1 + unit" where
  "cpu_validate_packed_avx2_prepacked_b_view_v1 problem lhs out packed_b =
     and_then (dimensions problem) (\<lambda>(m, n, k).
     and_then (validate_prepacked_view problem packed_b) (\<lambda>(source_span, packed_span).
     and_then (validate_tensor_contract problem lhs (pbv_source_data packed_b) out m n k)
       (\<lambda>(lhs_span, rhs_span, out_span).
     require (\<not> (span_begin rhs_span \<noteq> span_begin source_span \<or>
         span_end rhs_span \<noteq> span_end source_span \<or>
         overlaps lhs_span packed_span \<or> overlaps out_span packed_span)) pst_alias_violation)))"

definition cpu_validate_packed_avx2_prepacked_b_v1 ::
  "CpuGemmProblemV1 \<Rightarrow> u64 \<Rightarrow> u64 \<Rightarrow> CpuPackedBViewV1 \<Rightarrow> u64 \<Rightarrow> u64 \<Rightarrow>
   CpuPackedGemmStatusV1 + unit" where
  "cpu_validate_packed_avx2_prepacked_b_v1 problem lhs out packed_b workspace workspace_bytes =
     and_then (cpu_packed_avx2_workspace_requirements_v1 problem transient_a_with_prepacked_b)
       (\<lambda>requirements.
     and_then (cpu_validate_packed_avx2_prepacked_b_view_v1 problem lhs out packed_b) (\<lambda>_.
     and_then (dimensions problem) (\<lambda>(m, n, k).
     and_then (validate_prepacked_view problem packed_b) (\<lambda>(source_span, packed_span).
     and_then (validate_tensor_contract problem lhs (pbv_source_data packed_b) out m n k)
       (\<lambda>(lhs_span, rhs_span, out_span).
     and_then (require (\<not> (span_begin rhs_span \<noteq> span_begin source_span \<or>
         span_end rhs_span \<noteq> span_end source_span \<or>
         overlaps lhs_span packed_span \<or> overlaps out_span packed_span)) pst_alias_violation) (\<lambda>_.
     and_then (validate_workspace workspace workspace_bytes requirements
         [lhs_span, rhs_span, out_span, packed_span]) (\<lambda>workspace_span. Inr ())))))))"

section \<open>Exact meaning of the checks\<close>

definition round_up :: "nat \<Rightarrow> nat \<Rightarrow> nat" where
  "round_up v multiple = (v + multiple - 1) div multiple * multiple"

lemma round_up_cases:
  assumes "0 < q"
  shows "round_up v q = (if v mod q = 0 then v else v + (q - v mod q))"
proof -
  have v: "v = v div q * q + v mod q" by simp
  show ?thesis
  proof (cases "v mod q = 0")
    case True
    have "v + q - 1 = (q - 1) + (v div q) * q"
      using v True assms by linarith
    then have "(v + q - 1) div q = (q - 1) div q + v div q"
      by (simp only: div_mult_self2[OF assms[THEN less_imp_neq, symmetric]] add.commute
          div_mult_self1[OF assms[THEN less_imp_neq, symmetric]])
    then show ?thesis
      using True assms v by (simp add: round_up_def)
  next
    case False
    have "v + q - 1 = (v mod q - 1) + Suc (v div q) * q"
      using v False by simp
    then have "(v + q - 1) div q = (v mod q - 1) div q + Suc (v div q)"
      using assms by (simp only: div_mult_self1[OF assms[THEN less_imp_neq, symmetric]] add.commute)
    moreover have "(v mod q - 1) div q = 0"
      using assms by (simp add: less_imp_diff_less)
    ultimately have "round_up v q = v div q * q + q"
      by (simp add: round_up_def)
    also have "\<dots> = v + (q - v mod q)"
      using v mod_less_divisor[OF assms, of v] by linarith
    finally show ?thesis using False by simp
  qed
qed

lemma round_up_bounds:
  assumes "0 < q"
  shows "v \<le> round_up v q" "round_up v q < v + q" "q dvd round_up v q"
proof -
  show "v \<le> round_up v q" "round_up v q < v + q"
    using assms mod_less_divisor [OF assms, of v] by (auto simp: round_up_cases [OF assms])
  show "q dvd round_up v q" by (simp add: round_up_def)
qed

lemma checked_multiply_Some:
  "checked_multiply a b = Some c \<longleftrightarrow> unat a * unat b < 2 ^ 64 \<and> unat c = unat a * unat b"
proof (cases "a = 0")
  case True
  then show ?thesis by (auto simp: checked_multiply_def unat_eq_0)
next
  case False
  then have pos: "0 < unat a" by (simp add: unat_gt_0)
  have "(b > u64_max div a) = (2 ^ 64 \<le> unat a * unat b)"
    using nat_mult_gt_iff_div [OF pos, of "2 ^ 64 - 1" "unat b"]
    by (auto simp: word_less_nat_alt unat_div)
  moreover have "unat a * unat b < 2 ^ 64 \<Longrightarrow> unat (a * b) = unat a * unat b"
    by (simp add: unat_word_ariths)
  ultimately show ?thesis
    using False by (auto simp: checked_multiply_def not_le intro: word_eq_unatI)
qed

lemma checked_add_Some:
  "checked_add a b = Some c \<longleftrightarrow> unat a + unat b < 2 ^ 64 \<and> unat c = unat a + unat b"
proof -
  have "(b > u64_max - a) = (2 ^ 64 \<le> unat a + unat b)"
    using unat_lt64 [of a] unat_lt64 [of b]
    by (simp add: word_less_nat_alt unat_u64_max_minus, arith)
  moreover have "unat a + unat b < 2 ^ 64 \<Longrightarrow> unat (a + b) = unat a + unat b"
    by (simp add: unat_plus_if')
  ultimately show ?thesis
    by (auto simp: checked_add_def not_le intro: word_eq_unatI)
qed

lemma checked_round_up_Some:
  assumes "q \<noteq> 0"
  shows "checked_round_up v q = Some c \<longleftrightarrow>
    round_up (unat v) (unat q) < 2 ^ 64 \<and> unat c = round_up (unat v) (unat q)"
proof -
  have pos: "0 < unat q" using assms by (simp add: unat_gt_0)
  have z: "v mod q = 0 \<longleftrightarrow> unat v mod unat q = 0"
    by (metis unat_eq_0 unat_mod)
  have d: "unat (q - v mod q) = unat q - unat v mod unat q"
    using mod_less_divisor [OF pos, of "unat v"]
    by (simp add: unat_sub_if' unat_mod word_le_nat_alt)
  show ?thesis
    using assms unat_lt64 [of v]
    by (auto simp: checked_round_up_def Let_def z d checked_add_Some round_up_cases [OF pos]
        intro: word_eq_unatI)
qed

lemma matrix_bytes_Some:
  "matrix_bytes r c = Some b \<longleftrightarrow>
     unat r * unat c * 4 < 2 ^ 64 \<and> unat b = unat r * unat c * 4"
proof
  assume "matrix_bytes r c = Some b"
  then obtain e where "checked_multiply r c = Some e" "checked_multiply e 4 = Some b"
    by (auto simp: matrix_bytes_def sizeof_float_def bind_eq_Some_conv)
  then show "unat r * unat c * 4 < 2 ^ 64 \<and> unat b = unat r * unat c * 4"
    by (simp add: checked_multiply_Some)
next
  assume a: "unat r * unat c * 4 < 2 ^ 64 \<and> unat b = unat r * unat c * 4"
  then have "unat r * unat c < 2 ^ 64" by linarith
  then have "checked_multiply r c = Some (r * c)" "unat (r * c) = unat r * unat c"
    by (simp_all add: checked_multiply_Some unat_word_ariths)
  moreover have "checked_multiply (r * c) 4 = Some b"
    using a calculation(2) by (simp add: checked_multiply_Some)
  ultimately show "matrix_bytes r c = Some b"
    by (simp add: matrix_bytes_def sizeof_float_def)
qed

lemma matrix_bytes_None: "matrix_bytes r c = None \<longleftrightarrow> 2 ^ 64 \<le> unat r * unat c * 4"
proof -
  have "unat r * unat c * 4 < 2 ^ 64 \<Longrightarrow>
      matrix_bytes r c = Some (of_nat (unat r * unat c * 4))"
    by (subst matrix_bytes_Some) (simp add: unat_of_nat64 del: of_nat_mult)
  then show ?thesis
    using matrix_bytes_Some [of r c] by (metis linorder_not_less option.exhaust option.simps(3))
qed

text \<open>\<open>x & (x - 1) == 0\<close>: a power of two, or zero.\<close>

lemma power_of_two_nat:
  assumes "0 < (x::nat)"
  shows "x AND (x - 1) = 0 \<longleftrightarrow> (\<exists>e. x = 2 ^ e)"
proof
  assume z: "x AND (x - 1) = 0"
  obtain e where e: "2 ^ e \<le> x" "x < 2 ^ Suc e"
    using ex_power_ivl1 [of 2 x] assms by auto
  have hi: "bit y e" if "2 ^ e \<le> y" "y < 2 ^ Suc e" for y :: nat
  proof -
    have "y div 2 ^ e = 1"
      using that by (intro div_nat_eqI) simp_all
    then show ?thesis by (simp add: bit_iff_odd)
  qed
  have "x = 2 ^ e"
  proof (rule ccontr)
    assume "x \<noteq> 2 ^ e"
    then have "bit (x - 1) e" using e by (intro hi) simp_all
    then have "bit (x AND (x - 1)) e" using hi [OF e] by (simp add: bit_and_iff)
    then show False using z by simp
  qed
  then show "\<exists>e. x = 2 ^ e" ..
next
  assume "\<exists>e. x = 2 ^ e"
  then obtain e where "x = 2 ^ e" ..
  moreover have "(2 ^ e :: nat) AND mask e = 0"
    by (simp add: flip: take_bit_eq_mask)
  ultimately show "x AND (x - 1) = 0"
    by (simp add: mask_eq_exp_minus_1)
qed

lemma power_of_two_word:
  fixes x :: "'a::len word"
  assumes "x \<noteq> 0"
  shows "x AND (x - 1) = 0 \<longleftrightarrow> (\<exists>e. unat x = 2 ^ e)"
proof -
  have "unat (x AND (x - 1)) = unat x AND (unat x - 1)"
    using assms by (simp add: unsigned_and_eq unat_minus_one)
  moreover have "0 < unat x" using assms by (simp add: unat_gt_0)
  ultimately show ?thesis
    using power_of_two_nat [of "unat x"] by (metis unat_eq_0)
qed
definition packed_problem :: "CpuGemmProblemV1 \<Rightarrow> bool" where
  "packed_problem problem \<longleftrightarrow>
     prob_element_type problem = scalar_f32 \<and> prob_accumulation_type problem = scalar_f32 \<and>
     prob_layout problem = layout_row_major_contiguous \<and>
     (\<exists>e \<ge> 2. unat (prob_minimum_alignment_bytes problem) = 2 ^ e) \<and>
     0 < sint (prob_m problem) \<and> 0 < sint (prob_n problem) \<and> 0 < sint (prob_k problem) \<and>
     unat (prob_m problem) * unat (prob_k problem) * 4 < 2 ^ 64 \<and>
     unat (prob_k problem) * unat (prob_n problem) * 4 < 2 ^ 64 \<and>
     unat (prob_m problem) * unat (prob_n problem) * 4 < 2 ^ 64"

lemma alignment_ok:
  "\<not> (a < 4 \<or> a AND (a - 1) \<noteq> 0) \<longleftrightarrow> (\<exists>e \<ge> 2. unat (a::u32) = 2 ^ e)"
proof (cases "a = 0")
  case True
  then show ?thesis by simp
next
  case False
  have "a < 4 \<longleftrightarrow> unat a < 2 ^ 2" by (simp add: word_less_nat_alt)
  moreover have "2 ^ e < (2 ^ 2 :: nat) \<longleftrightarrow> \<not> 2 \<le> e" for e :: nat
    by (subst power_strict_increasing_iff) auto
  ultimately show ?thesis
    using power_of_two_word [OF False] by metis
qed

lemma positive_dimension_eq: "positive_dimension v = (if sint v \<le> 0 then None else Some v)"
  using u64_le_max [of v] by (simp add: positive_dimension_def Let_def not_less [symmetric] del: u64_le_max)

lemma validate_problem_exact:
  "validate_problem problem =
     (if packed_problem problem then Inr (prob_m problem, prob_n problem, prob_k problem)
      else if prob_element_type problem = scalar_f32 \<and>
        prob_accumulation_type problem = scalar_f32 \<and>
        prob_layout problem = layout_row_major_contiguous \<and>
        (\<exists>e \<ge> 2. unat (prob_minimum_alignment_bytes problem) = 2 ^ e) \<and>
        0 < sint (prob_m problem) \<and> 0 < sint (prob_n problem) \<and> 0 < sint (prob_k problem)
      then Inl pst_arithmetic_overflow else Inl pst_invalid_problem)"
  unfolding validate_problem_def Let_def packed_problem_def positive_dimension_eq matrix_bytes_None
    alignment_ok [symmetric]
  by (auto simp: not_less mult.commute)

lemma dims_positive:
  assumes "packed_problem problem"
  shows "0 < unat (prob_m problem)" "0 < unat (prob_n problem)" "0 < unat (prob_k problem)"
  using assms by (auto simp: packed_problem_def unat_gt_0 intro!: Nat.gr0I)

text \<open>The sizes of the two panels and of the workspace.\<close>

definition a_panel_bytes :: "CpuGemmProblemV1 \<Rightarrow> nat" where
  "a_panel_bytes problem =
     round_up (min (unat (prob_m problem)) 128) 4 * min (unat (prob_k problem)) 256 * 4"

definition b_panel_bytes :: "CpuGemmProblemV1 \<Rightarrow> nat" where
  "b_panel_bytes problem =
     round_up (min (unat (prob_n problem)) 256) 16 * min (unat (prob_k problem)) 256 * 4"

lemma round_up_le:
  assumes "0 < q" "v \<le> b" "q dvd b"
  shows "round_up v q \<le> b"
proof -
  from assms(3) obtain c where b: "b = c * q" by (metis dvd_def mult.commute)
  have "(v + q - 1) div q < Suc c"
    using assms b by (subst div_less_iff_less_mult) auto
  then show ?thesis
    by (simp add: b round_up_def)
qed

lemma panel_bounds:
  "a_panel_bytes problem \<le> 131072" "b_panel_bytes problem \<le> 262144"
proof -
  have "round_up (min (unat (prob_m problem)) 128) 4 \<le> 128"
    by (rule round_up_le) simp_all
  then have "round_up (min (unat (prob_m problem)) 128) 4 * min (unat (prob_k problem)) 256 \<le> 128 * 256"
    by (rule mult_le_mono) simp
  then show "a_panel_bytes problem \<le> 131072"
    unfolding a_panel_bytes_def by linarith
  have "round_up (min (unat (prob_n problem)) 256) 16 \<le> 256"
    by (rule round_up_le) simp_all
  then have "round_up (min (unat (prob_n problem)) 256) 16 * min (unat (prob_k problem)) 256 \<le> 256 * 256"
    by (rule mult_le_mono) simp
  then show "b_panel_bytes problem \<le> 262144"
    unfolding b_panel_bytes_def by linarith
qed
definition b_panel_offset :: "CpuGemmProblemV1 \<Rightarrow> nat" where
  "b_panel_offset problem = round_up (a_panel_bytes problem) 64"

definition workspace_total :: "CpuGemmProblemV1 \<Rightarrow> CpuPackedGemmWorkspaceModeV1 \<Rightarrow> nat" where
  "workspace_total problem mode =
     (if mode = transient_a_and_b
      then round_up (b_panel_offset problem + b_panel_bytes problem) 64
      else round_up (a_panel_bytes problem) 64)"

lemma workspace_bounds:
  "b_panel_offset problem \<le> 131072" "a_panel_bytes problem \<le> b_panel_offset problem"
  "workspace_total problem mode \<le> 393216"
  "a_panel_bytes problem \<le> workspace_total problem mode"
  "b_panel_offset problem + b_panel_bytes problem \<le> workspace_total problem transient_a_and_b"
proof -
  note up = round_up_bounds(1) [of 64]
  show o: "b_panel_offset problem \<le> 131072"
    unfolding b_panel_offset_def using panel_bounds(1) by (rule round_up_le [rotated]) simp_all
  show a: "a_panel_bytes problem \<le> b_panel_offset problem"
    unfolding b_panel_offset_def by (rule up) simp
  have "b_panel_offset problem + b_panel_bytes problem \<le> 393216"
    using o panel_bounds(2) [of problem] by linarith
  then have "round_up (b_panel_offset problem + b_panel_bytes problem) 64 \<le> 393216"
    by (rule round_up_le [rotated]) simp_all
  then show "workspace_total problem mode \<le> 393216"
    using o by (simp add: workspace_total_def b_panel_offset_def)
  show b: "b_panel_offset problem + b_panel_bytes problem \<le> workspace_total problem transient_a_and_b"
    using up by (simp add: workspace_total_def)
  show "a_panel_bytes problem \<le> workspace_total problem mode"
    using a b by (auto simp: workspace_total_def intro: up)
qed

lemma or_fail_Some_of_nat:
  assumes "\<And>c. x = Some c \<longleftrightarrow> v < 2 ^ 64 \<and> unat (c::u64) = v" "v < 2 ^ 64"
  shows "x = Some (of_nat v)"
  using assms by (simp add: unat_of_nat64)

lemma round_up_word:
  assumes "q \<noteq> 0" "round_up (unat v) (unat q) < 2 ^ 64"
  shows "checked_round_up v q = Some (of_nat (round_up (unat v) (unat q)))"
  using checked_round_up_Some [OF assms(1)] assms(2) by (rule or_fail_Some_of_nat)

lemma matrix_bytes_word:
  assumes "unat r * unat c * 4 < 2 ^ 64"
  shows "matrix_bytes r c = Some (of_nat (unat r * unat c * 4))"
  using matrix_bytes_Some assms by (rule or_fail_Some_of_nat)

lemma checked_add_word:
  assumes "unat a + unat b < 2 ^ 64"
  shows "checked_add a b = Some (of_nat (unat a + unat b))"
  using checked_add_Some assms by (rule or_fail_Some_of_nat)

lemma unat_min64: "unat (min a b :: u64) = min (unat a) (unat b)"
  by (auto simp: min_def word_le_nat_alt)

lemma padded_dims:
  "round_up (min (unat (prob_m problem)) 128) 4 \<le> 128"
  "round_up (min (unat (prob_n problem)) 256) 16 \<le> 256"
  by (rule round_up_le; simp)+

lemma execution_requirements:
  "make_execution_requirements problem mode =
     (if mode \<noteq> transient_a_and_b \<and> mode \<noteq> transient_a_with_prepacked_b
      then Inl pst_invalid_problem
      else and_then (validate_problem problem) (\<lambda>_.
        Inr (default_packed_requirements
               \<lparr>preq_mode := mode, preq_total_bytes := of_nat (workspace_total problem mode),
                preq_packed_a_bytes := of_nat (a_panel_bytes problem),
                preq_packed_b_offset :=
                  (if mode = transient_a_and_b then of_nat (b_panel_offset problem) else 0),
                preq_packed_b_bytes :=
                  (if mode = transient_a_and_b then of_nat (b_panel_bytes problem) else 0)\<rparr>)))"
proof (cases "mode = transient_a_and_b \<or> mode = transient_a_with_prepacked_b")
  case True
  let ?m = "prob_m problem" and ?n = "prob_n problem" and ?k = "prob_k problem"
  let ?pm = "round_up (min (unat ?m) 128) 4" and ?pn = "round_up (min (unat ?n) 256) 16"
  have pm: "checked_round_up (min ?m 128) 4 = Some (of_nat ?pm)"
    using round_up_word [of 4 "min ?m 128"] padded_dims(1) [of problem] by (simp add: unat_min64)
  have pn: "checked_round_up (min ?n 256) 16 = Some (of_nat ?pn)"
    using round_up_word [of 16 "min ?n 256"] padded_dims(2) [of problem] by (simp add: unat_min64)
  have um: "unat (of_nat ?pm :: u64) = ?pm" and un: "unat (of_nat ?pn :: u64) = ?pn"
    using padded_dims [of problem] by (simp_all add: unat_of_nat64)
  have a: "matrix_bytes (of_nat ?pm) (min ?k 256) = Some (of_nat (a_panel_bytes problem))"
    using matrix_bytes_word [of "of_nat ?pm" "min ?k 256"] panel_bounds(1) [of problem]
    unfolding um unat_min64 a_panel_bytes_def by simp
  have b: "matrix_bytes (of_nat ?pn) (min ?k 256) = Some (of_nat (b_panel_bytes problem))"
    using matrix_bytes_word [of "of_nat ?pn" "min ?k 256"] panel_bounds(2) [of problem]
    unfolding un unat_min64 b_panel_bytes_def by simp
  have ua: "unat (of_nat (a_panel_bytes problem) :: u64) = a_panel_bytes problem"
    and ub: "unat (of_nat (b_panel_bytes problem) :: u64) = b_panel_bytes problem"
    and uo: "unat (of_nat (b_panel_offset problem) :: u64) = b_panel_offset problem"
    using panel_bounds [of problem] workspace_bounds(1) [of problem] by (simp_all add: unat_of_nat64)
  have o: "checked_round_up (of_nat (a_panel_bytes problem)) 64 = Some (of_nat (b_panel_offset problem))"
    using round_up_word [of 64 "of_nat (a_panel_bytes problem)"] workspace_bounds(1) [of problem]
    by (simp add: ua b_panel_offset_def)
  have add: "checked_add (of_nat (b_panel_offset problem)) (of_nat (b_panel_bytes problem)) =
      Some (of_nat (b_panel_offset problem + b_panel_bytes problem))"
    using checked_add_word [of "of_nat (b_panel_offset problem)" "of_nat (b_panel_bytes problem)"]
      workspace_bounds(1) [of problem] panel_bounds(2) [of problem]
    unfolding uo ub by simp
  have us: "unat (of_nat (b_panel_offset problem + b_panel_bytes problem) :: u64) =
      b_panel_offset problem + b_panel_bytes problem"
    using workspace_bounds(1) [of problem] panel_bounds(2) [of problem]
    by (intro unat_of_nat64) linarith
  have t: "checked_round_up (of_nat (b_panel_offset problem + b_panel_bytes problem)) 64 =
      Some (of_nat (workspace_total problem transient_a_and_b))"
    using round_up_word [of 64 "of_nat (b_panel_offset problem + b_panel_bytes problem)"]
      workspace_bounds(3) [of problem transient_a_and_b]
    unfolding us workspace_total_def by simp
  have "workspace_total problem transient_a_with_prepacked_b = b_panel_offset problem"
    by (simp add: workspace_total_def b_panel_offset_def)
  note simps = make_execution_requirements_def packed_constants pm pn a b o add t this
  show ?thesis
  proof (cases "packed_problem problem")
    case ok: True
    then have "validate_problem problem = Inr (?m, ?n, ?k)"
      by (simp add: validate_problem_exact)
    with True show ?thesis
      by (elim disjE) (simp_all add: simps del: of_nat_add)
  next
    case False
    then obtain e where "validate_problem problem = Inl e"
      by (cases "validate_problem problem") (auto simp: validate_problem_exact split: if_splits)
    with True show ?thesis
      by (auto simp: make_execution_requirements_def)
  qed
next
  case False
  then show ?thesis by (simp add: make_execution_requirements_def)
qed
text \<open>The whole packed image of B.\<close>

definition b_image_elements :: "CpuGemmProblemV1 \<Rightarrow> nat" where
  "b_image_elements problem = round_up (unat (prob_n problem)) 16 * unat (prob_k problem)"

definition b_image_total :: "CpuGemmProblemV1 \<Rightarrow> nat" where
  "b_image_total problem = round_up (b_image_elements problem * 4) 64"

lemma b_image_bounds:
  "b_image_elements problem * 4 \<le> b_image_total problem"
  "0 < unat (prob_k problem) \<Longrightarrow> round_up (unat (prob_n problem)) 16 \<le> b_image_elements problem"
  using round_up_bounds(1) [of 64 "b_image_elements problem * 4"]
  by (simp_all add: b_image_total_def b_image_elements_def)

lemma prepacked_requirements:
  "cpu_packed_avx2_prepacked_b_requirements_v1 problem =
     and_then (validate_problem problem) (\<lambda>_.
       if b_image_total problem < 2 ^ 64
       then Inr (default_packed_requirements
              \<lparr>preq_mode := transient_a_with_prepacked_b,
               preq_total_bytes := of_nat (b_image_total problem),
               preq_packed_b_bytes := of_nat (b_image_elements problem * 4)\<rparr>)
       else Inl pst_arithmetic_overflow)"
proof (cases "packed_problem problem")
  case True
  let ?n = "prob_n problem" and ?k = "prob_k problem"
  let ?p = "round_up (unat ?n) 16" and ?b = "b_image_elements problem * 4"
  have valid: "validate_problem problem = Inr (prob_m problem, ?n, ?k)"
    using True by (simp add: validate_problem_exact)
  have k: "0 < unat ?k" using dims_positive [OF True] by simp
  have n: "unat ?n * 4 < 2 ^ 64"
  proof -
    have "unat ?n * 4 \<le> unat ?k * (unat ?n * 4)" using k by simp
    also have "\<dots> < 2 ^ 64" using True by (simp add: packed_problem_def)
    finally show ?thesis .
  qed
  have p: "?p < 2 ^ 64"
    using round_up_bounds(2) [of 16 "unat ?n"] n by simp
  have 1: "checked_round_up ?n 16 = Some (of_nat ?p)"
    using round_up_word [of 16 ?n] p by simp
  have up: "unat (of_nat ?p :: u64) = ?p" using p by (intro unat_of_nat64) simp
  have b: "?b = ?p * unat ?k * 4" by (simp add: b_image_elements_def)
  show ?thesis
  proof (cases "?b < 2 ^ 64")
    case fits: True
    have 2: "matrix_bytes (of_nat ?p) ?k = Some (of_nat ?b)"
      using matrix_bytes_word [of "of_nat ?p" ?k] fits unfolding up b by simp
    have ub: "unat (of_nat ?b :: u64) = ?b" using fits by (intro unat_of_nat64) simp
    have 3: "checked_round_up (of_nat ?b) 64 = (if b_image_total problem < 2 ^ 64
        then Some (of_nat (b_image_total problem)) else None)"
    proof (cases "b_image_total problem < 2 ^ 64")
      case True
      then show ?thesis
        using round_up_word [of 64 "of_nat ?b"] unfolding ub b_image_total_def by simp
    next
      case False
      then have "checked_round_up (of_nat ?b) 64 \<noteq> Some c" for c
        using checked_round_up_Some [of 64 "of_nat ?b" c] unfolding ub b_image_total_def by simp
      then show ?thesis using False by auto
    qed
    show ?thesis
      using valid 1 2 3
      by (simp add: cpu_packed_avx2_prepacked_b_requirements_v1_def packed_constants
          del: of_nat_mult)
  next
    case False
    then have "matrix_bytes (of_nat ?p) ?k = None"
      unfolding matrix_bytes_None up b by simp
    moreover have "\<not> b_image_total problem < 2 ^ 64"
      using False b_image_bounds(1) [of problem] by linarith
    ultimately show ?thesis
      using valid 1 by (simp add: cpu_packed_avx2_prepacked_b_requirements_v1_def packed_constants)
  qed
next
  case False
  then obtain e where "validate_problem problem = Inl e"
    by (cases "validate_problem problem") (auto simp: validate_problem_exact split: if_splits)
  then show ?thesis
    by (simp add: cpu_packed_avx2_prepacked_b_requirements_v1_def)
qed

section \<open>Address ranges\<close>

text \<open>\<open>placed p b\<close>: \<open>b\<close> bytes at the non-null address \<open>p\<close> end before the top of the address space.\<close>

definition placed :: "u64 \<Rightarrow> nat \<Rightarrow> bool" where
  "placed p b \<longleftrightarrow> p \<noteq> 0 \<and> unat p + b < 2 ^ 64"

definition bytes_at :: "u64 \<Rightarrow> nat \<Rightarrow> nat set" where
  "bytes_at p b = {unat p ..< unat p + b}"

lemma make_span_Some:
  "make_span p b = Some s \<longleftrightarrow> placed p (unat b) \<and> s = \<lparr>span_begin = p, span_end = p + b\<rparr>"
proof -
  have "b > u64_max - p \<longleftrightarrow> \<not> unat p + unat b < 2 ^ 64"
    using unat_lt64 [of p] unat_lt64 [of b]
    by (simp add: word_less_nat_alt unat_u64_max_minus, arith)
  then show ?thesis
    by (auto simp: make_span_def placed_def)
qed

lemma unat_matrix_bytes:
  assumes "unat r * unat c * 4 < 2 ^ 64"
  shows "unat (r * c * 4 :: u64) = unat r * unat c * 4"
proof -
  have "unat r * unat c < 2 ^ 64" using assms by linarith
  then have "unat (r * c) = unat r * unat c" by (simp add: unat_word_ariths)
  then show ?thesis using assms by (simp add: unat_word_ariths(2) [of "r * c"])
qed

lemma make_matrix_span_Some:
  "make_matrix_span p r c = Some s \<longleftrightarrow>
     placed p (unat r * unat c * 4) \<and> s = \<lparr>span_begin = p, span_end = p + r * c * 4\<rparr>"
proof -
  have "matrix_bytes r c = Some b \<Longrightarrow> b = r * c * 4" for b
    by (simp add: matrix_bytes_Some unat_matrix_bytes word_eq_unatI)
  moreover have "placed p (unat r * unat c * 4) \<Longrightarrow>
      matrix_bytes r c = Some (r * c * 4) \<and> unat (r * c * 4) = unat r * unat c * 4"
    unfolding matrix_bytes_Some placed_def using unat_matrix_bytes [of r c] by linarith
  ultimately show ?thesis
    unfolding make_matrix_span_def bind_eq_Some_conv make_span_Some
    by (metis matrix_bytes_Some)
qed

lemma overlaps_disjoint:
  assumes "placed p a" "placed q b" "0 < a" "0 < b" "unat x = a" "unat y = b"
  shows "overlaps \<lparr>span_begin = p, span_end = p + x\<rparr> \<lparr>span_begin = q, span_end = q + y\<rparr> \<longleftrightarrow>
    bytes_at p a \<inter> bytes_at q b \<noteq> {}"
proof -
  have "unat (p + x) = unat p + a" "unat (q + y) = unat q + b"
    using assms by (simp_all add: placed_def unat_plus_if')
  then have "overlaps \<lparr>span_begin = p, span_end = p + x\<rparr> \<lparr>span_begin = q, span_end = q + y\<rparr> \<longleftrightarrow>
      unat p < unat q + b \<and> unat q < unat p + a"
    by (simp add: overlaps_def word_less_nat_alt)
  also have "\<dots> \<longleftrightarrow> (\<exists>z. unat p \<le> z \<and> z < unat p + a \<and> unat q \<le> z \<and> z < unat q + b)"
    using assms(3,4) by (intro iffI, intro exI [of _ "max (unat p) (unat q)"]) auto
  finally show ?thesis
    by (simp only: bytes_at_def ex_in_conv [symmetric] Int_iff atLeastLessThan_iff conj_assoc)
qed

lemma pointer_has_alignment_iff:
  "a \<noteq> 0 \<Longrightarrow> pointer_has_alignment p a \<longleftrightarrow> p \<noteq> 0 \<and> unat a dvd unat p"
  unfolding pointer_has_alignment_def by (metis dvd_eq_mod_eq_0 unat_eq_0 unat_mod)
section \<open>Exact meaning of the validators\<close>

text \<open>The sizes of the three tensors in bytes.\<close>

abbreviation lhs_bytes :: "CpuGemmProblemV1 \<Rightarrow> nat" where
  "lhs_bytes problem \<equiv> unat (prob_m problem) * unat (prob_k problem) * 4"
abbreviation rhs_bytes :: "CpuGemmProblemV1 \<Rightarrow> nat" where
  "rhs_bytes problem \<equiv> unat (prob_k problem) * unat (prob_n problem) * 4"
abbreviation out_bytes :: "CpuGemmProblemV1 \<Rightarrow> nat" where
  "out_bytes problem \<equiv> unat (prob_m problem) * unat (prob_n problem) * 4"

definition disjoint_ranges :: "u64 \<Rightarrow> nat \<Rightarrow> u64 \<Rightarrow> nat \<Rightarrow> bool" where
  "disjoint_ranges p a q b \<longleftrightarrow> bytes_at p a \<inter> bytes_at q b = {}"

text \<open>The tensors are placed with the declared alignment and the output overlaps no input (the two
  inputs may overlap).\<close>

definition tensors_ok :: "CpuGemmProblemV1 \<Rightarrow> u64 \<Rightarrow> u64 \<Rightarrow> u64 \<Rightarrow> bool" where
  "tensors_ok problem lhs rhs out \<longleftrightarrow>
     placed lhs (lhs_bytes problem) \<and> placed rhs (rhs_bytes problem) \<and>
     placed out (out_bytes problem) \<and>
     unat (prob_minimum_alignment_bytes problem) dvd unat lhs \<and>
     unat (prob_minimum_alignment_bytes problem) dvd unat rhs \<and>
     unat (prob_minimum_alignment_bytes problem) dvd unat out \<and>
     disjoint_ranges out (out_bytes problem) lhs (lhs_bytes problem) \<and>
     disjoint_ranges out (out_bytes problem) rhs (rhs_bytes problem)"

definition tensor_span :: "u64 \<Rightarrow> u64 \<Rightarrow> u64 \<Rightarrow> ByteSpan" where
  "tensor_span p rows columns = \<lparr>span_begin = p, span_end = p + rows * columns * 4\<rparr>"

abbreviation lhs_span_of :: "CpuGemmProblemV1 \<Rightarrow> u64 \<Rightarrow> ByteSpan" where
  "lhs_span_of problem p \<equiv> tensor_span p (prob_m problem) (prob_k problem)"
abbreviation rhs_span_of :: "CpuGemmProblemV1 \<Rightarrow> u64 \<Rightarrow> ByteSpan" where
  "rhs_span_of problem p \<equiv> tensor_span p (prob_k problem) (prob_n problem)"
abbreviation out_span_of :: "CpuGemmProblemV1 \<Rightarrow> u64 \<Rightarrow> ByteSpan" where
  "out_span_of problem p \<equiv> tensor_span p (prob_m problem) (prob_n problem)"

lemma tensor_bytes_positive:
  assumes "packed_problem problem"
  shows "0 < lhs_bytes problem" "0 < rhs_bytes problem" "0 < out_bytes problem"
  using dims_positive [OF assms] by simp_all

lemma tensor_sizes:
  assumes "packed_problem problem"
  shows "unat (prob_m problem * prob_k problem * 4) = lhs_bytes problem"
    "unat (prob_k problem * prob_n problem * 4) = rhs_bytes problem"
    "unat (prob_m problem * prob_n problem * 4) = out_bytes problem"
  using assms by (auto simp: packed_problem_def intro: unat_matrix_bytes)

lemma tensor_overlaps:
  assumes "placed p a" "placed q b" "0 < a" "0 < b"
    "unat (r * c * 4) = a" "unat (r' * c' * 4) = b"
  shows "overlaps (tensor_span p r c) (tensor_span q r' c') \<longleftrightarrow> \<not> disjoint_ranges p a q b"
  unfolding tensor_span_def disjoint_ranges_def using assms by (subst overlaps_disjoint) auto

lemma declared_alignment:
  assumes "packed_problem problem"
  shows "pointer_has_alignment p 4 \<and>
      pointer_has_alignment p (u32_to_u64 (prob_minimum_alignment_bytes problem)) \<longleftrightarrow>
    p \<noteq> 0 \<and> unat (prob_minimum_alignment_bytes problem) dvd unat p"
proof -
  obtain e where e: "2 \<le> e" "unat (prob_minimum_alignment_bytes problem) = 2 ^ e"
    using assms by (auto simp: packed_problem_def)
  then have "(4::nat) dvd unat (prob_minimum_alignment_bytes problem)"
    using le_imp_power_dvd [of 2 e "2::nat"] by simp
  moreover have "u32_to_u64 (prob_minimum_alignment_bytes problem) \<noteq> 0"
    using e unat_u32_to_u64 [of "prob_minimum_alignment_bytes problem"] by (metis unat_0 power_eq_0_iff zero_neq_numeral)
  ultimately show ?thesis
    by (auto simp: pointer_has_alignment_iff intro: dvd_trans)
qed

lemma validate_tensor_contract_Inr:
  assumes "packed_problem problem"
  shows "validate_tensor_contract problem lhs rhs out (prob_m problem) (prob_n problem)
      (prob_k problem) = Inr spans \<longleftrightarrow>
    tensors_ok problem lhs rhs out \<and>
    spans = (lhs_span_of problem lhs, rhs_span_of problem rhs, out_span_of problem out)"
proof -
  note pos = tensor_bytes_positive [OF assms] and sizes = tensor_sizes [OF assms]
  have align: "pointer_has_alignment lhs 4 \<and> pointer_has_alignment rhs 4 \<and>
        pointer_has_alignment out 4 \<and>
        pointer_has_alignment lhs (u32_to_u64 (prob_minimum_alignment_bytes problem)) \<and>
        pointer_has_alignment rhs (u32_to_u64 (prob_minimum_alignment_bytes problem)) \<and>
        pointer_has_alignment out (u32_to_u64 (prob_minimum_alignment_bytes problem)) \<longleftrightarrow>
      (lhs \<noteq> 0 \<and> unat (prob_minimum_alignment_bytes problem) dvd unat lhs) \<and>
      (rhs \<noteq> 0 \<and> unat (prob_minimum_alignment_bytes problem) dvd unat rhs) \<and>
      (out \<noteq> 0 \<and> unat (prob_minimum_alignment_bytes problem) dvd unat out)"
    unfolding declared_alignment [OF assms, symmetric] by blast
  have apart: "overlaps (out_span_of problem out) (lhs_span_of problem lhs) \<longleftrightarrow>
        \<not> disjoint_ranges out (out_bytes problem) lhs (lhs_bytes problem)"
      "overlaps (out_span_of problem out) (rhs_span_of problem rhs) \<longleftrightarrow>
        \<not> disjoint_ranges out (out_bytes problem) rhs (rhs_bytes problem)"
    if "placed lhs (lhs_bytes problem)" "placed rhs (rhs_bytes problem)"
      "placed out (out_bytes problem)"
    using that pos sizes by (intro tensor_overlaps; simp)+
  show ?thesis
    unfolding validate_tensor_contract_def Let_def result_simps make_matrix_span_Some
      tensor_span_def [symmetric] align tensors_ok_def
    using apart by (auto simp: placed_def result_simps)
qed

definition workspace_ok :: "u64 \<Rightarrow> u64 \<Rightarrow> nat \<Rightarrow> bool" where
  "workspace_ok workspace workspace_bytes required \<longleftrightarrow>
     placed workspace required \<and> required \<le> unat workspace_bytes \<and> 64 dvd unat workspace"

lemma validate_workspace_Inr:
  assumes "preq_alignment_bytes requirements = 64"
  shows "validate_workspace workspace workspace_bytes requirements forbidden = Inr s \<longleftrightarrow>
    workspace_ok workspace workspace_bytes (unat (preq_total_bytes requirements)) \<and>
    s = \<lparr>span_begin = workspace, span_end = workspace + preq_total_bytes requirements\<rparr> \<and>
    \<not> list_ex (overlaps s) forbidden"
  using assms
  by (auto simp: validate_workspace_def result_simps make_span_Some workspace_ok_def
      pointer_has_alignment_iff word_le_nat_alt placed_def)

lemma span_overlaps:
  assumes "placed p a" "placed q b" "0 < a" "0 < b" "unat x = a" "unat (r * c * 4) = b"
  shows "overlaps \<lparr>span_begin = p, span_end = p + x\<rparr> (tensor_span q r c) \<longleftrightarrow>
    \<not> disjoint_ranges p a q b"
  unfolding tensor_span_def disjoint_ranges_def using assms by (subst overlaps_disjoint) auto

lemma workspace_positive:
  assumes "packed_problem problem"
  shows "0 < workspace_total problem mode"
proof -
  have "0 < a_panel_bytes problem"
    unfolding a_panel_bytes_def
    using dims_positive [OF assms] round_up_bounds(1) [of 4 "min (unat (prob_m problem)) 128"]
    by (simp add: less_le_trans)
  then show ?thesis using workspace_bounds(4) [of problem mode] by linarith
qed

lemma unat_workspace_total: "unat (of_nat (workspace_total problem mode) :: u64) = workspace_total problem mode"
  using workspace_bounds(3) [of problem mode] by (intro unat_of_nat64) simp

definition tensors_avoid :: "CpuGemmProblemV1 \<Rightarrow> u64 \<Rightarrow> u64 \<Rightarrow> u64 \<Rightarrow> u64 \<Rightarrow> nat \<Rightarrow> bool" where
  "tensors_avoid problem lhs rhs out p b \<longleftrightarrow>
     disjoint_ranges p b lhs (lhs_bytes problem) \<and> disjoint_ranges p b rhs (rhs_bytes problem) \<and>
     disjoint_ranges p b out (out_bytes problem)"
lemma dimensions_Inr:
  "dimensions problem = Inr d \<longleftrightarrow>
     packed_problem problem \<and> d = (prob_m problem, prob_n problem, prob_k problem)"
  by (auto simp: dimensions_def cpu_packed_avx2_workspace_requirements_v1_def
      execution_requirements result_simps validate_problem_exact)

lemma requirements_Inr:
  "cpu_packed_avx2_workspace_requirements_v1 problem mode = Inr r \<longleftrightarrow>
     (mode = transient_a_and_b \<or> mode = transient_a_with_prepacked_b) \<and> packed_problem problem \<and>
     r = default_packed_requirements
               \<lparr>preq_mode := mode, preq_total_bytes := of_nat (workspace_total problem mode),
                preq_packed_a_bytes := of_nat (a_panel_bytes problem),
                preq_packed_b_offset :=
                  (if mode = transient_a_and_b then of_nat (b_panel_offset problem) else 0),
                preq_packed_b_bytes :=
                  (if mode = transient_a_and_b then of_nat (b_panel_bytes problem) else 0)\<rparr>"
  by (auto simp: cpu_packed_avx2_workspace_requirements_v1_def execution_requirements
      result_simps validate_problem_exact)

lemma default_alignment [simp]:
  "preq_alignment_bytes default_packed_requirements = 64"
  by (simp add: default_packed_requirements_def packed_constants)

text \<open>The test of the workspace against the tensors.\<close>

lemma workspace_tensors:
  assumes "packed_problem problem" "tensors_ok problem lhs rhs out"
    and w: "placed w (workspace_total problem mode)"
  defines "s \<equiv> \<lparr>span_begin = w, span_end = w + of_nat (workspace_total problem mode)\<rparr>"
  shows "(\<not> list_ex (overlaps s)
      [lhs_span_of problem lhs, rhs_span_of problem rhs, out_span_of problem out]) \<longleftrightarrow>
    tensors_avoid problem lhs rhs out w (workspace_total problem mode)"
proof -
  note t = tensor_bytes_positive [OF assms(1)] tensor_sizes [OF assms(1)]
    workspace_positive [OF assms(1), of mode] unat_workspace_total [of problem mode]
  have "overlaps s (lhs_span_of problem lhs) \<longleftrightarrow>
      \<not> disjoint_ranges w (workspace_total problem mode) lhs (lhs_bytes problem)"
    "overlaps s (rhs_span_of problem rhs) \<longleftrightarrow>
      \<not> disjoint_ranges w (workspace_total problem mode) rhs (rhs_bytes problem)"
    "overlaps s (out_span_of problem out) \<longleftrightarrow>
      \<not> disjoint_ranges w (workspace_total problem mode) out (out_bytes problem)"
    using assms(2) w t by (unfold s_def tensors_ok_def) (intro span_overlaps; simp)+
  then show ?thesis by (auto simp: tensors_avoid_def)
qed

lemma packed_validation:
  "cpu_validate_packed_avx2_v1 problem lhs rhs out workspace workspace_bytes = Inr () \<longleftrightarrow>
     packed_problem problem \<and> tensors_ok problem lhs rhs out \<and>
     workspace_ok workspace workspace_bytes (workspace_total problem transient_a_and_b) \<and>
     tensors_avoid problem lhs rhs out workspace (workspace_total problem transient_a_and_b)"
proof (cases "packed_problem problem \<and> tensors_ok problem lhs rhs out")
  case True
  then show ?thesis
    using workspace_tensors [of problem lhs rhs out workspace transient_a_and_b]
    by (auto simp: cpu_validate_packed_avx2_v1_def result_simps requirements_Inr dimensions_Inr
        validate_tensor_contract_Inr validate_workspace_Inr unat_workspace_total workspace_ok_def)
next
  case False
  then show ?thesis
    by (auto simp: cpu_validate_packed_avx2_v1_def result_simps requirements_Inr dimensions_Inr
        validate_tensor_contract_Inr)
qed

text \<open>A usable view of a packed B: its metadata fit the problem and its storage is apart from its
  source.\<close>

definition view_ok :: "CpuGemmProblemV1 \<Rightarrow> CpuPackedBViewV1 \<Rightarrow> bool" where
  "view_ok problem view \<longleftrightarrow>
     b_image_total problem < 2 ^ 64 \<and>
     cpu_validate_packed_b_view_metadata_v1 problem view (of_nat (b_image_total problem))
       (of_nat (b_image_elements problem)) \<and>
     placed (pbv_source_data view) (rhs_bytes problem) \<and>
     placed (pbv_packed_data view) (b_image_elements problem * 4) \<and>
     disjoint_ranges (pbv_source_data view) (rhs_bytes problem)
       (pbv_packed_data view) (b_image_elements problem * 4)"

definition packed_span_of :: "CpuGemmProblemV1 \<Rightarrow> CpuPackedBViewV1 \<Rightarrow> ByteSpan" where
  "packed_span_of problem view = \<lparr>span_begin = pbv_packed_data view,
     span_end = pbv_packed_data view + of_nat (b_image_elements problem * 4)\<rparr>"

lemma image_words:
  assumes "b_image_total problem < 2 ^ 64"
  shows "unat (of_nat (b_image_elements problem * 4) :: u64) = b_image_elements problem * 4"
    "of_nat (b_image_elements problem * 4) div sizeof_float = of_nat (b_image_elements problem)"
    "unat (of_nat (b_image_total problem) :: u64) = b_image_total problem"
    "unat (of_nat (b_image_elements problem) :: u64) = b_image_elements problem"
proof -
  have lt: "b_image_elements problem * 4 < 2 ^ 64"
    using assms b_image_bounds(1) [of problem] by linarith
  then show 1: "unat (of_nat (b_image_elements problem * 4) :: u64) = b_image_elements problem * 4"
    by (intro unat_of_nat64) simp
  show 2: "unat (of_nat (b_image_elements problem) :: u64) = b_image_elements problem"
    using lt by (intro unat_of_nat64) simp
  show "of_nat (b_image_elements problem * 4) div sizeof_float = of_nat (b_image_elements problem)"
    unfolding sizeof_float_def
    by (rule word_eq_unatI) (simp only: unat_div 1 2, simp)
  show "unat (of_nat (b_image_total problem) :: u64) = b_image_total problem"
    using assms by (intro unat_of_nat64) simp
qed

lemma image_positive: "packed_problem problem \<Longrightarrow> 0 < b_image_elements problem * 4"
  using b_image_bounds(2) [of problem] round_up_bounds(1) [of 16 "unat (prob_n problem)"]
    dims_positive [of problem] by simp

lemma validate_prepacked_view_Inr:
  assumes "packed_problem problem"
  shows "validate_prepacked_view problem view = Inr spans \<longleftrightarrow>
    view_ok problem view \<and>
    spans = (rhs_span_of problem (pbv_source_data view), packed_span_of problem view)"
proof (cases "b_image_total problem < 2 ^ 64")
  case True
  have req: "cpu_packed_avx2_prepacked_b_requirements_v1 problem = Inr
      (default_packed_requirements
              \<lparr>preq_mode := transient_a_with_prepacked_b,
               preq_total_bytes := of_nat (b_image_total problem),
               preq_packed_b_bytes := of_nat (b_image_elements problem * 4)\<rparr>)"
    using assms True by (simp add: prepacked_requirements validate_problem_exact)
  have over: "overlaps (rhs_span_of problem (pbv_source_data view)) (packed_span_of problem view) \<longleftrightarrow>
      \<not> disjoint_ranges (pbv_source_data view) (rhs_bytes problem)
       (pbv_packed_data view) (b_image_elements problem * 4)"
    if "placed (pbv_source_data view) (rhs_bytes problem)"
      "placed (pbv_packed_data view) (b_image_elements problem * 4)"
    using that tensor_bytes_positive(2) [OF assms] tensor_sizes(2) [OF assms]
      image_positive [OF assms] image_words(1) [OF True]
    unfolding packed_span_of_def tensor_span_def disjoint_ranges_def
    by (subst overlaps_disjoint) auto
  show ?thesis
    unfolding validate_prepacked_view_def req and_then_simps
    using True over
    by (auto simp: result_simps view_ok_def make_matrix_span_Some make_span_Some
        image_words(1,2) [OF True] tensor_span_def [symmetric] packed_span_of_def [symmetric]
        simp del: of_nat_mult)
next
  case False
  then have "cpu_packed_avx2_prepacked_b_requirements_v1 problem = Inl pst_arithmetic_overflow"
    using assms by (simp add: prepacked_requirements validate_problem_exact)
  then show ?thesis
    using False by (simp add: validate_prepacked_view_def view_ok_def)
qed
lemma apart_spans:
  assumes "packed_problem problem" "tensors_ok problem lhs rhs out" "view_ok problem view"
  shows "overlaps (lhs_span_of problem lhs) (packed_span_of problem view) \<longleftrightarrow>
      \<not> disjoint_ranges lhs (lhs_bytes problem) (pbv_packed_data view) (b_image_elements problem * 4)"
    "overlaps (out_span_of problem out) (packed_span_of problem view) \<longleftrightarrow>
      \<not> disjoint_ranges out (out_bytes problem) (pbv_packed_data view) (b_image_elements problem * 4)"
proof -
  have fits: "b_image_total problem < 2 ^ 64" using assms(3) by (simp add: view_ok_def)
  note t = tensor_bytes_positive [OF assms(1)] tensor_sizes [OF assms(1)]
      image_positive [OF assms(1)] image_words(1) [OF fits]
  show "overlaps (lhs_span_of problem lhs) (packed_span_of problem view) \<longleftrightarrow>
      \<not> disjoint_ranges lhs (lhs_bytes problem) (pbv_packed_data view) (b_image_elements problem * 4)"
    "overlaps (out_span_of problem out) (packed_span_of problem view) \<longleftrightarrow>
      \<not> disjoint_ranges out (out_bytes problem) (pbv_packed_data view) (b_image_elements problem * 4)"
    using assms(2,3) t unfolding packed_span_of_def tensor_span_def disjoint_ranges_def
      tensors_ok_def view_ok_def
    by (subst overlaps_disjoint; simp)+
qed

lemma view_validation:
  "cpu_validate_packed_avx2_prepacked_b_view_v1 problem lhs out view = Inr () \<longleftrightarrow>
     packed_problem problem \<and> view_ok problem view \<and>
     tensors_ok problem lhs (pbv_source_data view) out \<and>
     disjoint_ranges lhs (lhs_bytes problem) (pbv_packed_data view) (b_image_elements problem * 4) \<and>
     disjoint_ranges out (out_bytes problem) (pbv_packed_data view) (b_image_elements problem * 4)"
proof (cases "packed_problem problem")
  case True
  then show ?thesis
    using apart_spans [OF True, of lhs "pbv_source_data view" out view]
    by (auto simp: cpu_validate_packed_avx2_prepacked_b_view_v1_def result_simps dimensions_Inr
        validate_prepacked_view_Inr validate_tensor_contract_Inr)
next
  case False
  then show ?thesis
    by (auto simp: cpu_validate_packed_avx2_prepacked_b_view_v1_def result_simps dimensions_Inr)
qed

lemma prepacked_validation:
  "cpu_validate_packed_avx2_prepacked_b_v1 problem lhs out view workspace workspace_bytes = Inr () \<longleftrightarrow>
     cpu_validate_packed_avx2_prepacked_b_view_v1 problem lhs out view = Inr () \<and>
     workspace_ok workspace workspace_bytes
       (workspace_total problem transient_a_with_prepacked_b) \<and>
     tensors_avoid problem lhs (pbv_source_data view) out workspace
       (workspace_total problem transient_a_with_prepacked_b) \<and>
     disjoint_ranges workspace (workspace_total problem transient_a_with_prepacked_b)
       (pbv_packed_data view) (b_image_elements problem * 4)"
proof (cases "cpu_validate_packed_avx2_prepacked_b_view_v1 problem lhs out view = Inr ()")
  case True
  let ?w = "workspace_total problem transient_a_with_prepacked_b"
  have ok: "packed_problem problem" "view_ok problem view"
      "tensors_ok problem lhs (pbv_source_data view) out"
    using True by (simp_all only: view_validation)
  have fits: "b_image_total problem < 2 ^ 64" using ok by (simp add: view_ok_def)
  note apart = apart_spans [OF ok(1,3,2)]
  have packed: "overlaps \<lparr>span_begin = workspace, span_end = workspace + of_nat ?w\<rparr>
        (packed_span_of problem view) \<longleftrightarrow>
      \<not> disjoint_ranges workspace ?w (pbv_packed_data view) (b_image_elements problem * 4)"
    if "placed workspace ?w"
    using that ok(2) image_positive [OF ok(1)] image_words(1) [OF fits]
      workspace_positive [OF ok(1), of transient_a_with_prepacked_b]
      unat_workspace_total [of problem transient_a_with_prepacked_b]
    unfolding packed_span_of_def disjoint_ranges_def view_ok_def
    by (subst overlaps_disjoint) auto
  note tensors = workspace_tensors [OF ok(1,3), of workspace transient_a_with_prepacked_b]
  have "cpu_validate_packed_avx2_prepacked_b_v1 problem lhs out view workspace workspace_bytes =
      and_then (validate_workspace workspace workspace_bytes
        (default_packed_requirements
               \<lparr>preq_mode := transient_a_with_prepacked_b, preq_total_bytes := of_nat ?w,
                preq_packed_a_bytes := of_nat (a_panel_bytes problem),
                preq_packed_b_offset := 0, preq_packed_b_bytes := 0\<rparr>)
        [lhs_span_of problem lhs, rhs_span_of problem (pbv_source_data view),
         out_span_of problem out, packed_span_of problem view]) (\<lambda>_. Inr ())"
  proof -
    have "cpu_packed_avx2_workspace_requirements_v1 problem transient_a_with_prepacked_b = Inr
        (default_packed_requirements
               \<lparr>preq_mode := transient_a_with_prepacked_b, preq_total_bytes := of_nat ?w,
                preq_packed_a_bytes := of_nat (a_panel_bytes problem),
                preq_packed_b_offset := 0, preq_packed_b_bytes := 0\<rparr>)"
      using ok(1) by (simp add: requirements_Inr)
    moreover have "dimensions problem = Inr (prob_m problem, prob_n problem, prob_k problem)"
      using ok(1) by (simp add: dimensions_Inr)
    moreover have "validate_prepacked_view problem view =
        Inr (rhs_span_of problem (pbv_source_data view), packed_span_of problem view)"
      using ok(1,2) by (simp add: validate_prepacked_view_Inr)
    moreover have "validate_tensor_contract problem lhs (pbv_source_data view) out
        (prob_m problem) (prob_n problem) (prob_k problem) =
        Inr (lhs_span_of problem lhs, rhs_span_of problem (pbv_source_data view), out_span_of problem out)"
      using ok(1,3) by (simp add: validate_tensor_contract_Inr)
    moreover have "\<not> overlaps (lhs_span_of problem lhs) (packed_span_of problem view)"
      "\<not> overlaps (out_span_of problem out) (packed_span_of problem view)"
      using True apart by (simp_all add: view_validation)
    ultimately show ?thesis
      using True by (simp add: cpu_validate_packed_avx2_prepacked_b_v1_def)
  qed
  then show ?thesis
    using True tensors packed
    by (auto simp: result_simps validate_workspace_Inr unat_workspace_total workspace_ok_def)
next
  case False
  then show ?thesis
    by (auto simp: cpu_validate_packed_avx2_prepacked_b_v1_def result_simps)
qed

text \<open>The view that preparation hands out passes the metadata check of every later execution.\<close>

lemma provenance_update [simp]:
  "cpu_packed_b_provenance_v1 (view\<lparr>pbv_provenance := p\<rparr>) = cpu_packed_b_provenance_v1 view"
  by (simp add: cpu_packed_b_provenance_v1_def)

lemma made_view_fields [simp]:
  fixes problem rhs packed storage elements
  defines "view \<equiv> cpu_make_packed_b_view_v1 problem rhs packed storage elements"
  shows "pbv_version view = 1" "pbv_struct_size view = 80" "pbv_source_data view = rhs"
    "pbv_packed_data view = packed" "pbv_storage_bytes view = storage"
    "pbv_packed_elements view = elements" "pbv_k view = prob_k problem"
    "pbv_n view = prob_n problem" "pbv_kc view = 256" "pbv_nc view = 256" "pbv_nr view = 16"
    "pbv_reserved0 view = 0"
  by (simp_all add: view_def cpu_make_packed_b_view_v1_def Let_def packed_constants
      sizeof_packed_b_view_def default_packed_b_view_def)

lemma made_view_provenance [simp]:
  "pbv_provenance (cpu_make_packed_b_view_v1 problem rhs packed storage elements) =
   cpu_packed_b_provenance_v1 (cpu_make_packed_b_view_v1 problem rhs packed storage elements)"
  by (simp only: cpu_make_packed_b_view_v1_def Let_def provenance_update) simp

lemma made_view_metadata:
  "cpu_validate_packed_b_view_metadata_v1 problem
     (cpu_make_packed_b_view_v1 problem rhs packed storage elements) required_bytes
     required_elements \<longleftrightarrow>
   rhs \<noteq> 0 \<and> packed \<noteq> 0 \<and> packed mod 64 = 0 \<and> required_bytes \<le> storage \<and>
   elements = required_elements"
  unfolding cpu_validate_packed_b_view_metadata_v1_def made_view_fields made_view_provenance
  by (simp add: packed_constants sizeof_packed_b_view_def)

text \<open>What preparation accepts, and the view it makes.\<close>

lemma prepare_validation:
  "cpu_validate_prepare_packed_b_avx2_v1 problem rhs storage storage_bytes = Inr view \<longleftrightarrow>
     packed_problem problem \<and> b_image_total problem < 2 ^ 64 \<and>
     placed rhs (rhs_bytes problem) \<and>
     unat (prob_minimum_alignment_bytes problem) dvd unat rhs \<and>
     workspace_ok storage storage_bytes (b_image_total problem) \<and>
     disjoint_ranges rhs (rhs_bytes problem) storage (b_image_total problem) \<and>
     view = cpu_make_packed_b_view_v1 problem rhs storage storage_bytes
       (of_nat (b_image_elements problem))"
proof (cases "packed_problem problem \<and> b_image_total problem < 2 ^ 64")
  case True
  then have ok: "packed_problem problem" and fits: "b_image_total problem < 2 ^ 64" by simp_all
  have req: "cpu_packed_avx2_prepacked_b_requirements_v1 problem = Inr
      (default_packed_requirements
              \<lparr>preq_mode := transient_a_with_prepacked_b,
               preq_total_bytes := of_nat (b_image_total problem),
               preq_packed_b_bytes := of_nat (b_image_elements problem * 4)\<rparr>)"
    using ok fits by (simp add: prepacked_requirements validate_problem_exact)
  have total: "0 < b_image_total problem"
    using image_positive [OF ok] b_image_bounds(1) [of problem] by linarith
  have over: "overlaps (rhs_span_of problem rhs)
        \<lparr>span_begin = storage, span_end = storage + of_nat (b_image_total problem)\<rparr> \<longleftrightarrow>
      \<not> disjoint_ranges rhs (rhs_bytes problem) storage (b_image_total problem)"
    if "placed rhs (rhs_bytes problem)" "placed storage (b_image_total problem)"
    using that tensor_bytes_positive(2) [OF ok] tensor_sizes(2) [OF ok] total
      image_words(3) [OF fits]
    unfolding tensor_span_def disjoint_ranges_def
    by (subst overlaps_disjoint) auto
  show ?thesis
    unfolding cpu_validate_prepare_packed_b_avx2_v1_def req and_then_simps result_simps
      declared_alignment [OF ok] make_matrix_span_Some make_span_Some tensor_span_def [symmetric]
    using ok fits over
    by (auto simp: image_words [OF fits] workspace_ok_def placed_def word_le_nat_alt packed_constants
        pointer_has_alignment_iff simp del: of_nat_mult)
next
  case False
  then show ?thesis
    by (auto simp: cpu_validate_prepare_packed_b_avx2_v1_def prepacked_requirements
        validate_problem_exact result_simps split: if_splits)
qed
section \<open>Properties\<close>

text \<open>C38: The workspace query answers exactly for the well-formed problems: an f32 row-major problem with
  a power-of-two alignment of at least 4, positive dimensions and tensors whose byte sizes fit 64 bits.
  It then reports the panel of A at offset 0, the panel of B (transient mode) at the first 64-byte boundary
  after it, and as the total the end of the last panel rounded up to 64 bytes, neither more nor less: at
  most 384 KiB, as the comment on the block sizes says, and no overflow is possible.\<close>

theorem packed_requirements_exact:
  "case cpu_packed_avx2_workspace_requirements_v1 problem mode of
     Inl status \<Rightarrow>
       \<not> (mode \<in> {transient_a_and_b, transient_a_with_prepacked_b} \<and> packed_problem problem) \<and>
       status \<in> {pst_invalid_problem, pst_arithmetic_overflow}
   | Inr r \<Rightarrow> packed_problem problem \<and> preq_mode r = mode \<and> preq_alignment_bytes r = 64 \<and>
       preq_packed_a_offset r = 0 \<and> unat (preq_packed_a_bytes r) = a_panel_bytes problem \<and>
       unat (preq_packed_b_bytes r) = (if mode = transient_a_and_b then b_panel_bytes problem else 0) \<and>
       (if mode = transient_a_and_b
        then unat (preq_packed_b_offset r) = round_up (a_panel_bytes problem) 64 \<and>
             unat (preq_total_bytes r) =
               round_up (unat (preq_packed_b_offset r) + b_panel_bytes problem) 64 \<and>
             unat (preq_packed_a_bytes r) \<le> unat (preq_packed_b_offset r) \<and>
             64 dvd unat (preq_packed_b_offset r) \<and>
             unat (preq_packed_b_offset r) + unat (preq_packed_b_bytes r) \<le> unat (preq_total_bytes r)
        else unat (preq_packed_b_offset r) = 0 \<and>
             unat (preq_total_bytes r) = round_up (a_panel_bytes problem) 64 \<and>
             unat (preq_packed_a_bytes r) \<le> unat (preq_total_bytes r)) \<and>
       64 dvd unat (preq_total_bytes r) \<and> unat (preq_total_bytes r) \<le> 384 * 1024"
proof (cases "cpu_packed_avx2_workspace_requirements_v1 problem mode")
  case (Inl s)
  then show ?thesis
    by (auto simp: cpu_packed_avx2_workspace_requirements_v1_def execution_requirements
        validate_problem_exact result_simps split: if_splits)
next
  case (Inr r)
  have words: "unat (of_nat (a_panel_bytes problem) :: u64) = a_panel_bytes problem"
    "unat (of_nat (b_panel_bytes problem) :: u64) = b_panel_bytes problem"
    "unat (of_nat (b_panel_offset problem) :: u64) = b_panel_offset problem"
    using panel_bounds [of problem] workspace_bounds(1) [of problem] by (simp_all add: unat_of_nat64)
  have "64 dvd workspace_total problem mode" "64 dvd b_panel_offset problem"
    by (simp_all add: workspace_total_def b_panel_offset_def round_up_bounds(3))
  moreover have "mode = transient_a_and_b \<or> mode = transient_a_with_prepacked_b" "packed_problem problem"
    using Inr by (simp_all only: requirements_Inr)
  moreover have "r = default_packed_requirements
               \<lparr>preq_mode := mode, preq_total_bytes := of_nat (workspace_total problem mode),
                preq_packed_a_bytes := of_nat (a_panel_bytes problem),
                preq_packed_b_offset :=
                  (if mode = transient_a_and_b then of_nat (b_panel_offset problem) else 0),
                preq_packed_b_bytes :=
                  (if mode = transient_a_and_b then of_nat (b_panel_bytes problem) else 0)\<rparr>"
    using Inr by (simp only: requirements_Inr)
  moreover have "round_up (a_panel_bytes problem) 64 = b_panel_offset problem"
    "round_up (b_panel_offset problem + b_panel_bytes problem) 64 = workspace_total problem transient_a_and_b"
    "workspace_total problem transient_a_with_prepacked_b = b_panel_offset problem"
    by (simp_all add: b_panel_offset_def workspace_total_def)
  ultimately show ?thesis
    using workspace_bounds [of problem] unfolding Inr sum.case
    by (elim disjE) (simp_all add: words unat_workspace_total default_packed_requirements_def
        packed_constants)
qed

text \<open>C23: A transient execution is accepted exactly when the problem is well formed, the three tensors
  are placed with the declared alignment and their byte sizes inside the address space, the output
  shares no byte with an input, and the workspace is 64-byte aligned, large enough and shares no byte
  with any tensor.\<close>

theorem packed_validation_exact:
  "cpu_validate_packed_avx2_v1 problem lhs rhs out workspace workspace_bytes = Inr () \<longleftrightarrow>
     packed_problem problem \<and> tensors_ok problem lhs rhs out \<and>
     workspace_ok workspace workspace_bytes (workspace_total problem transient_a_and_b) \<and>
     tensors_avoid problem lhs rhs out workspace (workspace_total problem transient_a_and_b)"
  by (rule packed_validation)

lemma prepared_view_ok:
  assumes "cpu_validate_prepare_packed_b_avx2_v1 problem rhs storage storage_bytes = Inr view"
    and "prob_k problem' = prob_k problem" "prob_n problem' = prob_n problem"
  shows "view_ok problem' view"
proof -
  have same: "b_image_total problem' = b_image_total problem"
    "b_image_elements problem' = b_image_elements problem" "rhs_bytes problem' = rhs_bytes problem"
    using assms(2,3) by (simp_all add: b_image_total_def b_image_elements_def)
  have p: "packed_problem problem" "b_image_total problem < 2 ^ 64" "placed rhs (rhs_bytes problem)"
    "workspace_ok storage storage_bytes (b_image_total problem)"
    "disjoint_ranges rhs (rhs_bytes problem) storage (b_image_total problem)"
    "view = cpu_make_packed_b_view_v1 problem rhs storage storage_bytes
       (of_nat (b_image_elements problem))"
    using assms(1) by (simp_all add: prepare_validation)
  have "disjoint_ranges rhs (rhs_bytes problem) storage (b_image_elements problem * 4)"
    using p(5) b_image_bounds(1) [of problem] by (auto simp: disjoint_ranges_def bytes_at_def)
  moreover have "placed storage (b_image_elements problem * 4)"
    using p(4) b_image_bounds(1) [of problem] by (auto simp: workspace_ok_def placed_def)
  moreover have "cpu_validate_packed_b_view_metadata_v1 problem' view
      (of_nat (b_image_total problem)) (of_nat (b_image_elements problem))"
  proof -
    have "unat (storage mod 64) = 0"
      using p(4) by (simp add: unat_mod workspace_ok_def)
    then have "storage mod 64 = 0" by (metis unat_eq_0)
    then have "cpu_validate_packed_b_view_metadata_v1 problem view
        (of_nat (b_image_total problem)) (of_nat (b_image_elements problem))"
      using p by (simp add: made_view_metadata workspace_ok_def placed_def word_le_nat_alt
          image_words(3))
    then show ?thesis
      using assms(2,3) by (simp add: cpu_validate_packed_b_view_metadata_v1_def)
  qed
  ultimately show ?thesis
    using p by (simp add: view_ok_def same)
qed

text \<open>C39: A view returned by the preparation check is accepted later by every well-formed problem with
  the same depth and number of columns, whatever its number of rows, and by no other.\<close>

theorem prepared_view_reusable:
  assumes "cpu_validate_prepare_packed_b_avx2_v1 problem rhs storage storage_bytes = Inr view"
    and "packed_problem problem'"
  shows "(\<exists>spans. validate_prepacked_view problem' view = Inr spans) \<longleftrightarrow>
    prob_k problem' = prob_k problem \<and> prob_n problem' = prob_n problem"
proof -
  have "view = cpu_make_packed_b_view_v1 problem rhs storage storage_bytes
      (of_nat (b_image_elements problem))"
    using assms(1) by (simp add: prepare_validation)
  then have "view_ok problem' view \<Longrightarrow> prob_k problem' = prob_k problem \<and> prob_n problem' = prob_n problem"
    by (simp add: view_ok_def cpu_validate_packed_b_view_metadata_v1_def)
  then show ?thesis
    using prepared_view_ok [OF assms(1), of problem'] assms(2)
    by (auto simp: validate_prepacked_view_Inr)
qed

definition packed_example :: CpuGemmProblemV1 where
  "packed_example = \<lparr>prob_m = 5, prob_n = 17, prob_k = 3, prob_element_type = scalar_f32,
     prob_accumulation_type = scalar_f32, prob_layout = layout_row_major_contiguous,
     prob_minimum_alignment_bytes = 4\<rparr>"

lemma packed_example_ok: "packed_problem (packed_example\<lparr>prob_m := 5\<rparr>)" "packed_problem packed_example"
  by (auto simp: packed_problem_def packed_example_def intro!: exI [of _ 2])

lemma packed_example_prepared:
  "cpu_validate_prepare_packed_b_avx2_v1 packed_example 4096 8192 384 =
     Inr (cpu_make_packed_b_view_v1 packed_example 4096 8192 384 96)"
  unfolding prepare_validation
  using packed_example_ok
  by (simp add: packed_example_def b_image_total_def b_image_elements_def round_up_def placed_def
      workspace_ok_def disjoint_ranges_def bytes_at_def)

theorem prepared_view_reusable_witness:
  "(\<exists>spans. validate_prepacked_view packed_example
      (cpu_make_packed_b_view_v1 packed_example 4096 8192 384 96) = Inr spans)"
  using prepared_view_reusable [OF packed_example_prepared packed_example_ok(2)] by simp

end
