(* ===== verification/PackedKernels.thy ===== *)
theory PackedKernels
  imports PackedLayout GemmKernels
begin

text \<open>
  Packing and the register-tile kernels of \<^verbatim>\<open>runtime/cpu_packed_b_format.h\<close>,
  \<^verbatim>\<open>cpu_packed_avx2.cpp\<close> and \<^verbatim>\<open>cpu_packed_avx512.cpp\<close>. A \<^verbatim>\<open>float\<close> is a value of an arbitrary type
  with a zero and one fused operation \<open>fma a b c\<close> (the instruction \<^verbatim>\<open>vfmadd\<close>, rounded once); no
  law about them is used. Tensors, panels and outputs live in one flat memory of floats, and a
  \<^verbatim>\<open>float *\<close> is the number of its slot, so that overlapping buffers would really overlap here; only
  the edge buffer, a local array of the microkernels, is a memory of its own. A vector register is a
  list of lanes.

  Slots and indices are natural numbers: validation keeps every tensor and panel inside the 64-bit
  address space, so no index computation of the code wraps.
\<close>

record 'f fma_ops =
  fm_zero :: 'f
  fm_fma :: "'f \<Rightarrow> 'f \<Rightarrow> 'f \<Rightarrow> 'f"

type_synonym 'f fmem = "nat \<Rightarrow> 'f"

section \<open>Packing\<close>

text \<open>\<^verbatim>\<open>packed[destination++] = value\<close>, where the value may be read from memory.\<close>

definition emit :: "nat \<Rightarrow> ('f fmem \<Rightarrow> 'f) \<Rightarrow> 'f fmem \<times> nat \<Rightarrow> 'f fmem \<times> nat" where
  "emit packed v st = (let (mem, destination) = st
     in (mem(packed + destination := v mem), destination + 1))"

definition pack_a_block ::
  "'f fma_ops \<Rightarrow> nat \<Rightarrow> nat \<Rightarrow> nat \<Rightarrow> nat \<Rightarrow> nat \<Rightarrow> nat \<Rightarrow> nat \<Rightarrow> 'f fmem \<Rightarrow> 'f fmem" where
  "pack_a_block F lhs leading_dimension row_begin k_begin rows depth packed_a mem =
    (let padded_rows = (case checked_round_up (of_nat rows) kCpuPackedGemmMrV1 of
                          Some padded \<Rightarrow> unat padded | None \<Rightarrow> 0)
     in fst (fold (\<lambda>row. fold (\<lambda>p. fold (\<lambda>lane.
          emit packed_a (\<lambda>mem.
            if row + lane < rows
            then mem (lhs + ((row_begin + row + lane) * leading_dimension + k_begin + p))
            else fm_zero F))
          [0..<4]) [0..<depth]) (strided 0 4 padded_rows) (mem, 0)))"

definition cpu_pack_b_block_v1 ::
  "'f fma_ops \<Rightarrow> nat \<Rightarrow> nat \<Rightarrow> nat \<Rightarrow> nat \<Rightarrow> nat \<Rightarrow> nat \<Rightarrow> nat \<Rightarrow> 'f fmem \<Rightarrow> 'f fmem \<times> nat" where
  "cpu_pack_b_block_v1 F rhs leading_dimension k_begin column_begin depth columns packed_b mem =
    (let padded_columns = (columns div 16 + (if columns mod 16 \<noteq> 0 then 1 else 0)) * 16
     in fold (\<lambda>column. fold (\<lambda>p. fold (\<lambda>lane.
          emit packed_b (\<lambda>mem.
            if column + lane < columns
            then mem (rhs + ((k_begin + p) * leading_dimension + column_begin + column + lane))
            else fm_zero F))
          [0..<16]) [0..<depth]) (strided 0 16 padded_columns) (mem, 0))"

definition cpu_pack_b_column_panel_v1 ::
  "'f fma_ops \<Rightarrow> nat \<Rightarrow> nat \<Rightarrow> nat \<Rightarrow> nat \<Rightarrow> nat \<Rightarrow> nat \<Rightarrow> 'f fmem \<Rightarrow> 'f fmem \<times> nat" where
  "cpu_pack_b_column_panel_v1 F rhs leading_dimension k column_begin columns packed_destination mem =
     fold (\<lambda>k_begin (mem, packed_elements).
         let depth = min 256 (k - k_begin);
             (mem, written) = cpu_pack_b_block_v1 F rhs leading_dimension k_begin column_begin depth
               columns (packed_destination + packed_elements) mem
         in (mem, packed_elements + written))
       (strided 0 256 k) (mem, 0)"

section \<open>Vector registers\<close>

definition loadu :: "nat \<Rightarrow> 'f fmem \<Rightarrow> nat \<Rightarrow> 'f list" where
  "loadu lanes mem at = map (\<lambda>l. mem (at + l)) [0..<lanes]"

definition storeu :: "nat \<Rightarrow> 'f list \<Rightarrow> 'f fmem \<Rightarrow> 'f fmem" where
  "storeu at v mem = fold (\<lambda>l mem. mem(at + l := v ! l)) [0..<length v] mem"

definition broadcast :: "nat \<Rightarrow> 'f \<Rightarrow> 'f list" where
  "broadcast lanes x = replicate lanes x"

definition fmadd :: "'f fma_ops \<Rightarrow> 'f list \<Rightarrow> 'f list \<Rightarrow> 'f list \<Rightarrow> 'f list" where
  "fmadd F a b c = map (\<lambda>l. fm_fma F (a ! l) (b ! l) (c ! l)) [0..<length c]"

section \<open>The AVX2 kernels (cpu_packed_avx2.cpp)\<close>

definition compute_avx2_4x16_full_tile ::
  "'f fma_ops \<Rightarrow> 'f fmem \<Rightarrow> nat \<Rightarrow> nat \<Rightarrow> nat \<Rightarrow> nat \<Rightarrow> nat \<Rightarrow> bool \<Rightarrow> 'f fmem \<Rightarrow> 'f fmem" where
  "compute_avx2_4x16_full_tile F ws packed_a packed_b k output_at output_stride accumulate out =
    (let zero = broadcast 8 (fm_zero F);
         load = (\<lambda>at. if accumulate then loadu 8 out at else zero);
         c00 = load output_at;
         c01 = load (output_at + 8);
         c10 = load (output_at + output_stride);
         c11 = load (output_at + output_stride + 8);
         c20 = load (output_at + 2 * output_stride);
         c21 = load (output_at + 2 * output_stride + 8);
         c30 = load (output_at + 3 * output_stride);
         c31 = load (output_at + 3 * output_stride + 8);
         (c00, c01, c10, c11, c20, c21, c30, c31) =
           fold (\<lambda>p (c00, c01, c10, c11, c20, c21, c30, c31).
             let b0 = loadu 8 ws (packed_b + p * 16);
                 b1 = loadu 8 ws (packed_b + p * 16 + 8);
                 a = packed_a + p * 4;
                 a0 = broadcast 8 (ws a);
                 a1 = broadcast 8 (ws (a + 1));
                 a2 = broadcast 8 (ws (a + 2));
                 a3 = broadcast 8 (ws (a + 3))
             in (fmadd F a0 b0 c00, fmadd F a0 b1 c01, fmadd F a1 b0 c10, fmadd F a1 b1 c11,
                 fmadd F a2 b0 c20, fmadd F a2 b1 c21, fmadd F a3 b0 c30, fmadd F a3 b1 c31))
           [0..<k] (c00, c01, c10, c11, c20, c21, c30, c31);
         out = storeu output_at c00 out;
         out = storeu (output_at + 8) c01 out;
         out = storeu (output_at + output_stride) c10 out;
         out = storeu (output_at + output_stride + 8) c11 out;
         out = storeu (output_at + 2 * output_stride) c20 out;
         out = storeu (output_at + 2 * output_stride + 8) c21 out;
         out = storeu (output_at + 3 * output_stride) c30 out
     in storeu (output_at + 3 * output_stride + 8) c31 out)"

definition matcore_cpu_packed_avx2_4x16_full_microkernel_f32_v2 ::
  "'f fma_ops \<Rightarrow> 'f fmem \<Rightarrow> nat \<Rightarrow> nat \<Rightarrow> nat \<Rightarrow> nat \<Rightarrow> nat \<Rightarrow> bool \<Rightarrow> 'f fmem \<Rightarrow> 'f fmem" where
  "matcore_cpu_packed_avx2_4x16_full_microkernel_f32_v2 F ws packed_a packed_b k output_at
       output_stride accumulate out =
     compute_avx2_4x16_full_tile F ws packed_a packed_b k output_at output_stride accumulate out"

text \<open>The copies between the output and the edge buffer, which holds a tile with row stride 16.\<close>

definition load_edge :: "nat \<Rightarrow> nat \<Rightarrow> nat \<Rightarrow> nat \<Rightarrow> 'f fmem \<Rightarrow> 'f fmem \<Rightarrow> 'f fmem" where
  "load_edge output_at output_stride rows columns out edge =
     fold (\<lambda>row. fold (\<lambda>column edge. edge(row * 16 + column := out (output_at + row * output_stride + column)))
       [0..<columns]) [0..<rows] edge"

definition store_edge :: "nat \<Rightarrow> nat \<Rightarrow> nat \<Rightarrow> nat \<Rightarrow> 'f fmem \<Rightarrow> 'f fmem \<Rightarrow> 'f fmem" where
  "store_edge output_at output_stride rows columns edge out =
     fold (\<lambda>row. fold (\<lambda>column out. out(output_at + row * output_stride + column := edge (row * 16 + column)))
       [0..<columns]) [0..<rows] out"

definition matcore_cpu_packed_avx2_4x16_microkernel_f32_v1 ::
  "'f fma_ops \<Rightarrow> 'f fmem \<Rightarrow> nat \<Rightarrow> nat \<Rightarrow> nat \<Rightarrow> nat \<Rightarrow> nat \<Rightarrow> nat \<Rightarrow> nat \<Rightarrow> bool \<Rightarrow> 'f fmem \<Rightarrow> 'f fmem" where
  "matcore_cpu_packed_avx2_4x16_microkernel_f32_v1 F ws packed_a packed_b k output_at output_stride
       rows columns accumulate out =
    (if k = 0 \<or> rows = 0 \<or> rows > 4 \<or> columns = 0 \<or> columns > 16 then out
     else if rows = 4 \<and> columns = 16
     then compute_avx2_4x16_full_tile F ws packed_a packed_b k output_at output_stride accumulate out
     else
       let edge = (\<lambda>_. fm_zero F);
           edge = (if accumulate then load_edge output_at output_stride rows columns out edge else edge);
           edge = compute_avx2_4x16_full_tile F ws packed_a packed_b k 0 16 accumulate edge
       in store_edge output_at output_stride rows columns edge out)"

definition compute_block ::
  "'f fma_ops \<Rightarrow> nat \<Rightarrow> nat \<Rightarrow> nat \<Rightarrow> nat \<Rightarrow> nat \<Rightarrow> nat \<Rightarrow> nat \<Rightarrow> nat \<Rightarrow> nat \<Rightarrow> nat \<Rightarrow> nat \<Rightarrow> nat \<Rightarrow>
   'f fmem \<Rightarrow> 'f fmem" where
  "compute_block F lda ldc lhs out row_begin column_begin k_begin rows columns depth packed_a
       packed_b mem =
    (let mem = pack_a_block F lhs lda row_begin k_begin rows depth packed_a mem
     in fold (\<lambda>row.
          let tile_rows = min 4 (rows - row);
              a_panel = packed_a + row div 4 * depth * 4
          in fold (\<lambda>column mem.
            let tile_columns = min 16 (columns - column);
                b_panel = packed_b + column div 16 * depth * 16
            in matcore_cpu_packed_avx2_4x16_microkernel_f32_v1 F mem a_panel b_panel depth
                 (out + (row_begin + row) * ldc + column_begin + column) ldc
                 tile_rows tile_columns (k_begin \<noteq> 0) mem)
            (strided 0 16 columns))
          (strided 0 4 rows) mem)"

section \<open>The AVX-512 kernels (cpu_packed_avx512.cpp)\<close>

definition matcore_internal_cpu_packed_avx512_4x32_full_microkernel_f32_m7 ::
  "'f fma_ops \<Rightarrow> 'f fmem \<Rightarrow> nat \<Rightarrow> nat \<Rightarrow> nat \<Rightarrow> nat \<Rightarrow> nat \<Rightarrow> nat \<Rightarrow> bool \<Rightarrow> 'f fmem \<Rightarrow> 'f fmem" where
  "matcore_internal_cpu_packed_avx512_4x32_full_microkernel_f32_m7 F ws packed_a packed_b0 packed_b1
       k output_at output_stride accumulate out =
    (let zero = broadcast 16 (fm_zero F);
         load = (\<lambda>at. if accumulate then loadu 16 out at else zero);
         c00 = load output_at;
         c01 = load (output_at + 16);
         c10 = load (output_at + output_stride);
         c11 = load (output_at + output_stride + 16);
         c20 = load (output_at + 2 * output_stride);
         c21 = load (output_at + 2 * output_stride + 16);
         c30 = load (output_at + 3 * output_stride);
         c31 = load (output_at + 3 * output_stride + 16);
         (c00, c01, c10, c11, c20, c21, c30, c31) =
           fold (\<lambda>p (c00, c01, c10, c11, c20, c21, c30, c31).
             let b0 = loadu 16 ws (packed_b0 + p * 16);
                 b1 = loadu 16 ws (packed_b1 + p * 16);
                 a = packed_a + p * 4;
                 a0 = broadcast 16 (ws a);
                 a1 = broadcast 16 (ws (a + 1));
                 a2 = broadcast 16 (ws (a + 2));
                 a3 = broadcast 16 (ws (a + 3))
             in (fmadd F a0 b0 c00, fmadd F a0 b1 c01, fmadd F a1 b0 c10, fmadd F a1 b1 c11,
                 fmadd F a2 b0 c20, fmadd F a2 b1 c21, fmadd F a3 b0 c30, fmadd F a3 b1 c31))
           [0..<k] (c00, c01, c10, c11, c20, c21, c30, c31);
         out = storeu output_at c00 out;
         out = storeu (output_at + 16) c01 out;
         out = storeu (output_at + output_stride) c10 out;
         out = storeu (output_at + output_stride + 16) c11 out;
         out = storeu (output_at + 2 * output_stride) c20 out;
         out = storeu (output_at + 2 * output_stride + 16) c21 out;
         out = storeu (output_at + 3 * output_stride) c30 out
     in storeu (output_at + 3 * output_stride + 16) c31 out)"

text \<open>The tile of the checked AVX-512 kernel: \<^verbatim>\<open>tile\<close> is the output or the edge buffer.\<close>

definition avx512_4x16_tile ::
  "'f fma_ops \<Rightarrow> 'f fmem \<Rightarrow> nat \<Rightarrow> nat \<Rightarrow> nat \<Rightarrow> nat \<Rightarrow> nat \<Rightarrow> bool \<Rightarrow> 'f fmem \<Rightarrow> 'f fmem" where
  "avx512_4x16_tile F ws packed_a packed_b k tile_at tile_stride accumulate tile =
    (let zero = broadcast 16 (fm_zero F);
         load = (\<lambda>at. if accumulate then loadu 16 tile at else zero);
         c0 = load tile_at;
         c1 = load (tile_at + tile_stride);
         c2 = load (tile_at + 2 * tile_stride);
         c3 = load (tile_at + 3 * tile_stride);
         (c0, c1, c2, c3) =
           fold (\<lambda>p (c0, c1, c2, c3).
             let b = loadu 16 ws (packed_b + p * 16);
                 a = packed_a + p * 4
             in (fmadd F (broadcast 16 (ws a)) b c0, fmadd F (broadcast 16 (ws (a + 1))) b c1,
                 fmadd F (broadcast 16 (ws (a + 2))) b c2, fmadd F (broadcast 16 (ws (a + 3))) b c3))
           [0..<k] (c0, c1, c2, c3);
         tile = storeu tile_at c0 tile;
         tile = storeu (tile_at + tile_stride) c1 tile;
         tile = storeu (tile_at + 2 * tile_stride) c2 tile
     in storeu (tile_at + 3 * tile_stride) c3 tile)"

definition matcore_cpu_packed_avx512_4x16_microkernel_f32_v1 ::
  "'f fma_ops \<Rightarrow> 'f fmem \<Rightarrow> nat \<Rightarrow> nat \<Rightarrow> nat \<Rightarrow> nat \<Rightarrow> nat \<Rightarrow> nat \<Rightarrow> nat \<Rightarrow> bool \<Rightarrow> 'f fmem \<Rightarrow> 'f fmem" where
  "matcore_cpu_packed_avx512_4x16_microkernel_f32_v1 F ws packed_a packed_b k output_at output_stride
       rows columns accumulate out =
    (if k = 0 \<or> rows = 0 \<or> rows > 4 \<or> columns = 0 \<or> columns > 16 then out
     else
       let edge = (\<lambda>_. fm_zero F);
           complete_tile = (rows = 4 \<and> columns = 16);
           edge = (if \<not> complete_tile \<and> accumulate
                   then load_edge output_at output_stride rows columns out edge else edge);
           tile = (if complete_tile then out else edge);
           tile_at = (if complete_tile then output_at else 0);
           tile_stride = (if complete_tile then output_stride else 16);
           tile = avx512_4x16_tile F ws packed_a packed_b k tile_at tile_stride accumulate tile
       in if complete_tile then tile
          else store_edge output_at output_stride rows columns tile out)"

definition compute_block_avx512 ::
  "'f fma_ops \<Rightarrow> nat \<Rightarrow> nat \<Rightarrow> nat \<Rightarrow> nat \<Rightarrow> nat \<Rightarrow> nat \<Rightarrow> nat \<Rightarrow> nat \<Rightarrow> nat \<Rightarrow> nat \<Rightarrow> nat \<Rightarrow> nat \<Rightarrow>
   'f fmem \<Rightarrow> 'f fmem" where
  "compute_block_avx512 F lda ldc lhs out row_begin column_begin k_begin rows columns depth packed_a
       packed_b mem =
    (let mem = pack_a_block F lhs lda row_begin k_begin rows depth packed_a mem
     in fold (\<lambda>row mem.
          let tile_rows = min 4 (rows - row);
              a_panel = packed_a + row div 4 * depth * 4;
              pairs = (if tile_rows = 4 then strided 0 32 (columns - 31) else []);
              mem = fold (\<lambda>column mem.
                let b_panel0 = packed_b + column div 16 * depth * 16;
                    b_panel1 = b_panel0 + depth * 16
                in matcore_internal_cpu_packed_avx512_4x32_full_microkernel_f32_m7 F mem a_panel
                     b_panel0 b_panel1 depth
                     (out + (row_begin + row) * ldc + column_begin + column) ldc (k_begin \<noteq> 0) mem)
                pairs mem
          in fold (\<lambda>column mem.
            let tile_columns = min 16 (columns - column);
                b_panel = packed_b + column div 16 * depth * 16
            in matcore_cpu_packed_avx512_4x16_microkernel_f32_v1 F mem a_panel b_panel depth
                 (out + (row_begin + row) * ldc + column_begin + column) ldc
                 tile_rows tile_columns (k_begin \<noteq> 0) mem)
            (strided (length pairs * 32) 16 columns) mem)
          (strided 0 4 rows) mem)"

section \<open>Regions of memory\<close>

definition agree :: "nat set \<Rightarrow> 'f fmem \<Rightarrow> 'f fmem \<Rightarrow> bool" where
  "agree R m m' \<longleftrightarrow> (\<forall>x. x \<notin> R \<longrightarrow> m' x = m x)"

lemma agree_refl [simp]: "agree R m m"
  by (simp add: agree_def)

lemma agreeD: "agree R m m' \<Longrightarrow> x \<notin> R \<Longrightarrow> m' x = m x"
  by (simp add: agree_def)

lemma agree_sym: "agree R m m' \<Longrightarrow> agree R m' m"
  by (simp add: agree_def)

lemma agree_trans: "agree R m m' \<Longrightarrow> agree R m' m'' \<Longrightarrow> agree R m m''"
  by (simp add: agree_def)

lemma agree_mono: "agree R m m' \<Longrightarrow> R \<subseteq> S \<Longrightarrow> agree S m m'"
  by (auto simp: agree_def)

definition panel :: "nat \<Rightarrow> nat \<Rightarrow> nat set" where
  "panel at len = {at..<at + len}"

lemma panel_mono: "len \<le> len' \<Longrightarrow> panel at len \<subseteq> panel at len'"
  by (auto simp: panel_def)

section \<open>Writers of consecutive slots\<close>

text \<open>\<open>writes orig base room W len f\<close>: started at any position that leaves room in the panel, \<open>W\<close>
  writes the \<open>len\<close> values \<open>f 0, f 1, ...\<close> from there on, as long as memory outside the panel is that
  of \<open>orig\<close> (from which the values are read).\<close>

definition writes ::
  "'f fmem \<Rightarrow> nat \<Rightarrow> nat \<Rightarrow> ('f fmem \<times> nat \<Rightarrow> 'f fmem \<times> nat) \<Rightarrow> nat \<Rightarrow> (nat \<Rightarrow> 'f) \<Rightarrow> bool" where
  "writes orig base room W len f \<longleftrightarrow>
     (\<forall>m d. agree (panel base room) orig m \<longrightarrow> d + len \<le> room \<longrightarrow>
        snd (W (m, d)) = d + len \<and>
        (\<forall>x. fst (W (m, d)) x =
           (if base + d \<le> x \<and> x < base + d + len then f (x - (base + d)) else m x)))"

lemma writes_emit:
  assumes "\<And>m. agree (panel base room) orig m \<Longrightarrow> v m = w"
  shows "writes orig base room (emit base v) 1 (\<lambda>_. w)"
  using assms by (auto simp: writes_def emit_def Let_def)

lemma writes_nil: "writes orig base room (\<lambda>s. s) 0 f"
  by (auto simp: writes_def)

lemma writes_seq:
  assumes W: "writes orig base room W len f" and V: "writes orig base room V len' g"
    and h: "\<And>x. h x = (if x < len then f x else g (x - len))"
  shows "writes orig base room (\<lambda>s. V (W s)) (len + len') h"
  unfolding writes_def
proof (intro allI impI)
  fix m d
  assume m: "agree (panel base room) orig m" and d: "d + (len + len') \<le> room"
  have 1: "snd (W (m, d)) = d + len"
    "\<And>x. fst (W (m, d)) x = (if base + d \<le> x \<and> x < base + d + len then f (x - (base + d)) else m x)"
    using W m d by (auto simp: writes_def)
  have "agree (panel base room) orig (fst (W (m, d)))"
    using m d by (auto simp: agree_def panel_def 1(2))
  then have "snd (V (fst (W (m, d)), d + len)) = d + len + len' \<and>
      (\<forall>x. fst (V (fst (W (m, d)), d + len)) x =
         (if base + (d + len) \<le> x \<and> x < base + (d + len) + len' then g (x - (base + (d + len)))
          else fst (W (m, d)) x))"
    using V d by (simp add: writes_def)
  moreover have "W (m, d) = (fst (W (m, d)), d + len)"
    using 1(1) by (simp add: prod_eq_iff)
  ultimately show "snd (V (W (m, d))) = d + (len + len') \<and>
      (\<forall>x. fst (V (W (m, d))) x =
         (if base + d \<le> x \<and> x < base + d + (len + len') then h (x - (base + d)) else m x))"
    using 1(2) by (auto simp: h add.assoc)
qed

lemma writes_fold:
  assumes "0 < len" and W: "\<And>i. i < q \<Longrightarrow> writes orig base room (W i) len (f i)"
  shows "writes orig base room (fold W [0..<q]) (q * len) (\<lambda>x. f (x div len) (x mod len))"
  using W
proof (induction q)
  case 0
  show ?case by (simp add: writes_nil id_def)
next
  case (Suc q)
  define h where "h = (\<lambda>x. if x < q * len then f (x div len) (x mod len) else f q (x - q * len))"
  have "writes orig base room (\<lambda>s. W q (fold W [0..<q] s)) (q * len + len) h"
    using Suc by (intro writes_seq [of _ _ _ "fold W [0..<q]" "q * len"
        "\<lambda>x. f (x div len) (x mod len)" "W q" len "f q"]) (simp_all add: h_def)
  moreover have "h x = f (x div len) (x mod len)" if "x < q * len + len" for x
  proof (cases "x < q * len")
    case False
    define y where "y = x - q * len"
    have "x = y + q * len" "y < len" using False that by (auto simp: y_def)
    then show ?thesis using assms(1) by (simp add: h_def)
  qed (simp add: h_def)
  ultimately show ?case
    by (auto simp: writes_def comp_def add.commute)
qed

lemma strided_multiple: "0 < q \<Longrightarrow> strided (q * a) q (q * b) = map (\<lambda>i. q * i) [a..<b]"
proof (induction "b - a" arbitrary: a)
  case 0
  then show ?case by (subst strided.simps) simp
next
  case (Suc c)
  then have "strided (q * Suc a) q (q * b) = map (\<lambda>i. q * i) [Suc a..<b]" by (intro Suc.hyps) simp_all
  then have "strided (q * a + q) q (q * b) = map (\<lambda>i. q * i) [Suc a..<b]"
    by (simp add: add.commute)
  then show ?case
    using Suc by (subst strided.simps) (simp add: upt_conv_Cons)
qed

lemma fold_strided_multiple: "0 < q \<Longrightarrow> fold f (strided 0 q (b * q)) = fold (\<lambda>i. f (q * i)) [0..<b]"
  using strided_multiple [of q 0 b] by (simp add: mult.commute fold_map comp_def)

section \<open>The packed panels\<close>

text \<open>A panel of micro-panels of width \<open>w\<close>: element \<open>(t, p, l)\<close> is lane \<open>l\<close> at depth \<open>p\<close> of
  micro-panel \<open>t\<close>.\<close>

definition panel_value :: "nat \<Rightarrow> nat \<Rightarrow> (nat \<Rightarrow> nat \<Rightarrow> 'f) \<Rightarrow> nat \<Rightarrow> 'f" where
  "panel_value w depth f x = f (w * (x div (depth * w)) + x mod (depth * w) mod w)
     (x mod (depth * w) div w)"

lemma panel_value_at:
  assumes "p < depth" "l < w"
  shows "panel_value w depth f (t * depth * w + p * w + l) = f (w * t + l) p"
proof -
  have pl: "p * w + l < depth * w"
  proof -
    have "p * w + l < Suc p * w" using assms(2) by simp
    also have "\<dots> \<le> depth * w" using assms(1) by (intro mult_le_mono1) simp
    finally show ?thesis .
  qed
  have x: "t * depth * w + p * w + l = (p * w + l) + t * (depth * w)"
    by (simp add: algebra_simps)
  have "(r + t * N) div N = t" "(r + t * N) mod N = r" if "r < N" for r N :: nat
    using that by simp_all
  from this [OF pl] show ?thesis
    using assms unfolding panel_value_def x by simp
qed

text \<open>The three nested packing loops, for any width.\<close>

lemma packing_loops:
  assumes "0 < w" "0 < depth" and v: "\<And>m i p. i < q * w \<Longrightarrow> p < depth \<Longrightarrow>
      agree (panel base (q * depth * w)) orig m \<Longrightarrow> v i p m = f i p"
  shows "writes orig base (q * depth * w)
    (fold (\<lambda>i. fold (\<lambda>p. fold (\<lambda>l. emit base (v (i + l) p)) [0..<w]) [0..<depth])
       (strided 0 w (q * w))) (q * (depth * w)) (panel_value w depth f)"
proof -
  let ?W = "writes orig base (q * depth * w)"
  have "?W (emit base (v (w * t + l) p)) 1 (\<lambda>_. f (w * t + l) p)"
    if "t < q" "p < depth" "l < w" for t p l
  proof (rule writes_emit)
    fix m assume "agree (panel base (q * depth * w)) orig m"
    moreover have "w * t + l < q * w"
    proof -
      have "w * t + l < w * Suc t" using that(3) by simp
      also have "\<dots> \<le> w * q" using that(1) by (intro mult_le_mono2) simp
      finally show ?thesis by (simp add: mult.commute)
    qed
    ultimately show "v (w * t + l) p m = f (w * t + l) p" using v that(2) by blast
  qed
  then have "?W (fold (\<lambda>l. emit base (v (w * t + l) p)) [0..<w]) (w * 1) (\<lambda>x. f (w * t + x div 1) p)"
    if "t < q" "p < depth" for t p
    using that by (intro writes_fold [where f = "\<lambda>l _. f (w * t + l) p"]) auto
  then have "?W (fold (\<lambda>p. fold (\<lambda>l. emit base (v (w * t + l) p)) [0..<w]) [0..<depth]) (depth * w)
      (\<lambda>x. f (w * t + x mod w) (x div w))" if "t < q" for t
    using that assms(1) by (intro writes_fold [where f = "\<lambda>p x. f (w * t + x) p"]) auto
  then have "?W (fold (\<lambda>t. fold (\<lambda>p. fold (\<lambda>l. emit base (v (w * t + l) p)) [0..<w]) [0..<depth]) [0..<q])
      (q * (depth * w)) (\<lambda>x. f (w * (x div (depth * w)) + x mod (depth * w) mod w)
        (x mod (depth * w) div w))"
    using assms(1,2) by (intro writes_fold [where f = "\<lambda>t x. f (w * t + x mod w) (x div w)"]) auto
  then show ?thesis
    unfolding fold_strided_multiple [OF assms(1)] panel_value_def [abs_def] .
qed
lemma round_up_quotient:
  assumes "0 < w"
  shows "round_up v w = (v div w + (if v mod w \<noteq> 0 then 1 else 0)) * w"
proof -
  have "v + (w - v mod w) = v div w * w + w"
    using assms mod_less_divisor [OF assms, of v] div_mult_mod_eq [of v w] by linarith
  then show ?thesis
    using assms by (auto simp: round_up_cases add_mult_distrib)
qed

lemma writes_panel:
  assumes "writes m base room W room f"
  shows "fst (W (m, 0)) x = (if x \<in> panel base room then f (x - base) else m x)"
    "snd (W (m, 0)) = room"
  using assms by (auto simp: writes_def panel_def)

definition a_values ::
  "'f fma_ops \<Rightarrow> 'f fmem \<Rightarrow> nat \<Rightarrow> nat \<Rightarrow> nat \<Rightarrow> nat \<Rightarrow> nat \<Rightarrow> nat \<Rightarrow> nat \<Rightarrow> 'f" where
  "a_values F m lhs leading_dimension row_begin k_begin rows i p =
     (if i < rows then m (lhs + ((row_begin + i) * leading_dimension + k_begin + p)) else fm_zero F)"

lemma pack_a_effect:
  assumes "0 < depth" "rows < 2 ^ 63"
    and apart: "\<And>i p. i < rows \<Longrightarrow> p < depth \<Longrightarrow>
      lhs + ((row_begin + i) * lda + k_begin + p) \<notin> panel pa (round_up rows 4 * depth)"
  shows "pack_a_block F lhs lda row_begin k_begin rows depth pa m x =
    (if x \<in> panel pa (round_up rows 4 * depth)
     then panel_value 4 depth (a_values F m lhs lda row_begin k_begin rows) (x - pa) else m x)"
proof -
  have r: "unat (of_nat rows :: u64) = rows" using assms(2) by (intro unat_of_nat64) simp
  have lt: "round_up rows 4 < 2 ^ 64" using round_up_bounds(2) [of 4 rows] assms(2) by simp
  then have "checked_round_up (of_nat rows) 4 = Some (of_nat (round_up rows 4))"
    using round_up_word [of 4 "of_nat rows"] r by simp
  moreover have "unat (of_nat (round_up rows 4) :: u64) = round_up rows 4"
    using lt by (intro unat_of_nat64) simp
  ultimately have padded: "(case checked_round_up (of_nat rows) kCpuPackedGemmMrV1 of
      Some padded \<Rightarrow> unat padded | None \<Rightarrow> 0) = round_up rows 4"
    by (simp add: packed_constants)
  define q where "q = rows div 4 + (if rows mod 4 \<noteq> 0 then 1 else 0)"
  have q: "round_up rows 4 = q * 4" by (simp add: round_up_quotient q_def)
  have v: "(if i < rows then mem (lhs + ((row_begin + i) * lda + k_begin + p)) else fm_zero F) =
      a_values F m lhs lda row_begin k_begin rows i p"
    if "p < depth" "agree (panel pa (q * depth * 4)) m mem" for mem i p
    using that(2) apart [OF _ that(1), of i] q
    by (simp add: a_values_def agree_def ac_simps)
  have "writes m pa (q * depth * 4) (fold (\<lambda>row. fold (\<lambda>p. fold (\<lambda>lane.
          emit pa (\<lambda>mem.
            if row + lane < rows
            then mem (lhs + ((row_begin + row + lane) * lda + k_begin + p))
            else fm_zero F)) [0..<4]) [0..<depth]) (strided 0 4 (q * 4)))
      (q * (depth * 4)) (panel_value 4 depth (a_values F m lhs lda row_begin k_begin rows))"
    using packing_loops [where w = 4 and q = q, OF _ assms(1) v]
    by (simp add: add.assoc mult.commute mult.left_commute cong: if_cong)
  then have "writes m pa (round_up rows 4 * depth) (fold (\<lambda>row. fold (\<lambda>p. fold (\<lambda>lane.
          emit pa (\<lambda>mem.
            if row + lane < rows
            then mem (lhs + ((row_begin + row + lane) * lda + k_begin + p))
            else fm_zero F)) [0..<4]) [0..<depth]) (strided 0 4 (round_up rows 4)))
      (round_up rows 4 * depth) (panel_value 4 depth (a_values F m lhs lda row_begin k_begin rows))"
    by (simp add: q ac_simps)
  from writes_panel(1) [OF this] show ?thesis
    by (simp add: pack_a_block_def padded)
qed

definition b_values ::
  "'f fma_ops \<Rightarrow> 'f fmem \<Rightarrow> nat \<Rightarrow> nat \<Rightarrow> nat \<Rightarrow> nat \<Rightarrow> nat \<Rightarrow> nat \<Rightarrow> nat \<Rightarrow> 'f" where
  "b_values F m rhs leading_dimension k_begin column_begin columns j p =
     (if j < columns then m (rhs + ((k_begin + p) * leading_dimension + column_begin + j)) else fm_zero F)"

lemma pack_b_effect:
  fixes F :: "'f fma_ops" and m :: "'f fmem"
  assumes "0 < depth"
    and apart: "\<And>j p. j < columns \<Longrightarrow> p < depth \<Longrightarrow>
      rhs + ((k_begin + p) * ldb + column_begin + j) \<notin> panel pb (round_up columns 16 * depth)"
  defines "result \<equiv> cpu_pack_b_block_v1 F rhs ldb k_begin column_begin depth columns pb m"
  shows "fst result x =
    (if x \<in> panel pb (round_up columns 16 * depth)
     then panel_value 16 depth (b_values F m rhs ldb k_begin column_begin columns) (x - pb) else m x)"
    "snd result = round_up columns 16 * depth"
proof -
  define q where "q = columns div 16 + (if columns mod 16 \<noteq> 0 then 1 else 0)"
  have q: "round_up columns 16 = q * 16" by (simp add: round_up_quotient q_def)
  have v: "(if j < columns then mem (rhs + ((k_begin + p) * ldb + column_begin + j)) else fm_zero F) =
      b_values F m rhs ldb k_begin column_begin columns j p"
    if "p < depth" "agree (panel pb (q * depth * 16)) m mem" for mem j p
    using that(2) apart [OF _ that(1), of j] q
    by (simp add: b_values_def agree_def ac_simps)
  have "writes m pb (q * depth * 16) (fold (\<lambda>column. fold (\<lambda>p. fold (\<lambda>lane.
          emit pb (\<lambda>mem.
            if column + lane < columns
            then mem (rhs + ((k_begin + p) * ldb + column_begin + column + lane))
            else fm_zero F)) [0..<16]) [0..<depth]) (strided 0 16 (q * 16)))
      (q * (depth * 16)) (panel_value 16 depth (b_values F m rhs ldb k_begin column_begin columns))"
    using packing_loops [where w = 16 and q = q, OF _ assms(1) v]
    by (simp add: add.assoc mult.commute mult.left_commute cong: if_cong)
  then have "writes m pb (round_up columns 16 * depth) (fold (\<lambda>column. fold (\<lambda>p. fold (\<lambda>lane.
          emit pb (\<lambda>mem.
            if column + lane < columns
            then mem (rhs + ((k_begin + p) * ldb + column_begin + column + lane))
            else fm_zero F)) [0..<16]) [0..<depth]) (strided 0 16 (round_up columns 16)))
      (round_up columns 16 * depth)
      (panel_value 16 depth (b_values F m rhs ldb k_begin column_begin columns))"
    by (simp add: q ac_simps)
  from writes_panel [OF this]
  show "fst result x =
    (if x \<in> panel pb (round_up columns 16 * depth)
     then panel_value 16 depth (b_values F m rhs ldb k_begin column_begin columns) (x - pb) else m x)"
    "snd result = round_up columns 16 * depth"
    using q by (simp_all add: result_def cpu_pack_b_block_v1_def q_def Let_def)
qed

section \<open>Rectangles of the output\<close>

text \<open>\<open>rect at stride rlo rhi clo chi h m\<close>: in the matrix at slot \<open>at\<close> with that row stride, cell
  \<open>(i, j)\<close> of rows \<open>[rlo, rhi)\<close> and columns \<open>[clo, chi)\<close> is updated with \<open>h i j\<close>.\<close>

definition in_rect :: "nat \<Rightarrow> nat \<Rightarrow> nat \<Rightarrow> nat \<Rightarrow> nat \<Rightarrow> nat \<Rightarrow> nat \<Rightarrow> bool" where
  "in_rect at stride rlo rhi clo chi x \<longleftrightarrow> at \<le> x \<and>
     rlo \<le> (x - at) div stride \<and> (x - at) div stride < rhi \<and>
     clo \<le> (x - at) mod stride \<and> (x - at) mod stride < chi"

definition rect ::
  "nat \<Rightarrow> nat \<Rightarrow> nat \<Rightarrow> nat \<Rightarrow> nat \<Rightarrow> nat \<Rightarrow> (nat \<Rightarrow> nat \<Rightarrow> 'f \<Rightarrow> 'f) \<Rightarrow> 'f fmem \<Rightarrow> 'f fmem" where
  "rect at stride rlo rhi clo chi h m =
     (\<lambda>x. if in_rect at stride rlo rhi clo chi x
          then h ((x - at) div stride) ((x - at) mod stride) (m x) else m x)"

lemma in_rect_iff:
  assumes "chi \<le> stride"
  shows "in_rect at stride rlo rhi clo chi x \<longleftrightarrow>
    (\<exists>i j. rlo \<le> i \<and> i < rhi \<and> clo \<le> j \<and> j < chi \<and> x = at + i * stride + j)"
proof
  assume "in_rect at stride rlo rhi clo chi x"
  then show "\<exists>i j. rlo \<le> i \<and> i < rhi \<and> clo \<le> j \<and> j < chi \<and> x = at + i * stride + j"
    by (intro exI [of _ "(x - at) div stride"] exI [of _ "(x - at) mod stride"])
      (auto simp: in_rect_def)
next
  assume "\<exists>i j. rlo \<le> i \<and> i < rhi \<and> clo \<le> j \<and> j < chi \<and> x = at + i * stride + j"
  then show "in_rect at stride rlo rhi clo chi x"
    using assms by (auto simp: in_rect_def)
qed

lemma rect_at:
  assumes "j < stride"
  shows "rect at stride rlo rhi clo chi h m (at + i * stride + j) =
    (if rlo \<le> i \<and> i < rhi \<and> clo \<le> j \<and> j < chi then h i j (m (at + i * stride + j))
     else m (at + i * stride + j))"
  using assms by (simp add: rect_def in_rect_def)

lemma rect_outside: "\<not> in_rect at stride rlo rhi clo chi x \<Longrightarrow> rect at stride rlo rhi clo chi h m x = m x"
  by (simp add: rect_def)

lemma rect_empty [simp]:
  "rect at stride r r clo chi h m = m" "rect at stride rlo rhi c c h m = m"
  by (auto simp: rect_def in_rect_def fun_eq_iff)

lemma rect_join_rows:
  "rlo \<le> r \<Longrightarrow> r \<le> rhi \<Longrightarrow>
   rect at stride r rhi clo chi h (rect at stride rlo r clo chi h m) = rect at stride rlo rhi clo chi h m"
  by (auto simp: rect_def in_rect_def fun_eq_iff)

lemma rect_join_columns:
  "clo \<le> c \<Longrightarrow> c \<le> chi \<Longrightarrow>
   rect at stride rlo rhi c chi h (rect at stride rlo rhi clo c h m) = rect at stride rlo rhi clo chi h m"
  by (auto simp: rect_def in_rect_def fun_eq_iff)

lemma rect_comp:
  "rect at stride rlo rhi clo chi g (rect at stride rlo rhi clo chi h m) =
   rect at stride rlo rhi clo chi (\<lambda>i j v. g i j (h i j v)) m"
  by (auto simp: rect_def)

lemma rect_cong:
  assumes "\<And>i j v. rlo \<le> i \<Longrightarrow> i < rhi \<Longrightarrow> clo \<le> j \<Longrightarrow> j < chi \<Longrightarrow> g i j v = h i j v"
  shows "rect at stride rlo rhi clo chi g m = rect at stride rlo rhi clo chi h m"
  using assms by (auto simp: rect_def in_rect_def fun_eq_iff)

text \<open>The same rectangle, seen from another origin in the matrix.\<close>

lemma rect_shift:
  assumes "c + chi \<le> stride" "0 < stride"
  shows "rect (at + r * stride + c) stride rlo rhi clo chi h m =
    rect at stride (r + rlo) (r + rhi) (c + clo) (c + chi) (\<lambda>i j. h (i - r) (j - c)) m"
proof
  fix x
  have chi: "chi \<le> stride" using assms(1) by simp
  show "rect (at + r * stride + c) stride rlo rhi clo chi h m x =
    rect at stride (r + rlo) (r + rhi) (c + clo) (c + chi) (\<lambda>i j. h (i - r) (j - c)) m x"
  proof (cases "in_rect (at + r * stride + c) stride rlo rhi clo chi x")
    case True
    then obtain i j where ij: "rlo \<le> i" "i < rhi" "clo \<le> j" "j < chi" "x = at + r * stride + c + i * stride + j"
      unfolding in_rect_iff [OF chi] by blast
    have x: "x = at + (r + i) * stride + (c + j)" using ij(5) by (simp add: algebra_simps)
    have "rect (at + r * stride + c) stride rlo rhi clo chi h m x = h i j (m x)"
      using ij assms(1) rect_at [of j stride "at + r * stride + c" rlo rhi clo chi h m i] by simp
    moreover have "rect at stride (r + rlo) (r + rhi) (c + clo) (c + chi)
        (\<lambda>i j. h (i - r) (j - c)) m x = h i j (m x)"
      unfolding x using ij(1-4) assms(1) by (subst rect_at) simp_all
    ultimately show ?thesis by simp
  next
    case False
    have "\<not> in_rect at stride (r + rlo) (r + rhi) (c + clo) (c + chi) x"
    proof
      assume "in_rect at stride (r + rlo) (r + rhi) (c + clo) (c + chi) x"
      then obtain i j where ij: "r + rlo \<le> i" "i < r + rhi" "c + clo \<le> j" "j < c + chi"
        "x = at + i * stride + j"
        unfolding in_rect_iff [OF assms(1)] by blast
      have "x = at + r * stride + c + (i - r) * stride + (j - c)"
        using ij by (simp add: diff_mult_distrib trans_le_add1)
      moreover have "rlo \<le> i - r" "i - r < rhi" "clo \<le> j - c" "j - c < chi" using ij by auto
      ultimately show False using False unfolding in_rect_iff [OF chi] by blast
    qed
    then show ?thesis using False by (simp add: rect_outside)
  qed
qed

lemma rect_agree:
  "agree R m m' \<Longrightarrow> agree R (rect at stride rlo rhi clo chi h m) (rect at stride rlo rhi clo chi h m')"
  by (simp add: agree_def rect_def)

lemma agree_rect:
  "(\<And>x. in_rect at stride rlo rhi clo chi x \<Longrightarrow> x \<in> R) \<Longrightarrow> agree R m (rect at stride rlo rhi clo chi h m)"
  by (auto simp: agree_def rect_def)
section \<open>The register tiles\<close>

text \<open>What a kernel computes for cell \<open>(i, j)\<close> of its tile: the products of a row of A and a column of
  B, added in increasing depth to the old value or to zero.\<close>

definition tile_value ::
  "'f fma_ops \<Rightarrow> 'f fmem \<Rightarrow> nat \<Rightarrow> nat \<Rightarrow> nat \<Rightarrow> bool \<Rightarrow> nat \<Rightarrow> nat \<Rightarrow> 'f \<Rightarrow> 'f" where
  "tile_value F w a b k accumulate i j v =
     fold (\<lambda>p. fm_fma F (w (a + p * 4 + i)) (w (b + p * 16 + j))) [0..<k]
       (if accumulate then v else fm_zero F)"

lemma length_loadu [simp]: "length (loadu lanes m at) = lanes"
  by (simp add: loadu_def)

lemma length_broadcast [simp]: "length (broadcast lanes x) = lanes"
  by (simp add: broadcast_def)

lemma nth_broadcast [simp]: "l < lanes \<Longrightarrow> broadcast lanes x ! l = x"
  by (simp add: broadcast_def)

lemma nth_loadu [simp]: "l < lanes \<Longrightarrow> loadu lanes m at ! l = m (at + l)"
  by (simp add: loadu_def)

lemma storeu_apply:
  "storeu at v m x = (if at \<le> x \<and> x < at + length v then v ! (x - at) else m x)"
proof -
  have "fold (\<lambda>l mem. mem(at + l := v ! l)) [0..<n] m x =
      (if at \<le> x \<and> x < at + n then v ! (x - at) else m x)" for n
    by (induction n) auto
  then show ?thesis by (simp add: storeu_def)
qed

lemma fmadd_fold:
  "length (fold (\<lambda>p. fmadd F (f p) (g p)) ps c) = length c"
  "l < length c \<Longrightarrow> fold (\<lambda>p. fmadd F (f p) (g p)) ps c ! l =
     fold (\<lambda>p. fm_fma F (f p ! l) (g p ! l)) ps (c ! l)"
  by (induction ps arbitrary: c) (auto simp: fmadd_def)

lemma fold_pair4:
  "fold (\<lambda>p (c0, c1, c2, c3). (f0 p c0, f1 p c1, f2 p c2, f3 p c3)) ps (z0, z1, z2, z3) =
   (fold f0 ps z0, fold f1 ps z1, fold f2 ps z2, fold f3 ps z3)"
  by (induction ps arbitrary: z0 z1 z2 z3) auto

lemma fold_pair8:
  "fold (\<lambda>p (c0, c1, c2, c3, c4, c5, c6, c7).
     (f0 p c0, f1 p c1, f2 p c2, f3 p c3, f4 p c4, f5 p c5, f6 p c6, f7 p c7)) ps
     (z0, z1, z2, z3, z4, z5, z6, z7) =
   (fold f0 ps z0, fold f1 ps z1, fold f2 ps z2, fold f3 ps z3,
    fold f4 ps z4, fold f5 ps z5, fold f6 ps z6, fold f7 ps z7)"
  by (induction ps arbitrary: z0 z1 z2 z3 z4 z5 z6 z7) auto

text \<open>The accumulator of row \<open>i\<close> and vector \<open>h\<close> of the row, and the stores of all of them.\<close>

definition accumulator ::
  "'f fma_ops \<Rightarrow> nat \<Rightarrow> 'f fmem \<Rightarrow> nat \<Rightarrow> (nat \<Rightarrow> nat) \<Rightarrow> nat \<Rightarrow> nat \<Rightarrow> nat \<Rightarrow> bool \<Rightarrow> 'f fmem \<Rightarrow> nat \<Rightarrow> nat \<Rightarrow> 'f list" where
  "accumulator F lanes w a b k at stride accumulate m i h =
     fold (\<lambda>p. fmadd F (broadcast lanes (w (a + p * 4 + i))) (loadu lanes w (b h + p * 16))) [0..<k]
       (if accumulate then loadu lanes m (at + i * stride + h * lanes) else broadcast lanes (fm_zero F))"

definition store_tile :: "nat \<Rightarrow> nat \<Rightarrow> nat \<Rightarrow> nat \<Rightarrow> (nat \<Rightarrow> nat \<Rightarrow> 'f list) \<Rightarrow> 'f fmem \<Rightarrow> 'f fmem" where
  "store_tile lanes vectors at stride V =
     fold (\<lambda>i. fold (\<lambda>h. storeu (at + i * stride + h * lanes) (V i h)) [0..<vectors]) [0..<4]"

lemma store_row:
  assumes "\<And>h. h < n \<Longrightarrow> length (V h) = lanes" "0 < lanes"
  shows "fold (\<lambda>h. storeu (at + h * lanes) (V h)) [0..<n] m x =
    (if at \<le> x \<and> x < at + n * lanes then V ((x - at) div lanes) ! ((x - at) mod lanes) else m x)"
  using assms(1)
proof (induction n)
  case (Suc n)
  have len: "length (V n) = lanes" using Suc.prems by simp
  have IH: "fold (\<lambda>h. storeu (at + h * lanes) (V h)) [0..<n] m x =
    (if at \<le> x \<and> x < at + n * lanes then V ((x - at) div lanes) ! ((x - at) mod lanes) else m x)"
    using Suc by simp
  show ?case
  proof (cases "at + n * lanes \<le> x \<and> x < at + n * lanes + lanes")
    case True
    define y where "y = x - (at + n * lanes)"
    have "x - at = y + n * lanes" "y < lanes" using True by (auto simp: y_def)
    then have "(x - at) div lanes = n" "(x - at) mod lanes = y"
      using assms(2) by simp_all
    then show ?thesis
      using True by (simp add: storeu_apply len flip: y_def)
  next
    case False
    then have "storeu (at + n * lanes) (V n) (fold (\<lambda>h. storeu (at + h * lanes) (V h)) [0..<n] m) x =
        fold (\<lambda>h. storeu (at + h * lanes) (V h)) [0..<n] m x"
      by (auto simp: storeu_apply len)
    with IH False show ?thesis by auto
  qed
qed auto

lemma store_tile_rect:
  assumes V: "\<And>i h. h < vectors \<Longrightarrow> length (V i h) = lanes" and "0 < lanes" "vectors * lanes \<le> stride"
  shows "store_tile lanes vectors at stride V m =
    rect at stride 0 4 0 (vectors * lanes) (\<lambda>i j v. V i (j div lanes) ! (j mod lanes)) m"
proof -
  let ?h = "\<lambda>i j v. V i (j div lanes) ! (j mod lanes)"
  have row: "fold (\<lambda>h. storeu (at + i * stride + h * lanes) (V i h)) [0..<vectors] m =
      rect at stride i (Suc i) 0 (vectors * lanes) ?h m" for i and m :: "'a fmem"
  proof
    fix x
    show "fold (\<lambda>h. storeu (at + i * stride + h * lanes) (V i h)) [0..<vectors] m x =
      rect at stride i (Suc i) 0 (vectors * lanes) ?h m x"
    proof (cases "at + i * stride \<le> x \<and> x < at + i * stride + vectors * lanes")
      case True
      define j where "j = x - (at + i * stride)"
      have j: "x = at + i * stride + j" "j < vectors * lanes" using True by (auto simp: j_def)
      show ?thesis
        unfolding j(1) using j(2) V assms(2,3) by (subst store_row) (simp_all add: rect_at)
    next
      case False
      then have "\<not> in_rect at stride i (Suc i) 0 (vectors * lanes) x"
        unfolding in_rect_iff [OF assms(3)] by (auto simp: le_less_Suc_eq)
      then show ?thesis
        using False V assms(2) by (subst store_row) (auto simp: rect_outside)
    qed
  qed
  have "fold (\<lambda>i. fold (\<lambda>h. storeu (at + i * stride + h * lanes) (V i h)) [0..<vectors]) [0..<n] m =
      rect at stride 0 n 0 (vectors * lanes) ?h m" for n
    by (induction n) (simp_all add: row rect_join_rows)
  then show ?thesis by (simp add: store_tile_def)
qed

lemma accumulator_tile:
  assumes "0 < lanes" "vectors * lanes \<le> stride"
    and b: "\<And>p j. j < vectors * lanes \<Longrightarrow> w (b (j div lanes) + p * 16 + j mod lanes) = B p j"
  shows "store_tile lanes vectors at stride (accumulator F lanes w a b k at stride accumulate m) m =
    rect at stride 0 4 0 (vectors * lanes)
      (\<lambda>i j v. fold (\<lambda>p. fm_fma F (w (a + p * 4 + i)) (B p j)) [0..<k]
        (if accumulate then v else fm_zero F)) m"
proof -
  have len: "length (accumulator F lanes w a b k at stride accumulate m i h) = lanes" for i h
    by (simp add: accumulator_def fmadd_fold)
  have lane: "accumulator F lanes w a b k at stride accumulate m i (j div lanes) ! (j mod lanes) =
      fold (\<lambda>p. fm_fma F (w (a + p * 4 + i)) (B p j)) [0..<k]
        (if accumulate then m (at + i * stride + j) else fm_zero F)"
    if "j < vectors * lanes" for i j
  proof -
    have l: "j mod lanes < lanes" using assms(1) by simp
    have "at + i * stride + j div lanes * lanes + j mod lanes = at + i * stride + j"
      by (simp add: add.assoc)
    then show ?thesis
      using l b [OF that] by (simp add: accumulator_def fmadd_fold ac_simps)
  qed
  show ?thesis
  proof
    fix x
    show "store_tile lanes vectors at stride (accumulator F lanes w a b k at stride accumulate m) m x =
      rect at stride 0 4 0 (vectors * lanes)
      (\<lambda>i j v. fold (\<lambda>p. fm_fma F (w (a + p * 4 + i)) (B p j)) [0..<k]
        (if accumulate then v else fm_zero F)) m x"
      unfolding store_tile_rect [OF len assms(1,2)]
    proof (cases "in_rect at stride 0 4 0 (vectors * lanes) x")
      case True
      then obtain i j where "i < 4" "j < vectors * lanes" "x = at + i * stride + j"
        unfolding in_rect_iff [OF assms(2)] by blast
      then show "rect at stride 0 4 0 (vectors * lanes) (\<lambda>i j v.
            accumulator F lanes w a b k at stride accumulate m i (j div lanes) ! (j mod lanes)) m x =
          rect at stride 0 4 0 (vectors * lanes)
            (\<lambda>i j v. fold (\<lambda>p. fm_fma F (w (a + p * 4 + i)) (B p j)) [0..<k]
              (if accumulate then v else fm_zero F)) m x"
        using assms(2) lane by (simp add: rect_at)
    qed (simp add: rect_outside)
  qed
qed
lemma upt4: "[0..<4] = [0, 1, 2, 3::nat]" and upt2: "[0..<2] = [0, 1::nat]" and upt1: "[0..<1] = [0::nat]"
  by (simp_all add: upt_rec)

lemma avx2_full_tile:
  assumes "16 \<le> stride"
  shows "compute_avx2_4x16_full_tile F w a b k at stride accumulate m =
    rect at stride 0 4 0 16 (tile_value F w a b k accumulate) m"
proof -
  have "compute_avx2_4x16_full_tile F w a b k at stride accumulate m =
      store_tile 8 2 at stride (accumulator F 8 w a (\<lambda>h. b + h * 8) k at stride accumulate m) m"
    unfolding compute_avx2_4x16_full_tile_def Let_def fold_pair8 store_tile_def accumulator_def upt4 upt2
    by (simp add: ac_simps)
  also have "\<dots> = rect at stride 0 4 0 16 (tile_value F w a b k accumulate) m"
  proof -
    have "b + j div 8 * 8 + p * 16 + j mod 8 = b + p * 16 + j" for p j :: nat
      using div_mult_mod_eq [of j 8] by linarith
    then have lanes: "w (b + j div 8 * 8 + p * 16 + j mod 8) = w (b + p * 16 + j)" for p j
      by (rule arg_cong)
    then show ?thesis
      using accumulator_tile [where lanes = 8 and vectors = 2 and stride = stride and w = w
          and b = "\<lambda>h. b + h * 8" and B = "\<lambda>p j. w (b + p * 16 + j)", OF _ _ lanes] assms
      by (simp add: tile_value_def [abs_def])
  qed
  finally show ?thesis .
qed

lemma avx512_tile:
  assumes "16 \<le> stride"
  shows "avx512_4x16_tile F w a b k at stride accumulate m =
    rect at stride 0 4 0 16 (tile_value F w a b k accumulate) m"
proof -
  have "avx512_4x16_tile F w a b k at stride accumulate m =
      store_tile 16 1 at stride (accumulator F 16 w a (\<lambda>h. b) k at stride accumulate m) m"
    unfolding avx512_4x16_tile_def Let_def fold_pair4 store_tile_def accumulator_def upt4 upt1
    by (simp add: ac_simps)
  also have "\<dots> = rect at stride 0 4 0 16 (tile_value F w a b k accumulate) m"
    using accumulator_tile [where lanes = 16 and vectors = 1 and stride = stride and w = w
          and b = "\<lambda>h. b" and B = "\<lambda>p j. w (b + p * 16 + j)"] assms
    by (simp add: tile_value_def [abs_def])
  finally show ?thesis .
qed

text \<open>The 4x32 tile reads two neighbouring micro-panels.\<close>

lemma avx512_wide_tile:
  assumes "32 \<le> stride"
  shows "matcore_internal_cpu_packed_avx512_4x32_full_microkernel_f32_m7 F w a b0 b1 k at stride
      accumulate m =
    rect at stride 0 4 0 32 (\<lambda>i j. if j < 16 then tile_value F w a b0 k accumulate i j
      else tile_value F w a b1 k accumulate i (j - 16)) m"
proof -
  let ?b = "\<lambda>h::nat. if h = 0 then b0 else b1"
  have "matcore_internal_cpu_packed_avx512_4x32_full_microkernel_f32_m7 F w a b0 b1 k at stride
        accumulate m =
      store_tile 16 2 at stride (accumulator F 16 w a ?b k at stride accumulate m) m"
    unfolding matcore_internal_cpu_packed_avx512_4x32_full_microkernel_f32_m7_def Let_def fold_pair8
      store_tile_def accumulator_def upt4 upt2
    by (simp add: ac_simps)
  also have "\<dots> = rect at stride 0 4 0 32 (\<lambda>i j v. fold (\<lambda>p. fm_fma F (w (a + p * 4 + i))
      (if j < 16 then w (b0 + p * 16 + j) else w (b1 + p * 16 + (j - 16)))) [0..<k]
        (if accumulate then v else fm_zero F)) m"
  proof -
    have "w (?b (j div 16) + p * 16 + j mod 16) =
        (if j < 16 then w (b0 + p * 16 + j) else w (b1 + p * 16 + (j - 16)))"
      if "j < 2 * 16" for p j
    proof (cases "j < 16")
      case False
      then have "j div 16 = 1" "j mod 16 = j - 16"
        using that by (simp_all add: div_eq_dividend_iff le_div_geq le_mod_geq)
      then show ?thesis using False by simp
    qed simp
    from accumulator_tile [where lanes = 16 and vectors = 2 and stride = stride and w = w and b = ?b
        and B = "\<lambda>p j. if j < 16 then w (b0 + p * 16 + j) else w (b1 + p * 16 + (j - 16))",
        OF _ _ this] show ?thesis
      using assms by simp
  qed
  also have "\<dots> = rect at stride 0 4 0 32 (\<lambda>i j. if j < 16 then tile_value F w a b0 k accumulate i j
      else tile_value F w a b1 k accumulate i (j - 16)) m"
    by (rule rect_cong) (simp add: tile_value_def)
  finally show ?thesis .
qed

text \<open>The edge buffer: what it holds after the load, and the store of its rectangle.\<close>

lemma rect_one:
  assumes "j < stride"
  shows "rect at stride i (Suc i) j (Suc j) h m = m(at + i * stride + j := h i j (m (at + i * stride + j)))"
proof
  fix x
  have "in_rect at stride i (Suc i) j (Suc j) x \<longleftrightarrow> x = at + i * stride + j"
    using assms by (subst in_rect_iff) (auto simp: le_less_Suc_eq)
  then show "rect at stride i (Suc i) j (Suc j) h m x =
      (m(at + i * stride + j := h i j (m (at + i * stride + j)))) x"
    using assms by (cases "x = at + i * stride + j") (simp_all add: rect_at rect_outside)
qed

text \<open>Two nested loops that overwrite the cells of a rectangle, one by one.\<close>

lemma overwrite_loops:
  assumes "columns \<le> stride"
  shows "fold (\<lambda>i. fold (\<lambda>j m. m(at + i * stride + j := f i j)) [0..<columns]) [0..<rows] m =
    rect at stride 0 rows 0 columns (\<lambda>i j _. f i j) m"
proof -
  have row: "fold (\<lambda>j m. m(at + i * stride + j := f i j)) [0..<c] m =
      rect at stride i (Suc i) 0 c (\<lambda>i j _. f i j) m" if "c \<le> stride" for i c m
    using that
  proof (induction c)
    case (Suc c)
    have "fold (\<lambda>j m. m(at + i * stride + j := f i j)) [0..<Suc c] m =
        (rect at stride i (Suc i) 0 c (\<lambda>i j _. f i j) m)(at + i * stride + c := f i c)"
      by (simp only: upt_Suc_append fold_append fold.simps comp_apply id_apply le0
          Suc.IH [OF Suc_leD [OF Suc.prems]])
    also have "\<dots> = rect at stride i (Suc i) c (Suc c) (\<lambda>i j _. f i j)
        (rect at stride i (Suc i) 0 c (\<lambda>i j _. f i j) m)"
      using Suc.prems by (simp add: rect_one del: fun_upd_apply)
    finally show ?case by (simp only: rect_join_columns le0 lessI less_imp_le)
  qed simp
  show ?thesis
    by (induction rows) (simp_all add: row [OF assms] rect_join_rows del: fun_upd_apply)
qed

lemma load_edge_rect:
  "columns \<le> 16 \<Longrightarrow> load_edge at stride rows columns m e =
    rect 0 16 0 rows 0 columns (\<lambda>i j _. m (at + i * stride + j)) e"
  using overwrite_loops [of columns 16 0 "\<lambda>i j. m (at + i * stride + j)" rows e]
  by (simp add: load_edge_def del: fun_upd_apply)

lemma store_edge_rect:
  "columns \<le> stride \<Longrightarrow> store_edge at stride rows columns e m =
    rect at stride 0 rows 0 columns (\<lambda>i j _. e (i * 16 + j)) m"
  by (simp add: store_edge_def overwrite_loops del: fun_upd_apply)
text \<open>Both checked kernels update exactly their rectangle, complete tile or edge.\<close>

lemma through_edge:
  assumes "rows \<le> 4" "columns \<le> 16" "columns \<le> stride"
  shows "store_edge at stride rows columns
      (rect 0 16 0 4 0 16 (tile_value F w a b k accumulate)
        (if accumulate then load_edge at stride rows columns m (\<lambda>_. fm_zero F) else (\<lambda>_. fm_zero F))) m =
    rect at stride 0 rows 0 columns (tile_value F w a b k accumulate) m"
    (is "store_edge _ _ _ _ (rect _ _ _ _ _ _ _ ?e) _ = _")
proof -
  let ?t = "tile_value F w a b k accumulate"
  have e: "rect 0 16 0 4 0 16 ?t ?e (i * 16 + j) = ?t i j (m (at + i * stride + j))"
    if "i < rows" "j < columns" for i j
  proof -
    have "rect 0 16 0 4 0 16 ?t ?e (0 + i * 16 + j) = ?t i j (?e (0 + i * 16 + j))"
      using that assms by (subst rect_at) auto
    moreover have "?t i j (?e (0 + i * 16 + j)) = ?t i j (m (at + i * stride + j))"
    proof (cases accumulate)
      case True
      have "load_edge at stride rows columns m (\<lambda>_. fm_zero F) (0 + i * 16 + j) = m (at + i * stride + j)"
        unfolding load_edge_rect [OF assms(2)] using that assms by (subst rect_at) auto
      then show ?thesis using True by simp
    qed (simp add: tile_value_def)
    ultimately show ?thesis by simp
  qed
  show ?thesis
    unfolding store_edge_rect [OF assms(3)]
  proof
    fix x
    show "rect at stride 0 rows 0 columns (\<lambda>i j _. rect 0 16 0 4 0 16 ?t ?e (i * 16 + j)) m x =
        rect at stride 0 rows 0 columns ?t m x"
    proof (cases "in_rect at stride 0 rows 0 columns x")
      case True
      then obtain i j where ij: "i < rows" "j < columns" "x = at + i * stride + j"
        unfolding in_rect_iff [OF assms(3)] by blast
      then show ?thesis using assms(3) e by (simp add: rect_at)
    qed (simp add: rect_outside)
  qed
qed

text \<open>The contract of a checked 4x16 microkernel.\<close>

locale tile_kernel =
  fixes microkernel :: "'f fma_ops \<Rightarrow> 'f fmem \<Rightarrow> nat \<Rightarrow> nat \<Rightarrow> nat \<Rightarrow> nat \<Rightarrow> nat \<Rightarrow> nat \<Rightarrow> nat \<Rightarrow> bool \<Rightarrow>
    'f fmem \<Rightarrow> 'f fmem"
  assumes tile: "0 < k \<Longrightarrow> 0 < rows \<Longrightarrow> rows \<le> 4 \<Longrightarrow> 0 < columns \<Longrightarrow> columns \<le> 16 \<Longrightarrow> columns \<le> stride \<Longrightarrow>
    microkernel F w a b k at stride rows columns accumulate m =
      rect at stride 0 rows 0 columns (tile_value F w a b k accumulate) m"

lemma avx2_microkernel:
  assumes "0 < k" "0 < rows" "rows \<le> 4" "0 < columns" "columns \<le> 16" "columns \<le> stride"
  shows "matcore_cpu_packed_avx2_4x16_microkernel_f32_v1 F w a b k at stride rows columns accumulate m =
    rect at stride 0 rows 0 columns (tile_value F w a b k accumulate) m"
proof (cases "rows = 4 \<and> columns = 16")
  case True
  with assms show ?thesis
    by (simp add: matcore_cpu_packed_avx2_4x16_microkernel_f32_v1_def avx2_full_tile)
next
  case False
  with assms show ?thesis
    using through_edge [OF assms(3,5,6), of at F w a b k accumulate m]
    by (auto simp: matcore_cpu_packed_avx2_4x16_microkernel_f32_v1_def avx2_full_tile Let_def)
qed

lemma avx512_microkernel:
  assumes "0 < k" "0 < rows" "rows \<le> 4" "0 < columns" "columns \<le> 16" "columns \<le> stride"
  shows "matcore_cpu_packed_avx512_4x16_microkernel_f32_v1 F w a b k at stride rows columns accumulate m =
    rect at stride 0 rows 0 columns (tile_value F w a b k accumulate) m"
proof (cases "rows = 4 \<and> columns = 16")
  case True
  with assms show ?thesis
    by (simp add: matcore_cpu_packed_avx512_4x16_microkernel_f32_v1_def avx512_tile Let_def)
next
  case False
  with assms show ?thesis
    using through_edge [OF assms(3,5,6), of at F w a b k accumulate m]
    by (auto simp: matcore_cpu_packed_avx512_4x16_microkernel_f32_v1_def avx512_tile Let_def)
qed

interpretation avx2: tile_kernel matcore_cpu_packed_avx2_4x16_microkernel_f32_v1
  by unfold_locales (rule avx2_microkernel)

interpretation avx512: tile_kernel matcore_cpu_packed_avx512_4x16_microkernel_f32_v1
  by unfold_locales (rule avx512_microkernel)
section \<open>Strided loops over blocks\<close>

text \<open>A strided loop whose body does, up to \<open>R\<close>, the work of the range \<open>[x, min (x + step) bound)\<close>
  does the work of the whole range.\<close>

lemma fold_strided_join:
  assumes step: "0 < step"
    and refl: "\<And>m. R m m" and trans: "\<And>m m' m''. R m m' \<Longrightarrow> R m' m'' \<Longrightarrow> R m m''"
    and cong: "\<And>x y m m'. R m m' \<Longrightarrow> R (E x y m) (E x y m')"
    and body: "\<And>x m. x < bound \<Longrightarrow> step dvd x \<Longrightarrow> ok x m \<Longrightarrow> R (E x (min (x + step) bound) m) (f x m)"
    and keep: "\<And>x m. x < bound \<Longrightarrow> step dvd x \<Longrightarrow> ok x m \<Longrightarrow> ok (min (x + step) bound) (f x m)"
    and join: "\<And>x y m. x < y \<Longrightarrow> y < bound \<Longrightarrow> step dvd x \<Longrightarrow> step dvd y \<Longrightarrow>
      E y bound (E x y m) = E x bound m"
    and unit: "\<And>m. E bound bound m = m"
    and lo: "lo \<le> bound" "step dvd lo" and m: "ok lo m"
  shows "R (E lo bound m) (fold f (strided lo step bound) m)"
  using lo m
proof (induction "bound - lo" arbitrary: lo m rule: less_induct)
  case less
  show ?case
  proof (cases "lo < bound")
    case True
    have f: "R (E lo (min (lo + step) bound) m) (f lo m)" "ok (min (lo + step) bound) (f lo m)"
      using True less.prems by (auto intro: body keep)
    have unfold: "strided lo step bound = lo # strided (lo + step) step bound"
      using True step by (subst strided.simps) simp
    show ?thesis
    proof (cases "lo + step < bound")
      case inner: True
      have "R (E (lo + step) bound (f lo m)) (fold f (strided (lo + step) step bound) (f lo m))"
        using inner step f(2) less.prems by (intro less.hyps) auto
      moreover have "R (E (lo + step) bound (E lo (lo + step) m)) (E (lo + step) bound (f lo m))"
        using f(1) inner by (intro cong) simp
      ultimately have "R (E (lo + step) bound (E lo (lo + step) m))
          (fold f (strided (lo + step) step bound) (f lo m))"
        by (rule trans [rotated])
      then show ?thesis
        using join [of lo "lo + step" m] inner step less.prems(2) by (simp add: unfold)
    next
      case False
      then have "strided (lo + step) step bound = []" by (subst strided.simps) simp
      then show ?thesis using f(1) False by (simp add: unfold)
    qed
  next
    case False
    then have "strided lo step bound = []" by (subst strided.simps) simp
    moreover have "lo = bound" using False less.prems(1) by simp
    ultimately have "strided lo step bound = []" "lo = bound" by auto
    then show ?thesis by (simp add: unit refl)
  qed
qed

section \<open>Blocks\<close>

text \<open>The value of a cell of a block read from the packed panels.\<close>

definition packed_value ::
  "'f fma_ops \<Rightarrow> 'f fmem \<Rightarrow> nat \<Rightarrow> nat \<Rightarrow> nat \<Rightarrow> bool \<Rightarrow> nat \<Rightarrow> nat \<Rightarrow> 'f \<Rightarrow> 'f" where
  "packed_value F w pa pb depth accumulate i j v =
     fold (\<lambda>p. fm_fma F (w (pa + i div 4 * depth * 4 + p * 4 + i mod 4))
         (w (pb + j div 16 * depth * 16 + p * 16 + j mod 16))) [0..<depth]
       (if accumulate then v else fm_zero F)"

lemma panel_index:
  assumes "i < count" "p < depth" "0 < w"
  shows "at + i div w * depth * w + p * w + i mod w \<in> panel at (round_up count w * depth)"
proof -
  define q where "q = count div w + (if count mod w \<noteq> 0 then 1 else 0)"
  have q: "round_up count w = q * w" unfolding q_def using assms(3) by (rule round_up_quotient)
  have "i < q * w" using assms(1) round_up_bounds(1) [OF assms(3), of count] q by linarith
  then have t: "i div w < q" using assms(3) by (simp only: div_less_iff_less_mult)
  have "i div w * depth * w + p * w + i mod w < Suc (i div w * depth + p) * w"
    using assms(3) by (simp add: add_mult_distrib)
  also have "Suc (i div w * depth + p) \<le> Suc (i div w) * depth" using assms(2) by simp
  then have "Suc (i div w * depth + p) * w \<le> Suc (i div w) * depth * w" by (rule mult_le_mono1)
  also have "\<dots> \<le> q * depth * w" using t by (intro mult_le_mono1) simp
  finally show ?thesis by (simp add: panel_def q ac_simps)
qed

lemma packed_value_cong:
  assumes "i < rows" "j < columns"
    and "\<And>x. x \<in> panel pa (round_up rows 4 * depth) \<Longrightarrow> w x = w' x"
    and "\<And>x. x \<in> panel pb (round_up columns 16 * depth) \<Longrightarrow> w x = w' x"
  shows "packed_value F w pa pb depth accumulate i j v = packed_value F w' pa pb depth accumulate i j v"
  unfolding packed_value_def
  using assms panel_index [of i rows _ depth 4 pa] panel_index [of j columns _ depth 16 pb]
  by (intro List.fold_cong) simp_all

text \<open>The slots a block at \<open>at0\<close> may write, and the panels it reads, apart from each other.\<close>

definition block_cells :: "nat \<Rightarrow> nat \<Rightarrow> nat \<Rightarrow> nat \<Rightarrow> nat set" where
  "block_cells at stride rows columns = {x. in_rect at stride 0 rows 0 columns x}"

definition panels_apart :: "nat \<Rightarrow> nat \<Rightarrow> nat \<Rightarrow> nat \<Rightarrow> nat \<Rightarrow> nat \<Rightarrow> nat \<Rightarrow> bool" where
  "panels_apart at stride rows columns depth pa pb \<longleftrightarrow>
     panel pa (round_up rows 4 * depth) \<inter> panel pb (round_up columns 16 * depth) = {} \<and>
     panel pa (round_up rows 4 * depth) \<inter> block_cells at stride rows columns = {} \<and>
     panel pb (round_up columns 16 * depth) \<inter> block_cells at stride rows columns = {}"

lemma packed_value_agree:
  assumes "panels_apart at stride rows columns depth pa pb"
    and "agree (block_cells at stride rows columns) w w'" "i < rows" "j < columns"
  shows "packed_value F w' pa pb depth accumulate i j v = packed_value F w pa pb depth accumulate i j v"
  using assms by (intro packed_value_cong [of i rows j columns]) (auto simp: panels_apart_def agree_def)

text \<open>One 4x16 tile of a block, by any kernel that keeps the contract.\<close>

lemma tile_origin:
  fixes out row_begin row column column_begin ldc :: nat
  shows "out + (row_begin + row) * ldc + column_begin + column =
    (out + row_begin * ldc + column_begin) + row * ldc + column"
  by (simp add: add_mult_distrib)

context tile_kernel
begin

lemma tile_of_block:
  assumes apart: "panels_apart at stride rows columns depth pa pb" "columns \<le> stride" "0 < depth"
    and m: "agree (block_cells at stride rows columns) w m"
    and t: "row < rows" "4 dvd row" "column < columns" "16 dvd column"
  shows "microkernel F m (pa + row div 4 * depth * 4) (pb + column div 16 * depth * 16) depth
      (at + row * stride + column) stride (min 4 (rows - row)) (min 16 (columns - column)) accumulate m =
    rect at stride row (min (row + 4) rows) column (min (column + 16) columns)
      (packed_value F w pa pb depth accumulate) m"
proof -
  let ?r = "min 4 (rows - row)" and ?c = "min 16 (columns - column)"
  let ?t = "tile_value F m (pa + row div 4 * depth * 4) (pb + column div 16 * depth * 16) depth accumulate"
  have fits: "column + ?c \<le> stride" using apart(2) t(3) by simp
  have "microkernel F m (pa + row div 4 * depth * 4) (pb + column div 16 * depth * 16) depth
      (at + row * stride + column) stride ?r ?c accumulate m =
      rect (at + row * stride + column) stride 0 ?r 0 ?c ?t m"
    using t(1,3) fits apart(3) by (intro tile) simp_all
  also have "\<dots> = rect at stride (row + 0) (row + ?r) (column + 0) (column + ?c)
      (\<lambda>i j. ?t (i - row) (j - column)) m"
    using fits t(3) apart(2) by (intro rect_shift) linarith+
  also have "\<dots> = rect at stride row (min (row + 4) rows) column (min (column + 16) columns)
      (\<lambda>i j. ?t (i - row) (j - column)) m"
  proof -
    have "row + ?r = min (row + 4) rows" "column + ?c = min (column + 16) columns" using t by auto
    then show ?thesis by simp
  qed
  also have "\<dots> = rect at stride row (min (row + 4) rows) column (min (column + 16) columns)
      (packed_value F w pa pb depth accumulate) m"
  proof (rule rect_cong)
    fix i j v
    assume i: "row \<le> i" "i < min (row + 4) rows" and j: "column \<le> j" "j < min (column + 16) columns"
    have di: "i div 4 = row div 4" "i mod 4 = i - row"
      using i t(2) by (auto elim!: dvdE simp: div_nat_eqI mod_nat_eqI)
    have dj: "j div 16 = column div 16" "j mod 16 = j - column"
      using j t(4) by (auto elim!: dvdE simp: div_nat_eqI mod_nat_eqI)
    have "?t (i - row) (j - column) v = packed_value F m pa pb depth accumulate i j v"
      by (simp add: tile_value_def packed_value_def di dj)
    then show "?t (i - row) (j - column) v = packed_value F w pa pb depth accumulate i j v"
      using packed_value_agree [OF apart(1) m] i j by simp
  qed
  finally show ?thesis .
qed

end
lemma block_rect_agree:
  assumes "agree (block_cells at stride rows columns) w m" "rhi \<le> rows" "chi \<le> columns"
  shows "agree (block_cells at stride rows columns) w (rect at stride rlo rhi clo chi h m)"
proof -
  have "in_rect at stride rlo rhi clo chi x \<Longrightarrow> x \<in> block_cells at stride rows columns" for x
    using assms(2,3) by (auto simp: block_cells_def in_rect_def)
  then show ?thesis
    using assms(1) agree_rect agree_trans by metis
qed

context tile_kernel
begin

text \<open>The column loop of one row of tiles, from any column on.\<close>

lemma column_loop:
  assumes apart: "panels_apart at stride rows columns depth pa pb" "columns \<le> stride" "0 < depth"
    and row: "row < rows" "4 dvd row" and lo: "lo \<le> columns" "16 dvd lo"
    and m: "agree (block_cells at stride rows columns) w m"
  shows "fold (\<lambda>column mem. microkernel F mem (pa + row div 4 * depth * 4)
        (pb + column div 16 * depth * 16) depth (at + row * stride + column) stride
        (min 4 (rows - row)) (min 16 (columns - column)) accumulate mem)
      (strided lo 16 columns) m =
    rect at stride row (min (row + 4) rows) lo columns (packed_value F w pa pb depth accumulate) m"
proof -
  let ?f = "\<lambda>column mem. microkernel F mem (pa + row div 4 * depth * 4)
        (pb + column div 16 * depth * 16) depth (at + row * stride + column) stride
        (min 4 (rows - row)) (min 16 (columns - column)) accumulate mem"
  let ?E = "\<lambda>x y. rect at stride row (min (row + 4) rows) x y (packed_value F w pa pb depth accumulate)"
  have tile: "?f x m = ?E x (min (x + 16) columns) m"
    if "x < columns" "16 dvd x" "agree (block_cells at stride rows columns) w m" for x m
    using tile_of_block [OF apart that(3) row that(1,2)] .
  have "?E lo columns m = fold ?f (strided lo 16 columns) m"
  proof (rule fold_strided_join [where E = ?E and R = "(=)" and ok = "\<lambda>_. agree (block_cells at stride rows columns) w"])
    show "agree (block_cells at stride rows columns) w (?f x m)"
      if "x < columns" "16 dvd x" "agree (block_cells at stride rows columns) w m" for x m
      unfolding tile [OF that] using that by (intro block_rect_agree) simp_all
  qed (use tile lo m in \<open>simp_all add: rect_join_columns\<close>)
  then show ?thesis by simp
qed

end

text \<open>The row loop of a block, for any body that does one row of tiles.\<close>

lemma row_loop:
  assumes body: "\<And>row m. row < rows \<Longrightarrow> 4 dvd row \<Longrightarrow> agree (block_cells at stride rows columns) w m \<Longrightarrow>
      f row m = rect at stride row (min (row + 4) rows) 0 columns h m"
  shows "fold f (strided 0 4 rows) w = rect at stride 0 rows 0 columns h w"
proof -
  let ?E = "\<lambda>x y. rect at stride x y 0 columns h"
  have "?E 0 rows w = fold f (strided 0 4 rows) w"
  proof (rule fold_strided_join [where E = ?E and R = "(=)" and ok = "\<lambda>_. agree (block_cells at stride rows columns) w"])
    show "agree (block_cells at stride rows columns) w (f x m)"
      if "x < rows" "4 dvd x" "agree (block_cells at stride rows columns) w m" for x m
      unfolding body [OF that] using that by (intro block_rect_agree) simp_all
  qed (use body in \<open>simp_all add: rect_join_rows\<close>)
  then show ?thesis by simp
qed

text \<open>The value of a cell, from A in place and the packed panel of B.\<close>

definition block_value ::
  "'f fma_ops \<Rightarrow> 'f fmem \<Rightarrow> nat \<Rightarrow> nat \<Rightarrow> nat \<Rightarrow> nat \<Rightarrow> nat \<Rightarrow> nat \<Rightarrow> nat \<Rightarrow> nat \<Rightarrow> 'f \<Rightarrow> 'f" where
  "block_value F m lhs lda row_begin k_begin depth pb i j v =
     fold (\<lambda>p. fm_fma F (m (lhs + ((row_begin + i) * lda + k_begin + p)))
         (m (pb + j div 16 * depth * 16 + p * 16 + j mod 16))) [0..<depth]
       (if k_begin \<noteq> 0 then v else fm_zero F)"

definition lhs_apart :: "nat \<Rightarrow> nat \<Rightarrow> nat \<Rightarrow> nat \<Rightarrow> nat \<Rightarrow> nat \<Rightarrow> nat \<Rightarrow> bool" where
  "lhs_apart lhs lda row_begin k_begin rows depth pa \<longleftrightarrow> (\<forall>i p. i < rows \<longrightarrow> p < depth \<longrightarrow>
     lhs + ((row_begin + i) * lda + k_begin + p) \<notin> panel pa (round_up rows 4 * depth))"

lemma block_after_packing:
  fixes F :: "'f fma_ops" and m :: "'f fmem"
  assumes apart: "panels_apart at stride rows columns depth pa pb" "lhs_apart lhs lda row_begin k_begin rows depth pa"
    and "0 < depth" "rows < 2 ^ 63"
  defines "w \<equiv> pack_a_block F lhs lda row_begin k_begin rows depth pa m"
  shows "agree (panel pa (round_up rows 4 * depth))
    (rect at stride 0 rows 0 columns (block_value F m lhs lda row_begin k_begin depth pb) m)
    (rect at stride 0 rows 0 columns (packed_value F w pa pb depth (k_begin \<noteq> 0)) w)"
proof -
  note pack = pack_a_effect [OF assms(3,4), of lhs row_begin lda k_begin pa F m]
  have w: "w x = (if x \<in> panel pa (round_up rows 4 * depth)
     then panel_value 4 depth (a_values F m lhs lda row_begin k_begin rows) (x - pa) else m x)" for x
    unfolding w_def using apart(2) by (intro pack) (simp add: lhs_apart_def)
  have v: "packed_value F w pa pb depth (k_begin \<noteq> 0) i j v =
      block_value F m lhs lda row_begin k_begin depth pb i j v" if "i < rows" "j < columns" for i j v
    unfolding packed_value_def block_value_def
  proof (intro List.fold_cong refl)
    fix p assume "p \<in> set [0..<depth]"
    then have p: "p < depth" by simp
    have "pb + j div 16 * depth * 16 + p * 16 + j mod 16 \<notin> panel pa (round_up rows 4 * depth)"
      using panel_index [OF that(2) p, of 16 pb] apart(1) by (auto simp: panels_apart_def)
    moreover have "w (pa + i div 4 * depth * 4 + p * 4 + i mod 4) =
        m (lhs + ((row_begin + i) * lda + k_begin + p))"
      using panel_index [OF that(1) p, of 4 pa] panel_value_at [OF p, of "i mod 4" 4
          "a_values F m lhs lda row_begin k_begin rows" "i div 4"] that(1)
      by (simp add: w a_values_def add.assoc)
    ultimately show "fm_fma F (w (pa + i div 4 * depth * 4 + p * 4 + i mod 4))
        (w (pb + j div 16 * depth * 16 + p * 16 + j mod 16)) =
      fm_fma F (m (lhs + ((row_begin + i) * lda + k_begin + p)))
         (m (pb + j div 16 * depth * 16 + p * 16 + j mod 16))"
      by (simp add: w)
  qed
  have "rect at stride 0 rows 0 columns (packed_value F w pa pb depth (k_begin \<noteq> 0)) w =
      rect at stride 0 rows 0 columns (block_value F m lhs lda row_begin k_begin depth pb) w"
    by (rule rect_cong) (rule v)
  moreover have "agree (panel pa (round_up rows 4 * depth)) m w"
    by (simp add: agree_def w)
  ultimately show ?thesis by (simp add: rect_agree)
qed

text \<open>The contract of the three block routines of the runtime.\<close>

locale block_kernel =
  fixes block :: "'f fma_ops \<Rightarrow> nat \<Rightarrow> nat \<Rightarrow> nat \<Rightarrow> nat \<Rightarrow> nat \<Rightarrow> nat \<Rightarrow> nat \<Rightarrow> nat \<Rightarrow> nat \<Rightarrow> nat \<Rightarrow> nat \<Rightarrow> nat \<Rightarrow>
    'f fmem \<Rightarrow> 'f fmem"
  assumes block: "0 < depth \<Longrightarrow> rows < 2 ^ 63 \<Longrightarrow> columns \<le> ldc \<Longrightarrow>
    panels_apart (out + row_begin * ldc + column_begin) ldc rows columns depth pa pb \<Longrightarrow>
    lhs_apart lhs lda row_begin k_begin rows depth pa \<Longrightarrow>
    agree (panel pa (round_up rows 4 * depth))
      (rect (out + row_begin * ldc + column_begin) ldc 0 rows 0 columns
        (block_value F m lhs lda row_begin k_begin depth pb) m)
      (block F lda ldc lhs out row_begin column_begin k_begin rows columns depth pa pb m)"

lemma avx2_block:
  assumes "0 < depth" "rows < 2 ^ 63" "columns \<le> ldc"
    and apart: "panels_apart (out + row_begin * ldc + column_begin) ldc rows columns depth pa pb"
      "lhs_apart lhs lda row_begin k_begin rows depth pa"
  shows "agree (panel pa (round_up rows 4 * depth))
      (rect (out + row_begin * ldc + column_begin) ldc 0 rows 0 columns
        (block_value F m lhs lda row_begin k_begin depth pb) m)
      (compute_block F lda ldc lhs out row_begin column_begin k_begin rows columns depth pa pb m)"
proof -
  let ?w = "pack_a_block F lhs lda row_begin k_begin rows depth pa m"
  have "compute_block F lda ldc lhs out row_begin column_begin k_begin rows columns depth pa pb m =
      rect (out + row_begin * ldc + column_begin) ldc 0 rows 0 columns
        (packed_value F ?w pa pb depth (k_begin \<noteq> 0)) ?w"
    unfolding compute_block_def Let_def tile_origin
    using assms(1,3) apart(1) by (intro row_loop avx2.column_loop) simp_all
  then show ?thesis
    using block_after_packing [OF apart assms(1,2), of F m] by simp
qed

interpretation avx2_block: block_kernel compute_block
  by unfold_locales (rule avx2_block)
text \<open>The pairs of tiles of the AVX-512 row loop.\<close>

lemma wide_tile_of_block:
  assumes apart: "panels_apart at stride rows columns depth pa pb" "columns \<le> stride"
    and m: "agree (block_cells at stride rows columns) w m"
    and t: "row + 4 \<le> rows" "4 dvd row" "column + 32 \<le> columns" "16 dvd column"
  shows "matcore_internal_cpu_packed_avx512_4x32_full_microkernel_f32_m7 F m
      (pa + row div 4 * depth * 4) (pb + column div 16 * depth * 16)
      (pb + column div 16 * depth * 16 + depth * 16) depth (at + row * stride + column) stride
      accumulate m =
    rect at stride row (row + 4) column (column + 32) (packed_value F w pa pb depth accumulate) m"
proof -
  let ?a = "pa + row div 4 * depth * 4" and ?b = "pb + column div 16 * depth * 16"
  let ?t = "\<lambda>i j. if j < 16 then tile_value F m ?a ?b depth accumulate i j
      else tile_value F m ?a (?b + depth * 16) depth accumulate i (j - 16)"
  have "matcore_internal_cpu_packed_avx512_4x32_full_microkernel_f32_m7 F m ?a ?b (?b + depth * 16)
      depth (at + row * stride + column) stride accumulate m =
      rect (at + row * stride + column) stride 0 4 0 32 ?t m"
    using apart(2) t(3) by (intro avx512_wide_tile) linarith
  also have "\<dots> = rect at stride (row + 0) (row + 4) (column + 0) (column + 32)
      (\<lambda>i j. ?t (i - row) (j - column)) m"
    using apart(2) t(3) by (intro rect_shift) linarith+
  also have "\<dots> = rect at stride row (row + 4) column (column + 32) (\<lambda>i j. ?t (i - row) (j - column)) m"
    by simp
  also have "\<dots> = rect at stride row (row + 4) column (column + 32)
      (packed_value F w pa pb depth accumulate) m"
  proof (rule rect_cong)
    fix i j v
    assume i: "row \<le> i" "i < row + 4" and j: "column \<le> j" "j < column + 32"
    have di: "i div 4 = row div 4" "i mod 4 = i - row"
      using i t(2) by (auto elim!: dvdE simp: div_nat_eqI mod_nat_eqI)
    have "?t (i - row) (j - column) v = packed_value F m pa pb depth accumulate i j v"
    proof (cases "j - column < 16")
      case True
      then have "j div 16 = column div 16" "j mod 16 = j - column"
        using j t(4) by (auto elim!: dvdE simp: div_nat_eqI mod_nat_eqI)
      then show ?thesis using True by (simp add: tile_value_def packed_value_def di)
    next
      case False
      then have "j div 16 = column div 16 + 1" "j mod 16 = j - column - 16"
        using j t(4) by (auto elim!: dvdE simp: div_nat_eqI mod_nat_eqI)
      then show ?thesis
        using False by (simp add: tile_value_def packed_value_def di add_mult_distrib ac_simps)
    qed
    then show "?t (i - row) (j - column) v = packed_value F w pa pb depth accumulate i j v"
      using packed_value_agree [OF apart(1) m] i j t by simp
  qed
  finally show ?thesis .
qed

lemma pair_loop:
  assumes apart: "panels_apart at stride rows columns depth pa pb" "columns \<le> stride"
    and row: "row + 4 \<le> rows" "4 dvd row"
  shows "agree (block_cells at stride rows columns) w m \<Longrightarrow> 16 dvd lo \<Longrightarrow> lo \<le> columns \<Longrightarrow>
    lo + length (strided lo 32 (columns - 31)) * 32 \<le> columns \<and>
    fold (\<lambda>column mem. matcore_internal_cpu_packed_avx512_4x32_full_microkernel_f32_m7 F mem
      (pa + row div 4 * depth * 4) (pb + column div 16 * depth * 16)
      (pb + column div 16 * depth * 16 + depth * 16) depth (at + row * stride + column) stride
      accumulate mem) (strided lo 32 (columns - 31)) m =
    rect at stride row (row + 4) lo (lo + length (strided lo 32 (columns - 31)) * 32)
      (packed_value F w pa pb depth accumulate) m"
proof (induction "columns - lo" arbitrary: lo m rule: less_induct)
  case less
  show ?case
  proof (cases "lo + 32 \<le> columns")
    case True
    then have unfold: "strided lo 32 (columns - 31) = lo # strided (lo + 32) 32 (columns - 31)"
      by (subst strided.simps) simp
    let ?m = "rect at stride row (row + 4) lo (lo + 32) (packed_value F w pa pb depth accumulate) m"
    have "agree (block_cells at stride rows columns) w ?m"
      using less.prems(1) row True by (intro block_rect_agree) simp_all
    then show ?thesis
      using less.hyps [of "lo + 32" ?m] True less.prems(2)
        wide_tile_of_block [OF apart less.prems(1) row True less.prems(2)]
      by (simp add: unfold rect_join_columns add.assoc)
  next
    case False
    then have "strided lo 32 (columns - 31) = []" by (subst strided.simps) simp
    then show ?thesis using less.prems(3) by simp
  qed
qed

lemma avx512_block:
  assumes "0 < depth" "rows < 2 ^ 63" "columns \<le> ldc"
    and apart: "panels_apart (out + row_begin * ldc + column_begin) ldc rows columns depth pa pb"
      "lhs_apart lhs lda row_begin k_begin rows depth pa"
  shows "agree (panel pa (round_up rows 4 * depth))
      (rect (out + row_begin * ldc + column_begin) ldc 0 rows 0 columns
        (block_value F m lhs lda row_begin k_begin depth pb) m)
      (compute_block_avx512 F lda ldc lhs out row_begin column_begin k_begin rows columns depth pa pb m)"
proof -
  let ?w = "pack_a_block F lhs lda row_begin k_begin rows depth pa m"
  let ?at = "out + row_begin * ldc + column_begin"
  let ?h = "packed_value F ?w pa pb depth (k_begin \<noteq> 0)"
  have "compute_block_avx512 F lda ldc lhs out row_begin column_begin k_begin rows columns depth pa pb m =
      rect ?at ldc 0 rows 0 columns ?h ?w"
    unfolding compute_block_avx512_def Let_def tile_origin
  proof (rule row_loop)
    fix row m assume row: "row < rows" "4 dvd row" and m: "agree (block_cells ?at ldc rows columns) ?w m"
    let ?pairs = "if min 4 (rows - row) = 4 then strided 0 32 (columns - 31) else []"
    let ?mid = "length ?pairs * 32"
    have pairs: "?mid \<le> columns \<and> fold (\<lambda>column mem.
          matcore_internal_cpu_packed_avx512_4x32_full_microkernel_f32_m7 F mem
            (pa + row div 4 * depth * 4) (pb + column div 16 * depth * 16)
            (pb + column div 16 * depth * 16 + depth * 16) depth (?at + row * ldc + column) ldc
            (k_begin \<noteq> 0) mem) ?pairs m =
        rect ?at ldc row (min (row + 4) rows) 0 ?mid ?h m"
    proof (cases "row + 4 \<le> rows")
      case True
      then have "min 4 (rows - row) = 4" "min (row + 4) rows = row + 4" using row by auto
      then show ?thesis
        using pair_loop [OF apart(1) assms(3) True row(2) m, of 0] by simp
    next
      case False
      then have "min 4 (rows - row) \<noteq> 4" using row by auto
      then have none: "?pairs = []" by (rule if_not_P)
      show ?thesis unfolding none by simp
    qed
    have "16 dvd ?mid" by (rule dvd_trans [of _ 32]) simp_all
    moreover have "agree (block_cells ?at ldc rows columns) ?w
        (rect ?at ldc row (min (row + 4) rows) 0 ?mid ?h m)"
      using m pairs by (intro block_rect_agree) simp_all
    ultimately have "fold (\<lambda>column mem. matcore_cpu_packed_avx512_4x16_microkernel_f32_v1 F mem
          (pa + row div 4 * depth * 4) (pb + column div 16 * depth * 16) depth
          (?at + row * ldc + column) ldc (min 4 (rows - row)) (min 16 (columns - column))
          (k_begin \<noteq> 0) mem) (strided ?mid 16 columns)
        (rect ?at ldc row (min (row + 4) rows) 0 ?mid ?h m) =
        rect ?at ldc row (min (row + 4) rows) ?mid columns ?h
          (rect ?at ldc row (min (row + 4) rows) 0 ?mid ?h m)"
      using assms(1,3) apart(1) row pairs by (intro avx512.column_loop) simp_all
    also have "\<dots> = rect ?at ldc row (min (row + 4) rows) 0 columns ?h m"
      using pairs by (intro rect_join_columns) simp_all
    finally show "fold (\<lambda>column mem. matcore_cpu_packed_avx512_4x16_microkernel_f32_v1 F mem
          (pa + row div 4 * depth * 4) (pb + column div 16 * depth * 16) depth
          (?at + row * ldc + column) ldc (min 4 (rows - row)) (min 16 (columns - column))
          (k_begin \<noteq> 0) mem) (strided ?mid 16 columns)
        (fold (\<lambda>column mem.
          matcore_internal_cpu_packed_avx512_4x32_full_microkernel_f32_m7 F mem
            (pa + row div 4 * depth * 4) (pb + column div 16 * depth * 16)
            (pb + column div 16 * depth * 16 + depth * 16) depth (?at + row * ldc + column) ldc
            (k_begin \<noteq> 0) mem) ?pairs m) =
        rect ?at ldc row (min (row + 4) rows) 0 columns ?h m"
      by (simp only: pairs)
  qed
  then show ?thesis
    using block_after_packing [OF apart assms(1,2), of F m] by simp
qed

interpretation avx512_block: block_kernel compute_block_avx512
  by unfold_locales (rule avx512_block)

end
