(* ===== verification/PackedGemm.thy ===== *)
theory PackedGemm
  imports PackedKernels CapabilityV2
begin

text \<open>
  The packed GEMM executions: \<^verbatim>\<open>cpu_execute_packed_avx2_v1\<close>, \<^verbatim>\<open>cpu_prepare_packed_b_avx2_v1\<close>,
  \<^verbatim>\<open>cpu_execute_packed_avx2_prepacked_b_v1\<close> and their AVX-512 counterparts. An execution takes the
  addresses of its buffers and the memory and returns a status and the memory; its blocks are those
  of \<^theory_text>\<open>PackedKernels\<close>, its checks those of \<^theory_text>\<open>PackedLayout\<close>. The loops of the two instruction
  sets are the same up to the block routine, which is a parameter here.
\<close>

text \<open>The slot of a float at an address.\<close>

definition slot :: "u64 \<Rightarrow> nat" where
  "slot address = unat address div 4"

section \<open>Availability\<close>

definition execution_safe :: "CpuCapabilitiesV2 \<Rightarrow> CpuFeatureV2 \<Rightarrow> bool" where
  "execution_safe capabilities feature \<longleftrightarrow>
     feature_available (cap2_hardware capabilities) feature \<and>
     feature_available (cap2_os_enabled capabilities) feature \<and>
     feature_available (cap2_compiler capabilities) feature"

text \<open>\<open>compiled\<close> is the build's \<^verbatim>\<open>MATCORE_MDSLC_PACKED_AVX2_COMPILED\<close>; \<open>capabilities\<close> the record that
  \<^verbatim>\<open>discover_cpu_capabilities_v2\<close> returns.\<close>

definition cpu_packed_avx2_runtime_usable_v1 :: "bool \<Rightarrow> CpuCapabilitiesV2 \<Rightarrow> bool" where
  "cpu_packed_avx2_runtime_usable_v1 compiled capabilities \<longleftrightarrow>
     compiled \<and> validate_cpu_capabilities_v2 capabilities = None \<and>
     cap2_architecture capabilities = archk_x86_64 \<and>
     execution_safe capabilities feat_avx2 \<and> execution_safe capabilities feat_fma"

definition cpu_packed_avx512_runtime_usable_v1 :: "bool \<Rightarrow> CpuCapabilitiesV2 \<Rightarrow> bool" where
  "cpu_packed_avx512_runtime_usable_v1 compiled capabilities \<longleftrightarrow>
     compiled \<and> validate_cpu_capabilities_v2 capabilities = None \<and>
     cap2_architecture capabilities = archk_x86_64 \<and>
     execution_safe capabilities feat_avx512f \<and> execution_safe capabilities feat_fma"

section \<open>The loops\<close>

type_synonym 'f block_routine =
  "'f fma_ops \<Rightarrow> nat \<Rightarrow> nat \<Rightarrow> nat \<Rightarrow> nat \<Rightarrow> nat \<Rightarrow> nat \<Rightarrow> nat \<Rightarrow> nat \<Rightarrow> nat \<Rightarrow> nat \<Rightarrow> nat \<Rightarrow> nat \<Rightarrow>
   'f fmem \<Rightarrow> 'f fmem"

definition packed_loops ::
  "'f block_routine \<Rightarrow> 'f fma_ops \<Rightarrow> nat \<Rightarrow> nat \<Rightarrow> nat \<Rightarrow> nat \<Rightarrow> nat \<Rightarrow> nat \<Rightarrow> nat \<Rightarrow> nat \<Rightarrow> 'f fmem \<Rightarrow> 'f fmem" where
  "packed_loops block F m n k lhs rhs out packed_a packed_b mem =
     fold (\<lambda>column.
       let columns = min 256 (n - column)
       in fold (\<lambda>p mem.
            let depth = min 256 (k - p);
                mem = fst (cpu_pack_b_block_v1 F rhs n p column depth columns packed_b mem)
            in fold (\<lambda>row.
                 let rows = min 128 (m - row)
                 in block F k n lhs out row column p rows columns depth packed_a packed_b)
                 (strided 0 128 m) mem)
            (strided 0 256 k))
       (strided 0 256 n) mem"

definition prepare_loops ::
  "'f fma_ops \<Rightarrow> nat \<Rightarrow> nat \<Rightarrow> nat \<Rightarrow> nat \<Rightarrow> 'f fmem \<Rightarrow> 'f fmem \<times> nat" where
  "prepare_loops F n k rhs destination mem =
     fold (\<lambda>column.
       let columns = min 256 (n - column)
       in fold (\<lambda>p (mem, packed_elements).
            let depth = min 256 (k - p);
                (mem, written) = cpu_pack_b_block_v1 F rhs n p column depth columns
                  (destination + packed_elements) mem
            in (mem, packed_elements + written))
            (strided 0 256 k))
       (strided 0 256 n) (mem, 0)"

definition prepacked_loops ::
  "'f block_routine \<Rightarrow> 'f fma_ops \<Rightarrow> nat \<Rightarrow> nat \<Rightarrow> nat \<Rightarrow> nat \<Rightarrow> nat \<Rightarrow> nat \<Rightarrow> nat \<Rightarrow> 'f fmem \<Rightarrow> 'f fmem \<times> nat" where
  "prepacked_loops block F m n k lhs out packed_a packed_block mem =
     fold (\<lambda>column.
       let columns = min 256 (n - column);
           padded_columns = (case checked_round_up (of_nat columns) kCpuPackedGemmNrV1 of
                               Some padded \<Rightarrow> unat padded | None \<Rightarrow> 0)
       in fold (\<lambda>p (mem, packed_offset).
            let depth = min 256 (k - p);
                current_packed_b = packed_block + packed_offset;
                mem = fold (\<lambda>row.
                  let rows = min 128 (m - row)
                  in block F k n lhs out row column p rows columns depth packed_a current_packed_b)
                  (strided 0 128 m) mem
            in (mem, packed_offset + padded_columns * depth))
            (strided 0 256 k))
       (strided 0 256 n) (mem, 0)"

section \<open>Execution (cpu_packed_avx2.cpp)\<close>

definition cpu_execute_packed_avx2_v1 ::
  "bool \<Rightarrow> 'f fma_ops \<Rightarrow> CpuGemmProblemV1 \<Rightarrow> u64 \<Rightarrow> u64 \<Rightarrow> u64 \<Rightarrow> u64 \<Rightarrow> u64 \<Rightarrow> 'f fmem \<Rightarrow>
   CpuPackedGemmStatusV1 \<times> 'f fmem" where
  "cpu_execute_packed_avx2_v1 usable F problem lhs rhs out workspace workspace_bytes mem =
    (case cpu_packed_avx2_workspace_requirements_v1 problem transient_a_and_b of
       Inl status \<Rightarrow> (status, mem)
     | Inr requirements \<Rightarrow>
         if \<not> usable then (pst_isa_unavailable, mem)
         else case cpu_validate_packed_avx2_v1 problem lhs rhs out workspace workspace_bytes of
           Inl status \<Rightarrow> (status, mem)
         | Inr _ \<Rightarrow>
             let m = unat (prob_m problem); n = unat (prob_n problem); k = unat (prob_k problem);
                 packed_a = slot (workspace + preq_packed_a_offset requirements);
                 packed_b = slot (workspace + preq_packed_b_offset requirements)
             in (pst_success, packed_loops compute_block F m n k (slot lhs) (slot rhs) (slot out)
                   packed_a packed_b mem))"

definition cpu_prepare_packed_b_avx2_v1 ::
  "'f fma_ops \<Rightarrow> CpuGemmProblemV1 \<Rightarrow> u64 \<Rightarrow> u64 \<Rightarrow> u64 \<Rightarrow> 'f fmem \<Rightarrow>
   (CpuPackedGemmStatusV1 + CpuPackedBViewV1) \<times> 'f fmem" where
  "cpu_prepare_packed_b_avx2_v1 F problem rhs packed_storage packed_storage_bytes mem =
    (case cpu_validate_prepare_packed_b_avx2_v1 problem rhs packed_storage packed_storage_bytes of
       Inl status \<Rightarrow> (Inl status, mem)
     | Inr _ \<Rightarrow>
         let n = unat (prob_n problem); k = unat (prob_k problem);
             (mem, packed_elements) = prepare_loops F n k (slot rhs) (slot packed_storage) mem
         in (Inr (cpu_make_packed_b_view_v1 problem rhs packed_storage packed_storage_bytes
               (of_nat packed_elements)), mem))"

definition cpu_execute_packed_avx2_prepacked_b_v1 ::
  "bool \<Rightarrow> 'f fma_ops \<Rightarrow> CpuGemmProblemV1 \<Rightarrow> u64 \<Rightarrow> u64 \<Rightarrow> CpuPackedBViewV1 \<Rightarrow> u64 \<Rightarrow> u64 \<Rightarrow> 'f fmem \<Rightarrow>
   CpuPackedGemmStatusV1 \<times> 'f fmem" where
  "cpu_execute_packed_avx2_prepacked_b_v1 usable F problem lhs out packed_b workspace workspace_bytes mem =
    (case cpu_packed_avx2_workspace_requirements_v1 problem transient_a_with_prepacked_b of
       Inl status \<Rightarrow> (status, mem)
     | Inr requirements \<Rightarrow>
         if \<not> usable then (pst_isa_unavailable, mem)
         else case cpu_validate_packed_avx2_prepacked_b_v1 problem lhs out packed_b workspace
             workspace_bytes of
           Inl status \<Rightarrow> (status, mem)
         | Inr _ \<Rightarrow>
             let m = unat (prob_m problem); n = unat (prob_n problem); k = unat (prob_k problem)
             in (pst_success, fst (prepacked_loops compute_block F m n k (slot lhs) (slot out)
                   (slot workspace) (slot (pbv_packed_data packed_b)) mem)))"

section \<open>Execution (cpu_packed_avx512.cpp)\<close>

text \<open>The AVX-512 file checks the alignment of a workspace before its size.\<close>

definition validate_workspace_avx512 ::
  "u64 \<Rightarrow> u64 \<Rightarrow> CpuPackedGemmWorkspaceRequirementsV1 \<Rightarrow> ByteSpan list \<Rightarrow>
   CpuPackedGemmStatusV1 + ByteSpan" where
  "validate_workspace_avx512 workspace workspace_bytes requirements forbidden =
     and_then (require (workspace \<noteq> 0) pst_null_pointer) (\<lambda>_.
     and_then (require (pointer_has_alignment workspace (preq_alignment_bytes requirements))
         pst_workspace_misaligned) (\<lambda>_.
     and_then (require (workspace_bytes \<ge> preq_total_bytes requirements)
         pst_workspace_insufficient) (\<lambda>_.
     and_then (or_fail (make_span workspace (preq_total_bytes requirements))
         pst_arithmetic_overflow) (\<lambda>workspace_span.
     and_then (require (\<not> list_ex (overlaps workspace_span) forbidden) pst_alias_violation) (\<lambda>_.
       Inr workspace_span)))))"

definition execute_avx512_checks ::
  "CpuGemmProblemV1 \<Rightarrow> CpuPackedGemmWorkspaceRequirementsV1 \<Rightarrow> u64 \<Rightarrow> u64 \<Rightarrow> u64 \<Rightarrow> u64 \<Rightarrow> u64 \<Rightarrow>
   CpuPackedGemmStatusV1 + ByteSpan" where
  "execute_avx512_checks problem requirements lhs rhs out workspace workspace_bytes =
     and_then (dimensions problem) (\<lambda>(m, n, k).
     and_then (validate_tensor_contract problem lhs rhs out m n k)
       (\<lambda>(lhs_span, rhs_span, out_span).
     validate_workspace_avx512 workspace workspace_bytes requirements [lhs_span, rhs_span, out_span]))"

definition cpu_execute_packed_avx512_v1 ::
  "bool \<Rightarrow> 'f fma_ops \<Rightarrow> CpuGemmProblemV1 \<Rightarrow> u64 \<Rightarrow> u64 \<Rightarrow> u64 \<Rightarrow> u64 \<Rightarrow> u64 \<Rightarrow> 'f fmem \<Rightarrow>
   CpuPackedGemmStatusV1 \<times> 'f fmem" where
  "cpu_execute_packed_avx512_v1 usable F problem lhs rhs out workspace workspace_bytes mem =
    (case cpu_packed_avx512_workspace_requirements_v1 problem transient_a_and_b of
       Inl status \<Rightarrow> (status, mem)
     | Inr requirements \<Rightarrow>
         if \<not> usable then (pst_isa_unavailable, mem)
         else case execute_avx512_checks problem requirements lhs rhs out workspace workspace_bytes of
           Inl status \<Rightarrow> (status, mem)
         | Inr _ \<Rightarrow>
             let m = unat (prob_m problem); n = unat (prob_n problem); k = unat (prob_k problem);
                 packed_a = slot (workspace + preq_packed_a_offset requirements);
                 packed_b = slot (workspace + preq_packed_b_offset requirements)
             in (pst_success, packed_loops compute_block_avx512 F m n k (slot lhs) (slot rhs)
                   (slot out) packed_a packed_b mem))"

definition prepare_avx512_checks ::
  "CpuGemmProblemV1 \<Rightarrow> u64 \<Rightarrow> u64 \<Rightarrow> u64 \<Rightarrow> CpuPackedGemmStatusV1 + unit" where
  "prepare_avx512_checks problem rhs packed_storage packed_storage_bytes =
     and_then (require (rhs \<noteq> 0 \<and> packed_storage \<noteq> 0) pst_null_pointer) (\<lambda>_.
     and_then (cpu_packed_avx512_prepacked_b_requirements_v1 problem) (\<lambda>requirements.
     and_then (require (pointer_has_alignment rhs 4 \<and>
         pointer_has_alignment rhs (u32_to_u64 (prob_minimum_alignment_bytes problem)))
         pst_invalid_pointer_alignment) (\<lambda>_.
     and_then (require (pointer_has_alignment packed_storage kCpuPackedGemmWorkspaceAlignmentV1)
         pst_workspace_misaligned) (\<lambda>_.
     and_then (require (packed_storage_bytes \<ge> preq_total_bytes requirements)
         pst_workspace_insufficient) (\<lambda>_.
     and_then (or_fail (make_matrix_span rhs (prob_k problem) (prob_n problem))
         pst_arithmetic_overflow) (\<lambda>rhs_span.
     and_then (or_fail (make_span packed_storage (preq_total_bytes requirements))
         pst_arithmetic_overflow) (\<lambda>storage_span.
     require (\<not> overlaps rhs_span storage_span) pst_alias_violation)))))))"

definition cpu_prepare_packed_b_avx512_v1 ::
  "'f fma_ops \<Rightarrow> CpuGemmProblemV1 \<Rightarrow> u64 \<Rightarrow> u64 \<Rightarrow> u64 \<Rightarrow> 'f fmem \<Rightarrow>
   (CpuPackedGemmStatusV1 + CpuPackedBViewV1) \<times> 'f fmem" where
  "cpu_prepare_packed_b_avx512_v1 F problem rhs packed_storage packed_storage_bytes mem =
    (case prepare_avx512_checks problem rhs packed_storage packed_storage_bytes of
       Inl status \<Rightarrow> (Inl status, mem)
     | Inr _ \<Rightarrow>
         let n = unat (prob_n problem); k = unat (prob_k problem);
             (mem, packed_elements) = prepare_loops F n k (slot rhs) (slot packed_storage) mem
         in (Inr (cpu_make_packed_b_view_v1 problem rhs packed_storage packed_storage_bytes
               (of_nat packed_elements)), mem))"

definition execute_avx512_prepacked_checks ::
  "CpuGemmProblemV1 \<Rightarrow> CpuPackedGemmWorkspaceRequirementsV1 \<Rightarrow> u64 \<Rightarrow> u64 \<Rightarrow> CpuPackedBViewV1 \<Rightarrow>
   u64 \<Rightarrow> u64 \<Rightarrow> CpuPackedGemmStatusV1 + ByteSpan" where
  "execute_avx512_prepacked_checks problem requirements lhs out packed_b workspace workspace_bytes =
     and_then (dimensions problem) (\<lambda>(m, n, k).
     and_then (validate_prepacked_view problem packed_b) (\<lambda>(source_span, packed_span).
     and_then (validate_tensor_contract problem lhs (pbv_source_data packed_b) out m n k)
       (\<lambda>(lhs_span, rhs_span, out_span).
     and_then (require (\<not> (span_begin rhs_span \<noteq> span_begin source_span \<or>
         span_end rhs_span \<noteq> span_end source_span \<or>
         overlaps lhs_span packed_span \<or> overlaps out_span packed_span)) pst_alias_violation) (\<lambda>_.
     validate_workspace_avx512 workspace workspace_bytes requirements
       [lhs_span, rhs_span, out_span, packed_span]))))"

definition cpu_execute_packed_avx512_prepacked_b_v1 ::
  "bool \<Rightarrow> 'f fma_ops \<Rightarrow> CpuGemmProblemV1 \<Rightarrow> u64 \<Rightarrow> u64 \<Rightarrow> CpuPackedBViewV1 \<Rightarrow> u64 \<Rightarrow> u64 \<Rightarrow> 'f fmem \<Rightarrow>
   CpuPackedGemmStatusV1 \<times> 'f fmem" where
  "cpu_execute_packed_avx512_prepacked_b_v1 usable F problem lhs out packed_b workspace workspace_bytes mem =
    (case cpu_packed_avx512_workspace_requirements_v1 problem transient_a_with_prepacked_b of
       Inl status \<Rightarrow> (status, mem)
     | Inr requirements \<Rightarrow>
         if \<not> usable then (pst_isa_unavailable, mem)
         else case execute_avx512_prepacked_checks problem requirements lhs out packed_b workspace
             workspace_bytes of
           Inl status \<Rightarrow> (status, mem)
         | Inr _ \<Rightarrow>
             let m = unat (prob_m problem); n = unat (prob_n problem); k = unat (prob_k problem)
             in (pst_success, fst (prepacked_loops compute_block_avx512 F m n k (slot lhs) (slot out)
                   (slot workspace) (slot (pbv_packed_data packed_b)) mem)))"

section \<open>Ranges of the products\<close>

text \<open>The products of depth \<open>[lo, hi)\<close> added to a cell, as the code does when it visits them: the
  first depth starts from zero.\<close>

definition chain ::
  "'f fma_ops \<Rightarrow> 'f fmem \<Rightarrow> nat \<Rightarrow> nat \<Rightarrow> nat \<Rightarrow> nat \<Rightarrow> nat \<Rightarrow> nat \<Rightarrow> nat \<Rightarrow> nat \<Rightarrow> 'f \<Rightarrow> 'f" where
  "chain F m lhs rhs k n lo hi i j v =
     (if lo < hi
      then fold (\<lambda>p. fm_fma F (m (lhs + (i * k + p))) (m (rhs + (p * n + j)))) [lo..<hi]
        (if lo \<noteq> 0 then v else fm_zero F)
      else v)"

definition gemm_cell :: "'f fma_ops \<Rightarrow> 'f fmem \<Rightarrow> nat \<Rightarrow> nat \<Rightarrow> nat \<Rightarrow> nat \<Rightarrow> nat \<Rightarrow> nat \<Rightarrow> 'f" where
  "gemm_cell F m lhs rhs k n i j =
     fold (\<lambda>p. fm_fma F (m (lhs + (i * k + p))) (m (rhs + (p * n + j)))) [0..<k] (fm_zero F)"

lemma chain_all: "0 < k \<Longrightarrow> chain F m lhs rhs k n 0 k i j v = gemm_cell F m lhs rhs k n i j"
  by (simp add: chain_def gemm_cell_def)

lemma chain_empty [simp]: "chain F m lhs rhs k n lo lo i j v = v"
  by (simp add: chain_def)

lemma chain_join:
  assumes "lo < mid" "mid < hi"
  shows "chain F m lhs rhs k n mid hi i j (chain F m lhs rhs k n lo mid i j v) =
    chain F m lhs rhs k n lo hi i j v"
proof -
  have "[lo..<hi] = [lo..<mid] @ [mid..<hi]"
    using assms upt_add_eq_append [of lo mid "hi - mid"] by simp
  then show ?thesis using assms by (simp add: chain_def)
qed

lemma fold_shift: "fold (\<lambda>q. f (p + q)) [0..<d] v = fold f [p..<p + d] v"
  by (induction d) simp_all

lemma round_up_mono:
  assumes "a \<le> b"
  shows "round_up a q \<le> round_up b q"
  unfolding round_up_def using assms by (intro mult_le_mono1 div_le_mono) simp

section \<open>Buffers\<close>

text \<open>The buffers of one multiplication: the output is apart from the inputs, and the panels of A and
  B are apart from everything and from each other.\<close>

definition buffers ::
  "nat \<Rightarrow> nat \<Rightarrow> nat \<Rightarrow> nat \<Rightarrow> nat \<Rightarrow> nat \<Rightarrow> nat set \<Rightarrow> nat set \<Rightarrow> bool" where
  "buffers m n k lhs rhs out A B \<longleftrightarrow>
     A \<inter> B = {} \<and> A \<inter> panel out (m * n) = {} \<and> B \<inter> panel out (m * n) = {} \<and>
     A \<inter> panel lhs (m * k) = {} \<and> B \<inter> panel lhs (m * k) = {} \<and>
     A \<inter> panel rhs (k * n) = {} \<and> B \<inter> panel rhs (k * n) = {} \<and>
     panel out (m * n) \<inter> panel lhs (m * k) = {} \<and> panel out (m * n) \<inter> panel rhs (k * n) = {}"

lemma agree_panel:
  "agree (R \<union> A \<union> B) m w \<Longrightarrow> A \<inter> P = {} \<Longrightarrow> B \<inter> P = {} \<Longrightarrow> R \<inter> P = {} \<Longrightarrow> x \<in> P \<Longrightarrow> w x = m x"
  unfolding agree_def by blast

lemma disjoint_mono: "S \<subseteq> A \<Longrightarrow> T \<subseteq> B \<Longrightarrow> A \<inter> B = {} \<Longrightarrow> S \<inter> T = {}"
  by blast

lemma matrix_index:
  fixes i j m n :: nat
  assumes "i < m" "j < n"
  shows "i * n + j < m * n"
proof -
  have "i * n + j < Suc i * n" using assms(2) by simp
  also have "\<dots> \<le> m * n" using assms(1) by (intro mult_le_mono1) simp
  finally show ?thesis .
qed

lemma in_matrix: "i < m \<Longrightarrow> j < n \<Longrightarrow> at + (i * n + j) \<in> panel at (m * n)"
  using matrix_index [of i m j n] by (simp add: panel_def)

lemma rect_in_matrix:
  assumes "in_rect at n rlo rhi clo chi x" "rhi \<le> m" "chi \<le> n"
  shows "x \<in> panel at (m * n)"
proof -
  obtain i j where "i < rhi" "j < chi" "x = at + i * n + j"
    using assms(1) unfolding in_rect_iff [OF assms(3)] by blast
  then show ?thesis using in_matrix [of i m j n at] assms(2,3) by (simp add: add.assoc)
qed

context block_kernel
begin

text \<open>One block of an execution. The memory agrees with the original one outside the output and the
  panels, and the panel of B at \<open>pb\<close> holds the columns and the depth of the block.\<close>

lemma block_step:
  assumes B: "buffers m n k lhs rhs out A B"
    and pa: "panel pa (round_up rows 4 * depth) \<subseteq> A"
    and pb: "panel pb (round_up columns 16 * depth) \<subseteq> B"
    and rows: "row + rows \<le> m" "rows < 2 ^ 63" and columns: "column + columns \<le> n" "0 < columns"
    and depth: "0 < depth" "p + depth \<le> k"
    and w: "agree (panel out (m * n) \<union> A \<union> B) orig w"
    and image: "\<And>j q. j < columns \<Longrightarrow> q < depth \<Longrightarrow>
      w (pb + j div 16 * depth * 16 + q * 16 + j mod 16) = orig (rhs + ((p + q) * n + (column + j)))"
  shows "agree A (rect out n row (row + rows) column (column + columns)
      (chain F orig lhs rhs k n p (p + depth)) w)
    (block F k n lhs out row column p rows columns depth pa pb w)"
proof -
  have pos: "0 < n" using columns by simp
  let ?at = "out + row * n + column"
  have cells: "block_cells ?at n rows columns \<subseteq> panel out (m * n)"
  proof
    fix x assume "x \<in> block_cells ?at n rows columns"
    then obtain i j where ij: "i < rows" "j < columns" "x = ?at + i * n + j"
      using in_rect_iff [of columns n ?at 0 rows 0 x] columns by (auto simp: block_cells_def)
    have x: "x = out + ((row + i) * n + (column + j))" unfolding ij(3) by (simp add: algebra_simps)
    show "x \<in> panel out (m * n)"
      unfolding x using rows(1) columns ij(1,2) by (intro in_matrix) simp_all
  qed
  have lhs: "lhs + ((row + i) * k + p + q) \<in> panel lhs (m * k)" if "i < rows" "q < depth" for i q
    unfolding add.assoc [of "(row + i) * k" p q] using that rows(1) depth(2) by (intro in_matrix) simp_all
  have sep: "A \<inter> B = {}" "A \<inter> panel out (m * n) = {}" "B \<inter> panel out (m * n) = {}"
    "A \<inter> panel lhs (m * k) = {}"
    using B unfolding buffers_def by simp_all
  have apart: "panels_apart ?at n rows columns depth pa pb"
    unfolding panels_apart_def
    using disjoint_mono [OF pa pb sep(1)] disjoint_mono [OF pa cells sep(2)]
      disjoint_mono [OF pb cells sep(3)] by (intro conjI)
  have "lhs_apart lhs k row p rows depth pa"
    using disjoint_mono [OF pa subset_refl sep(4)] lhs unfolding lhs_apart_def disjoint_iff by metis
  from block [OF depth(1) rows(2) _ apart this] columns
  have "agree (panel pa (round_up rows 4 * depth))
      (rect ?at n 0 rows 0 columns (block_value F w lhs k row p depth pb) w)
      (block F k n lhs out row column p rows columns depth pa pb w)" by simp
  moreover have "rect ?at n 0 rows 0 columns (block_value F w lhs k row p depth pb) w =
      rect out n row (row + rows) column (column + columns) (chain F orig lhs rhs k n p (p + depth)) w"
  proof -
    have "rect ?at n 0 rows 0 columns (block_value F w lhs k row p depth pb) w =
        rect out n (row + 0) (row + rows) (column + 0) (column + columns)
          (\<lambda>i j. block_value F w lhs k row p depth pb (i - row) (j - column)) w"
      using columns pos by (intro rect_shift) simp_all
    also have "\<dots> = rect out n (row + 0) (row + rows) (column + 0) (column + columns)
        (chain F orig lhs rhs k n p (p + depth)) w"
    proof (rule rect_cong)
      fix i j v
      assume i: "row + 0 \<le> i" "i < row + rows" and j: "column + 0 \<le> j" "j < column + columns"
      have "block_value F w lhs k row p depth pb (i - row) (j - column) v =
          fold (\<lambda>q. fm_fma F (orig (lhs + (i * k + (p + q)))) (orig (rhs + ((p + q) * n + j)))) [0..<depth]
            (if p \<noteq> 0 then v else fm_zero F)"
        unfolding block_value_def
      proof (intro List.fold_cong refl)
        fix q assume "q \<in> set [0..<depth]"
        then have q: "q < depth" by simp
        have "lhs + ((row + (i - row)) * k + p + q) \<in> panel lhs (m * k)"
          using i by (intro lhs q) simp
        then have "w (lhs + ((row + (i - row)) * k + p + q)) = orig (lhs + ((row + (i - row)) * k + p + q))"
          using B by (intro agree_panel [OF w]) (simp_all add: buffers_def)
        then have "w (lhs + ((row + (i - row)) * k + p + q)) = orig (lhs + (i * k + (p + q)))"
          using i by (simp add: add.assoc)
        moreover have "w (pb + (j - column) div 16 * depth * 16 + q * 16 + (j - column) mod 16) =
            orig (rhs + ((p + q) * n + j))"
          using image [of "j - column" q] j q by simp
        ultimately show "fm_fma F (w (lhs + ((row + (i - row)) * k + p + q)))
            (w (pb + (j - column) div 16 * depth * 16 + q * 16 + (j - column) mod 16)) =
          fm_fma F (orig (lhs + (i * k + (p + q)))) (orig (rhs + ((p + q) * n + j)))"
          by simp
      qed
      also have "\<dots> = chain F orig lhs rhs k n p (p + depth) i j v"
        using fold_shift [of "\<lambda>p. fm_fma F (orig (lhs + (i * k + p))) (orig (rhs + (p * n + j)))" p depth]
          depth(1) by (simp add: chain_def)
      finally show "block_value F w lhs k row p depth pb (i - row) (j - column) v =
          chain F orig lhs rhs k n p (p + depth) i j v" .
    qed
    finally show ?thesis by simp
  qed
  ultimately show ?thesis using pa by (auto intro: agree_mono)
qed

end

lemma agree_after_rect:
  assumes "agree (panel at (m * n) \<union> W) w w'" "rhi \<le> m" "chi \<le> n" "V \<subseteq> W"
    "agree V (rect at n rlo rhi clo chi h w') w''"
  shows "agree (panel at (m * n) \<union> W) w w''"
proof -
  have "agree (panel at (m * n)) w' (rect at n rlo rhi clo chi h w')"
    using rect_in_matrix [OF _ assms(2,3)] by (intro agree_rect)
  then have "agree (panel at (m * n) \<union> W) w' (rect at n rlo rhi clo chi h w')"
    by (rule agree_mono) simp
  moreover have "agree (panel at (m * n) \<union> W) (rect at n rlo rhi clo chi h w') w''"
    using assms(5,4) by (rule agree_mono [OF _ le_supI2])
  ultimately show ?thesis using assms(1) by (blast intro: agree_trans)
qed

lemma strided_chunk: "x < bound \<Longrightarrow> x + min step (bound - x) = min (x + step) (bound::nat)"
  by simp

context block_kernel
begin

text \<open>The row loop of one column block and one depth block.\<close>

lemma block_rows:
  assumes B: "buffers m n k lhs rhs out A B"
    and pa: "panel pa (round_up (min m 128) 4 * depth) \<subseteq> A"
    and pb: "panel pb (round_up columns 16 * depth) \<subseteq> B"
    and columns: "column + columns \<le> n" "0 < columns"
    and depth: "0 < depth" "p + depth \<le> k"
    and w: "agree (panel out (m * n) \<union> A \<union> B) orig w"
    and image: "\<And>j q. j < columns \<Longrightarrow> q < depth \<Longrightarrow>
      w (pb + j div 16 * depth * 16 + q * 16 + j mod 16) = orig (rhs + ((p + q) * n + (column + j)))"
  shows "agree A (rect out n 0 m column (column + columns) (chain F orig lhs rhs k n p (p + depth)) w)
    (fold (\<lambda>row. block F k n lhs out row column p (min 128 (m - row)) columns depth pa pb)
      (strided 0 128 m) w)"
proof -
  let ?OUT = "panel out (m * n)"
  let ?E = "\<lambda>x y. rect out n x y column (column + columns) (chain F orig lhs rhs k n p (p + depth))"
  let ?f = "\<lambda>row. block F k n lhs out row column p (min 128 (m - row)) columns depth pa pb"
  have step: "agree A (?E x (min (x + 128) m) v) (?f x v)"
    if "x < m" "agree (?OUT \<union> A) w v" for x v
  proof -
    have "round_up (min 128 (m - x)) 4 * depth \<le> round_up (min m 128) 4 * depth"
      by (intro mult_le_mono1 round_up_mono) simp
    then have "panel pa (round_up (min 128 (m - x)) 4 * depth) \<subseteq> A"
      by (rule subset_trans [OF panel_mono pa])
    moreover have "agree (?OUT \<union> A \<union> B) orig v"
      by (rule agree_trans [OF w agree_mono [OF that(2)]]) simp
    moreover have "v (pb + j div 16 * depth * 16 + q * 16 + j mod 16) =
        orig (rhs + ((p + q) * n + (column + j)))" if "j < columns" "q < depth" for j q
    proof -
      have "pb + j div 16 * depth * 16 + q * 16 + j mod 16 \<in> B"
        using panel_index [OF that, of 16 pb] pb by auto
      then have "pb + j div 16 * depth * 16 + q * 16 + j mod 16 \<notin> ?OUT \<union> A"
        using B unfolding buffers_def by (auto simp: disjoint_iff)
      with image [OF that] show ?thesis
        using \<open>agree (?OUT \<union> A) w v\<close> by (simp add: agreeD)
    qed
    ultimately have "agree A (rect out n x (x + min 128 (m - x)) column (column + columns)
        (chain F orig lhs rhs k n p (p + depth)) v) (?f x v)"
      using that(1) by (intro block_step [OF B _ pb _ _ columns depth]) simp_all
    then show ?thesis using that(1) by (simp only: strided_chunk)
  qed
  show ?thesis
  proof (rule fold_strided_join [where E = ?E and R = "agree A" and ok = "\<lambda>_. agree (?OUT \<union> A) w"])
    show "agree (?OUT \<union> A) w (?f x v)" if "x < m" "128 dvd x" "agree (?OUT \<union> A) w v" for x v
      by (rule agree_after_rect [OF that(3) _ _ _ step [OF that(1,3)]]) (use columns in simp_all)
    show "?E y m (?E x y v) = ?E x m v" if "x < y" "y < m" "128 dvd x" "128 dvd y" for x y v
      using that by (simp add: rect_join_rows)
  qed (use step in \<open>auto intro: rect_agree agree_trans\<close>)
qed

end

text \<open>The loop over depth blocks, and the loop over column blocks, for any body that does one block of
  them.\<close>

lemma depth_loop:
  assumes columns: "column + columns \<le> n" and "0 < k"
    and body: "\<And>p w. p < k \<Longrightarrow> 256 dvd p \<Longrightarrow> agree (panel out (m * n) \<union> W) orig w \<Longrightarrow>
      agree W (rect out n 0 m column (column + columns)
        (chain F orig lhs rhs k n p (p + min 256 (k - p))) w) (f p w)"
    and w: "agree (panel out (m * n) \<union> W) orig w"
  shows "agree W (rect out n 0 m column (column + columns) (\<lambda>i j _. gemm_cell F orig lhs rhs k n i j) w)
    (fold f (strided 0 256 k) w)"
proof -
  let ?E = "\<lambda>x y. rect out n 0 m column (column + columns) (chain F orig lhs rhs k n x y)"
  have "agree W (?E 0 k w) (fold f (strided 0 256 k) w)"
  proof (rule fold_strided_join [where E = ?E and R = "agree W"
        and ok = "\<lambda>_. agree (panel out (m * n) \<union> W) orig"])
    show step: "agree W (?E x (min (x + 256) k) v) (f x v)"
      if "x < k" "256 dvd x" "agree (panel out (m * n) \<union> W) orig v" for x v
      using body [OF that] that(1) by (simp only: strided_chunk)
    show "agree (panel out (m * n) \<union> W) orig (f x v)"
      if "x < k" "256 dvd x" "agree (panel out (m * n) \<union> W) orig v" for x v
      by (rule agree_after_rect [OF that(3) _ _ _ step [OF that]]) (use columns in simp_all)
    show "?E y k (?E x y v) = ?E x k v" if "x < y" "y < k" "256 dvd x" "256 dvd y" for x y v
      unfolding rect_comp using that by (intro rect_cong) (simp add: chain_join)
    show "?E k k v = v" for v by (simp add: rect_def fun_eq_iff)
  qed (use w in \<open>auto intro: rect_agree agree_trans\<close>)
  moreover have "?E 0 k w = rect out n 0 m column (column + columns) (\<lambda>i j _. gemm_cell F orig lhs rhs k n i j) w"
    using assms(2) by (intro rect_cong) (rule chain_all)
  ultimately show ?thesis by simp
qed

lemma column_blocks:
  assumes body: "\<And>column w. column < n \<Longrightarrow> 256 dvd column \<Longrightarrow> agree (panel out (m * n) \<union> W) orig w \<Longrightarrow>
      agree W (rect out n 0 m column (column + min 256 (n - column)) h w) (f column w)"
    and w: "agree (panel out (m * n) \<union> W) orig w"
    and lo: "lo \<le> hi" "256 dvd lo" "hi \<le> n" "hi = n \<or> 256 dvd hi"
  shows "agree W (rect out n 0 m lo hi h w) (fold f (strided lo 256 hi) w)"
proof -
  let ?E = "\<lambda>x y. rect out n 0 m x y h"
  have step: "agree W (?E x (min (x + 256) hi) v) (f x v)"
    if "x < hi" "256 dvd x" "agree (panel out (m * n) \<union> W) orig v" for x v
  proof -
    have "min (x + 256) hi = x + min 256 (n - x)"
    proof (cases "hi = n")
      case False
      then have "x + 256 \<le> hi"
        using lo(4) that(1,2) by (auto elim!: dvdE)
      then show ?thesis using lo(3) by simp
    qed (use that(1) in simp)
    then show ?thesis using body [of x v] that lo(3) by simp
  qed
  show ?thesis
  proof (rule fold_strided_join [where E = ?E and R = "agree W"
        and ok = "\<lambda>_. agree (panel out (m * n) \<union> W) orig"])
    show "agree (panel out (m * n) \<union> W) orig (f x v)"
      if "x < hi" "256 dvd x" "agree (panel out (m * n) \<union> W) orig v" for x v
      by (rule agree_after_rect [OF that(3) _ _ _ step [OF that]]) (use lo(3) in simp_all)
    show "?E y hi (?E x y v) = ?E x hi v" if "x < y" "y < hi" "256 dvd x" "256 dvd y" for x y v
      using that by (simp add: rect_join_columns)
  qed (use step w lo in \<open>auto intro: rect_agree agree_trans\<close>)
qed

text \<open>What packing one block of B writes.\<close>

lemma packed_values:
  fixes w :: "'f fmem" and F :: "'f fma_ops"
  assumes apart: "panel pb (round_up columns 16 * depth) \<inter> panel rhs (k * n) = {}"
    and columns: "column + columns \<le> n" and depth: "0 < depth" "p + depth \<le> k"
  defines "r \<equiv> cpu_pack_b_block_v1 F rhs n p column depth columns pb w"
  shows "agree (panel pb (round_up columns 16 * depth)) w (fst r)"
    "snd r = round_up columns 16 * depth"
    "j < columns \<Longrightarrow> q < depth \<Longrightarrow>
      fst r (pb + j div 16 * depth * 16 + q * 16 + j mod 16) = w (rhs + ((p + q) * n + (column + j)))"
proof -
  have rhs: "rhs + ((p + q) * n + column + j) \<in> panel rhs (k * n)" if "j < columns" "q < depth" for j q
    unfolding add.assoc [of "(p + q) * n" column j] using that columns depth by (intro in_matrix) simp_all
  then have out: "rhs + ((p + q) * n + column + j) \<notin> panel pb (round_up columns 16 * depth)"
    if "j < columns" "q < depth" for j q
    using apart that by blast
  have pack: "fst r x = (if x \<in> panel pb (round_up columns 16 * depth)
      then panel_value 16 depth (b_values F w rhs n p column columns) (x - pb) else w x)" for x
    unfolding r_def by (rule pack_b_effect(1) [OF depth(1) out])
  show "agree (panel pb (round_up columns 16 * depth)) w (fst r)"
    by (simp add: agree_def pack)
  show "snd r = round_up columns 16 * depth"
    unfolding r_def by (rule pack_b_effect(2) [OF depth(1) out])
  assume jq: "j < columns" "q < depth"
  show "fst r (pb + j div 16 * depth * 16 + q * 16 + j mod 16) = w (rhs + ((p + q) * n + (column + j)))"
    using panel_index [OF jq, of 16 pb] panel_value_at [OF jq(2), of "j mod 16" 16
        "b_values F w rhs n p column columns" "j div 16"] jq(1)
    by (simp add: pack b_values_def add.assoc)
qed

lemma packed_b_image:
  fixes w :: "'f fmem" and F :: "'f fma_ops"
  assumes B: "buffers m n k lhs rhs out A B" "panel pb (round_up columns 16 * depth) \<subseteq> B"
    and columns: "column + columns \<le> n" and depth: "0 < depth" "p + depth \<le> k"
    and w: "agree (panel out (m * n) \<union> A \<union> B) orig w"
  defines "w1 \<equiv> fst (cpu_pack_b_block_v1 F rhs n p column depth columns pb w)"
  shows "agree (panel pb (round_up columns 16 * depth)) w w1"
    "j < columns \<Longrightarrow> q < depth \<Longrightarrow>
      w1 (pb + j div 16 * depth * 16 + q * 16 + j mod 16) = orig (rhs + ((p + q) * n + (column + j)))"
proof -
  have "panel pb (round_up columns 16 * depth) \<inter> panel rhs (k * n) = {}"
    using B by (intro disjoint_mono [OF B(2) subset_refl]) (simp add: buffers_def)
  note pack = packed_values [OF this columns depth, where F = F and w = w, folded w1_def]
  show "agree (panel pb (round_up columns 16 * depth)) w w1" by (rule pack(1))
  assume jq: "j < columns" "q < depth"
  have "rhs + ((p + q) * n + (column + j)) \<in> panel rhs (k * n)"
    using jq columns depth by (intro in_matrix) simp_all
  then have "w (rhs + ((p + q) * n + (column + j))) = orig (rhs + ((p + q) * n + (column + j)))"
    using B(1) by (intro agree_panel [OF w]) (simp_all add: buffers_def)
  with pack(3) [OF jq] show "w1 (pb + j div 16 * depth * 16 + q * 16 + j mod 16) =
      orig (rhs + ((p + q) * n + (column + j)))" by simp
qed

context block_kernel
begin

lemma packed_loops_result:
  assumes B: "buffers m n k lhs rhs out A B" and "0 < k"
    and pa: "panel pa (round_up (min m 128) 4 * min k 256) \<subseteq> A"
    and pb: "panel pb (round_up (min n 256) 16 * min k 256) \<subseteq> B"
  shows "agree (A \<union> B) (rect out n 0 m 0 n (\<lambda>i j _. gemm_cell F mem lhs rhs k n i j) mem)
    (packed_loops block F m n k lhs rhs out pa pb mem)"
  unfolding packed_loops_def Let_def
proof (rule column_blocks)
  fix column w
  assume c: "column < n" and w: "agree (panel out (m * n) \<union> (A \<union> B)) mem w"
  let ?c = "min 256 (n - column)"
  show "agree (A \<union> B) (rect out n 0 m column (column + ?c) (\<lambda>i j _. gemm_cell F mem lhs rhs k n i j) w)
    (fold (\<lambda>p v. fold (\<lambda>row. block F k n lhs out row column p (min 128 (m - row)) ?c (min 256 (k - p)) pa pb)
        (strided 0 128 m) (fst (cpu_pack_b_block_v1 F rhs n p column (min 256 (k - p)) ?c pb v)))
      (strided 0 256 k) w)"
  proof (rule depth_loop [OF _ assms(2) _ w])
    fix p v
    assume p: "p < k" and v: "agree (panel out (m * n) \<union> (A \<union> B)) mem v"
    let ?d = "min 256 (k - p)"
    let ?v = "fst (cpu_pack_b_block_v1 F rhs n p column ?d ?c pb v)"
    have "round_up ?c 16 * ?d \<le> round_up (min n 256) 16 * min k 256"
      using c p by (intro mult_le_mono round_up_mono) simp_all
    then have pb': "panel pb (round_up ?c 16 * ?d) \<subseteq> B" by (rule subset_trans [OF panel_mono pb])
    have "round_up (min m 128) 4 * ?d \<le> round_up (min m 128) 4 * min k 256"
      by (intro mult_le_mono2) simp
    then have pa': "panel pa (round_up (min m 128) 4 * ?d) \<subseteq> A" by (rule subset_trans [OF panel_mono pa])
    have cd: "column + ?c \<le> n" "0 < ?c" "0 < ?d" "p + ?d \<le> k" using c p by simp_all
    note v' = v [folded Un_assoc]
    note image = packed_b_image [OF B pb' cd(1,3,4) v', where F = F]
    have v1: "agree B v ?v" using image(1) pb' by (rule agree_mono)
    have "agree (panel out (m * n) \<union> A \<union> B) mem ?v"
      using v' agree_mono [OF v1] by (rule agree_trans) simp
    then have "agree A (rect out n 0 m column (column + ?c) (chain F mem lhs rhs k n p (p + ?d)) ?v)
      (fold (\<lambda>row. block F k n lhs out row column p (min 128 (m - row)) ?c ?d pa pb) (strided 0 128 m) ?v)"
      by (rule block_rows [where w = ?v, OF B pa' pb' cd]) (rule image(2))
    moreover have "agree B (rect out n 0 m column (column + ?c) (chain F mem lhs rhs k n p (p + ?d)) v)
        (rect out n 0 m column (column + ?c) (chain F mem lhs rhs k n p (p + ?d)) ?v)"
      using v1 by (rule rect_agree)
    ultimately show "agree (A \<union> B)
        (rect out n 0 m column (column + ?c) (chain F mem lhs rhs k n p (p + ?d)) v)
        (fold (\<lambda>row. block F k n lhs out row column p (min 128 (m - row)) ?c ?d pa pb) (strided 0 128 m) ?v)"
      by (meson agree_mono agree_trans sup_ge1 sup_ge2)
  qed (use c in simp)
qed simp_all

end

section \<open>Loops that carry an offset\<close>

lemma fold_strided_offset:
  assumes "0 < step"
    and next_at: "\<And>x. x < bound \<Longrightarrow> step dvd x \<Longrightarrow> at x + d x = at (min (x + step) bound)"
    and f: "\<And>x m. x < bound \<Longrightarrow> step dvd x \<Longrightarrow> f x (m, at x) = (g x m, at x + d x)"
  shows "lo \<le> bound \<Longrightarrow> step dvd lo \<Longrightarrow> fold f (strided lo step bound) (m, at lo) =
    (fold g (strided lo step bound) m, at bound)"
proof (induction "bound - lo" arbitrary: lo m rule: less_induct)
  case less
  show ?case
  proof (cases "lo < bound")
    case True
    have unfold: "strided lo step bound = lo # strided (lo + step) step bound"
      using True assms(1) by (subst strided.simps) simp
    show ?thesis
    proof (cases "lo + step < bound")
      case inner: True
      then show ?thesis
        using less.hyps [of "lo + step" "g lo m"] less.prems True assms(1) f [of lo m] next_at [of lo]
        by (simp add: unfold)
    next
      case False
      then have "strided (lo + step) step bound = []" by (subst strided.simps) simp
      then show ?thesis using False True less.prems f [of lo m] next_at [of lo] by (simp add: unfold)
    qed
  next
    case False
    then have "strided lo step bound = []" by (subst strided.simps) simp
    moreover have "lo = bound" using False less.prems by simp
    ultimately show ?thesis by simp
  qed
qed

lemma fold_strided_invariant:
  assumes "0 < step"
    and keep: "\<And>x m. x < bound \<Longrightarrow> step dvd x \<Longrightarrow> ok x m \<Longrightarrow> ok (min (x + step) bound) (f x m)"
    and "lo \<le> bound" "step dvd lo" "ok lo m"
  shows "ok bound (fold f (strided lo step bound) m)"
  using assms(3-5)
proof (induction "bound - lo" arbitrary: lo m rule: less_induct)
  case less
  show ?case
  proof (cases "lo < bound")
    case True
    have unfold: "strided lo step bound = lo # strided (lo + step) step bound"
      using True assms(1) by (subst strided.simps) simp
    have f: "ok (min (lo + step) bound) (f lo m)" using True less.prems by (intro keep)
    show ?thesis
    proof (cases "lo + step < bound")
      case inner: True
      then show ?thesis
        using less.hyps [of "lo + step" "f lo m"] less.prems f assms(1) by (simp add: unfold)
    next
      case False
      then have "strided (lo + step) step bound = []" by (subst strided.simps) simp
      then show ?thesis using f False by (simp add: unfold)
    qed
  next
    case False
    then have "strided lo step bound = []" by (subst strided.simps) simp
    moreover have "lo = bound" using False less.prems by simp
    ultimately show ?thesis using less.prems by simp
  qed
qed

section \<open>The packed image of B\<close>

text \<open>Where the image begins a column block, and a depth block of it.\<close>

definition column_offset :: "nat \<Rightarrow> nat \<Rightarrow> nat" where
  "column_offset k column = round_up column 16 * k"

definition depth_offset :: "nat \<Rightarrow> nat \<Rightarrow> nat \<Rightarrow> nat \<Rightarrow> nat" where
  "depth_offset n k column p = column_offset k column + round_up (min 256 (n - column)) 16 * p"

lemma round_up_multiple: "q dvd v \<Longrightarrow> 0 < q \<Longrightarrow> round_up v q = v"
  by (simp add: round_up_cases)

lemma round_up_add:
  assumes "q dvd a" "0 < q"
  shows "round_up (a + b) q = a + round_up b q"
proof -
  obtain c where a: "a = q * c" using assms(1) ..
  have "(a + b) mod q = b mod q" by (simp add: a)
  then show ?thesis
    using assms mod_less_divisor [OF assms(2), of b] by (auto simp: round_up_cases)
qed

lemma next_multiple:
  fixes a b q :: nat
  assumes "q dvd a" "q dvd b" "a < b"
  shows "a + q \<le> b"
proof -
  have "q \<le> b - a" using assms by (intro dvd_imp_le dvd_diff_nat) simp_all
  then show ?thesis using assms(3) by simp
qed

lemma column_multiple: "256 dvd column \<Longrightarrow> column_offset k column = column * k"
  by (simp add: column_offset_def round_up_multiple dvd_trans [of 16 256])

lemma column_next:
  assumes "column < n" "256 dvd column"
  shows "column_offset k column + round_up (min 256 (n - column)) 16 * k =
    column_offset k (min (column + 256) n)"
proof -
  have d: "16 dvd column" using assms(2) by (rule dvd_trans [rotated]) simp
  have "min (column + 256) n = column + min 256 (n - column)" using assms(1) by simp
  then have "round_up (min (column + 256) n) 16 = column + round_up (min 256 (n - column)) 16"
    by (simp only: round_up_add [OF d])
  then show ?thesis
    using d by (simp add: column_offset_def round_up_multiple add_mult_distrib)
qed

lemma depth_end: "depth_offset n k column k = column_offset k column + round_up (min 256 (n - column)) 16 * k"
  by (simp add: depth_offset_def)

text \<open>The slot of element \<open>(p, j)\<close> of B in the image.\<close>

definition image_slot :: "nat \<Rightarrow> nat \<Rightarrow> nat \<Rightarrow> nat \<Rightarrow> nat" where
  "image_slot n k j p =
    (let column = j div 256 * 256; p0 = p div 256 * 256
     in depth_offset n k column p0 + (j - column) div 16 * min 256 (k - p0) * 16 +
          (p - p0) * 16 + (j - column) mod 16)"

lemma image_slot_block:
  assumes "256 dvd column" "256 dvd p" "j < 256" "q < 256"
  shows "image_slot n k (column + j) (p + q) =
    depth_offset n k column p + j div 16 * min 256 (k - p) * 16 + q * 16 + j mod 16"
proof -
  have "(column + j) div 256 * 256 = column" "(p + q) div 256 * 256 = p"
    using assms by (auto elim!: dvdE)
  then show ?thesis by (simp add: image_slot_def Let_def)
qed

lemma block_decompose:
  obtains c d where "(j::nat) = c + d" "256 dvd c" "d < 256" "c \<le> j"
proof
  show "j = j div 256 * 256 + j mod 256" by simp
qed simp_all

lemma image_slot_bound:
  assumes "j < n" "p < k" "256 dvd column" "256 dvd p0" "column < n"
    and earlier: "j < column \<or> j < column + 256 \<and> p < p0"
  shows "image_slot n k j p < depth_offset n k column p0"
proof -
  obtain c d where c: "j = c + d" "256 dvd c" "d < 256" by (rule block_decompose)
  obtain b q where b: "p = b + q" "256 dvd b" "q < 256" by (rule block_decompose)
  let ?w = "round_up (min 256 (n - c)) 16" and ?h = "min 256 (k - b)"
  have in_block: "d < min 256 (n - c)" "q < ?h" using c b assms(1,2) by simp_all
  have "d div 16 * ?h * 16 + q * 16 + d mod 16 < ?w * ?h"
    using panel_index [OF in_block, of 16 0] by (simp add: panel_def)
  then have s: "image_slot n k j p < column_offset k c + ?w * b + ?w * ?h"
    unfolding c(1) b(1) image_slot_block [OF c(2) b(2) c(3) b(3)] depth_offset_def by linarith
  have w: "?w \<le> 256" by (rule round_up_le) simp_all
  show ?thesis
  proof (cases "j < column")
    case True
    then have "c + 256 \<le> column" using c assms(3) by (intro next_multiple) simp_all
    then have "c * k + 256 * k \<le> column * k" by (simp flip: add_mult_distrib)
    moreover have "?w * b + ?w * ?h \<le> 256 * k"
    proof -
      have "b + ?h \<le> k" using b(1) assms(2) by simp
      then have "?w * (b + ?h) \<le> 256 * k" using w by (rule mult_le_mono [rotated])
      then show ?thesis by (simp add: add_mult_distrib2)
    qed
    moreover have "column_offset k c = c * k" "column * k \<le> depth_offset n k column p0"
      using c(2) assms(3) by (simp_all add: column_multiple depth_offset_def)
    ultimately show ?thesis using s by linarith
  next
    case False
    then have p: "p < p0" and "j < column + 256" using earlier by simp_all
    then have cc: "c = column"
      using False c assms(3) next_multiple [of 256 c column] next_multiple [of 256 column c] by linarith
    have "b + 256 \<le> p0" using p b assms(4) by (intro next_multiple) simp_all
    then have "?w * (b + ?h) \<le> ?w * p0" by (intro mult_le_mono2) simp
    then show ?thesis using s cc by (simp add: depth_offset_def add_mult_distrib2)
  qed
qed

text \<open>\<open>image_at\<close>: the memory holds the packed image of B at slot \<open>pb\<close>.\<close>

definition image_at :: "'f fmem \<Rightarrow> nat \<Rightarrow> nat \<Rightarrow> nat \<Rightarrow> nat \<Rightarrow> 'f fmem \<Rightarrow> bool" where
  "image_at orig rhs n k pb m \<longleftrightarrow>
     (\<forall>j p. j < n \<longrightarrow> p < k \<longrightarrow> m (pb + image_slot n k j p) = orig (rhs + (p * n + j)))"

lemma image_block:
  assumes "image_at orig rhs n k pb m" "256 dvd column" "256 dvd p"
    and "j < min 256 (n - column)" "q < min 256 (k - p)"
  shows "m (pb + depth_offset n k column p + j div 16 * min 256 (k - p) * 16 + q * 16 + j mod 16) =
    orig (rhs + ((p + q) * n + (column + j)))"
proof -
  have "column + j < n" "p + q < k" using assms(4,5) by (simp_all add: less_diff_conv ac_simps)
  then have "m (pb + image_slot n k (column + j) (p + q)) = orig (rhs + ((p + q) * n + (column + j)))"
    using assms(1,4,5) unfolding image_at_def by blast
  moreover have "image_slot n k (column + j) (p + q) =
      depth_offset n k column p + j div 16 * min 256 (k - p) * 16 + q * 16 + j mod 16"
    using assms(2-5) by (intro image_slot_block) simp_all
  ultimately show ?thesis by (simp only: add.assoc)
qed

lemma image_slot_inside:
  assumes "j < n" "p < k"
  shows "image_slot n k j p < round_up n 16 * k"
proof -
  obtain c d where c: "j = c + d" "256 dvd c" "d < 256" by (rule block_decompose)
  obtain b q where b: "p = b + q" "256 dvd b" "q < 256" by (rule block_decompose)
  let ?w = "round_up (min 256 (n - c)) 16" and ?h = "min 256 (k - b)"
  have in_block: "d < min 256 (n - c)" "q < ?h" using c b assms by simp_all
  have "d div 16 * ?h * 16 + q * 16 + d mod 16 < ?w * ?h"
    using panel_index [OF in_block, of 16 0] by (simp add: panel_def)
  then have "image_slot n k j p < column_offset k c + ?w * (b + ?h)"
    unfolding c(1) b(1) image_slot_block [OF c(2) b(2) c(3) b(3)] depth_offset_def add_mult_distrib2
    by linarith
  also have "\<dots> \<le> column_offset k c + ?w * k"
    using b(1) assms(2) by (intro add_left_mono mult_le_mono2) simp
  also have "\<dots> = column_offset k (min (c + 256) n)"
    using c assms(1) by (intro column_next) simp_all
  also have "\<dots> \<le> round_up n 16 * k"
    unfolding column_offset_def by (intro mult_le_mono1 round_up_mono) simp
  finally show ?thesis .
qed

text \<open>Preparation writes exactly the image.\<close>

lemma block_fits:
  assumes "column < n" "p < k" "256 dvd column"
  shows "depth_offset n k column p + round_up (min 256 (n - column)) 16 * min 256 (k - p) =
      depth_offset n k column (min (p + 256) k)"
    "depth_offset n k column (min (p + 256) k) \<le> round_up n 16 * k"
proof -
  have s: "min (p + 256) k = p + min 256 (k - p)" using assms(2) by simp
  show "depth_offset n k column p + round_up (min 256 (n - column)) 16 * min 256 (k - p) =
      depth_offset n k column (min (p + 256) k)"
    unfolding s by (simp add: depth_offset_def add_mult_distrib2)
  have "depth_offset n k column (min (p + 256) k) \<le> depth_offset n k column k"
    unfolding depth_offset_def by (intro add_left_mono mult_le_mono2) simp
  also have "\<dots> = column_offset k (min (column + 256) n)"
    unfolding depth_end using assms by (intro column_next)
  also have "\<dots> \<le> round_up n 16 * k"
    unfolding column_offset_def by (intro mult_le_mono1 round_up_mono) simp
  finally show "depth_offset n k column (min (p + 256) k) \<le> round_up n 16 * k" .
qed

text \<open>The part of the image written when the loops reach a column block and a depth block.\<close>

definition image_upto ::
  "'f fmem \<Rightarrow> nat \<Rightarrow> nat \<Rightarrow> nat \<Rightarrow> nat \<Rightarrow> nat \<Rightarrow> nat \<Rightarrow> 'f fmem \<Rightarrow> bool" where
  "image_upto orig rhs n k pb column p0 m \<longleftrightarrow>
     agree (panel pb (round_up n 16 * k)) orig m \<and>
     (\<forall>j p. j < n \<longrightarrow> p < k \<longrightarrow> j < column \<or> j < column + 256 \<and> p < p0 \<longrightarrow>
        m (pb + image_slot n k j p) = orig (rhs + (p * n + j)))"

lemma image_step:
  fixes orig w :: "'f fmem" and F :: "'f fma_ops"
  assumes apart: "panel pb (round_up n 16 * k) \<inter> panel rhs (k * n) = {}"
    and c: "column < n" "256 dvd column" and p: "p < k" "256 dvd p"
    and w: "image_upto orig rhs n k pb column p w"
  shows "image_upto orig rhs n k pb column (min (p + 256) k)
    (fst (cpu_pack_b_block_v1 F rhs n p column (min 256 (k - p)) (min 256 (n - column))
      (pb + depth_offset n k column p) w))" (is "image_upto _ _ _ _ _ _ _ ?w")
    and "snd (cpu_pack_b_block_v1 F rhs n p column (min 256 (k - p)) (min 256 (n - column))
      (pb + depth_offset n k column p) w) = round_up (min 256 (n - column)) 16 * min 256 (k - p)"
proof -
  let ?c = "min 256 (n - column)" and ?d = "min 256 (k - p)" and ?at = "depth_offset n k column p"
  have inside: "panel (pb + ?at) (round_up ?c 16 * ?d) \<subseteq> panel pb (round_up n 16 * k)"
    using block_fits [OF c(1) p(1) c(2)] by (auto simp: panel_def)
  have cd: "column + ?c \<le> n" "0 < ?d" "p + ?d \<le> k" using c p by simp_all
  note pack = packed_values [OF disjoint_mono [OF inside subset_refl apart] cd, where F = F and w = w]
  show "snd (cpu_pack_b_block_v1 F rhs n p column ?d ?c (pb + ?at) w) = round_up ?c 16 * ?d"
    by (rule pack(2))
  have wa: "agree (panel pb (round_up n 16 * k)) orig w"
    using w by (simp add: image_upto_def)
  show "image_upto orig rhs n k pb column (min (p + 256) k) ?w"
    unfolding image_upto_def
  proof (intro conjI allI impI)
    show "agree (panel pb (round_up n 16 * k)) orig ?w"
      using wa agree_mono [OF pack(1) inside] by (rule agree_trans)
  next
    fix j q
    assume j: "j < n" and q: "q < k" and upto: "j < column \<or> j < column + 256 \<and> q < min (p + 256) k"
    show "?w (pb + image_slot n k j q) = orig (rhs + (q * n + j))"
    proof (cases "j < column \<or> j < column + 256 \<and> q < p")
      case True
      have "image_slot n k j q < ?at" using image_slot_bound [OF j q c(2) p(2) c(1) True] .
      then have "pb + image_slot n k j q \<notin> panel (pb + ?at) (round_up ?c 16 * ?d)"
        by (simp add: panel_def)
      then have "?w (pb + image_slot n k j q) = w (pb + image_slot n k j q)"
        by (rule agreeD [OF pack(1)])
      also have "\<dots> = orig (rhs + (q * n + j))"
        using w True j q unfolding image_upto_def by blast
      finally show ?thesis .
    next
      case False
      then have jq: "column \<le> j" "j - column < ?c" "p \<le> q" "q - p < ?d" using upto j q by auto
      have "image_slot n k (column + (j - column)) (p + (q - p)) =
          ?at + (j - column) div 16 * ?d * 16 + (q - p) * 16 + (j - column) mod 16"
        using jq by (intro image_slot_block c p) simp_all
      then have s: "pb + image_slot n k j q = pb + ?at + (j - column) div 16 * ?d * 16 + (q - p) * 16 + (j - column) mod 16"
        using jq by simp
      have "?w (pb + image_slot n k j q) = w (rhs + ((p + (q - p)) * n + (column + (j - column))))"
        unfolding s by (rule pack(3) [OF jq(2,4)])
      also have "\<dots> = w (rhs + (q * n + j))" using jq by simp
      also have "\<dots> = orig (rhs + (q * n + j))"
        using apart in_matrix [OF q j, of rhs] by (intro agreeD [OF wa]) blast
      finally show ?thesis .
    qed
  qed
qed

lemma prepare_loops_result:
  fixes mem :: "'f fmem" and F :: "'f fma_ops"
  assumes apart: "panel pb (round_up n 16 * k) \<inter> panel rhs (k * n) = {}" and "0 < k"
  shows "snd (prepare_loops F n k rhs pb mem) = round_up n 16 * k"
    "agree (panel pb (round_up n 16 * k)) mem (fst (prepare_loops F n k rhs pb mem))"
    "image_at mem rhs n k pb (fst (prepare_loops F n k rhs pb mem))"
proof -
  let ?body = "\<lambda>column p (w, elements). let depth = min 256 (k - p);
      (w, written) = cpu_pack_b_block_v1 F rhs n p column depth (min 256 (n - column)) (pb + elements) w
    in (w, elements + written)"
  let ?ok = "\<lambda>column (w, elements). elements = column_offset k column \<and>
    image_upto mem rhs n k pb column 0 w"
  have "?ok n (fold (\<lambda>column. fold (?body column) (strided 0 256 k)) (strided 0 256 n) (mem, 0))"
  proof (rule fold_strided_invariant [where ok = ?ok])
    fix column and s :: "'f fmem \<times> nat"
    assume c: "column < n" "256 dvd column" and s: "?ok column s"
    let ?okp = "\<lambda>p (w, elements). elements = depth_offset n k column p \<and>
      image_upto mem rhs n k pb column p w"
    have "?okp k (fold (?body column) (strided 0 256 k) s)"
    proof (rule fold_strided_invariant [where ok = ?okp])
      fix p and t :: "'f fmem \<times> nat"
      assume p: "p < k" "256 dvd p" and t: "?okp p t"
      then have w: "image_upto mem rhs n k pb column p (fst t)" "snd t = depth_offset n k column p"
        by (simp_all add: case_prod_beta)
      show "?okp (min (p + 256) k) (?body column p t)"
        using image_step [OF apart c p w(1), where F = F] block_fits(1) [OF c(1) p(1) c(2)] w(2)
        by (simp add: case_prod_beta Let_def)
    qed (use s in \<open>simp_all add: case_prod_beta depth_offset_def\<close>)
    then have "snd (fold (?body column) (strided 0 256 k) s) = column_offset k (min (column + 256) n)"
      "image_upto mem rhs n k pb column k (fst (fold (?body column) (strided 0 256 k) s))"
      using column_next [OF c, of k] by (simp_all add: case_prod_beta depth_end)
    moreover have "image_upto mem rhs n k pb (min (column + 256) n) 0 v"
      if "image_upto mem rhs n k pb column k v" for v
      using that by (auto simp: image_upto_def)
    ultimately show "?ok (min (column + 256) n) (fold (?body column) (strided 0 256 k) s)"
      by (simp add: case_prod_beta)
  qed (simp_all add: column_offset_def round_up_def image_upto_def)
  moreover have "fold (\<lambda>column. fold (?body column) (strided 0 256 k)) (strided 0 256 n) (mem, 0) =
      prepare_loops F n k rhs pb mem"
    by (simp add: prepare_loops_def Let_def)
  ultimately have ok: "?ok n (prepare_loops F n k rhs pb mem)" by simp
  then show "snd (prepare_loops F n k rhs pb mem) = round_up n 16 * k"
    "agree (panel pb (round_up n 16 * k)) mem (fst (prepare_loops F n k rhs pb mem))"
    "image_at mem rhs n k pb (fst (prepare_loops F n k rhs pb mem))"
    by (simp_all add: case_prod_beta column_offset_def image_upto_def image_at_def)
qed

section \<open>Execution from a packed image\<close>

lemma padded_word:
  assumes "columns \<le> 256"
  shows "(case checked_round_up (of_nat columns) kCpuPackedGemmNrV1 of
      Some padded \<Rightarrow> unat padded | None \<Rightarrow> 0) = round_up columns 16"
proof -
  have r: "unat (of_nat columns :: u64) = columns" using assms by (intro unat_of_nat64) simp
  have lt: "round_up columns 16 \<le> 256" using assms by (intro round_up_le) simp_all
  then have "checked_round_up (of_nat columns) 16 = Some (of_nat (round_up columns 16))"
    using round_up_word [of 16 "of_nat columns"] r by simp
  moreover have "unat (of_nat (round_up columns 16) :: u64) = round_up columns 16"
    using lt by (intro unat_of_nat64) simp
  ultimately show ?thesis by (simp add: packed_constants)
qed

text \<open>The memory of the loops, with the offset computed from the position.\<close>

definition prepacked_body ::
  "'f block_routine \<Rightarrow> 'f fma_ops \<Rightarrow> nat \<Rightarrow> nat \<Rightarrow> nat \<Rightarrow> nat \<Rightarrow> nat \<Rightarrow> nat \<Rightarrow> nat \<Rightarrow> nat \<Rightarrow> nat \<Rightarrow> 'f fmem \<Rightarrow> 'f fmem" where
  "prepacked_body block F m n k lhs out pa pb column p =
     fold (\<lambda>row. block F k n lhs out row column p (min 128 (m - row)) (min 256 (n - column))
       (min 256 (k - p)) pa (pb + depth_offset n k column p)) (strided 0 128 m)"

lemma prepacked_loops_memory:
  "fst (prepacked_loops block F m n k lhs out pa pb mem) =
     fold (\<lambda>column. fold (prepacked_body block F m n k lhs out pa pb column) (strided 0 256 k))
       (strided 0 256 n) mem"
proof -
  let ?inner = "\<lambda>column p (mem, packed_offset).
            let depth = min 256 (k - p);
                current_packed_b = pb + packed_offset;
                mem = fold (\<lambda>row.
                  let rows = min 128 (m - row)
                  in block F k n lhs out row column p rows (min 256 (n - column)) depth pa current_packed_b)
                  (strided 0 128 m) mem
            in (mem, packed_offset + round_up (min 256 (n - column)) 16 * depth)"
  have inner: "fold (?inner column) (strided 0 256 k) (v, column_offset k column) =
      (fold (prepacked_body block F m n k lhs out pa pb column) (strided 0 256 k) v,
       column_offset k column + round_up (min 256 (n - column)) 16 * k)"
    if "column < n" "256 dvd column" for column v
  proof -
    have "fold (?inner column) (strided 0 256 k) (v, depth_offset n k column 0) =
      (fold (prepacked_body block F m n k lhs out pa pb column) (strided 0 256 k) v,
       depth_offset n k column k)"
      by (rule fold_strided_offset
          [where d = "\<lambda>p. round_up (min 256 (n - column)) 16 * min 256 (k - p)"])
        (simp_all add: block_fits(1) [OF that(1) _ that(2)] prepacked_body_def Let_def)
    then show ?thesis by (simp add: depth_offset_def)
  qed
  have "fold (\<lambda>column. fold (?inner column) (strided 0 256 k)) (strided 0 256 n) (mem, column_offset k 0) =
      (fold (\<lambda>column. fold (prepacked_body block F m n k lhs out pa pb column) (strided 0 256 k))
       (strided 0 256 n) mem, column_offset k n)"
  proof (rule fold_strided_offset [where d = "\<lambda>column. round_up (min 256 (n - column)) 16 * k"])
    show "column_offset k x + round_up (min 256 (n - x)) 16 * k = column_offset k (min (x + 256) n)"
      if "x < n" "256 dvd x" for x
      using that by (rule column_next)
  qed (use inner in \<open>simp_all only: zero_less_numeral le0 dvd_0_right\<close>)
  moreover have "prepacked_loops block F m n k lhs out pa pb mem =
      fold (\<lambda>column. fold (?inner column) (strided 0 256 k)) (strided 0 256 n) (mem, column_offset k 0)"
    by (simp add: prepacked_loops_def Let_def padded_word column_offset_def round_up_def)
  ultimately show ?thesis by simp
qed

context block_kernel
begin

text \<open>One depth block of one column block, from the image.\<close>

lemma prepacked_body_result:
  assumes B: "buffers m n k lhs rhs out A B"
    and pa: "panel pa (round_up (min m 128) 4 * min k 256) \<subseteq> A"
    and pb: "panel pb (round_up n 16 * k) \<subseteq> B"
    and image: "image_at orig rhs n k pb orig"
    and c: "column < n" "256 dvd column" and p: "p < k" "256 dvd p"
    and w: "agree (panel out (m * n) \<union> A) orig w"
  shows "agree A (rect out n 0 m column (column + min 256 (n - column))
      (chain F orig lhs rhs k n p (p + min 256 (k - p))) w)
    (prepacked_body block F m n k lhs out pa pb column p w)"
proof -
  let ?c = "min 256 (n - column)" and ?d = "min 256 (k - p)" and ?at = "depth_offset n k column p"
  have "round_up (min m 128) 4 * ?d \<le> round_up (min m 128) 4 * min k 256"
    by (intro mult_le_mono2) simp
  then have pa': "panel pa (round_up (min m 128) 4 * ?d) \<subseteq> A" by (rule subset_trans [OF panel_mono pa])
  have "panel (pb + ?at) (round_up ?c 16 * ?d) \<subseteq> panel pb (round_up n 16 * k)"
    using block_fits [OF c(1) p(1) c(2)] by (auto simp: panel_def)
  then have pb': "panel (pb + ?at) (round_up ?c 16 * ?d) \<subseteq> B" using pb by (rule subset_trans)
  have cd: "column + ?c \<le> n" "0 < ?c" "0 < ?d" "p + ?d \<le> k" using c p by simp_all
  have w': "agree (panel out (m * n) \<union> A \<union> B) orig w" by (rule agree_mono [OF w]) simp
  have img: "w (pb + ?at + j div 16 * ?d * 16 + q * 16 + j mod 16) =
      orig (rhs + ((p + q) * n + (column + j)))" if "j < ?c" "q < ?d" for j q
  proof -
    have "pb + ?at + j div 16 * ?d * 16 + q * 16 + j mod 16 \<in> B"
      using panel_index [OF that, of 16 "pb + ?at"] pb' by auto
    then have "pb + ?at + j div 16 * ?d * 16 + q * 16 + j mod 16 \<notin> panel out (m * n) \<union> A"
      using B unfolding buffers_def by (auto simp: disjoint_iff)
    then show ?thesis
      using image_block [OF image c(2) p(2) that] by (simp add: agreeD [OF w])
  qed
  show ?thesis
    unfolding prepacked_body_def by (rule block_rows [where w = w, OF B pa' pb' cd w' img])
qed

lemma prepacked_loops_result:
  assumes B: "buffers m n k lhs rhs out A B" and "0 < k"
    and pa: "panel pa (round_up (min m 128) 4 * min k 256) \<subseteq> A"
    and pb: "panel pb (round_up n 16 * k) \<subseteq> B"
    and image: "image_at mem rhs n k pb mem"
  shows "agree A (rect out n 0 m 0 n (\<lambda>i j _. gemm_cell F mem lhs rhs k n i j) mem)
    (fst (prepacked_loops block F m n k lhs out pa pb mem))"
  unfolding prepacked_loops_memory
proof (rule column_blocks)
  fix column w
  assume c: "column < n" "256 dvd column" and w: "agree (panel out (m * n) \<union> A) mem w"
  show "agree A (rect out n 0 m column (column + min 256 (n - column))
      (\<lambda>i j _. gemm_cell F mem lhs rhs k n i j) w)
    (fold (prepacked_body block F m n k lhs out pa pb column) (strided 0 256 k) w)"
    using c(1) by (intro depth_loop assms(2) w prepacked_body_result [OF B pa pb image c]) simp_all
qed simp_all

end

section \<open>From addresses to slots\<close>

lemma slot_address: "4 dvd unat p \<Longrightarrow> unat p = 4 * slot p"
  by (simp add: slot_def)

lemma disjoint_slots:
  assumes "disjoint_ranges p (a * 4) q (b * 4)" "4 dvd unat p" "4 dvd unat q"
  shows "panel (slot p) a \<inter> panel (slot q) b = {}"
proof -
  have "4 * x \<in> bytes_at p (a * 4) \<longleftrightarrow> x \<in> panel (slot p) a"
    "4 * x \<in> bytes_at q (b * 4) \<longleftrightarrow> x \<in> panel (slot q) b" for x
    using slot_address [OF assms(2)] slot_address [OF assms(3)] by (auto simp: bytes_at_def panel_def)
  then show ?thesis using assms(1) unfolding disjoint_ranges_def by blast
qed

lemma disjoint_ranges_mono:
  assumes "disjoint_ranges p b q c" "a \<le> b" "d \<le> c"
  shows "disjoint_ranges p a q d"
  using assms unfolding disjoint_ranges_def bytes_at_def by fastforce

lemma disjoint_slots_le:
  assumes "disjoint_ranges p b q (d * 4)" "4 dvd unat p" "4 dvd unat q" "c * 4 \<le> b"
  shows "panel (slot p) c \<inter> panel (slot q) d = {}"
  using disjoint_ranges_mono [OF assms(1,4) order_refl] assms(2,3) by (rule disjoint_slots)

lemma disjoint_ranges_sym: "disjoint_ranges p a q b \<longleftrightarrow> disjoint_ranges q b p a"
  by (auto simp: disjoint_ranges_def)

lemma declared_dvd4:
  assumes "packed_problem problem" "unat (prob_minimum_alignment_bytes problem) dvd unat p"
  shows "4 dvd unat p"
proof -
  obtain e where "2 \<le> e" "unat (prob_minimum_alignment_bytes problem) = 2 ^ e"
    using assms(1) by (auto simp: packed_problem_def)
  then have "(4::nat) dvd unat (prob_minimum_alignment_bytes problem)"
    using le_imp_power_dvd [of 2 e "2::nat"] by simp
  then show ?thesis using assms(2) by (rule dvd_trans)
qed

text \<open>The panels in slots.\<close>

definition a_panel_of :: "CpuGemmProblemV1 \<Rightarrow> nat \<Rightarrow> nat set" where
  "a_panel_of problem at = panel at (round_up (min (unat (prob_m problem)) 128) 4 * min (unat (prob_k problem)) 256)"

definition b_panel_of :: "CpuGemmProblemV1 \<Rightarrow> nat \<Rightarrow> nat set" where
  "b_panel_of problem at = panel at (round_up (min (unat (prob_n problem)) 256) 16 * min (unat (prob_k problem)) 256)"

lemma tensors_slots:
  assumes "packed_problem problem" "tensors_ok problem lhs rhs out"
  defines "m \<equiv> unat (prob_m problem)" and "n \<equiv> unat (prob_n problem)" and "k \<equiv> unat (prob_k problem)"
  shows "panel (slot out) (m * n) \<inter> panel (slot lhs) (m * k) = {}"
    "panel (slot out) (m * n) \<inter> panel (slot rhs) (k * n) = {}"
    "4 dvd unat lhs" "4 dvd unat rhs" "4 dvd unat out"
proof -
  show 4: "4 dvd unat lhs" "4 dvd unat rhs" "4 dvd unat out"
    using assms(2) declared_dvd4 [OF assms(1)] unfolding tensors_ok_def by blast+
  show "panel (slot out) (m * n) \<inter> panel (slot lhs) (m * k) = {}"
    "panel (slot out) (m * n) \<inter> panel (slot rhs) (k * n) = {}"
    using assms(2) 4 unfolding tensors_ok_def m_def n_def k_def by (simp_all add: disjoint_slots)
qed

lemma region_slots:
  assumes "packed_problem problem" "tensors_ok problem lhs rhs out"
    and "tensors_avoid problem lhs rhs out p b" "4 dvd unat p" "c * 4 \<le> b"
  defines "m \<equiv> unat (prob_m problem)" and "n \<equiv> unat (prob_n problem)" and "k \<equiv> unat (prob_k problem)"
  shows "panel (slot p) c \<inter> panel (slot out) (m * n) = {}"
    "panel (slot p) c \<inter> panel (slot lhs) (m * k) = {}"
    "panel (slot p) c \<inter> panel (slot rhs) (k * n) = {}"
proof -
  have avoid: "disjoint_ranges p b lhs (m * k * 4)" "disjoint_ranges p b rhs (k * n * 4)"
    "disjoint_ranges p b out (m * n * 4)"
    using assms(3) by (simp_all add: tensors_avoid_def m_def n_def k_def)
  note four = tensors_slots(3-5) [OF assms(1,2)]
  show "panel (slot p) c \<inter> panel (slot out) (m * n) = {}"
    by (rule disjoint_slots_le [OF avoid(3) assms(4) four(3) assms(5)])
  show "panel (slot p) c \<inter> panel (slot lhs) (m * k) = {}"
    by (rule disjoint_slots_le [OF avoid(1) assms(4) four(1) assms(5)])
  show "panel (slot p) c \<inter> panel (slot rhs) (k * n) = {}"
    by (rule disjoint_slots_le [OF avoid(2) assms(4) four(2) assms(5)])
qed

lemma round_up_dvd4: "4 dvd round_up v 64"
  by (rule dvd_trans [OF _ round_up_bounds(3)]) simp_all

lemma transient_buffers:
  assumes valid: "cpu_validate_packed_avx2_v1 problem lhs rhs out workspace workspace_bytes = Inr ()"
  defines "m \<equiv> unat (prob_m problem)" and "n \<equiv> unat (prob_n problem)" and "k \<equiv> unat (prob_k problem)"
    and "pa \<equiv> slot workspace" and "pb \<equiv> slot (workspace + of_nat (b_panel_offset problem))"
  shows "buffers m n k (slot lhs) (slot rhs) (slot out) (a_panel_of problem pa) (b_panel_of problem pb)"
    "a_panel_of problem pa \<union> b_panel_of problem pb \<subseteq>
       panel (slot workspace) (workspace_total problem transient_a_and_b div 4)"
proof -
  let ?T = "workspace_total problem transient_a_and_b"
  have ok: "packed_problem problem" "tensors_ok problem lhs rhs out"
    "workspace_ok workspace workspace_bytes ?T" "tensors_avoid problem lhs rhs out workspace ?T"
    using valid unfolding packed_validation by simp_all
  have ws: "4 dvd unat workspace" "unat workspace + ?T < 2 ^ 64"
    using ok(3) dvd_trans [of 4 "64::nat" "unat workspace"] by (simp_all add: workspace_ok_def placed_def)
  have four: "4 dvd b_panel_offset problem" "4 dvd ?T"
    by (simp_all add: b_panel_offset_def workspace_total_def round_up_dvd4)
  note tb = workspace_bounds(2,5) [of problem]
  have off: "unat (of_nat (b_panel_offset problem) :: u64) = b_panel_offset problem"
    using workspace_bounds(1) [of problem] by (intro unat_of_nat64) simp
  then have "unat (workspace + of_nat (b_panel_offset problem)) = unat workspace + b_panel_offset problem"
    using ws(2) tb by (simp add: unat_plus_if')
  then have pb: "pb = slot workspace + b_panel_offset problem div 4"
    using ws(1) four(1) by (simp add: pb_def slot_def div_add)
  define T where "T = ?T div 4"
  have T: "T * 4 = ?T" using four(2) by (simp add: T_def)
  define o4 where "o4 = b_panel_offset problem div 4"
  have o4: "o4 * 4 = b_panel_offset problem" using four(1) by (simp add: o4_def)
  let ?la = "round_up (min m 128) 4 * min k 256" and ?lb = "round_up (min n 256) 16 * min k 256"
  have sizes: "?la \<le> o4" "o4 + ?lb \<le> T"
    using tb T o4 by (simp_all add: a_panel_bytes_def b_panel_bytes_def m_def n_def k_def)
  have A: "a_panel_of problem pa = panel (slot workspace) ?la"
    and Bp: "b_panel_of problem pb = panel (slot workspace + o4) ?lb"
    by (simp_all add: a_panel_of_def b_panel_of_def pa_def pb o4_def m_def n_def k_def)
  show inside: "a_panel_of problem pa \<union> b_panel_of problem pb \<subseteq> panel (slot workspace) (?T div 4)"
    unfolding A Bp using sizes by (auto simp: panel_def T_def)
  have "a_panel_of problem pa \<inter> b_panel_of problem pb = {}"
    unfolding A Bp using sizes by (auto simp: panel_def)
  moreover note region = region_slots [OF ok(1,2,4) ws(1), of T, unfolded T, OF order_refl, folded T_def]
  ultimately show "buffers m n k (slot lhs) (slot rhs) (slot out) (a_panel_of problem pa) (b_panel_of problem pb)"
    using inside tensors_slots(1,2) [OF ok(1,2)]
    unfolding buffers_def m_def n_def k_def T_def [symmetric]
    by (intro conjI; blast)
qed

lemma prepacked_buffers:
  assumes valid: "cpu_validate_packed_avx2_prepacked_b_v1 problem lhs out view workspace workspace_bytes = Inr ()"
  defines "m \<equiv> unat (prob_m problem)" and "n \<equiv> unat (prob_n problem)" and "k \<equiv> unat (prob_k problem)"
    and "pa \<equiv> slot workspace" and "pb \<equiv> slot (pbv_packed_data view)" and "rhs \<equiv> pbv_source_data view"
  shows "buffers m n k (slot lhs) (slot rhs) (slot out) (a_panel_of problem pa) (panel pb (round_up n 16 * k))"
    "a_panel_of problem pa \<subseteq>
       panel (slot workspace) (workspace_total problem transient_a_with_prepacked_b div 4)"
proof -
  let ?T = "workspace_total problem transient_a_with_prepacked_b"
  have ok: "packed_problem problem" "tensors_ok problem lhs rhs out" "view_ok problem view"
    "disjoint_ranges lhs (lhs_bytes problem) (pbv_packed_data view) (b_image_elements problem * 4)"
    "disjoint_ranges out (out_bytes problem) (pbv_packed_data view) (b_image_elements problem * 4)"
    "workspace_ok workspace workspace_bytes ?T" "tensors_avoid problem lhs rhs out workspace ?T"
    "disjoint_ranges workspace ?T (pbv_packed_data view) (b_image_elements problem * 4)"
    using valid unfolding prepacked_validation view_validation rhs_def by simp_all
  have ws: "4 dvd unat workspace"
    using ok(6) dvd_trans [of 4 "64::nat" "unat workspace"] by (simp add: workspace_ok_def)
  have packed: "4 dvd unat (pbv_packed_data view)"
  proof -
    have "pbv_packed_data view mod 64 = 0"
      using ok(3) by (simp add: view_ok_def cpu_validate_packed_b_view_metadata_v1_def packed_constants)
    then have "unat (pbv_packed_data view) mod 64 = 0"
      using unat_mod [of "pbv_packed_data view" 64] by simp
    then have "64 dvd unat (pbv_packed_data view)" by (rule mod_0_imp_dvd)
    then show ?thesis by (rule dvd_trans [rotated]) simp
  qed
  have source: "disjoint_ranges rhs (rhs_bytes problem) (pbv_packed_data view) (b_image_elements problem * 4)"
    using ok(3) by (simp add: view_ok_def rhs_def)
  have e: "b_image_elements problem = round_up n 16 * k" by (simp add: b_image_elements_def n_def k_def)
  let ?la = "round_up (min m 128) 4 * min k 256"
  have la: "?la * 4 \<le> ?T" "4 dvd ?T"
    using workspace_bounds(4) [of problem transient_a_with_prepacked_b]
    by (simp_all add: a_panel_bytes_def m_def k_def workspace_total_def round_up_dvd4)
  have A: "a_panel_of problem pa = panel (slot workspace) ?la"
    by (simp add: a_panel_of_def pa_def m_def k_def)
  have "?la \<le> ?T div 4" using la by auto
  then show "a_panel_of problem pa \<subseteq> panel (slot workspace) (?T div 4)"
    unfolding A by (rule panel_mono)
  note four = tensors_slots [OF ok(1,2), folded m_def n_def k_def]
  have "panel (slot workspace) ?la \<inter> panel pb (round_up n 16 * k) = {}"
    using disjoint_slots_le [OF ok(8) ws packed la(1)] by (simp add: pb_def e)
  moreover have "panel pb (round_up n 16 * k) \<inter> panel (slot lhs) (m * k) = {}"
    "panel pb (round_up n 16 * k) \<inter> panel (slot out) (m * n) = {}"
    "panel pb (round_up n 16 * k) \<inter> panel (slot rhs) (k * n) = {}"
    using disjoint_slots [OF _ four(3) packed, of "m * k" "b_image_elements problem"] ok(4)
      disjoint_slots [OF _ four(5) packed, of "m * n" "b_image_elements problem"] ok(5)
      disjoint_slots [OF _ four(4) packed, of "k * n" "b_image_elements problem"] source
    by (simp_all add: pb_def e m_def n_def k_def Int_commute)
  moreover note region_slots [OF ok(1,2,7) ws la(1), folded m_def n_def k_def]
  ultimately show "buffers m n k (slot lhs) (slot rhs) (slot out) (a_panel_of problem pa)
      (panel pb (round_up n 16 * k))"
    using four(1,2) unfolding buffers_def A by simp
qed

section \<open>Results of the executions\<close>

text \<open>\<open>multiplied\<close>: every cell of the output holds its sum of products of the original memory, and
  nothing else has changed outside \<open>R\<close>.\<close>

definition multiplied ::
  "'f fma_ops \<Rightarrow> CpuGemmProblemV1 \<Rightarrow> u64 \<Rightarrow> u64 \<Rightarrow> u64 \<Rightarrow> nat set \<Rightarrow> 'f fmem \<Rightarrow> 'f fmem \<Rightarrow> bool" where
  "multiplied F problem lhs rhs out R mem mem' \<longleftrightarrow>
    (let m = unat (prob_m problem); n = unat (prob_n problem); k = unat (prob_k problem)
     in (\<forall>i < m. \<forall>j < n. mem' (slot out + (i * n + j)) = gemm_cell F mem (slot lhs) (slot rhs) k n i j) \<and>
        (\<forall>x. x \<notin> panel (slot out) (m * n) \<union> R \<longrightarrow> mem' x = mem x))"

lemma multipliedI:
  assumes "agree A (rect (slot out) n 0 m 0 n (\<lambda>i j _. gemm_cell F mem (slot lhs) (slot rhs) k n i j) mem) mem'"
    and "A \<subseteq> R" "A \<inter> panel (slot out) (m * n) = {}"
    and "m = unat (prob_m problem)" "n = unat (prob_n problem)" "k = unat (prob_k problem)"
  shows "multiplied F problem lhs rhs out R mem mem'"
  unfolding multiplied_def Let_def assms(4-6) [symmetric]
proof (intro conjI allI impI)
  fix i j assume ij: "i < m" "j < n"
  then have "slot out + (i * n + j) \<notin> A" using in_matrix [of i m j n "slot out"] assms(3) by blast
  then show "mem' (slot out + (i * n + j)) = gemm_cell F mem (slot lhs) (slot rhs) k n i j"
    using agreeD [OF assms(1)] ij rect_at [OF ij(2), where at = "slot out" and i = i and rlo = 0
        and rhi = m and clo = 0 and chi = n and m = mem
        and h = "\<lambda>i j _. gemm_cell F mem (slot lhs) (slot rhs) k n i j"]
    by (simp add: add.assoc)
next
  fix x assume x: "x \<notin> panel (slot out) (m * n) \<union> R"
  then have "\<not> in_rect (slot out) n 0 m 0 n x" using rect_in_matrix [of "slot out" n 0 m 0 n x m] by blast
  then show "mem' x = mem x" using agreeD [OF assms(1), of x] x assms(2) by (auto simp: rect_outside)
qed

definition workspace_slots :: "CpuGemmProblemV1 \<Rightarrow> CpuPackedGemmWorkspaceModeV1 \<Rightarrow> u64 \<Rightarrow> nat set" where
  "workspace_slots problem mode workspace = panel (slot workspace) (workspace_total problem mode div 4)"

text \<open>The two transient executions run the same loops behind checks that accept the same calls.\<close>

lemma workspace_checks_agree:
  "validate_workspace_avx512 workspace workspace_bytes requirements forbidden = Inr s \<longleftrightarrow>
   validate_workspace workspace workspace_bytes requirements forbidden = Inr s"
  unfolding validate_workspace_avx512_def validate_workspace_def result_simps by blast

lemma avx512_checks:
  assumes "cpu_packed_avx2_workspace_requirements_v1 problem transient_a_and_b = Inr requirements"
  shows "(\<exists>s. execute_avx512_checks problem requirements lhs rhs out workspace workspace_bytes = Inr s) \<longleftrightarrow>
    cpu_validate_packed_avx2_v1 problem lhs rhs out workspace workspace_bytes = Inr ()"
  unfolding cpu_validate_packed_avx2_v1_def execute_avx512_checks_def assms and_then_simps
    result_simps case_prod_beta workspace_checks_agree by blast

lemma avx512_prepacked_checks:
  assumes "cpu_packed_avx2_workspace_requirements_v1 problem transient_a_with_prepacked_b = Inr requirements"
  shows "(\<exists>s. execute_avx512_prepacked_checks problem requirements lhs out view workspace workspace_bytes = Inr s) \<longleftrightarrow>
    cpu_validate_packed_avx2_prepacked_b_v1 problem lhs out view workspace workspace_bytes = Inr ()"
proof (cases "cpu_validate_packed_avx2_prepacked_b_view_v1 problem lhs out view = Inr ()")
  case True
  then show ?thesis
    unfolding cpu_validate_packed_avx2_prepacked_b_v1_def execute_avx512_prepacked_checks_def assms
      and_then_simps result_simps case_prod_beta workspace_checks_agree by blast
next
  case False
  then show ?thesis
    unfolding cpu_validate_packed_avx2_prepacked_b_v1_def execute_avx512_prepacked_checks_def assms
      cpu_validate_packed_avx2_prepacked_b_view_v1_def
      and_then_simps result_simps case_prod_beta workspace_checks_agree by blast
qed

lemma prepare_avx512_agrees:
  "prepare_avx512_checks problem rhs storage storage_bytes = Inr () \<longleftrightarrow>
   (\<exists>view. cpu_validate_prepare_packed_b_avx2_v1 problem rhs storage storage_bytes = Inr view)"
  unfolding prepare_avx512_checks_def cpu_validate_prepare_packed_b_avx2_v1_def
    cpu_packed_avx512_prepacked_b_requirements_v1_def result_simps by blast

lemma status_not_success:
  "validate_problem problem = Inl s \<Longrightarrow> s \<noteq> pst_success"
  "cpu_packed_avx2_workspace_requirements_v1 problem mode = Inl s \<Longrightarrow> s \<noteq> pst_success"
  "cpu_packed_avx2_prepacked_b_requirements_v1 problem = Inl s \<Longrightarrow> s \<noteq> pst_success"
  by (auto simp: cpu_packed_avx2_workspace_requirements_v1_def execution_requirements
      prepacked_requirements validate_problem_exact result_simps split: if_splits)

lemma dimensions_fail: "dimensions problem = Inl s \<Longrightarrow> s \<noteq> pst_success"
  by (auto simp: dimensions_def result_simps dest: status_not_success)

lemma contract_fails:
  "validate_tensor_contract problem lhs rhs out m n k = Inl s \<Longrightarrow> s \<noteq> pst_success"
  "validate_workspace workspace bytes requirements forbidden = Inl s \<Longrightarrow> s \<noteq> pst_success"
  "validate_workspace_avx512 workspace bytes requirements forbidden = Inl s \<Longrightarrow> s \<noteq> pst_success"
  "validate_prepacked_view problem view = Inl s \<Longrightarrow> s \<noteq> pst_success"
  by (auto simp: validate_tensor_contract_def validate_workspace_def validate_workspace_avx512_def
      validate_prepacked_view_def Let_def result_simps dest: status_not_success)

lemma validation_fails:
  "cpu_validate_packed_avx2_v1 problem lhs rhs out workspace bytes = Inl s \<Longrightarrow> s \<noteq> pst_success"
  "cpu_validate_packed_avx2_prepacked_b_v1 problem lhs out view workspace bytes = Inl s \<Longrightarrow> s \<noteq> pst_success"
  "execute_avx512_checks problem requirements lhs rhs out workspace bytes = Inl s \<Longrightarrow> s \<noteq> pst_success"
  "execute_avx512_prepacked_checks problem requirements lhs out view workspace bytes = Inl s \<Longrightarrow> s \<noteq> pst_success"
  unfolding cpu_validate_packed_avx2_v1_def cpu_validate_packed_avx2_prepacked_b_v1_def
    cpu_validate_packed_avx2_prepacked_b_view_v1_def execute_avx512_checks_def
    execute_avx512_prepacked_checks_def
  by (auto simp: result_simps case_prod_beta dest: status_not_success dimensions_fail contract_fails)

text \<open>What each execution returns, in one equation.\<close>

abbreviation transient_run ::
  "'f block_routine \<Rightarrow> 'f fma_ops \<Rightarrow> CpuGemmProblemV1 \<Rightarrow> u64 \<Rightarrow> u64 \<Rightarrow> u64 \<Rightarrow> u64 \<Rightarrow> 'f fmem \<Rightarrow> 'f fmem" where
  "transient_run block F problem lhs rhs out workspace mem \<equiv>
     packed_loops block F (unat (prob_m problem)) (unat (prob_n problem)) (unat (prob_k problem))
       (slot lhs) (slot rhs) (slot out) (slot workspace)
       (slot (workspace + of_nat (b_panel_offset problem))) mem"

abbreviation prepacked_run ::
  "'f block_routine \<Rightarrow> 'f fma_ops \<Rightarrow> CpuGemmProblemV1 \<Rightarrow> u64 \<Rightarrow> u64 \<Rightarrow> CpuPackedBViewV1 \<Rightarrow> u64 \<Rightarrow> 'f fmem \<Rightarrow> 'f fmem" where
  "prepacked_run block F problem lhs out view workspace mem \<equiv>
     fst (prepacked_loops block F (unat (prob_m problem)) (unat (prob_n problem))
       (unat (prob_k problem)) (slot lhs) (slot out) (slot workspace) (slot (pbv_packed_data view)) mem)"

lemma requirement_offsets:
  assumes "cpu_packed_avx2_workspace_requirements_v1 problem transient_a_and_b = Inr r"
  shows "preq_packed_a_offset r = 0" "preq_packed_b_offset r = of_nat (b_panel_offset problem)"
  using assms by (simp_all add: requirements_Inr default_packed_requirements_def)

lemma execute_avx2_equation:
  "\<exists>s. s \<noteq> pst_success \<and> cpu_execute_packed_avx2_v1 usable F problem lhs rhs out workspace bytes mem =
     (if usable \<and> cpu_validate_packed_avx2_v1 problem lhs rhs out workspace bytes = Inr ()
      then (pst_success, transient_run compute_block F problem lhs rhs out workspace mem) else (s, mem))"
proof (cases "cpu_packed_avx2_workspace_requirements_v1 problem transient_a_and_b")
  case (Inl s)
  then show ?thesis using status_not_success(2) [OF Inl]
    by (auto simp: cpu_execute_packed_avx2_v1_def cpu_validate_packed_avx2_v1_def)
next
  case (Inr r)
  then show ?thesis
    using requirement_offsets [OF Inr] validation_fails(1) [of problem lhs rhs out workspace bytes]
    by (cases "cpu_validate_packed_avx2_v1 problem lhs rhs out workspace bytes"; cases usable)
      (auto simp: cpu_execute_packed_avx2_v1_def Let_def)
qed

lemma execute_avx512_equation:
  "\<exists>s. s \<noteq> pst_success \<and> cpu_execute_packed_avx512_v1 usable F problem lhs rhs out workspace bytes mem =
     (if usable \<and> cpu_validate_packed_avx2_v1 problem lhs rhs out workspace bytes = Inr ()
      then (pst_success, transient_run compute_block_avx512 F problem lhs rhs out workspace mem)
      else (s, mem))"
proof (cases "cpu_packed_avx2_workspace_requirements_v1 problem transient_a_and_b")
  case (Inl s)
  then show ?thesis using status_not_success(2) [OF Inl]
    by (auto simp: cpu_execute_packed_avx512_v1_def cpu_packed_avx512_workspace_requirements_v1_def
        cpu_validate_packed_avx2_v1_def)
next
  case (Inr r)
  then show ?thesis
    using requirement_offsets [OF Inr] validation_fails(3) [of problem r lhs rhs out workspace bytes]
      avx512_checks [OF Inr, of lhs rhs out workspace bytes]
    by (cases "execute_avx512_checks problem r lhs rhs out workspace bytes"; cases usable)
      (auto simp: cpu_execute_packed_avx512_v1_def cpu_packed_avx512_workspace_requirements_v1_def Let_def)
qed

lemma execute_avx2_prepacked_equation:
  "\<exists>s. s \<noteq> pst_success \<and>
     cpu_execute_packed_avx2_prepacked_b_v1 usable F problem lhs out view workspace bytes mem =
     (if usable \<and> cpu_validate_packed_avx2_prepacked_b_v1 problem lhs out view workspace bytes = Inr ()
      then (pst_success, prepacked_run compute_block F problem lhs out view workspace mem) else (s, mem))"
proof (cases "cpu_packed_avx2_workspace_requirements_v1 problem transient_a_with_prepacked_b")
  case (Inl s)
  then show ?thesis using status_not_success(2) [OF Inl]
    by (auto simp: cpu_execute_packed_avx2_prepacked_b_v1_def cpu_validate_packed_avx2_prepacked_b_v1_def)
next
  case (Inr r)
  then show ?thesis
    using validation_fails(2) [of problem lhs out view workspace bytes]
    by (cases "cpu_validate_packed_avx2_prepacked_b_v1 problem lhs out view workspace bytes"; cases usable)
      (auto simp: cpu_execute_packed_avx2_prepacked_b_v1_def Let_def)
qed

lemma execute_avx512_prepacked_equation:
  "\<exists>s. s \<noteq> pst_success \<and>
     cpu_execute_packed_avx512_prepacked_b_v1 usable F problem lhs out view workspace bytes mem =
     (if usable \<and> cpu_validate_packed_avx2_prepacked_b_v1 problem lhs out view workspace bytes = Inr ()
      then (pst_success, prepacked_run compute_block_avx512 F problem lhs out view workspace mem)
      else (s, mem))"
proof (cases "cpu_packed_avx2_workspace_requirements_v1 problem transient_a_with_prepacked_b")
  case (Inl s)
  then show ?thesis using status_not_success(2) [OF Inl]
    by (auto simp: cpu_execute_packed_avx512_prepacked_b_v1_def
        cpu_packed_avx512_workspace_requirements_v1_def cpu_validate_packed_avx2_prepacked_b_v1_def)
next
  case (Inr r)
  then show ?thesis
    using validation_fails(4) [of problem r lhs out view workspace bytes]
      avx512_prepacked_checks [OF Inr, of lhs out view workspace bytes]
    by (cases "execute_avx512_prepacked_checks problem r lhs out view workspace bytes"; cases usable)
      (auto simp: cpu_execute_packed_avx512_prepacked_b_v1_def
        cpu_packed_avx512_workspace_requirements_v1_def Let_def)
qed

text \<open>The loops multiply, whatever the block routine.\<close>

context block_kernel
begin

lemma transient_multiplies:
  assumes valid: "cpu_validate_packed_avx2_v1 problem lhs rhs out workspace bytes = Inr ()"
  shows "multiplied F problem lhs rhs out (workspace_slots problem transient_a_and_b workspace) mem
    (transient_run block F problem lhs rhs out workspace mem)"
proof -
  let ?A = "a_panel_of problem (slot workspace)"
    and ?B = "b_panel_of problem (slot (workspace + of_nat (b_panel_offset problem)))"
  note b = transient_buffers [OF valid]
  have k: "0 < unat (prob_k problem)"
    using valid dims_positive by (simp add: packed_validation)
  have "(?A \<union> ?B) \<inter> panel (slot out) (unat (prob_m problem) * unat (prob_n problem)) = {}"
    using b(1) by (simp add: buffers_def Int_Un_distrib2)
  then show ?thesis
    using b(2) packed_loops_result [OF b(1) k] unfolding workspace_slots_def
    by (intro multipliedI [where A = "?A \<union> ?B"]) (simp_all add: a_panel_of_def b_panel_of_def)
qed

lemma prepacked_multiplies:
  assumes valid: "cpu_validate_packed_avx2_prepacked_b_v1 problem lhs out view workspace bytes = Inr ()"
    and image: "image_at mem (slot (pbv_source_data view)) (unat (prob_n problem)) (unat (prob_k problem))
      (slot (pbv_packed_data view)) mem"
  shows "multiplied F problem lhs (pbv_source_data view) out
    (workspace_slots problem transient_a_with_prepacked_b workspace) mem
    (prepacked_run block F problem lhs out view workspace mem)"
proof -
  let ?A = "a_panel_of problem (slot workspace)"
  note b = prepacked_buffers [OF valid]
  have k: "0 < unat (prob_k problem)"
    using valid dims_positive by (simp add: prepacked_validation view_validation)
  have "?A \<inter> panel (slot out) (unat (prob_m problem) * unat (prob_n problem)) = {}"
    using b(1) by (simp add: buffers_def)
  then show ?thesis
    using b(2) prepacked_loops_result [OF b(1) k _ _ image] unfolding workspace_slots_def
    by (intro multipliedI [where A = ?A]) (simp_all add: a_panel_of_def)
qed

end

lemma multiplied_unique:
  assumes "multiplied F problem lhs rhs out R mem r" "multiplied F problem lhs rhs out R mem s"
  shows "agree R r s"
proof -
  have "r x = s x" if x: "x \<notin> R" for x
  proof -
  let ?m = "unat (prob_m problem)" and ?n = "unat (prob_n problem)"
  show "r x = s x"
  proof (cases "x \<in> panel (slot out) (?m * ?n)")
    case True
    then have d: "x - slot out < ?m * ?n" "slot out \<le> x" by (auto simp: panel_def)
    then have ij: "(x - slot out) div ?n < ?m" "(x - slot out) mod ?n < ?n"
      using less_mult_imp_div_less [OF d(1)] by (auto intro!: mod_less_divisor gr0I)
    have "x = slot out + ((x - slot out) div ?n * ?n + (x - slot out) mod ?n)"
      using d(2) by simp
    then show ?thesis using assms ij unfolding multiplied_def Let_def by metis
  next
    case False
    then show ?thesis using assms x unfolding multiplied_def Let_def by simp
  qed
  qed
  then show ?thesis by (simp add: agree_def)
qed

section \<open>Properties\<close>

text \<open>C6: A successful AVX2 execution leaves in every cell of the output the fused sum of products of the
  original A and B in increasing depth, starting from zero; whatever the tiling, no other memory
  changes except inside the workspace it was given.\<close>

theorem packed_avx2_exact:
  assumes "fst (cpu_execute_packed_avx2_v1 usable F problem lhs rhs out workspace bytes mem) = pst_success"
  shows "multiplied F problem lhs rhs out (workspace_slots problem transient_a_and_b workspace) mem
    (snd (cpu_execute_packed_avx2_v1 usable F problem lhs rhs out workspace bytes mem))"
  using assms execute_avx2_equation [of usable F problem lhs rhs out workspace bytes mem]
    avx2_block.transient_multiplies [of problem lhs rhs out workspace bytes F mem]
  by (auto split: if_splits)

text \<open>C18: The AVX-512 execution, with its 4x32 tiles and its own checks, gives the same result as the
  AVX2 one, bit for bit, and accepts the same calls.\<close>

theorem packed_avx512_equals_avx2:
  fixes F :: "'f fma_ops" and mem :: "'f fmem"
  assumes "fst (cpu_execute_packed_avx512_v1 True F problem lhs rhs out workspace bytes mem) = pst_success"
  shows "fst (cpu_execute_packed_avx2_v1 True F problem lhs rhs out workspace bytes mem) = pst_success \<and>
    agree (workspace_slots problem transient_a_and_b workspace)
      (snd (cpu_execute_packed_avx2_v1 True F problem lhs rhs out workspace bytes mem))
      (snd (cpu_execute_packed_avx512_v1 True F problem lhs rhs out workspace bytes mem))"
proof -
  let ?r = "transient_run compute_block F problem lhs rhs out workspace mem"
    and ?s = "transient_run compute_block_avx512 F problem lhs rhs out workspace mem"
  have valid: "cpu_validate_packed_avx2_v1 problem lhs rhs out workspace bytes = Inr ()"
    and s: "snd (cpu_execute_packed_avx512_v1 True F problem lhs rhs out workspace bytes mem) = ?s"
    using assms execute_avx512_equation [of True F problem lhs rhs out workspace bytes mem]
    by (auto split: if_splits)
  have r: "cpu_execute_packed_avx2_v1 True F problem lhs rhs out workspace bytes mem = (pst_success, ?r)"
    using valid execute_avx2_equation [of True F problem lhs rhs out workspace bytes mem] by auto
  have "agree (workspace_slots problem transient_a_and_b workspace) ?r ?s"
    by (rule multiplied_unique) (rule avx2_block.transient_multiplies [OF valid]
        avx512_block.transient_multiplies [OF valid])+
  then show ?thesis using s r by simp
qed

text \<open>\<open>outcome\<close>: a call that returns success when \<open>ok\<close> holds, and fails with no effect otherwise.\<close>

definition outcome ::
  "'f fmem \<Rightarrow> CpuPackedGemmStatusV1 \<times> 'f fmem \<Rightarrow> bool \<Rightarrow> bool" where
  "outcome mem r ok \<longleftrightarrow> (if ok then fst r = pst_success else fst r \<noteq> pst_success \<and> snd r = mem)"

lemma outcome_eq:
  assumes "\<exists>s. s \<noteq> pst_success \<and> r = (if ok then (pst_success, run) else (s, mem))"
  shows "outcome mem r ok"
  using assms by (auto simp: outcome_def)

text \<open>C24: Each of the four executions succeeds exactly when its instruction set is usable and the
  validation accepts the call; otherwise it returns a failure status and has written nothing.\<close>

theorem packed_execution_statuses:
  fixes F :: "'f fma_ops" and mem :: "'f fmem"
  shows "outcome mem (cpu_execute_packed_avx2_v1 usable F problem lhs rhs out workspace bytes mem)
      (usable \<and> cpu_validate_packed_avx2_v1 problem lhs rhs out workspace bytes = Inr ()) \<and>
    outcome mem (cpu_execute_packed_avx512_v1 usable F problem lhs rhs out workspace bytes mem)
      (usable \<and> cpu_validate_packed_avx2_v1 problem lhs rhs out workspace bytes = Inr ()) \<and>
    outcome mem (cpu_execute_packed_avx2_prepacked_b_v1 usable F problem lhs out view workspace bytes mem)
      (usable \<and> cpu_validate_packed_avx2_prepacked_b_v1 problem lhs out view workspace bytes = Inr ()) \<and>
    outcome mem (cpu_execute_packed_avx512_prepacked_b_v1 usable F problem lhs out view workspace bytes mem)
      (usable \<and> cpu_validate_packed_avx2_prepacked_b_v1 problem lhs out view workspace bytes = Inr ())"
  using execute_avx2_equation [of usable F problem lhs rhs out workspace bytes mem]
    execute_avx512_equation [of usable F problem lhs rhs out workspace bytes mem]
    execute_avx2_prepacked_equation [of usable F problem lhs out view workspace bytes mem]
    execute_avx512_prepacked_equation [of usable F problem lhs out view workspace bytes mem]
  by (intro conjI; blast intro: outcome_eq)

lemma prepare_results:
  assumes "prepare \<in> {cpu_prepare_packed_b_avx2_v1, cpu_prepare_packed_b_avx512_v1}"
    and "prepare F problem rhs storage storage_bytes mem = (Inr view, mem1)"
  defines "n \<equiv> unat (prob_n problem)" and "k \<equiv> unat (prob_k problem)"
  shows "cpu_validate_prepare_packed_b_avx2_v1 problem rhs storage storage_bytes = Inr view"
    "agree (panel (slot storage) (b_image_elements problem)) mem mem1"
    "image_at mem (slot rhs) n k (slot storage) mem1"
    "panel (slot storage) (b_image_elements problem) \<inter> panel (slot rhs) (k * n) = {}"
proof -
  let ?loops = "prepare_loops F n k (slot rhs) (slot storage) mem"
  obtain view' where valid: "cpu_validate_prepare_packed_b_avx2_v1 problem rhs storage storage_bytes = Inr view'"
    and view: "view = cpu_make_packed_b_view_v1 problem rhs storage storage_bytes (of_nat (snd ?loops))"
    and mem1: "mem1 = fst ?loops"
    using assms(1,2) prepare_avx512_agrees [of problem rhs storage storage_bytes]
    by (auto simp: cpu_prepare_packed_b_avx2_v1_def cpu_prepare_packed_b_avx512_v1_def n_def k_def
        Let_def case_prod_beta split: sum.splits)
  have p: "packed_problem problem" "disjoint_ranges rhs (rhs_bytes problem) storage (b_image_total problem)"
    "4 dvd unat rhs" "4 dvd unat storage"
    using valid declared_dvd4 [of problem rhs] dvd_trans [of 4 "64::nat" "unat storage"]
    by (auto simp: prepare_validation workspace_ok_def)
  have e: "b_image_elements problem = round_up n 16 * k"
    by (simp add: b_image_elements_def n_def k_def)
  have "disjoint_ranges storage (b_image_elements problem * 4) rhs (k * n * 4)"
    using disjoint_ranges_mono [OF p(2) order_refl b_image_bounds(1)]
    by (subst disjoint_ranges_sym) (simp add: n_def k_def)
  then show apart: "panel (slot storage) (b_image_elements problem) \<inter> panel (slot rhs) (k * n) = {}"
    using p(3,4) by (intro disjoint_slots)
  have k: "0 < k" using dims_positive [OF p(1)] by (simp add: k_def)
  note loops = prepare_loops_result [OF apart [unfolded e] k, where F = F and mem = mem]
  show "cpu_validate_prepare_packed_b_avx2_v1 problem rhs storage storage_bytes = Inr view"
    using valid view loops(1) by (simp add: prepare_validation e)
  show "agree (panel (slot storage) (b_image_elements problem)) mem mem1"
    "image_at mem (slot rhs) n k (slot storage) mem1"
    using loops(2,3) by (simp_all add: mem1 e)
qed

lemma gemm_cell_cong:
  assumes "\<And>x. x \<in> panel lhs (m * k) \<Longrightarrow> mem x = mem' x" "\<And>x. x \<in> panel rhs (k * n) \<Longrightarrow> mem x = mem' x"
    and "i < m" "j < n"
  shows "gemm_cell F mem lhs rhs k n i j = gemm_cell F mem' lhs rhs k n i j"
  unfolding gemm_cell_def using assms in_matrix by (intro List.fold_cong refl) simp_all

lemma prepared_execution:
  fixes F :: "'f fma_ops" and mem mem1 :: "'f fmem"
  assumes "prepare \<in> {cpu_prepare_packed_b_avx2_v1, cpu_prepare_packed_b_avx512_v1}"
    and "execute \<in> {cpu_execute_packed_avx2_prepacked_b_v1, cpu_execute_packed_avx512_prepacked_b_v1}"
    and "prepare F problem rhs storage storage_bytes mem = (Inr view, mem1)"
    and "fst (execute usable F problem' lhs out view workspace bytes mem1) = pst_success"
  shows "prob_k problem' = prob_k problem \<and> prob_n problem' = prob_n problem \<and>
    multiplied F problem' lhs rhs out
      (workspace_slots problem' transient_a_with_prepacked_b workspace \<union>
       panel (slot storage) (b_image_elements problem)) mem
      (snd (execute usable F problem' lhs out view workspace bytes mem1))"
proof -
  note prepared = prepare_results [OF assms(1,3)]
  let ?mem2 = "snd (execute usable F problem' lhs out view workspace bytes mem1)"
  have valid: "cpu_validate_packed_avx2_prepacked_b_v1 problem' lhs out view workspace bytes = Inr ()"
    and run: "?mem2 \<in> {prepacked_run compute_block F problem' lhs out view workspace mem1,
      prepacked_run compute_block_avx512 F problem' lhs out view workspace mem1}"
    using assms(2,4) execute_avx2_prepacked_equation [of usable F problem' lhs out view workspace bytes mem1]
      execute_avx512_prepacked_equation [of usable F problem' lhs out view workspace bytes mem1]
    by (auto split: if_splits)
  have view: "pbv_source_data view = rhs" "pbv_packed_data view = storage"
    and ok: "packed_problem problem'" "view_ok problem' view" "tensors_ok problem' lhs rhs out"
    "disjoint_ranges lhs (lhs_bytes problem') storage (b_image_elements problem' * 4)"
    "4 dvd unat storage"
    using prepared(1) valid dvd_trans [of 4 "64::nat" "unat storage"]
    by (auto simp: prepare_validation prepacked_validation view_validation workspace_ok_def)
  have same: "prob_k problem' = prob_k problem" "prob_n problem' = prob_n problem"
    using ok(2) prepared(1)
    by (auto simp: view_ok_def cpu_validate_packed_b_view_metadata_v1_def prepare_validation)
  define m where "m = unat (prob_m problem')"
  define n where "n = unat (prob_n problem)"
  define k where "k = unat (prob_k problem)"
  have e: "b_image_elements problem' = b_image_elements problem"
    using same by (simp add: b_image_elements_def)
  have lhs: "panel (slot storage) (b_image_elements problem) \<inter> panel (slot lhs) (m * k) = {}"
    using disjoint_slots [OF ok(4) tensors_slots(3) [OF ok(1,3)] ok(5)] same
    by (simp add: m_def k_def e Int_commute)
  have agree_rhs: "x \<in> panel (slot rhs) (k * n) \<Longrightarrow> mem x = mem1 x" for x
    using prepared(4) agreeD [OF prepared(2), of x] unfolding k_def n_def
    by (metis disjoint_iff)
  have agree_lhs: "x \<in> panel (slot lhs) (m * k) \<Longrightarrow> mem x = mem1 x" for x
    using lhs agreeD [OF prepared(2), of x] by (metis disjoint_iff)
  have "image_at mem1 (slot rhs) n k (slot storage) mem1"
    using prepared(3) agree_rhs in_matrix [of _ k _ n "slot rhs"]
    by (simp add: image_at_def n_def k_def)
  then have "multiplied F problem' lhs rhs out
      (workspace_slots problem' transient_a_with_prepacked_b workspace) mem1 ?mem2"
    using run avx2_block.prepacked_multiplies [OF valid, of mem1 F]
      avx512_block.prepacked_multiplies [OF valid, of mem1 F]
    by (auto simp: view same n_def k_def)
  moreover have "gemm_cell F mem (slot lhs) (slot rhs) k n i j = gemm_cell F mem1 (slot lhs) (slot rhs) k n i j"
    if "i < m" "j < n" for i j
    by (rule gemm_cell_cong [OF agree_lhs agree_rhs that])
  ultimately show ?thesis
    using same agreeD [OF prepared(2)]
    by (simp add: multiplied_def Let_def m_def n_def k_def)
qed

text \<open>C17: B packed once by either engine can be used by either engine for any problem with the same depth
  and columns: the result is the product of A with the original B.\<close>

theorem prepacked_interchangeable:
  fixes F :: "'f fma_ops" and mem mem1 :: "'f fmem"
  assumes "prepare \<in> {cpu_prepare_packed_b_avx2_v1, cpu_prepare_packed_b_avx512_v1}"
    and "execute \<in> {cpu_execute_packed_avx2_prepacked_b_v1, cpu_execute_packed_avx512_prepacked_b_v1}"
    and "prepare F problem rhs storage storage_bytes mem = (Inr view, mem1)"
    and "fst (execute usable F problem' lhs out view workspace bytes mem1) = pst_success"
  shows "prob_k problem' = prob_k problem \<and> prob_n problem' = prob_n problem \<and>
    multiplied F problem' lhs rhs out
      (workspace_slots problem' transient_a_with_prepacked_b workspace \<union>
       panel (slot storage) (b_image_elements problem)) mem
      (snd (execute usable F problem' lhs out view workspace bytes mem1))"
  using prepared_execution [where prepare = prepare and execute = execute, OF assms] .

text \<open>The kernels of \<^theory_text>\<open>GemmKernels\<close> round a product before they add it, the fused operation rounds
  once. On inputs whose products are exact the two agree: there is nothing to round before the addition.\<close>

definition products_exact ::
  "'f fma_ops \<Rightarrow> 'f float_ops \<Rightarrow> 'f list \<Rightarrow> 'f list \<Rightarrow> nat \<Rightarrow> nat \<Rightarrow> nat \<Rightarrow> bool" where
  "products_exact F R lhs rhs m n k \<longleftrightarrow> fm_zero F = fl_zero R \<and>
     (\<forall>i < m. \<forall>p < k. \<forall>j < n. \<forall>s. fm_fma F (lhs ! (i * k + p)) (rhs ! (p * n + j)) s =
        fl_add R s (fl_mul R (lhs ! (i * k + p)) (rhs ! (p * n + j))))"

definition buffer :: "'f fmem \<Rightarrow> nat \<Rightarrow> nat \<Rightarrow> 'f list" where
  "buffer mem at len = map (\<lambda>i. mem (at + i)) [0..<len]"

lemma gemm_cell_dot:
  assumes "products_exact F R (buffer mem lhs (m * k)) (buffer mem rhs (k * n)) m n k" "i < m" "j < n"
  shows "gemm_cell F mem lhs rhs k n i j =
    dot R n k (buffer mem lhs (m * k)) (buffer mem rhs (k * n)) i j"
  unfolding gemm_cell_def dot_def
proof (intro List.fold_cong)
  fix p assume "p \<in> set [0..<k]"
  then have p: "p < k" by simp
  then have "i * k + p < m * k" "p * n + j < k * n" using assms(2,3) matrix_index by simp_all
  then have at: "buffer mem lhs (m * k) ! (i * k + p) = mem (lhs + (i * k + p))"
    "buffer mem rhs (k * n) ! (p * n + j) = mem (rhs + (p * n + j))"
    by (simp_all add: buffer_def)
  show "fm_fma F (mem (lhs + (i * k + p))) (mem (rhs + (p * n + j))) =
    (\<lambda>s. fl_add R s (fl_mul R (buffer mem lhs (m * k) ! (i * k + p)) (buffer mem rhs (k * n) ! (p * n + j))))"
    using assms(1) [unfolded products_exact_def, THEN conjunct2, rule_format, OF assms(2) p assms(3)]
    by (intro ext) (simp only: at)
qed (use assms(1) in \<open>simp_all add: products_exact_def\<close>)

lemma dim_unat:
  assumes "packed_problem problem"
  shows "dim (prob_m problem) = unat (prob_m problem)" "dim (prob_n problem) = unat (prob_n problem)"
    "dim (prob_k problem) = unat (prob_k problem)"
  using assms by (simp_all add: packed_problem_def unat_positive_dim)

text \<open>C19: On inputs whose products are exactly representable, so that a single rounding and two roundings
  agree, a successful AVX2 execution writes into the output buffer exactly what the scalar reference kernel
  computes from the input buffers. Nothing is assumed of the fused operation on other operands.\<close>

theorem packed_matches_reference:
  fixes F :: "'f fma_ops" and R :: "'f float_ops" and mem :: "'f fmem"
  assumes "cpu_execute_packed_avx2_v1 usable F problem lhs rhs out workspace bytes mem =
    (pst_success, mem')"
  defines "m \<equiv> dim (prob_m problem)" and "n \<equiv> dim (prob_n problem)" and "k \<equiv> dim (prob_k problem)"
  assumes exact: "products_exact F R (buffer mem (slot lhs) (m * k)) (buffer mem (slot rhs) (k * n)) m n k"
  shows "buffer mem' (slot out) (m * n) =
    reference_gemm R problem (buffer mem (slot lhs) (m * k)) (buffer mem (slot rhs) (k * n))
      (buffer mem (slot out) (m * n))"
proof (rule nth_equalityI)
  have valid: "cpu_validate_packed_avx2_v1 problem lhs rhs out workspace bytes = Inr ()"
    and mem': "mem' = transient_run compute_block F problem lhs rhs out workspace mem"
    using assms(1) execute_avx2_equation [of usable F problem lhs rhs out workspace bytes mem]
    by (auto split: if_splits)
  have dims: "m = unat (prob_m problem)" "n = unat (prob_n problem)" "k = unat (prob_k problem)"
    using valid dim_unat by (simp_all add: packed_validation m_def n_def k_def)
  note result = avx2_block.transient_multiplies [OF valid, of F mem,
      folded mem', unfolded multiplied_def Let_def, folded dims]
  fix c assume "c < length (buffer mem' (slot out) (m * n))"
  then have c: "c < m * n" by (simp add: buffer_def)
  then have ij: "c div n < m" "c mod n < n"
    using less_mult_imp_div_less [OF c] by (auto intro!: mod_less_divisor gr0I)
  have "buffer mem' (slot out) (m * n) ! c = mem' (slot out + (c div n * n + c mod n))"
    using c by (simp add: buffer_def)
  also have "\<dots> = gemm_cell F mem (slot lhs) (slot rhs) k n (c div n) (c mod n)"
    using result ij by blast
  also have "\<dots> = dot R n k (buffer mem (slot lhs) (m * k)) (buffer mem (slot rhs) (k * n)) (c div n) (c mod n)"
    by (rule gemm_cell_dot [OF exact ij])
  also have "\<dots> = reference_gemm R problem (buffer mem (slot lhs) (m * k)) (buffer mem (slot rhs) (k * n))
      (buffer mem (slot out) (m * n)) ! c"
    using c by (simp add: reference_cell gemm_result_def Let_def buffer_def flip: m_def n_def k_def)
  finally show "buffer mem' (slot out) (m * n) ! c =
    reference_gemm R problem (buffer mem (slot lhs) (m * k)) (buffer mem (slot rhs) (k * n))
      (buffer mem (slot out) (m * n)) ! c" .
qed (simp add: buffer_def)

section \<open>A concrete call\<close>

definition integer_fma :: "int fma_ops" where
  "integer_fma = \<lparr>fm_zero = 0, fm_fma = \<lambda>a b c. a * b + c\<rparr>"

lemma example_accepted:
  "cpu_validate_packed_avx2_v1 packed_example 4096 8192 12288 16384 1024 = Inr ()"
  unfolding packed_validation
  using packed_example_ok
  by (simp add: packed_example_def workspace_total_def b_panel_offset_def b_panel_bytes_def
      a_panel_bytes_def round_up_def placed_def workspace_ok_def tensors_ok_def tensors_avoid_def
      disjoint_ranges_def bytes_at_def)

lemma example_runs:
  fixes F :: "'f fma_ops"
  shows "fst (cpu_execute_packed_avx2_v1 True F packed_example 4096 8192 12288 16384 1024 mem) = pst_success"
    "fst (cpu_execute_packed_avx512_v1 True F packed_example 4096 8192 12288 16384 1024 mem) = pst_success"
  using execute_avx2_equation [of True F packed_example 4096 8192 12288 16384 1024 mem]
    execute_avx512_equation [of True F packed_example 4096 8192 12288 16384 1024 mem]
  by (auto simp: example_accepted)

theorem packed_avx2_exact_witness:
  "multiplied integer_fma packed_example 4096 8192 12288
    (workspace_slots packed_example transient_a_and_b 16384) int
    (snd (cpu_execute_packed_avx2_v1 True integer_fma packed_example 4096 8192 12288 16384 1024 int))"
  by (rule packed_avx2_exact [OF example_runs(1)])

theorem packed_avx512_equals_avx2_witness:
  "fst (cpu_execute_packed_avx2_v1 True integer_fma packed_example 4096 8192 12288 16384 1024 int) =
    pst_success \<and>
   agree (workspace_slots packed_example transient_a_and_b 16384)
      (snd (cpu_execute_packed_avx2_v1 True integer_fma packed_example 4096 8192 12288 16384 1024 int))
      (snd (cpu_execute_packed_avx512_v1 True integer_fma packed_example 4096 8192 12288 16384 1024 int))"
  by (rule packed_avx512_equals_avx2 [OF example_runs(2)])

text \<open>Arithmetic with two lost bits: a result is rounded down to a multiple of four. Even inputs have exact
  products, others need not.\<close>

definition coarse :: "int \<Rightarrow> int" where
  "coarse x = x - x mod 4"

definition coarse_ops :: "int float_ops" where
  "coarse_ops = \<lparr>fl_zero = 0, fl_add = \<lambda>a b. coarse (a + b), fl_mul = \<lambda>a b. coarse (a * b)\<rparr>"

definition coarse_fma :: "int fma_ops" where
  "coarse_fma = \<lparr>fm_zero = 0, fm_fma = \<lambda>a b c. coarse (a * b + c)\<rparr>"

abbreviation even_memory :: "int fmem" where
  "even_memory \<equiv> \<lambda>a. 2 * int a"

lemma even_products_exact:
  "products_exact coarse_fma coarse_ops (buffer even_memory a (m * k)) (buffer even_memory b (k * n)) m n k"
proof -
  have "fm_fma coarse_fma (2 * x) (2 * y) s = fl_add coarse_ops s (fl_mul coarse_ops (2 * x) (2 * y))" for x y s
    by (simp add: coarse_fma_def coarse_ops_def coarse_def add.commute)
  moreover have "buffer even_memory at len ! c = 2 * int (at + c)" if "c < len" for at len c
    using that by (simp add: buffer_def)
  moreover have "fm_zero coarse_fma = fl_zero coarse_ops" by (simp add: coarse_fma_def coarse_ops_def)
  ultimately show ?thesis
    unfolding products_exact_def by (intro conjI allI impI) (simp_all only: matrix_index)
qed

theorem packed_matches_reference_witness:
  "fm_fma coarse_fma 1 3 3 \<noteq> fl_add coarse_ops 3 (fl_mul coarse_ops 1 3) \<and>
   buffer (snd (cpu_execute_packed_avx2_v1 True coarse_fma packed_example 4096 8192 12288 16384 1024 even_memory))
     (slot 12288) (dim 5 * dim 17) =
   reference_gemm coarse_ops packed_example (buffer even_memory (slot 4096) (dim 5 * dim 3))
     (buffer even_memory (slot 8192) (dim 3 * dim 17)) (buffer even_memory (slot 12288) (dim 5 * dim 17))"
proof
  show "fm_fma coarse_fma 1 3 3 \<noteq> fl_add coarse_ops 3 (fl_mul coarse_ops 1 3)"
    by (simp add: coarse_fma_def coarse_ops_def coarse_def)
  let ?r = "cpu_execute_packed_avx2_v1 True coarse_fma packed_example 4096 8192 12288 16384 1024 even_memory"
  have "?r = (pst_success, snd ?r)" using example_runs(1) [of coarse_fma even_memory] by (metis prod.collapse)
  from packed_matches_reference [OF this even_products_exact]
  show "buffer (snd ?r) (slot 12288) (dim 5 * dim 17) =
   reference_gemm coarse_ops packed_example (buffer even_memory (slot 4096) (dim 5 * dim 3))
     (buffer even_memory (slot 8192) (dim 3 * dim 17)) (buffer even_memory (slot 12288) (dim 5 * dim 17))"
    by (simp only: packed_example_def CpuGemmProblemV1.simps)
qed

lemma example_view:
  "cpu_validate_prepare_packed_b_avx2_v1 packed_example 8192 20480 384 =
     Inr (cpu_make_packed_b_view_v1 packed_example 8192 20480 384 96)"
  unfolding prepare_validation using packed_example_ok
  by (simp add: packed_example_def b_image_total_def b_image_elements_def round_up_def placed_def
      workspace_ok_def disjoint_ranges_def bytes_at_def)

lemma example_prepared:
  fixes F :: "'f fma_ops"
  shows "fst (cpu_prepare_packed_b_avx512_v1 F packed_example 8192 20480 384 mem) =
    Inr (cpu_make_packed_b_view_v1 packed_example 8192 20480 384 96)"
proof -
  have "snd (prepare_loops F 17 3 (slot 8192) (slot 20480) mem) = 96"
    using prepare_loops_result(1) [of "slot 20480" 17 3 "slot 8192" F mem]
    by (simp add: slot_def panel_def round_up_def)
  then show ?thesis
    using prepare_avx512_agrees [of packed_example 8192 20480 384] example_view
    by (auto simp: cpu_prepare_packed_b_avx512_v1_def Let_def case_prod_beta packed_example_def)
qed

lemma example_prepacked_accepted:
  "cpu_validate_packed_avx2_prepacked_b_v1 packed_example 4096 12288
     (cpu_make_packed_b_view_v1 packed_example 8192 20480 384 96) 16384 1024 = Inr ()"
  using prepared_view_ok [OF example_view refl refl] packed_example_ok(2)
  by (simp add: prepacked_validation view_validation packed_example_def workspace_total_def
      a_panel_bytes_def round_up_def placed_def workspace_ok_def tensors_ok_def tensors_avoid_def
      disjoint_ranges_def bytes_at_def b_image_elements_def)

theorem prepacked_interchangeable_witness:
  "let view = cpu_make_packed_b_view_v1 packed_example 8192 20480 384 96;
       mem1 = snd (cpu_prepare_packed_b_avx512_v1 integer_fma packed_example 8192 20480 384 int)
   in prob_k packed_example = prob_k packed_example \<and> prob_n packed_example = prob_n packed_example \<and>
     multiplied integer_fma packed_example 4096 8192 12288
       (workspace_slots packed_example transient_a_with_prepacked_b 16384 \<union>
        panel (slot 20480) (b_image_elements packed_example)) int
       (snd (cpu_execute_packed_avx2_prepacked_b_v1 True integer_fma packed_example 4096 12288 view
          16384 1024 mem1))"
  unfolding Let_def
proof (rule prepacked_interchangeable)
  let ?view = "cpu_make_packed_b_view_v1 packed_example 8192 20480 384 96"
  let ?r = "cpu_prepare_packed_b_avx512_v1 integer_fma packed_example 8192 20480 384 int"
  show "?r = (Inr ?view, snd ?r)" using example_prepared by (metis prod.collapse)
  show "fst (cpu_execute_packed_avx2_prepacked_b_v1 True integer_fma packed_example 4096 12288 ?view
      16384 1024 (snd ?r)) = pst_success"
    using execute_avx2_prepacked_equation [of True integer_fma packed_example 4096 12288 ?view 16384 1024 "snd ?r"]
    by (auto simp: example_prepacked_accepted)
qed simp_all

end
