(* ===== verification/ParallelGemm.thy ===== *)
theory ParallelGemm
  imports PackedGemm ParallelTasks
begin

text \<open>
  The parallel packed GEMM of \<^verbatim>\<open>runtime/cpu_parallel_gemm.cpp\<close>, up to the work of one task: the
  table of backend operations, workspace requirements, validation, the rectangle of the output a task
  owns and its execution. What a task leaves in memory is in \<^theory_text>\<open>ParallelRun\<close>, how the workers run the tasks in \<^theory_text>\<open>ParallelWorkers\<close>.

  Sizes and offsets that the code computes in \<^verbatim>\<open>size_t\<close> from the fields of a job are 64-bit words; the
  counters of the loops are natural numbers, bounded by the dimensions. Comparisons with the largest
  \<^verbatim>\<open>size_t\<close>, which a 64-bit value cannot exceed, are left out, and so are null tests of the job and of
  the function pointers both tables set.
\<close>

section \<open>Types (cpu_parallel_gemm.h)\<close>

definition kCpuParallelGemmVersionV1 :: u32 where "kCpuParallelGemmVersionV1 = 1"

datatype CpuParallelGemmStatusV1 =
    pgs_success | pgs_invalid_problem | pgs_null_pointer | pgs_invalid_pointer_alignment
  | pgs_alias_violation | pgs_arithmetic_overflow | pgs_isa_unavailable | pgs_workspace_misaligned
  | pgs_workspace_insufficient | pgs_invalid_thread_count | pgs_context_unavailable
  | pgs_nested_parallelism_rejected | pgs_worker_task_failed | pgs_unsupported_fp_environment
  | pgs_other u32

record CpuParallelGemmWorkspaceRequirementsV1 =
  plr_version :: u32
  plr_execution_threads :: u32
  plr_alignment_bytes :: u64
  plr_shared_packed_b_offset :: u64
  plr_shared_packed_b_bytes :: u64
  plr_worker_region_offset :: u64
  plr_per_worker_bytes :: u64
  plr_per_worker_stride_bytes :: u64
  plr_total_bytes :: u64

definition default_parallel_requirements :: CpuParallelGemmWorkspaceRequirementsV1 where
  "default_parallel_requirements =
     \<lparr>plr_version = kCpuParallelGemmVersionV1, plr_execution_threads = 0,
      plr_alignment_bytes = kCpuPackedGemmWorkspaceAlignmentV1, plr_shared_packed_b_offset = 0,
      plr_shared_packed_b_bytes = 0, plr_worker_region_offset = 0, plr_per_worker_bytes = 0,
      plr_per_worker_stride_bytes = 0, plr_total_bytes = 0\<rparr>"

fun cpu_parallel_gemm_status_message_v1 :: "CpuParallelGemmStatusV1 \<Rightarrow> string" where
  "cpu_parallel_gemm_status_message_v1 pgs_success = ''success''"
| "cpu_parallel_gemm_status_message_v1 pgs_invalid_problem = ''invalid parallel GEMM problem''"
| "cpu_parallel_gemm_status_message_v1 pgs_null_pointer =
     ''required parallel GEMM pointer is null''"
| "cpu_parallel_gemm_status_message_v1 pgs_invalid_pointer_alignment =
     ''parallel GEMM tensor violates declared alignment''"
| "cpu_parallel_gemm_status_message_v1 pgs_alias_violation =
     ''parallel GEMM buffers overlap illegally''"
| "cpu_parallel_gemm_status_message_v1 pgs_arithmetic_overflow =
     ''parallel GEMM size arithmetic overflowed''"
| "cpu_parallel_gemm_status_message_v1 pgs_isa_unavailable =
     ''requested parallel packed ISA execution is unavailable''"
| "cpu_parallel_gemm_status_message_v1 pgs_workspace_misaligned =
     ''parallel GEMM workspace is not 64-byte aligned''"
| "cpu_parallel_gemm_status_message_v1 pgs_workspace_insufficient =
     ''parallel GEMM workspace is too small''"
| "cpu_parallel_gemm_status_message_v1 pgs_invalid_thread_count =
     ''parallel GEMM thread request is invalid''"
| "cpu_parallel_gemm_status_message_v1 pgs_context_unavailable =
     ''CPU execution context is unavailable''"
| "cpu_parallel_gemm_status_message_v1 pgs_nested_parallelism_rejected =
     ''nested native/provider parallel execution is prohibited''"
| "cpu_parallel_gemm_status_message_v1 pgs_worker_task_failed = ''parallel GEMM worker task failed''"
| "cpu_parallel_gemm_status_message_v1 pgs_unsupported_fp_environment =
     ''parallel GEMM worker floating-point environment is unsupported''"
| "cpu_parallel_gemm_status_message_v1 (pgs_other code) = ''unknown parallel GEMM status''"

section \<open>Backend operations\<close>

text \<open>Results of the operations that fill an output parameter are sums; a null function pointer is
  \<open>None\<close>. \<open>ops_zero\<close> is the literal \<^verbatim>\<open>0.0F\<close>.\<close>

type_synonym 'f microkernel =
  "'f fmem \<Rightarrow> nat \<Rightarrow> nat \<Rightarrow> nat \<Rightarrow> nat \<Rightarrow> nat \<Rightarrow> nat \<Rightarrow> nat \<Rightarrow> bool \<Rightarrow> 'f fmem \<Rightarrow> 'f fmem"

type_synonym 'f full_microkernel_16 =
  "'f fmem \<Rightarrow> nat \<Rightarrow> nat \<Rightarrow> nat \<Rightarrow> nat \<Rightarrow> nat \<Rightarrow> bool \<Rightarrow> 'f fmem \<Rightarrow> 'f fmem"

type_synonym 'f full_microkernel_32 =
  "'f fmem \<Rightarrow> nat \<Rightarrow> nat \<Rightarrow> nat \<Rightarrow> nat \<Rightarrow> nat \<Rightarrow> nat \<Rightarrow> bool \<Rightarrow> 'f fmem \<Rightarrow> 'f fmem"

record 'f PackedBackendOpsV1 =
  ops_runtime_usable :: bool
  ops_workspace_requirements :: "CpuGemmProblemV1 \<Rightarrow> CpuPackedGemmWorkspaceModeV1 \<Rightarrow>
    CpuPackedGemmStatusV1 + CpuPackedGemmWorkspaceRequirementsV1"
  ops_prepacked_requirements :: "CpuGemmProblemV1 \<Rightarrow>
    CpuPackedGemmStatusV1 + CpuPackedGemmWorkspaceRequirementsV1"
  ops_prepare_b :: "CpuGemmProblemV1 \<Rightarrow> u64 \<Rightarrow> u64 \<Rightarrow> u64 \<Rightarrow> 'f fmem \<Rightarrow>
    (CpuPackedGemmStatusV1 + CpuPackedBViewV1) \<times> 'f fmem"
  ops_execute_prepacked :: "CpuGemmProblemV1 \<Rightarrow> u64 \<Rightarrow> u64 \<Rightarrow> CpuPackedBViewV1 \<Rightarrow> u64 \<Rightarrow> u64 \<Rightarrow>
    'f fmem \<Rightarrow> CpuPackedGemmStatusV1 \<times> 'f fmem"
  ops_microkernel :: "'f microkernel"
  ops_full_microkernel_16 :: "'f full_microkernel_16 option"
  ops_full_microkernel_32 :: "'f full_microkernel_32 option"
  ops_zero :: "'f fma_ops"

definition kPackedAvx2Ops :: "bool \<Rightarrow> 'f fma_ops \<Rightarrow> 'f PackedBackendOpsV1" where
  "kPackedAvx2Ops usable F =
     \<lparr>ops_runtime_usable = usable,
      ops_workspace_requirements = cpu_packed_avx2_workspace_requirements_v1,
      ops_prepacked_requirements = cpu_packed_avx2_prepacked_b_requirements_v1,
      ops_prepare_b = cpu_prepare_packed_b_avx2_v1 F,
      ops_execute_prepacked = cpu_execute_packed_avx2_prepacked_b_v1 usable F,
      ops_microkernel = matcore_cpu_packed_avx2_4x16_microkernel_f32_v1 F,
      ops_full_microkernel_16 = Some (matcore_cpu_packed_avx2_4x16_full_microkernel_f32_v2 F),
      ops_full_microkernel_32 = None, ops_zero = F\<rparr>"

definition kPackedAvx512Ops :: "bool \<Rightarrow> 'f fma_ops \<Rightarrow> 'f PackedBackendOpsV1" where
  "kPackedAvx512Ops usable F =
     \<lparr>ops_runtime_usable = usable,
      ops_workspace_requirements = cpu_packed_avx512_workspace_requirements_v1,
      ops_prepacked_requirements = cpu_packed_avx512_prepacked_b_requirements_v1,
      ops_prepare_b = cpu_prepare_packed_b_avx512_v1 F,
      ops_execute_prepacked = cpu_execute_packed_avx512_prepacked_b_v1 usable F,
      ops_microkernel = matcore_cpu_packed_avx512_4x16_microkernel_f32_v1 F,
      ops_full_microkernel_16 = None,
      ops_full_microkernel_32 =
        Some (matcore_internal_cpu_packed_avx512_4x32_full_microkernel_f32_m7 F),
      ops_zero = F\<rparr>"

section \<open>Arithmetic and statuses\<close>

definition checked_align_up :: "u64 \<Rightarrow> u64 \<Rightarrow> u64 option" where
  "checked_align_up value alignment =
    (if alignment = 0 \<or> alignment AND (alignment - 1) \<noteq> 0 then None
     else let remainder = value AND (alignment - 1)
       in if remainder = 0 then Some value
          else let increment = alignment - remainder
            in if increment > u64_max - value then None else Some (value + increment))"

fun map_packed_status :: "CpuPackedGemmStatusV1 \<Rightarrow> CpuParallelGemmStatusV1" where
  "map_packed_status pst_success = pgs_success"
| "map_packed_status pst_invalid_problem = pgs_invalid_problem"
| "map_packed_status pst_null_pointer = pgs_null_pointer"
| "map_packed_status pst_invalid_pointer_alignment = pgs_invalid_pointer_alignment"
| "map_packed_status pst_alias_violation = pgs_alias_violation"
| "map_packed_status pst_arithmetic_overflow = pgs_arithmetic_overflow"
| "map_packed_status pst_isa_unavailable = pgs_isa_unavailable"
| "map_packed_status pst_workspace_misaligned = pgs_workspace_misaligned"
| "map_packed_status pst_workspace_insufficient = pgs_workspace_insufficient"
| "map_packed_status pst_invalid_prepacked_b = pgs_invalid_problem"
| "map_packed_status (pst_other code) = pgs_worker_task_failed"

definition size_divide_round_up :: "u64 \<Rightarrow> u64 \<Rightarrow> u64" where
  "size_divide_round_up numerator denominator =
     numerator div denominator + (if numerator mod denominator \<noteq> 0 then 1 else 0)"

definition should_parallel_pack_b ::
  "CpuGemmProblemV1 \<Rightarrow> CpuParallelTaskPlanV1 \<Rightarrow> CpuParallelGemmWorkspaceRequirementsV1 \<Rightarrow> u32 \<Rightarrow> bool" where
  "should_parallel_pack_b problem task_plan requirements actual_threads = False"

section \<open>Workspace\<close>

definition parallel_workspace_requirements ::
  "'f PackedBackendOpsV1 \<Rightarrow> CpuGemmProblemV1 \<Rightarrow> u32 \<Rightarrow>
   CpuParallelGemmStatusV1 + CpuParallelGemmWorkspaceRequirementsV1" where
  "parallel_workspace_requirements ops problem execution_threads =
    (if execution_threads = 0 then Inl pgs_invalid_thread_count
     else
     let band = (if sint (prob_m problem) > 128 then problem\<lparr>prob_m := 128\<rparr> else problem)
     in case ops_prepacked_requirements ops problem of
       Inl status \<Rightarrow> Inl (map_packed_status status)
     | Inr packed_b \<Rightarrow>
       (case ops_workspace_requirements ops band transient_a_with_prepacked_b of
          Inl status \<Rightarrow> Inl (map_packed_status status)
        | Inr packed_a \<Rightarrow>
          and_then (or_fail (checked_align_up (preq_total_bytes packed_b)
              kCpuPackedGemmWorkspaceAlignmentV1) pgs_arithmetic_overflow) (\<lambda>worker_region_offset.
          and_then (or_fail (checked_align_up (preq_total_bytes packed_a)
              kCpuPackedGemmWorkspaceAlignmentV1) pgs_arithmetic_overflow) (\<lambda>worker_stride.
          and_then (or_fail (checked_multiply worker_stride (u32_to_u64 execution_threads))
              pgs_arithmetic_overflow) (\<lambda>worker_bytes.
          and_then (require (\<not> worker_bytes > u64_max - worker_region_offset)
              pgs_arithmetic_overflow) (\<lambda>_.
          Inr (default_parallel_requirements
            \<lparr>plr_execution_threads := execution_threads,
             plr_shared_packed_b_bytes := preq_total_bytes packed_b,
             plr_worker_region_offset := worker_region_offset,
             plr_per_worker_bytes := preq_total_bytes packed_a,
             plr_per_worker_stride_bytes := worker_stride,
             plr_total_bytes := worker_region_offset + worker_bytes\<rparr>)))))))"

definition validate_tensor_and_workspace ::
  "CpuGemmProblemV1 \<Rightarrow> u64 \<Rightarrow> u64 \<Rightarrow> u64 \<Rightarrow> u64 \<Rightarrow> CpuParallelGemmWorkspaceRequirementsV1 \<Rightarrow> u64 \<Rightarrow>
   CpuParallelGemmStatusV1 + unit" where
  "validate_tensor_and_workspace problem lhs rhs out workspace requirements supplied_bytes =
    (let alignment = u32_to_u64 (prob_minimum_alignment_bytes problem)
     in and_then (require (lhs \<noteq> 0 \<and> rhs \<noteq> 0 \<and> out \<noteq> 0 \<and> workspace \<noteq> 0) pgs_null_pointer) (\<lambda>_.
        and_then (require (pointer_has_alignment lhs 4 \<and> pointer_has_alignment rhs 4 \<and>
            pointer_has_alignment out 4 \<and> pointer_has_alignment lhs alignment \<and>
            pointer_has_alignment rhs alignment \<and> pointer_has_alignment out alignment)
            pgs_invalid_pointer_alignment) (\<lambda>_.
        and_then (require (pointer_has_alignment workspace (plr_alignment_bytes requirements))
            pgs_workspace_misaligned) (\<lambda>_.
        and_then (require (\<not> supplied_bytes < plr_total_bytes requirements)
            pgs_workspace_insufficient) (\<lambda>_.
        and_then (or_fail (make_matrix_span lhs (prob_m problem) (prob_k problem))
            pgs_arithmetic_overflow) (\<lambda>lhs_span.
        and_then (or_fail (make_matrix_span rhs (prob_k problem) (prob_n problem))
            pgs_arithmetic_overflow) (\<lambda>rhs_span.
        and_then (or_fail (make_matrix_span out (prob_m problem) (prob_n problem))
            pgs_arithmetic_overflow) (\<lambda>out_span.
        and_then (or_fail (make_span workspace (plr_total_bytes requirements))
            pgs_arithmetic_overflow) (\<lambda>workspace_span.
        require (\<not> (overlaps out_span lhs_span \<or> overlaps out_span rhs_span \<or>
            overlaps workspace_span lhs_span \<or> overlaps workspace_span rhs_span \<or>
            overlaps workspace_span out_span)) pgs_alias_violation)))))))))"

section \<open>The job\<close>

record 'f ParallelGemmJobV1 =
  job_problem :: CpuGemmProblemV1
  job_ops :: "'f PackedBackendOpsV1"
  job_lhs :: u64
  job_rhs :: u64
  job_out :: u64
  job_packed_b :: CpuPackedBViewV1
  job_packed_b_destination :: u64
  job_workspace :: u64
  job_worker_region_offset :: u64
  job_per_worker_stride :: u64
  job_row_quantum :: u64
  job_row_group_count :: u64
  job_row_task_count :: u64
  job_column_panel_count :: u64
  job_column_task_count :: u64
  job_task_count :: u64
  job_active_threads :: u32
  job_parallel_pack_b :: bool

definition validate_task_plan_and_packed_b ::
  "CpuGemmProblemV1 \<Rightarrow> u64 \<Rightarrow> u64 \<Rightarrow> CpuParallelTaskPlanV1 \<Rightarrow> CpuPackedBViewV1 \<Rightarrow> bool" where
  "validate_task_plan_and_packed_b problem rhs out plan packed_b =
    (let n = prob_n problem; k = prob_k problem;
         expected = plan_cpu_parallel_tasks_v1 problem (ptp_actual_threads plan)
     in if ptp_row_quantum plan = 0 \<or> ptp_row_group_count plan = 0 \<or> ptp_row_task_count plan = 0 \<or>
           ptp_column_panel_count plan = 0 \<or> ptp_column_task_count plan = 0 \<or>
           ptp_actual_threads plan = 0 \<or> plan \<noteq> expected
        then False
        else if ptp_column_task_count plan > 1 \<and>
          (n mod kCpuParallelCacheLineFloatCountV1 \<noteq> 0 \<or>
           prob_minimum_alignment_bytes problem < 64 \<or> \<not> pointer_has_alignment out 64)
        then False
        else case checked_align_up n kCpuPackedGemmNrV1 of
          None \<Rightarrow> False
        | Some padded_columns \<Rightarrow>
          (case checked_multiply padded_columns k of
             None \<Rightarrow> False
           | Some expected_elements \<Rightarrow>
             (case checked_multiply expected_elements sizeof_float of
                None \<Rightarrow> False
              | Some expected_bytes \<Rightarrow>
                  pbv_source_data packed_b = rhs \<and>
                  cpu_validate_packed_b_view_metadata_v1 problem packed_b expected_bytes
                    expected_elements)))"

section \<open>The rectangle of a task\<close>

text \<open>The begin and the length of share \<open>index\<close> when \<open>count\<close> pieces are dealt to \<open>tasks\<close> tasks.\<close>

definition task_share :: "u64 \<Rightarrow> u64 \<Rightarrow> u64 \<Rightarrow> u64 \<times> u64" where
  "task_share pieces tasks index =
    (let base = pieces div tasks; extra = pieces mod tasks
     in (index * base + min index extra, base + (if index < extra then 1 else 0)))"

record TaskRectangle =
  tr_row_begin :: u64
  tr_rows :: u64
  tr_column_begin :: u64
  tr_column_end :: u64

definition task_rectangle :: "'f ParallelGemmJobV1 \<Rightarrow> u64 \<Rightarrow> TaskRectangle" where
  "task_rectangle job task_index =
    (let m = prob_m (job_problem job); n = prob_n (job_problem job);
         row_task_index = task_index div job_column_task_count job;
         column_task_index = task_index mod job_column_task_count job;
         (group_begin, groups) =
           task_share (job_row_group_count job) (job_row_task_count job) row_task_index;
         row_begin = group_begin * job_row_quantum job;
         rows = min (m - row_begin) (groups * job_row_quantum job);
         (column_panel_begin, column_panels) =
           task_share (job_column_panel_count job) (job_column_task_count job) column_task_index;
         column_begin = column_panel_begin * kCpuPackedGemmNcV1;
         column_end = min n ((column_panel_begin + column_panels) * kCpuPackedGemmNcV1)
     in \<lparr>tr_row_begin = row_begin, tr_rows = rows, tr_column_begin = column_begin,
         tr_column_end = column_end\<rparr>)"

section \<open>One task\<close>

definition parallel_pack_a_block ::
  "'f fma_ops \<Rightarrow> nat \<Rightarrow> nat \<Rightarrow> nat \<Rightarrow> nat \<Rightarrow> nat \<Rightarrow> nat \<Rightarrow> nat \<Rightarrow> 'f fmem \<Rightarrow> 'f fmem" where
  "parallel_pack_a_block F lhs leading_dimension row_begin k_begin rows depth packed_a mem =
    (let padded_rows = (rows div 4 + (if rows mod 4 \<noteq> 0 then 1 else 0)) * 4
     in fst (fold (\<lambda>row. fold (\<lambda>p. fold (\<lambda>lane.
          emit packed_a (\<lambda>mem.
            if row + lane < rows
            then mem (lhs + ((row_begin + row + lane) * leading_dimension + k_begin + p))
            else fm_zero F))
          [0..<4]) [0..<depth]) (strided 0 4 padded_rows) (mem, 0)))"

text \<open>The column loop of \<^verbatim>\<open>compute_output_block\<close>, from a column on.\<close>

function output_columns ::
  "'f PackedBackendOpsV1 \<Rightarrow> nat \<Rightarrow> nat \<Rightarrow> nat \<Rightarrow> nat \<Rightarrow> nat \<Rightarrow> nat \<Rightarrow> nat \<Rightarrow> bool \<Rightarrow> nat \<Rightarrow> 'f fmem \<Rightarrow> 'f fmem" where
  "output_columns ops n a_panel packed_b depth out_row tile_rows columns accumulate column mem =
    (if column \<ge> columns then mem
     else
     let tile_columns = min 16 (columns - column);
         b_panel = packed_b + column div 16 * depth * 16;
         output_at = out_row + column
     in if tile_rows = 4 \<and> ops_full_microkernel_32 ops \<noteq> None \<and> columns - column \<ge> 32
        then output_columns ops n a_panel packed_b depth out_row tile_rows columns accumulate
          (column + 32)
          (the (ops_full_microkernel_32 ops) mem a_panel b_panel (b_panel + depth * 16) depth
            output_at n accumulate mem)
        else if tile_rows = 4 \<and> tile_columns = 16 \<and> ops_full_microkernel_16 ops \<noteq> None
        then output_columns ops n a_panel packed_b depth out_row tile_rows columns accumulate
          (column + 16)
          (the (ops_full_microkernel_16 ops) mem a_panel b_panel depth output_at n accumulate mem)
        else output_columns ops n a_panel packed_b depth out_row tile_rows columns accumulate
          (column + tile_columns)
          (ops_microkernel ops mem a_panel b_panel depth output_at n tile_rows tile_columns
            accumulate mem))"
  by pat_completeness auto
termination
  by (relation "measure (\<lambda>(ops, n, a_panel, packed_b, depth, out_row, tile_rows, columns, accumulate,
      column, mem). columns - column)") auto

declare output_columns.simps [simp del]

definition compute_output_block :: "'f PackedBackendOpsV1 \<Rightarrow> 'f block_routine" where
  "compute_output_block ops F k n lhs out row_begin column_begin k_begin rows columns depth packed_a
       packed_b mem =
    (let mem = parallel_pack_a_block F lhs k row_begin k_begin rows depth packed_a mem
     in fold (\<lambda>row.
          let tile_rows = min 4 (rows - row);
              a_panel = packed_a + row div 4 * depth * 4
          in output_columns ops n a_panel packed_b depth
               (out + (row_begin + row) * n + column_begin) tile_rows columns (k_begin \<noteq> 0) 0)
          (strided 0 4 rows) mem)"

text \<open>The loops of a task that owns part of the columns. \<open>False\<close> in the state is an early
  \<^verbatim>\<open>return callback_failed\<close>.\<close>

definition partition_depth ::
  "'f PackedBackendOpsV1 \<Rightarrow> nat \<Rightarrow> nat \<Rightarrow> nat \<Rightarrow> nat \<Rightarrow> nat \<Rightarrow> nat \<Rightarrow> nat \<Rightarrow> nat \<Rightarrow> nat \<Rightarrow> u64 \<Rightarrow> u64 \<Rightarrow> nat \<Rightarrow>
   bool \<times> u64 \<times> 'f fmem \<Rightarrow> bool \<times> u64 \<times> 'f fmem" where
  "partition_depth ops n k lhs out rows packed_a packed_column_panel column columns padded_columns
       packed_column_elements p s =
    (case s of (ok, packed_k_offset, mem) \<Rightarrow>
       if \<not> ok then s
       else let depth = min 256 (k - p)
         in case checked_multiply padded_columns (of_nat depth) of
              None \<Rightarrow> (False, packed_k_offset, mem)
            | Some packed_k_elements \<Rightarrow>
                if packed_k_offset > packed_column_elements \<or>
                   packed_k_elements > packed_column_elements - packed_k_offset
                then (False, packed_k_offset, mem)
                else (True, packed_k_offset + packed_k_elements,
                  fold (\<lambda>row.
                    let block_rows = min 128 (rows - row)
                    in compute_output_block ops (ops_zero ops) k n lhs out row column p block_rows
                         columns depth packed_a (packed_column_panel + unat packed_k_offset))
                    (strided 0 128 rows) mem))"

definition partition_column ::
  "'f PackedBackendOpsV1 \<Rightarrow> nat \<Rightarrow> nat \<Rightarrow> nat \<Rightarrow> nat \<Rightarrow> nat \<Rightarrow> nat \<Rightarrow> nat \<Rightarrow> u64 \<Rightarrow> nat \<Rightarrow> nat \<Rightarrow>
   bool \<times> 'f fmem \<Rightarrow> bool \<times> 'f fmem" where
  "partition_column ops n k lhs out rows packed_a packed_data packed_elements column_end column s =
    (case s of (ok, mem) \<Rightarrow>
       if \<not> ok then s
       else
       let columns = min 256 (column_end - column);
           padded_columns = size_divide_round_up (of_nat columns) kCpuPackedGemmNrV1 * kCpuPackedGemmNrV1
       in case checked_multiply (of_nat column) (of_nat k) of
            None \<Rightarrow> (False, mem)
          | Some packed_column_offset \<Rightarrow>
            (case checked_multiply padded_columns (of_nat k) of
               None \<Rightarrow> (False, mem)
             | Some packed_column_elements \<Rightarrow>
                 if packed_column_offset > packed_elements \<or>
                    packed_column_elements > packed_elements - packed_column_offset
                 then (False, mem)
                 else case fold (partition_depth ops n k lhs out rows packed_a
                       (packed_data + unat packed_column_offset) column columns padded_columns
                       packed_column_elements) (strided 0 256 k) (True, 0, mem)
                   of (ok, packed_k_offset, mem) \<Rightarrow>
                     (ok \<and> packed_k_offset = packed_column_elements, mem)))"

definition execute_output_partition ::
  "'f ParallelGemmJobV1 \<Rightarrow> CpuPackedBViewV1 \<Rightarrow> u64 \<Rightarrow> u64 \<Rightarrow> 'f fmem \<Rightarrow> bool \<times> 'f fmem" where
  "execute_output_partition job packed_b task_index worker_index mem =
    (if task_index \<ge> job_task_count job \<or> job_row_task_count job = 0 \<or> job_column_task_count job = 0
     then (False, mem)
     else
     let ops = job_ops job;
         n = prob_n (job_problem job); k = prob_k (job_problem job);
         rectangle = task_rectangle job task_index;
         row_begin = tr_row_begin rectangle;
         lhs = job_lhs job + row_begin * k * 4;
         out = job_out job + row_begin * n * 4;
         worker_workspace = job_workspace job + job_worker_region_offset job +
           worker_index * job_per_worker_stride job
     in if job_column_task_count job = 1
        then
          let band = (job_problem job)\<lparr>prob_m := tr_rows rectangle\<rparr>;
              (status, mem) = ops_execute_prepacked ops band lhs out packed_b worker_workspace
                (job_per_worker_stride job) mem
          in (status = pst_success, mem)
        else
          fold (partition_column ops (unat n) (unat k) (slot lhs) (slot out)
              (unat (tr_rows rectangle)) (slot worker_workspace) (slot (pbv_packed_data packed_b))
              (pbv_packed_elements packed_b) (unat (tr_column_end rectangle)))
            (strided (unat (tr_column_begin rectangle)) 256 (unat (tr_column_end rectangle)))
            (True, mem))"

section \<open>Both backends run the block routine of their engine\<close>

text \<open>The column loop without the wide kernel is a strided loop of checked tiles.\<close>

abbreviation checked_tile ::
  "'f PackedBackendOpsV1 \<Rightarrow> nat \<Rightarrow> nat \<Rightarrow> nat \<Rightarrow> nat \<Rightarrow> nat \<Rightarrow> nat \<Rightarrow> nat \<Rightarrow> bool \<Rightarrow> nat \<Rightarrow> 'f fmem \<Rightarrow> 'f fmem" where
  "checked_tile ops n a_panel packed_b depth out_row tile_rows columns accumulate column mem \<equiv>
     ops_microkernel ops mem a_panel (packed_b + column div 16 * depth * 16) depth (out_row + column) n
       tile_rows (min 16 (columns - column)) accumulate mem"

lemma narrow_columns:
  assumes wide: "ops_full_microkernel_32 ops = None \<or> tile_rows \<noteq> 4 \<or> columns < column + 32"
    and full: "\<And>f m a b at. ops_full_microkernel_16 ops = Some f \<Longrightarrow>
      f m a b depth at n accumulate m = ops_microkernel ops m a b depth at n 4 16 accumulate m"
  shows "output_columns ops n a_panel packed_b depth out_row tile_rows columns accumulate column mem =
    fold (checked_tile ops n a_panel packed_b depth out_row tile_rows columns accumulate)
      (strided column 16 columns) mem"
  using wide
proof (induction "columns - column" arbitrary: column mem rule: less_induct)
  case less
  let ?f = "checked_tile ops n a_panel packed_b depth out_row tile_rows columns accumulate"
  show ?case
  proof (cases "column < columns")
    case False
    then show ?thesis by (simp add: output_columns.simps strided.simps [of column])
  next
    case True
    have "\<not> (tile_rows = 4 \<and> ops_full_microkernel_32 ops \<noteq> None \<and> columns - column \<ge> 32)"
      using less.prems by auto
    then have step: "output_columns ops n a_panel packed_b depth out_row tile_rows columns accumulate column mem =
        output_columns ops n a_panel packed_b depth out_row tile_rows columns accumulate
          (column + min 16 (columns - column)) (?f column mem)"
      using True full
      by (subst output_columns.simps)
        (auto simp: Let_def not_le simp del: output_columns.simps)
    have "output_columns ops n a_panel packed_b depth out_row tile_rows columns accumulate
          (column + min 16 (columns - column)) (?f column mem) =
        fold ?f (strided (column + min 16 (columns - column)) 16 columns) (?f column mem)"
      using True less.prems by (intro less.hyps) auto
    also have "strided (column + min 16 (columns - column)) 16 columns = strided (column + 16) 16 columns"
      by (cases "columns - column < 16") (simp_all add: strided.simps [of _ 16 columns])
    finally show ?thesis
      using True by (simp add: step strided.simps [of column])
  qed
qed

lemma wide_columns:
  fixes a_panel packed_b depth out_row n :: nat and accumulate :: bool
  assumes f: "ops_full_microkernel_32 ops = Some f" "ops_full_microkernel_16 ops = None"
    and rows: "tile_rows = 4"
  defines "wide \<equiv> \<lambda>column mem. f mem a_panel (packed_b + column div 16 * depth * 16)
      (packed_b + column div 16 * depth * 16 + depth * 16) depth (out_row + column) n accumulate mem"
  shows "output_columns ops n a_panel packed_b depth out_row tile_rows columns accumulate column mem =
    fold (checked_tile ops n a_panel packed_b depth out_row tile_rows columns accumulate)
      (strided (column + length (strided column 32 (columns - 31)) * 32) 16 columns)
      (fold wide (strided column 32 (columns - 31)) mem)"
proof (induction "columns - column" arbitrary: column mem rule: less_induct)
  case less
  show ?case
  proof (cases "column + 32 \<le> columns")
    case True
    have wide: "column < columns" "32 \<le> columns - column" using True by simp_all
    have unfold: "strided column 32 (columns - 31) = column # strided (column + 32) 32 (columns - 31)"
      using True by (subst strided.simps) simp
    have "output_columns ops n a_panel packed_b depth out_row tile_rows columns accumulate column mem =
        output_columns ops n a_panel packed_b depth out_row tile_rows columns accumulate (column + 32)
          (wide column mem)"
      using wide f rows by (subst output_columns.simps) (simp add: Let_def wide_def)
    also have "\<dots> = fold (checked_tile ops n a_panel packed_b depth out_row tile_rows columns accumulate)
      (strided (column + 32 + length (strided (column + 32) 32 (columns - 31)) * 32) 16 columns)
      (fold wide (strided (column + 32) 32 (columns - 31)) (wide column mem))"
      using True by (intro less.hyps) simp
    finally show ?thesis by (simp add: unfold add.assoc)
  next
    case False
    then have none: "strided column 32 (columns - 31) = []" by (subst strided.simps) simp
    show ?thesis
      unfolding none using False f by (subst narrow_columns) simp_all
  qed
qed

lemma padded_rows:
  assumes "rows < 2 ^ 63"
  shows "(case checked_round_up (of_nat rows) kCpuPackedGemmMrV1 of
      Some padded \<Rightarrow> unat padded | None \<Rightarrow> 0) = (rows div 4 + (if rows mod 4 \<noteq> 0 then 1 else 0)) * 4"
proof -
  have r: "unat (of_nat rows :: u64) = rows" using assms by (intro unat_of_nat64) simp
  have up: "round_up rows 4 = (rows div 4 + (if rows mod 4 \<noteq> 0 then 1 else 0)) * 4"
    by (simp add: round_up_def) presburger
  have lt: "round_up rows 4 < 2 ^ 64" using round_up_bounds(2) [of 4 rows] assms by simp
  then have "checked_round_up (of_nat rows) 4 = Some (of_nat (round_up rows 4))"
    using round_up_word [of 4 "of_nat rows"] r by simp
  then show ?thesis using lt unat_of_nat64 [of "round_up rows 4"] up by (simp add: packed_constants)
qed

lemma pack_a_blocks_agree:
  "rows < 2 ^ 63 \<Longrightarrow> parallel_pack_a_block F lhs k row_begin k_begin rows depth packed_a =
    pack_a_block F lhs k row_begin k_begin rows depth packed_a"
  by (simp add: parallel_pack_a_block_def pack_a_block_def padded_rows fun_eq_iff)

lemma avx2_output_block:
  assumes "0 < depth" "rows < 2 ^ 63"
  shows "compute_output_block (kPackedAvx2Ops usable F) F k n lhs out row column p rows columns depth pa pb =
    compute_block F k n lhs out row column p rows columns depth pa pb"
proof
  fix mem
  have narrow: "output_columns (kPackedAvx2Ops usable F) n a pb depth at tile_rows columns acc 0 =
      fold (checked_tile (kPackedAvx2Ops usable F) n a pb depth at tile_rows columns acc)
        (strided 0 16 columns)" for a at tile_rows acc
    using assms(1)
    by (intro ext narrow_columns)
      (auto simp: kPackedAvx2Ops_def matcore_cpu_packed_avx2_4x16_full_microkernel_f32_v2_def
        matcore_cpu_packed_avx2_4x16_microkernel_f32_v1_def)
  show "compute_output_block (kPackedAvx2Ops usable F) F k n lhs out row column p rows columns depth pa pb mem =
    compute_block F k n lhs out row column p rows columns depth pa pb mem"
    using assms(2)
    by (simp add: compute_output_block_def compute_block_def Let_def pack_a_blocks_agree narrow)
      (simp add: kPackedAvx2Ops_def)
qed

lemma avx512_output_block:
  assumes "rows < 2 ^ 63"
  shows "compute_output_block (kPackedAvx512Ops usable F) F k n lhs out row column p rows columns depth pa pb =
    compute_block_avx512 F k n lhs out row column p rows columns depth pa pb"
proof
  fix mem
  let ?ops = "kPackedAvx512Ops usable F"
  have columns: "output_columns ?ops n a pb depth at tile_rows columns acc 0 =
      (\<lambda>w. let pairs = (if tile_rows = 4 then strided 0 32 (columns - 31) else []);
           w = fold (\<lambda>column w. matcore_internal_cpu_packed_avx512_4x32_full_microkernel_f32_m7 F w a
             (pb + column div 16 * depth * 16) (pb + column div 16 * depth * 16 + depth * 16) depth
             (at + column) n acc w) pairs w
       in fold (checked_tile ?ops n a pb depth at tile_rows columns acc)
         (strided (length pairs * 32) 16 columns) w)" for a at tile_rows acc
  proof (cases "tile_rows = 4")
    case True
    then show ?thesis
      by (intro ext, subst wide_columns
          [where f = "matcore_internal_cpu_packed_avx512_4x32_full_microkernel_f32_m7 F"])
        (simp_all add: kPackedAvx512Ops_def Let_def)
  next
    case False
    then show ?thesis by (intro ext, subst narrow_columns) (simp_all add: kPackedAvx512Ops_def Let_def)
  qed
  show "compute_output_block ?ops F k n lhs out row column p rows columns depth pa pb mem =
    compute_block_avx512 F k n lhs out row column p rows columns depth pa pb mem"
    using assms
    by (simp add: compute_output_block_def compute_block_avx512_def Let_def pack_a_blocks_agree columns)
      (simp add: kPackedAvx512Ops_def)
qed

section \<open>What the table of a backend promises\<close>

text \<open>The contract: the same queries and checks as the AVX2 engine, and executions that run \<open>block\<close>.\<close>

locale packed_backend = block_kernel block
  for block :: "'f block_routine" +
  fixes backend :: "'f fma_ops \<Rightarrow> 'f PackedBackendOpsV1" and usable :: bool
  assumes backend_usable: "ops_runtime_usable (backend F) = usable"
    and backend_zero: "ops_zero (backend F) = F"
    and backend_workspace: "ops_workspace_requirements (backend F) = cpu_packed_avx2_workspace_requirements_v1"
    and backend_prepacked: "ops_prepacked_requirements (backend F) = cpu_packed_avx2_prepacked_b_requirements_v1"
    and backend_execute: "\<exists>s. s \<noteq> pst_success \<and>
      ops_execute_prepacked (backend F) problem lhs out view workspace bytes mem =
      (if usable \<and> cpu_validate_packed_avx2_prepacked_b_v1 problem lhs out view workspace bytes = Inr ()
       then (pst_success, prepacked_run block F problem lhs out view workspace mem) else (s, mem))"
    and backend_output: "0 < depth \<Longrightarrow> rows < 2 ^ 63 \<Longrightarrow>
      compute_output_block (backend F) F k n lhs_at out_at row column p rows columns depth pa pb =
      block F k n lhs_at out_at row column p rows columns depth pa pb"

interpretation avx2_backend: packed_backend compute_block "kPackedAvx2Ops usable" usable for usable
proof unfold_locales
  fix F :: "'f fma_ops" and problem lhs out view workspace bytes mem
  show "\<exists>s. s \<noteq> pst_success \<and>
      ops_execute_prepacked (kPackedAvx2Ops usable F) problem lhs out view workspace bytes mem =
      (if usable \<and> cpu_validate_packed_avx2_prepacked_b_v1 problem lhs out view workspace bytes = Inr ()
       then (pst_success, prepacked_run compute_block F problem lhs out view workspace mem) else (s, mem))"
    using execute_avx2_prepacked_equation [of usable F problem lhs out view workspace bytes mem]
    by (simp add: kPackedAvx2Ops_def)
qed (simp_all add: avx2_output_block, simp_all add: kPackedAvx2Ops_def)

interpretation avx512_backend: packed_backend compute_block_avx512 "kPackedAvx512Ops usable" usable for usable
proof unfold_locales
  fix F :: "'f fma_ops" and problem lhs out view workspace bytes mem
  show "\<exists>s. s \<noteq> pst_success \<and>
      ops_execute_prepacked (kPackedAvx512Ops usable F) problem lhs out view workspace bytes mem =
      (if usable \<and> cpu_validate_packed_avx2_prepacked_b_v1 problem lhs out view workspace bytes = Inr ()
       then (pst_success, prepacked_run compute_block_avx512 F problem lhs out view workspace mem) else (s, mem))"
    using execute_avx512_prepacked_equation [of usable F problem lhs out view workspace bytes mem]
    by (simp add: kPackedAvx512Ops_def)
qed (simp_all add: avx512_output_block, simp_all add: kPackedAvx512Ops_def
    cpu_packed_avx512_workspace_requirements_v1_def [abs_def] cpu_packed_avx512_prepacked_b_requirements_v1_def [abs_def])

section \<open>Rectangles in natural numbers\<close>

definition cut :: "nat \<Rightarrow> nat \<Rightarrow> nat \<Rightarrow> nat" where
  "cut pieces tasks i = i * (pieces div tasks) + min i (pieces mod tasks)"

lemma cut_0 [simp]: "cut pieces tasks 0 = 0"
  by (simp add: cut_def)

lemma cut_Suc: "cut pieces tasks (Suc i) =
    cut pieces tasks i + (pieces div tasks + (if i < pieces mod tasks then 1 else 0))"
  by (simp add: cut_def)

lemma cut_end: "0 < tasks \<Longrightarrow> cut pieces tasks tasks = pieces"
  by (simp add: cut_def less_imp_le)

lemma cut_mono: "i \<le> j \<Longrightarrow> cut pieces tasks i \<le> cut pieces tasks j"
  unfolding cut_def by (intro add_mono mult_le_mono1 min.mono) simp_all

lemma cut_strict:
  assumes "i < j" "tasks \<le> pieces" "0 < tasks"
  shows "cut pieces tasks i < cut pieces tasks j"
proof -
  have "1 \<le> pieces div tasks" using assms(2,3) div_le_mono [of tasks pieces tasks] by simp
  then have "cut pieces tasks i < cut pieces tasks (Suc i)" by (simp add: cut_Suc)
  also have "\<dots> \<le> cut pieces tasks j" using assms(1) by (intro cut_mono) simp
  finally show ?thesis .
qed

text \<open>An ascending sequence of cuts divides what lies between its ends.\<close>

lemma cuts_unique:
  fixes f :: "nat \<Rightarrow> nat"
  assumes "mono f" "f i \<le> x" "x < f (Suc i)" "f j \<le> x" "x < f (Suc j)"
  shows "i = j"
proof (rule ccontr)
  assume "i \<noteq> j"
  then consider "Suc i \<le> j" | "Suc j \<le> i" by linarith
  then show False
    using monoD [OF assms(1), of "Suc i" j] monoD [OF assms(1), of "Suc j" i] assms(2-) by cases linarith+
qed

lemma cuts_cover:
  fixes f :: "nat \<Rightarrow> nat"
  assumes "f 0 = 0" "x < f N"
  shows "\<exists>i < N. f i \<le> x \<and> x < f (Suc i)"
  using assms(2)
proof (induction N)
  case 0
  then show ?case using assms(1) by simp
next
  case (Suc N)
  show ?case
  proof (cases "x < f N")
    case True
    then show ?thesis using Suc.IH less_SucI by blast
  next
    case False
    then show ?thesis using Suc.prems by (intro exI [of _ N]) simp
  qed
qed

text \<open>A job for the plan of its problem and its threads.\<close>

definition planned :: "'f ParallelGemmJobV1 \<Rightarrow> u32 \<Rightarrow> bool" where
  "planned job threads \<longleftrightarrow>
    (let p = plan_cpu_parallel_tasks_v1 (job_problem job) threads
     in task_problem_ok (job_problem job) threads \<and>
        job_row_quantum job = ptp_row_quantum p \<and> job_row_group_count job = ptp_row_group_count p \<and>
        job_row_task_count job = ptp_row_task_count p \<and>
        job_column_panel_count job = ptp_column_panel_count p \<and>
        job_column_task_count job = ptp_column_task_count p \<and>
        job_task_count job = ptp_task_count p \<and> job_active_threads job = ptp_actual_threads p)"

definition row_cut :: "'f ParallelGemmJobV1 \<Rightarrow> nat \<Rightarrow> nat" where
  "row_cut job i = min (unat (prob_m (job_problem job)))
     (cut (unat (job_row_group_count job)) (unat (job_row_task_count job)) i * unat (job_row_quantum job))"

definition column_cut :: "'f ParallelGemmJobV1 \<Rightarrow> nat \<Rightarrow> nat" where
  "column_cut job j = min (unat (prob_n (job_problem job)))
     (cut (unat (job_column_panel_count job)) (unat (job_column_task_count job)) j * 256)"

lemma planned_facts:
  assumes "planned job threads"
  shows "0 < unat (job_row_task_count job)" "0 < unat (job_column_task_count job)"
    "unat (job_row_task_count job) \<le> unat (job_row_group_count job)"
    "unat (job_column_task_count job) \<le> unat (job_column_panel_count job)"
    "unat (job_row_quantum job) \<in> {4, 8, 16}"
    "unat (job_row_group_count job) =
       (unat (prob_m (job_problem job)) + unat (job_row_quantum job) - 1) div unat (job_row_quantum job)"
    "unat (job_column_panel_count job) = (unat (prob_n (job_problem job)) + 255) div 256"
    "unat (job_row_task_count job) * unat (job_column_task_count job) = unat (job_task_count job)"
    "unat (job_task_count job) = unat (job_active_threads job)" "unat (job_active_threads job) \<le> unat threads"
    "unat (prob_m (job_problem job)) < 2 ^ 63" "unat (prob_n (job_problem job)) < 2 ^ 63"
    "0 < unat (prob_m (job_problem job))" "0 < unat (prob_n (job_problem job))"
    "0 < unat (prob_k (job_problem job))" "unat (job_row_task_count job) \<le> (unat (prob_m (job_problem job)) + 127) div 128"
proof -
  let ?p = "plan_cpu_parallel_tasks_v1 (job_problem job) threads"
  have ok: "task_problem_ok (job_problem job) threads"
    and f: "job_row_quantum job = ptp_row_quantum ?p" "job_row_group_count job = ptp_row_group_count ?p"
      "job_row_task_count job = ptp_row_task_count ?p"
      "job_column_panel_count job = ptp_column_panel_count ?p"
      "job_column_task_count job = ptp_column_task_count ?p"
      "job_task_count job = ptp_task_count ?p" "job_active_threads job = ptp_actual_threads ?p"
    using assms by (simp_all add: planned_def Let_def)
  have pos: "0 < sint (prob_m (job_problem job))" "0 < sint (prob_n (job_problem job))"
    "0 < sint (prob_k (job_problem job))" using ok by (simp_all add: task_problem_ok_def)
  note dims = unat_positive_dim [OF pos(1)] unat_positive_dim [OF pos(2)] unat_positive_dim [OF pos(3)]
  obtain P M s where e: "unat (ptp_row_quantum ?p) = quantum (job_problem job)"
    "unat (ptp_row_group_count ?p) =
      (dim (prob_m (job_problem job)) + quantum (job_problem job) - 1) div quantum (job_problem job)"
    "unat (ptp_column_panel_count ?p) = panels (job_problem job)"
    using task_plan_exact [OF ok] by blast
  note t = task_plan_facts [OF ok]
  show "0 < unat (job_row_task_count job)" "0 < unat (job_column_task_count job)"
    using t(2,3) f by simp_all
  show "unat (job_row_quantum job) \<in> {4, 8, 16}"
    unfolding f(1) e(1) by (rule quantum_values)
  show "unat (job_row_group_count job) =
       (unat (prob_m (job_problem job)) + unat (job_row_quantum job) - 1) div unat (job_row_quantum job)"
    by (simp only: f e dims)
  show "unat (job_column_panel_count job) = (unat (prob_n (job_problem job)) + 255) div 256"
    by (simp only: f e dims panels_def)
  show "unat (job_row_task_count job) \<le> unat (job_row_group_count job)"
    "unat (job_row_task_count job) \<le> (unat (prob_m (job_problem job)) + 127) div 128"
    using t(2) by (simp_all add: f e maximum_rows_def dims)
  show "unat (job_column_task_count job) \<le> unat (job_column_panel_count job)"
    using t(3) by (simp add: f e)
  show "unat (job_row_task_count job) * unat (job_column_task_count job) = unat (job_task_count job)"
    "unat (job_task_count job) = unat (job_active_threads job)"
    "unat (job_active_threads job) \<le> unat threads"
    using t(1,4,5) by (simp_all add: f)
  show "0 < unat (prob_m (job_problem job))" "0 < unat (prob_n (job_problem job))"
    "0 < unat (prob_k (job_problem job))"
    using pos by (simp_all add: dims dim_def)
  show "unat (prob_m (job_problem job)) < 2 ^ 63" "unat (prob_n (job_problem job)) < 2 ^ 63"
    using sint_lt [of "prob_m (job_problem job)"] sint_lt [of "prob_n (job_problem job)"] pos
    by (simp_all add: dims dim_def nat_less_iff)
qed

lemma task_share_cut:
  assumes "unat tasks \<le> unat pieces" "0 < unat tasks" "unat index < unat tasks" "unat pieces < 2 ^ 63"
  shows "unat (fst (task_share pieces tasks index)) = cut (unat pieces) (unat tasks) (unat index)"
    "unat (fst (task_share pieces tasks index)) + unat (snd (task_share pieces tasks index)) =
      cut (unat pieces) (unat tasks) (Suc (unat index))"
proof -
  let ?P = "unat pieces" and ?T = "unat tasks" and ?i = "unat index"
  have "cut ?P ?T ?i \<le> cut ?P ?T ?T" using assms(3) by (intro cut_mono) simp
  then have le: "?i * (?P div ?T) + min ?i (?P mod ?T) < 2 ^ 63"
    using assms(2,4) by (simp add: cut_end cut_def)
  have base: "unat (pieces div tasks) = ?P div ?T" and extra: "unat (pieces mod tasks) = ?P mod ?T"
    by (simp_all add: unat_div unat_mod)
  have prod: "unat (index * (pieces div tasks)) = ?i * (?P div ?T)"
    using le base by (simp add: unat_mult_lem [THEN iffD1])
  have "unat (index * (pieces div tasks) + min index (pieces mod tasks)) =
      ?i * (?P div ?T) + min ?i (?P mod ?T)"
    using le by (subst unat_add_lem [THEN iffD1]) (simp_all add: prod extra unat_min)
  then show b: "unat (fst (task_share pieces tasks index)) = cut ?P ?T ?i"
    by (simp add: task_share_def Let_def cut_def)
  have "unat (pieces div tasks + (if index < pieces mod tasks then 1 else 0)) =
      ?P div ?T + (if ?i < ?P mod ?T then 1 else 0)"
  proof -
    have "?P div ?T < 2 ^ 63" by (rule le_less_trans [OF div_le_dividend assms(4)])
    then have "?P div ?T + 1 < 2 ^ 64" by simp
    then show ?thesis
      by (auto simp: word_less_nat_alt base extra unat_add_lem [THEN iffD1])
  qed
  then show "unat (fst (task_share pieces tasks index)) + unat (snd (task_share pieces tasks index)) =
      cut ?P ?T (Suc ?i)"
    using b by (simp add: task_share_def Let_def cut_Suc)
qed

text \<open>Where the groups of rows and the panels of columns end.\<close>

lemma groups_cover:
  fixes m q :: nat
  assumes "0 < q"
  shows "m \<le> (m + q - 1) div q * q" "g < (m + q - 1) div q \<Longrightarrow> g * q < m"
proof -
  let ?d = "(m + q - 1) div q" and ?r = "(m + q - 1) mod q"
  have s: "?d * q + ?r = m + q - 1" by (rule div_mult_mod_eq)
  have r: "?r < q" using assms by (rule mod_less_divisor)
  show "m \<le> ?d * q" using s r assms by linarith
  assume "g < ?d"
  then have "Suc g * q \<le> ?d * q" by (intro mult_le_mono1) simp
  then show "g * q < m" using s assms unfolding mult_Suc by linarith
qed

lemma row_cut_ends:
  assumes "planned job threads"
  shows "row_cut job 0 = 0" "row_cut job (unat (job_row_task_count job)) = unat (prob_m (job_problem job))"
    "mono (row_cut job)"
proof -
  note f = planned_facts [OF assms]
  have q: "0 < unat (job_row_quantum job)" using f(5) by auto
  show "row_cut job 0 = 0" by (simp add: row_cut_def)
  show "row_cut job (unat (job_row_task_count job)) = unat (prob_m (job_problem job))"
    using groups_cover(1) [OF q, of "unat (prob_m (job_problem job))"]
    by (simp add: row_cut_def cut_end f(1) f(6))
  show "mono (row_cut job)"
    unfolding row_cut_def by (intro monoI min.mono mult_le_mono1 cut_mono order_refl)
qed

lemma column_cut_ends:
  assumes "planned job threads"
  shows "column_cut job 0 = 0"
    "column_cut job (unat (job_column_task_count job)) = unat (prob_n (job_problem job))"
    "mono (column_cut job)"
proof -
  note f = planned_facts [OF assms]
  show "column_cut job 0 = 0" by (simp add: column_cut_def)
  show "column_cut job (unat (job_column_task_count job)) = unat (prob_n (job_problem job))"
    using groups_cover(1) [of 256 "unat (prob_n (job_problem job))"]
    by (simp add: column_cut_def cut_end f(2) f(7))
  show "mono (column_cut job)"
    unfolding column_cut_def by (intro monoI min.mono mult_le_mono1 cut_mono order_refl)
qed

lemma row_cut_inner:
  assumes "planned job threads" "i < unat (job_row_task_count job)"
  shows "row_cut job i = cut (unat (job_row_group_count job)) (unat (job_row_task_count job)) i *
      unat (job_row_quantum job)"
    "row_cut job i < unat (prob_m (job_problem job))" "row_cut job i < row_cut job (Suc i)"
proof -
  note f = planned_facts [OF assms(1)]
  let ?G = "unat (job_row_group_count job)" and ?T = "unat (job_row_task_count job)"
    and ?q = "unat (job_row_quantum job)" and ?m = "unat (prob_m (job_problem job))"
  have q: "0 < ?q" using f(5) by auto
  have "cut ?G ?T i < cut ?G ?T ?T" using assms(2) f(1,3) by (intro cut_strict) simp_all
  then have g: "cut ?G ?T i < (?m + ?q - 1) div ?q" by (simp only: cut_end [OF f(1)] f(6) [symmetric])
  show e: "row_cut job i = cut ?G ?T i * ?q"
    using groups_cover(2) [OF q g] by (simp add: row_cut_def)
  show lt: "row_cut job i < ?m" unfolding e by (rule groups_cover(2) [OF q g])
  have "cut ?G ?T i * ?q < cut ?G ?T (Suc i) * ?q"
    using cut_strict [of i "Suc i" ?T ?G] f(1,3) q by simp
  then show "row_cut job i < row_cut job (Suc i)"
    using lt e by (simp add: row_cut_def [of job "Suc i"])
qed

lemma column_cut_inner:
  assumes "planned job threads" "j < unat (job_column_task_count job)"
  shows "column_cut job j = cut (unat (job_column_panel_count job)) (unat (job_column_task_count job)) j * 256"
    "column_cut job j < unat (prob_n (job_problem job))" "column_cut job j < column_cut job (Suc j)"
    "256 dvd column_cut job j"
    "column_cut job (Suc j) = unat (prob_n (job_problem job)) \<or> 256 dvd column_cut job (Suc j)"
proof -
  note f = planned_facts [OF assms(1)]
  let ?P = "unat (job_column_panel_count job)" and ?T = "unat (job_column_task_count job)"
    and ?n = "unat (prob_n (job_problem job))"
  have "cut ?P ?T j < cut ?P ?T ?T" using assms(2) f(2,4) by (intro cut_strict) simp_all
  then have g: "cut ?P ?T j < (?n + 256 - 1) div 256" by (simp add: cut_end f(2,7))
  show e: "column_cut job j = cut ?P ?T j * 256"
    using groups_cover(2) [OF _ g] by (simp add: column_cut_def)
  show lt: "column_cut job j < ?n" unfolding e by (rule groups_cover(2) [OF _ g]) simp
  have "cut ?P ?T j * 256 < cut ?P ?T (Suc j) * 256"
    using cut_strict [of j "Suc j" ?T ?P] f(2,4) by simp
  then show "column_cut job j < column_cut job (Suc j)"
    using lt e by (simp add: column_cut_def [of job "Suc j"])
  show "256 dvd column_cut job j" by (simp add: e)
  show "column_cut job (Suc j) = ?n \<or> 256 dvd column_cut job (Suc j)"
    by (auto simp: column_cut_def min_def)
qed

text \<open>The rectangle of a task, between the cuts of its row and of its column.\<close>

lemma task_rectangle_cuts:
  assumes "planned job threads" "unat t < unat (job_task_count job)"
  defines "i \<equiv> unat t div unat (job_column_task_count job)"
    and "j \<equiv> unat t mod unat (job_column_task_count job)"
  shows "i < unat (job_row_task_count job)" "j < unat (job_column_task_count job)"
    "unat (tr_row_begin (task_rectangle job t)) = row_cut job i"
    "unat (tr_row_begin (task_rectangle job t)) + unat (tr_rows (task_rectangle job t)) = row_cut job (Suc i)"
    "unat (tr_column_begin (task_rectangle job t)) = column_cut job j"
    "unat (tr_column_end (task_rectangle job t)) = column_cut job (Suc j)"
proof -
  note f = planned_facts [OF assms(1)]
  let ?G = "job_row_group_count job" and ?R = "job_row_task_count job" and ?q = "job_row_quantum job"
    and ?P = "job_column_panel_count job" and ?C = "job_column_task_count job"
    and ?m = "prob_m (job_problem job)" and ?n = "prob_n (job_problem job)"
  show i: "i < unat ?R"
    using assms(2) f(8) by (simp add: i_def less_mult_imp_div_less)
  show j: "j < unat ?C" using f(2) by (simp add: j_def)
  have wi: "unat (t div ?C) = i" and wj: "unat (t mod ?C) = j"
    by (simp_all add: i_def j_def unat_div unat_mod)
  have q: "unat ?q \<le> 16" "0 < unat ?q" using f(5) by auto
  have G: "unat ?G < 2 ^ 63" "unat ?P < 2 ^ 63"
  proof -
    have "unat ?G \<le> (unat ?m + 15) div 4"
      unfolding f(6) using f(5) by (intro order_trans [OF div_le_mono2 div_le_mono]) auto
    then show "unat ?G < 2 ^ 63" using f(11) by simp
    show "unat ?P < 2 ^ 63" using f(7,12) by simp
  qed
  note share = task_share_cut [of ?R ?G "t div ?C", unfolded wi, OF f(3,1) i G(1)]
  note panels = task_share_cut [of ?C ?P "t mod ?C", unfolded wj, OF f(4,2) j G(2)]
  obtain gb gs where g: "task_share ?G ?R (t div ?C) = (gb, gs)" by fastforce
  obtain pb ps where p: "task_share ?P ?C (t mod ?C) = (pb, ps)" by fastforce
  have gb: "unat gb = cut (unat ?G) (unat ?R) i" "unat gb + unat gs = cut (unat ?G) (unat ?R) (Suc i)"
    using share by (simp_all add: g)
  have pb: "unat pb = cut (unat ?P) (unat ?C) j" "unat pb + unat ps = cut (unat ?P) (unat ?C) (Suc j)"
    using panels by (simp_all add: p)
  have r: "task_rectangle job t = \<lparr>tr_row_begin = gb * ?q, tr_rows = min (?m - gb * ?q) (gs * ?q),
      tr_column_begin = pb * 256, tr_column_end = min ?n ((pb + ps) * 256)\<rparr>"
    by (simp add: task_rectangle_def g p packed_constants Let_def)
  have sum: "unat gb * unat ?q + unat gs * unat ?q < 2 ^ 64"
  proof -
    have "cut (unat ?G) (unat ?R) (Suc i) \<le> unat ?G"
      using cut_mono [of "Suc i" "unat ?R" "unat ?G" "unat ?R"] i f(1) by (simp add: cut_end)
    then have "(unat gb + unat gs) * unat ?q \<le> unat ?G * unat ?q"
      using gb(2) by simp
    also have "\<dots> \<le> unat ?m + unat ?q - 1"
      unfolding f(6) using div_mult_mod_eq [of "unat ?m + unat ?q - 1" "unat ?q"] by linarith
    finally show ?thesis using f(11) q by (simp add: add_mult_distrib)
  qed
  have gbq: "unat (gb * ?q) = unat gb * unat ?q" and gsq: "unat (gs * ?q) = unat gs * unat ?q"
    using sum by (simp_all add: unat_mult_lem [THEN iffD1])
  have rb: "unat (gb * ?q) = row_cut job i" using row_cut_inner(1) [OF assms(1) i] gbq gb(1) by simp
  then show "unat (tr_row_begin (task_rectangle job t)) = row_cut job i" by (simp add: r)
  have "row_cut job i \<le> unat ?m" using row_cut_inner(2) [OF assms(1) i] by simp
  then have "unat (min (?m - gb * ?q) (gs * ?q)) = min (unat ?m - row_cut job i) (unat gs * unat ?q)"
    using rb by (simp add: unat_min unat_sub word_le_nat_alt gsq)
  moreover have "row_cut job (Suc i) = min (unat ?m) (row_cut job i + unat gs * unat ?q)"
    using gbq rb by (simp add: row_cut_def [of job "Suc i"] gb(2) [symmetric] add_mult_distrib)
  ultimately show "unat (tr_row_begin (task_rectangle job t)) + unat (tr_rows (task_rectangle job t)) =
      row_cut job (Suc i)"
    using rb \<open>row_cut job i \<le> unat ?m\<close> by (simp add: r)
  have P: "(unat pb + unat ps) * 256 < 2 ^ 64"
  proof -
    have "cut (unat ?P) (unat ?C) (Suc j) \<le> unat ?P"
      using cut_mono [of "Suc j" "unat ?C" "unat ?P" "unat ?C"] j f(2) by (simp add: cut_end)
    then have "(unat pb + unat ps) * 256 \<le> unat ?P * 256" using pb(2) by simp
    also have "\<dots> \<le> unat ?n + 255"
      unfolding f(7) using div_mult_mod_eq [of "unat ?n + 255" 256] by linarith
    finally show ?thesis using f(12) by simp
  qed
  then have "unat (pb * 256) = unat pb * 256" by (simp add: unat_mult_lem [THEN iffD1])
  then show "unat (tr_column_begin (task_rectangle job t)) = column_cut job j"
    using column_cut_inner(1) [OF assms(1) j] pb(1) by (simp add: r)
  have "unat (pb + ps) = unat pb + unat ps" using P by (simp add: unat_add_lem [THEN iffD1])
  then have "unat ((pb + ps) * 256) = (unat pb + unat ps) * 256"
    using P unat_mult_lem [of "pb + ps" "256 :: u64"] by (simp del: distrib_right_numeral)
  then have "unat (pb * 256 + ps * 256) = (unat pb + unat ps) * 256" by simp
  then show "unat (tr_column_end (task_rectangle job t)) = column_cut job (Suc j)"
    by (simp add: r unat_min column_cut_def [of job "Suc j"] pb(2))
qed

definition in_task :: "'f ParallelGemmJobV1 \<Rightarrow> u64 \<Rightarrow> nat \<Rightarrow> nat \<Rightarrow> bool" where
  "in_task job t i j \<longleftrightarrow>
    (let r = task_rectangle job t
     in unat (tr_row_begin r) \<le> i \<and> i < unat (tr_row_begin r) + unat (tr_rows r) \<and>
        unat (tr_column_begin r) \<le> j \<and> j < unat (tr_column_end r))"

lemma tasks_cover:
  assumes "planned job threads" "i < unat (prob_m (job_problem job))" "j < unat (prob_n (job_problem job))"
  shows "\<exists>t. unat t < unat (job_task_count job) \<and> in_task job t i j"
proof -
  note f = planned_facts [OF assms(1)]
  let ?R = "unat (job_row_task_count job)" and ?C = "unat (job_column_task_count job)"
  obtain r where r: "r < ?R" "row_cut job r \<le> i" "i < row_cut job (Suc r)"
    using cuts_cover [of "row_cut job" i ?R] row_cut_ends [OF assms(1)] assms(2) by auto
  obtain c where c: "c < ?C" "column_cut job c \<le> j" "j < column_cut job (Suc c)"
    using cuts_cover [of "column_cut job" j ?C] column_cut_ends [OF assms(1)] assms(3) by auto
  have lt: "r * ?C + c < unat (job_task_count job)"
    using matrix_index [OF r(1) c(1)] f(8) by simp
  then have w: "unat (of_nat (r * ?C + c) :: u64) = r * ?C + c"
    by (intro unat_of_nat64) (rule less_trans [OF _ unat_lt64])
  then obtain t :: u64 where t: "unat t = r * ?C + c" by blast
  have dm: "unat t div ?C = r" "unat t mod ?C = c" using c(1) by (simp_all add: t)
  have "unat t < unat (job_task_count job)" using lt t by simp
  with task_rectangle_cuts [OF assms(1) this] r c show ?thesis
    by (intro exI [of _ t]) (simp add: dm in_task_def Let_def)
qed

lemma tasks_disjoint:
  assumes "planned job threads" "unat s < unat (job_task_count job)" "unat t < unat (job_task_count job)"
    and "in_task job s i j" "in_task job t i j"
  shows "s = t"
proof -
  note s = task_rectangle_cuts [OF assms(1,2)] and t = task_rectangle_cuts [OF assms(1,3)]
  have "unat s div unat (job_column_task_count job) = unat t div unat (job_column_task_count job)"
    using assms(4,5) s(3,4) t(3,4)
    by (intro cuts_unique [OF row_cut_ends(3) [OF assms(1)], of _ i]) (simp_all add: in_task_def Let_def)
  moreover have "unat s mod unat (job_column_task_count job) = unat t mod unat (job_column_task_count job)"
    using assms(4,5) s(5,6) t(5,6)
    by (intro cuts_unique [OF column_cut_ends(3) [OF assms(1)], of _ j]) (simp_all add: in_task_def Let_def)
  ultimately have "unat s = unat t" by (metis div_mult_mod_eq)
  then show ?thesis by (rule word_eq_unatI)
qed

end
