(* ===== verification/ParallelRun.thy ===== *)
theory ParallelRun
  imports ParallelGemm
begin

text \<open>
  What the queries, the checks and one task of the parallel packed GEMM do, exactly: the workspace query and
  the validation in natural numbers, the arena as an image of B and one slice for each worker, and the
  effect of \<^verbatim>\<open>execute_output_partition\<close> on memory for both backends, through the contract
  \<open>packed_backend\<close>. A task that owns all columns runs the prepacked execution on its band of rows; its
  checks accept the band exactly when its first row keeps the declared alignment (\<open>band_aligned\<close>).
\<close>

section \<open>Workspace and validation, exactly\<close>

lemma and_low_bits: "(v::u64) AND 63 = v mod 64" "(v::u64) AND 15 = v mod 16"
proof -
  have "v AND mask 6 = v mod 2 ^ 6" "v AND mask 4 = v mod 2 ^ 4"
    by (simp_all only: take_bit_eq_mask [symmetric] take_bit_eq_mod)
  then show "v AND 63 = v mod 64" "v AND 15 = v mod 16" by (simp_all add: mask_eq_exp_minus_1)
qed

lemma align_up:
  "checked_align_up v 64 = checked_round_up v 64" "checked_align_up v 16 = checked_round_up v 16"
  by (simp_all add: checked_align_up_def checked_round_up_def checked_add_def and_low_bits Let_def)

text \<open>The size of the slice of one worker, and of the whole arena for a number of threads.\<close>

definition slice_bytes :: "CpuGemmProblemV1 \<Rightarrow> nat" where
  "slice_bytes problem = workspace_total problem transient_a_with_prepacked_b"

definition arena_bytes :: "CpuGemmProblemV1 \<Rightarrow> u32 \<Rightarrow> nat" where
  "arena_bytes problem threads = b_image_total problem + slice_bytes problem * unat threads"

abbreviation band_of :: "CpuGemmProblemV1 \<Rightarrow> CpuGemmProblemV1" where
  "band_of problem \<equiv> (if sint (prob_m problem) > 128 then problem\<lparr>prob_m := 128\<rparr> else problem)"

lemma positive_unat:
  assumes "0 < sint (x :: i64)"
  shows "int (unat x) = sint x" "unat x < 2 ^ 63"
proof -
  have u: "unat x = nat (sint x)" using unat_positive_dim [OF assms] by (simp add: dim_def)
  show "int (unat x) = sint x" unfolding u using assms by simp
  show "unat x < 2 ^ 63" unfolding u using sint_lt [of x] assms by (simp add: nat_less_iff)
qed

lemma band_of_ok:
  assumes "packed_problem problem"
  shows "packed_problem (band_of problem)" "workspace_total (band_of problem) mode = workspace_total problem mode"
proof -
  have m: "0 < sint (prob_m problem)" using assms by (simp add: packed_problem_def)
  have big: "128 \<le> unat (prob_m problem)" if "sint (prob_m problem) > 128"
    using positive_unat(1) [OF m] that by linarith
  show "workspace_total (band_of problem) mode = workspace_total problem mode"
    using big
    by (simp add: min_absorb2 workspace_total_def b_panel_offset_def a_panel_bytes_def b_panel_bytes_def)
  show "packed_problem (band_of problem)"
  proof (cases "sint (prob_m problem) > 128")
    case True
    have lt: "unat (prob_m problem) * unat (prob_k problem) * 4 < 2 ^ 64"
      "unat (prob_m problem) * unat (prob_n problem) * 4 < 2 ^ 64"
      using assms by (simp_all add: packed_problem_def)
    have "128 * unat (prob_k problem) * 4 < 2 ^ 64" "128 * unat (prob_n problem) * 4 < 2 ^ 64"
      using big [OF True] by (intro le_less_trans [OF _ lt(1)] le_less_trans [OF _ lt(2)]; simp)+
    then show ?thesis using True assms by (simp add: packed_problem_def)
  qed (use assms in simp)
qed

lemma slice_facts:
  "64 dvd slice_bytes problem" "slice_bytes problem < 2 ^ 20" "a_panel_bytes problem \<le> slice_bytes problem"
  "64 dvd b_image_total problem"
  using workspace_bounds(3,4) [of problem transient_a_with_prepacked_b]
  by (simp_all add: slice_bytes_def workspace_total_def b_image_total_def round_up_bounds(3))

lemma align_up_word:
  assumes "64 dvd v" "v < 2 ^ 64"
  shows "checked_align_up (of_nat v) 64 = Some (of_nat v)"
proof -
  have u: "unat (of_nat v :: u64) = v" using assms(2) by (intro unat_of_nat64) simp
  have r: "round_up v 64 = v" using assms(1) by (simp add: round_up_multiple)
  show ?thesis
    unfolding align_up using round_up_word [of 64 "of_nat v"] assms(2) by (simp add: u r)
qed

definition parallel_requirements_of ::
  "CpuGemmProblemV1 \<Rightarrow> u32 \<Rightarrow> CpuParallelGemmWorkspaceRequirementsV1" where
  "parallel_requirements_of problem threads =
     default_parallel_requirements
       \<lparr>plr_execution_threads := threads, plr_shared_packed_b_bytes := of_nat (b_image_total problem),
        plr_worker_region_offset := of_nat (b_image_total problem),
        plr_per_worker_bytes := of_nat (slice_bytes problem),
        plr_per_worker_stride_bytes := of_nat (slice_bytes problem),
        plr_total_bytes := of_nat (arena_bytes problem threads)\<rparr>"

context packed_backend
begin

lemma requirements_exact:
  "parallel_workspace_requirements (backend F) problem threads = Inr r \<longleftrightarrow>
     threads \<noteq> 0 \<and> packed_problem problem \<and> arena_bytes problem threads < 2 ^ 64 \<and>
     r = parallel_requirements_of problem threads"
proof (cases "threads \<noteq> 0 \<and> packed_problem problem \<and> b_image_total problem < 2 ^ 64")
  case True
  then have ok: "threads \<noteq> 0" "packed_problem problem" "b_image_total problem < 2 ^ 64" by simp_all
  let ?B = "of_nat (b_image_total problem) :: u64" and ?S = "of_nat (slice_bytes problem) :: u64"
  note s = slice_facts [of problem]
  have b: "cpu_packed_avx2_prepacked_b_requirements_v1 problem =
      Inr (default_packed_requirements \<lparr>preq_mode := transient_a_with_prepacked_b,
        preq_total_bytes := ?B, preq_packed_b_bytes := of_nat (b_image_elements problem * 4)\<rparr>)"
    using ok by (simp add: prepacked_requirements validate_problem_exact)
  obtain a where a: "cpu_packed_avx2_workspace_requirements_v1 (band_of problem)
      transient_a_with_prepacked_b = Inr a" "preq_total_bytes a = ?S"
    using requirements_Inr [of "band_of problem" transient_a_with_prepacked_b] band_of_ok [OF ok(2)]
    by (simp add: slice_bytes_def)
  have us: "unat ?S = slice_bytes problem" "unat ?B = b_image_total problem"
    using s(2) ok(3) by (simp_all add: unat_of_nat64)
  have lt: "slice_bytes problem * unat threads < 2 ^ 64"
  proof -
    have "unat threads \<le> 2 ^ 32" by (rule order_trans [OF less_imp_le [OF unat_lt32]]) simp
    then have "slice_bytes problem * unat threads \<le> 2 ^ 20 * 2 ^ 32"
      using s(2) by (intro mult_le_mono) simp_all
    then show ?thesis by simp
  qed
  have ut: "unat (?S * u32_to_u64 threads) = slice_bytes problem * unat threads"
  proof -
    have "unat (?S * u32_to_u64 threads) = unat ?S * unat (u32_to_u64 threads)"
      by (rule unat_mult_lem [THEN iffD1]) (use lt us in simp)
    then show ?thesis using us by simp
  qed
  have mult: "checked_multiply ?S (u32_to_u64 threads) = Some (?S * u32_to_u64 threads)"
    using lt us ut by (simp add: checked_multiply_Some)
  have fits: "(?S * u32_to_u64 threads > u64_max - ?B) = (\<not> arena_bytes problem threads < 2 ^ 64)"
    using ok(3) us by (simp add: word_less_nat_alt unat_u64_max_minus ut arena_bytes_def, arith)
  show ?thesis
    unfolding parallel_workspace_requirements_def backend_workspace backend_prepacked Let_def
    using ok b a s align_up_word [of "b_image_total problem"] align_up_word [of "slice_bytes problem"]
    by (auto simp: mult fits packed_constants parallel_requirements_of_def result_simps arena_bytes_def)
next
  case False
  then show ?thesis
    unfolding parallel_workspace_requirements_def backend_workspace backend_prepacked Let_def
    by (auto simp: prepacked_requirements validate_problem_exact arena_bytes_def result_simps
        split: sum.splits if_splits)
qed

end
text \<open>What validation accepts: tensors placed, aligned and apart, and a big enough aligned arena that
  overlaps none of them.\<close>

definition arena_ok ::
  "CpuGemmProblemV1 \<Rightarrow> u64 \<Rightarrow> u64 \<Rightarrow> u64 \<Rightarrow> u64 \<Rightarrow> u32 \<Rightarrow> u64 \<Rightarrow> bool" where
  "arena_ok problem lhs rhs out workspace threads bytes \<longleftrightarrow>
     tensors_ok problem lhs rhs out \<and> workspace_ok workspace bytes (arena_bytes problem threads) \<and>
     tensors_avoid problem lhs rhs out workspace (arena_bytes problem threads)"

lemma image_total_positive: "packed_problem problem \<Longrightarrow> 0 < b_image_total problem"
  using image_positive [of problem] b_image_bounds(1) [of problem] by linarith

lemma arena_validation:
  assumes ok: "packed_problem problem" and fits: "arena_bytes problem threads < 2 ^ 64"
  shows "validate_tensor_and_workspace problem lhs rhs out workspace
      (parallel_requirements_of problem threads) bytes = Inr () \<longleftrightarrow>
    arena_ok problem lhs rhs out workspace threads bytes"
proof -
  note pos = tensor_bytes_positive [OF ok] and sizes = tensor_sizes [OF ok]
  let ?T = "arena_bytes problem threads"
  have T: "unat (of_nat ?T :: u64) = ?T" using fits by (intro unat_of_nat64) simp
  have T0: "0 < ?T" using image_total_positive [OF ok] by (simp add: arena_bytes_def)
  let ?align = "\<lambda>p. pointer_has_alignment p 4 \<and>
      pointer_has_alignment p (u32_to_u64 (prob_minimum_alignment_bytes problem))"
  have align: "(pointer_has_alignment lhs 4 \<and> pointer_has_alignment rhs 4 \<and> pointer_has_alignment out 4 \<and>
        pointer_has_alignment lhs (u32_to_u64 (prob_minimum_alignment_bytes problem)) \<and>
        pointer_has_alignment rhs (u32_to_u64 (prob_minimum_alignment_bytes problem)) \<and>
        pointer_has_alignment out (u32_to_u64 (prob_minimum_alignment_bytes problem))) \<longleftrightarrow>
      (lhs \<noteq> 0 \<and> unat (prob_minimum_alignment_bytes problem) dvd unat lhs) \<and>
      (rhs \<noteq> 0 \<and> unat (prob_minimum_alignment_bytes problem) dvd unat rhs) \<and>
      (out \<noteq> 0 \<and> unat (prob_minimum_alignment_bytes problem) dvd unat out)"
    unfolding declared_alignment [OF ok, symmetric] by blast
  have fields: "plr_alignment_bytes (parallel_requirements_of problem threads) = 64"
    "plr_total_bytes (parallel_requirements_of problem threads) = of_nat ?T"
    by (simp_all add: parallel_requirements_of_def default_parallel_requirements_def packed_constants)
  let ?w = "\<lparr>span_begin = workspace, span_end = workspace + of_nat ?T\<rparr>"
  have apart: "overlaps (out_span_of problem out) (lhs_span_of problem lhs) \<longleftrightarrow>
        \<not> disjoint_ranges out (out_bytes problem) lhs (lhs_bytes problem)"
      "overlaps (out_span_of problem out) (rhs_span_of problem rhs) \<longleftrightarrow>
        \<not> disjoint_ranges out (out_bytes problem) rhs (rhs_bytes problem)"
      "overlaps ?w (lhs_span_of problem lhs) \<longleftrightarrow> \<not> disjoint_ranges workspace ?T lhs (lhs_bytes problem)"
      "overlaps ?w (rhs_span_of problem rhs) \<longleftrightarrow> \<not> disjoint_ranges workspace ?T rhs (rhs_bytes problem)"
      "overlaps ?w (out_span_of problem out) \<longleftrightarrow> \<not> disjoint_ranges workspace ?T out (out_bytes problem)"
    if "placed lhs (lhs_bytes problem)" "placed rhs (rhs_bytes problem)"
      "placed out (out_bytes problem)" "placed workspace ?T"
    using that pos sizes T T0 by (intro tensor_overlaps span_overlaps; simp)+
  show ?thesis
    unfolding validate_tensor_and_workspace_def Let_def result_simps make_matrix_span_Some make_span_Some
      tensor_span_def [symmetric] align fields T
    using apart
    by (auto simp: placed_def result_simps arena_ok_def tensors_ok_def tensors_avoid_def
        workspace_ok_def pointer_has_alignment_iff word_le_nat_alt T not_less simp del: of_nat_mult)
qed

section \<open>The arena in slots\<close>

text \<open>The floats of B's image, and those of the slice of worker \<open>w\<close>.\<close>

definition image_panel :: "CpuGemmProblemV1 \<Rightarrow> u64 \<Rightarrow> nat set" where
  "image_panel problem workspace = panel (slot workspace) (b_image_elements problem)"

definition slice_at :: "CpuGemmProblemV1 \<Rightarrow> u64 \<Rightarrow> nat \<Rightarrow> nat" where
  "slice_at problem workspace w =
     slot workspace + b_image_total problem div 4 + w * (slice_bytes problem div 4)"

definition slice_panel :: "CpuGemmProblemV1 \<Rightarrow> u64 \<Rightarrow> nat \<Rightarrow> nat set" where
  "slice_panel problem workspace w = panel (slice_at problem workspace w) (slice_bytes problem div 4)"

definition arena_slots :: "CpuGemmProblemV1 \<Rightarrow> u64 \<Rightarrow> u32 \<Rightarrow> nat set" where
  "arena_slots problem workspace threads = panel (slot workspace) (arena_bytes problem threads div 4)"

lemma quarter:
  assumes "64 dvd (v::nat)"
  shows "4 * (v div 4) = v" "v div 4 * 4 = v"
  using dvd_trans [OF _ assms, of 4] by simp_all

lemma arena_quarter:
  "arena_bytes problem threads div 4 = b_image_total problem div 4 + unat threads * (slice_bytes problem div 4)"
proof -
  have "arena_bytes problem threads =
      4 * (b_image_total problem div 4 + unat threads * (slice_bytes problem div 4))"
    using quarter(1) [OF slice_facts(4), of problem] quarter(1) [OF slice_facts(1), of problem]
    by (simp add: arena_bytes_def add_mult_distrib2 mult.left_commute mult.commute [of _ "unat threads"])
  then show ?thesis by simp
qed

lemma image_in_arena: "image_panel problem workspace \<subseteq> arena_slots problem workspace threads"
proof -
  have "b_image_elements problem \<le> b_image_total problem div 4"
    using b_image_bounds(1) [of problem] quarter(2) [OF slice_facts(4), of problem] by linarith
  then show ?thesis
    unfolding image_panel_def arena_slots_def arena_quarter by (intro panel_mono) simp
qed

lemma slice_in_arena:
  assumes "w < unat threads"
  shows "slice_panel problem workspace w \<subseteq> arena_slots problem workspace threads"
proof -
  have "(Suc w) * (slice_bytes problem div 4) \<le> unat threads * (slice_bytes problem div 4)"
    using assms by (intro mult_le_mono1) simp
  then show ?thesis
    unfolding slice_panel_def slice_at_def arena_slots_def arena_quarter by (auto simp: panel_def)
qed

lemma slice_image_disjoint: "slice_panel problem workspace w \<inter> image_panel problem workspace = {}"
proof -
  have "b_image_elements problem \<le> b_image_total problem div 4"
    using b_image_bounds(1) [of problem] quarter(2) [OF slice_facts(4), of problem] by linarith
  then show ?thesis by (auto simp: slice_panel_def slice_at_def image_panel_def panel_def)
qed

lemma slices_disjoint:
  assumes "v \<noteq> w"
  shows "slice_panel problem workspace v \<inter> slice_panel problem workspace w = {}"
proof -
  let ?s = "slice_bytes problem div 4"
  have apart: "v * ?s + ?s \<le> w * ?s" if "v < w" for v w
    using that mult_le_mono1 [of "Suc v" w ?s] by simp
  show ?thesis
    using assms apart [of v w] apart [of w v]
    by (auto simp: slice_panel_def slice_at_def panel_def neq_iff)
qed

lemma tensors_avoid_mono:
  "tensors_avoid problem lhs rhs out p b \<Longrightarrow> c \<le> b \<Longrightarrow> tensors_avoid problem lhs rhs out p c"
  unfolding tensors_avoid_def by (blast intro: disjoint_ranges_mono order_refl)

lemma arena_apart:
  assumes "packed_problem problem" "arena_ok problem lhs rhs out workspace threads bytes"
  shows "arena_slots problem workspace threads \<inter> panel (slot out) (unat (prob_m problem) * unat (prob_n problem)) = {}"
    "arena_slots problem workspace threads \<inter> panel (slot lhs) (unat (prob_m problem) * unat (prob_k problem)) = {}"
    "arena_slots problem workspace threads \<inter> panel (slot rhs) (unat (prob_k problem) * unat (prob_n problem)) = {}"
proof -
  have ok: "tensors_ok problem lhs rhs out" "tensors_avoid problem lhs rhs out workspace (arena_bytes problem threads)"
    and "64 dvd unat workspace"
    using assms(2) by (simp_all add: arena_ok_def workspace_ok_def)
  then have w: "4 dvd unat workspace" using dvd_trans [of 4 64 "unat workspace"] by simp
  have le: "arena_bytes problem threads div 4 * 4 \<le> arena_bytes problem threads" by simp
  note region_slots [OF assms(1) ok w le]
  then show "arena_slots problem workspace threads \<inter> panel (slot out) (unat (prob_m problem) * unat (prob_n problem)) = {}"
    "arena_slots problem workspace threads \<inter> panel (slot lhs) (unat (prob_m problem) * unat (prob_k problem)) = {}"
    "arena_slots problem workspace threads \<inter> panel (slot rhs) (unat (prob_k problem) * unat (prob_n problem)) = {}"
    by (simp_all add: arena_slots_def)
qed

text \<open>Addresses that the code computes.\<close>

lemma slice_address:
  assumes "workspace_ok workspace bytes (arena_bytes problem threads)" "w < unat threads"
  shows "unat (workspace + of_nat (b_image_total problem) + of_nat w * of_nat (slice_bytes problem)) =
      unat workspace + b_image_total problem + w * slice_bytes problem"
    "slot (workspace + of_nat (b_image_total problem) + of_nat w * of_nat (slice_bytes problem)) =
      slice_at problem workspace w"
proof -
  have "w * slice_bytes problem \<le> slice_bytes problem * unat threads"
    unfolding mult.commute [of w] using assms(2) by (intro mult_le_mono2) simp
  moreover have "unat workspace + (b_image_total problem + slice_bytes problem * unat threads) < 2 ^ 64"
    using assms(1) by (simp add: workspace_ok_def placed_def arena_bytes_def)
  ultimately have fits: "unat workspace + b_image_total problem + w * slice_bytes problem < 2 ^ 64"
    by linarith
  let ?X = "unat workspace + b_image_total problem + w * slice_bytes problem"
  have eq: "workspace + of_nat (b_image_total problem) + of_nat w * of_nat (slice_bytes problem) = of_nat ?X"
    by simp
  have u: "unat (of_nat ?X :: u64) = ?X" by (rule unat_of_nat64) (use fits in simp)
  show e: "unat (workspace + of_nat (b_image_total problem) + of_nat w * of_nat (slice_bytes problem)) = ?X"
    unfolding eq by (rule u)
  have "4 dvd unat workspace" using assms(1) dvd_trans [of 4 64 "unat workspace"] by (simp add: workspace_ok_def)
  then have "unat workspace + b_image_total problem + w * slice_bytes problem =
      4 * (slot workspace + b_image_total problem div 4 + w * (slice_bytes problem div 4))"
    using quarter(1) [OF slice_facts(4), of problem] quarter(1) [OF slice_facts(1), of problem] slot_address [of workspace]
    by (simp add: add_mult_distrib2 mult.left_commute [of 4])
  then show "slot (workspace + of_nat (b_image_total problem) + of_nat w * of_nat (slice_bytes problem)) =
      slice_at problem workspace w"
    unfolding slot_def [of "_ + _"] e by (simp add: slice_at_def)
qed
section \<open>The work of one task\<close>

text \<open>\<open>ready_job job threads bytes\<close>: a job as \<^verbatim>\<open>execute_parallel\<close> sets it up after its checks.\<close>

definition ready_job :: "'f ParallelGemmJobV1 \<Rightarrow> u32 \<Rightarrow> u64 \<Rightarrow> bool" where
  "ready_job job threads bytes \<longleftrightarrow>
     planned job threads \<and> packed_problem (job_problem job) \<and>
     arena_ok (job_problem job) (job_lhs job) (job_rhs job) (job_out job) (job_workspace job)
       (job_active_threads job) bytes \<and>
     job_worker_region_offset job = of_nat (b_image_total (job_problem job)) \<and>
     job_per_worker_stride job = of_nat (slice_bytes (job_problem job)) \<and>
     job_packed_b_destination job = job_workspace job \<and>
     pbv_storage_bytes (job_packed_b job) = of_nat (b_image_total (job_problem job)) \<and>
     \<not> job_parallel_pack_b job"

abbreviation prepared_view :: "'f ParallelGemmJobV1 \<Rightarrow> CpuPackedBViewV1" where
  "prepared_view job \<equiv> cpu_make_packed_b_view_v1 (job_problem job) (job_rhs job) (job_workspace job)
     (of_nat (b_image_total (job_problem job))) (of_nat (b_image_elements (job_problem job)))"

lemma fold_strided_simulates:
  assumes "0 < step"
    and f: "\<And>x v. x < bound \<Longrightarrow> step dvd x \<Longrightarrow> f x (S x v) = S (min (x + step) bound) (g x v)"
  shows "lo \<le> bound \<Longrightarrow> step dvd lo \<Longrightarrow>
    fold f (strided lo step bound) (S lo v) = S bound (fold g (strided lo step bound) v)"
proof (induction "bound - lo" arbitrary: lo v rule: less_induct)
  case less
  show ?case
  proof (cases "lo < bound")
    case True
    have unfold: "strided lo step bound = lo # strided (lo + step) step bound"
      using True assms(1) by (subst strided.simps) simp
    show ?thesis
    proof (cases "lo + step \<le> bound")
      case inside: True
      then show ?thesis
        using less.hyps [of "lo + step" "g lo v"] less.prems True assms(1)
        by (simp add: unfold f min_absorb1)
    next
      case False
      then show ?thesis
        using less.prems True by (simp add: unfold f strided.simps [of "lo + step"])
    qed
  next
    case False
    then have "lo = bound" using less.prems(1) by simp
    then show ?thesis by (simp add: strided.simps [of bound])
  qed
qed

lemma shifted_address:
  fixes p r c :: u64
  assumes "unat p + (unat r + d) * unat c * 4 < 2 ^ 64" "4 dvd unat p"
  shows "unat (p + r * c * 4) = unat p + unat r * unat c * 4" "slot (p + r * c * 4) = slot p + unat r * unat c"
proof -
  have b: "unat p + unat r * unat c * 4 < 2 ^ 64"
    using assms(1) by (simp add: add_mult_distrib)
  have m: "unat (r * c * 4) = unat r * unat c * 4" using b by (intro unat_matrix_bytes) linarith
  show e: "unat (p + r * c * 4) = unat p + unat r * unat c * 4"
    using b by (simp add: unat_plus_if' m)
  show "slot (p + r * c * 4) = slot p + unat r * unat c"
    unfolding slot_def [of "p + r * c * 4"] e slot_address [OF assms(2)] by simp
qed

lemma gemm_cell_shift:
  "gemm_cell F m (lhs + r * k) rhs k n i j = gemm_cell F m lhs rhs k n (r + i) j"
  by (simp add: gemm_cell_def add.assoc add_mult_distrib)

lemma checked_multiply_nat:
  assumes "a * b < 2 ^ 64" "0 < a" "0 < b"
  shows "checked_multiply (of_nat a) (of_nat b) = Some (of_nat (a * b))"
proof -
  have "a * 1 \<le> a * b" "1 * b \<le> a * b" using assms(2,3) by (intro mult_le_mono; simp)+
  then have "a < 2 ^ 64" "b < 2 ^ 64" using assms(1) by linarith+
  then show ?thesis
    using assms(1) by (simp only: checked_multiply_Some) (simp add: unat_of_nat64 del: of_nat_mult)
qed

lemma rounded_columns_word:
  assumes "columns \<le> 256"
  shows "size_divide_round_up (of_nat columns) kCpuPackedGemmNrV1 * kCpuPackedGemmNrV1 =
    of_nat (round_up columns 16)"
proof (rule word_eq_unatI)
  have c: "unat (of_nat columns :: u64) = columns" using assms by (intro unat_of_nat64) simp
  have r: "round_up columns 16 = (columns div 16 + (if columns mod 16 = 0 then 0 else 1)) * 16"
    using round_up_quotient [of 16 columns] by simp
  have d: "unat (of_nat columns div 16 + (if of_nat columns mod (16::u64) \<noteq> 0 then 1 else 0) :: u64) =
      columns div 16 + (if columns mod 16 = 0 then 0 else 1)"
  proof -
    have "of_nat columns mod (16::u64) = 0 \<longleftrightarrow> columns mod 16 = 0"
      using c by (simp add: word_unat_eq_iff unat_mod)
    moreover have "columns div 16 \<le> 16" using assms by linarith
    ultimately show ?thesis using c by (simp add: unat_plus_if' unat_div)
  qed
  have "columns div 16 \<le> 16" using assms by linarith
  then have "(columns div 16 + (if columns mod 16 = 0 then 0 else 1)) * 16 < 2 ^ 64" by simp
  then show "unat (size_divide_round_up (of_nat columns) kCpuPackedGemmNrV1 * kCpuPackedGemmNrV1) =
      unat (of_nat (round_up columns 16) :: u64)"
    unfolding size_divide_round_up_def packed_constants r
    by (subst unat_mult_lem [THEN iffD1]) (simp_all add: d unat_of_nat64 del: of_nat_mult of_nat_add)
qed

context packed_backend
begin

text \<open>The loop over the depth of one column block is the one of \<^theory_text>\<open>PackedGemm\<close>.\<close>

lemma partition_depth_step:
  fixes F :: "'f fma_ops"
  assumes p: "p < k" and c: "columns = min 256 (n - column)" "column < n" "256 dvd column"
    and rows: "rows < 2 ^ 63" and small: "round_up columns 16 * k < 2 ^ 64"
  shows "partition_depth (backend F) n k lhs out rows pa (pb + column * k) column columns
      (of_nat (round_up columns 16)) (of_nat (round_up columns 16 * k)) p
      (True, of_nat (round_up columns 16 * p), v) =
    (True, of_nat (round_up columns 16 * min (p + 256) k),
     prepacked_body block F rows n k lhs out pa pb column p v)"
proof -
  let ?R = "round_up columns 16" and ?d = "min 256 (k - p)"
  have R: "0 < ?R" using round_up_bounds(1) [of 16 columns] c by simp
  have d: "0 < ?d" "p + ?d = min (p + 256) k" using p by simp_all
  have le: "?R * p + ?R * ?d \<le> ?R * k"
    unfolding add_mult_distrib2 [symmetric] using p by (intro mult_le_mono2) simp
  have mult: "checked_multiply (of_nat ?R) (of_nat ?d) = Some (of_nat (?R * ?d) :: u64)"
    by (rule checked_multiply_nat [OF _ R d(1)]) (use le small in linarith)
  have u: "unat (of_nat (?R * k) :: u64) = ?R * k" "unat (of_nat (?R * p) :: u64) = ?R * p"
    "unat (of_nat (?R * ?d) :: u64) = ?R * ?d"
    using le small by (intro unat_of_nat64, simp)+
  have inside: "\<not> of_nat (?R * p) > (of_nat (?R * k) :: u64)"
    "\<not> of_nat (?R * ?d) > (of_nat (?R * k) - of_nat (?R * p) :: u64)"
    using le by (simp_all only: word_less_nat_alt not_less unat_sub word_le_nat_alt u)
  have sum: "of_nat (?R * p) + of_nat (?R * ?d) = (of_nat (?R * min (p + 256) k) :: u64)"
    unfolding of_nat_add [symmetric] add_mult_distrib2 [symmetric] d(2) ..
  have body: "compute_output_block (backend F) F k n lhs out row column p (min 128 (rows - row)) columns ?d
      pa (pb + column * k + ?R * p) =
    block F k n lhs out row column p (min 128 (rows - row)) (min 256 (n - column)) ?d pa
      (pb + depth_offset n k column p)" for row
    unfolding depth_offset_def column_multiple [OF c(3)] c(1) add.assoc
    using d rows by (intro ext backend_output) simp_all
  show ?thesis
    unfolding partition_depth_def prod.case Let_def mult option.case backend_zero u(2) body
    using inside by (simp add: sum prepacked_body_def del: of_nat_mult)
qed

lemma partition_column_step:
  fixes F :: "'f fma_ops"
  assumes c: "column < n" "256 dvd column" "column < hi" "hi \<le> n" "hi = n \<or> 256 dvd hi"
    and rows: "rows < 2 ^ 63" and small: "round_up n 16 * k < 2 ^ 64" and "0 < k"
    and elements: "unat packed_elements = round_up n 16 * k"
  shows "partition_column (backend F) n k lhs out rows pa pb packed_elements hi column (True, v) =
    (True, fold (prepacked_body block F rows n k lhs out pa pb column) (strided 0 256 k) v)"
proof -
  let ?c = "min 256 (n - column)" let ?R = "round_up ?c 16"
  have columns: "min 256 (hi - column) = ?c"
  proof (cases "hi = n")
    case False
    then have "column + 256 \<le> hi" using c by (intro next_multiple) simp_all
    then show ?thesis using c(4) by simp
  qed simp
  have R: "0 < ?R" using round_up_bounds(1) [of 16 ?c] c(1) by simp
  have fits: "column * k + ?R * k \<le> round_up n 16 * k"
    using block_fits(2) [OF c(1) _ c(2), of "k - 1" k] assms(8)
    by (simp add: depth_end column_multiple [OF c(2)] min_absorb2)
  have u: "unat (of_nat (column * k) :: u64) = column * k" "unat (of_nat (?R * k) :: u64) = ?R * k"
    using fits small by (intro unat_of_nat64, simp)+
  have offset: "checked_multiply (of_nat column) (of_nat k) = Some (of_nat (column * k) :: u64)"
  proof (cases "column = 0")
    case True
    then show ?thesis by (simp add: checked_multiply_Some)
  next
    case False
    then show ?thesis using fits small assms(8) by (intro checked_multiply_nat) simp_all
  qed
  have panel: "checked_multiply (of_nat ?R) (of_nat k) = Some (of_nat (?R * k) :: u64)"
    using fits small assms(8) R by (intro checked_multiply_nat) simp_all
  have inside: "\<not> of_nat (column * k) > packed_elements"
    "\<not> of_nat (?R * k) > packed_elements - of_nat (column * k)"
    using fits by (simp_all only: word_less_nat_alt not_less unat_sub word_le_nat_alt u elements)
  have "fold (partition_depth (backend F) n k lhs out rows pa (pb + column * k) column ?c
        (of_nat ?R) (of_nat (?R * k))) (strided 0 256 k) (True, of_nat (?R * 0), v) =
      (True, of_nat (?R * k), fold (prepacked_body block F rows n k lhs out pa pb column) (strided 0 256 k) v)"
    using fits small c rows
    by (intro fold_strided_simulates [where S = "\<lambda>p v. (True, of_nat (?R * p), v)"] partition_depth_step)
      simp_all
  then show ?thesis
    unfolding partition_column_def prod.case Let_def columns
    using inside by (simp add: rounded_columns_word offset panel u del: of_nat_mult)
qed

lemma partition_columns:
  fixes F :: "'f fma_ops"
  assumes "lo \<le> hi" "256 dvd lo" "hi \<le> n" "hi = n \<or> 256 dvd hi"
    and "rows < 2 ^ 63" "round_up n 16 * k < 2 ^ 64" "0 < k"
    and "unat packed_elements = round_up n 16 * k"
  shows "fold (partition_column (backend F) n k lhs out rows pa pb packed_elements hi)
      (strided lo 256 hi) (True, v) =
    (True, fold (\<lambda>column. fold (prepacked_body block F rows n k lhs out pa pb column) (strided 0 256 k))
      (strided lo 256 hi) v)"
  using assms
  by (intro fold_strided_simulates [where S = "\<lambda>_ v. (True, v)"] partition_column_step) simp_all

text \<open>What the loops of a task write: its part of the product.\<close>

lemma partition_loops_result:
  fixes F :: "'f fma_ops" and mem :: "'f fmem"
  assumes B: "buffers rows n k lhs rhs out A B" and "0 < k"
    and pa: "panel pa (round_up (min rows 128) 4 * min k 256) \<subseteq> A"
    and pb: "panel pb (round_up n 16 * k) \<subseteq> B"
    and image: "image_at mem rhs n k pb mem"
    and c: "lo \<le> hi" "256 dvd lo" "hi \<le> n" "hi = n \<or> 256 dvd hi"
  shows "agree A (rect out n 0 rows lo hi (\<lambda>i j _. gemm_cell F mem lhs rhs k n i j) mem)
    (fold (\<lambda>column. fold (prepacked_body block F rows n k lhs out pa pb column) (strided 0 256 k))
      (strided lo 256 hi) mem)"
proof (rule column_blocks)
  fix column w
  assume c: "column < n" "256 dvd column" and w: "agree (panel out (rows * n) \<union> A) mem w"
  show "agree A (rect out n 0 rows column (column + min 256 (n - column))
      (\<lambda>i j _. gemm_cell F mem lhs rhs k n i j) w)
    (fold (prepacked_body block F rows n k lhs out pa pb column) (strided 0 256 k) w)"
    using c(1) by (intro depth_loop assms(2) w prepacked_body_result [OF B pa pb image c]) simp_all
qed (use c in simp_all)

end
text \<open>The numbers of a task of a ready job.\<close>

lemma ready_facts:
  assumes "ready_job job threads bytes"
  shows "planned job threads" "packed_problem (job_problem job)"
    "tensors_ok (job_problem job) (job_lhs job) (job_rhs job) (job_out job)"
    "workspace_ok (job_workspace job) bytes (arena_bytes (job_problem job) (job_active_threads job))"
    "tensors_avoid (job_problem job) (job_lhs job) (job_rhs job) (job_out job) (job_workspace job)
       (arena_bytes (job_problem job) (job_active_threads job))"
    "b_image_total (job_problem job) < 2 ^ 64" "b_image_elements (job_problem job) < 2 ^ 64"
    "4 dvd unat (job_workspace job)"
proof -
  show r: "planned job threads" "packed_problem (job_problem job)"
    "tensors_ok (job_problem job) (job_lhs job) (job_rhs job) (job_out job)"
    and w: "workspace_ok (job_workspace job) bytes (arena_bytes (job_problem job) (job_active_threads job))"
    and "tensors_avoid (job_problem job) (job_lhs job) (job_rhs job) (job_out job) (job_workspace job)
       (arena_bytes (job_problem job) (job_active_threads job))"
    using assms by (simp_all add: ready_job_def arena_ok_def)
  have "b_image_total (job_problem job) \<le> arena_bytes (job_problem job) (job_active_threads job)"
    by (simp add: arena_bytes_def)
  then show t: "b_image_total (job_problem job) < 2 ^ 64"
    using w by (simp add: workspace_ok_def placed_def)
  then show "b_image_elements (job_problem job) < 2 ^ 64"
    using b_image_bounds(1) [of "job_problem job"] by linarith
  show "4 dvd unat (job_workspace job)"
    using w dvd_trans [of 4 64 "unat (job_workspace job)"] by (simp add: workspace_ok_def)
qed

lemma rectangle_facts:
  assumes ready: "ready_job job threads bytes" and t: "unat t < unat (job_task_count job)"
  defines "r \<equiv> task_rectangle job t" and "m \<equiv> unat (prob_m (job_problem job))"
    and "n \<equiv> unat (prob_n (job_problem job))" and "k \<equiv> unat (prob_k (job_problem job))"
  shows "0 < unat (tr_rows r)" "unat (tr_row_begin r) + unat (tr_rows r) \<le> m"
    "unat (tr_column_begin r) < unat (tr_column_end r)" "unat (tr_column_end r) \<le> n"
    "256 dvd unat (tr_column_begin r)" "unat (tr_column_end r) = n \<or> 256 dvd unat (tr_column_end r)"
    "unat (job_lhs job + tr_row_begin r * prob_k (job_problem job) * 4) =
      unat (job_lhs job) + unat (tr_row_begin r) * k * 4"
    "unat (job_out job + tr_row_begin r * prob_n (job_problem job) * 4) =
      unat (job_out job) + unat (tr_row_begin r) * n * 4"
    "slot (job_lhs job + tr_row_begin r * prob_k (job_problem job) * 4) =
      slot (job_lhs job) + unat (tr_row_begin r) * k"
    "slot (job_out job + tr_row_begin r * prob_n (job_problem job) * 4) =
      slot (job_out job) + unat (tr_row_begin r) * n"
    "job_column_task_count job = 1 \<Longrightarrow> unat (tr_column_begin r) = 0 \<and> unat (tr_column_end r) = n"
proof -
  let ?i = "unat t div unat (job_column_task_count job)" and ?j = "unat t mod unat (job_column_task_count job)"
  note f = ready_facts [OF ready]
  note c = task_rectangle_cuts [OF f(1) t, folded r_def]
  note row = row_cut_inner [OF f(1) c(1)] and column = column_cut_inner [OF f(1) c(2)]
  show "0 < unat (tr_rows r)" using c(3,4) row(3) by linarith
  have "row_cut job (Suc ?i) \<le> m" by (simp add: row_cut_def m_def)
  then show le: "unat (tr_row_begin r) + unat (tr_rows r) \<le> m" using c(4) by simp
  show "unat (tr_column_begin r) < unat (tr_column_end r)" using c(5,6) column(3) by simp
  show "unat (tr_column_end r) \<le> n" using c(6) by (simp add: column_cut_def n_def)
  show "256 dvd unat (tr_column_begin r)" using c(5) column(4) by simp
  show "unat (tr_column_end r) = n \<or> 256 dvd unat (tr_column_end r)" using c(6) column(5) by (simp add: n_def)
  have m: "m = unat (tr_row_begin r) + (m - unat (tr_row_begin r))" using le by simp
  note four = tensors_slots(3,5) [OF f(2,3)]
  have fits: "unat (job_lhs job) + (unat (tr_row_begin r) + (m - unat (tr_row_begin r))) * k * 4 < 2 ^ 64"
    "unat (job_out job) + (unat (tr_row_begin r) + (m - unat (tr_row_begin r))) * n * 4 < 2 ^ 64"
    unfolding m [symmetric] using f(3) by (simp_all add: tensors_ok_def placed_def m_def n_def k_def)
  show "unat (job_lhs job + tr_row_begin r * prob_k (job_problem job) * 4) =
      unat (job_lhs job) + unat (tr_row_begin r) * k * 4"
    "unat (job_out job + tr_row_begin r * prob_n (job_problem job) * 4) =
      unat (job_out job) + unat (tr_row_begin r) * n * 4"
    "slot (job_lhs job + tr_row_begin r * prob_k (job_problem job) * 4) =
      slot (job_lhs job) + unat (tr_row_begin r) * k"
    "slot (job_out job + tr_row_begin r * prob_n (job_problem job) * 4) =
      slot (job_out job) + unat (tr_row_begin r) * n"
    using shifted_address [OF fits(1) [unfolded k_def] four(1)] shifted_address [OF fits(2) [unfolded n_def] four(2)]
    by (simp_all only: k_def n_def)
  show "unat (tr_column_begin r) = 0 \<and> unat (tr_column_end r) = n" if "job_column_task_count job = 1"
    using c(5,6) column_cut_ends(1,2) [OF f(1)] that by (simp add: n_def)
qed

lemma panel_within:
  assumes "r + d \<le> (m::nat)"
  shows "panel (at + r * c) (d * c) \<subseteq> panel at (m * c)"
proof -
  have "r * c + d * c \<le> m * c" unfolding add_mult_distrib [symmetric] by (rule mult_le_mono1 [OF assms])
  then show ?thesis by (auto simp: panel_def)
qed

text \<open>The buffers of one task: its rows of the inputs and of the output, its worker's slice, the image.\<close>

lemma task_buffers:
  assumes ready: "ready_job job threads bytes" and t: "unat t < unat (job_task_count job)"
    and w: "w < unat (job_active_threads job)"
  defines "r \<equiv> task_rectangle job t" and "n \<equiv> unat (prob_n (job_problem job))"
    and "k \<equiv> unat (prob_k (job_problem job))"
  shows "buffers (unat (tr_rows r)) n k (slot (job_lhs job) + unat (tr_row_begin r) * k) (slot (job_rhs job))
      (slot (job_out job) + unat (tr_row_begin r) * n) (slice_panel (job_problem job) (job_workspace job) w)
      (image_panel (job_problem job) (job_workspace job))"
    "panel (slice_at (job_problem job) (job_workspace job) w)
      (round_up (min (unat (tr_rows r)) 128) 4 * min k 256) \<subseteq>
      slice_panel (job_problem job) (job_workspace job) w"
proof -
  note f = ready_facts [OF ready] and q = rectangle_facts [OF ready t, folded r_def n_def k_def]
  let ?P = "job_problem job" and ?W = "job_workspace job" and ?T = "job_active_threads job"
  have arena: "arena_ok ?P (job_lhs job) (job_rhs job) (job_out job) ?W ?T bytes"
    using ready by (simp add: ready_job_def)
  note apart = arena_apart [OF f(2) arena]
  note inside = slice_in_arena [OF w, of ?P ?W] image_in_arena [of ?P ?W ?T]
  have parts: "panel (slot (job_lhs job) + unat (tr_row_begin r) * k) (unat (tr_rows r) * k) \<subseteq>
      panel (slot (job_lhs job)) (unat (prob_m ?P) * unat (prob_k ?P))"
    "panel (slot (job_out job) + unat (tr_row_begin r) * n) (unat (tr_rows r) * n) \<subseteq>
      panel (slot (job_out job)) (unat (prob_m ?P) * unat (prob_n ?P))"
    unfolding k_def n_def by (intro panel_within q(2))+
  note apart' = disjoint_mono [OF inside(1) parts(2) apart(1)] disjoint_mono [OF inside(2) parts(2) apart(1)]
    disjoint_mono [OF inside(1) parts(1) apart(2)] disjoint_mono [OF inside(2) parts(1) apart(2)]
    disjoint_mono [OF inside(1) order_refl apart(3)] disjoint_mono [OF inside(2) order_refl apart(3)]
    disjoint_mono [OF parts(2,1) tensors_slots(1) [OF f(2,3)]]
    disjoint_mono [OF parts(2) order_refl tensors_slots(2) [OF f(2,3)]]
  show "buffers (unat (tr_rows r)) n k (slot (job_lhs job) + unat (tr_row_begin r) * k) (slot (job_rhs job))
      (slot (job_out job) + unat (tr_row_begin r) * n) (slice_panel ?P ?W w) (image_panel ?P ?W)"
    unfolding buffers_def using apart' slice_image_disjoint [of ?P ?W w] by (simp add: n_def k_def)
  have "round_up (min (unat (tr_rows r)) 128) 4 \<le> round_up (min (unat (prob_m ?P)) 128) 4"
    using q(2) by (intro round_up_mono) simp
  then have "round_up (min (unat (tr_rows r)) 128) 4 * min k 256 * 4 \<le> a_panel_bytes ?P"
    by (simp add: a_panel_bytes_def k_def)
  then have "round_up (min (unat (tr_rows r)) 128) 4 * min k 256 \<le> slice_bytes ?P div 4"
    using slice_facts(3) [of ?P] by linarith
  then show "panel (slice_at ?P ?W w) (round_up (min (unat (tr_rows r)) 128) 4 * min k 256) \<subseteq> slice_panel ?P ?W w"
    unfolding slice_panel_def by (rule panel_mono)
qed

definition task_rect :: "'f fma_ops \<Rightarrow> 'f ParallelGemmJobV1 \<Rightarrow> u64 \<Rightarrow> 'f fmem \<Rightarrow> 'f fmem \<Rightarrow> 'f fmem" where
  "task_rect F job t orig mem =
    (let r = task_rectangle job t; n = unat (prob_n (job_problem job)); k = unat (prob_k (job_problem job))
     in rect (slot (job_out job)) n (unat (tr_row_begin r)) (unat (tr_row_begin r) + unat (tr_rows r))
          (unat (tr_column_begin r)) (unat (tr_column_end r))
          (\<lambda>i j _. gemm_cell F orig (slot (job_lhs job)) (slot (job_rhs job)) k n i j) mem)"

lemma shifted_rect:
  assumes "chi \<le> n"
  shows "rect (out + r * n) n 0 rows clo chi (\<lambda>i j _. gemm_cell F mem (lhs + r * k) rhs k n i j) m =
    rect out n r (r + rows) clo chi (\<lambda>i j _. gemm_cell F mem lhs rhs k n i j) m"
proof (cases "n = 0")
  case True
  then show ?thesis using assms by (simp add: rect_def in_rect_def)
next
  case False
  have "rect (out + r * n + 0) n 0 rows clo chi (\<lambda>i j _. gemm_cell F mem (lhs + r * k) rhs k n i j) m =
      rect out n (r + 0) (r + rows) (0 + clo) (0 + chi)
        (\<lambda>i j. (\<lambda>i j _. gemm_cell F mem (lhs + r * k) rhs k n i j) (i - r) (j - 0)) m"
    using assms False by (intro rect_shift) simp_all
  also have "\<dots> = rect out n r (r + rows) clo chi (\<lambda>i j _. gemm_cell F mem lhs rhs k n i j) m"
    unfolding add_0_right add_0_left by (intro rect_cong) (simp add: gemm_cell_shift)
  finally show ?thesis by simp
qed
lemma positive_sint:
  fixes x :: i64
  assumes "0 < unat x" "unat x < 2 ^ 63"
  shows "0 < sint x"
proof -
  have "uint x < 2 ^ 63" using assms(2) by (simp only: unat_eq_nat_uint nat_less_iff [OF uint_ge_0]) simp
  moreover have "- (2 ^ 63) \<le> uint x" by (rule order_trans [OF _ uint_ge_0]) simp
  ultimately have "sint x = uint x" by (simp add: sint_uint signed_take_bit_int_eq_self)
  then show ?thesis using assms(1) by (simp only: unat_eq_nat_uint zero_less_nat_eq)
qed

abbreviation band_problem :: "'f ParallelGemmJobV1 \<Rightarrow> u64 \<Rightarrow> CpuGemmProblemV1" where
  "band_problem job t \<equiv> (job_problem job)\<lparr>prob_m := tr_rows (task_rectangle job t)\<rparr>"

text \<open>The band of a task begins at an address that the declared alignment allows.\<close>

definition band_aligned :: "'f ParallelGemmJobV1 \<Rightarrow> u64 \<Rightarrow> bool" where
  "band_aligned job t \<longleftrightarrow>
    (let a = unat (prob_minimum_alignment_bytes (job_problem job));
         r = unat (tr_row_begin (task_rectangle job t))
     in a dvd r * unat (prob_k (job_problem job)) * 4 \<and> a dvd r * unat (prob_n (job_problem job)) * 4)"

lemma prepared_view_fits:
  assumes "ready_job job threads bytes"
  shows "cpu_validate_prepare_packed_b_avx2_v1 (job_problem job) (job_rhs job) (job_workspace job)
    (of_nat (b_image_total (job_problem job))) = Inr (prepared_view job)"
proof -
  note f = ready_facts [OF assms]
  let ?T = "arena_bytes (job_problem job) (job_active_threads job)"
  have le: "b_image_total (job_problem job) \<le> ?T" by (simp add: arena_bytes_def)
  have u: "unat (of_nat (b_image_total (job_problem job)) :: u64) = b_image_total (job_problem job)"
    using f(6) by (intro unat_of_nat64) simp
  have "disjoint_ranges (job_rhs job) (rhs_bytes (job_problem job)) (job_workspace job) (b_image_total (job_problem job))"
    using tensors_avoid_mono [OF f(5) le] by (simp add: tensors_avoid_def disjoint_ranges_sym)
  then show ?thesis
    unfolding prepare_validation using f(2,3,4,6) le u
    by (simp add: tensors_ok_def workspace_ok_def placed_def)
qed

lemma disjoint_subranges:
  assumes "disjoint_ranges p a q b" "unat p' = unat p + x" "x + c \<le> a" "unat q' = unat q + y" "y + d \<le> b"
  shows "disjoint_ranges p' c q' d"
proof -
  have "bytes_at p' c \<subseteq> bytes_at p a" "bytes_at q' d \<subseteq> bytes_at q b"
    using assms(2-) by (auto simp: bytes_at_def)
  then show ?thesis using assms(1) unfolding disjoint_ranges_def by (rule disjoint_mono)
qed

lemma subrange_apart:
  assumes "disjoint_ranges p a q b" "unat p' = unat p + x" "x + c \<le> a" "d \<le> b"
  shows "disjoint_ranges p' c q d"
  using disjoint_subranges [OF assms(1-3), of q 0 d] assms(4) by simp

lemma band_dims:
  assumes "r + d \<le> (m::nat)"
  shows "r * c * 4 + d * c * 4 \<le> m * c * 4"
proof -
  have "(r + d) * c * 4 \<le> m * c * 4" using assms by (intro mult_le_mono1)
  then show ?thesis by (simp only: add_mult_distrib)
qed

text \<open>The checks of the prepacked execution accept the band exactly when it is aligned.\<close>

lemma band_validation:
  assumes ready: "ready_job job threads bytes" and t: "unat t < unat (job_task_count job)"
    and w: "w < unat (job_active_threads job)"
  defines "r \<equiv> task_rectangle job t" and "P \<equiv> job_problem job"
  shows "cpu_validate_packed_avx2_prepacked_b_v1 (band_problem job t)
      (job_lhs job + tr_row_begin r * prob_k P * 4) (job_out job + tr_row_begin r * prob_n P * 4)
      (prepared_view job)
      (job_workspace job + job_worker_region_offset job + of_nat w * job_per_worker_stride job)
      (job_per_worker_stride job) = Inr () \<longleftrightarrow> band_aligned job t"
proof -
  note f = ready_facts [OF ready, folded P_def] and q = rectangle_facts [OF ready t, folded r_def P_def]
  let ?B = "band_problem job t" and ?W = "job_workspace job" and ?rb = "unat (tr_row_begin r)"
    and ?rows = "unat (tr_rows r)" and ?m = "unat (prob_m P)" and ?n = "unat (prob_n P)" and ?k = "unat (prob_k P)"
  let ?lhs = "job_lhs job + tr_row_begin r * prob_k P * 4" and ?out = "job_out job + tr_row_begin r * prob_n P * 4"
  let ?slice = "?W + job_worker_region_offset job + of_nat w * job_per_worker_stride job"
  let ?T = "arena_bytes P (job_active_threads job)" and ?a = "unat (prob_minimum_alignment_bytes P)"
  have dims [simp]: "prob_m ?B = tr_rows r" "prob_n ?B = prob_n P" "prob_k ?B = prob_k P"
    "prob_minimum_alignment_bytes ?B = prob_minimum_alignment_bytes P"
    by (simp_all add: r_def P_def)
  have m: "?m < 2 ^ 63" using positive_unat(2) [of "prob_m P"] f(2) by (simp add: packed_problem_def)
  have le: "?rows * ?k * 4 \<le> ?m * ?k * 4" "?rows * ?n * 4 \<le> ?m * ?n * 4"
    using q(2) by simp_all
  have ok: "packed_problem ?B"
  proof -
    have "0 < sint (tr_rows r)" using q(1,2) m by (intro positive_sint) simp_all
    moreover have "?rows * ?k * 4 < 2 ^ 64" "?rows * ?n * 4 < 2 ^ 64"
      using f(2) le unfolding packed_problem_def by linarith+
    ultimately show ?thesis using f(2) by (simp add: packed_problem_def r_def P_def)
  qed
  have same: "b_image_elements ?B = b_image_elements P"
    by (simp add: b_image_elements_def P_def)
  have view: "view_ok ?B (prepared_view job)"
    by (rule prepared_view_ok [OF prepared_view_fits [OF ready]]) (simp_all add: P_def)
  have address: "unat ?slice = unat ?W + b_image_total P + w * slice_bytes P"
    "job_per_worker_stride job = of_nat (slice_bytes P)"
    using slice_address(1) [OF f(4) w] ready by (simp_all add: ready_job_def P_def)
  have stride: "unat (job_per_worker_stride job) = slice_bytes P"
    unfolding address(2) using slice_facts(2) [of P] by (intro unat_of_nat64) simp
  have inside: "b_image_total P + w * slice_bytes P + slice_bytes P \<le> ?T"
  proof -
    have "Suc w * slice_bytes P \<le> unat (job_active_threads job) * slice_bytes P"
      using w by (intro mult_le_mono1) simp
    then show ?thesis by (simp add: arena_bytes_def mult.commute)
  qed
  have need: "workspace_total ?B transient_a_with_prepacked_b \<le> slice_bytes P"
  proof -
    have "a_panel_bytes ?B \<le> a_panel_bytes P"
      unfolding a_panel_bytes_def dims using q(2)
      by (intro mult_le_mono1 round_up_mono) (simp add: min.coboundedI1)
    then show ?thesis by (simp add: workspace_total_def slice_bytes_def round_up_mono)
  qed
  have views: "pbv_source_data (prepared_view job) = job_rhs job" "pbv_packed_data (prepared_view job) = ?W"
    by simp_all
  have image: "b_image_elements P * 4 \<le> b_image_total P" by (rule b_image_bounds(1))
  note room = f(3) [unfolded tensors_ok_def]
  note lhs_fits = band_dims [OF q(2), of ?k] and out_fits = band_dims [OF q(2), of ?n]
  have W: "unat ?W + ?T < 2 ^ 64" "64 dvd unat ?W" using f(4) by (simp_all add: workspace_ok_def placed_def)
  have placed: "placed ?lhs (?rows * ?k * 4)" "placed ?out (?rows * ?n * 4)"
  proof -
    have fits: "unat (job_lhs job) + ?m * ?k * 4 < 2 ^ 64" "unat (job_out job) + ?m * ?n * 4 < 2 ^ 64"
      and "0 < unat (job_lhs job)" "0 < unat (job_out job)"
      using room by (simp_all add: placed_def unat_gt_0)
    then have "0 < unat ?lhs" "0 < unat ?out" unfolding q(7,8) by linarith+
    then have "?lhs \<noteq> 0" "?out \<noteq> 0" by (simp_all only: unat_gt_0 simp_thms)
    moreover have "unat ?lhs + ?rows * ?k * 4 < 2 ^ 64" "unat ?out + ?rows * ?n * 4 < 2 ^ 64"
      unfolding q(7,8) using fits lhs_fits out_fits by linarith+
    ultimately show "placed ?lhs (?rows * ?k * 4)" "placed ?out (?rows * ?n * 4)"
      by (simp_all only: placed_def simp_thms)
  qed
  have tensors: "tensors_ok ?B ?lhs (job_rhs job) ?out \<longleftrightarrow> band_aligned job t"
  proof -
    have "disjoint_ranges ?out (?rows * ?n * 4) ?lhs (?rows * ?k * 4)"
      using room by (intro disjoint_subranges [OF _ q(8) out_fits q(7) lhs_fits]) simp
    moreover have "disjoint_ranges ?out (?rows * ?n * 4) (job_rhs job) (?k * ?n * 4)"
      using room by (intro subrange_apart [OF _ q(8) out_fits order_refl]) simp
    moreover have "?a dvd unat ?lhs \<longleftrightarrow> ?a dvd ?rb * ?k * 4" "?a dvd unat ?out \<longleftrightarrow> ?a dvd ?rb * ?n * 4"
      unfolding q(7,8) using room by (simp_all add: dvd_add_right_iff)
    ultimately show ?thesis
      unfolding tensors_ok_def dims using room placed
      by (auto simp: band_aligned_def Let_def simp flip: P_def r_def)
  qed
  have avoid: "disjoint_ranges ?W ?T (job_lhs job) (?m * ?k * 4)" "disjoint_ranges ?W ?T (job_rhs job) (?k * ?n * 4)"
    "disjoint_ranges ?W ?T (job_out job) (?m * ?n * 4)"
    using f(5) by (simp_all add: tensors_avoid_def)
  have apart: "disjoint_ranges ?lhs (?rows * ?k * 4) ?W (b_image_elements P * 4)"
    "disjoint_ranges ?out (?rows * ?n * 4) ?W (b_image_elements P * 4)"
    using avoid image inside lhs_fits out_fits
    by (auto simp: disjoint_ranges_sym [of _ _ ?W] intro!: disjoint_subranges [OF _ _ _ q(7)] disjoint_subranges [OF _ _ _ q(8)])
  have slice: "workspace_ok ?slice (job_per_worker_stride job) (workspace_total ?B transient_a_with_prepacked_b)"
  proof -
    have "64 dvd unat ?slice"
      unfolding address(1) using W(2) slice_facts(1,4) [of P] by (intro dvd_add) simp_all
    moreover have "?slice \<noteq> 0"
    proof
      assume "?slice = 0"
      then have "unat ?W = 0" using address(1) by simp
      then show False using f(4) by (simp add: workspace_ok_def placed_def unat_eq_0)
    qed
    ultimately show ?thesis
      using need inside W(1) address(1) stride by (simp add: workspace_ok_def placed_def)
  qed
  have slice_avoids: "tensors_avoid ?B ?lhs (job_rhs job) ?out ?slice (workspace_total ?B transient_a_with_prepacked_b)"
    unfolding tensors_avoid_def dims
    using order_trans [OF add_left_mono [OF need] inside] lhs_fits out_fits address(1)
    by (intro conjI disjoint_subranges [OF avoid(1) _ _ q(7)] disjoint_subranges [OF avoid(3) _ _ q(8)]
        subrange_apart [OF avoid(2)]) simp_all
  have slice_image: "disjoint_ranges ?slice (workspace_total ?B transient_a_with_prepacked_b) ?W (b_image_elements P * 4)"
    using address(1) image by (auto simp: disjoint_ranges_def bytes_at_def)
  show ?thesis
    unfolding prepacked_validation view_validation views same dims
    using ok view apart slice slice_avoids slice_image by (simp add: tensors)
qed
lemma task_index_ok:
  assumes "planned job threads" "unat t < unat (job_task_count job)"
  shows "\<not> (t \<ge> job_task_count job \<or> job_row_task_count job = 0 \<or> job_column_task_count job = 0)"
  using planned_facts(1,2) [OF assms(1)] assms(2) by (auto simp: word_le_nat_alt)

context packed_backend
begin

text \<open>What the loops of both branches write, seen from the whole matrices.\<close>

lemma task_loops_result:
  fixes F :: "'f fma_ops" and mem :: "'f fmem"
  assumes ready: "ready_job job threads bytes" and t: "unat t < unat (job_task_count job)"
    and w: "w < unat (job_active_threads job)"
  defines "r \<equiv> task_rectangle job t" and "n \<equiv> unat (prob_n (job_problem job))"
    and "k \<equiv> unat (prob_k (job_problem job))"
  assumes image: "image_at mem (slot (job_rhs job)) n k (slot (job_workspace job)) mem"
  shows "agree (slice_panel (job_problem job) (job_workspace job) w) (task_rect F job t mem mem)
    (fold (\<lambda>column. fold (prepacked_body block F (unat (tr_rows r)) n k
        (slot (job_lhs job) + unat (tr_row_begin r) * k) (slot (job_out job) + unat (tr_row_begin r) * n)
        (slice_at (job_problem job) (job_workspace job) w) (slot (job_workspace job)) column) (strided 0 256 k))
      (strided (unat (tr_column_begin r)) 256 (unat (tr_column_end r))) mem)"
proof -
  note f = ready_facts [OF ready] and q = rectangle_facts [OF ready t, folded r_def n_def k_def]
    and b = task_buffers [OF ready t w, folded r_def n_def k_def]
  have "0 < k" using dims_positive [OF f(2)] by (simp add: k_def)
  moreover have "panel (slot (job_workspace job)) (round_up n 16 * k) \<subseteq>
      image_panel (job_problem job) (job_workspace job)"
    by (simp add: image_panel_def b_image_elements_def n_def k_def)
  ultimately show ?thesis
    using partition_loops_result [OF b(1) _ b(2) _ image less_imp_le [OF q(3)] q(5,4,6), of F]
    by (simp add: shifted_rect [OF q(4)] task_rect_def Let_def flip: r_def n_def k_def)
qed

lemma output_partition_result:
  fixes F :: "'f fma_ops" and mem :: "'f fmem"
  assumes ready: "ready_job job threads bytes" and t: "unat t < unat (job_task_count job)"
    and w: "w < unat (job_active_threads job)" and ops: "job_ops job = backend F" and usable
    and band: "job_column_task_count job = 1 \<Longrightarrow> band_aligned job t"
    and image: "image_at mem (slot (job_rhs job)) (unat (prob_n (job_problem job)))
      (unat (prob_k (job_problem job))) (slot (job_workspace job)) mem"
  shows "\<exists>mem'. execute_output_partition job (prepared_view job) t (of_nat w) mem = (True, mem') \<and>
    agree (slice_panel (job_problem job) (job_workspace job) w) (task_rect F job t mem mem) mem'"
proof -
  define r where "r = task_rectangle job t"
  define P where "P = job_problem job"
  note f = ready_facts [OF ready, folded P_def] and q = rectangle_facts [OF ready t, folded r_def P_def]
    and result = task_loops_result [OF ready t w image, of F, folded r_def P_def]
  let ?n = "unat (prob_n P)" and ?k = "unat (prob_k P)"
  let ?lhs = "job_lhs job + tr_row_begin r * prob_k P * 4" and ?out = "job_out job + tr_row_begin r * prob_n P * 4"
  let ?slice = "job_workspace job + job_worker_region_offset job + of_nat w * job_per_worker_stride job"
  have slice: "slot ?slice = slice_at P (job_workspace job) w"
    using slice_address(2) [OF f(4) w] ready by (simp add: ready_job_def P_def)
  note guard = task_index_ok [OF f(1) t]
  show ?thesis
  proof (cases "job_column_task_count job = 1")
    case True
    let ?B = "band_problem job t"
    have valid: "cpu_validate_packed_avx2_prepacked_b_v1 ?B ?lhs ?out (prepared_view job) ?slice
        (job_per_worker_stride job) = Inr ()"
      using band_validation [OF ready t w] band [OF True] by (simp add: r_def P_def)
    have B: "?B = P\<lparr>prob_m := tr_rows r\<rparr>" by (simp add: r_def P_def)
    obtain s where "ops_execute_prepacked (backend F) ?B ?lhs ?out (prepared_view job) ?slice
        (job_per_worker_stride job) mem = (if usable \<and> cpu_validate_packed_avx2_prepacked_b_v1 ?B ?lhs ?out
          (prepared_view job) ?slice (job_per_worker_stride job) = Inr ()
       then (pst_success, prepacked_run block F ?B ?lhs ?out (prepared_view job) ?slice mem) else (s, mem))"
      using backend_execute by blast
    then have "execute_output_partition job (prepared_view job) t (of_nat w) mem =
        (True, prepacked_run block F ?B ?lhs ?out (prepared_view job) ?slice mem)"
      using guard True valid \<open>usable\<close>
      unfolding execute_output_partition_def Let_def r_def [symmetric] P_def [symmetric] ops B
      by simp
    then show ?thesis
      using result q(9,10) q(11) [OF True] slice
      by (simp add: prepacked_loops_memory flip: P_def r_def)
  next
    case False
    have rows: "unat (tr_rows r) < 2 ^ 63"
      using q(2) positive_unat(2) [of "prob_m P"] f(2) by (simp add: packed_problem_def)
    have e: "unat (of_nat (b_image_elements P) :: u64) = round_up ?n 16 * ?k"
      "round_up ?n 16 * ?k < 2 ^ 64"
      using f(7) unat_of_nat64 [of "b_image_elements P"]
      by (simp_all add: b_image_elements_def del: of_nat_mult)
    have k: "0 < ?k" using dims_positive [OF f(2)] by simp
    have "execute_output_partition job (prepared_view job) t (of_nat w) mem =
      fold (partition_column (backend F) ?n ?k (slot ?lhs) (slot ?out) (unat (tr_rows r)) (slot ?slice)
          (slot (job_workspace job)) (of_nat (b_image_elements P)) (unat (tr_column_end r)))
        (strided (unat (tr_column_begin r)) 256 (unat (tr_column_end r))) (True, mem)"
      using guard False unfolding execute_output_partition_def Let_def r_def [symmetric] P_def [symmetric] ops
      by simp
    then show ?thesis
      using result partition_columns [OF less_imp_le [OF q(3)] q(5,4,6) rows e(2) k e(1), of F]
      by (simp add: q(9,10) slice flip: P_def)
  qed
qed

text \<open>The band path fails, and writes nothing, when the band is not aligned.\<close>

lemma misaligned_band_fails:
  assumes ready: "ready_job job threads bytes" and t: "unat t < unat (job_task_count job)"
    and w: "w < unat (job_active_threads job)" and ops: "job_ops job = backend F"
    and "job_column_task_count job = 1" "\<not> band_aligned job t"
  shows "execute_output_partition job (prepared_view job) t (of_nat w) mem = (False, mem)"
proof -
  define r where "r = task_rectangle job t"
  define P where "P = job_problem job"
  let ?B = "P\<lparr>prob_m := tr_rows r\<rparr>"
  let ?lhs = "job_lhs job + tr_row_begin r * prob_k P * 4" and ?out = "job_out job + tr_row_begin r * prob_n P * 4"
  let ?slice = "job_workspace job + job_worker_region_offset job + of_nat w * job_per_worker_stride job"
  obtain s where "s \<noteq> pst_success" "ops_execute_prepacked (backend F) ?B ?lhs ?out (prepared_view job) ?slice
        (job_per_worker_stride job) mem = (if usable \<and> cpu_validate_packed_avx2_prepacked_b_v1 ?B ?lhs ?out
          (prepared_view job) ?slice (job_per_worker_stride job) = Inr ()
       then (pst_success, prepacked_run block F ?B ?lhs ?out (prepared_view job) ?slice mem) else (s, mem))"
    using backend_execute by blast
  then have "ops_execute_prepacked (backend F) ?B ?lhs ?out (prepared_view job) ?slice
        (job_per_worker_stride job) mem = (s, mem)" "s \<noteq> pst_success"
    using band_validation [OF ready t w] assms(6) by (simp_all add: r_def P_def)
  then show ?thesis
    using task_index_ok [OF ready_facts(1) [OF ready] t] assms(5)
    unfolding execute_output_partition_def Let_def r_def [symmetric] P_def [symmetric] ops
    by simp
qed

end
end
