(* ===== verification/ExecutionContext.thy ===== *)
theory ExecutionContext
  imports Prelude
begin

text \<open>
  The persistent worker pool of \<^verbatim>\<open>runtime/cpu_execution_context.cpp\<close> and the thread binding of
  \<^verbatim>\<open>platform/thread_affinity_v1.cpp\<close>.

  First the sequential part: the configuration check, the binding of one thread, the summary of the
  workers' bindings and the outcome of \<^verbatim>\<open>CpuExecutionContextV1::create\<close>. Then the concurrent part
  as a state machine. Its state holds what the mutexes protect (the pointer to the submission, the
  epoch, the flags), the submission object in the frame of the submitter, the results array, one
  phase per worker and the phase of the one caller that holds \<^verbatim>\<open>submission_mutex\<close>. A step of a
  worker or of the caller is one critical section of \<^verbatim>\<open>state_mutex\<close>, one callback, or one
  notification made outside the lock; waiting on a condition variable is a phase of its own that only
  a notification (or a spurious wakeup) leaves, so a lost wakeup would be visible as a deadlock.

  A pointer to a submission is the number of the submission; it can be followed only while the object
  of that number is alive (\<open>deref\<close>). Fields marked as history are not part of the program: the number
  of submissions so far, the callbacks each worker made for the submission in flight, and the value
  the last call returned.
\<close>

section \<open>Status codes and configuration\<close>

datatype CpuExecutionStatusV1 =
    ex_success | ex_invalid_configuration | ex_context_stopping | ex_nested_parallelism_rejected
  | ex_callback_failed | ex_resource_exhausted | ex_affinity_unavailable
  | ex_affinity_application_failed | ex_other u32

datatype CpuProviderNestingPolicyV1 =
    nest_native_only | nest_external_provider_active | nest_other u32

datatype ThreadAffinityStatusV1 =
    ta_not_requested | ta_applied | ta_unavailable | ta_invalid_cpu_id | ta_system_error | ta_other u8

datatype CpuWorkerAffinityStatusV1 =
    wa_not_requested | wa_complete | wa_invalid_configuration | wa_unavailable
  | wa_application_failed | wa_partially_applied | wa_other u8

record CpuExecutionContextConfigV1 =
  cfg_version :: u32
  cfg_requested_threads :: u32
  cfg_maximum_threads :: u32
  cfg_worker_cpu_ids :: "u32 list"

record ThreadAffinityApplicationV1 =
  tap_status :: ThreadAffinityStatusV1
  tap_requested_logical_cpu :: u32
  tap_platform_error :: u32

definition default_application :: ThreadAffinityApplicationV1 where
  "default_application = \<lparr>tap_status = ta_not_requested, tap_requested_logical_cpu = u32_max,
     tap_platform_error = 0\<rparr>"

record CpuWorkerAffinityReportV1 =
  war_status :: CpuWorkerAffinityStatusV1
  war_requested_workers :: u32
  war_applied_workers :: u32
  war_first_failed_worker :: u32
  war_first_failed_cpu :: u32
  war_platform_error :: u32
  war_complete :: bool
  war_numa_memory_placement_applied :: bool

definition default_affinity_report :: CpuWorkerAffinityReportV1 where
  "default_affinity_report =
     \<lparr>war_status = wa_not_requested, war_requested_workers = 0, war_applied_workers = 0,
      war_first_failed_worker = u32_max, war_first_failed_cpu = u32_max, war_platform_error = 0,
      war_complete = True, war_numa_memory_placement_applied = False\<rparr>"

section \<open>Binding one thread\<close>

text \<open>What the operating system answers. Linux: \<^verbatim>\<open>CPU_SETSIZE\<close> and the error number of
  \<^verbatim>\<open>pthread_setaffinity_np\<close> for a one-CPU mask (0 is success). Windows: the number of processor
  groups, the process mask or the error of reading it, and the error of
  \<^verbatim>\<open>SetThreadGroupAffinity\<close> for a mask, if it fails.\<close>

datatype affinity_host =
    host_linux (linux_set_size: u32) (linux_setaffinity: "u32 \<Rightarrow> u32")
  | host_windows (win_groups: u16) (win_process_mask: "u32 + u64") (win_set_group: "u64 \<Rightarrow> u32 option")
  | host_other

definition EINVAL :: u32 where "EINVAL = 22"
definition ERROR_NOT_SUPPORTED :: u32 where "ERROR_NOT_SUPPORTED = 50"
definition ERROR_INVALID_PARAMETER :: u32 where "ERROR_INVALID_PARAMETER = 87"

fun apply_current_thread_affinity_v1 :: "affinity_host \<Rightarrow> u32 \<Rightarrow> ThreadAffinityApplicationV1" where
  "apply_current_thread_affinity_v1 (host_linux set_size setaffinity) cpu =
    (let result = default_application\<lparr>tap_requested_logical_cpu := cpu\<rparr> in
     if cpu \<ge> set_size
     then result\<lparr>tap_status := ta_invalid_cpu_id, tap_platform_error := EINVAL\<rparr>
     else let error = setaffinity cpu
       in if error \<noteq> 0
          then result\<lparr>tap_status := (if error = EINVAL then ta_invalid_cpu_id else ta_system_error),
                      tap_platform_error := error\<rparr>
          else result\<lparr>tap_status := ta_applied\<rparr>)"
| "apply_current_thread_affinity_v1 (host_windows groups process_mask set_group) cpu =
    (let result = default_application\<lparr>tap_requested_logical_cpu := cpu\<rparr> in
     if groups \<noteq> 1
     then result\<lparr>tap_status := ta_unavailable, tap_platform_error := ERROR_NOT_SUPPORTED\<rparr>
     else if cpu \<ge> 64
     then result\<lparr>tap_status := ta_invalid_cpu_id, tap_platform_error := ERROR_INVALID_PARAMETER\<rparr>
     else case process_mask of
       Inl error \<Rightarrow> result\<lparr>tap_status := ta_system_error, tap_platform_error := error\<rparr>
     | Inr allowed \<Rightarrow>
         let requested = push_bit (unat cpu) 1
         in if allowed AND requested = 0
            then result\<lparr>tap_status := ta_invalid_cpu_id,
                        tap_platform_error := ERROR_INVALID_PARAMETER\<rparr>
            else case set_group requested of
              Some error \<Rightarrow> result\<lparr>tap_status := ta_system_error, tap_platform_error := error\<rparr>
            | None \<Rightarrow> result\<lparr>tap_status := ta_applied\<rparr>)"
| "apply_current_thread_affinity_v1 host_other cpu =
     default_application\<lparr>tap_requested_logical_cpu := cpu, tap_status := ta_unavailable\<rparr>"

section \<open>Creating a context\<close>

text \<open>\<^verbatim>\<open>std::adjacent_find(...) == end()\<close>.\<close>

fun no_adjacent :: "u32 list \<Rightarrow> bool" where
  "no_adjacent (x # y # rest) = (x \<noteq> y \<and> no_adjacent (y # rest))"
| "no_adjacent _ = True"

definition affinity_configuration_valid :: "CpuExecutionContextConfigV1 \<Rightarrow> u32 \<Rightarrow> bool" where
  "affinity_configuration_valid config worker_count =
    (if cfg_worker_cpu_ids config = [] then True
     else if length (cfg_worker_cpu_ids config) \<noteq> unat worker_count then False
     else no_adjacent (sort (cfg_worker_cpu_ids config)))"

text \<open>One turn of the loop of \<^verbatim>\<open>summarize_affinity\<close>: the report and \<^verbatim>\<open>all_failures_unavailable\<close>.\<close>

definition summarize_worker ::
  "u32 \<Rightarrow> ThreadAffinityApplicationV1 \<Rightarrow> CpuWorkerAffinityReportV1 \<times> bool \<Rightarrow>
   CpuWorkerAffinityReportV1 \<times> bool" where
  "summarize_worker worker result acc =
    (case acc of (report, all_unavailable) \<Rightarrow>
       if tap_status result = ta_applied
       then (report\<lparr>war_applied_workers := war_applied_workers report + 1\<rparr>, all_unavailable)
       else ((if war_first_failed_worker report = u32_max
              then report\<lparr>war_first_failed_worker := worker,
                          war_first_failed_cpu := tap_requested_logical_cpu result,
                          war_platform_error := tap_platform_error result\<rparr>
              else report),
             (if tap_status result \<noteq> ta_unavailable then False else all_unavailable)))"

fun summarize_workers ::
  "u32 \<Rightarrow> ThreadAffinityApplicationV1 list \<Rightarrow> CpuWorkerAffinityReportV1 \<times> bool \<Rightarrow>
   CpuWorkerAffinityReportV1 \<times> bool" where
  "summarize_workers worker [] acc = acc"
| "summarize_workers worker (result # results) acc =
     summarize_workers (worker + 1) results (summarize_worker worker result acc)"

definition summarize_affinity ::
  "CpuExecutionContextConfigV1 \<Rightarrow> ThreadAffinityApplicationV1 list \<Rightarrow> CpuWorkerAffinityReportV1" where
  "summarize_affinity config results =
    (if cfg_worker_cpu_ids config = [] then default_affinity_report
     else case summarize_workers 0 results
            (default_affinity_report\<lparr>war_requested_workers := of_nat (length results),
                                     war_complete := False\<rparr>, True)
       of (report, all_failures_unavailable) \<Rightarrow>
         if war_applied_workers report = war_requested_workers report
         then report\<lparr>war_status := wa_complete, war_complete := True\<rparr>
         else if war_applied_workers report \<noteq> 0 then report\<lparr>war_status := wa_partially_applied\<rparr>
         else if all_failures_unavailable then report\<lparr>war_status := wa_unavailable\<rparr>
         else report\<lparr>war_status := wa_application_failed\<rparr>)"

text \<open>The exceptions \<^verbatim>\<open>create\<close> may catch, by the statement that throws.\<close>

datatype creation_failure =
  fail_validation_copy | fail_implementation | fail_threads | fail_wrapper

text \<open>What \<^verbatim>\<open>create\<close> leaves in \<^verbatim>\<open>status\<close> and \<^verbatim>\<open>affinity_report\<close>, and the number of
  workers of the context it returns, if it returns one.\<close>

definition create_context ::
  "affinity_host \<Rightarrow> creation_failure option \<Rightarrow> CpuExecutionContextConfigV1 \<Rightarrow>
   CpuExecutionStatusV1 \<times> CpuWorkerAffinityReportV1 \<times> u32 option" where
  "create_context host failure config =
    (if cfg_version config \<noteq> 1 \<or> cfg_requested_threads config = 0
     then (ex_invalid_configuration, default_affinity_report, None)
     else
     let ceiling = (if cfg_maximum_threads config = 0 then cfg_requested_threads config
                    else cfg_maximum_threads config);
         worker_count = min (cfg_requested_threads config) ceiling
     in if worker_count = 0 then (ex_invalid_configuration, default_affinity_report, None)
        else if failure = Some fail_validation_copy \<and> cfg_worker_cpu_ids config \<noteq> [] \<and>
                length (cfg_worker_cpu_ids config) = unat worker_count
        then (ex_resource_exhausted, default_affinity_report, None)
        else if \<not> affinity_configuration_valid config worker_count
        then (ex_invalid_configuration,
              default_affinity_report\<lparr>war_status := wa_invalid_configuration,
                war_requested_workers := of_nat (length (cfg_worker_cpu_ids config)),
                war_complete := False\<rparr>, None)
        else if failure = Some fail_implementation \<or> failure = Some fail_threads
        then (ex_resource_exhausted, default_affinity_report, None)
        else
        let results = (if cfg_worker_cpu_ids config = []
                       then replicate (unat worker_count) default_application
                       else map (apply_current_thread_affinity_v1 host) (cfg_worker_cpu_ids config));
            report = summarize_affinity config results
        in if \<not> war_complete report
           then ((if war_status report = wa_unavailable then ex_affinity_unavailable
                  else ex_affinity_application_failed), report, None)
           else if failure = Some fail_wrapper then (ex_resource_exhausted, report, None)
           else (ex_success, report, Some worker_count))"

section \<open>Messages\<close>

fun cpu_execution_status_message_v1 :: "CpuExecutionStatusV1 \<Rightarrow> string" where
  "cpu_execution_status_message_v1 ex_success = ''success''"
| "cpu_execution_status_message_v1 ex_invalid_configuration =
     ''invalid CPU execution-context configuration''"
| "cpu_execution_status_message_v1 ex_context_stopping = ''CPU execution context is stopping''"
| "cpu_execution_status_message_v1 ex_nested_parallelism_rejected =
     ''nested native/provider parallelism is prohibited''"
| "cpu_execution_status_message_v1 ex_callback_failed = ''CPU execution task failed''"
| "cpu_execution_status_message_v1 ex_resource_exhausted =
     ''CPU execution-context resource allocation failed''"
| "cpu_execution_status_message_v1 ex_affinity_unavailable =
     ''CPU worker affinity is unavailable on this platform''"
| "cpu_execution_status_message_v1 ex_affinity_application_failed =
     ''CPU worker affinity could not be applied completely''"
| "cpu_execution_status_message_v1 (ex_other _) = ''unknown CPU execution-context status''"

fun cpu_worker_affinity_status_message_v1 :: "CpuWorkerAffinityStatusV1 \<Rightarrow> string" where
  "cpu_worker_affinity_status_message_v1 wa_not_requested = ''worker affinity was not requested''"
| "cpu_worker_affinity_status_message_v1 wa_complete = ''worker affinity was applied completely''"
| "cpu_worker_affinity_status_message_v1 wa_invalid_configuration =
     ''worker affinity configuration is invalid''"
| "cpu_worker_affinity_status_message_v1 wa_unavailable =
     ''worker affinity is unavailable on this platform''"
| "cpu_worker_affinity_status_message_v1 wa_application_failed = ''worker affinity application failed''"
| "cpu_worker_affinity_status_message_v1 wa_partially_applied =
     ''worker affinity was only partially applied''"
| "cpu_worker_affinity_status_message_v1 (wa_other _) = ''unknown worker-affinity status''"

section \<open>State of a context\<close>

text \<open>What a callback of the caller does: it may shut its own context down, and it returns a status.
  (A call of \<^verbatim>\<open>run_tasks\<close> from inside a callback is refused before it touches the state.)\<close>

record callback_result =
  cb_requests_shutdown :: bool
  cb_status :: CpuExecutionStatusV1

record task_arguments =
  arg_task_count :: u64
  arg_active_threads :: u32
  arg_nesting_policy :: CpuProviderNestingPolicyV1
  arg_preflight :: "(nat \<Rightarrow> callback_result) option"
  arg_task :: "(u64 \<Rightarrow> nat \<Rightarrow> callback_result) option"

record WorkerResultV1 =
  wr_status :: CpuExecutionStatusV1
  wr_first_failed_task :: u64

definition fresh_result :: WorkerResultV1 where
  "fresh_result = \<lparr>wr_status = ex_success, wr_first_failed_task = u64_max\<rparr>"

record SubmissionV1 =
  sub_id :: nat
  sub_task_count :: u64
  sub_active_threads :: u32
  sub_preflight :: "(nat \<Rightarrow> callback_result) option"
  sub_task :: "u64 \<Rightarrow> nat \<Rightarrow> callback_result"
  sub_completed_preflights :: u32
  sub_preflight_failed :: bool
  sub_completed_workers :: u32

text \<open>Phases of a worker. The word is \<^verbatim>\<open>observed_epoch\<close>, the number is \<^verbatim>\<open>current\<close>.\<close>

datatype worker_phase =
    W_wait u64 \<comment> \<open>about to test the predicate of \<^verbatim>\<open>work_available\<close>\<close>
  | W_asleep u64 \<comment> \<open>blocked on \<^verbatim>\<open>work_available\<close>\<close>
  | W_preflight u64 nat
  | W_preflight_returned u64 nat CpuExecutionStatusV1
  | W_preflight_wait u64 nat \<comment> \<open>about to test the predicate of \<^verbatim>\<open>preflight_complete\<close>\<close>
  | W_preflight_asleep u64 nat \<comment> \<open>blocked on \<^verbatim>\<open>preflight_complete\<close>\<close>
  | W_tasks u64 nat u64 \<comment> \<open>head of the task loop, at a task index\<close>
  | W_finish u64 nat
  | W_notify worker_phase \<comment> \<open>\<^verbatim>\<open>notify_all\<close> of a shutdown requested by a callback\<close>
  | W_exited u64

text \<open>Phases of the caller that holds \<^verbatim>\<open>submission_mutex\<close>.\<close>

datatype caller_phase =
    C_free \<comment> \<open>nobody holds it\<close>
  | C_locked task_arguments
  | C_notify | C_wait | C_asleep
  | C_collect
  | S_locked | S_notify | S_join nat

datatype callback_call = Call_preflight | Call_task u64

record context_state =
  ctx_worker_count :: u32
  ctx_workers_joined :: bool \<comment> \<open>\<^verbatim>\<open>workers.empty()\<close>\<close>
  ctx_submission :: "nat option"
  ctx_frame :: "SubmissionV1 option" \<comment> \<open>the object on the submitter's stack\<close>
  ctx_epoch :: u64
  ctx_stopping :: bool
  ctx_results :: "nat \<Rightarrow> WorkerResultV1"
  ctx_completed_submissions :: u64
  ctx_workers :: "nat \<Rightarrow> worker_phase"
  ctx_caller :: caller_phase
  ctx_submissions :: nat \<comment> \<open>history\<close>
  ctx_calls :: "nat \<Rightarrow> callback_call list" \<comment> \<open>history\<close>
  ctx_last_status :: "CpuExecutionStatusV1 option" \<comment> \<open>history\<close>

definition fresh_context :: "u32 \<Rightarrow> context_state" where
  "fresh_context worker_count =
     \<lparr>ctx_worker_count = worker_count, ctx_workers_joined = False, ctx_submission = None,
      ctx_frame = None, ctx_epoch = 0, ctx_stopping = False, ctx_results = (\<lambda>_. fresh_result),
      ctx_completed_submissions = 0, ctx_workers = (\<lambda>_. W_wait 0), ctx_caller = C_free,
      ctx_submissions = 0, ctx_calls = (\<lambda>_. []), ctx_last_status = None\<rparr>"

text \<open>The checks of \<^verbatim>\<open>run_tasks_with_preflight\<close> before the lock; the flag says that the calling
  thread is a worker of this context.\<close>

definition run_tasks_check :: "u32 \<Rightarrow> bool \<Rightarrow> task_arguments \<Rightarrow> CpuExecutionStatusV1 option" where
  "run_tasks_check worker_count inside_worker a =
    (if arg_task_count a = 0 \<or> arg_active_threads a = 0 \<or> arg_active_threads a > worker_count \<or>
        u32_to_u64 (arg_active_threads a) > arg_task_count a \<or> arg_task a = None
     then Some ex_invalid_configuration
     else if inside_worker then Some ex_invalid_configuration
     else if arg_nesting_policy a = nest_external_provider_active \<and> arg_active_threads a > 1
     then Some ex_nested_parallelism_rejected
     else if arg_nesting_policy a \<noteq> nest_native_only \<and>
             arg_nesting_policy a \<noteq> nest_external_provider_active
     then Some ex_invalid_configuration
     else None)"

section \<open>Steps\<close>

definition deref :: "context_state \<Rightarrow> nat \<Rightarrow> SubmissionV1 option" where
  "deref c p = (case ctx_frame c of Some s \<Rightarrow> if sub_id s = p then Some s else None | None \<Rightarrow> None)"

abbreviation set_phase :: "nat \<Rightarrow> worker_phase \<Rightarrow> context_state \<Rightarrow> context_state" where
  "set_phase w ph c \<equiv> c\<lparr>ctx_workers := (ctx_workers c)(w := ph)\<rparr>"

abbreviation set_result :: "nat \<Rightarrow> WorkerResultV1 \<Rightarrow> context_state \<Rightarrow> context_state" where
  "set_result w r c \<equiv> c\<lparr>ctx_results := (ctx_results c)(w := r)\<rparr>"

abbreviation log_call :: "nat \<Rightarrow> callback_call \<Rightarrow> context_state \<Rightarrow> context_state" where
  "log_call w x c \<equiv> c\<lparr>ctx_calls := (ctx_calls c)(w := ctx_calls c w @ [x])\<rparr>"

text \<open>\<^verbatim>\<open>notify_all\<close> of the condition variables the workers wait on, \<^verbatim>\<open>notify_one\<close> of the
  one the submitter waits on (it is alone there).\<close>

fun wake_phase :: "worker_phase \<Rightarrow> worker_phase" where
  "wake_phase (W_asleep e) = W_wait e"
| "wake_phase ph = ph"

fun wake_preflight_phase :: "worker_phase \<Rightarrow> worker_phase" where
  "wake_preflight_phase (W_preflight_asleep e p) = W_preflight_wait e p"
| "wake_preflight_phase ph = ph"

definition notify_workers :: "context_state \<Rightarrow> context_state" where
  "notify_workers c = c\<lparr>ctx_workers := (\<lambda>w. wake_phase (ctx_workers c w))\<rparr>"

definition notify_preflight :: "context_state \<Rightarrow> context_state" where
  "notify_preflight c = c\<lparr>ctx_workers := (\<lambda>w. wake_preflight_phase (ctx_workers c w))\<rparr>"

definition notify_submitter :: "context_state \<Rightarrow> context_state" where
  "notify_submitter c =
    (case ctx_caller c of C_asleep \<Rightarrow> c\<lparr>ctx_caller := C_wait\<rparr> | _ \<Rightarrow> c)"

text \<open>A callback that shuts its context down sets \<^verbatim>\<open>stopping\<close> in a critical section of its own
  and notifies after it; then the worker goes on as it would have.\<close>

definition after_callback ::
  "nat \<Rightarrow> callback_result \<Rightarrow> worker_phase \<Rightarrow> context_state \<Rightarrow> context_state" where
  "after_callback w r ph c =
    (if cb_requests_shutdown r then set_phase w (W_notify ph) (c\<lparr>ctx_stopping := True\<rparr>)
     else set_phase w ph c)"

text \<open>From the barrier into the task loop, or past it.\<close>

definition past_barrier :: "u64 \<Rightarrow> nat \<Rightarrow> nat \<Rightarrow> SubmissionV1 \<Rightarrow> worker_phase" where
  "past_barrier e p w s =
    (if \<not> sub_preflight_failed s then W_tasks e p (of_nat w) else W_finish e p)"

text \<open>The first critical section of the loop, with the predicate true.\<close>

definition take_work :: "nat \<Rightarrow> u64 \<Rightarrow> context_state \<Rightarrow> context_state option" where
  "take_work w e c =
    (let unseen = (ctx_epoch c \<noteq> e); e' = (if unseen then ctx_epoch c else e) in
     if ctx_stopping c \<and> \<not> unseen then Some (set_phase w (W_exited e) c)
     else let no_work = Some (set_phase w (if ctx_stopping c then W_exited e' else W_wait e') c)
       in if \<not> unseen then no_work
          else case ctx_submission c of
            None \<Rightarrow> no_work
          | Some p \<Rightarrow>
             (case deref c p of
                None \<Rightarrow> None
              | Some s \<Rightarrow>
                 if w < unat (sub_active_threads s)
                 then Some (set_phase w (if sub_preflight s \<noteq> None then W_preflight e' p
                                         else W_tasks e' p (of_nat w)) c)
                 else no_work))"

definition call_preflight :: "nat \<Rightarrow> u64 \<Rightarrow> nat \<Rightarrow> context_state \<Rightarrow> context_state option" where
  "call_preflight w e p c =
    (case deref c p of
       None \<Rightarrow> None
     | Some s \<Rightarrow>
        (case sub_preflight s of
           None \<Rightarrow> None
         | Some preflight \<Rightarrow>
             let r = preflight w
             in Some (after_callback w r (W_preflight_returned e p (cb_status r))
                        (log_call w Call_preflight c))))"

definition leave_preflight ::
  "nat \<Rightarrow> u64 \<Rightarrow> nat \<Rightarrow> CpuExecutionStatusV1 \<Rightarrow> context_state \<Rightarrow> context_state option" where
  "leave_preflight w e p status c =
    (case deref c p of
       None \<Rightarrow> None
     | Some s \<Rightarrow>
         let failed = (status \<noteq> ex_success);
             c = (if failed
                  then set_result w \<lparr>wr_status = status, wr_first_failed_task = 0\<rparr> c else c);
             s = s\<lparr>sub_preflight_failed := (sub_preflight_failed s \<or> failed),
                   sub_completed_preflights := sub_completed_preflights s + 1\<rparr>;
             c = c\<lparr>ctx_frame := Some s\<rparr>
         in if sub_completed_preflights s = sub_active_threads s
            then Some (set_phase w (past_barrier e p w s) (notify_preflight c))
            else Some (set_phase w (W_preflight_asleep e p) c))"

definition test_barrier :: "nat \<Rightarrow> u64 \<Rightarrow> nat \<Rightarrow> context_state \<Rightarrow> context_state option" where
  "test_barrier w e p c =
    (case deref c p of
       None \<Rightarrow> None
     | Some s \<Rightarrow>
         Some (set_phase w (if sub_completed_preflights s = sub_active_threads s
                            then past_barrier e p w s else W_preflight_asleep e p) c))"

definition call_task :: "nat \<Rightarrow> u64 \<Rightarrow> nat \<Rightarrow> u64 \<Rightarrow> context_state \<Rightarrow> context_state option" where
  "call_task w e p i c =
    (case deref c p of
       None \<Rightarrow> None
     | Some s \<Rightarrow>
         if i < sub_task_count s
         then let r = sub_task s i w; c = log_call w (Call_task i) c
           in if cb_status r \<noteq> ex_success
              then Some (after_callback w r (W_finish e p)
                     (set_result w \<lparr>wr_status = cb_status r, wr_first_failed_task = i\<rparr> c))
              else Some (after_callback w r
                     (W_tasks e p (i + u32_to_u64 (sub_active_threads s))) c)
         else Some (set_phase w (W_finish e p) c))"

definition finish_worker :: "nat \<Rightarrow> u64 \<Rightarrow> nat \<Rightarrow> context_state \<Rightarrow> context_state option" where
  "finish_worker w e p c =
    (case deref c p of
       None \<Rightarrow> None
     | Some s \<Rightarrow>
         let s = s\<lparr>sub_completed_workers := sub_completed_workers s + 1\<rparr>;
             c = set_phase w (W_wait e) (c\<lparr>ctx_frame := Some s\<rparr>)
         in Some (if sub_completed_workers s = sub_active_threads s then notify_submitter c else c))"

text \<open>One step of a worker; \<open>None\<close> when it is blocked, has left, or would follow a pointer to an
  object that is gone.\<close>

definition worker_step :: "nat \<Rightarrow> context_state \<Rightarrow> context_state option" where
  "worker_step w c =
    (case ctx_workers c w of
       W_wait e \<Rightarrow>
         if ctx_stopping c \<or> ctx_epoch c \<noteq> e then take_work w e c
         else Some (set_phase w (W_asleep e) c)
     | W_asleep _ \<Rightarrow> None
     | W_preflight e p \<Rightarrow> call_preflight w e p c
     | W_preflight_returned e p status \<Rightarrow> leave_preflight w e p status c
     | W_preflight_wait e p \<Rightarrow> test_barrier w e p c
     | W_preflight_asleep _ _ \<Rightarrow> None
     | W_tasks e p i \<Rightarrow> call_task w e p i c
     | W_finish e p \<Rightarrow> finish_worker w e p c
     | W_notify ph \<Rightarrow> Some (set_phase w ph (notify_workers c))
     | W_exited _ \<Rightarrow> None)"

text \<open>The value \<^verbatim>\<open>run_tasks_with_preflight\<close> computes from the results array.\<close>

definition reduce_result ::
  "(nat \<Rightarrow> WorkerResultV1) \<Rightarrow> nat \<Rightarrow> CpuExecutionStatusV1 \<times> u64 \<Rightarrow> CpuExecutionStatusV1 \<times> u64" where
  "reduce_result results worker acc =
    (if wr_first_failed_task (results worker) < snd acc
     then (wr_status (results worker), wr_first_failed_task (results worker)) else acc)"

definition submission_result :: "context_state \<Rightarrow> u32 \<Rightarrow> CpuExecutionStatusV1" where
  "submission_result c active =
     fst (fold (reduce_result (ctx_results c)) [0..<unat active] (ex_success, u64_max))"

definition publish :: "task_arguments \<Rightarrow> context_state \<Rightarrow> context_state" where
  "publish a c =
     c\<lparr>ctx_frame := Some \<lparr>sub_id = ctx_submissions c, sub_task_count = arg_task_count a,
           sub_active_threads = arg_active_threads a, sub_preflight = arg_preflight a,
           sub_task = the (arg_task a), sub_completed_preflights = 0,
           sub_preflight_failed = False, sub_completed_workers = 0\<rparr>,
       ctx_results := (\<lambda>w. if w < unat (arg_active_threads a) then fresh_result
                           else ctx_results c w),
       ctx_submission := Some (ctx_submissions c),
       ctx_epoch := ctx_epoch c + 1,
       ctx_submissions := ctx_submissions c + 1,
       ctx_calls := (\<lambda>_. []),
       ctx_caller := C_notify\<rparr>"

definition caller_step :: "context_state \<Rightarrow> context_state option" where
  "caller_step c =
    (case ctx_caller c of
       C_free \<Rightarrow> None
     | C_locked a \<Rightarrow>
         if ctx_stopping c
         then Some (c\<lparr>ctx_caller := C_free, ctx_last_status := Some ex_context_stopping\<rparr>)
         else Some (publish a c)
     | C_notify \<Rightarrow> Some ((notify_workers c)\<lparr>ctx_caller := C_wait\<rparr>)
     | C_wait \<Rightarrow>
        (case ctx_frame c of
           None \<Rightarrow> None
         | Some s \<Rightarrow>
             if sub_completed_workers s = sub_active_threads s
             then Some (c\<lparr>ctx_submission := None, ctx_caller := C_collect\<rparr>)
             else Some (c\<lparr>ctx_caller := C_asleep\<rparr>))
     | C_asleep \<Rightarrow> None
     | C_collect \<Rightarrow>
        (case ctx_frame c of
           None \<Rightarrow> None
         | Some s \<Rightarrow>
             Some (c\<lparr>ctx_completed_submissions := ctx_completed_submissions c + 1,
                     ctx_last_status := Some (submission_result c (sub_active_threads s)),
                     ctx_frame := None, ctx_caller := C_free\<rparr>))
     | S_locked \<Rightarrow>
         if ctx_stopping c \<and> ctx_workers_joined c then Some (c\<lparr>ctx_caller := C_free\<rparr>)
         else Some (c\<lparr>ctx_stopping := True, ctx_caller := S_notify\<rparr>)
     | S_notify \<Rightarrow> Some ((notify_workers c)\<lparr>ctx_caller := S_join 0\<rparr>)
     | S_join w \<Rightarrow>
         if ctx_workers_joined c \<or> w \<ge> unat (ctx_worker_count c)
         then Some (c\<lparr>ctx_workers_joined := True, ctx_caller := C_free\<rparr>)
         else (case ctx_workers c w of
                 W_exited _ \<Rightarrow> Some (c\<lparr>ctx_caller := S_join (w + 1)\<rparr>)
               | _ \<Rightarrow> None))"

section \<open>Runs\<close>

text \<open>Steps the context takes by itself.\<close>

inductive internal_step :: "context_state \<Rightarrow> context_state \<Rightarrow> bool" where
  worker: "w < unat (ctx_worker_count c) \<Longrightarrow> worker_step w c = Some c' \<Longrightarrow> internal_step c c'"
| caller: "caller_step c = Some c' \<Longrightarrow> internal_step c c'"

text \<open>What happens from outside: a thread that passed the checks gets the mutex, a thread shuts the
  context down, a wait returns spuriously. Two bounds keep the machine integers of the source from
  wrapping: the epoch (fewer than \<open>2^64\<close> submissions) and the task index, whose last increment
  must stay within \<^verbatim>\<open>size_t\<close>.\<close>

definition admissible :: "context_state \<Rightarrow> task_arguments \<Rightarrow> bool" where
  "admissible c a \<longleftrightarrow> ctx_submissions c + 1 < 2 ^ 64 \<and>
     unat (arg_task_count a) + unat (arg_active_threads a) \<le> 2 ^ 64"

inductive external_step :: "context_state \<Rightarrow> context_state \<Rightarrow> bool" where
  run_tasks: "ctx_caller c = C_free \<Longrightarrow> run_tasks_check (ctx_worker_count c) False a = None \<Longrightarrow>
    admissible c a \<Longrightarrow> external_step c (c\<lparr>ctx_caller := C_locked a\<rparr>)"
| shutdown: "ctx_caller c = C_free \<Longrightarrow> external_step c (c\<lparr>ctx_caller := S_locked\<rparr>)"
| spurious_work: "w < unat (ctx_worker_count c) \<Longrightarrow> ctx_workers c w = W_asleep e \<Longrightarrow>
    external_step c (set_phase w (W_wait e) c)"
| spurious_preflight: "w < unat (ctx_worker_count c) \<Longrightarrow> ctx_workers c w = W_preflight_asleep e p \<Longrightarrow>
    external_step c (set_phase w (W_preflight_wait e p) c)"
| spurious_submitter: "ctx_caller c = C_asleep \<Longrightarrow> external_step c (c\<lparr>ctx_caller := C_wait\<rparr>)"

inductive reachable :: "u32 \<Rightarrow> context_state \<Rightarrow> bool" for n where
  start: "reachable n (fresh_context n)"
| internal: "reachable n c \<Longrightarrow> internal_step c c' \<Longrightarrow> reachable n c'"
| external: "reachable n c \<Longrightarrow> external_step c c' \<Longrightarrow> reachable n c'"

end
