(* ===== verification/ParallelWorkers.thy ===== *)
theory ParallelWorkers
  imports ParallelRun ExecutionContext
begin

text \<open>
  The callback of one worker of a parallel packed GEMM (\<^verbatim>\<open>prepare_b_and_execute_output_partitions\<close>
  of \<^verbatim>\<open>runtime/cpu_parallel_gemm.cpp\<close>) and the concurrent run of all of them on shared memory. A step
  of the model is one access of a worker to the atomics, the preparation of B, or one output task, and a
  schedule is the list of the workers in the order of their steps. A task is one step because the tasks
  write disjoint parts of the memory and read nothing another task writes (\<open>tasks_disjoint\<close>,
  \<open>slices_disjoint\<close>, and \<open>tasks_race_free\<close> of \<^theory_text>\<open>ParallelExecution\<close>).

  \<open>run_ok\<close> is the invariant of a run: it says what the memory holds from the stages of the workers alone.
  \<open>run_work\<close> is what effective steps lower; while a worker has not returned, some worker can go on.
\<close>

section \<open>The callback of a worker\<close>

text \<open>Where a worker is in \<^verbatim>\<open>prepare_b_and_execute_output_partitions\<close>; the word of \<open>wk_task\<close> is the
  loop variable \<^verbatim>\<open>task\<close>.\<close>

datatype worker_stage =
    wk_begin | wk_publish | wk_report_failure | wk_arrive | wk_wait | wk_check | wk_task u64
  | wk_done CpuExecutionStatusV1

text \<open>What the workers share: the memory, the view in the job, the three atomics.\<close>

record 'f run_state =
  run_memory :: "'f fmem"
  run_packed_b :: CpuPackedBViewV1
  run_workers_ready :: u32
  run_pack_failed :: bool
  run_published :: bool
  run_stage :: "nat \<Rightarrow> worker_stage"

definition initial_run :: "'f ParallelGemmJobV1 \<Rightarrow> 'f fmem \<Rightarrow> 'f run_state" where
  "initial_run job mem =
     \<lparr>run_memory = mem, run_packed_b = job_packed_b job, run_workers_ready = 0,
      run_pack_failed = False, run_published = job_parallel_pack_b job,
      run_stage = (\<lambda>_. wk_begin)\<rparr>"

abbreviation go :: "nat \<Rightarrow> worker_stage \<Rightarrow> 'f run_state \<Rightarrow> 'f run_state" where
  "go w stage s \<equiv> s\<lparr>run_stage := (run_stage s)(w := stage)\<rparr>"

text \<open>The dormant cooperative branch: the column panels of one worker, up to the first that fails.\<close>

definition pack_own_panels :: "'f ParallelGemmJobV1 \<Rightarrow> nat \<Rightarrow> 'f fmem \<Rightarrow> bool \<times> 'f fmem" where
  "pack_own_panels job worker_index mem =
    (let n = unat (prob_n (job_problem job)); k = unat (prob_k (job_problem job))
     in fold (\<lambda>panel (failed, mem).
          if failed then (failed, mem)
          else let column_begin = panel * 256;
                   columns = min 256 (n - column_begin)
            in case checked_multiply
                   (size_divide_round_up (of_nat columns) kCpuPackedGemmNrV1 * kCpuPackedGemmNrV1)
                   (of_nat k) of
                 None \<Rightarrow> (True, mem)
               | Some expected_panel_elements \<Rightarrow>
                   let (mem, written) = cpu_pack_b_column_panel_v1 (ops_zero (job_ops job))
                         (slot (job_rhs job)) n k column_begin columns
                         (slot (job_packed_b_destination job) + column_begin * k) mem
                   in (written \<noteq> unat expected_panel_elements, mem))
          (strided worker_index (unat (job_active_threads job)) (unat (job_column_panel_count job)))
          (False, mem))"

definition worker_begins :: "'f ParallelGemmJobV1 \<Rightarrow> nat \<Rightarrow> 'f run_state \<Rightarrow> 'f run_state" where
  "worker_begins job w s =
    (if job_active_threads job = 0 \<or> w \<ge> unat (job_active_threads job) \<or> job_rhs job = 0 \<or>
        job_packed_b_destination job = 0
     then go w (wk_done ex_callback_failed) s
     else if job_parallel_pack_b job
     then let (failed, mem) = pack_own_panels job w (run_memory s)
       in go w (if failed then wk_report_failure else wk_arrive) (s\<lparr>run_memory := mem\<rparr>)
     else if w = 0
     then case ops_prepare_b (job_ops job) (job_problem job) (job_rhs job)
            (job_packed_b_destination job) (pbv_storage_bytes (run_packed_b s)) (run_memory s) of
          (Inl _, mem) \<Rightarrow> go w wk_report_failure (s\<lparr>run_memory := mem\<rparr>)
        | (Inr prepared, mem) \<Rightarrow>
            go w wk_publish (s\<lparr>run_memory := mem, run_packed_b := prepared\<rparr>)
     else go w wk_arrive s)"

text \<open>One turn of the spin loop reads its two flags in one step; the flags only ever rise, and
  \<open>wk_check\<close> reads the first again.\<close>

definition worker_waits :: "'f ParallelGemmJobV1 \<Rightarrow> 'f run_state \<Rightarrow> bool" where
  "worker_waits job s \<longleftrightarrow> \<not> run_pack_failed s \<and>
     (if job_parallel_pack_b job then run_workers_ready s \<noteq> job_active_threads job
      else \<not> run_published s)"

definition worker_checks :: "'f ParallelGemmJobV1 \<Rightarrow> nat \<Rightarrow> 'f run_state \<Rightarrow> 'f run_state" where
  "worker_checks job w s =
    (if run_pack_failed s then go w (wk_done ex_callback_failed) s
     else if \<not> validate_task_plan_and_packed_b (job_problem job) (job_rhs job) (job_out job)
            (plan_cpu_parallel_tasks_v1 (job_problem job) (job_active_threads job)) (run_packed_b s)
     then go w (wk_done ex_callback_failed) s
     else go w (wk_task (of_nat w)) s)"

definition worker_runs_task :: "'f ParallelGemmJobV1 \<Rightarrow> nat \<Rightarrow> u64 \<Rightarrow> 'f run_state \<Rightarrow> 'f run_state" where
  "worker_runs_task job w t s =
    (if t < job_task_count job
     then let (ok, mem) = execute_output_partition job (run_packed_b s) t (of_nat w) (run_memory s)
       in go w (if ok then wk_task (t + u32_to_u64 (job_active_threads job))
                else wk_done ex_callback_failed) (s\<lparr>run_memory := mem\<rparr>)
     else go w (wk_done ex_success) s)"

definition run_step :: "'f ParallelGemmJobV1 \<Rightarrow> nat \<Rightarrow> 'f run_state \<Rightarrow> 'f run_state" where
  "run_step job w s =
    (case run_stage s w of
       wk_begin \<Rightarrow> worker_begins job w s
     | wk_publish \<Rightarrow> go w wk_arrive (s\<lparr>run_published := True\<rparr>)
     | wk_report_failure \<Rightarrow> go w wk_arrive (s\<lparr>run_pack_failed := True\<rparr>)
     | wk_arrive \<Rightarrow> go w wk_wait (s\<lparr>run_workers_ready := run_workers_ready s + 1\<rparr>)
     | wk_wait \<Rightarrow> if worker_waits job s then s else go w wk_check s
     | wk_check \<Rightarrow> worker_checks job w s
     | wk_task t \<Rightarrow> worker_runs_task job w t s
     | wk_done _ \<Rightarrow> s)"

text \<open>A schedule names the worker of each step.\<close>

definition run_schedule :: "'f ParallelGemmJobV1 \<Rightarrow> nat list \<Rightarrow> 'f fmem \<Rightarrow> 'f run_state" where
  "run_schedule job schedule mem = fold (run_step job) schedule (initial_run job mem)"

fun is_done :: "worker_stage \<Rightarrow> bool" where
  "is_done (wk_done _) = True"
| "is_done _ = False"

definition all_done :: "'f ParallelGemmJobV1 \<Rightarrow> 'f run_state \<Rightarrow> bool" where
  "all_done job s \<longleftrightarrow> list_all (\<lambda>w. is_done (run_stage s w)) [0..<unat (job_active_threads job)]"

definition returned_status :: "worker_stage \<Rightarrow> CpuExecutionStatusV1" where
  "returned_status stage = (case stage of wk_done status \<Rightarrow> status | _ \<Rightarrow> ex_callback_failed)"

section \<open>The workers' own checks\<close>

lemma planned_plan:
  assumes "planned job threads"
  defines "p \<equiv> plan_cpu_parallel_tasks_v1 (job_problem job) (job_active_threads job)"
  shows "p = plan_cpu_parallel_tasks_v1 (job_problem job) threads"
    "ptp_row_quantum p = job_row_quantum job" "ptp_row_group_count p = job_row_group_count job"
    "ptp_row_task_count p = job_row_task_count job" "ptp_column_panel_count p = job_column_panel_count job"
    "ptp_column_task_count p = job_column_task_count job" "ptp_task_count p = job_task_count job"
    "ptp_actual_threads p = job_active_threads job"
proof -
  show p: "p = plan_cpu_parallel_tasks_v1 (job_problem job) threads"
    using assms(1) plan_stable [of "job_problem job" threads] by (simp add: planned_def Let_def p_def)
  show "ptp_row_quantum p = job_row_quantum job" "ptp_row_group_count p = job_row_group_count job"
    "ptp_row_task_count p = job_row_task_count job" "ptp_column_panel_count p = job_column_panel_count job"
    "ptp_column_task_count p = job_column_task_count job" "ptp_task_count p = job_task_count job"
    "ptp_actual_threads p = job_active_threads job"
    using assms(1) unfolding p by (simp_all add: planned_def Let_def)
qed

lemma aligned_64:
  assumes "packed_problem problem" "prob_minimum_alignment_bytes problem \<ge> 64"
    and "unat (prob_minimum_alignment_bytes problem) dvd unat p" "p \<noteq> 0"
  shows "pointer_has_alignment p 64"
proof -
  obtain e where e: "unat (prob_minimum_alignment_bytes problem) = 2 ^ e"
    using assms(1) by (auto simp: packed_problem_def)
  have "(2::nat) ^ 6 \<le> 2 ^ e" using assms(2) by (simp add: word_le_nat_alt e)
  then have "6 \<le> e" by (simp only: power_increasing_iff)
  then have "(64::nat) dvd 2 ^ e" using le_imp_power_dvd [of 6 e "2::nat"] by simp
  then have "64 dvd unat p" using assms(3) by (simp add: e dvd_trans)
  then show ?thesis using assms(4) by (simp add: pointer_has_alignment_iff)
qed

lemma plan_check_ok:
  assumes ready: "ready_job job threads bytes"
  shows "validate_task_plan_and_packed_b (job_problem job) (job_rhs job) (job_out job)
    (plan_cpu_parallel_tasks_v1 (job_problem job) (job_active_threads job)) (prepared_view job)"
proof -
  note f = ready_facts [OF ready] and p = planned_plan [OF ready_facts(1) [OF ready]]
    and q = planned_facts [OF ready_facts(1) [OF ready]]
  let ?P = "job_problem job" let ?n = "unat (prob_n ?P)" and ?k = "unat (prob_k ?P)"
  have nonzero: "job_row_quantum job \<noteq> 0" "job_row_group_count job \<noteq> 0" "job_row_task_count job \<noteq> 0"
    "job_column_panel_count job \<noteq> 0" "job_column_task_count job \<noteq> 0" "job_active_threads job \<noteq> 0"
    using q(1-5,8,9) by auto
  have columns: "prob_n ?P mod kCpuParallelCacheLineFloatCountV1 = 0 \<and>
      \<not> prob_minimum_alignment_bytes ?P < 64 \<and> pointer_has_alignment (job_out job) 64"
    if "job_column_task_count job > 1"
  proof -
    have ok: "task_problem_ok ?P threads" using f(1) by (simp add: planned_def Let_def)
    have "job_column_task_count job \<noteq> 1" using that by auto
    then have safe: "column_safe ?P"
      using task_plan_facts(6) [OF ok] p(6) unfolding p(1) by simp
    have "16 dvd ?n" using safe ok unat_positive_dim [of "prob_n ?P"] by (simp add: column_safe_def task_problem_ok_def)
    then have "unat (prob_n ?P mod 16) = 0" by (simp add: unat_mod)
    then have "prob_n ?P mod 16 = 0" by (simp only: unat_eq_0)
    moreover have "pointer_has_alignment (job_out job) 64"
      using safe f(3) by (intro aligned_64 [OF f(2)]) (simp_all add: column_safe_def tensors_ok_def placed_def)
    ultimately show ?thesis using safe by (simp add: column_safe_def task_constants not_less)
  qed
  have e: "b_image_elements ?P = round_up ?n 16 * ?k" by (simp add: b_image_elements_def)
  have lt: "round_up ?n 16 * ?k * 4 < 2 ^ 64"
    using f(6) b_image_bounds(1) [of ?P] unfolding e by linarith
  have pos: "0 < ?k" "0 < round_up ?n 16" using q(14,15) round_up_bounds(1) [of 16 ?n] by simp_all
  have "round_up ?n 16 * 1 \<le> round_up ?n 16 * ?k" using pos by (intro mult_le_mono2) simp
  then have r: "round_up ?n 16 < 2 ^ 64" using lt by linarith
  have up: "checked_align_up (prob_n ?P) kCpuPackedGemmNrV1 = Some (of_nat (round_up ?n 16))"
    using round_up_word [of 16 "prob_n ?P"] r by (simp add: packed_constants align_up)
  have elements: "checked_multiply (of_nat (round_up ?n 16)) (prob_k ?P) = Some (of_nat (b_image_elements ?P))"
  proof -
    have "round_up ?n 16 * ?k < 2 ^ 64" using lt by linarith
    from checked_multiply_nat [OF this pos(2,1)] show ?thesis by (simp add: e del: of_nat_mult)
  qed
  have bytes: "checked_multiply (of_nat (b_image_elements ?P)) sizeof_float = Some (of_nat (b_image_elements ?P * 4))"
  proof -
    have "b_image_elements ?P * 4 < 2 ^ 64" "0 < b_image_elements ?P" using lt pos by (simp_all add: e)
    from checked_multiply_nat [OF this, simplified] show ?thesis by (simp add: sizeof_float_def)
  qed
  have "of_nat (b_image_elements ?P * 4) \<le> (of_nat (b_image_total ?P) :: u64)"
    using image_words(1,3) [OF f(6)] b_image_bounds(1) [of ?P] by (simp only: word_le_nat_alt)
  moreover have "job_rhs job \<noteq> 0" "job_workspace job \<noteq> 0" "job_workspace job mod 64 = 0"
  proof -
    show "job_rhs job \<noteq> 0" "job_workspace job \<noteq> 0" using f(3,4) by (simp_all add: tensors_ok_def placed_def workspace_ok_def)
    have "unat (job_workspace job mod 64) = 0" using f(4) by (simp add: workspace_ok_def unat_mod)
    then show "job_workspace job mod 64 = 0" by (simp only: unat_eq_0)
  qed
  ultimately have "cpu_validate_packed_b_view_metadata_v1 ?P (prepared_view job)
      (of_nat (b_image_elements ?P * 4)) (of_nat (b_image_elements ?P))"
    unfolding made_view_metadata by simp
  moreover define plan where "plan = plan_cpu_parallel_tasks_v1 ?P (job_active_threads job)"
  note fields = p(2-8) [folded plan_def]
  ultimately show ?thesis
    unfolding plan_def [symmetric] validate_task_plan_and_packed_b_def Let_def fields
    using nonzero columns by (simp add: plan_def [symmetric] up elements bytes del: of_nat_mult)
qed
section \<open>What one step leaves in memory\<close>

lemma image_at_agree:
  assumes "image_at orig rhs n k pb m" "agree R m m'" "R \<inter> panel pb (round_up n 16 * k) = {}"
  shows "image_at orig rhs n k pb m'"
  unfolding image_at_def
proof (intro allI impI)
  fix j p assume "j < n" "p < k"
  then have "pb + image_slot n k j p \<in> panel pb (round_up n 16 * k)"
    using image_slot_inside by (simp add: panel_def)
  then show "m' (pb + image_slot n k j p) = orig (rhs + (p * n + j))"
    using assms \<open>j < n\<close> \<open>p < k\<close> agreeD [OF assms(2), of "pb + image_slot n k j p"]
    by (auto simp: image_at_def)
qed

lemma image_at_reread:
  assumes "image_at orig rhs n k pb m" "\<And>x. x \<in> panel rhs (k * n) \<Longrightarrow> m x = orig x"
  shows "image_at m rhs n k pb m"
  using assms in_matrix [of _ k _ n rhs] by (simp add: image_at_def)

abbreviation rows_of :: "'f ParallelGemmJobV1 \<Rightarrow> nat" where "rows_of job \<equiv> unat (prob_m (job_problem job))"
abbreviation columns_of :: "'f ParallelGemmJobV1 \<Rightarrow> nat" where "columns_of job \<equiv> unat (prob_n (job_problem job))"
abbreviation depth_of :: "'f ParallelGemmJobV1 \<Rightarrow> nat" where "depth_of job \<equiv> unat (prob_k (job_problem job))"
abbreviation workers_of :: "'f ParallelGemmJobV1 \<Rightarrow> nat" where "workers_of job \<equiv> unat (job_active_threads job)"

text \<open>The slots the job may write: the arena and the output.\<close>

definition job_slots :: "'f ParallelGemmJobV1 \<Rightarrow> nat set" where
  "job_slots job = arena_slots (job_problem job) (job_workspace job) (job_active_threads job) \<union>
     panel (slot (job_out job)) (rows_of job * columns_of job)"

abbreviation holds_image :: "'f ParallelGemmJobV1 \<Rightarrow> 'f fmem \<Rightarrow> 'f fmem \<Rightarrow> bool" where
  "holds_image job orig mem \<equiv>
     image_at orig (slot (job_rhs job)) (columns_of job) (depth_of job) (slot (job_workspace job)) mem"

text \<open>The task of a worker succeeds unless it is a band that is not aligned.\<close>

definition task_succeeds :: "'f ParallelGemmJobV1 \<Rightarrow> nat \<Rightarrow> bool" where
  "task_succeeds job w = (if job_column_task_count job = 1 then band_aligned job (of_nat w) else True)"

text \<open>The cells of the tasks in \<open>fin\<close> are computed, all others untouched.\<close>

definition cells_after :: "'f fma_ops \<Rightarrow> 'f ParallelGemmJobV1 \<Rightarrow> 'f fmem \<Rightarrow> (nat \<Rightarrow> bool) \<Rightarrow> 'f fmem \<Rightarrow> bool" where
  "cells_after F job orig fin mem \<longleftrightarrow>
    (\<forall>i < rows_of job. \<forall>j < columns_of job. \<forall>w < workers_of job. in_task job (of_nat w) i j \<longrightarrow>
       mem (slot (job_out job) + (i * columns_of job + j)) =
         (if fin w \<and> task_succeeds job w
          then gemm_cell F orig (slot (job_lhs job)) (slot (job_rhs job)) (depth_of job) (columns_of job) i j
          else orig (slot (job_out job) + (i * columns_of job + j))))"

lemma inputs_kept:
  assumes ready: "ready_job job threads bytes" and a: "agree (job_slots job) orig mem"
  shows "x \<in> panel (slot (job_lhs job)) (rows_of job * depth_of job) \<Longrightarrow> mem x = orig x"
    "x \<in> panel (slot (job_rhs job)) (depth_of job * columns_of job) \<Longrightarrow> mem x = orig x"
proof -
  note f = ready_facts [OF ready]
  have arena: "arena_ok (job_problem job) (job_lhs job) (job_rhs job) (job_out job) (job_workspace job)
      (job_active_threads job) bytes" using ready by (simp add: ready_job_def)
  note apart = arena_apart [OF f(2) arena] tensors_slots(1,2) [OF f(2,3)]
  show "x \<in> panel (slot (job_lhs job)) (rows_of job * depth_of job) \<Longrightarrow> mem x = orig x"
    "x \<in> panel (slot (job_rhs job)) (depth_of job * columns_of job) \<Longrightarrow> mem x = orig x"
    using apart agreeD [OF a, of x] unfolding job_slots_def by blast+
qed

lemma worker_word:
  assumes "w < unat (T :: u32)"
  shows "unat (of_nat w :: u64) = w"
  using assms less_trans [OF _ unat_lt32 [of T], of w] by (intro unat_of_nat64) simp

lemma tasks_per_worker:
  assumes "ready_job job threads bytes"
  shows "unat (job_task_count job) = workers_of job"
  using planned_facts(9) [OF ready_facts(1) [OF assms]] .

lemma task_rect_at:
  assumes "j < columns_of job"
  shows "task_rect F job t orig mem (slot (job_out job) + (i * columns_of job + j)) =
    (if in_task job t i j
     then gemm_cell F orig (slot (job_lhs job)) (slot (job_rhs job)) (depth_of job) (columns_of job) i j
     else mem (slot (job_out job) + (i * columns_of job + j)))"
  using rect_at [OF assms, where at = "slot (job_out job)" and i = i and m = mem]
  by (simp add: task_rect_def in_task_def Let_def add.assoc)

lemma task_rect_outside:
  assumes "ready_job job threads bytes" "unat t < unat (job_task_count job)"
    and "x \<notin> panel (slot (job_out job)) (rows_of job * columns_of job)"
  shows "task_rect F job t orig mem x = mem x"
proof -
  note q = rectangle_facts(2,4) [OF assms(1,2)]
  let ?r = "task_rectangle job t"
  have "\<not> in_rect (slot (job_out job)) (columns_of job) (unat (tr_row_begin ?r))
      (unat (tr_row_begin ?r) + unat (tr_rows ?r)) (unat (tr_column_begin ?r)) (unat (tr_column_end ?r)) x"
    using rect_in_matrix [OF _ q] assms(3) by blast
  then show ?thesis by (simp add: task_rect_def Let_def rect_outside)
qed

locale parallel_backend = packed_backend block backend usable
  for block :: "'f block_routine" and backend and usable +
  assumes backend_prepare: "cpu_validate_prepare_packed_b_avx2_v1 problem rhs storage bytes = Inr view \<Longrightarrow>
    \<exists>mem1. ops_prepare_b (backend F) problem rhs storage bytes mem = (Inr view, mem1) \<and>
      agree (panel (slot storage) (b_image_elements problem)) mem mem1 \<and>
      image_at mem (slot rhs) (unat (prob_n problem)) (unat (prob_k problem)) (slot storage) mem1"

lemma prepare_law:
  assumes "prepare \<in> {cpu_prepare_packed_b_avx2_v1, cpu_prepare_packed_b_avx512_v1}"
    and valid: "cpu_validate_prepare_packed_b_avx2_v1 problem rhs storage bytes = Inr view"
  shows "\<exists>mem1. prepare F problem rhs storage bytes mem = (Inr view, mem1) \<and>
      agree (panel (slot storage) (b_image_elements problem)) mem mem1 \<and>
      image_at mem (slot rhs) (unat (prob_n problem)) (unat (prob_k problem)) (slot storage) mem1"
proof -
  have "prepare_avx512_checks problem rhs storage bytes = Inr ()"
    using prepare_avx512_agrees [of problem rhs storage bytes] valid by blast
  then obtain view' mem1 where run: "prepare F problem rhs storage bytes mem = (Inr view', mem1)"
    using assms
    by (auto simp: cpu_prepare_packed_b_avx2_v1_def cpu_prepare_packed_b_avx512_v1_def Let_def case_prod_beta)
  note r = prepare_results [OF assms(1) run]
  then show ?thesis using run valid by auto
qed

interpretation avx2_parallel: parallel_backend compute_block "kPackedAvx2Ops usable" usable for usable
  by unfold_locales (simp add: kPackedAvx2Ops_def prepare_law)

interpretation avx512_parallel: parallel_backend compute_block_avx512 "kPackedAvx512Ops usable" usable for usable
  by unfold_locales (simp add: kPackedAvx512Ops_def prepare_law)

context parallel_backend
begin

lemma partition_effect:
  fixes F :: "'f fma_ops" and orig mem :: "'f fmem"
  assumes ready: "ready_job job threads bytes" and ops: "job_ops job = backend F" and usable
    and w: "w < workers_of job" and a: "agree (job_slots job) orig mem" and image: "holds_image job orig mem"
    and cells: "cells_after F job orig fin mem"
  shows "\<exists>mem'. execute_output_partition job (prepared_view job) (of_nat w) (of_nat w) mem =
      (task_succeeds job w, mem') \<and> agree (job_slots job) orig mem' \<and> holds_image job orig mem' \<and>
      cells_after F job orig (fin(w := True)) mem'"
proof -
  note f = ready_facts [OF ready]
  have u: "unat (of_nat w :: u64) = w" using worker_word [OF w] .
  have t: "unat (of_nat w :: u64) < unat (job_task_count job)"
    using w tasks_per_worker [OF ready] u by simp
  show ?thesis
  proof (cases "task_succeeds job w")
    case False
    then have "job_column_task_count job = 1" "\<not> band_aligned job (of_nat w)"
      by (simp_all add: task_succeeds_def split: if_splits)
    from misaligned_band_fails [OF ready t w ops this] False
    have run: "execute_output_partition job (prepared_view job) (of_nat w) (of_nat w) mem = (False, mem)" by simp
    have "cells_after F job orig (fin(w := True)) mem"
      using cells False by (simp add: cells_after_def)
    then show ?thesis using run False a image by (intro exI [of _ mem]) simp
  next
    case True
    have "holds_image job mem mem"
      using image inputs_kept(2) [OF ready a] by (rule image_at_reread)
    moreover have "job_column_task_count job = 1 \<Longrightarrow> band_aligned job (of_nat w)"
      using True by (simp add: task_succeeds_def)
    ultimately obtain mem' where run: "execute_output_partition job (prepared_view job) (of_nat w) (of_nat w) mem =
        (True, mem')"
      and eff: "agree (slice_panel (job_problem job) (job_workspace job) w) (task_rect F job (of_nat w) mem mem) mem'"
      using output_partition_result [OF ready t w ops \<open>usable\<close>, of mem] by blast
    have arena: "arena_ok (job_problem job) (job_lhs job) (job_rhs job) (job_out job) (job_workspace job)
        (job_active_threads job) bytes" using ready by (simp add: ready_job_def)
    note slice = slice_in_arena [OF w, of "job_problem job" "job_workspace job"]
    note apart = arena_apart(1) [OF f(2) arena]
    have outside: "mem' x = mem x"
      if "x \<notin> panel (slot (job_out job)) (rows_of job * columns_of job)"
        "x \<notin> slice_panel (job_problem job) (job_workspace job) w" for x
      using agreeD [OF eff that(2)] task_rect_outside [OF ready t that(1)] by simp
    have "mem' x = orig x" if "x \<notin> job_slots job" for x
      using outside [of x] agreeD [OF a that] that slice by (auto simp: job_slots_def)
    then have 1: "agree (job_slots job) orig mem'" by (simp add: agree_def)
    have e: "b_image_elements (job_problem job) = round_up (columns_of job) 16 * depth_of job"
      by (simp add: b_image_elements_def)
    have R: "agree (panel (slot (job_out job)) (rows_of job * columns_of job) \<union>
        slice_panel (job_problem job) (job_workspace job) w) mem mem'"
      using outside by (simp add: agree_def)
    have "(panel (slot (job_out job)) (rows_of job * columns_of job) \<union>
        slice_panel (job_problem job) (job_workspace job) w) \<inter>
        panel (slot (job_workspace job)) (round_up (columns_of job) 16 * depth_of job) = {}"
      using slice_image_disjoint [of "job_problem job" "job_workspace job" w]
        image_in_arena [of "job_problem job" "job_workspace job" "job_active_threads job"] apart
      unfolding image_panel_def e by blast
    then have 2: "holds_image job orig mem'" by (rule image_at_agree [OF image R])
    have "mem' (slot (job_out job) + (i * columns_of job + j)) =
        (if (fin(w := True)) v \<and> task_succeeds job v
          then gemm_cell F orig (slot (job_lhs job)) (slot (job_rhs job)) (depth_of job) (columns_of job) i j
          else orig (slot (job_out job) + (i * columns_of job + j)))"
      if ij: "i < rows_of job" "j < columns_of job" and v: "v < workers_of job" "in_task job (of_nat v) i j" for i j v
    proof -
      let ?x = "slot (job_out job) + (i * columns_of job + j)"
      have "?x \<in> panel (slot (job_out job)) (rows_of job * columns_of job)" by (rule in_matrix [OF ij])
      then have "?x \<notin> slice_panel (job_problem job) (job_workspace job) w" using apart slice by blast
      then have x: "mem' ?x = (if in_task job (of_nat w) i j
          then gemm_cell F mem (slot (job_lhs job)) (slot (job_rhs job)) (depth_of job) (columns_of job) i j
          else mem ?x)"
        using agreeD [OF eff] task_rect_at [OF ij(2)] by metis
      have same: "gemm_cell F mem (slot (job_lhs job)) (slot (job_rhs job)) (depth_of job) (columns_of job) i j =
          gemm_cell F orig (slot (job_lhs job)) (slot (job_rhs job)) (depth_of job) (columns_of job) i j"
        by (rule gemm_cell_cong [OF inputs_kept [OF ready a] ij])
      show ?thesis
      proof (cases "v = w")
        case True
        then show ?thesis using x v(2) same \<open>task_succeeds job w\<close> by simp
      next
        case False
        have "\<not> in_task job (of_nat w) i j"
        proof
          assume "in_task job (of_nat w) i j"
          moreover have "unat (of_nat v :: u64) < unat (job_task_count job)"
            using v(1) tasks_per_worker [OF ready] worker_word [OF v(1)] by simp
          ultimately have "(of_nat v :: u64) = of_nat w" using tasks_disjoint [OF f(1) _ t v(2)] by blast
          then show False using False u worker_word [OF v(1)] by metis
        qed
        then show ?thesis using x False cells ij v by (simp add: cells_after_def)
      qed
    qed
    then have "cells_after F job orig (fin(w := True)) mem'" unfolding cells_after_def by blast
    then show ?thesis using run True 1 2 by metis
  qed
qed

lemma preparation_effect:
  fixes F :: "'f fma_ops" and orig :: "'f fmem"
  assumes ready: "ready_job job threads bytes" and ops: "job_ops job = backend F"
  shows "\<exists>mem'. ops_prepare_b (job_ops job) (job_problem job) (job_rhs job) (job_packed_b_destination job)
      (pbv_storage_bytes (job_packed_b job)) orig = (Inr (prepared_view job), mem') \<and>
      agree (job_slots job) orig mem' \<and> holds_image job orig mem' \<and> cells_after F job orig (\<lambda>_. False) mem'"
proof -
  note f = ready_facts [OF ready]
  have arena: "arena_ok (job_problem job) (job_lhs job) (job_rhs job) (job_out job) (job_workspace job)
      (job_active_threads job) bytes" using ready by (simp add: ready_job_def)
  have e: "job_packed_b_destination job = job_workspace job"
    "pbv_storage_bytes (job_packed_b job) = of_nat (b_image_total (job_problem job))"
    using ready by (simp_all add: ready_job_def)
  obtain mem' where run: "ops_prepare_b (backend F) (job_problem job) (job_rhs job) (job_workspace job)
      (of_nat (b_image_total (job_problem job))) orig = (Inr (prepared_view job), mem')"
    and eff: "agree (panel (slot (job_workspace job)) (b_image_elements (job_problem job))) orig mem'"
    and image: "holds_image job orig mem'"
    using backend_prepare [OF prepared_view_fits [OF ready]] by blast
  note image_in = image_in_arena [of "job_problem job" "job_workspace job" "job_active_threads job",
      unfolded image_panel_def]
  have "panel (slot (job_workspace job)) (b_image_elements (job_problem job)) \<subseteq> job_slots job"
    unfolding job_slots_def by (rule subset_trans [OF image_in Un_upper1])
  then have 1: "agree (job_slots job) orig mem'" by (rule agree_mono [OF eff])
  have "mem' (slot (job_out job) + (i * columns_of job + j)) = orig (slot (job_out job) + (i * columns_of job + j))"
    if "i < rows_of job" "j < columns_of job" for i j
    using in_matrix [OF that, of "slot (job_out job)"] arena_apart(1) [OF f(2) arena] image_in
    by (intro agreeD [OF eff]) blast
  then have "cells_after F job orig (\<lambda>_. False) mem'" by (simp add: cells_after_def)
  then show ?thesis using run e 1 image unfolding ops by auto
qed

end
section \<open>The invariant of a run\<close>

fun stage_ok :: "'f ParallelGemmJobV1 \<Rightarrow> bool \<Rightarrow> nat \<Rightarrow> worker_stage \<Rightarrow> bool" where
  "stage_ok job published w wk_begin = True"
| "stage_ok job published w wk_publish = (w = 0)"
| "stage_ok job published w wk_report_failure = False"
| "stage_ok job published w wk_arrive = True"
| "stage_ok job published w wk_wait = True"
| "stage_ok job published w wk_check = published"
| "stage_ok job published w (wk_task t) =
     (published \<and> (unat t = w \<or> task_succeeds job w \<and> unat t = w + workers_of job))"
| "stage_ok job published w (wk_done status) =
     (published \<and> status = (if task_succeeds job w then ex_success else ex_callback_failed))"

fun past_task :: "nat \<Rightarrow> worker_stage \<Rightarrow> bool" where
  "past_task w (wk_task t) = (unat t \<noteq> w)"
| "past_task w (wk_done _) = True"
| "past_task w _ = False"

definition run_ok :: "'f fma_ops \<Rightarrow> 'f ParallelGemmJobV1 \<Rightarrow> 'f fmem \<Rightarrow> 'f run_state \<Rightarrow> bool" where
  "run_ok F job orig s \<longleftrightarrow>
     \<not> run_pack_failed s \<and> (\<forall>w < workers_of job. stage_ok job (run_published s) w (run_stage s w)) \<and>
     (\<forall>w \<ge> workers_of job. run_stage s w = wk_begin \<or> is_done (run_stage s w)) \<and>
     (run_published s \<longleftrightarrow> run_stage s 0 \<notin> {wk_begin, wk_publish}) \<and>
     (if run_stage s 0 = wk_begin then run_packed_b s = job_packed_b job \<and> run_memory s = orig
      else run_packed_b s = prepared_view job \<and> holds_image job orig (run_memory s)) \<and>
     agree (job_slots job) orig (run_memory s) \<and>
     cells_after F job orig (\<lambda>w. past_task w (run_stage s w)) (run_memory s)"

lemma cells_after_cong:
  assumes "\<And>w. w < workers_of job \<Longrightarrow> f w = g w"
  shows "cells_after F job orig f mem = cells_after F job orig g mem"
  using assms by (simp add: cells_after_def)

text \<open>A step that moves one worker from a stage before its task to another such stage.\<close>

lemma run_ok_move:
  assumes "run_ok F job orig s" "w < workers_of job" "stage_ok job (run_published s) w stage"
    and "\<not> past_task w (run_stage s w)" "\<not> past_task w stage"
    and "w = 0 \<Longrightarrow> run_stage s 0 \<notin> {wk_begin, wk_publish} \<and> stage \<notin> {wk_begin, wk_publish}"
  shows "run_ok F job orig (go w stage s)" "run_ok F job orig (go w stage (s\<lparr>run_workers_ready := r\<rparr>))"
proof -
  have "cells_after F job orig (\<lambda>v. past_task v (((run_stage s)(w := stage)) v)) (run_memory s) =
      cells_after F job orig (\<lambda>v. past_task v (run_stage s v)) (run_memory s)"
    using assms(4,5) by (intro cells_after_cong) simp
  then show "run_ok F job orig (go w stage s)" "run_ok F job orig (go w stage (s\<lparr>run_workers_ready := r\<rparr>))"
    using assms unfolding run_ok_def by (auto split: if_splits)
qed

context parallel_backend
begin

lemma run_ok_initial:
  assumes ready: "ready_job job threads bytes"
  shows "run_ok F job orig (initial_run job orig)"
  using assms by (simp add: run_ok_def initial_run_def ready_job_def cells_after_def)

lemma run_ok_step:
  fixes F :: "'f fma_ops" and orig :: "'f fmem"
  assumes ready: "ready_job job threads bytes" and ops: "job_ops job = backend F" and usable
    and ok: "run_ok F job orig s"
  shows "run_ok F job orig (run_step job w s)"
proof (cases "w < workers_of job")
  case False
  have "w \<noteq> 0" using False planned_facts(1,2,8,9) [OF ready_facts(1) [OF ready]] by (metis mult_eq_0_iff neq0_conv not_less_zero)
  have "cells_after F job orig (\<lambda>v. past_task v (((run_stage s)(w := stage)) v)) (run_memory s) =
      cells_after F job orig (\<lambda>v. past_task v (run_stage s v)) (run_memory s)" for stage
    using False by (intro cells_after_cong) simp
  then have "run_ok F job orig (go w (wk_done ex_callback_failed) s)"
    using ok False \<open>w \<noteq> 0\<close> unfolding run_ok_def by auto
  moreover have "run_stage s w = wk_begin \<or> is_done (run_stage s w)" using ok False by (simp add: run_ok_def)
  then have "run_step job w s = go w (wk_done ex_callback_failed) s \<or> run_step job w s = s"
    using False by (cases "run_stage s w") (simp_all add: run_step_def worker_begins_def)
  ultimately show ?thesis using ok by metis
next
  case True
  note f = ready_facts [OF ready] and inside = True
  have given: "\<not> (job_active_threads job = 0 \<or> w \<ge> workers_of job \<or> job_rhs job = 0 \<or> job_packed_b_destination job = 0)"
    "\<not> job_parallel_pack_b job"
    using True ready f(3,4) by (auto simp: ready_job_def tensors_ok_def placed_def workspace_ok_def)
  have s: "stage_ok job (run_published s) w (run_stage s w)" "\<not> run_pack_failed s"
    "run_published s \<longleftrightarrow> run_stage s 0 \<notin> {wk_begin, wk_publish}"
    using ok True unfolding run_ok_def by blast+
  show ?thesis
  proof (cases "run_stage s w")
    case wk_begin
    show ?thesis
    proof (cases "w = 0")
      case True
      then have at: "run_stage s 0 = wk_begin" "run_packed_b s = job_packed_b job" "run_memory s = orig"
        using ok wk_begin by (simp_all add: run_ok_def)
      obtain mem' where run: "ops_prepare_b (job_ops job) (job_problem job) (job_rhs job) (job_packed_b_destination job)
          (pbv_storage_bytes (job_packed_b job)) orig = (Inr (prepared_view job), mem')"
        and eff: "agree (job_slots job) orig mem'" "holds_image job orig mem'" "cells_after F job orig (\<lambda>_. False) mem'"
        using preparation_effect [OF ready ops] by blast
      have before: "\<not> past_task v (run_stage s v)" if "v < workers_of job" for v
        using ok that at(1) unfolding run_ok_def by (cases "run_stage s v") auto
      have step: "run_step job w s = go 0 wk_publish (s\<lparr>run_memory := mem', run_packed_b := prepared_view job\<rparr>)"
        using given run at True by (simp add: run_step_def worker_begins_def)
      have "cells_after F job orig (\<lambda>v. past_task v (((run_stage s)(0 := wk_publish)) v)) mem'"
        using eff(3) before by (subst cells_after_cong [where g = "\<lambda>_. False"]) simp_all
      then show ?thesis
        unfolding step using ok eff at inside True by (auto simp: run_ok_def)
    next
      case False
      have step: "run_step job w s = go w wk_arrive s"
        using given wk_begin False by (simp add: run_step_def worker_begins_def)
      show ?thesis unfolding step using ok inside wk_begin False by (intro run_ok_move) simp_all
    qed
  next
    case wk_publish
    then have w: "w = 0" using s(1) by simp
    have step: "run_step job w s = go 0 wk_arrive (s\<lparr>run_published := True\<rparr>)"
      using wk_publish w by (simp add: run_step_def)
    have stages: "stage_ok job True v (run_stage s v)" if "v < workers_of job" for v
      using ok that unfolding run_ok_def by (cases "run_stage s v") auto
    have "cells_after F job orig (\<lambda>v. past_task v (((run_stage s)(0 := wk_arrive)) v)) (run_memory s) =
        cells_after F job orig (\<lambda>v. past_task v (run_stage s v)) (run_memory s)"
      using wk_publish w by (intro cells_after_cong) simp
    then show ?thesis
      unfolding step using ok stages wk_publish w inside by (simp add: run_ok_def)
  next
    case wk_report_failure
    then show ?thesis using s(1) by simp
  next
    case wk_arrive
    have step: "run_step job w s = go w wk_wait (s\<lparr>run_workers_ready := run_workers_ready s + 1\<rparr>)"
      using wk_arrive by (simp add: run_step_def)
    show ?thesis unfolding step using ok True wk_arrive by (intro run_ok_move) simp_all
  next
    case wk_wait
    show ?thesis
    proof (cases "worker_waits job s")
      case True
      then show ?thesis using ok wk_wait by (simp add: run_step_def)
    next
      case False
      then have published: "run_published s" using s(2) given(2) by (simp add: worker_waits_def)
      have step: "run_step job w s = go w wk_check s" using wk_wait False by (simp add: run_step_def)
      show ?thesis unfolding step using ok inside wk_wait published s(3) by (intro run_ok_move) auto
    qed
  next
    case wk_check
    then have published: "run_published s" using s(1) by simp
    then have view: "run_packed_b s = prepared_view job" using ok s(3) by (simp add: run_ok_def)
    have step: "run_step job w s = go w (wk_task (of_nat w)) s"
      using wk_check s(2) plan_check_ok [OF ready] by (simp add: run_step_def worker_checks_def view)
    show ?thesis
      unfolding step using ok True wk_check published s(3) worker_word [OF True] by (intro run_ok_move) auto
  next
    case (wk_task t)
    then have published: "run_published s" using s(1) by simp
    then have view: "run_packed_b s = prepared_view job" "holds_image job orig (run_memory s)"
      using ok s(3) by (simp_all add: run_ok_def)
    have lt: "t < job_task_count job \<longleftrightarrow> unat t = w"
      using s(1) wk_task tasks_per_worker [OF ready] True by (auto simp: word_less_nat_alt)
    show ?thesis
    proof (cases "unat t = w")
      case own: True
      then have t: "t = of_nat w" using worker_word [OF True] by (simp add: word_unat_eq_iff)
      have "agree (job_slots job) orig (run_memory s)"
        "cells_after F job orig (\<lambda>v. past_task v (run_stage s v)) (run_memory s)"
        using ok by (simp_all add: run_ok_def)
      from partition_effect [OF ready ops \<open>usable\<close> True this(1) view(2) this(2)]
      obtain mem' where run: "execute_output_partition job (prepared_view job) (of_nat w) (of_nat w) (run_memory s) =
          (task_succeeds job w, mem')"
        and eff: "agree (job_slots job) orig mem'" "holds_image job orig mem'"
          "cells_after F job orig ((\<lambda>v. past_task v (run_stage s v))(w := True)) mem'" by blast
      define stage where "stage = (if task_succeeds job w then wk_task (t + u32_to_u64 (job_active_threads job))
          else wk_done ex_callback_failed)"
      have step: "run_step job w s = go w stage (s\<lparr>run_memory := mem'\<rparr>)"
        using wk_task lt own run view t by (simp add: run_step_def worker_runs_task_def stage_def)
      have next_task: "unat (t + u32_to_u64 (job_active_threads job)) = w + workers_of job"
      proof -
        have "w + workers_of job < 18446744073709551616"
          using inside unat_lt32 [of "job_active_threads job"] by linarith
        then show ?thesis using own by (simp add: unat_plus_if')
      qed
      have "0 < workers_of job" using True by simp
      then have stage: "stage_ok job (run_published s) w stage" "past_task w stage" "stage \<notin> {wk_begin, wk_publish}"
        using next_task published by (simp_all add: stage_def)
      have "cells_after F job orig (\<lambda>v. past_task v (((run_stage s)(w := stage)) v)) mem'"
        using eff(3) stage(2)
        by (subst cells_after_cong [where g = "(\<lambda>v. past_task v (run_stage s v))(w := True)"]) simp_all
      then show ?thesis
        unfolding step using ok eff stage True view published s(3) wk_task
        by (auto simp: run_ok_def split: if_splits)
    next
      case False
      then have past: "task_succeeds job w" "unat t = w + workers_of job" using s(1) wk_task by simp_all
      have step: "run_step job w s = go w (wk_done ex_success) s"
        using wk_task lt False by (simp add: run_step_def worker_runs_task_def)
      have "cells_after F job orig (\<lambda>v. past_task v (((run_stage s)(w := wk_done ex_success)) v)) (run_memory s) =
          cells_after F job orig (\<lambda>v. past_task v (run_stage s v)) (run_memory s)"
        using wk_task False by (intro cells_after_cong) simp
      then show ?thesis
        unfolding step using ok past published s(3) wk_task True
        by (cases "w = 0") (auto simp: run_ok_def split: if_splits)
    qed
  next
    case (wk_done status)
    then show ?thesis using ok by (simp add: run_step_def)
  qed
qed

lemma run_ok_schedule:
  assumes "ready_job job threads bytes" "job_ops job = backend F" usable
  shows "run_ok F job orig (run_schedule job schedule orig)"
proof -
  have "run_ok F job orig (fold (run_step job) schedule s)" if "run_ok F job orig s" for s
    using that by (induction schedule arbitrary: s) (simp_all add: run_ok_step [OF assms])
  then show ?thesis unfolding run_schedule_def using run_ok_initial [OF assms(1)] by blast
qed

end
section \<open>Every callback returns\<close>

text \<open>Each effective step lowers the work left.\<close>

fun stage_work :: "'f ParallelGemmJobV1 \<Rightarrow> worker_stage \<Rightarrow> nat" where
  "stage_work job wk_begin = 7"
| "stage_work job wk_publish = 6"
| "stage_work job wk_report_failure = 6"
| "stage_work job wk_arrive = 5"
| "stage_work job wk_wait = 4"
| "stage_work job wk_check = 3"
| "stage_work job (wk_task t) = (if t < job_task_count job then 2 else 1)"
| "stage_work job (wk_done _) = 0"

definition run_work :: "'f ParallelGemmJobV1 \<Rightarrow> 'f run_state \<Rightarrow> nat" where
  "run_work job s = (\<Sum>w < workers_of job. stage_work job (run_stage s w))"

lemma run_work_lower:
  assumes "w < workers_of job" "stage_work job (run_stage s' w) < stage_work job (run_stage s w)"
    and "\<And>v. v \<noteq> w \<Longrightarrow> run_stage s' v = run_stage s v"
  shows "run_work job s' < run_work job s"
  unfolding run_work_def
proof (rule sum_strict_mono_ex1)
  show "\<forall>v\<in>{..<workers_of job}. stage_work job (run_stage s' v) \<le> stage_work job (run_stage s v)"
    using assms(2,3) by (metis less_imp_le order_refl)
qed (use assms in auto)

lemma all_done_iff: "all_done job s \<longleftrightarrow> (\<forall>w < workers_of job. is_done (run_stage s w))"
  by (auto simp: all_done_def list_all_iff)

lemma worker_others:
  assumes "v \<noteq> w"
  shows "run_stage (worker_begins job w s) v = run_stage s v" "run_stage (worker_checks job w s) v = run_stage s v"
    "run_stage (worker_runs_task job w t s) v = run_stage s v"
proof -
  show "run_stage (worker_begins job w s) v = run_stage s v"
    using assms
    by (cases "pack_own_panels job w (run_memory s)";
        cases "ops_prepare_b (job_ops job) (job_problem job) (job_rhs job)
            (job_packed_b_destination job) (pbv_storage_bytes (run_packed_b s)) (run_memory s)")
      (simp add: worker_begins_def split: sum.split)
  show "run_stage (worker_checks job w s) v = run_stage s v" using assms by (simp add: worker_checks_def)
  show "run_stage (worker_runs_task job w t s) v = run_stage s v"
    using assms by (simp add: worker_runs_task_def case_prod_beta Let_def)
qed

lemma run_step_others: "v \<noteq> w \<Longrightarrow> run_stage (run_step job w s) v = run_stage s v"
  by (cases "run_stage s w") (simp_all add: run_step_def worker_others)

context parallel_backend
begin

lemma run_step_effect:
  assumes ready: "ready_job job threads bytes" and ok: "run_ok F job orig s" and w: "w < workers_of job"
  shows "if is_done (run_stage s w) \<or> run_stage s w = wk_wait \<and> worker_waits job s
    then run_step job w s = s else run_work job (run_step job w s) < run_work job s"
proof -
  have own: "\<not> t + u32_to_u64 (job_active_threads job) < job_task_count job"
    if "run_stage s w = wk_task t" "t < job_task_count job" for t
  proof -
    have "stage_ok job (run_published s) w (wk_task t)" using ok w that(1) by (metis run_ok_def)
    then have "unat t = w" using that(2) tasks_per_worker [OF ready] by (auto simp: word_less_nat_alt)
    moreover have "w + workers_of job < 18446744073709551616"
      using w unat_lt32 [of "job_active_threads job"] by linarith
    ultimately show ?thesis using tasks_per_worker [OF ready] by (simp add: word_less_nat_alt unat_plus_if')
  qed
  have lower: "run_work job (run_step job w s) < run_work job s"
    if "stage_work job (run_stage (run_step job w s) w) < stage_work job (run_stage s w)"
  proof (rule run_work_lower [OF w that])
    show "run_stage (run_step job w s) v = run_stage s v" if "v \<noteq> w" for v
      by (rule run_step_others [OF that])
  qed
  show ?thesis
  proof (cases "run_stage s w")
    case wk_begin
    then show ?thesis
      using lower by (simp add: run_step_def worker_begins_def Let_def split: prod.split sum.split)
  next
    case (wk_task t)
    then show ?thesis
      using lower own by (simp add: run_step_def worker_runs_task_def Let_def split: prod.split)
  qed (use lower in \<open>auto simp: run_step_def worker_checks_def\<close>)
qed

text \<open>While a callback is running, some worker can go on: worker zero, or after it any other.\<close>

lemma run_progress:
  assumes ready: "ready_job job threads bytes" and ok: "run_ok F job orig s" and running: "\<not> all_done job s"
  shows "\<exists>w < workers_of job. run_step job w s \<noteq> s"
proof -
  have T: "0 < workers_of job"
    using planned_facts(1,2,8,9) [OF ready_facts(1) [OF ready]] by (metis mult_eq_0_iff neq0_conv)
  have flags: "\<not> run_pack_failed s" "\<not> job_parallel_pack_b job"
    "run_published s \<longleftrightarrow> run_stage s 0 \<notin> {wk_begin, wk_publish}"
    using ok ready by (simp_all add: run_ok_def ready_job_def)
  obtain w where w: "w < workers_of job" "\<not> is_done (run_stage s w)"
    "\<not> (run_stage s w = wk_wait \<and> worker_waits job s)"
  proof (cases "is_done (run_stage s 0)")
    case True
    then have "\<not> worker_waits job s" using flags by (cases "run_stage s 0") (simp_all add: worker_waits_def)
    then show ?thesis using running that by (auto simp: all_done_iff)
  next
    case False
    moreover have "run_stage s 0 = wk_wait \<Longrightarrow> \<not> worker_waits job s" using flags by (simp add: worker_waits_def)
    ultimately show ?thesis using T that by blast
  qed
  then have "run_work job (run_step job w s) < run_work job s"
    using run_step_effect [OF ready ok w(1)] by simp
  then show ?thesis using w(1) by fastforce
qed

lemma round_lowers:
  assumes job: "ready_job job threads bytes" "job_ops job = backend F" usable
    and ok: "run_ok F job orig s" and round: "set r \<subseteq> {..<workers_of job}"
  shows "fold (run_step job) r s = s \<and> (\<forall>w \<in> set r. run_step job w s = s) \<or>
    run_work job (fold (run_step job) r s) < run_work job s"
  using ok round
proof (induction r arbitrary: s)
  case (Cons w r)
  have w: "w < workers_of job" "set r \<subseteq> {..<workers_of job}" using Cons.prems(2) by simp_all
  note ok' = run_ok_step [OF job Cons.prems(1), of w]
  show ?case
  proof (cases "run_step job w s = s")
    case True
    then show ?thesis using Cons.IH [OF Cons.prems(1) w(2)] by simp
  next
    case False
    then have "run_work job (run_step job w s) < run_work job s"
      using run_step_effect [OF job(1) Cons.prems(1) w(1)] by (simp split: if_splits)
    moreover have "run_work job (fold (run_step job) r (run_step job w s)) \<le> run_work job (run_step job w s)"
      using Cons.IH [OF ok' w(2)] by auto
    ultimately show ?thesis by simp
  qed
qed simp

lemma all_done_stays:
  assumes "all_done job s" "set r \<subseteq> {..<workers_of job}"
  shows "fold (run_step job) r s = s"
  using assms
proof (induction r)
  case (Cons w r)
  then have "is_done (run_stage s w)" by (simp add: all_done_iff)
  then have "run_step job w s = s" by (cases "run_stage s w") (simp_all add: run_step_def)
  then show ?case using Cons by simp
qed simp

lemma rounds_finish:
  assumes job: "ready_job job threads bytes" "job_ops job = backend F" usable
    and ok: "run_ok F job orig s" and rounds: "\<forall>r \<in> set rounds. set r = {..<workers_of job}"
    and enough: "run_work job s \<le> length rounds"
  shows "all_done job (fold (run_step job) (concat rounds) s)"
  using ok rounds enough
proof (induction rounds arbitrary: s)
  case Nil
  then show ?case
    using run_progress [OF job(1), of F orig s] run_step_effect [OF job(1), of F orig s]
    by (fastforce split: if_splits)
next
  case (Cons r rounds)
  let ?s = "fold (run_step job) r s"
  have r: "set r = {..<workers_of job}" using Cons.prems(2) by simp
  have ok': "run_ok F job orig ?s"
  proof -
    have "run_ok F job orig (fold (run_step job) xs s)" for xs
      using Cons.prems(1) by (induction xs arbitrary: s) (simp_all add: run_ok_step [OF job])
    then show ?thesis .
  qed
  show ?case
  proof (cases "all_done job s")
    case True
    have "set (concat (r # rounds)) \<subseteq> {..<workers_of job}" using Cons.prems(2) by auto
    from all_done_stays [OF True this] show ?thesis using True by simp
  next
    case False
    then have "run_work job ?s < run_work job s"
      using round_lowers [OF job Cons.prems(1), of r] run_progress [OF job(1) Cons.prems(1)] r by auto
    then show ?thesis using Cons.IH [OF ok'] Cons.prems(2,3) by simp
  qed
qed

text \<open>Seven turns for each worker are enough.\<close>

lemma schedule_finishes:
  assumes job: "ready_job job threads bytes" "job_ops job = backend F" usable
    and rounds: "\<forall>r \<in> set rounds. set r = {..<workers_of job}" "7 * workers_of job \<le> length rounds"
  shows "all_done job (run_schedule job (concat rounds) orig)"
  unfolding run_schedule_def
proof (rule rounds_finish [OF job run_ok_initial [OF job(1)] rounds(1)])
  have "run_work job (initial_run job orig) = 7 * workers_of job"
    by (simp add: run_work_def initial_run_def)
  then show "run_work job (initial_run job orig) \<le> length rounds" using rounds(2) by simp
qed

section \<open>What the callbacks leave\<close>

lemma finished_run:
  fixes F :: "'f fma_ops"
  assumes ready: "ready_job job threads bytes" and ok: "run_ok F job orig s" and finished: "all_done job s"
  shows "w < workers_of job \<Longrightarrow> returned_status (run_stage s w) =
      (if task_succeeds job w then ex_success else ex_callback_failed)"
    "\<forall>w < workers_of job. task_succeeds job w \<Longrightarrow>
      multiplied F (job_problem job) (job_lhs job) (job_rhs job) (job_out job)
        (arena_slots (job_problem job) (job_workspace job) (job_active_threads job)) orig (run_memory s)"
    "w < workers_of job \<Longrightarrow> in_task job (of_nat w) i j \<Longrightarrow> i < rows_of job \<Longrightarrow> j < columns_of job \<Longrightarrow>
      \<not> task_succeeds job w \<Longrightarrow> run_memory s (slot (job_out job) + (i * columns_of job + j)) =
        orig (slot (job_out job) + (i * columns_of job + j))"
proof -
  have stages: "run_stage s w = wk_done (if task_succeeds job w then ex_success else ex_callback_failed)"
    if "w < workers_of job" for w
  proof -
    have "stage_ok job (run_published s) w (run_stage s w)" using ok that by (metis run_ok_def)
    then show ?thesis using finished that by (cases "run_stage s w") (auto simp: all_done_iff)
  qed
  then show "w < workers_of job \<Longrightarrow> returned_status (run_stage s w) =
      (if task_succeeds job w then ex_success else ex_callback_failed)"
    by (simp add: returned_status_def)
  have cells: "run_memory s (slot (job_out job) + (i * columns_of job + j)) =
      (if task_succeeds job w
       then gemm_cell F orig (slot (job_lhs job)) (slot (job_rhs job)) (depth_of job) (columns_of job) i j
       else orig (slot (job_out job) + (i * columns_of job + j)))"
    if "w < workers_of job" "in_task job (of_nat w) i j" "i < rows_of job" "j < columns_of job" for w i j
  proof -
    have "cells_after F job orig (\<lambda>w. past_task w (run_stage s w)) (run_memory s)"
      using ok by (simp add: run_ok_def)
    then show ?thesis using that stages [OF that(1)] by (simp add: cells_after_def)
  qed
  then show "w < workers_of job \<Longrightarrow> in_task job (of_nat w) i j \<Longrightarrow> i < rows_of job \<Longrightarrow> j < columns_of job \<Longrightarrow>
      \<not> task_succeeds job w \<Longrightarrow> run_memory s (slot (job_out job) + (i * columns_of job + j)) =
        orig (slot (job_out job) + (i * columns_of job + j))"
    by simp
  assume all: "\<forall>w < workers_of job. task_succeeds job w"
  have "run_memory s (slot (job_out job) + (i * columns_of job + j)) =
      gemm_cell F orig (slot (job_lhs job)) (slot (job_rhs job)) (depth_of job) (columns_of job) i j"
    if ij: "i < rows_of job" "j < columns_of job" for i j
  proof -
    obtain t where t: "unat t < unat (job_task_count job)" "in_task job t i j"
      using tasks_cover [OF ready_facts(1) [OF ready] ij] by blast
    then have w: "unat t < workers_of job" using tasks_per_worker [OF ready] by simp
    then show ?thesis using cells [of "unat t" i j] t(2) ij all by simp
  qed
  moreover have "agree (job_slots job) orig (run_memory s)" using ok by (simp add: run_ok_def)
  ultimately show "multiplied F (job_problem job) (job_lhs job) (job_rhs job) (job_out job)
        (arena_slots (job_problem job) (job_workspace job) (job_active_threads job)) orig (run_memory s)"
    by (auto simp: multiplied_def Let_def job_slots_def dest: agreeD)
qed

end
end
