(* ===== verification/ExecutionInvariant.thy ===== *)
theory ExecutionInvariant
  imports ExecutionContext
begin

text \<open>
  Invariant of the worker pool, kept by every step of workers, callers and the environment: the
  pointer to the submission is set exactly while its object is alive and the submitter waits for it;
  the two counters count the workers they stand for; each worker's result and callbacks are those of a
  sequential run of its share of the tasks; nobody sleeps on a predicate that is true unless the
  notification is still to come; and workers leave only a context that is stopping.
\<close>

section \<open>Reading a phase\<close>

fun observed :: "worker_phase \<Rightarrow> u64" where
  "observed (W_wait e) = e"
| "observed (W_asleep e) = e"
| "observed (W_preflight e p) = e"
| "observed (W_preflight_returned e p status) = e"
| "observed (W_preflight_wait e p) = e"
| "observed (W_preflight_asleep e p) = e"
| "observed (W_tasks e p i) = e"
| "observed (W_finish e p) = e"
| "observed (W_notify ph) = observed ph"
| "observed (W_exited e) = e"

text \<open>The pointer a worker holds.\<close>

fun held :: "worker_phase \<Rightarrow> nat option" where
  "held (W_wait e) = None"
| "held (W_asleep e) = None"
| "held (W_preflight e p) = Some p"
| "held (W_preflight_returned e p status) = Some p"
| "held (W_preflight_wait e p) = Some p"
| "held (W_preflight_asleep e p) = Some p"
| "held (W_tasks e p i) = Some p"
| "held (W_finish e p) = Some p"
| "held (W_notify ph) = held ph"
| "held (W_exited e) = None"

text \<open>Workers that have completed the submission of epoch \<open>e\<close>, and those whose preflight counts.\<close>

definition finished_phase :: "u64 \<Rightarrow> worker_phase \<Rightarrow> bool" where
  "finished_phase e ph \<longleftrightarrow> held ph = None \<and> observed ph = e"

fun counted_phase :: "u64 \<Rightarrow> worker_phase \<Rightarrow> bool" where
  "counted_phase e (W_preflight x p) = False"
| "counted_phase e (W_preflight_returned x p status) = False"
| "counted_phase e (W_preflight_wait x p) = True"
| "counted_phase e (W_preflight_asleep x p) = True"
| "counted_phase e (W_tasks x p i) = True"
| "counted_phase e (W_finish x p) = True"
| "counted_phase e (W_notify ph) = counted_phase e ph"
| "counted_phase e ph = (observed ph = e)"

text \<open>What a shutdown request from a callback may interrupt.\<close>

fun interrupted_ok :: "worker_phase \<Rightarrow> bool" where
  "interrupted_ok (W_notify (W_preflight_returned e p status)) = True"
| "interrupted_ok (W_notify (W_tasks e p i)) = True"
| "interrupted_ok (W_notify (W_finish e p)) = True"
| "interrupted_ok (W_notify ph) = False"
| "interrupted_ok ph = True"

section \<open>The share of one worker\<close>

abbreviation active :: "SubmissionV1 \<Rightarrow> nat" where
  "active s \<equiv> unat (sub_active_threads s)"

abbreviation share :: "SubmissionV1 \<Rightarrow> nat \<Rightarrow> nat \<Rightarrow> nat" where
  "share s w k \<equiv> w + k * active s"

definition task_status :: "SubmissionV1 \<Rightarrow> nat \<Rightarrow> nat \<Rightarrow> CpuExecutionStatusV1" where
  "task_status s i w = cb_status (sub_task s (of_nat i) w)"

definition passed_tasks :: "SubmissionV1 \<Rightarrow> nat \<Rightarrow> nat \<Rightarrow> bool" where
  "passed_tasks s w m \<longleftrightarrow> (\<forall>k<m. share s w k < unat (sub_task_count s) \<and>
     task_status s (share s w k) w = ex_success)"

definition calls_so_far :: "SubmissionV1 \<Rightarrow> nat \<Rightarrow> nat \<Rightarrow> callback_call list" where
  "calls_so_far s w m = (if sub_preflight s = None then [] else [Call_preflight]) @
     map (\<lambda>k. Call_task (of_nat (share s w k))) [0..<m]"

definition preflight_result :: "(nat \<Rightarrow> callback_result) \<Rightarrow> nat \<Rightarrow> WorkerResultV1" where
  "preflight_result preflight w =
    (if cb_status (preflight w) \<noteq> ex_success
     then \<lparr>wr_status = cb_status (preflight w), wr_first_failed_task = 0\<rparr> else fresh_result)"

text \<open>All workers have passed the preflight, none of them failed.\<close>

definition barrier_open :: "SubmissionV1 \<Rightarrow> bool" where
  "barrier_open s \<longleftrightarrow> \<not> sub_preflight_failed s \<and>
     (sub_preflight s \<noteq> None \<longrightarrow> sub_completed_preflights s = sub_active_threads s)"

definition looping_ok :: "SubmissionV1 \<Rightarrow> nat \<Rightarrow> u64 \<Rightarrow> callback_call list \<Rightarrow> bool" where
  "looping_ok s w i calls \<longleftrightarrow>
     (\<exists>m. unat i = share s w m \<and> passed_tasks s w m \<and> calls = calls_so_far s w m)"

definition looped_ok :: "SubmissionV1 \<Rightarrow> nat \<Rightarrow> WorkerResultV1 \<Rightarrow> callback_call list \<Rightarrow> bool" where
  "looped_ok s w r calls \<longleftrightarrow>
     (\<exists>m. passed_tasks s w m \<and>
        (if unat (sub_task_count s) \<le> share s w m
         then r = fresh_result \<and> calls = calls_so_far s w m
         else task_status s (share s w m) w \<noteq> ex_success \<and>
              r = \<lparr>wr_status = task_status s (share s w m) w,
                   wr_first_failed_task = of_nat (share s w m)\<rparr> \<and>
              calls = calls_so_far s w (Suc m)))"

definition finished_ok :: "SubmissionV1 \<Rightarrow> nat \<Rightarrow> WorkerResultV1 \<Rightarrow> callback_call list \<Rightarrow> bool" where
  "finished_ok s w r calls \<longleftrightarrow>
    (if sub_preflight_failed s
     then \<exists>preflight. sub_preflight s = Some preflight \<and>
       sub_completed_preflights s = sub_active_threads s \<and>
       r = preflight_result preflight w \<and> calls = [Call_preflight]
     else barrier_open s \<and> looped_ok s w r calls)"

fun local_ok ::
  "SubmissionV1 \<Rightarrow> u64 \<Rightarrow> nat \<Rightarrow> WorkerResultV1 \<Rightarrow> callback_call list \<Rightarrow> worker_phase \<Rightarrow> bool" where
  "local_ok s e w r calls (W_preflight x p) =
     (sub_preflight s \<noteq> None \<and> r = fresh_result \<and> calls = [])"
| "local_ok s e w r calls (W_preflight_returned x p status) =
     (\<exists>preflight. sub_preflight s = Some preflight \<and> status = cb_status (preflight w) \<and>
        r = fresh_result \<and> calls = [Call_preflight])"
| "local_ok s e w r calls (W_preflight_wait x p) =
     (\<exists>preflight. sub_preflight s = Some preflight \<and> r = preflight_result preflight w \<and>
        calls = [Call_preflight])"
| "local_ok s e w r calls (W_preflight_asleep x p) =
     (\<exists>preflight. sub_preflight s = Some preflight \<and> r = preflight_result preflight w \<and>
        calls = [Call_preflight] \<and> sub_completed_preflights s \<noteq> sub_active_threads s)"
| "local_ok s e w r calls (W_tasks x p i) =
     (barrier_open s \<and> r = fresh_result \<and> looping_ok s w i calls)"
| "local_ok s e w r calls (W_finish x p) = finished_ok s w r calls"
| "local_ok s e w r calls (W_notify ph) = local_ok s e w r calls ph"
| "local_ok s e w r calls (W_exited x) = (x = e \<and> finished_ok s w r calls)"
| "local_ok s e w r calls ph =
     (if observed ph = e then finished_ok s w r calls else r = fresh_result \<and> calls = [])"

section \<open>The submission in flight\<close>

definition sizes_ok :: "nat \<Rightarrow> SubmissionV1 \<Rightarrow> bool" where
  "sizes_ok n s \<longleftrightarrow> 0 < active s \<and> active s \<le> n \<and> active s \<le> unat (sub_task_count s) \<and>
     unat (sub_task_count s) + active s \<le> 2 ^ 64"

definition finished_workers :: "u64 \<Rightarrow> (nat \<Rightarrow> worker_phase) \<Rightarrow> SubmissionV1 \<Rightarrow> nat set" where
  "finished_workers e ws s = {w. w < active s \<and> finished_phase e (ws w)}"

definition counted_workers :: "u64 \<Rightarrow> (nat \<Rightarrow> worker_phase) \<Rightarrow> SubmissionV1 \<Rightarrow> nat set" where
  "counted_workers e ws s = {w. w < active s \<and> counted_phase e (ws w)}"

definition preflights_ok :: "u64 \<Rightarrow> (nat \<Rightarrow> worker_phase) \<Rightarrow> SubmissionV1 \<Rightarrow> bool" where
  "preflights_ok e ws s \<longleftrightarrow>
    (case sub_preflight s of
       None \<Rightarrow> \<not> sub_preflight_failed s
     | Some preflight \<Rightarrow>
         unat (sub_completed_preflights s) = card (counted_workers e ws s) \<and>
         (sub_preflight_failed s \<longleftrightarrow>
            (\<exists>w \<in> counted_workers e ws s. cb_status (preflight w) \<noteq> ex_success)))"

definition job_ok ::
  "nat \<Rightarrow> u64 \<Rightarrow> (nat \<Rightarrow> worker_phase) \<Rightarrow> (nat \<Rightarrow> WorkerResultV1) \<Rightarrow> (nat \<Rightarrow> callback_call list) \<Rightarrow>
   SubmissionV1 \<Rightarrow> bool" where
  "job_ok n e ws rs cs s \<longleftrightarrow> sizes_ok n s \<and>
     unat (sub_completed_workers s) = card (finished_workers e ws s) \<and> preflights_ok e ws s \<and>
     (\<forall>w < active s. local_ok s e w (rs w) (cs w) (ws w))"

abbreviation job_inv :: "context_state \<Rightarrow> SubmissionV1 \<Rightarrow> bool" where
  "job_inv c s \<equiv> job_ok (unat (ctx_worker_count c)) (ctx_epoch c) (ctx_workers c) (ctx_results c)
     (ctx_calls c) s"

section \<open>The invariant\<close>

fun in_flight :: "caller_phase \<Rightarrow> bool" where
  "in_flight C_notify = True"
| "in_flight C_wait = True"
| "in_flight C_asleep = True"
| "in_flight _ = False"

fun shutting_down :: "caller_phase \<Rightarrow> bool" where
  "shutting_down S_notify = True"
| "shutting_down (S_join _) = True"
| "shutting_down _ = False"

definition arguments_ok :: "context_state \<Rightarrow> task_arguments \<Rightarrow> bool" where
  "arguments_ok c a \<longleftrightarrow> run_tasks_check (ctx_worker_count c) False a = None \<and> admissible c a"

definition epochs_ok :: "context_state \<Rightarrow> bool" where
  "epochs_ok c \<longleftrightarrow> unat (ctx_epoch c) = ctx_submissions c \<and> ctx_submissions c < 2 ^ 64 \<and>
     (\<forall>w. unat (observed (ctx_workers c w)) \<le> ctx_submissions c)"

definition frame_ok :: "context_state \<Rightarrow> bool" where
  "frame_ok c \<longleftrightarrow>
    (case ctx_frame c of
       None \<Rightarrow> ctx_submission c = None \<and> \<not> in_flight (ctx_caller c) \<and> ctx_caller c \<noteq> C_collect
     | Some s \<Rightarrow> job_inv c s \<and>
         (if ctx_caller c = C_collect
          then ctx_submission c = None \<and> sub_completed_workers s = sub_active_threads s
          else in_flight (ctx_caller c) \<and> ctx_submission c = Some (sub_id s) \<and>
            (ctx_caller c = C_asleep \<longrightarrow> sub_completed_workers s \<noteq> sub_active_threads s)))"

definition pointers_ok :: "context_state \<Rightarrow> bool" where
  "pointers_ok c \<longleftrightarrow>
     (\<forall>w p. held (ctx_workers c w) = Some p \<longrightarrow>
        observed (ctx_workers c w) = ctx_epoch c \<and> in_flight (ctx_caller c) \<and>
        w < unat (ctx_worker_count c) \<and>
        (\<exists>s. ctx_frame c = Some s \<and> sub_id s = p \<and> w < active s))"

definition sleepers_ok :: "context_state \<Rightarrow> bool" where
  "sleepers_ok c \<longleftrightarrow>
     (\<forall>w e. ctx_workers c w = W_asleep e \<longrightarrow>
        (e = ctx_epoch c \<or> ctx_caller c = C_notify) \<and>
        (ctx_stopping c \<longrightarrow> ctx_caller c = S_notify \<or> (\<exists>v ph. ctx_workers c v = W_notify ph)))"

definition stopping_ok :: "context_state \<Rightarrow> bool" where
  "stopping_ok c \<longleftrightarrow>
     ((\<exists>w e. ctx_workers c w = W_exited e) \<or> shutting_down (ctx_caller c) \<or> ctx_workers_joined c \<longrightarrow>
        ctx_stopping c) \<and>
     (ctx_workers_joined c \<longrightarrow>
        (\<forall>w < unat (ctx_worker_count c). \<exists>e. ctx_workers c w = W_exited e)) \<and>
     (\<forall>k. ctx_caller c = S_join k \<longrightarrow>
        (\<forall>w. w < k \<and> w < unat (ctx_worker_count c) \<longrightarrow> (\<exists>e. ctx_workers c w = W_exited e)))"

definition pool_inv :: "context_state \<Rightarrow> bool" where
  "pool_inv c \<longleftrightarrow> epochs_ok c \<and> frame_ok c \<and> pointers_ok c \<and> sleepers_ok c \<and> stopping_ok c \<and>
     (\<forall>w. interrupted_ok (ctx_workers c w)) \<and>
     (\<forall>a. ctx_caller c = C_locked a \<longrightarrow> arguments_ok c a)"

section \<open>Words that count\<close>

lemma unat_inc32: "unat (x::u32) < unat (y::u32) \<Longrightarrow> unat (x + 1) = unat x + 1"
proof -
  assume "unat x < unat y"
  moreover have "unat y < 4294967296" by simp
  ultimately have "Suc (unat x) < 4294967296" by linarith
  then show ?thesis by (simp add: unat_word_ariths)
qed

lemma unat_inc64: "unat (x::u64) + 1 < 2 ^ 64 \<Longrightarrow> unat (x + 1) = unat x + 1"
  by (simp add: unat_word_ariths)

lemma unat_of_nat_exp64: "k < 2 ^ 64 \<Longrightarrow> unat (of_nat k :: u64) = k"
  using unat_of_nat64 [of k] by simp

lemma notify_submitter_if:
  "notify_submitter c = (if ctx_caller c = C_asleep then c\<lparr>ctx_caller := C_wait\<rparr> else c)"
  by (cases "ctx_caller c") (simp_all add: notify_submitter_def)

section \<open>One worker moves\<close>

lemma unless_worker_moves:
  assumes "\<And>v. v \<noteq> w \<Longrightarrow> P' v = P v" "w < a \<Longrightarrow> P' w = P w"
  shows "{v. v < a \<and> P' v} = {v. v < a \<and> P v}"
  using assms by (metis (no_types, opaque_lifting))

text \<open>A phase change that keeps both counters.\<close>

lemma job_move:
  assumes "job_ok n e ws rs cs s"
    and "w < active s \<Longrightarrow> finished_phase e ph = finished_phase e (ws w)"
    and "w < active s \<Longrightarrow> sub_preflight s \<noteq> None \<Longrightarrow> counted_phase e ph = counted_phase e (ws w)"
    and "w < active s \<Longrightarrow> local_ok s e w r l ph"
  shows "job_ok n e (ws(w := ph)) (rs(w := r)) (cs(w := l)) s"
proof -
  have "finished_workers e (ws(w := ph)) s = finished_workers e ws s"
    unfolding finished_workers_def by (rule unless_worker_moves) (use assms(2) in auto)
  moreover have "sub_preflight s \<noteq> None \<Longrightarrow> counted_workers e (ws(w := ph)) s = counted_workers e ws s"
    unfolding counted_workers_def by (rule unless_worker_moves) (use assms(3) in auto)
  ultimately show ?thesis
    using assms(1,4) by (auto simp: job_ok_def preflights_ok_def split: option.splits)
qed

lemma job_move_only:
  assumes "job_ok n e ws rs cs s"
    and "w < active s \<Longrightarrow> finished_phase e ph = finished_phase e (ws w)"
    and "w < active s \<Longrightarrow> sub_preflight s \<noteq> None \<Longrightarrow> counted_phase e ph = counted_phase e (ws w)"
    and "w < active s \<Longrightarrow> local_ok s e w (rs w) (cs w) (ws w) \<Longrightarrow> local_ok s e w (rs w) (cs w) ph"
  shows "job_ok n e (ws(w := ph)) rs cs s"
proof -
  have "w < active s \<Longrightarrow> local_ok s e w (rs w) (cs w) ph"
    using assms(1,4) by (simp add: job_ok_def)
  from job_move [OF assms(1,2,3) this] show ?thesis by simp
qed

text \<open>Notifications change no counter and no share.\<close>

lemma wake_phase_simps [simp]:
  "observed (wake_phase ph) = observed ph" "held (wake_phase ph) = held ph"
  "finished_phase e (wake_phase ph) = finished_phase e ph"
  "counted_phase e (wake_phase ph) = counted_phase e ph"
  "local_ok s e w r l (wake_phase ph) = local_ok s e w r l ph"
  "interrupted_ok (wake_phase ph) = interrupted_ok ph"
  "wake_phase ph \<noteq> W_asleep x"
  by (cases ph; simp add: finished_phase_def)+

lemma wake_phase_other [simp]:
  "(wake_phase ph = W_exited e) = (ph = W_exited e)" "(wake_phase ph = W_notify ph') = (ph = W_notify ph')"
  by (cases ph; auto)+

lemma wake_preflight_simps [simp]:
  "observed (wake_preflight_phase ph) = observed ph" "held (wake_preflight_phase ph) = held ph"
  "finished_phase e (wake_preflight_phase ph) = finished_phase e ph"
  "counted_phase e (wake_preflight_phase ph) = counted_phase e ph"
  "interrupted_ok (wake_preflight_phase ph) = interrupted_ok ph"
  "wake_preflight_phase ph \<noteq> W_preflight_asleep x p"
  "(wake_preflight_phase ph = W_exited e) = (ph = W_exited e)"
  "(wake_preflight_phase ph = W_asleep e) = (ph = W_asleep e)"
  "(wake_preflight_phase ph = W_notify ph') = (ph = W_notify ph')"
  by (cases ph; auto simp add: finished_phase_def)+

lemma job_wake: "job_ok n e (\<lambda>w. wake_phase (ws w)) rs cs s = job_ok n e ws rs cs s"
proof -
  have "counted_workers e (\<lambda>w. wake_phase (ws w)) s = counted_workers e ws s"
    by (simp add: counted_workers_def)
  then show ?thesis
    by (cases "sub_preflight s") (simp_all add: job_ok_def finished_workers_def preflights_ok_def)
qed

lemma finite_workers [simp]: "finite (finished_workers e ws s)" "finite (counted_workers e ws s)"
  by (simp_all add: finished_workers_def counted_workers_def)

lemma workers_le_active:
  "card (finished_workers e ws s) \<le> active s" "card (counted_workers e ws s) \<le> active s"
  using card_mono [of "{..<active s}" "finished_workers e ws s"]
    card_mono [of "{..<active s}" "counted_workers e ws s"]
  by (auto simp: finished_workers_def counted_workers_def)

lemma missing_worker:
  "w < active s \<Longrightarrow> \<not> finished_phase e (ws w) \<Longrightarrow> card (finished_workers e ws s) < active s"
  "w < active s \<Longrightarrow> \<not> counted_phase e (ws w) \<Longrightarrow> card (counted_workers e ws s) < active s"
  using psubset_card_mono [of "{..<active s}" "finished_workers e ws s"]
    psubset_card_mono [of "{..<active s}" "counted_workers e ws s"]
  by (auto simp: finished_workers_def counted_workers_def)

lemma all_workers:
  assumes "card (finished_workers e ws s) = active s" "w < active s"
  shows "finished_phase e (ws w)"
  using assms missing_worker(1) by fastforce

text \<open>What the phases tell of the barrier: past it, all preflights are counted.\<close>

lemma past_barrier_complete:
  assumes "job_ok n e ws rs cs s" "v < active s" "sub_preflight s \<noteq> None"
    and "counted_phase e (ws v)" "\<And>x p. ws v \<noteq> W_preflight_wait x p" "\<And>x p. ws v \<noteq> W_preflight_asleep x p"
    and "interrupted_ok (ws v)"
  shows "sub_completed_preflights s = sub_active_threads s"
proof -
  have "local_ok s e v (rs v) (cs v) (ws v)" using assms(1,2) by (simp add: job_ok_def)
  then show ?thesis
    using assms(3-7)
    by (cases "ws v" rule: interrupted_ok.cases)
      (auto simp: finished_ok_def barrier_open_def split: if_splits)
qed

lemma shares_ignore_counters [simp]:
  "task_status (s\<lparr>sub_completed_workers := k\<rparr>) = task_status s"
  "passed_tasks (s\<lparr>sub_completed_workers := k\<rparr>) = passed_tasks s"
  "calls_so_far (s\<lparr>sub_completed_workers := k\<rparr>) = calls_so_far s"
  "task_status (s\<lparr>sub_preflight_failed := f, sub_completed_preflights := j\<rparr>) = task_status s"
  "passed_tasks (s\<lparr>sub_preflight_failed := f, sub_completed_preflights := j\<rparr>) = passed_tasks s"
  "calls_so_far (s\<lparr>sub_preflight_failed := f, sub_completed_preflights := j\<rparr>) = calls_so_far s"
  by (auto simp: fun_eq_iff task_status_def passed_tasks_def calls_so_far_def)

lemma local_ok_completed [simp]:
  "local_ok (s\<lparr>sub_completed_workers := k\<rparr>) e w r l ph = local_ok s e w r l ph"
  by (induction ph) (simp_all add: finished_ok_def looped_ok_def looping_ok_def barrier_open_def)

text \<open>The last thing a worker does for a submission.\<close>

lemma job_finish:
  assumes job: "job_ok n e ws rs cs s" and w: "w < active s" "ws w = W_finish e p"
  shows "job_ok n e (ws(w := W_wait e)) rs cs (s\<lparr>sub_completed_workers := sub_completed_workers s + 1\<rparr>)"
    (is "job_ok n e ?ws rs cs ?s")
proof -
  have notin: "w \<notin> finished_workers e ws s" "\<not> finished_phase e (ws w)"
    using w by (simp_all add: finished_workers_def finished_phase_def)
  have "finished_workers e ?ws ?s = insert w (finished_workers e ws s)"
    using w by (auto simp: finished_workers_def finished_phase_def)
  then have "card (finished_workers e ?ws ?s) = card (finished_workers e ws s) + 1"
    using notin by simp
  moreover have "unat (sub_completed_workers s + 1) = card (finished_workers e ws s) + 1"
    using job missing_worker(1) [of w s e ws, OF w(1) notin(2)] unat_inc32 [of "sub_completed_workers s" "sub_active_threads s"]
    by (simp add: job_ok_def)
  moreover have "counted_workers e ?ws ?s = counted_workers e ws s"
    using w by (auto simp: counted_workers_def)
  ultimately show ?thesis
    using job w by (auto simp: job_ok_def sizes_ok_def preflights_ok_def split: option.splits)
qed

text \<open>A preflight is counted while nobody is past the barrier.\<close>

lemma local_ok_counting:
  assumes "local_ok s e v r l ph" "interrupted_ok ph" "sub_preflight s \<noteq> None"
    and "sub_completed_preflights s \<noteq> sub_active_threads s"
    and "k \<noteq> sub_active_threads s \<or> (\<forall>x p. ph \<noteq> W_preflight_asleep x p)"
  shows "local_ok (s\<lparr>sub_preflight_failed := f, sub_completed_preflights := k\<rparr>) e v r l ph"
  using assms
  by (cases ph rule: interrupted_ok.cases)
    (auto simp: finished_ok_def barrier_open_def split: if_splits)

lemma job_leave_preflight:
  assumes job: "job_ok n e ws rs cs s" and w: "w < active s" "ws w = W_preflight_returned e p status"
    and ok: "\<And>v. interrupted_ok (ws v)"
    and k: "k = sub_completed_preflights s + 1"
    and s': "s' = s\<lparr>sub_preflight_failed := (sub_preflight_failed s \<or> status \<noteq> ex_success),
               sub_completed_preflights := k\<rparr>"
    and rs': "rs' = (if status \<noteq> ex_success
                then rs(w := \<lparr>wr_status = status, wr_first_failed_task = 0\<rparr>) else rs)"
    and ph: "ph = (if k = sub_active_threads s then past_barrier e p w s' else W_preflight_asleep e p)"
    and awake: "k = sub_active_threads s \<Longrightarrow> \<forall>v x p. ws v \<noteq> W_preflight_asleep x p"
  shows "job_ok n e (ws(w := ph)) rs' cs s'"
proof -
  have local: "local_ok s e w (rs w) (cs w) (ws w)" using job w(1) by (simp add: job_ok_def)
  then obtain preflight where pf: "sub_preflight s = Some preflight" "status = cb_status (preflight w)"
      "rs w = fresh_result" "cs w = [Call_preflight]" using w(2) by auto
  have notin: "w \<notin> counted_workers e ws s" "\<not> counted_phase e (ws w)"
    using w by (simp_all add: counted_workers_def)
  have counts: "unat (sub_completed_preflights s) = card (counted_workers e ws s)"
    "sub_preflight_failed s \<longleftrightarrow> (\<exists>w \<in> counted_workers e ws s. cb_status (preflight w) \<noteq> ex_success)"
    using job pf(1) by (simp_all add: job_ok_def preflights_ok_def)
  have less: "card (counted_workers e ws s) < active s" using missing_worker(2) [of w s e ws, OF w(1) notin(2)] .
  have counted: "counted_phase e ph" by (simp add: ph past_barrier_def)
  have open_phase: "held ph \<noteq> None" by (simp add: ph past_barrier_def)
  have same: "sub_active_threads s' = sub_active_threads s" "sub_preflight s' = Some preflight"
    "sub_completed_workers s' = sub_completed_workers s" "sub_completed_preflights s' = k"
    by (simp_all add: s' pf)
  have "finished_workers e (ws(w := ph)) s' = finished_workers e ws s"
    unfolding finished_workers_def same
  proof (rule unless_worker_moves)
    show "finished_phase e ((ws(w := ph)) w) = finished_phase e (ws w)"
      using w(2) open_phase by (simp add: finished_phase_def)
  qed simp
  moreover have ins: "counted_workers e (ws(w := ph)) s' = insert w (counted_workers e ws s)"
    using w counted by (auto simp: counted_workers_def same)
  moreover have "unat k = card (counted_workers e ws s) + 1"
    using less counts(1) unat_inc32 [of "sub_completed_preflights s" "sub_active_threads s"]
    by (simp add: k)
  moreover have "sub_preflight_failed s' \<longleftrightarrow>
      (\<exists>w \<in> insert w (counted_workers e ws s). cb_status (preflight w) \<noteq> ex_success)"
    using counts(2) by (auto simp: s' pf(2))
  moreover have "sizes_ok n s'" using job by (simp add: job_ok_def sizes_ok_def s')
  moreover have "local_ok s' e v (rs' v) (cs v) ((ws(w := ph)) v)" if v: "v < active s'" for v
  proof (cases "v = w")
    case True
    have "unat (of_nat w :: u64) = w"
      using w(1) by (intro unat_of_nat_exp64) (rule less_trans [OF _ unat_lt32 [THEN less_trans]], auto)
    then have "looping_ok s' w (of_nat w) [Call_preflight]"
      by (auto simp: looping_ok_def passed_tasks_def calls_so_far_def same intro!: exI [of _ 0])
    moreover have "rs' w = preflight_result preflight w"
      using pf by (simp add: rs' preflight_result_def)
    ultimately show ?thesis
      using True pf
      by (auto simp: ph past_barrier_def finished_ok_def barrier_open_def same s'
          preflight_result_def rs')
  next
    case False
    have "local_ok s e v (rs v) (cs v) (ws v)" using job v by (simp add: job_ok_def s')
    moreover have "sub_completed_preflights s \<noteq> sub_active_threads s" using counts(1) less by auto
    ultimately have "local_ok s' e v (rs v) (cs v) (ws v)"
      unfolding s' using ok pf(1) awake by (intro local_ok_counting) auto
    then show ?thesis using False by (simp add: rs')
  qed
  ultimately show ?thesis
    using job pf notin(1) by (simp add: job_ok_def preflights_ok_def same)
qed

section \<open>Steps of one worker keep the invariant\<close>

lemma pool_invD:
  assumes "pool_inv c"
  shows "epochs_ok c" "frame_ok c" "pointers_ok c" "sleepers_ok c" "stopping_ok c"
    "interrupted_ok (ctx_workers c w)" "ctx_caller c = C_locked a \<Longrightarrow> arguments_ok c a"
  using assms by (simp_all add: pool_inv_def)

lemma frame_in_flight:
  "frame_ok c \<Longrightarrow> ctx_frame c = Some s \<Longrightarrow> job_inv c s"
  by (simp add: frame_ok_def)

text \<open>What a step of worker \<open>w\<close> into phase \<open>ph\<close> has to show.\<close>

lemma pool_worker:
  assumes inv: "pool_inv c" and w: "w < unat (ctx_worker_count c)"
    and same: "ctx_worker_count c' = ctx_worker_count c" "ctx_workers_joined c' = ctx_workers_joined c"
      "ctx_epoch c' = ctx_epoch c" "ctx_submissions c' = ctx_submissions c"
    and ws: "ctx_workers c' = (ctx_workers c)(w := ph)"
    and caller: "ctx_caller c' = ctx_caller c \<or> ctx_caller c = C_asleep \<and> ctx_caller c' = C_wait"
    and stop: "ctx_stopping c \<Longrightarrow> ctx_stopping c'"
    and frame: "frame_ok c'"
    and ids: "\<And>s. ctx_frame c = Some s \<Longrightarrow> \<exists>s'. ctx_frame c' = Some s' \<and> sub_id s' = sub_id s \<and>
      sub_active_threads s' = sub_active_threads s"
    and old: "\<And>x. ctx_workers c w \<noteq> W_exited x"
    and seen: "observed ph = ctx_epoch c \<or> observed ph = observed (ctx_workers c w)"
    and hold: "\<And>p. held ph = Some p \<Longrightarrow> observed ph = ctx_epoch c \<and> in_flight (ctx_caller c) \<and>
      (\<exists>s. ctx_frame c = Some s \<and> sub_id s = p \<and> w < active s)"
    and asleep: "\<And>x. ph = W_asleep x \<Longrightarrow> x = ctx_epoch c \<and> \<not> ctx_stopping c'"
    and sleepers: "\<And>v x. ctx_workers c v = W_asleep x \<Longrightarrow> ctx_stopping c' \<Longrightarrow>
      (ctx_stopping c \<and> (\<forall>ph'. ctx_workers c w \<noteq> W_notify ph')) \<or> (\<exists>ph'. ph = W_notify ph')"
    and exited: "\<And>x. ph = W_exited x \<Longrightarrow> ctx_stopping c'"
    and int: "interrupted_ok ph"
  shows "pool_inv c'"
proof -
  note inv' = pool_invD [OF inv]
  have "epochs_ok c'" using inv'(1) seen by (auto simp: epochs_ok_def same ws)
  moreover have "pointers_ok c'"
    unfolding pointers_ok_def
  proof (intro allI impI)
    fix v p assume held: "held (ctx_workers c' v) = Some p"
    have flight: "in_flight (ctx_caller c) \<Longrightarrow> in_flight (ctx_caller c')" using caller by auto
    have old_v: "v \<noteq> w \<Longrightarrow> observed (ctx_workers c v) = ctx_epoch c \<and> in_flight (ctx_caller c) \<and>
        v < unat (ctx_worker_count c) \<and> (\<exists>s. ctx_frame c = Some s \<and> sub_id s = p \<and> v < active s)"
      using inv'(3) held by (simp add: pointers_ok_def ws)
    show "observed (ctx_workers c' v) = ctx_epoch c' \<and> in_flight (ctx_caller c') \<and>
        v < unat (ctx_worker_count c') \<and> (\<exists>s. ctx_frame c' = Some s \<and> sub_id s = p \<and> v < active s)"
    proof (cases "v = w")
      case True
      then show ?thesis using hold [of p] held w flight ids by (fastforce simp: ws same)
    next
      case False
      then show ?thesis using old_v flight ids by (fastforce simp: ws same)
    qed
  qed
  moreover have "sleepers_ok c'"
    unfolding sleepers_ok_def
  proof (intro allI impI)
    fix v x assume sl: "ctx_workers c' v = W_asleep x"
    show "(x = ctx_epoch c' \<or> ctx_caller c' = C_notify) \<and>
      (ctx_stopping c' \<longrightarrow> ctx_caller c' = S_notify \<or> (\<exists>v ph. ctx_workers c' v = W_notify ph))"
    proof (cases "v = w")
      case True
      then show ?thesis using asleep [of x] sl by (simp add: ws same)
    next
      case False
      then have slept: "ctx_workers c v = W_asleep x" using sl by (simp add: ws)
      then have "(x = ctx_epoch c \<or> ctx_caller c = C_notify) \<and>
        (ctx_stopping c \<longrightarrow> ctx_caller c = S_notify \<or> (\<exists>v ph. ctx_workers c v = W_notify ph))"
        using inv'(4) by (auto simp: sleepers_ok_def)
      moreover have "ctx_stopping c' \<Longrightarrow> ctx_stopping c \<Longrightarrow> \<exists>v ph. ctx_workers c v = W_notify ph \<Longrightarrow>
          \<exists>v ph. ctx_workers c' v = W_notify ph"
        using sleepers [OF slept] unfolding ws by (metis fun_upd_apply)
      moreover have "ctx_stopping c' \<Longrightarrow> \<not> ctx_stopping c \<Longrightarrow> \<exists>v ph. ctx_workers c' v = W_notify ph"
        using sleepers [OF slept] unfolding ws by auto
      ultimately show ?thesis using caller by (auto simp: same)
    qed
  qed
  moreover have "stopping_ok c'"
  proof -
    have "\<exists>w e. ctx_workers c w = W_exited e \<Longrightarrow> ctx_stopping c"
      "shutting_down (ctx_caller c) \<Longrightarrow> ctx_stopping c" "ctx_workers_joined c \<Longrightarrow> ctx_stopping c"
      using inv'(5) by (auto simp: stopping_ok_def)
    moreover have "shutting_down (ctx_caller c') \<Longrightarrow> shutting_down (ctx_caller c)" using caller by auto
    moreover have "\<exists>e. ctx_workers c' v = W_exited e" if "ctx_workers c v = W_exited x" for v x
      using that old by (auto simp: ws)
    ultimately show ?thesis
      using inv'(5) caller exited stop
      by (fastforce simp: stopping_ok_def ws same split: if_splits)
  qed
  moreover have "interrupted_ok (ctx_workers c' v)" for v using inv'(6) int by (simp add: ws)
  moreover have "arguments_ok c' a" if "ctx_caller c' = C_locked a" for a
    using inv'(7) [of a] caller that by (auto simp: arguments_ok_def admissible_def same)
  ultimately show ?thesis using frame by (simp add: pool_inv_def)
qed

text \<open>Notifications.\<close>

lemma pool_notify_workers:
  assumes "pool_inv c"
  shows "pool_inv (notify_workers c)"
  using assms
  by (auto simp: pool_inv_def epochs_ok_def frame_ok_def pointers_ok_def sleepers_ok_def stopping_ok_def
      notify_workers_def job_wake arguments_ok_def admissible_def split: option.splits)

lemma local_ok_wake_preflight: "local_ok s e w r l ph \<Longrightarrow> local_ok s e w r l (wake_preflight_phase ph)"
  by (cases ph) auto

lemma job_wake_preflight:
  assumes "job_ok n e ws rs cs s"
  shows "job_ok n e (\<lambda>w. wake_preflight_phase (ws w)) rs cs s"
proof -
  have "counted_workers e (\<lambda>w. wake_preflight_phase (ws w)) s = counted_workers e ws s"
    by (simp add: counted_workers_def)
  then show ?thesis
    using assms by (cases "sub_preflight s")
      (simp_all add: job_ok_def finished_workers_def preflights_ok_def local_ok_wake_preflight)
qed

lemma pool_notify_preflight:
  assumes "pool_inv c"
  shows "pool_inv (notify_preflight c)"
  using assms
  by (auto simp: pool_inv_def epochs_ok_def frame_ok_def pointers_ok_def sleepers_ok_def stopping_ok_def
      notify_preflight_def arguments_ok_def admissible_def split: option.splits
      intro: job_wake_preflight)

lemma pool_phase:
  assumes inv: "pool_inv c" and w: "w < unat (ctx_worker_count c)"
    and old: "\<And>x. ctx_workers c w \<noteq> W_exited x"
    and seen: "observed ph = ctx_epoch c \<or> observed ph = observed (ctx_workers c w)"
    and hold: "\<And>p. held ph = Some p \<Longrightarrow> observed ph = ctx_epoch c \<and> in_flight (ctx_caller c) \<and>
      (\<exists>s. ctx_frame c = Some s \<and> sub_id s = p \<and> w < active s)"
    and asleep: "\<And>x. ph = W_asleep x \<Longrightarrow> x = ctx_epoch c \<and> \<not> ctx_stopping c"
    and sleepers: "(\<forall>ph'. ctx_workers c w \<noteq> W_notify ph') \<or> (\<forall>v x. ctx_workers c v \<noteq> W_asleep x)"
    and exited: "\<And>x. ph = W_exited x \<Longrightarrow> ctx_stopping c"
    and int: "interrupted_ok ph"
    and job: "\<And>s. ctx_frame c = Some s \<Longrightarrow> job_inv (set_phase w ph c) s"
  shows "pool_inv (set_phase w ph c)"
proof (rule pool_worker [where c = c and w = w and ph = ph])
  show "frame_ok (set_phase w ph c)"
    using pool_invD(2) [OF inv] job by (auto simp: frame_ok_def split: option.splits)
qed (use assms in auto)

text \<open>The pointer a worker holds can be followed.\<close>

lemma held_pointer:
  assumes "pool_inv c" "held (ctx_workers c w) = Some p"
  obtains s where "ctx_frame c = Some s" "deref c p = Some s" "sub_id s = p" "w < active s"
    "observed (ctx_workers c w) = ctx_epoch c" "in_flight (ctx_caller c)" "job_inv c s"
    "w < unat (ctx_worker_count c)"
    "local_ok s (ctx_epoch c) w (ctx_results c w) (ctx_calls c w) (ctx_workers c w)"
proof -
  obtain s where s: "ctx_frame c = Some s" "sub_id s = p" "w < active s"
    "observed (ctx_workers c w) = ctx_epoch c" "in_flight (ctx_caller c)"
    "w < unat (ctx_worker_count c)"
    using pool_invD(3) [OF assms(1)] assms(2) by (auto simp: pointers_ok_def)
  moreover have "job_inv c s" using frame_in_flight [OF pool_invD(2) [OF assms(1)] s(1)] .
  ultimately show thesis using that by (simp add: deref_def job_ok_def)
qed

lemma in_flight_submission:
  assumes "frame_ok c" "in_flight (ctx_caller c)" "ctx_frame c = Some s"
  shows "ctx_submission c = Some (sub_id s)"
  using assms by (auto simp: frame_ok_def split: if_splits)

lemma collected:
  assumes "pool_inv c" "ctx_frame c = Some s" "\<not> in_flight (ctx_caller c)" "w < active s"
  shows "finished_phase (ctx_epoch c) (ctx_workers c w)"
proof (rule all_workers)
  show "card (finished_workers (ctx_epoch c) (ctx_workers c) s) = active s"
    using pool_invD(2) [OF assms(1)] assms(2,3) by (auto simp: frame_ok_def job_ok_def split: if_splits)
qed (rule assms(4))

lemma sleep_keeps:
  assumes "pool_inv c" "w < unat (ctx_worker_count c)" "ctx_workers c w = W_wait e"
    and "\<not> (ctx_stopping c \<or> ctx_epoch c \<noteq> e)"
  shows "pool_inv (set_phase w (W_asleep e) c)"
proof (rule pool_phase [OF assms(1,2)])
  fix s assume s: "ctx_frame c = Some s"
  show "job_inv (set_phase w (W_asleep e) c) s"
    using frame_in_flight [OF pool_invD(2) [OF assms(1)] s] assms(3)
    by simp (rule job_move_only, auto simp: finished_phase_def)
qed (use assms in auto)

lemma no_work_keeps:
  assumes inv: "pool_inv c" and w: "w < unat (ctx_worker_count c)" "ctx_workers c w = W_wait e"
    and ph: "ph = W_wait e' \<or> ph = W_exited e' \<and> ctx_stopping c"
    and e': "ctx_epoch c = e'"
    and idle: "e = e' \<or> (\<forall>s. ctx_frame c = Some s \<longrightarrow> \<not> w < active s)"
  shows "pool_inv (set_phase w ph c)"
proof (rule pool_phase [OF inv w(1)])
  fix s assume s: "ctx_frame c = Some s"
  show "job_inv (set_phase w ph c) s"
    using frame_in_flight [OF pool_invD(2) [OF inv] s] ph idle s e'
    by (elim disjE [of "ph = _"] conjE; simp; intro job_move_only) (auto simp: finished_phase_def w(2))
qed (use w(2) ph e' in \<open>elim disjE conjE; simp\<close>)+

lemma take_work_keeps:
  assumes inv: "pool_inv c" and w: "w < unat (ctx_worker_count c)" "ctx_workers c w = W_wait e"
    and step: "take_work w e c = Some c'" "ctx_stopping c \<or> ctx_epoch c \<noteq> e"
  shows "pool_inv c'"
proof (cases "ctx_epoch c = e")
  case True
  then have "c' = set_phase w (W_exited e) c" "ctx_stopping c"
    using step by (simp_all add: take_work_def)
  then show ?thesis using no_work_keeps [OF inv w, of "W_exited e" e] True by simp
next
  case unseen: False
  let ?idle = "set_phase w (if ctx_stopping c then W_exited (ctx_epoch c) else W_wait (ctx_epoch c)) c"
  have idle: "pool_inv ?idle" if "\<forall>s. ctx_frame c = Some s \<longrightarrow> \<not> w < active s"
    using that by (intro no_work_keeps [OF inv w]) auto
  show ?thesis
  proof (cases "ctx_submission c")
    case None
    then have "\<not> in_flight (ctx_caller c)"
      using pool_invD(2) [OF inv] by (auto simp: frame_ok_def split: option.splits if_splits)
    then have "\<not> w < active s" if "ctx_frame c = Some s" for s
      using collected [OF inv that, of w] w(2) unseen by (auto simp: finished_phase_def)
    moreover have "c' = ?idle" using step None unseen by (auto simp: take_work_def)
    ultimately show ?thesis using idle by blast
  next
    case (Some p)
    then obtain s where s: "ctx_frame c = Some s" "sub_id s = p" "in_flight (ctx_caller c)" "job_inv c s"
      using pool_invD(2) [OF inv] by (auto simp: frame_ok_def split: option.splits if_splits)
    then have deref: "deref c p = Some s" by (simp add: deref_def)
    show ?thesis
    proof (cases "w < active s")
      case False
      then have "c' = ?idle" using step Some deref unseen by (auto simp: take_work_def)
      then show ?thesis using idle False s(1) by simp
    next
      case True
      define ph where "ph = (if sub_preflight s \<noteq> None then W_preflight (ctx_epoch c) p
        else W_tasks (ctx_epoch c) p (of_nat w))"
      have c': "c' = set_phase w ph c"
        using step Some deref unseen True by (auto simp: take_work_def ph_def)
      have fresh: "ctx_results c w = fresh_result" "ctx_calls c w = []"
        using s(4) True w(2) unseen by (auto simp: job_ok_def)
      have nofail: "sub_preflight s = None \<Longrightarrow> \<not> sub_preflight_failed s"
        using s(4) by (auto simp: job_ok_def preflights_ok_def)
      have wn: "unat (of_nat w :: u64) = w"
        using True by (intro unat_of_nat_exp64) (rule less_trans [OF _ unat_lt32 [THEN less_trans]], auto)
      have loop: "sub_preflight s = None \<Longrightarrow> looping_ok s w (of_nat w) []"
        using wn by (auto simp: looping_ok_def passed_tasks_def calls_so_far_def intro!: exI [of _ 0])
      show ?thesis unfolding c'
      proof (rule pool_phase [OF inv w(1)])
        fix s' assume "ctx_frame c = Some s'"
        then show "job_inv (set_phase w ph c) s'"
          using s w(2) unseen nofail loop
          by simp (rule job_move_only, auto simp: finished_phase_def ph_def fresh barrier_open_def)
      qed (use w s True in \<open>auto simp: ph_def split: if_splits\<close>)
    qed
  qed
qed

text \<open>Callbacks.\<close>

lemma call_preflight_keeps:
  assumes inv: "pool_inv c" and w: "ctx_workers c w = W_preflight e p"
    and step: "call_preflight w e p c = Some c'"
  shows "pool_inv c'"
proof -
  have h: "held (ctx_workers c w) = Some p" using w by simp
  obtain s where s: "ctx_frame c = Some s" "deref c p = Some s" "sub_id s = p" "w < active s"
    "e = ctx_epoch c" "in_flight (ctx_caller c)" "job_inv c s" "w < unat (ctx_worker_count c)"
    and local: "sub_preflight s \<noteq> None" "ctx_results c w = fresh_result" "ctx_calls c w = []"
    by (rule held_pointer [OF inv h]) (use w in auto)
  obtain preflight where pf: "sub_preflight s = Some preflight" using local(1) by blast
  define ph0 where "ph0 = W_preflight_returned e p (cb_status (preflight w))"
  define ph where "ph = (if cb_requests_shutdown (preflight w) then W_notify ph0 else ph0)"
  have c': "c' = after_callback w (preflight w) ph0 (log_call w Call_preflight c)"
    using step s(2) pf by (simp add: call_preflight_def ph0_def Let_def)
  have "job_ok (unat (ctx_worker_count c)) (ctx_epoch c) ((ctx_workers c)(w := ph))
      ((ctx_results c)(w := fresh_result)) ((ctx_calls c)(w := [Call_preflight])) s"
    using s(7) pf w by (intro job_move) (auto simp: finished_phase_def ph_def ph0_def s(5))
  moreover have "(ctx_results c)(w := fresh_result) = ctx_results c" using local(2) by auto
  ultimately have job: "job_inv c' s"
    by (auto simp: c' after_callback_def local(3) ph_def)
  show ?thesis
  proof (rule pool_worker [OF inv s(8), where ph = ph])
    show "frame_ok c'" using pool_invD(2) [OF inv] s job
      by (auto simp: frame_ok_def c' after_callback_def)
  qed (use w s in \<open>auto simp: c' after_callback_def ph_def ph0_def split: if_splits\<close>)
qed

lemma calls_so_far_Suc:
  "calls_so_far s w (Suc m) = calls_so_far s w m @ [Call_task (of_nat (share s w m))]"
  by (simp add: calls_so_far_def)

lemma call_task_keeps:
  assumes inv: "pool_inv c" and w: "ctx_workers c w = W_tasks e p i"
    and step: "call_task w e p i c = Some c'"
  shows "pool_inv c'"
proof -
  have h: "held (ctx_workers c w) = Some p" using w by simp
  obtain s where s: "ctx_frame c = Some s" "deref c p = Some s" "sub_id s = p" "w < active s"
    "e = ctx_epoch c" "in_flight (ctx_caller c)" "job_inv c s" "w < unat (ctx_worker_count c)"
    and local: "barrier_open s" "ctx_results c w = fresh_result" "looping_ok s w i (ctx_calls c w)"
    by (rule held_pointer [OF inv h]) (use w in auto)
  obtain m where m: "unat i = share s w m" "passed_tasks s w m" "ctx_calls c w = calls_so_far s w m"
    using local(3) by (auto simp: looping_ok_def)
  have i: "of_nat (share s w m) = i" using m(1) [symmetric] by simp
  have sizes: "unat (sub_task_count s) + active s \<le> 2 ^ 64" "0 < active s"
    using s(7) by (auto simp: job_ok_def sizes_ok_def)
  show ?thesis
  proof (cases "i < sub_task_count s")
    case False
    then have c': "c' = set_phase w (W_finish e p) c" using step s(2) by (simp add: call_task_def)
    have "finished_ok s w fresh_result (ctx_calls c w)"
      using local(1) m False
      by (auto simp: finished_ok_def barrier_open_def looped_ok_def word_less_nat_alt not_less intro!: exI [of _ m])
    then have job: "job_inv (set_phase w (W_finish e p) c) s"
      using s(7) w local(2) by simp (rule job_move_only, auto simp: finished_phase_def)
    show ?thesis unfolding c'
      by (rule pool_phase [OF inv s(8)]) (use w s job in auto)
  next
    case True
    let ?st = "cb_status (sub_task s i w)"
    let ?next = "i + u32_to_u64 (sub_active_threads s)"
    define r where "r = (if ?st \<noteq> ex_success then \<lparr>wr_status = ?st, wr_first_failed_task = i\<rparr> else fresh_result)"
    define ph0 where "ph0 = (if ?st \<noteq> ex_success then W_finish e p else W_tasks e p ?next)"
    define ph where "ph = (if cb_requests_shutdown (sub_task s i w) then W_notify ph0 else ph0)"
    have c': "c' = after_callback w (sub_task s i w) ph0
        (set_result w r (log_call w (Call_task i) c))"
    proof (cases "?st = ex_success")
      case True
      have "(ctx_results c)(w := fresh_result) = ctx_results c" using local(2) by auto
      then show ?thesis
        using step s(2) \<open>i < sub_task_count s\<close> True by (simp add: call_task_def Let_def ph0_def r_def)
    next
      case False
      then show ?thesis
        using step s(2) \<open>i < sub_task_count s\<close> by (simp add: call_task_def Let_def ph0_def r_def)
    qed
    have st: "?st = task_status s (share s w m) w" by (simp only: task_status_def i)
    have lt: "share s w m < unat (sub_task_count s)" using True m(1) by (simp add: word_less_nat_alt)
    have "unat ?next = share s w (Suc m)"
      using lt sizes(1) m(1) by (simp add: unat_word_ariths)
    moreover have "?st = ex_success \<Longrightarrow> passed_tasks s w (Suc m)"
      using m(2) lt st by (auto simp: passed_tasks_def less_Suc_eq)
    moreover have calls: "ctx_calls c w @ [Call_task i] = calls_so_far s w (Suc m)"
      by (simp only: calls_so_far_Suc m(3) i)
    ultimately have "?st = ex_success \<Longrightarrow> looping_ok s w ?next (calls_so_far s w (Suc m))"
      unfolding looping_ok_def by blast
    moreover have "finished_ok s w r (calls_so_far s w (Suc m))" if fail: "?st \<noteq> ex_success"
    proof -
      have "\<not> unat (sub_task_count s) \<le> share s w m" using lt by simp
      moreover have "r = \<lparr>wr_status = task_status s (share s w m) w,
          wr_first_failed_task = of_nat (share s w m)\<rparr>"
        using fail by (simp only: r_def st i if_True not_False_eq_True)
      ultimately have "looped_ok s w r (calls_so_far s w (Suc m))"
        unfolding looped_ok_def using m(2) fail st by (intro exI [of _ m]) (simp only: if_False simp_thms)
      then show ?thesis using local(1) by (simp add: finished_ok_def barrier_open_def)
    qed
    ultimately have "local_ok s (ctx_epoch c) w r (calls_so_far s w (Suc m)) ph"
      using local(1) by (auto simp: ph_def ph0_def r_def)
    then have "job_ok (unat (ctx_worker_count c)) (ctx_epoch c) ((ctx_workers c)(w := ph))
        ((ctx_results c)(w := r)) ((ctx_calls c)(w := calls_so_far s w (Suc m))) s"
      using s(7) w by (intro job_move) (auto simp: finished_phase_def ph_def ph0_def)
    then have job: "job_inv c' s" by (auto simp: c' after_callback_def ph_def calls)
    show ?thesis
    proof (rule pool_worker [OF inv s(8), where ph = ph])
      show "frame_ok c'" using pool_invD(2) [OF inv] s job
        by (auto simp: frame_ok_def c' after_callback_def)
    qed (use w s in \<open>auto simp: c' after_callback_def ph_def ph0_def split: if_splits\<close>)
  qed
qed

text \<open>The barrier.\<close>

lemma leave_preflight_keeps:
  assumes inv: "pool_inv c" and w: "ctx_workers c w = W_preflight_returned e p status"
    and step: "leave_preflight w e p status c = Some c'"
  shows "pool_inv c'"
proof -
  have h: "held (ctx_workers c w) = Some p" using w by simp
  obtain s where s: "ctx_frame c = Some s" "deref c p = Some s" "sub_id s = p" "w < active s"
    "e = ctx_epoch c" "in_flight (ctx_caller c)" "job_inv c s" "w < unat (ctx_worker_count c)"
    by (rule held_pointer [OF inv h]) (use w in auto)
  define k where "k = sub_completed_preflights s + 1"
  define c0 where "c0 = (if k = sub_active_threads s then notify_preflight c else c)"
  define s' where "s' = s\<lparr>sub_preflight_failed := (sub_preflight_failed s \<or> status \<noteq> ex_success),
    sub_completed_preflights := k\<rparr>"
  define rs where "rs = (if status \<noteq> ex_success
    then (ctx_results c)(w := \<lparr>wr_status = status, wr_first_failed_task = 0\<rparr>) else ctx_results c)"
  define ph where "ph = (if k = sub_active_threads s then past_barrier e p w s' else W_preflight_asleep e p)"
  have c': "c' = c0\<lparr>ctx_frame := Some s', ctx_results := rs, ctx_workers := (ctx_workers c0)(w := ph)\<rparr>"
    using step s(2)
    by (auto simp: leave_preflight_def Let_def c0_def s'_def k_def rs_def ph_def notify_preflight_def)
  have inv0: "pool_inv c0" using inv pool_notify_preflight by (simp add: c0_def)
  have c0: "ctx_frame c0 = Some s" "ctx_workers c0 w = W_preflight_returned e p status"
    "ctx_caller c0 = ctx_caller c" "ctx_epoch c0 = ctx_epoch c" "ctx_results c0 = ctx_results c"
    "ctx_worker_count c0 = ctx_worker_count c" "ctx_submission c0 = ctx_submission c"
    using s(1) w by (simp_all add: c0_def notify_preflight_def)
  have e0: "ctx_epoch c0 = e" using s(5) c0(4) by simp
  have "job_inv c0 s" by (rule frame_in_flight [OF pool_invD(2) [OF inv0] c0(1)])
  then have "job_ok (unat (ctx_worker_count c0)) e ((ctx_workers c0)(w := ph)) rs (ctx_calls c0) s'"
    unfolding e0
    by (rule job_leave_preflight [where ws = "ctx_workers c0", OF _ s(4) c0(2) pool_invD(6) [OF inv0] k_def s'_def])
      (auto simp: rs_def c0 ph_def, simp add: c0_def notify_preflight_def)
  then have job: "job_inv c' s'" by (simp add: c' e0)
  have s': "sub_id s' = sub_id s" "sub_active_threads s' = sub_active_threads s"
    "sub_completed_workers s' = sub_completed_workers s" by (simp_all add: s'_def)
  show ?thesis
  proof (rule pool_worker [OF inv0, where w = w and ph = ph])
    show "frame_ok c'" using pool_invD(2) [OF inv0] job s(6)
      by (auto simp: frame_ok_def c' c0 s')
  qed (use s c0 s' in \<open>auto simp: c' ph_def past_barrier_def split: if_splits\<close>)
qed

lemma test_barrier_keeps:
  assumes inv: "pool_inv c" and w: "ctx_workers c w = W_preflight_wait e p"
    and step: "test_barrier w e p c = Some c'"
  shows "pool_inv c'"
proof -
  have h: "held (ctx_workers c w) = Some p" using w by simp
  obtain s where s: "ctx_frame c = Some s" "deref c p = Some s" "sub_id s = p" "w < active s"
    "e = ctx_epoch c" "in_flight (ctx_caller c)" "job_inv c s" "w < unat (ctx_worker_count c)"
    and local: "\<exists>preflight. sub_preflight s = Some preflight \<and>
      ctx_results c w = preflight_result preflight w \<and> ctx_calls c w = [Call_preflight]"
    by (rule held_pointer [OF inv h]) (use w in auto)
  obtain preflight where pf: "sub_preflight s = Some preflight"
    "ctx_results c w = preflight_result preflight w" "ctx_calls c w = [Call_preflight]"
    using local by blast
  define ph where "ph = (if sub_completed_preflights s = sub_active_threads s
    then past_barrier e p w s else W_preflight_asleep e p)"
  have c': "c' = set_phase w ph c" using step s(2) by (simp add: test_barrier_def ph_def)
  have "w \<in> counted_workers (ctx_epoch c) (ctx_workers c) s"
    using s(4) w by (simp add: counted_workers_def)
  then have good: "\<not> sub_preflight_failed s \<Longrightarrow> cb_status (preflight w) = ex_success"
    using s(7) pf(1) by (auto simp: job_ok_def preflights_ok_def)
  have "unat (of_nat w :: u64) = w"
    using s(4) by (intro unat_of_nat_exp64) (rule less_trans [OF _ unat_lt32 [THEN less_trans]], auto)
  then have "looping_ok s w (of_nat w) [Call_preflight]"
    using pf by (auto simp: looping_ok_def passed_tasks_def calls_so_far_def intro!: exI [of _ 0])
  then have "local_ok s (ctx_epoch c) w (ctx_results c w) (ctx_calls c w) ph"
    using pf good
    by (auto simp: ph_def past_barrier_def barrier_open_def finished_ok_def preflight_result_def)
  then have "job_ok (unat (ctx_worker_count c)) (ctx_epoch c) ((ctx_workers c)(w := ph))
      ((ctx_results c)(w := ctx_results c w)) ((ctx_calls c)(w := ctx_calls c w)) s"
    using s(7) w by (intro job_move) (auto simp: finished_phase_def ph_def past_barrier_def)
  then have job: "job_inv (set_phase w ph c) s" by simp
  show ?thesis unfolding c'
    by (rule pool_phase [OF inv s(8)])
      (use w s job in \<open>auto simp: ph_def past_barrier_def split: if_splits\<close>)
qed

lemma finish_worker_keeps:
  assumes inv: "pool_inv c" and w: "ctx_workers c w = W_finish e p"
    and step: "finish_worker w e p c = Some c'"
  shows "pool_inv c'"
proof -
  have h: "held (ctx_workers c w) = Some p" using w by simp
  obtain s where s: "ctx_frame c = Some s" "deref c p = Some s" "sub_id s = p" "w < active s"
    "e = ctx_epoch c" "in_flight (ctx_caller c)" "job_inv c s" "w < unat (ctx_worker_count c)"
    by (rule held_pointer [OF inv h]) (use w in auto)
  define s' where "s' = s\<lparr>sub_completed_workers := sub_completed_workers s + 1\<rparr>"
  define cl where "cl = (if sub_completed_workers s' = sub_active_threads s \<and> ctx_caller c = C_asleep
    then C_wait else ctx_caller c)"
  have c': "c' = c\<lparr>ctx_frame := Some s', ctx_workers := (ctx_workers c)(w := W_wait e), ctx_caller := cl\<rparr>"
    using step s(2) by (auto simp: finish_worker_def Let_def s'_def cl_def notify_submitter_if)
  have job: "job_inv c' s'"
    using job_finish [OF s(7,4), of p] w s(5) by (simp add: c' s'_def)
  show ?thesis
  proof (rule pool_worker [OF inv s(8), where ph = "W_wait e"])
    show "frame_ok c'" using in_flight_submission [OF pool_invD(2) [OF inv] s(6,1)] job s(6)
      by (auto simp: frame_ok_def c' cl_def s'_def)
  qed (use w s in \<open>auto simp: c' cl_def s'_def\<close>)
qed

lemma notify_keeps:
  assumes inv: "pool_inv c" and w: "ctx_workers c w = W_notify ph" "w < unat (ctx_worker_count c)"
  shows "pool_inv (set_phase w ph (notify_workers c))"
proof -
  let ?c = "notify_workers c"
  have inv': "pool_inv ?c" by (rule pool_notify_workers [OF inv])
  have w': "ctx_workers ?c w = W_notify ph" using w by (simp add: notify_workers_def)
  have int: "interrupted_ok (W_notify ph)" using pool_invD(6) [OF inv] w by metis
  then have shape: "interrupted_ok ph" "\<And>x. ph \<noteq> W_asleep x" "\<And>x. ph \<noteq> W_exited x" "held ph \<noteq> None"
    by (cases ph; simp)+
  obtain p where h: "held (ctx_workers ?c w) = Some p" using shape(4) w' by auto
  obtain s where s: "ctx_frame ?c = Some s" "sub_id s = p" "w < active s"
    "observed ph = ctx_epoch ?c" "in_flight (ctx_caller ?c)" "job_inv ?c s"
    by (rule held_pointer [OF inv' h]) (use w' in auto)
  have "job_ok (unat (ctx_worker_count ?c)) (ctx_epoch ?c) ((ctx_workers ?c)(w := ph))
     (ctx_results ?c) (ctx_calls ?c) s"
    using s(6) w' by (rule_tac job_move_only) (auto simp: finished_phase_def)
  then have job: "job_inv (set_phase w ph ?c) s" by simp
  show ?thesis
  proof (rule pool_phase [OF inv'])
    show "(\<forall>ph'. ctx_workers ?c w \<noteq> W_notify ph') \<or> (\<forall>v x. ctx_workers ?c v \<noteq> W_asleep x)"
      by (simp add: notify_workers_def)
  qed (use w w' s h shape job in \<open>auto simp: notify_workers_def\<close>)
qed

lemma worker_step_keeps:
  assumes "pool_inv c" "w < unat (ctx_worker_count c)" "worker_step w c = Some c'"
  shows "pool_inv c'"
proof (cases "ctx_workers c w")
  case (W_wait e)
  show ?thesis
  proof (cases "ctx_stopping c \<or> ctx_epoch c \<noteq> e")
    case True
    then have "take_work w e c = Some c'" using assms(3) W_wait by (simp add: worker_step_def)
    then show ?thesis using take_work_keeps [OF assms(1,2) W_wait] True by blast
  next
    case False
    then have "c' = set_phase w (W_asleep e) c" using assms(3) W_wait by (simp add: worker_step_def)
    then show ?thesis using sleep_keeps [OF assms(1,2) W_wait False] by simp
  qed
next
  case (W_notify ph)
  then have "c' = set_phase w ph (notify_workers c)" using assms(3) by (simp add: worker_step_def)
  then show ?thesis using notify_keeps [OF assms(1) W_notify assms(2)] by simp
next
  case (W_preflight e p)
  then show ?thesis using assms(3) call_preflight_keeps [OF assms(1)] by (simp add: worker_step_def)
next
  case (W_preflight_returned e p status)
  then show ?thesis using assms(3) leave_preflight_keeps [OF assms(1)] by (simp add: worker_step_def)
next
  case (W_preflight_wait e p)
  then show ?thesis using assms(3) test_barrier_keeps [OF assms(1)] by (simp add: worker_step_def)
next
  case (W_tasks e p i)
  then show ?thesis using assms(3) call_task_keeps [OF assms(1)] by (simp add: worker_step_def)
next
  case (W_finish e p)
  then show ?thesis using assms(3) finish_worker_keeps [OF assms(1)] by (simp add: worker_step_def)
qed (use assms(3) in \<open>simp_all add: worker_step_def\<close>)

section \<open>Steps of the caller and of the environment\<close>

lemma idle_phase:
  "held ph = None \<Longrightarrow> interrupted_ok ph \<Longrightarrow>
     (\<exists>x. ph = W_wait x) \<or> (\<exists>x. ph = W_asleep x) \<or> (\<exists>x. ph = W_exited x)"
  by (cases ph rule: interrupted_ok.cases) auto

text \<open>A new submission: every worker has yet to see it.\<close>

lemma publish_keeps:
  assumes inv: "pool_inv c" and caller: "ctx_caller c = C_locked a" and go: "\<not> ctx_stopping c"
  shows "pool_inv (publish a c)"
proof -
  note inv' = pool_invD [OF inv]
  have args: "run_tasks_check (ctx_worker_count c) False a = None" "ctx_submissions c + 1 < 2 ^ 64"
    "unat (arg_task_count a) + unat (arg_active_threads a) \<le> 2 ^ 64"
    using inv'(7) [OF caller] by (auto simp: arguments_ok_def admissible_def)
  have check: "arg_active_threads a \<noteq> 0" "arg_active_threads a \<le> ctx_worker_count c"
    "u32_to_u64 (arg_active_threads a) \<le> arg_task_count a"
    using args(1) by (auto simp: run_tasks_check_def split: if_splits)
  have "unat (u32_to_u64 (arg_active_threads a)) \<le> unat (arg_task_count a)"
    using check(3) by (simp only: word_le_nat_alt)
  then have sizes: "0 < unat (arg_active_threads a)" "unat (arg_active_threads a) \<le> unat (ctx_worker_count c)"
    "unat (arg_active_threads a) \<le> unat (arg_task_count a)"
    using check(1,2) by (simp_all add: word_le_nat_alt unat_gt_0)
  have epoch: "unat (ctx_epoch c + 1) = ctx_submissions c + 1"
    using inv'(1) args(2) unat_inc64 [of "ctx_epoch c"] by (simp add: epochs_ok_def)
  have unseen: "observed (ctx_workers c w) \<noteq> ctx_epoch c + 1" for w
  proof
    assume "observed (ctx_workers c w) = ctx_epoch c + 1"
    moreover have "unat (observed (ctx_workers c w)) \<le> ctx_submissions c"
      using inv'(1) by (simp add: epochs_ok_def)
    ultimately show False using epoch by simp
  qed
  have none_held: "held (ctx_workers c w) = None" for w
    using inv'(3) caller by (cases "held (ctx_workers c w)") (auto simp: pointers_ok_def)
  have phases: "(\<exists>x. ctx_workers c w = W_wait x) \<or> (\<exists>x. ctx_workers c w = W_asleep x)" for w
  proof -
    have "\<nexists>e. ctx_workers c w = W_exited e" using inv'(5) go by (auto simp: stopping_ok_def)
    then show ?thesis using idle_phase [OF none_held pool_invD(6) [OF inv], of w] by blast
  qed
  let ?e = "ctx_epoch c + 1"
  let ?c = "publish a c"
  define s where "s = \<lparr>sub_id = ctx_submissions c, sub_task_count = arg_task_count a,
     sub_active_threads = arg_active_threads a, sub_preflight = arg_preflight a,
     sub_task = the (arg_task a), sub_completed_preflights = 0, sub_preflight_failed = False,
     sub_completed_workers = 0\<rparr>"
  have frame: "ctx_frame ?c = Some s" by (simp add: publish_def s_def)
  have "finished_workers ?e (ctx_workers c) s = {}"
    using unseen by (auto simp: finished_workers_def finished_phase_def)
  moreover have "\<not> counted_phase ?e (ctx_workers c w)" for w
    using phases [of w] unseen [of w] by auto
  then have "counted_workers ?e (ctx_workers c) s = {}" by (auto simp: counted_workers_def)
  moreover have "local_ok s ?e w fresh_result [] (ctx_workers c w)" for w
    using phases [of w] unseen [of w] by auto
  ultimately have job: "job_inv ?c s"
    using sizes args(3)
    by (auto simp: job_ok_def publish_def s_def sizes_ok_def preflights_ok_def split: option.splits)
  have "epochs_ok ?c" using inv'(1) args(2) epoch by (auto simp: epochs_ok_def publish_def le_SucI)
  moreover have "frame_ok ?c" using job frame by (simp add: frame_ok_def) (simp add: publish_def s_def)
  moreover have "pointers_ok ?c" using none_held by (simp add: pointers_ok_def publish_def)
  moreover have "sleepers_ok ?c" using go by (simp add: sleepers_ok_def publish_def)
  moreover have "stopping_ok ?c" using inv'(5) caller go by (auto simp: stopping_ok_def publish_def)
  ultimately show ?thesis using inv'(6) by (simp add: pool_inv_def) (simp add: publish_def)
qed

text \<open>A caller phase that is neither in flight nor collecting.\<close>

fun outside :: "caller_phase \<Rightarrow> bool" where
  "outside C_collect = False"
| "outside ph = (\<not> in_flight ph)"

lemma pool_caller:
  assumes inv: "pool_inv c"
    and c': "ctx_caller c' = ph" "ctx_frame c' = None" "ctx_worker_count c' = ctx_worker_count c"
      "ctx_workers c' = ctx_workers c" "ctx_epoch c' = ctx_epoch c"
      "ctx_submissions c' = ctx_submissions c" "ctx_submission c' = ctx_submission c"
    and old: "outside (ctx_caller c) \<or> ctx_caller c = C_collect" and new: "outside ph"
    and stop: "ctx_stopping c \<Longrightarrow> ctx_stopping c'" "shutting_down ph \<Longrightarrow> ctx_stopping c'"
      "ctx_workers_joined c' \<Longrightarrow> ctx_stopping c'"
    and joined: "ctx_workers_joined c' \<Longrightarrow> \<not> ctx_workers_joined c \<Longrightarrow>
      \<forall>w < unat (ctx_worker_count c). \<exists>e. ctx_workers c w = W_exited e"
    and join: "\<And>k w. ph = S_join k \<Longrightarrow> w < k \<Longrightarrow> w < unat (ctx_worker_count c) \<Longrightarrow>
      \<exists>e. ctx_workers c w = W_exited e"
    and sleepers: "ctx_stopping c' \<Longrightarrow> ph \<noteq> S_notify \<Longrightarrow> ctx_stopping c \<and> ctx_caller c \<noteq> S_notify"
    and args: "\<And>a. ph = C_locked a \<Longrightarrow> arguments_ok c a"
  shows "pool_inv c'"
proof -
  note inv' = pool_invD [OF inv]
  have flight: "\<not> in_flight (ctx_caller c)" using old by (cases "ctx_caller c") auto
  then have none_held: "held (ctx_workers c w) = None" for w
    using inv'(3) by (cases "held (ctx_workers c w)") (auto simp: pointers_ok_def)
  have no_notify: "ctx_workers c v \<noteq> W_notify ph'" for v ph'
    using idle_phase [OF none_held pool_invD(6) [OF inv], of v] by auto
  have sub: "ctx_submission c = None"
    using inv'(2) flight by (auto simp: frame_ok_def split: option.splits if_splits)
  have flight': "\<not> in_flight ph" "ph \<noteq> C_collect" "ph \<noteq> C_notify" using new by (cases ph; auto)+
  have "epochs_ok c'" using inv'(1) by (simp add: epochs_ok_def c')
  moreover have "frame_ok c'" using sub flight' by (simp add: frame_ok_def c')
  moreover have "pointers_ok c'" using none_held by (simp add: pointers_ok_def c')
  moreover have "ctx_caller c \<noteq> C_notify" using flight by auto
  then have "sleepers_ok c'"
    using inv'(4) flight' no_notify sleepers by (auto simp: sleepers_ok_def c')
  moreover have "stopping_ok c'"
    using inv'(5) stop join joined by (auto simp: stopping_ok_def c')
  ultimately show ?thesis
    using inv'(6) args by (auto simp: pool_inv_def c' arguments_ok_def admissible_def)
qed

lemma no_frame:
  assumes "pool_inv c" "outside (ctx_caller c)"
  shows "ctx_frame c = None"
proof -
  have "\<not> in_flight (ctx_caller c)" "ctx_caller c \<noteq> C_collect" using assms(2) by (cases "ctx_caller c"; auto)+
  then show ?thesis using pool_invD(2) [OF assms(1)] by (auto simp: frame_ok_def split: option.splits)
qed

lemma caller_step_keeps:
  assumes inv: "pool_inv c" and step: "caller_step c = Some c'"
  shows "pool_inv c'"
proof (cases "ctx_caller c")
  case (C_locked a)
  show ?thesis
  proof (cases "ctx_stopping c")
    case True
    then have "c' = c\<lparr>ctx_caller := C_free, ctx_last_status := Some ex_context_stopping\<rparr>"
      using step C_locked by (simp add: caller_step_def)
    then show ?thesis
      using no_frame [OF inv] C_locked True pool_invD(5) [OF inv]
      by (intro pool_caller [OF inv, where ph = C_free]) (auto simp: stopping_ok_def)
  next
    case False
    then have "c' = publish a c" using step C_locked by (simp add: caller_step_def)
    then show ?thesis using publish_keeps [OF inv C_locked False] by simp
  qed
next
  case C_notify
  then have c': "c' = (notify_workers c)\<lparr>ctx_caller := C_wait\<rparr>" using step by (simp add: caller_step_def)
  show ?thesis
    using pool_notify_workers [OF inv] C_notify unfolding c'
    by (auto simp: pool_inv_def epochs_ok_def frame_ok_def pointers_ok_def sleepers_ok_def stopping_ok_def
        notify_workers_def split: option.splits)
next
  case C_wait
  then obtain s where s: "ctx_frame c = Some s"
    using step by (auto simp: caller_step_def split: option.splits)
  show ?thesis
  proof (cases "sub_completed_workers s = sub_active_threads s")
    case True
    then have c': "c' = c\<lparr>ctx_submission := None, ctx_caller := C_collect\<rparr>"
      using step C_wait s by (simp add: caller_step_def)
    have "card (finished_workers (ctx_epoch c) (ctx_workers c) s) = active s"
      using frame_in_flight [OF pool_invD(2) [OF inv] s] True by (simp add: job_ok_def)
    then have "w < active s \<Longrightarrow> held (ctx_workers c w) = None" for w
      using all_workers by (fastforce simp: finished_phase_def)
    then have "held (ctx_workers c w) = None" for w
      using pool_invD(3) [OF inv] s unfolding pointers_ok_def
      by (metis option.exhaust option.inject)
    then show ?thesis
      using inv C_wait s True unfolding c'
      by (auto simp: pool_inv_def epochs_ok_def frame_ok_def pointers_ok_def sleepers_ok_def stopping_ok_def)
  next
    case False
    then have c': "c' = c\<lparr>ctx_caller := C_asleep\<rparr>" using step C_wait s by (simp add: caller_step_def)
    show ?thesis
      using inv C_wait s False unfolding c'
      by (auto simp: pool_inv_def epochs_ok_def frame_ok_def pointers_ok_def sleepers_ok_def stopping_ok_def)
  qed
next
  case C_collect
  then obtain s where s: "ctx_frame c = Some s"
    using step by (auto simp: caller_step_def split: option.splits)
  then have "c' = c\<lparr>ctx_completed_submissions := ctx_completed_submissions c + 1,
      ctx_last_status := Some (submission_result c (sub_active_threads s)), ctx_frame := None,
      ctx_caller := C_free\<rparr>" using step C_collect by (simp add: caller_step_def)
  then show ?thesis
    using C_collect pool_invD(5) [OF inv]
    by (intro pool_caller [OF inv, where ph = C_free]) (auto simp: stopping_ok_def)
next
  case S_locked
  then have nf: "ctx_frame c = None" using no_frame [OF inv] by simp
  show ?thesis
  proof (cases "ctx_stopping c \<and> ctx_workers_joined c")
    case True
    then have c': "c' = c\<lparr>ctx_caller := C_free\<rparr>" using step S_locked by (simp add: caller_step_def)
    show ?thesis
      by (rule pool_caller [OF inv, where ph = C_free]) (use c' nf True S_locked in simp_all)
  next
    case False
    then have c': "c' = c\<lparr>ctx_stopping := True, ctx_caller := S_notify\<rparr>"
      using step S_locked by (auto simp: caller_step_def)
    show ?thesis
      by (rule pool_caller [OF inv, where ph = S_notify]) (use c' nf False S_locked in simp_all)
  qed
next
  case S_notify
  then have "c' = (notify_workers c)\<lparr>ctx_caller := S_join 0\<rparr>" using step by (simp add: caller_step_def)
  then show ?thesis
    using pool_notify_workers [OF inv] S_notify no_frame [OF inv]
    by (auto simp: pool_inv_def epochs_ok_def frame_ok_def pointers_ok_def sleepers_ok_def stopping_ok_def
        notify_workers_def)
next
  case (S_join k)
  show ?thesis
  proof (cases "ctx_workers_joined c \<or> k \<ge> unat (ctx_worker_count c)")
    case True
    then have c': "c' = c\<lparr>ctx_workers_joined := True, ctx_caller := C_free\<rparr>"
      using step S_join by (simp add: caller_step_def)
    have stopped: "ctx_stopping c"
      "\<forall>w. w < k \<and> w < unat (ctx_worker_count c) \<longrightarrow> (\<exists>e. ctx_workers c w = W_exited e)"
      using pool_invD(5) [OF inv] S_join by (auto simp: stopping_ok_def)
    have "\<forall>w < unat (ctx_worker_count c). \<exists>e. ctx_workers c w = W_exited e"
      if "\<not> ctx_workers_joined c" using stopped(2) True that by auto
    then show ?thesis
      using S_join stopped(1) no_frame [OF inv]
      by (intro pool_caller [OF inv, where ph = C_free]) (simp_all add: c')
  next
    case False
    then obtain x where x: "ctx_workers c k = W_exited x" "c' = c\<lparr>ctx_caller := S_join (k + 1)\<rparr>"
      using step S_join by (auto simp: caller_step_def split: worker_phase.splits)
    then show ?thesis
      using S_join pool_invD(5) [OF inv] no_frame [OF inv]
      by (intro pool_caller [OF inv, where ph = "S_join (k + 1)"])
        (auto simp: stopping_ok_def less_Suc_eq)
  qed
qed (use step in \<open>simp_all add: caller_step_def\<close>)

lemma external_step_keeps:
  assumes inv: "pool_inv c" and step: "external_step c c'"
  shows "pool_inv c'"
  using step
proof cases
  case (run_tasks a)
  then show ?thesis
    using no_frame [OF inv] pool_invD(5) [OF inv]
    by (intro pool_caller [OF inv, where ph = "C_locked a"]) (auto simp: stopping_ok_def arguments_ok_def)
next
  case shutdown
  then show ?thesis
    using no_frame [OF inv] pool_invD(5) [OF inv]
    by (intro pool_caller [OF inv, where ph = S_locked]) (auto simp: stopping_ok_def)
next
  case (spurious_work w e)
  have job: "job_inv (set_phase w (W_wait e) c) s" if "ctx_frame c = Some s" for s
    using frame_in_flight [OF pool_invD(2) [OF inv] that] spurious_work(3)
    by simp (rule job_move_only, auto simp: finished_phase_def)
  show ?thesis unfolding spurious_work(1)
    by (rule pool_phase [OF inv spurious_work(2)]) (use spurious_work(3) job in auto)
next
  case (spurious_preflight w e p)
  then have h: "held (ctx_workers c w) = Some p" by simp
  have job: "job_inv (set_phase w (W_preflight_wait e p) c) s" if "ctx_frame c = Some s" for s
    using frame_in_flight [OF pool_invD(2) [OF inv] that] spurious_preflight(3)
    by simp (rule job_move_only, auto simp: finished_phase_def)
  show ?thesis unfolding spurious_preflight(1)
    by (rule held_pointer [OF inv h], rule pool_phase [OF inv spurious_preflight(2)])
      (use spurious_preflight(3) job in auto)
next
  case spurious_submitter
  then show ?thesis
    using inv
    by (auto simp: pool_inv_def epochs_ok_def frame_ok_def pointers_ok_def sleepers_ok_def stopping_ok_def
        split: option.splits if_splits)
qed

section \<open>Every reachable state\<close>

lemma fresh_pool: "pool_inv (fresh_context n)"
  by (simp add: pool_inv_def epochs_ok_def frame_ok_def pointers_ok_def sleepers_ok_def stopping_ok_def
      fresh_context_def)

lemma reachable_pool: "reachable n c \<Longrightarrow> pool_inv c"
proof (induction rule: reachable.induct)
  case start
  show ?case by (rule fresh_pool)
next
  case (internal c c')
  from internal(2) show ?case
    by cases (use internal(3) worker_step_keeps caller_step_keeps in blast)+
next
  case (external c c')
  then show ?case using external_step_keeps by blast
qed

end
