(* ===== verification/ExecutionProperties.thy ===== *)
theory ExecutionProperties
  imports ExecutionInvariant
begin

text \<open>
  What the worker pool of \<^verbatim>\<open>ExecutionContext\<close> promises its callers: the result of a submission is
  that of a sequential run, every task runs once and on the worker it belongs to, no task starts before
  all preflights have succeeded, no worker uses a submission that is gone, and every call returns. All of
  it holds for every schedule of the workers, the callers, the callbacks that shut the context down, and
  the spurious wakeups; it follows from the invariant of \<^verbatim>\<open>ExecutionInvariant\<close>.
\<close>

section \<open>The result of a submission\<close>

text \<open>The specification: run all preflights, then all tasks one after the other in the order of their
  indices, task \<open>i\<close> by worker \<open>i mod active\<close>; the result is the first status that is not success.\<close>

definition first_failure :: "CpuExecutionStatusV1 list \<Rightarrow> CpuExecutionStatusV1" where
  "first_failure statuses =
    (case find (\<lambda>st. st \<noteq> ex_success) statuses of None \<Rightarrow> ex_success | Some st \<Rightarrow> st)"

definition preflight_statuses :: "SubmissionV1 \<Rightarrow> CpuExecutionStatusV1 list" where
  "preflight_statuses s = (case sub_preflight s of None \<Rightarrow> []
     | Some preflight \<Rightarrow> map (\<lambda>w. cb_status (preflight w)) [0..<active s])"

definition task_statuses :: "SubmissionV1 \<Rightarrow> CpuExecutionStatusV1 list" where
  "task_statuses s = map (\<lambda>i. task_status s i (i mod active s)) [0..<unat (sub_task_count s)]"

definition sequential_result :: "SubmissionV1 \<Rightarrow> CpuExecutionStatusV1" where
  "sequential_result s = first_failure (preflight_statuses s @ task_statuses s)"

lemma first_failure_success: "first_failure xs = ex_success \<longleftrightarrow> (\<forall>x \<in> set xs. x = ex_success)"
  by (induction xs) (auto simp: first_failure_def)

lemma first_failure_append:
  "first_failure (xs @ ys) = (if first_failure xs = ex_success then first_failure ys else first_failure xs)"
  by (induction xs) (auto simp: first_failure_def)

lemma first_failure_at:
  assumes "j < n" "f j \<noteq> ex_success" "\<And>i. i < j \<Longrightarrow> f i = ex_success"
  shows "first_failure (map f [0..<n]) = f j"
proof -
  have "[0..<n] = [0..<j] @ j # [Suc j..<n]"
    using assms(1) upt_add_eq_append [of 0 j "n - j"] by (simp add: upt_conv_Cons)
  moreover have "first_failure (map f [0..<j]) = ex_success"
    using assms(3) by (auto simp: first_failure_success)
  ultimately show ?thesis
    using assms(2) by (simp add: first_failure_append) (simp add: first_failure_def)
qed

text \<open>The reduction over the results array finds the least failed task, the first worker on ties.\<close>

lemma reduce_results:
  fixes rs :: "nat \<Rightarrow> WorkerResultV1"
  defines "acc k \<equiv> fold (reduce_result rs) [0..<k] (ex_success, u64_max)"
  shows "acc k = (ex_success, u64_max) \<and> (\<forall>w<k. wr_first_failed_task (rs w) = u64_max) \<or>
    (\<exists>w<k. acc k = (wr_status (rs w), wr_first_failed_task (rs w)) \<and>
       wr_first_failed_task (rs w) < u64_max \<and>
       (\<forall>v<k. wr_first_failed_task (rs w) \<le> wr_first_failed_task (rs v)) \<and>
       (\<forall>v<w. wr_first_failed_task (rs w) < wr_first_failed_task (rs v)))"
proof (induction k)
  case 0
  show ?case by (simp add: acc_def)
next
  case (Suc k)
  have acc: "acc (Suc k) = reduce_result rs k (acc k)" by (simp add: acc_def)
  have top: "x < u64_max \<or> x = u64_max" for x :: u64 using u64_le_max [of x] by (auto simp: order.order_iff_strict)
  from Suc.IH show ?case
  proof (elim disjE exE conjE)
    assume old: "acc k = (ex_success, u64_max)" "\<forall>w<k. wr_first_failed_task (rs w) = u64_max"
    show ?thesis
      using top [of "wr_first_failed_task (rs k)"] old
      by (auto simp: acc reduce_result_def less_Suc_eq intro!: exI [of _ k])
  next
    fix w assume w: "w < k" "acc k = (wr_status (rs w), wr_first_failed_task (rs w))"
      "wr_first_failed_task (rs w) < u64_max"
      "\<forall>v<k. wr_first_failed_task (rs w) \<le> wr_first_failed_task (rs v)"
      "\<forall>v<w. wr_first_failed_task (rs w) < wr_first_failed_task (rs v)"
    show ?thesis
    proof (cases "wr_first_failed_task (rs k) < wr_first_failed_task (rs w)")
      case True
      then show ?thesis
        using w by (intro disjI2 exI [of _ k])
          (auto simp: acc reduce_result_def less_Suc_eq intro: less_imp_le order.strict_trans1 less_le_trans)
    next
      case False
      then show ?thesis
        using w by (intro disjI2 exI [of _ w])
          (auto simp: acc reduce_result_def less_Suc_eq not_less)
    qed
  qed
qed

lemma reduce_to_least:
  assumes "w < k" "wr_first_failed_task (rs w) < u64_max"
    and "\<And>v. v < k \<Longrightarrow> wr_first_failed_task (rs w) \<le> wr_first_failed_task (rs v)"
    and "\<And>v. v < w \<Longrightarrow> wr_first_failed_task (rs w) < wr_first_failed_task (rs v)"
  shows "fst (fold (reduce_result rs) [0..<k] (ex_success, u64_max)) = wr_status (rs w)"
  using reduce_results [of rs k]
proof (elim disjE exE conjE)
  fix v assume v: "v < k" "fold (reduce_result rs) [0..<k] (ex_success, u64_max) =
      (wr_status (rs v), wr_first_failed_task (rs v))"
    "\<forall>u<k. wr_first_failed_task (rs v) \<le> wr_first_failed_task (rs u)"
    "\<forall>u<v. wr_first_failed_task (rs v) < wr_first_failed_task (rs u)"
  then have "v = w" using assms by (metis linorder_neqE_nat not_less)
  then show ?thesis using v(2) by simp
qed (use assms in auto)

lemma reduce_to_success:
  assumes "\<And>v. v < k \<Longrightarrow> rs v = fresh_result"
  shows "fst (fold (reduce_result rs) [0..<k] (ex_success, u64_max)) = ex_success"
  using reduce_results [of rs k] assms by (elim disjE exE conjE) (auto simp: fresh_result_def)

section \<open>When the submission is complete\<close>

lemma complete_submission:
  assumes "reachable n c" "ctx_caller c = C_collect" "ctx_frame c = Some s"
  shows "sizes_ok (unat (ctx_worker_count c)) s"
    and "w < active s \<Longrightarrow> finished_ok s w (ctx_results c w) (ctx_calls c w)"
    and "sub_preflight s = Some preflight \<Longrightarrow> sub_preflight_failed s \<longleftrightarrow>
      (\<exists>w < active s. cb_status (preflight w) \<noteq> ex_success)"
    and "sub_preflight s = None \<Longrightarrow> \<not> sub_preflight_failed s"
proof -
  note inv = reachable_pool [OF assms(1)]
  have job: "job_inv c s" by (rule frame_in_flight [OF pool_invD(2) [OF inv] assms(3)])
  have all_done: "finished_phase (ctx_epoch c) (ctx_workers c v)" if "v < active s" for v
    using collected [OF inv assms(3) _ that] assms(2) by simp
  then have idle: "v < active s \<Longrightarrow> ctx_workers c v = W_wait (ctx_epoch c) \<or>
      ctx_workers c v = W_asleep (ctx_epoch c) \<or> ctx_workers c v = W_exited (ctx_epoch c)" for v
    using idle_phase [OF _ pool_invD(6) [OF inv, of v]] by (fastforce simp: finished_phase_def)
  then have "v < active s \<Longrightarrow> counted_phase (ctx_epoch c) (ctx_workers c v)" for v by fastforce
  then have "counted_workers (ctx_epoch c) (ctx_workers c) s = {..<active s}"
    by (auto simp: counted_workers_def)
  then show "sub_preflight s = Some preflight \<Longrightarrow> sub_preflight_failed s \<longleftrightarrow>
      (\<exists>w < active s. cb_status (preflight w) \<noteq> ex_success)"
    using job by (auto simp: job_ok_def preflights_ok_def)
  show "sub_preflight s = None \<Longrightarrow> \<not> sub_preflight_failed s"
    using job by (auto simp: job_ok_def preflights_ok_def)
  show "sizes_ok (unat (ctx_worker_count c)) s" using job by (simp add: job_ok_def)
  show "w < active s \<Longrightarrow> finished_ok s w (ctx_results c w) (ctx_calls c w)"
    using job idle [of w] by (fastforce simp: job_ok_def)
qed

lemma preflight_failure_result:
  assumes s: "reachable n c" "ctx_caller c = C_collect" "ctx_frame c = Some s"
    and failed: "sub_preflight_failed s"
  shows "submission_result c (sub_active_threads s) = sequential_result s"
    "sequential_result s \<noteq> ex_success"
proof -
  note complete = complete_submission [OF s]
  obtain preflight where pf: "sub_preflight s = Some preflight" using failed complete(4) by blast
  let ?bad = "\<lambda>w. w < active s \<and> cb_status (preflight w) \<noteq> ex_success"
  define w where "w = (LEAST w. ?bad w)"
  have "\<exists>w. ?bad w" using complete(3) [OF pf] failed by blast
  then have w: "?bad w" unfolding w_def by (rule LeastI_ex)
  have before: "cb_status (preflight v) = ex_success" if "v < w" for v
    using not_less_Least [of v ?bad] that w by (auto simp: w_def)
  have rs: "ctx_results c v = preflight_result preflight v" if "v < active s" for v
    using complete(2) [OF that] failed pf by (auto simp: finished_ok_def)
  have least: "first_failure (preflight_statuses s) = cb_status (preflight w)"
    using first_failure_at [of w "active s" "\<lambda>w. cb_status (preflight w)"] w before
    by (simp add: preflight_statuses_def pf)
  have "submission_result c (sub_active_threads s) = wr_status (ctx_results c w)"
    unfolding submission_result_def
  proof (rule reduce_to_least)
    show "wr_first_failed_task (ctx_results c w) < wr_first_failed_task (ctx_results c v)" if "v < w" for v
      using that w before [OF that] rs [of v] rs [of w]
      by (simp add: preflight_result_def fresh_result_def u64_max_def word_greater_zero_iff)
  qed (use w rs in \<open>simp_all add: preflight_result_def u64_max_def word_greater_zero_iff\<close>)
  then show "submission_result c (sub_active_threads s) = sequential_result s"
    using w rs [of w] least by (simp add: sequential_result_def first_failure_append preflight_result_def)
  show "sequential_result s \<noteq> ex_success"
    using w least by (simp add: sequential_result_def first_failure_append)
qed

lemma share_index:
  assumes "w < active s"
  shows "share s w k mod active s = w" "share s w k div active s = k"
  using assms by simp_all

lemma index_share:
  assumes "0 < active s"
  shows "share s (i mod active s) (i div active s) = i"
  by (simp add: mod_div_mult_eq)

lemma looped_cases:
  assumes "looped_ok s w r calls"
  obtains (all_passed) m where "passed_tasks s w m" "unat (sub_task_count s) \<le> share s w m"
      "r = fresh_result" "calls = calls_so_far s w m"
  | (stopped) m where "passed_tasks s w m" "share s w m < unat (sub_task_count s)"
      "task_status s (share s w m) w \<noteq> ex_success"
      "r = \<lparr>wr_status = task_status s (share s w m) w, wr_first_failed_task = of_nat (share s w m)\<rparr>"
      "calls = calls_so_far s w (Suc m)"
proof -
  obtain m where m: "passed_tasks s w m" "if unat (sub_task_count s) \<le> share s w m
      then r = fresh_result \<and> calls = calls_so_far s w m
      else task_status s (share s w m) w \<noteq> ex_success \<and>
        r = \<lparr>wr_status = task_status s (share s w m) w, wr_first_failed_task = of_nat (share s w m)\<rparr> \<and>
        calls = calls_so_far s w (Suc m)"
    using assms unfolding looped_ok_def by blast
  show thesis
  proof (cases "unat (sub_task_count s) \<le> share s w m")
    case True
    then show thesis using m by (intro all_passed [of m]) (simp_all only: if_True simp_thms)
  next
    case False
    then show thesis using m by (intro stopped [of m]) (simp_all only: if_False not_le simp_thms)
  qed
qed

lemma tasks_result:
  assumes s: "reachable n c" "ctx_caller c = C_collect" "ctx_frame c = Some s"
    and ok: "\<not> sub_preflight_failed s"
  shows "submission_result c (sub_active_threads s) = sequential_result s"
proof -
  note complete = complete_submission [OF s]
  let ?n = "unat (sub_task_count s)"
  let ?st = "\<lambda>i. task_status s i (i mod active s)"
  have sizes: "0 < active s" "?n + active s \<le> 2 ^ 64" using complete(1) by (simp_all add: sizes_ok_def)
  have looped: "looped_ok s w (ctx_results c w) (ctx_calls c w)" if "w < active s" for w
    using complete(2) [OF that] ok by (simp add: finished_ok_def)
  have "first_failure (preflight_statuses s) = ex_success"
    using complete(3) ok by (auto simp: first_failure_success preflight_statuses_def split: option.splits)
  then have seq: "sequential_result s = first_failure (task_statuses s)"
    by (simp add: sequential_result_def first_failure_append)
  show ?thesis
  proof (cases "\<exists>i < ?n. ?st i \<noteq> ex_success")
    case False
    have "ctx_results c w = fresh_result" if w: "w < active s" for w
      using looped [OF w]
    proof (cases rule: looped_cases)
      case (stopped m)
      then show ?thesis using False share_index(1) [OF w, of m] by (auto simp del: mod_mult_self1)
    qed
    then have "submission_result c (sub_active_threads s) = ex_success"
      unfolding submission_result_def by (rule reduce_to_success)
    moreover have "first_failure (task_statuses s) = ex_success"
      using False by (auto simp: first_failure_success task_statuses_def)
    ultimately show ?thesis using seq by simp
  next
    case True
    let ?bad = "\<lambda>i. i < ?n \<and> ?st i \<noteq> ex_success"
    define i where "i = (LEAST i. ?bad i)"
    have i: "?bad i" unfolding i_def by (rule LeastI_ex) (use True in blast)
    have least: "i \<le> j" if "?bad j" for j unfolding i_def using that by (rule Least_le)
    have expected: "sequential_result s = ?st i"
      unfolding seq task_statuses_def
    proof (rule first_failure_at)
      show "?st j = ex_success" if "j < i" for j using least [of j] i that by fastforce
    qed (use i in simp_all)
    let ?w = "i mod active s"
    have w: "?w < active s" using sizes(1) by simp
    text \<open>A worker that stopped early stopped at a failed task, none of which comes before \<open>i\<close>.\<close>
    have other: "ctx_results c v = fresh_result \<or>
        (\<exists>j. i \<le> j \<and> j < ?n \<and> j mod active s = v \<and>
           ctx_results c v = \<lparr>wr_status = ?st j, wr_first_failed_task = of_nat j\<rparr>)" if v: "v < active s" for v
      using looped [OF v]
    proof (cases rule: looped_cases)
      case (stopped m)
      note idx = share_index(1) [OF v, of m]
      have "i \<le> share s v m" using stopped(2,3) idx by (intro least) (simp only: simp_thms)
      moreover have "ctx_results c v = \<lparr>wr_status = ?st (share s v m), wr_first_failed_task = of_nat (share s v m)\<rparr>"
        using stopped(4) by (simp only: idx)
      ultimately show ?thesis using stopped(2) idx by blast
    qed simp
    have mine: "ctx_results c ?w = \<lparr>wr_status = ?st i, wr_first_failed_task = of_nat i\<rparr>"
    proof -
      have here: "share s ?w (i div active s) = i" using index_share [OF sizes(1)] .
      have reach: "\<not> i div active s < m" if "passed_tasks s ?w m" for m
        using that here i by (auto simp: passed_tasks_def)
      show ?thesis
        using looped [OF w]
      proof (cases rule: looped_cases)
        case (all_passed m)
        have "i div active s < m"
        proof (rule ccontr)
          assume "\<not> i div active s < m"
          then have "m * active s \<le> i div active s * active s" by (intro mult_right_mono) simp_all
          then have "share s ?w m \<le> share s ?w (i div active s)" by (rule add_left_mono)
          then have "share s ?w m \<le> i" unfolding here .
          then show False using all_passed(2) i by linarith
        qed
        then show ?thesis using reach [OF all_passed(1)] by blast
      next
        case (stopped m)
        have "share s ?w m \<ge> i"
          using stopped(2,3) share_index(1) [OF w, of m] by (intro least) (simp only: simp_thms)
        then have "share s ?w (i div active s) \<le> share s ?w m" unfolding here .
        then have "i div active s \<le> m" using sizes(1) by (simp only: add_le_cancel_left mult_le_cancel2 simp_thms)
        then have "m = i div active s" using reach [OF stopped(1)] by linarith
        then have "share s ?w m = i" using here by simp
        then show ?thesis using stopped(4) by (simp only:)
      qed
    qed
    have small: "j < 2 ^ 64 - 1" if "j < ?n" for j using that sizes by linarith
    then have num: "unat (of_nat j :: u64) = j" "(of_nat j :: u64) < u64_max" if "j < ?n" for j
      using that unat_of_nat_exp64 [of j] by (force simp: word_less_nat_alt)+
    have "submission_result c (sub_active_threads s) = wr_status (ctx_results c ?w)"
      unfolding submission_result_def
    proof (rule reduce_to_least [OF w])
      show "wr_first_failed_task (ctx_results c ?w) < u64_max" using num(2) i by (simp add: mine)
      have le: "wr_first_failed_task (ctx_results c ?w) \<le> wr_first_failed_task (ctx_results c v) \<and>
          (v \<noteq> ?w \<longrightarrow> wr_first_failed_task (ctx_results c ?w) < wr_first_failed_task (ctx_results c v))"
        if v: "v < active s" for v
        using other [OF v]
      proof (elim disjE exE conjE)
        assume "ctx_results c v = fresh_result"
        then show ?thesis using num(2) [of i] i by (simp add: mine fresh_result_def less_imp_le)
      next
        fix j assume j: "i \<le> j" "j < ?n" "j mod active s = v"
          "ctx_results c v = \<lparr>wr_status = ?st j, wr_first_failed_task = of_nat j\<rparr>"
        then have "v \<noteq> ?w \<Longrightarrow> i < j" by (cases "i = j") auto
        then show ?thesis using j num(1) i by (auto simp: mine word_le_nat_alt word_less_nat_alt)
      qed
      show "wr_first_failed_task (ctx_results c ?w) \<le> wr_first_failed_task (ctx_results c v)"
        if "v < active s" for v using le [OF that] by blast
      show "wr_first_failed_task (ctx_results c ?w) < wr_first_failed_task (ctx_results c v)"
        if "v < ?w" for v using le [of v] that w by auto
    qed
    then show ?thesis using expected by (simp add: mine)
  qed
qed

lemma result_sequential:
  assumes "reachable n c" "ctx_caller c = C_collect" "ctx_frame c = Some s"
  shows "submission_result c (sub_active_threads s) = sequential_result s"
  using assms preflight_failure_result(1) tasks_result by blast

section \<open>Properties\<close>

text \<open>C21: Whatever the interleaving of workers, the value \<^verbatim>\<open>run_tasks_with_preflight\<close> returns is
  the one a sequential run would give: the status of the first failed preflight if there is one, else
  the status of the failed task of least index, else success.\<close>

theorem submission_result_exact:
  assumes "reachable n c" "ctx_caller c = C_collect" "ctx_frame c = Some s"
  shows "submission_result c (sub_active_threads s) = sequential_result s"
  using assms by (rule result_sequential)

text \<open>C20: A submission that succeeds has run every preflight once and every task exactly once: worker
  \<open>w\<close> ran, in this order, its preflight and the tasks whose index is \<open>w\<close> modulo the number of active
  threads.\<close>

theorem every_task_once:
  assumes "reachable n c" "ctx_caller c = C_collect" "ctx_frame c = Some s"
    and "submission_result c (sub_active_threads s) = ex_success" "w < unat (sub_active_threads s)"
  shows "ctx_calls c w = (if sub_preflight s = None then [] else [Call_preflight]) @
    map (\<lambda>i. Call_task (of_nat i))
      (filter (\<lambda>i. i mod unat (sub_active_threads s) = w) [0..<unat (sub_task_count s)])"
proof -
  note complete = complete_submission [OF assms(1-3)]
  let ?n = "unat (sub_task_count s)"
  have seq: "sequential_result s = ex_success"
    using assms(4) result_sequential [OF assms(1-3)] by simp
  then have ok: "\<not> sub_preflight_failed s" using preflight_failure_result(2) [OF assms(1-3)] by blast
  have good: "task_status s i (i mod active s) = ex_success" if "i < ?n" for i
    using seq that
    by (auto simp: sequential_result_def first_failure_append first_failure_success task_statuses_def
        split: if_splits)
  have "looped_ok s w (ctx_results c w) (ctx_calls c w)"
    using complete(2) [OF assms(5)] ok by (simp add: finished_ok_def)
  then obtain m where m: "passed_tasks s w m" "?n \<le> share s w m" "ctx_calls c w = calls_so_far s w m"
  proof (cases rule: looped_cases)
    case (stopped m)
    then show thesis using good [of "share s w m"] share_index(1) [OF assms(5), of m] by metis
  qed
  have "map (share s w) [0..<m] = filter (\<lambda>i. i mod active s = w) [0..<?n]"
  proof (rule sorted_distinct_set_unique)
    show "sorted (map (share s w) [0..<m])" by (simp add: sorted_iff_nth_mono)
    show "distinct (map (share s w) [0..<m])" using assms(5) by (auto simp: distinct_map inj_on_def)
    show "set (map (share s w) [0..<m]) = set (filter (\<lambda>i. i mod active s = w) [0..<?n])"
    proof (intro equalityI subsetI)
      fix i assume "i \<in> set (filter (\<lambda>i. i mod active s = w) [0..<?n])"
      then have i: "i < ?n" "i mod active s = w" by auto
      then have "i = share s w (i div active s)" using index_share [of s i] assms(5) by simp
      moreover have "i div active s < m"
      proof (rule ccontr)
        assume "\<not> i div active s < m"
        then have "share s w m \<le> share s w (i div active s)" by simp
        then show False using m(2) i(1) \<open>i = share s w (i div active s)\<close> by linarith
      qed
      ultimately show "i \<in> set (map (share s w) [0..<m])" by force
    qed (use m(1) share_index(1) [OF assms(5)] in \<open>auto simp: passed_tasks_def\<close>)
  qed (simp_all add: sorted_wrt_filter)
  then show ?thesis
    unfolding m(3) calls_so_far_def by (metis (no_types, lifting) comp_apply map_eq_conv map_map)
qed

text \<open>C22: A worker never follows a dangling pointer: while it holds \<^verbatim>\<open>current\<close>, the object on the
  submitter's stack is alive, it is the one the context points to, the submitter has not yet seen the
  submission complete, and the worker is one of its active workers.\<close>

theorem no_dangling_submission:
  assumes "reachable n c" "held (ctx_workers c w) = Some p"
  shows "\<exists>s. deref c p = Some s \<and> ctx_submission c = Some p \<and> w < unat (sub_active_threads s) \<and>
    ctx_caller c \<in> {C_notify, C_wait, C_asleep}"
proof -
  note inv = reachable_pool [OF assms(1)]
  obtain s where "ctx_frame c = Some s" "deref c p = Some s" "sub_id s = p" "w < active s"
    "in_flight (ctx_caller c)"
    by (rule held_pointer [OF inv assms(2)])
  moreover from this have "ctx_caller c \<in> {C_notify, C_wait, C_asleep}" by (cases "ctx_caller c") auto
  ultimately show ?thesis
    using in_flight_submission [OF pool_invD(2) [OF inv]] by blast
qed

lemma task_called_open:
  assumes "local_ok s e v r calls ph" "interrupted_ok ph" "Call_task i \<in> set calls"
  shows "barrier_open s"
  using assms by (cases ph rule: interrupted_ok.cases) (auto simp: finished_ok_def split: if_splits)

lemma counted_calls:
  assumes "local_ok s e w r calls ph" "interrupted_ok ph" "sub_preflight s \<noteq> None" "counted_phase e ph"
  obtains rest where "calls = Call_preflight # rest" "Call_preflight \<notin> set rest"
proof -
  have so_far: "\<exists>rest. calls_so_far s w m = Call_preflight # rest \<and> Call_preflight \<notin> set rest" for m
    using assms(3) by (auto simp: calls_so_far_def)
  have "calls = [Call_preflight] \<or> (\<exists>m. calls = calls_so_far s w m)"
    using assms
    by (cases ph rule: interrupted_ok.cases)
      (auto simp: finished_ok_def looped_ok_def looping_ok_def split: if_splits)
  then show thesis using so_far that by (metis empty_iff list.set(1))
qed

text \<open>C2: No worker calls a task before every active worker has called its preflight, exactly once, and
  all of them succeeded.\<close>

theorem preflight_barrier:
  assumes "reachable n c" "ctx_frame c = Some s" "sub_preflight s = Some preflight"
    and "v < unat (sub_active_threads s)" "Call_task i \<in> set (ctx_calls c v)"
    and "w < unat (sub_active_threads s)"
  shows "cb_status (preflight w) = ex_success \<and> hd (ctx_calls c w) = Call_preflight \<and>
    count_list (ctx_calls c w) Call_preflight = 1"
proof -
  note inv = reachable_pool [OF assms(1)]
  have job: "job_inv c s" by (rule frame_in_flight [OF pool_invD(2) [OF inv] assms(2)])
  have local: "local_ok s (ctx_epoch c) u (ctx_results c u) (ctx_calls c u) (ctx_workers c u)"
    if "u < active s" for u using job that by (simp add: job_ok_def)
  have "barrier_open s" by (rule task_called_open [OF local [OF assms(4)] pool_invD(6) [OF inv] assms(5)])
  then have "\<not> sub_preflight_failed s" "unat (sub_completed_preflights s) = active s"
    using assms(3) by (auto simp: barrier_open_def)
  moreover from this have "counted_phase (ctx_epoch c) (ctx_workers c w)"
    using job assms(3) missing_worker(2) [OF assms(6), of "ctx_epoch c" "ctx_workers c"]
    by (auto simp: job_ok_def preflights_ok_def)
  moreover from this have "w \<in> counted_workers (ctx_epoch c) (ctx_workers c) s"
    using assms(6) by (simp add: counted_workers_def)
  ultimately have "cb_status (preflight w) = ex_success"
    using job assms(3) by (auto simp: job_ok_def preflights_ok_def)
  moreover obtain rest where "ctx_calls c w = Call_preflight # rest" "Call_preflight \<notin> set rest"
    by (rule counted_calls [OF local [OF assms(6)] pool_invD(6) [OF inv] _
          \<open>counted_phase (ctx_epoch c) (ctx_workers c w)\<close>]) (use assms(3) in auto)
  ultimately show ?thesis by (simp add: count_list_0_iff)
qed

section \<open>Progress\<close>

lemma awake_worker_steps:
  assumes inv: "pool_inv c" and w: "w < unat (ctx_worker_count c)"
    and blocked: "worker_step w c = None"
  shows "(\<exists>e. ctx_workers c w = W_asleep e) \<or> (\<exists>e p. ctx_workers c w = W_preflight_asleep e p) \<or>
    (\<exists>e. ctx_workers c w = W_exited e)"
proof (cases "held (ctx_workers c w)")
  case None
  have "deref c p \<noteq> None" if "ctx_submission c = Some p" for p
    using pool_invD(2) [OF inv] that by (auto simp: frame_ok_def deref_def split: option.splits if_splits)
  then have "take_work w e c \<noteq> None" for e
    by (auto simp: take_work_def Let_def split: option.splits)
  then show ?thesis
    using idle_phase [OF None pool_invD(6) [OF inv]] blocked
    by (auto simp: worker_step_def simp del: not_None_eq split: if_splits)
next
  case (Some p)
  obtain s where s: "deref c p = Some s"
    "local_ok s (ctx_epoch c) w (ctx_results c w) (ctx_calls c w) (ctx_workers c w)"
    by (rule held_pointer [OF inv Some])
  show ?thesis
    using s Some blocked pool_invD(6) [OF inv, of w]
    by (cases "ctx_workers c w")
      (auto simp: worker_step_def call_preflight_def leave_preflight_def test_barrier_def call_task_def
        finish_worker_def Let_def split: if_splits)
qed

lemma blocked_is_idle:
  assumes inv: "pool_inv c" and blocked: "\<And>c'. \<not> internal_step c c'"
  shows "ctx_caller c = C_free"
proof (rule ccontr)
  assume busy: "ctx_caller c \<noteq> C_free"
  note inv' = pool_invD [OF inv]
  have caller: "caller_step c = None" using blocked internal_step.caller by (cases "caller_step c") auto
  have worker: "worker_step w c = None" if "w < unat (ctx_worker_count c)" for w
    using blocked internal_step.worker that by (cases "worker_step w c") auto
  note asleep = awake_worker_steps [OF inv _ worker]
  have no_notify: "ctx_workers c w \<noteq> W_notify ph" if "w < unat (ctx_worker_count c)" for w ph
    using asleep [OF that that] by auto
  have cases: "ctx_caller c = C_asleep \<or> (\<exists>k. ctx_caller c = S_join k)"
    using caller busy inv'(2)
    by (cases "ctx_caller c") (auto simp: caller_step_def frame_ok_def split: option.splits if_splits)
  show False
    using cases
  proof
    assume c: "ctx_caller c = C_asleep"
    then obtain s where s: "ctx_frame c = Some s" "job_inv c s"
      "sub_completed_workers s \<noteq> sub_active_threads s"
      using inv'(2) by (auto simp: frame_ok_def split: option.splits)
    then have n: "active s \<le> unat (ctx_worker_count c)" by (simp add: job_ok_def sizes_ok_def)
    have phase: "(\<exists>e p. ctx_workers c w = W_preflight_asleep e p) \<or>
        finished_phase (ctx_epoch c) (ctx_workers c w)" if w: "w < active s" for w
    proof -
      have "w < unat (ctx_worker_count c)" using w n by simp
      moreover have "local_ok s (ctx_epoch c) w (ctx_results c w) (ctx_calls c w) (ctx_workers c w)"
        using s(2) w by (simp add: job_ok_def)
      ultimately show ?thesis
        using asleep [of w] inv'(4) c by (auto simp: sleepers_ok_def finished_phase_def)
    qed
    have "card (finished_workers (ctx_epoch c) (ctx_workers c) s) \<noteq> active s"
      using s(2,3) by (auto simp: job_ok_def word_unat_eq_iff)
    then obtain w where w: "w < active s" "\<not> finished_phase (ctx_epoch c) (ctx_workers c w)"
      by (auto simp: finished_workers_def) (metis (no_types, lifting) Collect_cong card_Collect_less_nat)
    then obtain e p where ph: "ctx_workers c w = W_preflight_asleep e p" using phase by blast
    then obtain preflight where pf: "sub_preflight s = Some preflight"
      "sub_completed_preflights s \<noteq> sub_active_threads s"
      using s(2) w(1) by (fastforce simp: job_ok_def)
    then have "card (counted_workers (ctx_epoch c) (ctx_workers c) s) \<noteq> active s"
      using s(2) by (auto simp: job_ok_def preflights_ok_def word_unat_eq_iff)
    moreover have "counted_phase (ctx_epoch c) (ctx_workers c v)" if v: "v < active s" for v
    proof -
      have "finished_phase (ctx_epoch c) (ctx_workers c v) \<Longrightarrow> ?thesis"
        using idle_phase [OF _ inv'(6), of v] by (auto simp: finished_phase_def)
      then show ?thesis using phase [OF v] by auto
    qed
    then have "counted_workers (ctx_epoch c) (ctx_workers c) s = {..<active s}"
      by (auto simp: counted_workers_def)
    ultimately show False by simp
  next
    assume "\<exists>k. ctx_caller c = S_join k"
    then obtain k where k: "ctx_caller c = S_join k" by blast
    then have stop: "ctx_stopping c" using inv'(5) by (auto simp: stopping_ok_def)
    have kn: "k < unat (ctx_worker_count c)" "\<nexists>e. ctx_workers c k = W_exited e"
      using caller k by (auto simp: caller_step_def split: if_splits worker_phase.splits)
    have "held (ctx_workers c w) = None" for w
      using inv'(3) k by (cases "held (ctx_workers c w)") (auto simp: pointers_ok_def)
    then have "ctx_workers c w \<noteq> W_notify ph" for w ph
      using idle_phase [OF _ inv'(6), of w] by auto
    then have "ctx_workers c k \<noteq> W_asleep e" for e
      using inv'(4) stop k by (auto simp: sleepers_ok_def)
    moreover have "held (ctx_workers c k) = None" by fact
    ultimately show False using asleep [OF kn(1) kn(1)] kn(2) by auto
  qed
qed

section \<open>Termination\<close>

text \<open>A measure every internal step lowers, in the lexicographic order: the way the caller still has to
  go; the work left to the workers; and the number of threads about to test a predicate.\<close>

fun caller_rank :: "nat \<Rightarrow> caller_phase \<Rightarrow> nat" where
  "caller_rank n C_free = 0"
| "caller_rank n C_collect = 1"
| "caller_rank n C_wait = 2"
| "caller_rank n C_asleep = 2"
| "caller_rank n C_notify = 3"
| "caller_rank n (C_locked a) = 4"
| "caller_rank n (S_join k) = Suc (n - k)"
| "caller_rank n S_notify = n + 2"
| "caller_rank n S_locked = n + 3"

fun phase_work :: "nat \<Rightarrow> u64 \<Rightarrow> worker_phase \<Rightarrow> nat" where
  "phase_work t e (W_exited x) = 0"
| "phase_work t e (W_wait x) = (if x = e then 1 else 9 + 2 * t)"
| "phase_work t e (W_asleep x) = (if x = e then 1 else 9 + 2 * t)"
| "phase_work t e (W_preflight x p) = 7 + 2 * t"
| "phase_work t e (W_preflight_returned x p status) = 5 + 2 * t"
| "phase_work t e (W_preflight_wait x p) = 4 + 2 * t"
| "phase_work t e (W_preflight_asleep x p) = 4 + 2 * t"
| "phase_work t e (W_tasks x p i) = 3 + 2 * (t - unat i)"
| "phase_work t e (W_finish x p) = 2"
| "phase_work t e (W_notify ph) = Suc (phase_work t e ph)"

definition frame_tasks :: "context_state \<Rightarrow> nat" where
  "frame_tasks c = (case ctx_frame c of None \<Rightarrow> 0 | Some s \<Rightarrow> unat (sub_task_count s))"

abbreviation pool_size :: "context_state \<Rightarrow> nat" where
  "pool_size c \<equiv> unat (ctx_worker_count c)"

definition total_work :: "context_state \<Rightarrow> nat" where
  "total_work c = (\<Sum>w < pool_size c. phase_work (frame_tasks c) (ctx_epoch c) (ctx_workers c w))"

fun testing :: "worker_phase \<Rightarrow> nat" where
  "testing (W_wait e) = 1"
| "testing (W_preflight_wait e p) = 1"
| "testing ph = 0"

definition awake_count :: "context_state \<Rightarrow> nat" where
  "awake_count c = (\<Sum>w < pool_size c. testing (ctx_workers c w)) + (if ctx_caller c = C_wait then 1 else 0)"

definition pool_measure :: "context_state \<Rightarrow> nat \<times> nat \<times> nat" where
  "pool_measure c = (caller_rank (pool_size c) (ctx_caller c), total_work c, awake_count c)"

abbreviation pool_less :: "((nat \<times> nat \<times> nat) \<times> (nat \<times> nat \<times> nat)) set" where
  "pool_less \<equiv> less_than <*lex*> less_than <*lex*> less_than"

lemma wake_measure [simp]:
  "phase_work t e (wake_phase ph) = phase_work t e ph"
  "phase_work t e (wake_preflight_phase ph) = phase_work t e ph"
  by (cases ph; simp)+

lemma sum_upd_less:
  fixes f g :: "nat \<Rightarrow> nat"
  assumes "w < n" "\<And>v. v \<noteq> w \<Longrightarrow> f v \<le> g v" "f w < g w"
  shows "(\<Sum>v<n. f v) < (\<Sum>v<n. g v)"
proof (rule sum_strict_mono_ex1)
  show "\<forall>v \<in> {..<n}. f v \<le> g v" using assms(2,3) by (metis less_imp_le)
  show "\<exists>v \<in> {..<n}. f v < g v" using assms(1,3) by blast
qed simp

text \<open>A step of one worker that leaves the caller where it is and lowers its own work.\<close>

lemma worker_lowers:
  assumes w: "w < pool_size c"
    and same: "ctx_worker_count c' = ctx_worker_count c" "frame_tasks c' = frame_tasks c"
      "ctx_epoch c' = ctx_epoch c"
      "caller_rank (pool_size c) (ctx_caller c') = caller_rank (pool_size c) (ctx_caller c)"
    and others: "\<And>v. v \<noteq> w \<Longrightarrow> phase_work (frame_tasks c) (ctx_epoch c) (ctx_workers c' v) =
      phase_work (frame_tasks c) (ctx_epoch c) (ctx_workers c v)"
    and less: "phase_work (frame_tasks c) (ctx_epoch c) (ctx_workers c' w) <
      phase_work (frame_tasks c) (ctx_epoch c) (ctx_workers c w)"
  shows "(pool_measure c', pool_measure c) \<in> pool_less"
proof -
  have "total_work c' < total_work c"
    unfolding total_work_def same
    by (rule sum_upd_less [OF w]) (use others less in auto)
  then show ?thesis using same by (simp add: pool_measure_def)
qed

lemma worker_sleeps:
  assumes w: "w < pool_size c" and c': "c' = set_phase w ph c"
    and equal: "phase_work (frame_tasks c) (ctx_epoch c) ph =
      phase_work (frame_tasks c) (ctx_epoch c) (ctx_workers c w)"
    and less: "testing ph < testing (ctx_workers c w)"
  shows "(pool_measure c', pool_measure c) \<in> pool_less"
proof -
  have "frame_tasks c' = frame_tasks c" by (simp add: c' frame_tasks_def)
  then have "total_work c' = total_work c"
    unfolding total_work_def by (auto simp: c' equal intro!: sum.cong)
  moreover have "(\<Sum>v < pool_size c. testing (ctx_workers c' v)) < (\<Sum>v < pool_size c. testing (ctx_workers c v))"
    by (rule sum_upd_less [OF w]) (use less in \<open>auto simp: c'\<close>)
  then have "awake_count c' < awake_count c" by (simp add: awake_count_def c')
  ultimately show ?thesis by (simp add: pool_measure_def c')
qed

lemma worker_step_lowers:
  assumes inv: "pool_inv c" and w: "w < pool_size c" and step: "worker_step w c = Some c'"
  shows "(pool_measure c', pool_measure c) \<in> pool_less"
proof (cases "held (ctx_workers c w)")
  case None
  have "(\<exists>x. ctx_workers c w = W_wait x)"
    using idle_phase [OF None pool_invD(6) [OF inv]] step by (auto simp: worker_step_def)
  then obtain e where e: "ctx_workers c w = W_wait e" by blast
  show ?thesis
  proof (cases "ctx_stopping c \<or> ctx_epoch c \<noteq> e")
    case False
    then have "c' = set_phase w (W_asleep e) c" using step e by (simp add: worker_step_def)
    then show ?thesis using False by (intro worker_sleeps [OF w, where ph = "W_asleep e"]) (simp_all add: e)
  next
    case True
    then have "take_work w e c = Some c'" using step e by (simp add: worker_step_def)
    then have "\<exists>ph. c' = set_phase w ph c \<and> phase_work (frame_tasks c) (ctx_epoch c) ph <
        phase_work (frame_tasks c) (ctx_epoch c) (W_wait e)"
      using True
      by (auto simp: take_work_def Let_def split: if_splits option.splits)
    then show ?thesis by (auto intro!: worker_lowers [OF w] simp: e frame_tasks_def)
  qed
next
  case (Some p)
  obtain s where s: "ctx_frame c = Some s" "deref c p = Some s" "job_inv c s"
    by (rule held_pointer [OF inv Some])
  let ?t = "unat (sub_task_count s)"
  have t: "frame_tasks c = ?t" using s(1) by (simp add: frame_tasks_def)
  have sizes: "?t + active s \<le> 2 ^ 64" "0 < active s" using s(3) by (auto simp: job_ok_def sizes_ok_def)
  have jump: "?t - unat (i + u32_to_u64 (sub_active_threads s)) < ?t - unat i" if "i < sub_task_count s" for i
  proof -
    have lt: "unat i < ?t" using that by (simp add: word_less_nat_alt)
    then have "unat (i + u32_to_u64 (sub_active_threads s)) = unat i + active s"
      using sizes(1) by (simp add: unat_word_ariths)
    then show ?thesis using lt sizes(2) by simp
  qed
  have fl: "in_flight (ctx_caller c)" using held_pointer [OF inv Some] by blast
  show ?thesis
  proof (cases "ctx_workers c w")
    case (W_preflight e q)
    then show ?thesis
      using step s Some
      by (intro worker_lowers [OF w])
        (auto simp: worker_step_def call_preflight_def after_callback_def Let_def frame_tasks_def
          split: option.splits if_splits)
  next
    case (W_preflight_returned e q status)
    then show ?thesis
      using step s Some
      by (intro worker_lowers [OF w])
        (auto simp: worker_step_def leave_preflight_def Let_def frame_tasks_def past_barrier_def
          notify_preflight_def split: if_splits)
  next
    case (W_preflight_wait e q)
    show ?thesis
    proof (cases "sub_completed_preflights s = sub_active_threads s")
      case True
      then show ?thesis
        using step s Some W_preflight_wait
        by (intro worker_lowers [OF w])
          (auto simp: worker_step_def test_barrier_def frame_tasks_def past_barrier_def split: if_splits)
    next
      case False
      then have "c' = set_phase w (W_preflight_asleep e q) c"
        using step s Some W_preflight_wait by (simp add: worker_step_def test_barrier_def)
      then show ?thesis by (intro worker_sleeps [OF w, where ph = "W_preflight_asleep e q"]) (simp_all add: W_preflight_wait)
    qed
  next
    case (W_tasks e q i)
    then show ?thesis
      using step s Some jump [of i]
      by (intro worker_lowers [OF w])
        (auto simp: worker_step_def call_task_def after_callback_def Let_def frame_tasks_def
          word_less_nat_alt split: if_splits)
  next
    case (W_finish e q)
    have ep: "e = ctx_epoch c" using held_pointer [OF inv Some] W_finish by (metis observed.simps(8))
    show ?thesis
      using step s Some W_finish ep
      by (intro worker_lowers [OF w])
        (auto simp: worker_step_def finish_worker_def Let_def frame_tasks_def notify_submitter_if
          split: if_splits)
  next
    case (W_notify ph)
    then show ?thesis
      using step by (intro worker_lowers [OF w]) (auto simp: worker_step_def notify_workers_def frame_tasks_def)
  qed (use step Some in \<open>simp_all add: worker_step_def\<close>)
qed

lemma caller_step_lowers:
  assumes "caller_step c = Some c'"
  shows "(pool_measure c', pool_measure c) \<in> pool_less"
proof (cases "ctx_caller c")
  case C_wait
  then obtain s where s: "ctx_frame c = Some s"
    using assms by (auto simp: caller_step_def split: option.splits)
  show ?thesis
  proof (cases "sub_completed_workers s = sub_active_threads s")
    case False
    then have "c' = c\<lparr>ctx_caller := C_asleep\<rparr>" using assms C_wait s by (simp add: caller_step_def)
    then show ?thesis
      using C_wait by (simp add: pool_measure_def total_work_def frame_tasks_def awake_count_def)
  qed (use assms C_wait s in \<open>auto simp: caller_step_def pool_measure_def\<close>)
qed (use assms in \<open>auto simp: caller_step_def pool_measure_def publish_def notify_workers_def
      split: if_splits option.splits worker_phase.splits\<close>)

text \<open>C7: The pool cannot hang. From a reachable state the context takes only finitely many steps by itself
  (no sequence of internal steps is infinite, whatever the schedule), and it stops only when no
  call of \<^verbatim>\<open>run_tasks\<close> or \<^verbatim>\<open>shutdown\<close> is waiting: every such call returns and no wakeup
  is lost, even when a callback shuts the context down while other workers have not started.\<close>

theorem pool_never_hangs:
  assumes "reachable n c"
  shows "wfp (\<lambda>d' d. reachable n d \<and> internal_step d d') \<and>
    (ctx_caller c = C_free \<or> (\<exists>c'. internal_step c c'))"
proof
  have "(pool_measure c', pool_measure c) \<in> pool_less" if "reachable n c" "internal_step c c'" for c c'
    using that(2) reachable_pool [OF that(1)]
    by cases (auto intro: worker_step_lowers caller_step_lowers)
  then have "{(c', c). reachable n c \<and> internal_step c c'} \<subseteq> inv_image pool_less pool_measure"
    by (auto simp: inv_image_def)
  moreover have "wf (inv_image pool_less pool_measure)" by (intro wf_inv_image wf_lex_prod wf_less_than)
  ultimately show "wfp (\<lambda>d' d. reachable n d \<and> internal_step d d')"
    unfolding wfp_def by (rule wf_subset [rotated])
  show "ctx_caller c = C_free \<or> (\<exists>c'. internal_step c c')"
    using blocked_is_idle [OF reachable_pool [OF assms]] by blast
qed

section \<open>A concrete run\<close>

text \<open>Actors move in turn, skipping those that are blocked.\<close>

datatype actor = Caller | Worker nat

definition act :: "actor \<Rightarrow> context_state \<Rightarrow> context_state" where
  "act a c = (case a of
      Caller \<Rightarrow> (case caller_step c of Some c' \<Rightarrow> c' | None \<Rightarrow> c)
    | Worker w \<Rightarrow> if w < unat (ctx_worker_count c)
        then (case worker_step w c of Some c' \<Rightarrow> c' | None \<Rightarrow> c) else c)"

lemma reachable_act: "reachable n c \<Longrightarrow> reachable n (act a c)"
  by (auto simp: act_def split: actor.splits option.splits
      intro: reachable.internal internal_step.intros)

lemma reachable_acts: "reachable n c \<Longrightarrow> reachable n (fold act as c)"
  by (induction as arbitrary: c) (simp_all add: reachable_act)

text \<open>Two workers, five tasks; the task of index 0 shuts the context down, the one of index 3 fails.\<close>

definition example_arguments :: "u64 \<Rightarrow> task_arguments" where
  "example_arguments failing = \<lparr>arg_task_count = 5, arg_active_threads = 2, arg_nesting_policy = nest_native_only,
     arg_preflight = Some (\<lambda>w. \<lparr>cb_requests_shutdown = False, cb_status = ex_success\<rparr>),
     arg_task = Some (\<lambda>i w. \<lparr>cb_requests_shutdown = (i = 0),
       cb_status = (if i = failing then ex_callback_failed else ex_success)\<rparr>)\<rparr>"

definition example_run :: "u64 \<Rightarrow> nat \<Rightarrow> context_state" where
  "example_run failing k = fold act (concat (replicate k [Worker 0, Worker 1, Caller]))
     ((fresh_context 2)\<lparr>ctx_caller := C_locked (example_arguments failing)\<rparr>)"

lemma example_reachable: "reachable 2 (example_run failing k)"
  unfolding example_run_def
proof (rule reachable_acts, rule reachable.external [OF reachable.start external_step.run_tasks])
  show "run_tasks_check (ctx_worker_count (fresh_context 2)) False (example_arguments failing) = None"
    by (simp add: run_tasks_check_def fresh_context_def example_arguments_def)
  show "admissible (fresh_context 2) (example_arguments failing)"
    by (simp add: admissible_def fresh_context_def example_arguments_def)
qed (simp add: fresh_context_def)

definition is_collect :: "context_state \<Rightarrow> bool" where
  "is_collect c = (case ctx_caller c of C_collect \<Rightarrow> True | _ \<Rightarrow> False)"

lemma is_collect: "is_collect c \<Longrightarrow> ctx_caller c = C_collect"
  by (cases "ctx_caller c") (simp_all add: is_collect_def)


lemma example_collected:
  "is_collect (example_run 3 12)" "is_collect (example_run 7 12)"
  "map_option sub_task_count (ctx_frame (example_run 3 12)) = Some 5"
  "map_option sub_task_count (ctx_frame (example_run 7 12)) = Some 5"
  "map_option sub_active_threads (ctx_frame (example_run 3 12)) = Some 2"
  "map_option sub_active_threads (ctx_frame (example_run 7 12)) = Some 2"
  by code_simp+

lemma example_frames:
  obtains s t where "ctx_frame (example_run 3 12) = Some s" "ctx_frame (example_run 7 12) = Some t"
    "ctx_caller (example_run 3 12) = C_collect" "ctx_caller (example_run 7 12) = C_collect"
    "sub_active_threads s = 2" "sub_active_threads t = 2" "sub_task_count t = 5" "sub_preflight t \<noteq> None"
    "sequential_result s = ex_callback_failed" "submission_result (example_run 7 12) 2 = ex_success"
proof -
  have eval: "sequential_result (the (ctx_frame (example_run 3 12))) = ex_callback_failed"
    "submission_result (example_run 7 12) 2 = ex_success"
    "\<not> Option.is_none (sub_preflight (the (ctx_frame (example_run 7 12))))"
    by code_simp+
  obtain s t where frames: "ctx_frame (example_run 3 12) = Some s" "ctx_frame (example_run 7 12) = Some t"
    using example_collected(3,4) by blast
  then show thesis
    using that example_collected is_collect eval by (simp add: Option.is_none_def)
qed

theorem submission_result_exact_witness:
  "submission_result (example_run 3 12) 2 = ex_callback_failed"
proof -
  obtain s where "ctx_frame (example_run 3 12) = Some s" "ctx_caller (example_run 3 12) = C_collect"
    "sub_active_threads s = 2" "sequential_result s = ex_callback_failed"
    by (rule example_frames)
  then show ?thesis using submission_result_exact [OF example_reachable [of 3 12], of s] by simp
qed

theorem every_task_once_witness:
  "ctx_calls (example_run 7 12) 1 = [Call_preflight, Call_task 1, Call_task 3]"
proof -
  obtain s where s: "ctx_frame (example_run 7 12) = Some s" "ctx_caller (example_run 7 12) = C_collect"
    "sub_active_threads s = 2" "sub_task_count s = 5" "sub_preflight s \<noteq> None"
    "submission_result (example_run 7 12) 2 = ex_success"
    by (rule example_frames)
  have "filter (\<lambda>i. i mod 2 = 1) [0..<5] = [1, 3 :: nat]" by code_simp
  then show ?thesis using every_task_once [OF example_reachable [of 7 12] s(2,1), of 1] s by simp
qed

theorem no_dangling_submission_witness:
  "\<exists>s. deref (example_run 7 6) 0 = Some s \<and> ctx_submission (example_run 7 6) = Some 0"
proof -
  have "held (ctx_workers (example_run 7 6) 0) = Some 0" by code_simp
  from no_dangling_submission [OF example_reachable this] show ?thesis by blast
qed

theorem preflight_barrier_witness: "hd (ctx_calls (example_run 7 7) 0) = Call_preflight"
proof -
  have eval: "map_option sub_active_threads (ctx_frame (example_run 7 7)) = Some 2"
    "\<not> Option.is_none (Option.bind (ctx_frame (example_run 7 7)) sub_preflight)"
    "Call_task 1 \<in> set (ctx_calls (example_run 7 7) 1)"
    by code_simp+
  then obtain s preflight where "ctx_frame (example_run 7 7) = Some s" "sub_preflight s = Some preflight"
    "sub_active_threads s = 2" by (auto simp: Option.is_none_def)
  then show ?thesis
    using preflight_barrier [OF example_reachable [of 7 7], of s preflight 1 1 0] eval(3) by simp
qed

theorem pool_never_hangs_witness: "\<exists>c'. internal_step (example_run 7 6) c'"
proof -
  have "\<not> (case ctx_caller (example_run 7 6) of C_free \<Rightarrow> True | _ \<Rightarrow> False)" by code_simp
  then have "ctx_caller (example_run 7 6) \<noteq> C_free" by auto
  then show ?thesis using pool_never_hangs [OF example_reachable [of 7 6]] by blast
qed

section \<open>Creating a context\<close>

lemma no_adjacent_sorted: "sorted xs \<Longrightarrow> no_adjacent xs \<longleftrightarrow> distinct xs"
  by (induction xs rule: no_adjacent.induct) (auto simp: less_le dest: antisym)

lemma affinity_configuration_valid_iff:
  "affinity_configuration_valid config n \<longleftrightarrow> cfg_worker_cpu_ids config = [] \<or>
     length (cfg_worker_cpu_ids config) = unat n \<and> distinct (cfg_worker_cpu_ids config)"
  by (auto simp: affinity_configuration_valid_def no_adjacent_sorted)

definition applied_count :: "ThreadAffinityApplicationV1 list \<Rightarrow> nat" where
  "applied_count results = length (filter (\<lambda>r. tap_status r = ta_applied) results)"

lemma summarize_workers_counts:
  assumes "summarize_workers k results acc = (report, unavailable)"
  shows "war_applied_workers report = war_applied_workers (fst acc) + of_nat (applied_count results)"
    "war_requested_workers report = war_requested_workers (fst acc)"
    "war_complete report = war_complete (fst acc)" "war_status report = war_status (fst acc)"
    "unavailable \<longleftrightarrow> snd acc \<and> (\<forall>r \<in> set results. tap_status r \<in> {ta_applied, ta_unavailable})"
  using assms
  by (induction k results acc rule: summarize_workers.induct)
    (auto simp: applied_count_def summarize_worker_def split: prod.splits if_splits)

lemma applied_count_full: "applied_count results = length results \<longleftrightarrow> (\<forall>r \<in> set results. tap_status r = ta_applied)"
  by (auto simp: applied_count_def filter_id_conv dest: length_filter_less intro: ccontr)

lemma applied_count_le: "applied_count results \<le> length results"
  by (simp add: applied_count_def)

lemma of_nat_eq_u32: "a < 2 ^ 32 \<Longrightarrow> b < 2 ^ 32 \<Longrightarrow> (of_nat a :: u32) = of_nat b \<longleftrightarrow> a = b"
  by (auto simp: word_unat_eq_iff unsigned_of_nat take_bit_nat_eq_self)

lemma summarize_affinity_complete:
  assumes "length results < 2 ^ 32"
  shows "war_complete (summarize_affinity config results) \<longleftrightarrow>
    cfg_worker_cpu_ids config = [] \<or> (\<forall>r \<in> set results. tap_status r = ta_applied)"
proof (cases "cfg_worker_cpu_ids config = []")
  case False
  obtain report unavailable where acc: "summarize_workers 0 results
      (default_affinity_report\<lparr>war_requested_workers := of_nat (length results), war_complete := False\<rparr>, True) =
      (report, unavailable)" by fastforce
  note counts = summarize_workers_counts [OF acc]
  have "war_applied_workers report = war_requested_workers report \<longleftrightarrow>
      applied_count results = length results"
    using counts(1,2) assms applied_count_le [of results]
    by (simp add: default_affinity_report_def of_nat_eq_u32)
  then show ?thesis
    using False acc counts(3) applied_count_full [of results]
    by (auto simp: summarize_affinity_def default_affinity_report_def)
qed (simp add: summarize_affinity_def default_affinity_report_def)

lemma worker_ceiling_positive:
  "(r::u32) \<noteq> 0 \<Longrightarrow> min r (if m = 0 then r else m) \<noteq> 0"
  by (auto simp: min_def)

text \<open>When no allocation fails, \<^verbatim>\<open>create\<close> returns a context exactly for a supported version, a
  positive number of threads, and an affinity list that is empty or names one distinct CPU per worker,
  every one of which could be bound; the context then has the requested number of workers, cut to
  the ceiling, and the status is success; otherwise there is no context and a status that says why.\<close>

theorem context_creation_exact:
  "let (status, report, workers) = create_context host None config;
       n = min (cfg_requested_threads config)
             (if cfg_maximum_threads config = 0 then cfg_requested_threads config
              else cfg_maximum_threads config);
       ids = cfg_worker_cpu_ids config;
       bound = (\<lambda>cpu. tap_status (apply_current_thread_affinity_v1 host cpu) = ta_applied);
       configured = (cfg_version config = 1 \<and> cfg_requested_threads config \<noteq> 0 \<and>
         (ids = [] \<or> length ids = unat n \<and> distinct ids))
   in (workers = (if configured \<and> list_all bound ids then Some n else None)) \<and>
      (status = ex_success \<longleftrightarrow> workers \<noteq> None) \<and>
      (status = ex_invalid_configuration \<longleftrightarrow> \<not> configured)"
proof -
  define n where "n = min (cfg_requested_threads config)
     (if cfg_maximum_threads config = 0 then cfg_requested_threads config else cfg_maximum_threads config)"
  let ?ids = "cfg_worker_cpu_ids config"
  define results where "results = (if ?ids = [] then replicate (unat n) default_application
    else map (apply_current_thread_affinity_v1 host) ?ids)"
  have small: "length results < 2 ^ 32" if "affinity_configuration_valid config n"
    using that by (auto simp: results_def affinity_configuration_valid_iff)
  let ?bound = "list_all (\<lambda>cpu. tap_status (apply_current_thread_affinity_v1 host cpu) = ta_applied) ?ids"
  have "?ids \<noteq> [] \<Longrightarrow> (\<forall>r \<in> set results. tap_status r = ta_applied) \<longleftrightarrow> ?bound"
    by (auto simp: results_def list_all_iff)
  then have complete: "war_complete (summarize_affinity config results) \<longleftrightarrow> ?bound"
    if "affinity_configuration_valid config n"
    using summarize_affinity_complete [OF small [OF that], of config] by (cases "?ids = []") auto
  show ?thesis
  proof (cases "cfg_version config \<noteq> 1 \<or> cfg_requested_threads config = 0")
    case True
    then show ?thesis by (auto simp: create_context_def)
  next
    case False
    then have "n \<noteq> 0" using worker_ceiling_positive by (simp add: n_def)
    then show ?thesis
      using False complete
      unfolding create_context_def Let_def n_def [symmetric] results_def [symmetric]
        affinity_configuration_valid_iff [symmetric]
      by (cases "affinity_configuration_valid config n"; cases ?bound) simp_all
  qed
qed

theorem context_creation_exact_witness:
  "snd (snd (create_context (host_linux 1024 (\<lambda>_. 0)) None \<lparr>cfg_version = 1,
     cfg_requested_threads = 4, cfg_maximum_threads = 2, cfg_worker_cpu_ids = [5, 3]\<rparr>)) = Some 2"
proof -
  have "list_all (\<lambda>cpu. tap_status (apply_current_thread_affinity_v1 (host_linux 1024 (\<lambda>_. 0)) cpu) =
      ta_applied) [5, 3]" by (simp add: default_application_def)
  then show ?thesis
    using context_creation_exact [of "host_linux 1024 (\<lambda>_. 0)" "\<lparr>cfg_version = 1,
     cfg_requested_threads = 4, cfg_maximum_threads = 2, cfg_worker_cpu_ids = [5, 3]\<rparr>"]
    by (simp add: split_beta min_def)
qed

end
