(* ===== verification/ParallelExecution.thy ===== *)
theory ParallelExecution
  imports ParallelWorkers ExecutionProperties
begin

text \<open>
  \<^verbatim>\<open>execute_parallel\<close> of \<^verbatim>\<open>runtime/cpu_parallel_gemm.cpp\<close> and its entry points: the checks, the job,
  the submission of the callbacks of \<^theory_text>\<open>ParallelWorkers\<close> to the pool of
  \<^theory_text>\<open>ExecutionContext\<close>, the report; and the properties of the parallel GEMM. The pool is used through
  what \<^theory_text>\<open>ExecutionProperties\<close> shows of it: a failed preflight keeps every callback from starting,
  every active worker runs its callback once, and the status is that of a sequential run. Null tests of
  the report are left out.
\<close>

section \<open>The pool runs the callbacks\<close>

record CpuExecutionContextInfoV1 =
  cxi_version :: u32
  cxi_requested_threads :: u32
  cxi_actual_worker_count :: u32
  cxi_workers_started :: u64
  cxi_completed_submissions :: u64
  cxi_accepting_work :: bool
  cxi_affinity :: CpuWorkerAffinityReportV1

text \<open>What one call meets in its surroundings: the two answers of \<^verbatim>\<open>context.info()\<close>, whether the
  calling thread is a worker of the context, whether the context is stopping when the call holds the
  lock, the floating-point environment of each worker, and the schedule of the workers.\<close>

record surroundings =
  env_info :: CpuExecutionContextInfoV1
  env_inside_worker :: bool
  env_stopping :: bool
  env_fp_compatible :: "nat \<Rightarrow> bool"
  env_schedule :: "nat list"
  env_finished :: CpuExecutionContextInfoV1

definition authenticate_worker_fp_environment :: "surroundings \<Rightarrow> nat \<Rightarrow> callback_result" where
  "authenticate_worker_fp_environment e w =
     \<lparr>cb_requests_shutdown = False,
      cb_status = (if env_fp_compatible e w then ex_success else ex_callback_failed)\<rparr>"

definition partition_arguments ::
  "'f ParallelGemmJobV1 \<Rightarrow> CpuProviderNestingPolicyV1 \<Rightarrow> surroundings \<Rightarrow> 'f run_state \<Rightarrow> task_arguments" where
  "partition_arguments job policy e s =
     \<lparr>arg_task_count = u32_to_u64 (job_active_threads job),
      arg_active_threads = job_active_threads job, arg_nesting_policy = policy,
      arg_preflight = Some (authenticate_worker_fp_environment e),
      arg_task = Some (\<lambda>_ w. \<lparr>cb_requests_shutdown = False,
                              cb_status = returned_status (run_stage s w)\<rparr>)\<rparr>"

definition submission_of :: "task_arguments \<Rightarrow> SubmissionV1" where
  "submission_of a = \<lparr>sub_id = 0, sub_task_count = arg_task_count a,
     sub_active_threads = arg_active_threads a, sub_preflight = arg_preflight a,
     sub_task = the (arg_task a), sub_completed_preflights = 0, sub_preflight_failed = False,
     sub_completed_workers = 0\<rparr>"

text \<open>\<^verbatim>\<open>context.run_tasks_with_preflight\<close> on the job: its status (a submission returns
  \<open>sequential_result\<close>), the flag \<^verbatim>\<open>fp_environment_rejected\<close> and the memory. A failed
  preflight keeps every callback from starting; \<open>None\<close> while a callback has not returned.\<close>

definition run_output_partitions ::
  "'f ParallelGemmJobV1 \<Rightarrow> CpuProviderNestingPolicyV1 \<Rightarrow> surroundings \<Rightarrow> 'f fmem \<Rightarrow>
   (CpuExecutionStatusV1 \<times> bool \<times> 'f fmem) option" where
  "run_output_partitions job policy e mem =
    (let final = run_schedule job (env_schedule e) mem;
         arguments = partition_arguments job policy e final;
         result = sequential_result (submission_of arguments)
     in case run_tasks_check (cxi_actual_worker_count (env_info e)) (env_inside_worker e) arguments of
          Some status \<Rightarrow> Some (status, False, mem)
        | None \<Rightarrow>
            if env_stopping e then Some (ex_context_stopping, False, mem)
            else if \<not> list_all (env_fp_compatible e) [0..<unat (job_active_threads job)]
            then Some (result, True, mem)
            else if all_done job final then Some (result, False, run_memory final)
            else None)"

section \<open>Execution\<close>

record CpuParallelGemmReportV1 =
  plg_version :: u32
  plg_requested_threads :: u32
  plg_actual_threads :: u32
  plg_packed_b_threads :: u32
  plg_macro_tile_count :: u64
  plg_row_task_count :: u64
  plg_column_task_count :: u64
  plg_task_count :: u64
  plg_workspace_bytes :: u64
  plg_shared_packed_b_bytes :: u64
  plg_per_worker_workspace_bytes :: u64
  plg_context_submission :: u64

definition default_parallel_report :: CpuParallelGemmReportV1 where
  "default_parallel_report =
     \<lparr>plg_version = kCpuParallelGemmVersionV1, plg_requested_threads = 0, plg_actual_threads = 0,
      plg_packed_b_threads = 0, plg_macro_tile_count = 0, plg_row_task_count = 0,
      plg_column_task_count = 0, plg_task_count = 0, plg_workspace_bytes = 0,
      plg_shared_packed_b_bytes = 0, plg_per_worker_workspace_bytes = 0,
      plg_context_submission = 0\<rparr>"

text \<open>The checks of \<^verbatim>\<open>execute_parallel\<close> up to the validation of the buffers.\<close>

definition parallel_preflight ::
  "'f PackedBackendOpsV1 \<Rightarrow> CpuExecutionContextInfoV1 \<Rightarrow> CpuGemmProblemV1 \<Rightarrow> u64 \<Rightarrow> u64 \<Rightarrow> u64 \<Rightarrow> u64 \<Rightarrow>
   u64 \<Rightarrow> u32 \<Rightarrow> CpuProviderNestingPolicyV1 \<Rightarrow>
   CpuParallelGemmStatusV1 + CpuParallelTaskPlanV1 \<times> CpuParallelGemmWorkspaceRequirementsV1" where
  "parallel_preflight ops info problem lhs rhs out workspace workspace_bytes requested_threads policy =
    and_then (require (requested_threads \<noteq> 0) pgs_invalid_thread_count) (\<lambda>_.
    and_then (require (policy = nest_native_only \<or> policy = nest_external_provider_active)
        pgs_invalid_problem) (\<lambda>_.
    and_then (case ops_workspace_requirements ops problem transient_a_and_b of
        Inl status \<Rightarrow> Inl (map_packed_status status) | Inr _ \<Rightarrow> Inr ()) (\<lambda>_.
    and_then (require (ops_runtime_usable ops) pgs_isa_unavailable) (\<lambda>_.
    and_then (require (cxi_accepting_work info \<and> cxi_actual_worker_count info \<noteq> 0)
        pgs_context_unavailable) (\<lambda>_.
    and_then (require (\<not> requested_threads > cxi_actual_worker_count info)
        pgs_invalid_thread_count) (\<lambda>_.
    let task_plan = plan_cpu_parallel_tasks_v1 problem requested_threads;
        actual_threads = ptp_actual_threads task_plan
    in and_then (require (actual_threads \<noteq> 0) pgs_invalid_thread_count) (\<lambda>_.
       and_then (require (\<not> (policy = nest_external_provider_active \<and> actual_threads > 1))
           pgs_nested_parallelism_rejected) (\<lambda>_.
       and_then (parallel_workspace_requirements ops problem actual_threads) (\<lambda>requirements.
       and_then (validate_tensor_and_workspace problem lhs rhs out workspace requirements
           workspace_bytes) (\<lambda>_.
       Inr (task_plan, requirements)))))))))))"

definition make_parallel_job ::
  "'f PackedBackendOpsV1 \<Rightarrow> CpuGemmProblemV1 \<Rightarrow> u64 \<Rightarrow> u64 \<Rightarrow> u64 \<Rightarrow> u64 \<Rightarrow> CpuParallelTaskPlanV1 \<Rightarrow>
   CpuParallelGemmWorkspaceRequirementsV1 \<Rightarrow> 'f ParallelGemmJobV1" where
  "make_parallel_job ops problem lhs rhs out workspace task_plan requirements =
    (let packed_b_destination = workspace + plr_shared_packed_b_offset requirements;
         parallel_pack_b = should_parallel_pack_b problem task_plan requirements
           (ptp_actual_threads task_plan);
         packed_b = cpu_make_packed_b_view_v1 problem rhs packed_b_destination
           (plr_shared_packed_b_bytes requirements)
           (plr_shared_packed_b_bytes requirements div sizeof_float)
     in \<lparr>job_problem = problem, job_ops = ops, job_lhs = lhs, job_rhs = rhs, job_out = out,
         job_packed_b = (if parallel_pack_b then packed_b
                         else packed_b\<lparr>pbv_packed_data := packed_b_destination\<rparr>),
         job_packed_b_destination = packed_b_destination, job_workspace = workspace,
         job_worker_region_offset = plr_worker_region_offset requirements,
         job_per_worker_stride = plr_per_worker_stride_bytes requirements,
         job_row_quantum = ptp_row_quantum task_plan,
         job_row_group_count = ptp_row_group_count task_plan,
         job_row_task_count = ptp_row_task_count task_plan,
         job_column_panel_count = ptp_column_panel_count task_plan,
         job_column_task_count = ptp_column_task_count task_plan,
         job_task_count = ptp_task_count task_plan,
         job_active_threads = ptp_actual_threads task_plan, job_parallel_pack_b = parallel_pack_b\<rparr>)"

definition execute_parallel ::
  "'f PackedBackendOpsV1 \<Rightarrow> surroundings \<Rightarrow> CpuGemmProblemV1 \<Rightarrow> u64 \<Rightarrow> u64 \<Rightarrow> u64 \<Rightarrow> u64 \<Rightarrow> u64 \<Rightarrow> u32 \<Rightarrow>
   CpuProviderNestingPolicyV1 \<Rightarrow> 'f fmem \<Rightarrow>
   (CpuParallelGemmStatusV1 \<times> CpuParallelGemmReportV1 \<times> 'f fmem) option" where
  "execute_parallel ops e problem lhs rhs out workspace workspace_bytes requested_threads policy mem =
    (let report = default_parallel_report\<lparr>plg_requested_threads := requested_threads\<rparr>
     in case parallel_preflight ops (env_info e) problem lhs rhs out workspace workspace_bytes
          requested_threads policy of
          Inl status \<Rightarrow> Some (status, report, mem)
        | Inr (task_plan, requirements) \<Rightarrow>
            let job = make_parallel_job ops problem lhs rhs out workspace task_plan requirements
            in case run_output_partitions job policy e mem of
                 None \<Rightarrow> None
               | Some (execution, fp_environment_rejected, mem) \<Rightarrow>
                   if fp_environment_rejected then Some (pgs_unsupported_fp_environment, report, mem)
                   else if execution = ex_nested_parallelism_rejected
                   then Some (pgs_nested_parallelism_rejected, report, mem)
                   else if execution \<noteq> ex_success then Some (pgs_worker_task_failed, report, mem)
                   else Some (pgs_success, report
                     \<lparr>plg_actual_threads := ptp_actual_threads task_plan,
                      plg_packed_b_threads :=
                        (if job_parallel_pack_b job then ptp_actual_threads task_plan else 0),
                      plg_macro_tile_count := ptp_macro_tile_count task_plan,
                      plg_row_task_count := ptp_row_task_count task_plan,
                      plg_column_task_count := ptp_column_task_count task_plan,
                      plg_task_count := ptp_task_count task_plan,
                      plg_workspace_bytes := plr_total_bytes requirements,
                      plg_shared_packed_b_bytes := plr_shared_packed_b_bytes requirements,
                      plg_per_worker_workspace_bytes := plr_per_worker_bytes requirements,
                      plg_context_submission := cxi_completed_submissions (env_finished e)\<rparr>, mem))"

definition cpu_execute_parallel_packed_avx2_v1 ::
  "bool \<Rightarrow> 'f fma_ops \<Rightarrow> surroundings \<Rightarrow> CpuGemmProblemV1 \<Rightarrow> u64 \<Rightarrow> u64 \<Rightarrow> u64 \<Rightarrow> u64 \<Rightarrow> u64 \<Rightarrow> u32 \<Rightarrow>
   CpuProviderNestingPolicyV1 \<Rightarrow> 'f fmem \<Rightarrow>
   (CpuParallelGemmStatusV1 \<times> CpuParallelGemmReportV1 \<times> 'f fmem) option" where
  "cpu_execute_parallel_packed_avx2_v1 usable F = execute_parallel (kPackedAvx2Ops usable F)"

definition cpu_execute_parallel_packed_avx512_v1 ::
  "bool \<Rightarrow> 'f fma_ops \<Rightarrow> surroundings \<Rightarrow> CpuGemmProblemV1 \<Rightarrow> u64 \<Rightarrow> u64 \<Rightarrow> u64 \<Rightarrow> u64 \<Rightarrow> u64 \<Rightarrow> u32 \<Rightarrow>
   CpuProviderNestingPolicyV1 \<Rightarrow> 'f fmem \<Rightarrow>
   (CpuParallelGemmStatusV1 \<times> CpuParallelGemmReportV1 \<times> 'f fmem) option" where
  "cpu_execute_parallel_packed_avx512_v1 usable F = execute_parallel (kPackedAvx512Ops usable F)"

definition cpu_parallel_packed_avx2_workspace_requirements_v1 ::
  "bool \<Rightarrow> 'f fma_ops \<Rightarrow> CpuGemmProblemV1 \<Rightarrow> u32 \<Rightarrow>
   CpuParallelGemmStatusV1 + CpuParallelGemmWorkspaceRequirementsV1" where
  "cpu_parallel_packed_avx2_workspace_requirements_v1 usable F =
     parallel_workspace_requirements (kPackedAvx2Ops usable F)"

definition cpu_parallel_packed_avx512_workspace_requirements_v1 ::
  "bool \<Rightarrow> 'f fma_ops \<Rightarrow> CpuGemmProblemV1 \<Rightarrow> u32 \<Rightarrow>
   CpuParallelGemmStatusV1 + CpuParallelGemmWorkspaceRequirementsV1" where
  "cpu_parallel_packed_avx512_workspace_requirements_v1 usable F =
     parallel_workspace_requirements (kPackedAvx512Ops usable F)"

section \<open>Execution\<close>

text \<open>What the checks of \<^verbatim>\<open>execute_parallel\<close> accept.\<close>

definition parallel_call_ok ::
  "bool \<Rightarrow> CpuExecutionContextInfoV1 \<Rightarrow> CpuGemmProblemV1 \<Rightarrow> u64 \<Rightarrow> u64 \<Rightarrow> u64 \<Rightarrow> u64 \<Rightarrow> u64 \<Rightarrow> u32 \<Rightarrow>
   CpuProviderNestingPolicyV1 \<Rightarrow> bool" where
  "parallel_call_ok usable info problem lhs rhs out workspace bytes requested policy \<longleftrightarrow>
    (let actual = ptp_actual_threads (plan_cpu_parallel_tasks_v1 problem requested)
     in usable \<and> requested \<noteq> 0 \<and> packed_problem problem \<and>
        cxi_accepting_work info \<and> requested \<le> cxi_actual_worker_count info \<and>
        (policy = nest_native_only \<or> policy = nest_external_provider_active \<and> actual = 1) \<and>
        arena_bytes problem actual < 2 ^ 64 \<and> arena_ok problem lhs rhs out workspace actual bytes)"

abbreviation job_of ::
  "'f PackedBackendOpsV1 \<Rightarrow> CpuGemmProblemV1 \<Rightarrow> u64 \<Rightarrow> u64 \<Rightarrow> u64 \<Rightarrow> u64 \<Rightarrow> u32 \<Rightarrow> 'f ParallelGemmJobV1" where
  "job_of ops problem lhs rhs out workspace requested \<equiv>
    (let plan = plan_cpu_parallel_tasks_v1 problem requested
     in make_parallel_job ops problem lhs rhs out workspace plan
          (parallel_requirements_of problem (ptp_actual_threads plan)))"

lemma packed_task_problem: "packed_problem problem \<Longrightarrow> requested \<noteq> 0 \<Longrightarrow> task_problem_ok problem requested"
  by (simp add: packed_problem_def task_problem_ok_def)

lemma actual_positive:
  assumes "packed_problem problem" "requested \<noteq> 0"
  shows "ptp_actual_threads (plan_cpu_parallel_tasks_v1 problem requested) \<noteq> 0"
  using task_plan_facts(4,5) [OF packed_task_problem [OF assms]]
    maximum_rows_bounds(1) [OF packed_task_problem [OF assms]] by auto

lemma job_of_ready:
  assumes "packed_problem problem" "requested \<noteq> 0"
    and "arena_ok problem lhs rhs out workspace (ptp_actual_threads (plan_cpu_parallel_tasks_v1 problem requested)) bytes"
  shows "ready_job (job_of ops problem lhs rhs out workspace requested) requested bytes"
    "job_ops (job_of ops problem lhs rhs out workspace requested) = ops"
  using assms packed_task_problem [OF assms(1,2)]
  by (simp_all add: ready_job_def planned_def make_parallel_job_def Let_def should_parallel_pack_b_def
      parallel_requirements_of_def default_parallel_requirements_def)

context parallel_backend
begin

lemma preflight_exact:
  "parallel_preflight (backend F) info problem lhs rhs out workspace bytes requested policy = Inr (plan, r) \<longleftrightarrow>
     parallel_call_ok usable info problem lhs rhs out workspace bytes requested policy \<and>
     plan = plan_cpu_parallel_tasks_v1 problem requested \<and>
     r = parallel_requirements_of problem (ptp_actual_threads plan)"
proof -
  let ?p = "plan_cpu_parallel_tasks_v1 problem requested"
  let ?T = "ptp_actual_threads ?p"
  have w: "(case ops_workspace_requirements (backend F) problem transient_a_and_b of
        Inl status \<Rightarrow> Inl (map_packed_status status) | Inr _ \<Rightarrow> Inr ()) = Inr () \<longleftrightarrow> packed_problem problem"
  proof -
    have "packed_problem problem \<longleftrightarrow> (\<exists>r. cpu_packed_avx2_workspace_requirements_v1 problem transient_a_and_b = Inr r)"
      unfolding requirements_Inr by simp
    then show ?thesis
      unfolding backend_workspace
      by (cases "cpu_packed_avx2_workspace_requirements_v1 problem transient_a_and_b") simp_all
  qed
  have one: "\<not> (policy = nest_external_provider_active \<and> ?T > 1) \<longleftrightarrow>
      policy \<noteq> nest_external_provider_active \<or> ?T = 1" if "?T \<noteq> 0"
  proof -
    have "?T > 1 \<longleftrightarrow> ?T \<noteq> 1" using that by (simp add: word_less_nat_alt word_unat_eq_iff) arith
    then show ?thesis by blast
  qed
  show ?thesis
  proof (cases "requested \<noteq> 0 \<and> packed_problem problem")
    case True
    then have T: "?T \<noteq> 0" using actual_positive by blast
    have pos: "requested \<le> cxi_actual_worker_count info \<Longrightarrow> cxi_actual_worker_count info \<noteq> 0"
      using True word_le_0_iff [of requested] by auto
    show ?thesis
      unfolding parallel_preflight_def parallel_call_ok_def Let_def result_simps w one [OF T] requirements_exact
      using True T pos arena_validation [of problem ?T lhs rhs out workspace bytes] backend_usable
      by (auto simp: not_less w)
  next
    case False
    then show ?thesis
      unfolding parallel_preflight_def parallel_call_ok_def Let_def result_simps by (auto simp: w)
  qed
qed

end
lemma multiplied_mono:
  "multiplied F problem lhs rhs out R mem mem' \<Longrightarrow> R \<subseteq> S \<Longrightarrow> multiplied F problem lhs rhs out S mem mem'"
  unfolding multiplied_def Let_def by blast

lemma partitions_admitted:
  assumes "ready_job job threads bytes" "job_active_threads job \<le> workers"
    and "policy = nest_native_only \<or> policy = nest_external_provider_active \<and> job_active_threads job = 1"
  shows "run_tasks_check workers False (partition_arguments job policy e s) = None"
proof -
  have T: "job_active_threads job \<noteq> 0"
    using planned_facts(1,2,8,9) [OF ready_facts(1) [OF assms(1)]] by auto
  then have "u32_to_u64 (job_active_threads job) \<noteq> 0" by (simp add: word_unat_eq_iff)
  then show ?thesis
    using T assms(2,3) by (auto simp: run_tasks_check_def partition_arguments_def not_less)
qed

lemma partitions_result:
  assumes "list_all (env_fp_compatible e) [0..<workers_of job]"
    and "\<And>w. w < workers_of job \<Longrightarrow> returned_status (run_stage s w) \<in> {ex_success, ex_callback_failed}"
  shows "sequential_result (submission_of (partition_arguments job policy e s)) =
    (if \<forall>w < workers_of job. returned_status (run_stage s w) = ex_success then ex_success else ex_callback_failed)"
proof -
  let ?s = "submission_of (partition_arguments job policy e s)"
  have "preflight_statuses ?s = map (\<lambda>_. ex_success) [0..<workers_of job]"
    using assms(1)
    by (simp add: preflight_statuses_def submission_of_def partition_arguments_def list_all_iff
        authenticate_worker_fp_environment_def)
  moreover have "task_statuses ?s = map (\<lambda>w. returned_status (run_stage s w)) [0..<workers_of job]"
    by (simp add: task_statuses_def submission_of_def partition_arguments_def task_status_def)
  ultimately have r: "sequential_result ?s = first_failure (map (\<lambda>w. returned_status (run_stage s w)) [0..<workers_of job])"
    by (simp add: sequential_result_def first_failure_append first_failure_success)
  have "first_failure xs \<in> insert ex_success (set xs)" for xs
    by (induction xs) (auto simp: first_failure_def)
  then have "sequential_result ?s \<in> {ex_success, ex_callback_failed}"
    using assms(2) unfolding r by fastforce
  moreover have "sequential_result ?s = ex_success \<longleftrightarrow> (\<forall>w < workers_of job. returned_status (run_stage s w) = ex_success)"
    unfolding r first_failure_success by auto
  ultimately show ?thesis by auto
qed

lemma map_packed_success: "map_packed_status s = pgs_success \<longleftrightarrow> s = pst_success"
  by (cases s) simp_all

text \<open>A pool that returns success has run every callback to a success.\<close>

lemma partitions_success:
  assumes "run_output_partitions job policy e mem = Some (ex_success, False, mem')"
    and statuses: "\<And>w. w < workers_of job \<Longrightarrow> all_done job (run_schedule job (env_schedule e) mem) \<Longrightarrow>
      returned_status (run_stage (run_schedule job (env_schedule e) mem) w) \<in> {ex_success, ex_callback_failed}"
  shows "all_done job (run_schedule job (env_schedule e) mem)"
    "mem' = run_memory (run_schedule job (env_schedule e) mem)"
    "\<forall>w < workers_of job. returned_status (run_stage (run_schedule job (env_schedule e) mem) w) = ex_success"
proof -
  let ?final = "run_schedule job (env_schedule e) mem"
  let ?a = "partition_arguments job policy e ?final"
  have check: "run_tasks_check n inside a \<noteq> Some ex_success" for n inside a
    by (simp add: run_tasks_check_def)
  have none: "run_tasks_check (cxi_actual_worker_count (env_info e)) (env_inside_worker e) ?a = None"
    using assms(1) check by (auto simp: run_output_partitions_def Let_def split: option.splits)
  show fin: "all_done job ?final"
    using assms(1) none by (auto simp: run_output_partitions_def Let_def split: if_splits)
  have fp: "list_all (env_fp_compatible e) [0..<workers_of job]"
    and mem: "mem' = run_memory ?final" and result: "sequential_result (submission_of ?a) = ex_success"
    using assms(1) none by (auto simp: run_output_partitions_def Let_def split: if_splits)
  show "mem' = run_memory ?final" by (rule mem)
  show "\<forall>w < workers_of job. returned_status (run_stage ?final w) = ex_success"
    using partitions_result [OF fp statuses [OF _ fin]] result by (simp split: if_splits)
qed

context parallel_backend
begin

lemma preflight_fails:
  assumes "parallel_preflight (backend F) info problem lhs rhs out workspace bytes requested policy = Inl s"
  shows "s \<noteq> pgs_success"
proof -
  have 1: "parallel_workspace_requirements (backend F) problem T = Inl s \<Longrightarrow> s \<noteq> pgs_success" for T s
    by (auto simp: parallel_workspace_requirements_def Let_def result_simps map_packed_success backend_workspace
        backend_prepacked dest: status_not_success split: sum.splits if_splits)
  have 2: "validate_tensor_and_workspace problem lhs rhs out workspace r bytes = Inl s \<Longrightarrow> s \<noteq> pgs_success" for r s
    by (auto simp: validate_tensor_and_workspace_def Let_def result_simps)
  have 3: "(case ops_workspace_requirements (backend F) problem transient_a_and_b of
        Inl status \<Rightarrow> Inl (map_packed_status status) | Inr _ \<Rightarrow> Inr ()) = Inl s \<Longrightarrow> s \<noteq> pgs_success" for s
    by (auto simp: map_packed_success backend_workspace dest: status_not_success split: sum.splits)
  show ?thesis
    using assms 1 2 3 unfolding parallel_preflight_def Let_def result_simps by auto
qed

lemma execute_rejected:
  assumes "\<not> parallel_call_ok usable (env_info e) problem lhs rhs out workspace bytes requested policy"
  shows "\<exists>s. s \<noteq> pgs_success \<and>
    execute_parallel (backend F) e problem lhs rhs out workspace bytes requested policy mem =
      Some (s, default_parallel_report\<lparr>plg_requested_threads := requested\<rparr>, mem)"
proof (cases "parallel_preflight (backend F) (env_info e) problem lhs rhs out workspace bytes requested policy")
  case (Inl s)
  then show ?thesis using preflight_fails [OF Inl] by (simp add: execute_parallel_def)
next
  case (Inr pr)
  then show ?thesis using assms preflight_exact by (cases pr) metis
qed

lemma execute_accepted:
  fixes F :: "'f fma_ops" and mem mem' :: "'f fmem"
  assumes "parallel_call_ok usable (env_info e) problem lhs rhs out workspace bytes requested policy"
  defines "job \<equiv> job_of (backend F) problem lhs rhs out workspace requested"
  shows "ready_job job requested bytes" "job_ops job = backend F"
    "job_active_threads job \<le> cxi_actual_worker_count (env_info e)"
    "policy = nest_native_only \<or> policy = nest_external_provider_active \<and> job_active_threads job = 1"
    "execute_parallel (backend F) e problem lhs rhs out workspace bytes requested policy mem =
      Some (pgs_success, report, mem') \<Longrightarrow>
      run_output_partitions job policy e mem = Some (ex_success, False, mem')"
    "run_output_partitions job policy e mem = Some (execution, False, mem') \<Longrightarrow>
      execution \<noteq> ex_nested_parallelism_rejected \<Longrightarrow>
      \<exists>report. execute_parallel (backend F) e problem lhs rhs out workspace bytes requested policy mem =
        Some (if execution = ex_success then pgs_success else pgs_worker_task_failed, report, mem')"
proof -
  let ?p = "plan_cpu_parallel_tasks_v1 problem requested"
  have c: "usable" "requested \<noteq> 0" "packed_problem problem" "requested \<le> cxi_actual_worker_count (env_info e)"
    "policy = nest_native_only \<or> policy = nest_external_provider_active \<and> ptp_actual_threads ?p = 1"
    "arena_ok problem lhs rhs out workspace (ptp_actual_threads ?p) bytes"
    using assms(1) by (simp_all add: parallel_call_ok_def Let_def)
  have pre: "parallel_preflight (backend F) (env_info e) problem lhs rhs out workspace bytes requested policy =
      Inr (?p, parallel_requirements_of problem (ptp_actual_threads ?p))"
    using assms(1) by (simp add: preflight_exact)
  show ready: "ready_job job requested bytes" and "job_ops job = backend F"
    using job_of_ready [OF c(3,2,6)] by (simp_all add: job_def)
  have T: "job_active_threads job = ptp_actual_threads ?p" by (simp add: job_def make_parallel_job_def Let_def)
  have "unat (ptp_actual_threads ?p) \<le> unat requested"
    using planned_facts(10) [OF ready_facts(1) [OF ready]] T by simp
  then show "job_active_threads job \<le> cxi_actual_worker_count (env_info e)"
    using c(4) T by (simp add: word_le_nat_alt)
  show "policy = nest_native_only \<or> policy = nest_external_provider_active \<and> job_active_threads job = 1"
    using c(5) T by simp
  let ?report = "default_parallel_report\<lparr>plg_requested_threads := requested\<rparr>"
  obtain finished where run: "execute_parallel (backend F) e problem lhs rhs out workspace bytes requested policy mem =
    (case run_output_partitions job policy e mem of
       None \<Rightarrow> None
     | Some (execution, fp_environment_rejected, mem) \<Rightarrow>
         if fp_environment_rejected then Some (pgs_unsupported_fp_environment, ?report, mem)
         else if execution = ex_nested_parallelism_rejected
         then Some (pgs_nested_parallelism_rejected, ?report, mem)
         else if execution \<noteq> ex_success then Some (pgs_worker_task_failed, ?report, mem)
         else Some (pgs_success, finished, mem))"
    by (simp add: execute_parallel_def pre job_def Let_def)
  show "execute_parallel (backend F) e problem lhs rhs out workspace bytes requested policy mem =
      Some (pgs_success, report, mem') \<Longrightarrow>
      run_output_partitions job policy e mem = Some (ex_success, False, mem')"
    unfolding run by (auto split: option.splits prod.splits if_splits)
  show "run_output_partitions job policy e mem = Some (execution, False, mem') \<Longrightarrow>
      execution \<noteq> ex_nested_parallelism_rejected \<Longrightarrow>
      \<exists>report. execute_parallel (backend F) e problem lhs rhs out workspace bytes requested policy mem =
        Some (if execution = ex_success then pgs_success else pgs_worker_task_failed, report, mem')"
    unfolding run by auto
qed

text \<open>A call that succeeds has multiplied.\<close>

lemma execute_multiplies:
  fixes F :: "'f fma_ops" and mem mem' :: "'f fmem"
  assumes run: "execute_parallel (backend F) e problem lhs rhs out workspace bytes requested policy mem =
    Some (pgs_success, report, mem')"
  defines "actual \<equiv> ptp_actual_threads (plan_cpu_parallel_tasks_v1 problem requested)"
  shows "parallel_call_ok usable (env_info e) problem lhs rhs out workspace bytes requested policy"
    "multiplied F problem lhs rhs out (arena_slots problem workspace actual) mem mem'"
proof -
  show ok: "parallel_call_ok usable (env_info e) problem lhs rhs out workspace bytes requested policy"
  proof (rule ccontr)
    assume "\<not> parallel_call_ok usable (env_info e) problem lhs rhs out workspace bytes requested policy"
    from execute_rejected [OF this, of F mem] obtain s where "s \<noteq> pgs_success"
      "execute_parallel (backend F) e problem lhs rhs out workspace bytes requested policy mem =
        Some (s, default_parallel_report\<lparr>plg_requested_threads := requested\<rparr>, mem)" by blast
    then show False using run by simp
  qed
  define job where "job = job_of (backend F) problem lhs rhs out workspace requested"
  note a = execute_accepted [OF ok, where F = F, folded job_def]
  have use: usable using ok by (simp add: parallel_call_ok_def Let_def)
  let ?final = "run_schedule job (env_schedule e) mem"
  have inv: "run_ok F job mem ?final" by (rule run_ok_schedule [OF a(1,2) use])
  have statuses: "returned_status (run_stage ?final w) \<in> {ex_success, ex_callback_failed}"
    if "w < workers_of job" "all_done job ?final" for w
    using finished_run(1) [OF a(1) inv that(2,1)] by simp
  have fin: "all_done job ?final" "mem' = run_memory ?final"
    "\<forall>w < workers_of job. returned_status (run_stage ?final w) = ex_success"
    by (rule partitions_success [OF a(5) [OF run] statuses]; assumption)+
  have "\<forall>w < workers_of job. task_succeeds job w"
    using finished_run(1) [OF a(1) inv fin(1)] fin(3) by (metis CpuExecutionStatusV1.distinct(7))
  note result = finished_run(2) [OF a(1) inv fin(1) this, folded fin(2)]
  have fields: "job_problem job = problem" "job_lhs job = lhs" "job_rhs job = rhs" "job_out job = out"
    "job_workspace job = workspace" "job_active_threads job = actual"
    by (simp_all add: job_def make_parallel_job_def Let_def actual_def)
  show "multiplied F problem lhs rhs out (arena_slots problem workspace actual) mem mem'"
    using result unfolding fields .
qed

text \<open>A call that is accepted returns, and succeeds exactly when all its tasks do.\<close>

lemma execute_returns:
  fixes F :: "'f fma_ops" and mem :: "'f fmem"
  assumes ok: "parallel_call_ok usable (env_info e) problem lhs rhs out workspace bytes requested policy"
    and env: "\<not> env_inside_worker e" "\<not> env_stopping e"
  defines "job \<equiv> job_of (backend F) problem lhs rhs out workspace requested"
  assumes fp: "list_all (env_fp_compatible e) [0..<workers_of job]"
    and rounds: "env_schedule e = concat rounds" "\<forall>r \<in> set rounds. set r = {..<workers_of job}"
      "7 * workers_of job \<le> length rounds"
  shows "\<exists>report mem'. execute_parallel (backend F) e problem lhs rhs out workspace bytes requested policy mem =
    Some (if \<forall>w < workers_of job. task_succeeds job w then pgs_success else pgs_worker_task_failed, report, mem')"
proof -
  note a = execute_accepted [OF ok, where F = F, folded job_def]
  have use: usable using ok by (simp add: parallel_call_ok_def Let_def)
  let ?final = "run_schedule job (env_schedule e) mem"
  have inv: "run_ok F job mem ?final" by (rule run_ok_schedule [OF a(1,2) use])
  have fin: "all_done job ?final"
    unfolding rounds(1) by (rule schedule_finishes [OF a(1,2) use rounds(2,3)])
  note statuses = finished_run(1) [OF a(1) inv fin]
  have "sequential_result (submission_of (partition_arguments job policy e ?final)) =
      (if \<forall>w < workers_of job. task_succeeds job w then ex_success else ex_callback_failed)"
    using statuses by (subst partitions_result [OF fp]) auto
  then have run: "run_output_partitions job policy e mem =
      Some (if \<forall>w < workers_of job. task_succeeds job w then ex_success else ex_callback_failed, False,
        run_memory ?final)"
    using partitions_admitted [OF a(1,3,4), of e ?final] env fp fin
    by (simp add: run_output_partitions_def Let_def)
  define good where "good \<longleftrightarrow> (\<forall>w < workers_of job. task_succeeds job w)"
  have other: "(if good then ex_success else ex_callback_failed) \<noteq> ex_nested_parallelism_rejected" by simp
  from a(6) [OF run [folded good_def] other] show ?thesis
    unfolding good_def [symmetric] by (cases good) auto
qed

end
section \<open>An example\<close>

definition tall_problem :: "u32 \<Rightarrow> CpuGemmProblemV1" where
  "tall_problem alignment = \<lparr>prob_m = 129, prob_n = 16, prob_k = 3, prob_element_type = scalar_f32,
     prob_accumulation_type = scalar_f32, prob_layout = layout_row_major_contiguous,
     prob_minimum_alignment_bytes = alignment\<rparr>"

lemma tall_fields [simp]:
  "prob_m (tall_problem a) = 129" "prob_n (tall_problem a) = 16" "prob_k (tall_problem a) = 3"
  "prob_minimum_alignment_bytes (tall_problem a) = a"
  by (simp_all add: tall_problem_def)

lemma tall_quantum:
  "greatest_common_divisor 16 16 = 16" "least_common_multiple 4 1 = 4"
  "divide_round_up 129 128 = 2" "divide_round_up 129 4 = 33" "divide_round_up 16 256 = 1"
proof -
  have 1: "greatest_common_divisor x 0 = x" for x by (simp add: greatest_common_divisor.simps)
  show "greatest_common_divisor 16 16 = 16"
    by (subst greatest_common_divisor.simps) (simp add: 1)
  have "greatest_common_divisor 4 1 = 1"
    by (subst greatest_common_divisor.simps) (simp add: 1)
  moreover have "u64_max div 4 \<noteq> 0" by (simp add: word_unat_eq_iff unat_div)
  ultimately show "least_common_multiple 4 1 = 4"
    by (simp add: least_common_multiple_def saturating_multiply_def)
qed (simp_all add: divide_round_up_def)

lemma tall_plan: "plan_cpu_parallel_tasks_v1 (tall_problem a) 2 = \<lparr>ptp_macro_tile_count = 2,
   ptp_row_quantum = 4, ptp_row_group_count = 33, ptp_row_task_count = 2, ptp_column_panel_count = 1,
   ptp_column_task_count = 1, ptp_task_count = 2, ptp_actual_threads = 2\<rparr>"
  unfolding plan_cpu_parallel_tasks_v1_def Let_def task_constants tall_fields
  by (simp add: tall_quantum work_floor_def row_tasks_only_def)

lemma tall_rectangles:
  "task_rectangle (job_of ops (tall_problem a) lhs rhs out workspace 2) 0 =
     \<lparr>tr_row_begin = 0, tr_rows = 68, tr_column_begin = 0, tr_column_end = 16\<rparr>"
  "task_rectangle (job_of ops (tall_problem a) lhs rhs out workspace 2) 1 =
     \<lparr>tr_row_begin = 68, tr_rows = 61, tr_column_begin = 0, tr_column_end = 16\<rparr>"
  by (simp_all add: tall_plan make_parallel_job_def task_rectangle_def task_share_def Let_def packed_constants)

lemma tall_packed: "packed_problem (tall_problem 4)" "packed_problem (tall_problem 64)"
  by (auto simp: packed_problem_def tall_problem_def intro: exI [of _ 2] exI [of _ 6])

definition two_workers :: CpuExecutionContextInfoV1 where
  "two_workers = \<lparr>cxi_version = 1, cxi_requested_threads = 2, cxi_actual_worker_count = 2,
     cxi_workers_started = 2, cxi_completed_submissions = 0, cxi_accepting_work = True,
     cxi_affinity = default_affinity_report\<rparr>"

text \<open>A pool of two workers that take turns.\<close>

definition taking_turns :: surroundings where
  "taking_turns = \<lparr>env_info = two_workers, env_inside_worker = False, env_stopping = False,
     env_fp_compatible = (\<lambda>_. True), env_schedule = concat (replicate 14 [1, 0]),
     env_finished = two_workers\<lparr>cxi_completed_submissions := 1\<rparr>\<rparr>"

lemma tall_call_ok:
  assumes "a \<in> {4, 64}"
  shows "parallel_call_ok True two_workers (tall_problem a) 4096 8192 12288 24576 4096 2 nest_native_only"
proof -
  have "arena_bytes (tall_problem a) 2 = 3264"
    by (simp add: arena_bytes_def b_image_total_def b_image_elements_def slice_bytes_def workspace_total_def
        a_panel_bytes_def round_up_def)
  moreover from this have "arena_ok (tall_problem a) 4096 8192 12288 24576 2 4096"
    using assms
    by (auto simp: arena_ok_def tensors_ok_def tensors_avoid_def workspace_ok_def placed_def disjoint_ranges_def
        bytes_at_def)
  ultimately show ?thesis
    using assms tall_packed
    by (auto simp: parallel_call_ok_def Let_def tall_plan two_workers_def)
qed

section \<open>Properties\<close>

text \<open>What a worker reads or writes in its task: the inputs, the image of B, its slice of the arena and its
  cells of the output.\<close>

definition territory :: "'f ParallelGemmJobV1 \<Rightarrow> nat \<Rightarrow> nat set" where
  "territory job w =
     panel (slot (job_lhs job)) (rows_of job * depth_of job) \<union>
     panel (slot (job_rhs job)) (depth_of job * columns_of job) \<union>
     image_panel (job_problem job) (job_workspace job) \<union>
     slice_panel (job_problem job) (job_workspace job) w \<union>
     {slot (job_out job) + (i * columns_of job + j) |i j.
        i < rows_of job \<and> j < columns_of job \<and> in_task job (of_nat w) i j}"

context parallel_backend
begin

lemma partition_stays_home:
  fixes F :: "'f fma_ops" and orig mem :: "'f fmem"
  assumes ready: "ready_job job threads bytes" and ops: "job_ops job = backend F" and usable
    and v: "v < workers_of job" and w: "w < workers_of job" "v \<noteq> w"
    and image: "holds_image job mem mem"
    and run: "execute_output_partition job (prepared_view job) (of_nat v) (of_nat v) mem = (ok, mem')"
    and x: "x \<in> territory job w"
  shows "mem' x = mem x"
proof (cases "task_succeeds job v")
  case False
  have t: "unat (of_nat v :: u64) < unat (job_task_count job)"
    using v tasks_per_worker [OF ready] worker_word [OF v] by simp
  have "job_column_task_count job = 1" "\<not> band_aligned job (of_nat v)"
    using False by (simp_all add: task_succeeds_def split: if_splits)
  from misaligned_band_fails [OF ready t v ops this] run show ?thesis by simp
next
  case True
  note f = ready_facts [OF ready]
  have tv: "unat (of_nat v :: u64) < unat (job_task_count job)" and tw: "unat (of_nat w :: u64) < unat (job_task_count job)"
    using v w(1) tasks_per_worker [OF ready] worker_word by simp_all
  have "job_column_task_count job = 1 \<Longrightarrow> band_aligned job (of_nat v)"
    using True by (simp add: task_succeeds_def)
  from output_partition_result [OF ready tv v ops \<open>usable\<close> this image] run
  have eff: "agree (slice_panel (job_problem job) (job_workspace job) v) (task_rect F job (of_nat v) mem mem) mem'"
    by simp
  let ?out = "panel (slot (job_out job)) (rows_of job * columns_of job)"
  have arena: "arena_ok (job_problem job) (job_lhs job) (job_rhs job) (job_out job) (job_workspace job)
      (job_active_threads job) bytes" using ready by (simp add: ready_job_def)
  note apart = arena_apart [OF f(2) arena] tensors_slots(1,2) [OF f(2,3)]
  note slices = slice_in_arena [OF v, of "job_problem job" "job_workspace job"]
    slice_in_arena [OF w(1), of "job_problem job" "job_workspace job"]
    image_in_arena [of "job_problem job" "job_workspace job" "job_active_threads job"]
  have cells: "slot (job_out job) + (i * columns_of job + j) \<in> ?out" if "i < rows_of job" "j < columns_of job" for i j
    by (rule in_matrix [OF that])
  let ?slice = "slice_panel (job_problem job) (job_workspace job) v"
  let ?others = "panel (slot (job_lhs job)) (rows_of job * depth_of job) \<union>
     panel (slot (job_rhs job)) (depth_of job * columns_of job) \<union>
     image_panel (job_problem job) (job_workspace job) \<union> slice_panel (job_problem job) (job_workspace job) w"
  have "?slice \<inter> ?others = {}"
    unfolding Int_Un_distrib
    using disjoint_mono [OF slices(1) order_refl apart(2)] disjoint_mono [OF slices(1) order_refl apart(3)]
      slices_disjoint [OF w(2), of "job_problem job" "job_workspace job"]
      slice_image_disjoint [of "job_problem job" "job_workspace job" v]
    by simp
  moreover have "?slice \<inter> ?out = {}" by (rule disjoint_mono [OF slices(1) order_refl apart(1)])
  moreover have "x \<in> ?others \<or> x \<in> ?out" using x cells unfolding territory_def by blast
  ultimately have away: "x \<notin> ?slice" by blast
  have "?out \<inter> ?others = {}"
    unfolding Int_Un_distrib
    using apart(4,5) disjoint_mono [OF slices(2) order_refl apart(1)] disjoint_mono [OF slices(3) order_refl apart(1)]
    by (simp add: Int_commute)
  then have inside: "x \<notin> ?others" if "x \<in> ?out" using that by blast
  have "task_rect F job (of_nat v) mem mem x = mem x"
  proof (cases "x \<in> ?out")
    case False
    then show ?thesis by (rule task_rect_outside [OF ready tv])
  next
    case True
    then obtain i j where ij: "x = slot (job_out job) + (i * columns_of job + j)" "j < columns_of job"
      "in_task job (of_nat w) i j"
      using x inside [OF True] unfolding territory_def by blast
    have "\<not> in_task job (of_nat v) i j"
    proof
      assume "in_task job (of_nat v) i j"
      then have "(of_nat v :: u64) = of_nat w" using tasks_disjoint [OF f(1) tv tw _ ij(3)] by blast
      then show False using w worker_word [OF v] worker_word [OF w(1)] by metis
    qed
    then show ?thesis using task_rect_at [OF ij(2), where t = "of_nat v" and i = i] by (simp add: ij(1))
  qed
  then show ?thesis using agreeD [OF eff away] by simp
qed

lemma running_task:
  fixes F :: "'f fma_ops" and mem :: "'f fmem"
  assumes ready: "ready_job job threads bytes" "job_ops job = backend F" usable
    and s: "s = run_schedule job schedule mem" and v: "v < workers_of job" and at: "run_stage s v = wk_task t"
  shows "run_published s" "run_packed_b s = prepared_view job" "holds_image job mem (run_memory s)"
    "agree (job_slots job) mem (run_memory s)" "t < job_task_count job \<Longrightarrow> t = of_nat v"
proof -
  have ok: "run_ok F job mem s" unfolding s by (rule run_ok_schedule [OF ready])
  then have "stage_ok job (run_published s) v (wk_task t)" using v at by (metis run_ok_def)
  then show p: "run_published s" by simp
  show "run_packed_b s = prepared_view job" "holds_image job mem (run_memory s)"
    "agree (job_slots job) mem (run_memory s)"
    using ok p unfolding run_ok_def by (auto split: if_splits)
  assume "t < job_task_count job"
  then have "unat t = v"
    using \<open>stage_ok job (run_published s) v (wk_task t)\<close> tasks_per_worker [OF ready(1)] v
    by (auto simp: word_less_nat_alt)
  then show "t = of_nat v" using worker_word [OF v] by (simp add: word_unat_eq_iff)
qed

lemma step_stays_home:
  fixes F :: "'f fma_ops" and mem :: "'f fmem"
  assumes ready: "ready_job job threads bytes" "job_ops job = backend F" usable
    and s: "s = run_schedule job schedule mem" and v: "v < workers_of job" "run_stage s v = wk_task t"
    and w: "w < workers_of job" "v \<noteq> w" "x \<in> territory job w"
  shows "run_memory (run_step job v s) x = run_memory s x"
proof (cases "t < job_task_count job")
  case False
  then show ?thesis using v(2) by (simp add: run_step_def worker_runs_task_def)
next
  case True
  note r = running_task [OF ready s v]
  have image: "holds_image job (run_memory s) (run_memory s)"
    using r(3) inputs_kept(2) [OF ready(1) r(4)] by (rule image_at_reread)
  obtain ok mem' where run: "execute_output_partition job (prepared_view job) (of_nat v) (of_nat v) (run_memory s) = (ok, mem')"
    by fastforce
  have "run_memory (run_step job v s) = mem'"
    using True v(2) run r(2) r(5) [OF True] by (simp add: run_step_def worker_runs_task_def)
  then show ?thesis using partition_stays_home [OF ready v(1) w(1,2) image run w(3)] by simp
qed

end

lemma both_backends:
  assumes "ops \<in> {kPackedAvx2Ops usable F, kPackedAvx512Ops usable F}"
    and "\<And>block backend. parallel_backend block backend usable \<Longrightarrow> ops = backend F \<Longrightarrow> P"
  shows P
  using assms avx2_parallel.parallel_backend_axioms avx512_parallel.parallel_backend_axioms by blast

text \<open>C4: The checks of \<^verbatim>\<open>execute_parallel\<close> accept a call exactly when the engine is usable, the problem is
  well formed, the context accepts work and has the requested workers, the nesting policy allows them, and
  the tensors and the arena for the threads that will run are placed, aligned and share no byte; they
  yield the task plan and the workspace layout for those threads.\<close>

theorem parallel_preflight_exact:
  fixes F :: "'f fma_ops"
  assumes "ops \<in> {kPackedAvx2Ops usable F, kPackedAvx512Ops usable F}"
  shows "parallel_preflight ops info problem lhs rhs out workspace bytes requested policy = Inr (plan, r) \<longleftrightarrow>
     parallel_call_ok usable info problem lhs rhs out workspace bytes requested policy \<and>
     plan = plan_cpu_parallel_tasks_v1 problem requested \<and>
     r = parallel_requirements_of problem (ptp_actual_threads plan)"
  using avx2_parallel.preflight_exact [of usable F] avx512_parallel.preflight_exact [of usable F] assms by auto

text \<open>C1: However the workers interleave, a parallel execution that reports success has left in the
  output the product of the inputs, and has changed nothing else but its arena.\<close>

theorem parallel_multiplies:
  fixes F :: "'f fma_ops" and mem mem' :: "'f fmem"
  assumes "execute \<in> {cpu_execute_parallel_packed_avx2_v1, cpu_execute_parallel_packed_avx512_v1}"
    and "execute usable F e problem lhs rhs out workspace bytes requested policy mem =
      Some (pgs_success, report, mem')"
  shows "multiplied F problem lhs rhs out
    (arena_slots problem workspace (ptp_actual_threads (plan_cpu_parallel_tasks_v1 problem requested))) mem mem'"
  using assms avx2_parallel.execute_multiplies(2) [of usable F e problem lhs rhs out workspace bytes requested policy mem report mem']
    avx512_parallel.execute_multiplies(2) [of usable F e problem lhs rhs out workspace bytes requested policy mem report mem']
  by (auto simp: cpu_execute_parallel_packed_avx2_v1_def cpu_execute_parallel_packed_avx512_v1_def)

text \<open>C14: A parallel and a single-threaded execution of the same call that both succeed leave the same
  memory outside their workspaces, bit for bit, whatever the number of threads and their schedule.\<close>

theorem parallel_equals_serial:
  fixes F :: "'f fma_ops" and mem mem1 mem2 :: "'f fmem"
  assumes "cpu_execute_parallel_packed_avx2_v1 usable F e problem lhs rhs out workspace bytes requested policy mem =
      Some (pgs_success, report, mem1)"
    and "cpu_execute_packed_avx2_v1 usable F problem lhs rhs out workspace' bytes' mem = (pst_success, mem2)"
  shows "agree (arena_slots problem workspace (ptp_actual_threads (plan_cpu_parallel_tasks_v1 problem requested)) \<union>
    workspace_slots problem transient_a_and_b workspace') mem1 mem2"
proof (rule multiplied_unique)
  show "multiplied F problem lhs rhs out (arena_slots problem workspace
      (ptp_actual_threads (plan_cpu_parallel_tasks_v1 problem requested)) \<union>
      workspace_slots problem transient_a_and_b workspace') mem mem1"
    using avx2_parallel.execute_multiplies(2) assms(1)
    by (intro multiplied_mono [OF _ Un_upper1]) (simp add: cpu_execute_parallel_packed_avx2_v1_def)
  have "cpu_validate_packed_avx2_v1 problem lhs rhs out workspace' bytes' = Inr ()"
    "mem2 = transient_run compute_block F problem lhs rhs out workspace' mem"
    using assms(2) execute_avx2_equation [of usable F problem lhs rhs out workspace' bytes' mem]
    by (auto split: if_splits)
  then show "multiplied F problem lhs rhs out (arena_slots problem workspace
      (ptp_actual_threads (plan_cpu_parallel_tasks_v1 problem requested)) \<union>
      workspace_slots problem transient_a_and_b workspace') mem mem2"
    using avx2_block.transient_multiplies [of problem lhs rhs out workspace' bytes' F mem]
    by (auto intro: multiplied_mono [OF _ Un_upper2])
qed

text \<open>C25: A call that the checks refuse returns an error and changes no memory.\<close>

theorem parallel_refusal_harmless:
  fixes F :: "'f fma_ops" and mem :: "'f fmem"
  assumes "ops \<in> {kPackedAvx2Ops usable F, kPackedAvx512Ops usable F}"
    and "\<not> parallel_call_ok usable (env_info e) problem lhs rhs out workspace bytes requested policy"
  shows "\<exists>s. s \<noteq> pgs_success \<and> execute_parallel ops e problem lhs rhs out workspace bytes requested policy mem =
    Some (s, default_parallel_report\<lparr>plg_requested_threads := requested\<rparr>, mem)"
  using avx2_parallel.execute_rejected [OF assms(2), of F mem]
    avx512_parallel.execute_rejected [OF assms(2), of F mem] assms(1) by blast

text \<open>C15: An accepted call on a running pool of compatible workers returns: seven turns for each worker are
  enough for every callback, however the turns are ordered. It reports success exactly when no task is a
  band of rows whose address breaks the declared alignment.\<close>

theorem parallel_call_returns:
  fixes F :: "'f fma_ops" and mem :: "'f fmem"
  assumes "ops \<in> {kPackedAvx2Ops usable F, kPackedAvx512Ops usable F}"
    and "parallel_call_ok usable (env_info e) problem lhs rhs out workspace bytes requested policy"
    and "\<not> env_inside_worker e" "\<not> env_stopping e"
  defines "job \<equiv> job_of ops problem lhs rhs out workspace requested"
  assumes "list_all (env_fp_compatible e) [0..<workers_of job]"
    and "env_schedule e = concat rounds" "\<forall>r \<in> set rounds. set r = {..<workers_of job}"
      "7 * workers_of job \<le> length rounds"
  shows "\<exists>report mem'. execute_parallel ops e problem lhs rhs out workspace bytes requested policy mem =
    Some (if \<forall>w < workers_of job. task_succeeds job w then pgs_success else pgs_worker_task_failed, report, mem')"
proof (rule both_backends [OF assms(1)])
  fix block and backend :: "'f fma_ops \<Rightarrow> 'f PackedBackendOpsV1"
  assume b: "parallel_backend block backend usable" and ops: "ops = backend F"
  show ?thesis
    using parallel_backend.execute_returns [OF b assms(2-4), of F rounds mem] assms(6-9)
    by (simp only: job_def ops)
qed

text \<open>C16: Every element of the output belongs to exactly one task of the plan.\<close>

theorem tasks_partition_output:
  fixes ops :: "'f PackedBackendOpsV1" and lhs rhs out workspace :: u64
  assumes "task_problem_ok problem requested" "i < unat (prob_m problem)" "j < unat (prob_n problem)"
  defines "job \<equiv> job_of ops problem lhs rhs out workspace requested"
  shows "\<exists>!t. unat t < unat (job_task_count job) \<and> in_task job t i j"
proof -
  have p: "planned job requested" and e: "job_problem job = problem"
    using assms(1) by (simp_all add: planned_def job_def make_parallel_job_def Let_def)
  show ?thesis
    using tasks_cover [OF p, of i j] tasks_disjoint [OF p, of _ _ i j] assms(2,3) unfolding e by blast
qed

text \<open>C5: No worker ever changes anything that another worker's task reads or writes: while one computes its
  task, the inputs, the image of B, and the other's scratch and output elements stay as they are.\<close>

theorem tasks_race_free:
  fixes F :: "'f fma_ops" and mem :: "'f fmem" and lhs rhs out workspace :: u64 and schedule :: "nat list"
  assumes "ops \<in> {kPackedAvx2Ops usable F, kPackedAvx512Ops usable F}"
    and "parallel_call_ok usable info problem lhs rhs out workspace bytes requested policy"
  defines "job \<equiv> job_of ops problem lhs rhs out workspace requested"
  defines "s \<equiv> run_schedule job schedule mem"
  assumes "v < workers_of job" "run_stage s v = wk_task t" "w < workers_of job" "v \<noteq> w" "x \<in> territory job w"
  shows "run_memory (run_step job v s) x = run_memory s x"
proof (rule both_backends [OF assms(1)])
  fix block and backend :: "'f fma_ops \<Rightarrow> 'f PackedBackendOpsV1"
  assume b: "parallel_backend block backend usable" and ops: "ops = backend F"
  have c: "usable" "requested \<noteq> 0" "packed_problem problem"
    "arena_ok problem lhs rhs out workspace (ptp_actual_threads (plan_cpu_parallel_tasks_v1 problem requested)) bytes"
    using assms(2) by (simp_all add: parallel_call_ok_def Let_def)
  have j: "ready_job job requested bytes" "job_ops job = backend F"
    using job_of_ready [OF c(3,2,4), of ops] by (simp_all add: job_def ops)
  show ?thesis
    by (rule parallel_backend.step_stays_home [OF b j c(1) s_def [THEN meta_eq_to_obj_eq] assms(5-9)])
qed

text \<open>C3: No worker starts a task before B is packed: in every state of every schedule in which a worker is at
  its task, worker zero has published and the arena holds the image of B.\<close>

theorem tasks_after_publication:
  fixes F :: "'f fma_ops" and mem :: "'f fmem" and lhs rhs out workspace :: u64 and schedule :: "nat list"
  assumes "ops \<in> {kPackedAvx2Ops usable F, kPackedAvx512Ops usable F}"
    and "parallel_call_ok usable info problem lhs rhs out workspace bytes requested policy"
  defines "job \<equiv> job_of ops problem lhs rhs out workspace requested"
  defines "s \<equiv> run_schedule job schedule mem"
  assumes "w < workers_of job" "run_stage s w = wk_task t"
  shows "run_published s \<and> holds_image job mem (run_memory s)"
proof (rule both_backends [OF assms(1)])
  fix block and backend :: "'f fma_ops \<Rightarrow> 'f PackedBackendOpsV1"
  assume b: "parallel_backend block backend usable" and ops: "ops = backend F"
  have c: "usable" "requested \<noteq> 0" "packed_problem problem"
    "arena_ok problem lhs rhs out workspace (ptp_actual_threads (plan_cpu_parallel_tasks_v1 problem requested)) bytes"
    using assms(2) by (simp_all add: parallel_call_ok_def Let_def)
  have j: "ready_job job requested bytes" "job_ops job = backend F"
    using job_of_ready [OF c(3,2,4), of ops] by (simp_all add: job_def ops)
  show ?thesis
    using parallel_backend.running_task [OF b j c(1) s_def [THEN meta_eq_to_obj_eq] assms(5,6)] by blast
qed

text \<open>C27: A workspace layout the query returns is well formed: the image of B fits before the worker region,
  each worker's slice fits its stride, offset and stride keep the 64-byte alignment, and the total is
  exactly the region offset and one stride for each thread, without wrapping.\<close>

theorem parallel_layout_well_formed:
  assumes "query \<in> {cpu_parallel_packed_avx2_workspace_requirements_v1 usable F,
      cpu_parallel_packed_avx512_workspace_requirements_v1 usable F}"
    and "query problem threads = Inr r"
  shows "plr_version r = kCpuParallelGemmVersionV1 \<and> plr_execution_threads r = threads \<and>
    plr_alignment_bytes r = 64 \<and> plr_shared_packed_b_offset r = 0 \<and>
    plr_shared_packed_b_bytes r \<le> plr_worker_region_offset r \<and>
    plr_per_worker_bytes r \<le> plr_per_worker_stride_bytes r \<and> 0 < plr_per_worker_bytes r \<and>
    64 dvd unat (plr_worker_region_offset r) \<and> 64 dvd unat (plr_per_worker_stride_bytes r) \<and>
    unat (plr_total_bytes r) =
      unat (plr_worker_region_offset r) + unat (plr_per_worker_stride_bytes r) * unat threads"
proof -
  have r: "threads \<noteq> 0" "packed_problem problem" "arena_bytes problem threads < 2 ^ 64"
    "r = parallel_requirements_of problem threads"
    using assms avx2_backend.requirements_exact [of usable F problem threads r]
      avx512_backend.requirements_exact [of usable F problem threads r]
    by (auto simp: cpu_parallel_packed_avx2_workspace_requirements_v1_def
        cpu_parallel_packed_avx512_workspace_requirements_v1_def)
  note s = slice_facts [of problem]
  have "b_image_total problem \<le> arena_bytes problem threads" by (simp add: arena_bytes_def)
  then have u: "unat (of_nat (b_image_total problem) :: u64) = b_image_total problem"
    "unat (of_nat (slice_bytes problem) :: u64) = slice_bytes problem"
    "unat (of_nat (arena_bytes problem threads) :: u64) = arena_bytes problem threads"
    using r(3) s(2) by (simp_all add: unat_of_nat64)
  have "0 < a_panel_bytes problem"
    using dims_positive [OF r(2)] round_up_bounds(1) [of 4 "min (unat (prob_m problem)) 128"]
    by (simp add: a_panel_bytes_def)
  then have "0 < slice_bytes problem" using s(3) by simp
  then have "0 < (of_nat (slice_bytes problem) :: u64)" using u(2) by (simp add: word_less_nat_alt)
  then show ?thesis
    using s u by (simp add: r(4) parallel_requirements_of_def default_parallel_requirements_def packed_constants
        arena_bytes_def)
qed

section \<open>A concrete call\<close>

abbreviation tall_job :: "'f PackedBackendOpsV1 \<Rightarrow> u32 \<Rightarrow> 'f ParallelGemmJobV1" where
  "tall_job ops a \<equiv> job_of ops (tall_problem a) 4096 8192 12288 24576 2"

lemma tall_workers:
  "job_active_threads (tall_job ops a) = 2" "job_column_task_count (tall_job ops a) = 1"
  "job_problem (tall_job ops a) = tall_problem a"
  by (simp_all add: make_parallel_job_def Let_def tall_plan)

lemma tall_tasks:
  "(\<forall>w < 2. task_succeeds (tall_job ops a) w) \<longleftrightarrow> unat a dvd 816 \<and> unat a dvd 4352"
proof -
  have "(\<forall>w < 2. P w) \<longleftrightarrow> P 0 \<and> P (1::nat)" for P
    by (simp add: less_2_cases_iff) blast
  then show ?thesis
    using tall_rectangles [where ops = ops and a = a and lhs = 4096 and rhs = 8192 and out = 12288 and workspace = 24576]
    unfolding task_succeeds_def band_aligned_def tall_workers by (simp add: Let_def)
qed

lemma turns: "env_schedule taking_turns = concat (replicate 14 [1, 0])"
    "\<forall>r \<in> set (replicate 14 [1, 0 :: nat]). set r = {..<2}" "7 * 2 \<le> length (replicate 14 [1, 0 :: nat])"
  by (auto simp: taking_turns_def less_2_cases_iff)

lemma tall_returns:
  fixes F :: "'f fma_ops"
  assumes "a \<in> {4, 64}"
  shows "\<exists>report mem'. execute_parallel (kPackedAvx2Ops True F) taking_turns (tall_problem a) 4096 8192 12288
      24576 4096 2 nest_native_only mem =
    Some (if unat a dvd 816 \<and> unat a dvd 4352 then pgs_success else pgs_worker_task_failed, report, mem')"
proof -
  have "parallel_call_ok True (env_info taking_turns) (tall_problem a) 4096 8192 12288 24576 4096 2 nest_native_only"
    using tall_call_ok [OF assms] by (simp add: taking_turns_def)
  note returns = avx2_parallel.execute_returns [OF this, of F "replicate 14 [1, 0]" mem]
  have inside: "\<not> env_inside_worker taking_turns" "\<not> env_stopping taking_turns"
    "list_all (env_fp_compatible taking_turns) [0..<unat (2::u32)]"
    by (simp_all add: taking_turns_def list_all_iff)
  have two: "unat (2::u32) = 2" by simp
  show ?thesis
    using returns [unfolded tall_workers, OF inside turns(1)] turns(2,3)
    unfolding two tall_tasks by blast
qed

text \<open>C26: A defect: 64-byte aligned tensors of 129 by 3 by 16 floats pass every check for two threads, and the
  call still fails, because the band of the second task begins at row 68, 816 bytes into A.\<close>

theorem aligned_call_can_fail:
  fixes F :: "'f fma_ops" and mem :: "'f fmem"
  shows "parallel_call_ok True (env_info taking_turns) (tall_problem 64) 4096 8192 12288 24576 4096 2 nest_native_only \<and>
    (\<exists>report mem'. execute_parallel (kPackedAvx2Ops True F) taking_turns (tall_problem 64) 4096 8192 12288
      24576 4096 2 nest_native_only mem = Some (pgs_worker_task_failed, report, mem'))"
  using tall_call_ok [of 64] tall_returns [of 64 F mem] by (simp add: taking_turns_def)

lemma tall_success:
  fixes F :: "'f fma_ops"
  obtains report mem' where "cpu_execute_parallel_packed_avx2_v1 True F taking_turns (tall_problem 4) 4096 8192 12288
      24576 4096 2 nest_native_only mem = Some (pgs_success, report, mem')"
  using tall_returns [of 4 F mem] by (auto simp: cpu_execute_parallel_packed_avx2_v1_def)

theorem parallel_preflight_exact_witness:
  "\<exists>plan r. parallel_preflight (kPackedAvx2Ops True integer_fma) two_workers (tall_problem 4) 4096 8192 12288
     24576 4096 2 nest_native_only = Inr (plan, r)"
  using parallel_preflight_exact [of "kPackedAvx2Ops True integer_fma" True integer_fma two_workers] tall_call_ok [of 4]
  by blast

theorem parallel_multiplies_witness:
  "\<exists>report mem'. cpu_execute_parallel_packed_avx2_v1 True integer_fma taking_turns (tall_problem 4) 4096 8192 12288
      24576 4096 2 nest_native_only int = Some (pgs_success, report, mem') \<and>
    multiplied integer_fma (tall_problem 4) 4096 8192 12288 (arena_slots (tall_problem 4) 24576 2) int mem'"
proof -
  obtain report mem' where run: "cpu_execute_parallel_packed_avx2_v1 True integer_fma taking_turns (tall_problem 4)
      4096 8192 12288 24576 4096 2 nest_native_only int = Some (pgs_success, report, mem')"
    by (rule tall_success)
  from parallel_multiplies [where execute = cpu_execute_parallel_packed_avx2_v1, OF _ run] run
  show ?thesis by (simp add: tall_plan)
qed

lemma tall_serial_accepted:
  "cpu_validate_packed_avx2_v1 (tall_problem 4) 4096 8192 12288 32768 4096 = Inr ()"
  unfolding packed_validation
  using tall_packed(1)
  by (simp add: workspace_total_def b_panel_offset_def b_panel_bytes_def
      a_panel_bytes_def round_up_def placed_def workspace_ok_def tensors_ok_def tensors_avoid_def
      disjoint_ranges_def bytes_at_def)

theorem parallel_equals_serial_witness:
  "\<exists>report mem1 mem2. cpu_execute_parallel_packed_avx2_v1 True integer_fma taking_turns (tall_problem 4) 4096 8192
      12288 24576 4096 2 nest_native_only int = Some (pgs_success, report, mem1) \<and>
    cpu_execute_packed_avx2_v1 True integer_fma (tall_problem 4) 4096 8192 12288 32768 4096 int = (pst_success, mem2) \<and>
    agree (arena_slots (tall_problem 4) 24576 2 \<union> workspace_slots (tall_problem 4) transient_a_and_b 32768) mem1 mem2"
proof -
  obtain report mem1 where run: "cpu_execute_parallel_packed_avx2_v1 True integer_fma taking_turns (tall_problem 4)
      4096 8192 12288 24576 4096 2 nest_native_only int = Some (pgs_success, report, mem1)"
    by (rule tall_success)
  obtain mem2 where serial: "cpu_execute_packed_avx2_v1 True integer_fma (tall_problem 4) 4096 8192 12288 32768 4096 int =
      (pst_success, mem2)"
    using execute_avx2_equation [of True integer_fma "tall_problem 4" 4096 8192 12288 32768 4096 int]
      tall_serial_accepted by auto
  from parallel_equals_serial [OF run serial] run serial show ?thesis by (auto simp: tall_plan)
qed

theorem parallel_refusal_harmless_witness:
  "\<exists>s. s \<noteq> pgs_success \<and> execute_parallel (kPackedAvx2Ops False integer_fma) taking_turns (tall_problem 4) 4096 8192
      12288 24576 4096 2 nest_native_only int =
    Some (s, default_parallel_report\<lparr>plg_requested_threads := 2\<rparr>, int)"
  by (rule parallel_refusal_harmless [where usable = False and F = integer_fma])
    (simp_all add: parallel_call_ok_def Let_def)

theorem parallel_call_returns_witness:
  "\<exists>report mem'. execute_parallel (kPackedAvx2Ops True integer_fma) taking_turns (tall_problem 4) 4096 8192 12288
      24576 4096 2 nest_native_only int = Some (pgs_success, report, mem')"
proof -
  let ?ops = "kPackedAvx2Ops True integer_fma"
  have fp: "list_all (env_fp_compatible taking_turns) [0..<workers_of (tall_job ?ops 4)]"
    and inside: "\<not> env_inside_worker taking_turns" "\<not> env_stopping taking_turns"
    by (simp_all add: taking_turns_def list_all_iff)
  have rounds: "\<forall>r \<in> set (replicate 14 [1, 0 :: nat]). set r = {..<workers_of (tall_job ?ops 4)}"
    "7 * workers_of (tall_job ?ops 4) \<le> length (replicate 14 [1, 0 :: nat])"
    unfolding tall_workers using turns(2) by simp_all
  have ok: "parallel_call_ok True (env_info taking_turns) (tall_problem 4) 4096 8192 12288 24576 4096 2 nest_native_only"
    using tall_call_ok [of 4] by (simp add: taking_turns_def)
  have good: "\<forall>w < workers_of (tall_job ?ops 4). task_succeeds (tall_job ?ops 4) w"
    unfolding tall_workers using tall_tasks [where ops = ?ops and a = 4] by simp
  from parallel_call_returns [OF _ ok inside fp turns(1) rounds, of integer_fma int] good show ?thesis by simp
qed

theorem tasks_partition_output_witness:
  "\<exists>!t. unat t < unat (job_task_count (tall_job (kPackedAvx2Ops True integer_fma) 4)) \<and>
     in_task (tall_job (kPackedAvx2Ops True integer_fma) 4) t 100 7"
  by (rule tasks_partition_output) (simp_all add: packed_task_problem tall_packed)

context parallel_backend
begin

lemma worker_zero_reaches_task:
  fixes F :: "'f fma_ops" and mem :: "'f fmem"
  assumes ready: "ready_job job threads bytes" and ops: "job_ops job = backend F"
  shows "run_stage (run_schedule job [0, 0, 0, 0, 0] mem) 0 = wk_task 0"
proof -
  note f = ready_facts [OF ready]
  obtain mem' where run: "ops_prepare_b (job_ops job) (job_problem job) (job_rhs job) (job_packed_b_destination job)
      (pbv_storage_bytes (job_packed_b job)) mem = (Inr (prepared_view job), mem')"
    using preparation_effect [OF ready ops] by blast
  have "0 < workers_of job" using planned_facts(1,2,8,9) [OF f(1)] by (metis mult_eq_0_iff neq0_conv)
  then have given: "job_active_threads job \<noteq> 0" "0 < workers_of job" "job_rhs job \<noteq> 0"
    "job_packed_b_destination job \<noteq> 0" "\<not> job_parallel_pack_b job"
    using ready f(3,4) by (auto simp: ready_job_def tensors_ok_def placed_def workspace_ok_def)
  let ?s = "(initial_run job mem)\<lparr>run_memory := mem', run_packed_b := prepared_view job\<rparr>"
  have 1: "run_step job 0 (initial_run job mem) = go 0 wk_publish ?s"
    using given run by (simp add: run_step_def worker_begins_def initial_run_def)
  show ?thesis
    using given plan_check_ok [OF ready]
    by (simp add: run_schedule_def 1) (simp add: run_step_def worker_waits_def worker_checks_def initial_run_def)
qed

end

lemma tall_first_task:
  "run_stage (run_schedule (tall_job (kPackedAvx2Ops True integer_fma) 4) [0, 0, 0, 0, 0] int) 0 = wk_task 0"
proof -
  have ok: "arena_ok (tall_problem 4) 4096 8192 12288 24576
      (ptp_actual_threads (plan_cpu_parallel_tasks_v1 (tall_problem 4) 2)) 4096"
    using tall_call_ok [of 4] by (simp add: parallel_call_ok_def Let_def)
  have "(2::u32) \<noteq> 0" by simp
  note job = job_of_ready [OF tall_packed(1) this ok, of "kPackedAvx2Ops True integer_fma"]
  show ?thesis by (rule avx2_parallel.worker_zero_reaches_task [OF job])
qed

theorem tasks_race_free_witness:
  "run_memory (run_step (tall_job (kPackedAvx2Ops True integer_fma) 4) 0
     (run_schedule (tall_job (kPackedAvx2Ops True integer_fma) 4) [0, 0, 0, 0, 0] int)) 1024 =
   run_memory (run_schedule (tall_job (kPackedAvx2Ops True integer_fma) 4) [0, 0, 0, 0, 0] int) 1024"
proof (rule tasks_race_free [where usable = True and F = integer_fma and v = 0 and w = 1 and t = 0])
  show "parallel_call_ok True two_workers (tall_problem 4) 4096 8192 12288 24576 4096 2 nest_native_only"
    using tall_call_ok by simp
  show "1024 \<in> territory (tall_job (kPackedAvx2Ops True integer_fma) 4) 1"
    unfolding territory_def by (simp add: make_parallel_job_def Let_def tall_plan slot_def panel_def)
qed (simp_all only: tall_first_task tall_workers, simp_all)

theorem tasks_after_publication_witness:
  "let job = tall_job (kPackedAvx2Ops True integer_fma) 4; s = run_schedule job [0, 0, 0, 0, 0] int
   in run_published s \<and> holds_image job int (run_memory s)"
  unfolding Let_def [of "tall_job _ _"] Let_def [of "run_schedule _ _ _"]
proof (rule tasks_after_publication [where usable = True and F = integer_fma and w = 0 and t = 0])
  show "parallel_call_ok True two_workers (tall_problem 4) 4096 8192 12288 24576 4096 2 nest_native_only"
    using tall_call_ok by simp
qed (simp_all only: tall_first_task tall_workers, simp_all)

theorem parallel_layout_well_formed_witness:
  "64 dvd unat (plr_worker_region_offset (parallel_requirements_of (tall_problem 4) 2))"
proof -
  have "cpu_parallel_packed_avx2_workspace_requirements_v1 True integer_fma (tall_problem 4) 2 =
      Inr (parallel_requirements_of (tall_problem 4) 2)"
    using tall_packed(1)
    by (simp add: cpu_parallel_packed_avx2_workspace_requirements_v1_def avx2_backend.requirements_exact
        arena_bytes_def b_image_total_def b_image_elements_def slice_bytes_def workspace_total_def
        a_panel_bytes_def round_up_def)
  from parallel_layout_well_formed [where usable = True and F = integer_fma, OF insertI1 this]
  show ?thesis by blast
qed

end
