(* ===== verification/RuntimeAbi.thy ===== *)
theory RuntimeAbi
  imports PlannerV2 PackedLayout
begin

text \<open>
  The C ABI of the CPU runtime (\<^verbatim>\<open>include/matcore/runtime_c.h\<close>) and the checks of
  \<^verbatim>\<open>runtime/cpu_runtime.cpp\<close> that every entry point starts with. A pointer argument is an option,
  \<open>None\<close> for \<^verbatim>\<open>nullptr\<close>; a data pointer is its 64-bit address; an array field is a list. The typedefs
  of the ABI are plain integers, and so are the fields here: a caller can pass any value. The sizes are those
  of the LP64 and LLP64 targets, on which no 64-bit size exceeds \<^verbatim>\<open>size_t\<close>.

  A validator is a sum: \<open>Inl\<close> is the status of an early return, \<open>Inr\<close> an \<^verbatim>\<open>ok\<close> status with the output.
  \<open>gemm_arguments_ok\<close> says what \<^verbatim>\<open>validate_gemm_v0\<close> accepts, and \<open>validated_gemm\<close> that what it
  accepts is a problem and tensors the packed engines accept.
\<close>

section \<open>Statuses\<close>

datatype matcore_status_code_v0 =
    ms_ok | ms_invalid_argument | ms_abi_mismatch | ms_unsupported_dtype | ms_unsupported_rank
  | ms_invalid_shape | ms_unsupported_layout | ms_unsupported_memory_space
  | ms_mixed_memory_spaces | ms_output_not_mutable | ms_unsupported_mutability
  | ms_shape_mismatch | ms_alias_violation | ms_unsupported_target | ms_unsupported_fallback
  | ms_arithmetic_overflow | ms_invalid_alignment | ms_insufficient_workspace
  | ms_unavailable_variant | ms_external_provider_failure | ms_invalid_thread_count
  | ms_prepack_mismatch | ms_invalid_execution_context | ms_executor_failure
  | ms_unsupported_capability | ms_accumulator_overflow
  | ms_unsupported_floating_point_environment

record matcore_status_v0 =
  ms_abi_version :: u32
  ms_struct_size :: u32
  ms_code :: matcore_status_code_v0
  ms_reserved0 :: u32
  ms_message :: string
  ms_reserved :: "u64 list"

definition status :: "matcore_status_code_v0 \<Rightarrow> string \<Rightarrow> matcore_status_v0" where
  "status code message = \<lparr>ms_abi_version = 0, ms_struct_size = 40, ms_code = code,
     ms_reserved0 = 0, ms_message = message, ms_reserved = [0, 0]\<rparr>"

abbreviation ok_status :: matcore_status_v0 where
  "ok_status \<equiv> status ms_ok ''ok''"

lemma status_code [simp]: "ms_code (status c m) = c"
  by (simp add: status_def)

lemma status_eq [simp]: "status c m = status d l \<longleftrightarrow> c = d \<and> m = l"
  by (auto simp: status_def)

text \<open>The string a \<^verbatim>\<open>std::string_view\<close> of the planner hands to C: an empty view has no data.\<close>

definition view_data :: "string \<Rightarrow> string option" where
  "view_data s = (if s = [] then None else Some s)"

section \<open>Descriptors\<close>

definition MATCORE_DTYPE_F32_V0 :: u32 where "MATCORE_DTYPE_F32_V0 = 1"
definition MATCORE_DTYPE_BF16_V0 :: u32 where "MATCORE_DTYPE_BF16_V0 = 3"
definition MATCORE_DTYPE_I8_V0 :: u32 where "MATCORE_DTYPE_I8_V0 = 4"
definition MATCORE_DTYPE_I32_V0 :: u32 where "MATCORE_DTYPE_I32_V0 = 5"
definition MATCORE_MEMORY_SPACE_HOST_V0 :: u32 where "MATCORE_MEMORY_SPACE_HOST_V0 = 1"
definition MATCORE_MEMORY_SPACE_CUDA_DEVICE_V0 :: u32 where "MATCORE_MEMORY_SPACE_CUDA_DEVICE_V0 = 2"
definition MATCORE_MEMORY_SPACE_ROCM_DEVICE_V0 :: u32 where "MATCORE_MEMORY_SPACE_ROCM_DEVICE_V0 = 3"
definition MATCORE_MUTABILITY_READ_ONLY_V0 :: u32 where "MATCORE_MUTABILITY_READ_ONLY_V0 = 1"
definition MATCORE_MUTABILITY_READ_WRITE_V0 :: u32 where "MATCORE_MUTABILITY_READ_WRITE_V0 = 2"
definition MATCORE_TARGET_CPU_V0 :: u32 where "MATCORE_TARGET_CPU_V0 = 1"
definition MATCORE_FALLBACK_ERROR_V0 :: u32 where "MATCORE_FALLBACK_ERROR_V0 = 1"

lemmas abi_constants = MATCORE_DTYPE_F32_V0_def MATCORE_DTYPE_BF16_V0_def MATCORE_DTYPE_I8_V0_def
  MATCORE_DTYPE_I32_V0_def MATCORE_MEMORY_SPACE_HOST_V0_def MATCORE_MEMORY_SPACE_CUDA_DEVICE_V0_def
  MATCORE_MEMORY_SPACE_ROCM_DEVICE_V0_def MATCORE_MUTABILITY_READ_ONLY_V0_def
  MATCORE_MUTABILITY_READ_WRITE_V0_def MATCORE_TARGET_CPU_V0_def MATCORE_FALLBACK_ERROR_V0_def

record matcore_tensor_desc_v0 =
  td_abi_version :: u32
  td_struct_size :: u32
  td_data :: u64
  td_dtype :: u32
  td_rank :: u32
  td_dims :: "i64 list"
  td_strides :: "i64 list"
  td_memory_space :: u32
  td_mutability :: u32
  td_reserved :: "u64 list"

record matcore_policy_v0 =
  pol_abi_version :: u32
  pol_struct_size :: u32
  pol_target :: u32
  pol_fallback :: u32
  pol_reserved :: "u64 list"

definition valid_header :: "u32 \<Rightarrow> u32 \<Rightarrow> u32 \<Rightarrow> bool" where
  "valid_header version struct_size expected \<longleftrightarrow> version = 0 \<and> struct_size = expected"

definition valid_memory_space :: "u32 \<Rightarrow> bool" where
  "valid_memory_space space \<longleftrightarrow> space = MATCORE_MEMORY_SPACE_HOST_V0 \<or>
     space = MATCORE_MEMORY_SPACE_CUDA_DEVICE_V0 \<or> space = MATCORE_MEMORY_SPACE_ROCM_DEVICE_V0"

definition valid_mutability :: "u32 \<Rightarrow> bool" where
  "valid_mutability mutability \<longleftrightarrow> mutability = MATCORE_MUTABILITY_READ_ONLY_V0 \<or>
     mutability = MATCORE_MUTABILITY_READ_WRITE_V0"

definition reserved_is_zero :: "u64 list \<Rightarrow> bool" where
  "reserved_is_zero reserved \<longleftrightarrow> list_all (\<lambda>v. v = 0) reserved"

definition validate_cpu_policy_v0 :: "matcore_policy_v0 option \<Rightarrow> matcore_status_v0 + unit" where
  "validate_cpu_policy_v0 policy =
    (case policy of
       None \<Rightarrow> Inl (status ms_invalid_argument ''GEMM policy must be non-null'')
     | Some p \<Rightarrow>
         and_then (require (valid_header (pol_abi_version p) (pol_struct_size p) 48)
           (status ms_abi_mismatch ''policy ABI version or size mismatch'')) (\<lambda>_.
         and_then (require (reserved_is_zero (pol_reserved p))
           (status ms_invalid_argument ''policy reserved fields must be zero'')) (\<lambda>_.
         and_then (require (pol_target p = MATCORE_TARGET_CPU_V0)
           (status ms_unsupported_target ''CPU GEMM v0 requires target=cpu'')) (\<lambda>_.
         require (pol_fallback p = MATCORE_FALLBACK_ERROR_V0)
           (status ms_unsupported_fallback ''CPU GEMM v0 requires fallback=error'')))))"

definition validate_tensor :: "matcore_tensor_desc_v0 \<Rightarrow> string \<Rightarrow> matcore_status_v0 + unit" where
  "validate_tensor tensor null_message =
     and_then (require (valid_header (td_abi_version tensor) (td_struct_size tensor) 192)
       (status ms_abi_mismatch ''tensor descriptor ABI version or size mismatch'')) (\<lambda>_.
     and_then (require (reserved_is_zero (td_reserved tensor))
       (status ms_invalid_argument ''tensor descriptor reserved fields must be zero'')) (\<lambda>_.
     and_then (require (td_data tensor \<noteq> 0) (status ms_invalid_argument null_message)) (\<lambda>_.
     and_then (require (td_dtype tensor = MATCORE_DTYPE_F32_V0)
       (status ms_unsupported_dtype ''CPU GEMM v0 supports only f32 tensors'')) (\<lambda>_.
     and_then (require (td_rank tensor = 2)
       (status ms_unsupported_rank ''CPU GEMM v0 requires rank-2 tensors'')) (\<lambda>_.
     and_then (require (0 < sint (td_dims tensor ! 0) \<and> 0 < sint (td_dims tensor ! 1))
       (status ms_invalid_shape ''CPU GEMM v0 dimensions must be positive'')) (\<lambda>_.
     and_then (require (td_strides tensor ! 1 = 1 \<and> td_strides tensor ! 0 = td_dims tensor ! 1)
       (status ms_unsupported_layout ''CPU GEMM v0 requires row-major contiguous tensors'')) (\<lambda>_.
     and_then (require (valid_memory_space (td_memory_space tensor))
       (status ms_unsupported_memory_space ''tensor descriptor has an unknown memory space'')) (\<lambda>_.
     and_then (require (valid_mutability (td_mutability tensor))
       (status ms_unsupported_mutability ''tensor descriptor has invalid mutability'')) (\<lambda>_.
     require (td_data tensor mod 4 = 0)
       (status ms_invalid_alignment ''f32 tensor data must satisfy float alignment''))))))))))"

text \<open>\<^verbatim>\<open>begin\<close> and \<^verbatim>\<open>end\<close> of a range are the span of \<^theory_text>\<open>PackedLayout\<close>, whose \<open>overlaps\<close> is the
  test of this file too.\<close>

definition byte_count :: "matcore_tensor_desc_v0 \<Rightarrow> ByteSpan option" where
  "byte_count tensor =
    (let rows = td_dims tensor ! 0; cols = td_dims tensor ! 1
     in if rows > u64_max div cols then None
        else let elements = rows * cols
          in if elements > u64_max div 4 then None
             else let bytes = elements * 4; address = td_data tensor
               in if bytes > u64_max - address then None
                  else Some \<lparr>span_begin = address, span_end = address + bytes\<rparr>)"

definition byte_range :: "u64 \<Rightarrow> u64 \<Rightarrow> ByteSpan option" where
  "byte_range pointer bytes =
    (if pointer = 0 then None
     else if bytes > u64_max - pointer then None
     else Some \<lparr>span_begin = pointer, span_end = pointer + bytes\<rparr>)"

definition validate_selected_workspace_v1 ::
  "u64 \<Rightarrow> u32 \<Rightarrow> u64 \<Rightarrow> u64 \<Rightarrow> matcore_tensor_desc_v0 \<Rightarrow> matcore_tensor_desc_v0 \<Rightarrow>
   matcore_tensor_desc_v0 \<Rightarrow> matcore_status_v0 + unit" where
  "validate_selected_workspace_v1 required_bytes required_alignment workspace workspace_bytes out lhs rhs =
    (if required_bytes = 0 then Inr ()
     else and_then (require (\<not> (required_bytes > workspace_bytes \<or> workspace = 0))
         (status ms_insufficient_workspace
           ''CPU GEMM workspace is smaller than the selected plan requires'')) (\<lambda>_.
       and_then (require (\<not> (required_alignment = 0 \<or>
           required_alignment AND (required_alignment - 1) \<noteq> 0 \<or>
           workspace mod u32_to_u64 required_alignment \<noteq> 0))
         (status ms_invalid_alignment
           ''CPU GEMM workspace does not satisfy selected alignment'')) (\<lambda>_.
       let overflow = status ms_arithmetic_overflow
         ''CPU GEMM workspace range overflows the address space''
       in and_then (or_fail (byte_range workspace required_bytes) overflow) (\<lambda>workspace_span.
          and_then (or_fail (byte_count out) overflow) (\<lambda>out_span.
          and_then (or_fail (byte_count lhs) overflow) (\<lambda>lhs_span.
          and_then (or_fail (byte_count rhs) overflow) (\<lambda>rhs_span.
          require (\<not> (overlaps workspace_span out_span \<or> overlaps workspace_span lhs_span \<or>
              overlaps workspace_span rhs_span))
            (status ms_alias_violation
              ''CPU GEMM workspace must not overlap any tensor'')))))))) "

record ValidatedGemmV0 =
  vg_problem :: CpuGemmProblemV1
  vg_lhs :: u64
  vg_rhs :: u64
  vg_out :: u64

definition minimum_alignment :: "u64 \<Rightarrow> u64 \<Rightarrow> u64 \<Rightarrow> u32" where
  "minimum_alignment out lhs rhs =
    (let out_alignment = of_nat (pointer_alignment_bytes out) :: u32;
         lhs_alignment = of_nat (pointer_alignment_bytes lhs);
         rhs_alignment = of_nat (pointer_alignment_bytes rhs);
         minimum = (if out_alignment < lhs_alignment then out_alignment else lhs_alignment)
     in if rhs_alignment < minimum then rhs_alignment else minimum)"

definition validate_gemm_v0 ::
  "matcore_tensor_desc_v0 option \<Rightarrow> matcore_tensor_desc_v0 option \<Rightarrow> matcore_tensor_desc_v0 option \<Rightarrow>
   matcore_policy_v0 option \<Rightarrow> matcore_status_v0 + ValidatedGemmV0" where
  "validate_gemm_v0 out lhs rhs policy =
    (case (out, lhs, rhs, policy) of
       (Some out, Some lhs, Some rhs, Some _) \<Rightarrow>
         and_then (validate_cpu_policy_v0 policy) (\<lambda>_.
         and_then (validate_tensor out ''output data is null'') (\<lambda>_.
         and_then (validate_tensor lhs ''left input data is null'') (\<lambda>_.
         and_then (validate_tensor rhs ''right input data is null'') (\<lambda>_.
         and_then (require (td_mutability out = MATCORE_MUTABILITY_READ_WRITE_V0)
           (status ms_output_not_mutable ''GEMM output must be mutable'')) (\<lambda>_.
         and_then (require (\<not> (td_memory_space out \<noteq> td_memory_space lhs \<or>
             td_memory_space out \<noteq> td_memory_space rhs))
           (status ms_mixed_memory_spaces ''GEMM tensors must use one memory space'')) (\<lambda>_.
         and_then (require (td_memory_space out = MATCORE_MEMORY_SPACE_HOST_V0)
           (status ms_unsupported_memory_space ''CPU GEMM v0 accepts host tensors only'')) (\<lambda>_.
         let m = td_dims lhs ! 0; k = td_dims lhs ! 1; n = td_dims rhs ! 1;
             overflow = status ms_arithmetic_overflow
               ''tensor byte range overflows the address space''
         in and_then (require (\<not> (td_dims rhs ! 0 \<noteq> k \<or> td_dims out ! 0 \<noteq> m \<or> td_dims out ! 1 \<noteq> n))
              (status ms_shape_mismatch
                ''GEMM shapes must be lhs[M,K], rhs[K,N], out[M,N]'')) (\<lambda>_.
            and_then (or_fail (byte_count out) overflow) (\<lambda>out_span.
            and_then (or_fail (byte_count lhs) overflow) (\<lambda>lhs_span.
            and_then (or_fail (byte_count rhs) overflow) (\<lambda>rhs_span.
            and_then (require (\<not> (overlaps out_span lhs_span \<or> overlaps out_span rhs_span))
              (status ms_alias_violation ''GEMM output must not overlap either input'')) (\<lambda>_.
            Inr \<lparr>vg_problem = \<lparr>prob_m = m, prob_n = n, prob_k = k, prob_element_type = scalar_f32,
                  prob_accumulation_type = scalar_f32, prob_layout = layout_row_major_contiguous,
                  prob_minimum_alignment_bytes =
                    minimum_alignment (td_data out) (td_data lhs) (td_data rhs)\<rparr>,
                 vg_lhs = td_data lhs, vg_rhs = td_data rhs, vg_out = td_data out\<rparr>))))))))))))
     | _ \<Rightarrow> Inl (status ms_invalid_argument ''GEMM descriptors and policy must be non-null''))"

section \<open>Ranges\<close>

lemma word_greater_div: "c \<noteq> 0 \<Longrightarrow> (a > u64_max div c) = (2 ^ 64 \<le> unat a * unat c)"
  using nat_mult_gt_iff_div [of "unat c" "2 ^ 64 - 1" "unat a"]
  by (simp add: word_less_nat_alt unat_div unat_gt_0 mult.commute) arith

lemma byte_range_span: "byte_range = make_span"
  by (simp add: fun_eq_iff byte_range_def make_span_def)

lemma byte_count_Some:
  assumes "td_data t \<noteq> 0" "0 < sint (td_dims t ! 0)" "0 < sint (td_dims t ! 1)"
  shows "byte_count t = Some s \<longleftrightarrow>
    placed (td_data t) (unat (td_dims t ! 0) * unat (td_dims t ! 1) * 4) \<and>
    s = tensor_span (td_data t) (td_dims t ! 0) (td_dims t ! 1)"
proof -
  define r where "r = td_dims t ! 0"
  define c where "c = td_dims t ! 1"
  define P where "P = unat r * unat c"
  have c0: "c \<noteq> 0" using assms(3) by (auto simp: c_def)
  have rows: "(r > u64_max div c) = (\<not> unat r * unat c < 2 ^ 64)"
    by (simp only: word_greater_div [OF c0] not_less)
  have elements: "(r * c > u64_max div 4) = (\<not> unat (r * c) * 4 < 2 ^ 64)"
    using word_greater_div [of 4 "r * c"] by (simp only: not_less) simp
  have bytes: "(r * c * 4 > u64_max - td_data t) = (\<not> unat (td_data t) + unat (r * c * 4) < 2 ^ 64)"
    using unat_lt64 [of "td_data t"] by (simp add: word_less_nat_alt unat_u64_max_minus, arith)
  have product: "unat r * unat c < 2 ^ 64 \<Longrightarrow> unat (r * c) = unat r * unat c"
    by (simp add: unat_word_ariths)
  have fits: "(r > u64_max div c \<or> r * c > u64_max div 4 \<or> r * c * 4 > u64_max - td_data t) =
      (\<not> placed (td_data t) (unat r * unat c * 4))"
    unfolding rows elements bytes placed_def using assms(1) product unat_matrix_bytes [of r c]
    unfolding P_def [symmetric] by (cases "P * 4 < 2 ^ 64") auto
  show ?thesis
    unfolding byte_count_def Let_def tensor_span_def r_def [symmetric] c_def [symmetric]
    using fits by auto
qed

section \<open>What a valid call is\<close>

definition tensor_ok :: "matcore_tensor_desc_v0 \<Rightarrow> bool" where
  "tensor_ok t \<longleftrightarrow> td_abi_version t = 0 \<and> td_struct_size t = 192 \<and> reserved_is_zero (td_reserved t) \<and>
     td_data t \<noteq> 0 \<and> 4 dvd unat (td_data t) \<and> td_dtype t = MATCORE_DTYPE_F32_V0 \<and> td_rank t = 2 \<and>
     0 < sint (td_dims t ! 0) \<and> 0 < sint (td_dims t ! 1) \<and>
     td_strides t ! 0 = td_dims t ! 1 \<and> td_strides t ! 1 = 1 \<and>
     valid_memory_space (td_memory_space t) \<and> valid_mutability (td_mutability t)"

definition policy_ok :: "matcore_policy_v0 \<Rightarrow> bool" where
  "policy_ok p \<longleftrightarrow> pol_abi_version p = 0 \<and> pol_struct_size p = 48 \<and> reserved_is_zero (pol_reserved p) \<and>
     pol_target p = MATCORE_TARGET_CPU_V0 \<and> pol_fallback p = MATCORE_FALLBACK_ERROR_V0"

definition call_problem ::
  "matcore_tensor_desc_v0 \<Rightarrow> matcore_tensor_desc_v0 \<Rightarrow> matcore_tensor_desc_v0 \<Rightarrow> CpuGemmProblemV1" where
  "call_problem out lhs rhs =
     \<lparr>prob_m = td_dims lhs ! 0, prob_n = td_dims rhs ! 1, prob_k = td_dims lhs ! 1,
      prob_element_type = scalar_f32, prob_accumulation_type = scalar_f32,
      prob_layout = layout_row_major_contiguous,
      prob_minimum_alignment_bytes = minimum_alignment (td_data out) (td_data lhs) (td_data rhs)\<rparr>"

definition gemm_arguments_ok ::
  "matcore_tensor_desc_v0 \<Rightarrow> matcore_tensor_desc_v0 \<Rightarrow> matcore_tensor_desc_v0 \<Rightarrow> matcore_policy_v0 \<Rightarrow>
   bool" where
  "gemm_arguments_ok out lhs rhs policy \<longleftrightarrow>
     policy_ok policy \<and> tensor_ok out \<and> tensor_ok lhs \<and> tensor_ok rhs \<and>
     td_mutability out = MATCORE_MUTABILITY_READ_WRITE_V0 \<and>
     td_memory_space out = MATCORE_MEMORY_SPACE_HOST_V0 \<and>
     td_memory_space lhs = MATCORE_MEMORY_SPACE_HOST_V0 \<and>
     td_memory_space rhs = MATCORE_MEMORY_SPACE_HOST_V0 \<and>
     td_dims rhs ! 0 = td_dims lhs ! 1 \<and> td_dims out ! 0 = td_dims lhs ! 0 \<and>
     td_dims out ! 1 = td_dims rhs ! 1 \<and>
     (let problem = call_problem out lhs rhs
      in placed (td_data lhs) (lhs_bytes problem) \<and> placed (td_data rhs) (rhs_bytes problem) \<and>
         placed (td_data out) (out_bytes problem) \<and>
         disjoint_ranges (td_data out) (out_bytes problem) (td_data lhs) (lhs_bytes problem) \<and>
         disjoint_ranges (td_data out) (out_bytes problem) (td_data rhs) (rhs_bytes problem))"

lemma policy_Inr: "validate_cpu_policy_v0 (Some p) = Inr u \<longleftrightarrow> policy_ok p"
  by (simp add: validate_cpu_policy_v0_def policy_ok_def valid_header_def result_simps)

lemma data_alignment: "(a :: u64) mod 4 = 0 \<longleftrightarrow> 4 dvd unat a"
  using pointer_has_alignment_iff [of 4 a] by (cases "a = 0") (auto simp: pointer_has_alignment_def)

lemma tensor_Inr: "validate_tensor t message = Inr u \<longleftrightarrow> tensor_ok t"
  by (auto simp: validate_tensor_def tensor_ok_def valid_header_def result_simps data_alignment)

lemma tensor_apart:
  assumes "0 < sint (td_dims t ! 0)" "0 < sint (td_dims t ! 1)"
    and "0 < sint (td_dims u ! 0)" "0 < sint (td_dims u ! 1)"
    and "placed (td_data t) (unat (td_dims t ! 0) * unat (td_dims t ! 1) * 4)"
    and "placed (td_data u) (unat (td_dims u ! 0) * unat (td_dims u ! 1) * 4)"
  shows "overlaps (tensor_span (td_data t) (td_dims t ! 0) (td_dims t ! 1))
      (tensor_span (td_data u) (td_dims u ! 0) (td_dims u ! 1)) \<longleftrightarrow>
    \<not> disjoint_ranges (td_data t) (unat (td_dims t ! 0) * unat (td_dims t ! 1) * 4)
        (td_data u) (unat (td_dims u ! 0) * unat (td_dims u ! 1) * 4)"
proof -
  have pos: "0 < sint x \<Longrightarrow> 0 < unat x" for x :: u64
    by (cases "x = 0") (auto simp: unat_gt_0)
  show ?thesis
    using assms(5,6) pos [OF assms(1)] pos [OF assms(2)] pos [OF assms(3)] pos [OF assms(4)]
    by (intro tensor_overlaps) (auto simp: placed_def intro!: unat_matrix_bytes)
qed

lemma validate_gemm_Inr:
  "validate_gemm_v0 (Some out) (Some lhs) (Some rhs) (Some policy) = Inr v \<longleftrightarrow>
     gemm_arguments_ok out lhs rhs policy \<and>
     v = \<lparr>vg_problem = call_problem out lhs rhs, vg_lhs = td_data lhs, vg_rhs = td_data rhs,
          vg_out = td_data out\<rparr>"
proof (cases "tensor_ok out \<and> tensor_ok lhs \<and> tensor_ok rhs")
  case True
  then have pos: "0 < sint (td_dims out ! 0)" "0 < sint (td_dims out ! 1)" "0 < sint (td_dims lhs ! 0)"
      "0 < sint (td_dims lhs ! 1)" "0 < sint (td_dims rhs ! 0)" "0 < sint (td_dims rhs ! 1)"
    and data: "td_data out \<noteq> 0" "td_data lhs \<noteq> 0" "td_data rhs \<noteq> 0"
    by (simp_all add: tensor_ok_def)
  show ?thesis
    unfolding validate_gemm_v0_def gemm_arguments_ok_def
    using tensor_apart [OF pos(1-4)] tensor_apart [OF pos(1,2,5,6)]
    by (auto simp: result_simps policy_Inr tensor_Inr True Let_def call_problem_def
        byte_count_Some [OF data(1) pos(1,2)] byte_count_Some [OF data(2) pos(3,4)]
        byte_count_Some [OF data(3) pos(5,6)])
next
  case False
  then show ?thesis
    by (auto simp: validate_gemm_v0_def gemm_arguments_ok_def result_simps tensor_Inr)
qed

lemma validate_gemm_null:
  "out = None \<or> lhs = None \<or> rhs = None \<or> policy = None \<Longrightarrow>
   validate_gemm_v0 out lhs rhs policy =
     Inl (status ms_invalid_argument ''GEMM descriptors and policy must be non-null'')"
  by (auto simp: validate_gemm_v0_def split: option.split)

section \<open>A validated call suits the engines\<close>

lemma float_alignment:
  assumes "p \<noteq> 0" "4 dvd unat p"
  shows "\<exists>r. 2 \<le> r \<and> r \<le> 6 \<and> pointer_alignment_bytes p = 2 ^ r \<and> 2 ^ r dvd unat p"
proof -
  obtain r where r: "r \<le> 6" "pointer_alignment_bytes p = 2 ^ r" "2 ^ r dvd unat p"
    "r = 6 \<or> \<not> 2 ^ Suc r dvd unat p"
    using pointer_alignment_largest [of p] assms(1) by blast
  have "2 \<le> r"
  proof (rule ccontr)
    assume "\<not> 2 \<le> r"
    then have "2 ^ Suc r dvd (2::nat) ^ 2" by (intro le_imp_power_dvd) simp
    then have "2 ^ Suc r dvd unat p" using assms(2) by (auto intro: dvd_trans)
    with r(4) \<open>\<not> 2 \<le> r\<close> show False by auto
  qed
  with r show ?thesis by blast
qed

lemma power_le_64: "(r::nat) \<le> 6 \<Longrightarrow> (2::nat) ^ r \<le> 64"
  using power_increasing [of r 6 "2::nat"] by simp

lemma unat_alignment:
  assumes "r \<le> 6"
  shows "unat (of_nat (2 ^ r) :: u32) = 2 ^ r"
proof -
  have "take_bit 32 ((2::nat) ^ r) = 2 ^ r"
    by (rule take_bit_nat_eq_self, rule le_less_trans [OF power_le_64 [OF assms]]) simp
  then show ?thesis by (simp add: unsigned_of_nat del: of_nat_power)
qed

lemma minimum_alignment_power:
  assumes "out \<noteq> 0" "lhs \<noteq> 0" "rhs \<noteq> 0"
    and "4 dvd unat out" "4 dvd unat lhs" "4 dvd unat rhs"
  shows "\<exists>e. 2 \<le> e \<and> e \<le> 6 \<and> unat (minimum_alignment out lhs rhs) = 2 ^ e \<and>
    2 ^ e dvd unat out \<and> 2 ^ e dvd unat lhs \<and> 2 ^ e dvd unat rhs"
proof -
  obtain a where a: "2 \<le> a" "a \<le> 6" "pointer_alignment_bytes out = 2 ^ a" "2 ^ a dvd unat out"
    using float_alignment assms(1,4) by blast
  obtain b where b: "2 \<le> b" "b \<le> 6" "pointer_alignment_bytes lhs = 2 ^ b" "2 ^ b dvd unat lhs"
    using float_alignment assms(2,5) by blast
  obtain c where c: "2 \<le> c" "c \<le> 6" "pointer_alignment_bytes rhs = 2 ^ c" "2 ^ c dvd unat rhs"
    using float_alignment assms(3,6) by blast
  note less = word_less_nat_alt unat_alignment [OF a(2)] unat_alignment [OF b(2)] unat_alignment [OF c(2)]
  have "unat (minimum_alignment out lhs rhs) = 2 ^ min (min a b) c"
    unfolding minimum_alignment_def Let_def a(3) b(3) c(3)
    by (auto simp: less power_strict_increasing_iff min_def simp del: of_nat_power)
  moreover have "2 ^ min (min a b) c dvd unat out" "2 ^ min (min a b) c dvd unat lhs"
      "2 ^ min (min a b) c dvd unat rhs"
    by (rule dvd_trans [OF le_imp_power_dvd a(4)] dvd_trans [OF le_imp_power_dvd b(4)]
        dvd_trans [OF le_imp_power_dvd c(4)]; simp)+
  ultimately show ?thesis
    using a b c by (intro exI [of _ "min (min a b) c"]) auto
qed

lemma validated_gemm:
  assumes "gemm_arguments_ok out lhs rhs policy"
  shows "packed_problem (call_problem out lhs rhs)"
    "tensors_ok (call_problem out lhs rhs) (td_data lhs) (td_data rhs) (td_data out)"
    "common_legality_reason (call_problem out lhs rhs) = []"
proof -
  let ?a = "minimum_alignment (td_data out) (td_data lhs) (td_data rhs)"
  obtain e where e: "2 \<le> e" "unat ?a = 2 ^ e" and small: "e \<le> 6" and tensors:
    "2 ^ e dvd unat (td_data out)" "2 ^ e dvd unat (td_data lhs)" "2 ^ e dvd unat (td_data rhs)"
    using minimum_alignment_power [of "td_data out" "td_data lhs" "td_data rhs"] assms
    by (auto simp: gemm_arguments_ok_def tensor_ok_def)
  show "packed_problem (call_problem out lhs rhs)"
    unfolding packed_problem_def using assms e(1,2)
    by (auto simp: call_problem_def gemm_arguments_ok_def tensor_ok_def Let_def placed_def)
  show "tensors_ok (call_problem out lhs rhs) (td_data lhs) (td_data rhs) (td_data out)"
    unfolding tensors_ok_def using assms e(2) tensors
    by (auto simp: call_problem_def gemm_arguments_ok_def Let_def)
  have "e \<in> {2, 3, 4, 5, 6}" using e(1) small by auto
  then have "unat ?a \<in> {4, 8, 16, 32, 64}" using e(2) by auto
  then have "?a \<in> {4, 8, 16, 32, 64}" by (auto intro!: word_eq_unatI)
  then show "common_legality_reason (call_problem out lhs rhs) = []"
    using assms by (auto simp: common_legality_reason_def call_problem_def gemm_arguments_ok_def tensor_ok_def)
qed

end
