(* ===== verification/RuntimeOneShot.thy ===== *)
theory RuntimeOneShot
  imports RuntimeAbi PackedGemm
begin

text \<open>
  The entry points of \<^verbatim>\<open>runtime/cpu_runtime.cpp\<close> that need no execution context, with
  \<^verbatim>\<open>runtime/cpu_backend_registry.cpp\<close>: planning (\<^verbatim>\<open>plan_gemm_f32_v1\<close>), the workspace query and the
  execution of the second ABI generation, and the first one-shot call (\<^verbatim>\<open>gemm_f32_v0\<close>). They join the argument checks of \<^theory_text>\<open>RuntimeAbi\<close>, the planner
  of \<^theory_text>\<open>PlannerV2\<close>, the packed engine of \<^theory_text>\<open>PackedGemm\<close> and the kernels of
  \<^theory_text>\<open>GemmKernels\<close> on one memory.

  What a call meets in the process is the record \<open>process\<close>: the build, the processor, the floating-point
  environment of the calling thread, the arithmetic, and the answers of the OpenBLAS adapter. A buffer of a
  legacy kernel is the list of the floats at its address before the call, and the output list is written back:
  \<^verbatim>\<open>validate_gemm_v0\<close> has kept the output apart from the inputs.
\<close>

section \<open>The process\<close>

record OpenBlasProviderInfoV1 =
  obi_linked :: bool
  obi_package_version :: string
  obi_runtime_config :: string
  obi_runtime_core :: string
  obi_parallel_model :: u32
  obi_maximum_reported_threads :: u32

record OpenBlasConformanceReportV1 =
  obc_version :: u32
  obc_provider_identity_key :: u64
  obc_provider_linked :: bool
  obc_identity_complete :: bool
  obc_probe_attempted :: bool
  obc_caller_environment_compatible :: bool
  obc_finite_correct :: bool
  obc_gradual_subnormal_correct :: bool
  obc_nan_input_propagated :: bool
  obc_infinity_classes_preserved :: bool
  obc_inf_times_zero_is_nan :: bool
  obc_opposite_infinity_sum_is_nan :: bool
  obc_nonfinite_classes_correct :: bool
  obc_control_state_preserved :: bool
  obc_thread_state_restored :: bool
  obc_conformant :: bool

datatype OpenBlasExecutionStatusV1 =
    obs_success | obs_unavailable | obs_invalid_problem | obs_invalid_thread_count
  | obs_unsupported_fp_environment | obs_provider_conformance_failed | obs_provider_state_violation

text \<open>The answers of \<^verbatim>\<open>runtime/cpu_openblas.h\<close>: whether the adapter is linked at build time, the
  identity, the conformance report, and an execution, which returns its status, the threads it used and
  the memory.\<close>

record 'f openblas_adapter =
  ob_linked_at_build :: bool
  ob_info :: OpenBlasProviderInfoV1
  ob_conformance :: OpenBlasConformanceReportV1
  ob_execute :: "CpuGemmProblemV1 \<Rightarrow> u64 \<Rightarrow> u64 \<Rightarrow> u64 \<Rightarrow> u32 \<Rightarrow> 'f fmem \<Rightarrow>
    OpenBlasExecutionStatusV1 \<times> u32 \<times> 'f fmem"

record 'f process =
  pr_instrumented :: bool
  pr_target :: discovery_target_v1
  pr_kernel_ops :: "'f float_ops"
  pr_fma_ops :: "'f fma_ops"
  pr_packed_avx2_build :: bool
  pr_packed_avx2_usable :: bool
  pr_fp_compatible :: bool
  pr_fp_rejection_reason :: string
  pr_openblas :: "'f openblas_adapter"

definition validate_current_fp_environment_v1 :: "'f process \<Rightarrow> matcore_status_v0 + unit" where
  "validate_current_fp_environment_v1 pr =
     require (pr_fp_compatible pr)
       (status ms_unsupported_floating_point_environment (pr_fp_rejection_reason pr))"

section \<open>Options, requirements and reports\<close>

record matcore_cpu_gemm_execution_options_v1 =
  eo1_abi_version :: u32
  eo1_struct_size :: u32
  eo1_request :: u32
  eo1_requested_threads :: u32
  eo1_flags :: u64
  eo1_reserved :: "u64 list"

definition validate_execution_options ::
  "matcore_cpu_gemm_execution_options_v1 option \<Rightarrow> matcore_status_v0 + CpuGemmRequestV2" where
  "validate_execution_options options =
    (case options of
       None \<Rightarrow> Inl (status ms_invalid_argument ''CPU GEMM execution options must be non-null'')
     | Some opts \<Rightarrow>
         and_then (require (eo1_abi_version opts = 1 \<and> eo1_struct_size opts = 56)
           (status ms_abi_mismatch ''CPU GEMM execution options ABI version or size mismatch'')) (\<lambda>_.
         and_then (require (eo1_requested_threads opts \<noteq> 0)
           (status ms_invalid_thread_count
             ''CPU GEMM requested thread count must be positive'')) (\<lambda>_.
         and_then (require (eo1_flags opts = 0 \<and> reserved_is_zero (eo1_reserved opts))
           (status ms_invalid_argument
             ''CPU GEMM execution option flags and reserved fields must be zero'')) (\<lambda>_.
         if eo1_request opts = 0 then Inr req2_automatic
         else if eo1_request opts = 1 then Inr req2_force_reference
         else if eo1_request opts = 2 then Inr req2_force_tiled
         else if eo1_request opts = 3 then Inr req2_force_compiler_vectorized
         else if eo1_request opts = 4 then Inr req2_force_external_openblas
         else if eo1_request opts = 5 then Inr req2_force_native_packed_avx2_fma
         else Inl (status ms_unavailable_variant
           ''CPU GEMM execution requested an unknown variant'')))))"

record matcore_gemm_workspace_requirements_v1 =
  wr1_abi_version :: u32
  wr1_struct_size :: u32
  wr1_workspace_bytes :: u64
  wr1_workspace_alignment :: u32
  wr1_actual_threads :: u32
  wr1_selected_stable_id :: "string option"
  wr1_reserved :: "u64 list"

definition validate_empty_workspace_requirements ::
  "matcore_gemm_workspace_requirements_v1 option \<Rightarrow> matcore_status_v0 + unit" where
  "validate_empty_workspace_requirements requirements =
    (case requirements of
       None \<Rightarrow> Inl (status ms_invalid_argument ''CPU GEMM workspace requirements must be non-null'')
     | Some r \<Rightarrow>
         and_then (require (wr1_abi_version r = 1 \<and> wr1_struct_size r = 64)
           (status ms_abi_mismatch
             ''CPU GEMM workspace requirements ABI version or size mismatch'')) (\<lambda>_.
         require (wr1_workspace_bytes r = 0 \<and> wr1_workspace_alignment r = 0 \<and>
             wr1_actual_threads r = 0 \<and> wr1_selected_stable_id r = None \<and>
             reserved_is_zero (wr1_reserved r))
           (status ms_invalid_argument
             ''CPU GEMM workspace requirement output fields must be zero'')))"

record matcore_gemm_prepacked_b_requirements_v1 =
  pr1_abi_version :: u32
  pr1_struct_size :: u32
  pr1_packed_b_bytes :: u64
  pr1_packed_b_alignment :: u32
  pr1_reserved0 :: u32
  pr1_execution_workspace_bytes :: u64
  pr1_execution_workspace_alignment :: u32
  pr1_reserved1 :: u32
  pr1_reserved :: "u64 list"

definition validate_empty_prepacked_requirements ::
  "matcore_gemm_prepacked_b_requirements_v1 option \<Rightarrow> matcore_status_v0 + unit" where
  "validate_empty_prepacked_requirements requirements =
    (case requirements of
       None \<Rightarrow> Inl (status ms_invalid_argument
         ''CPU GEMM prepacked-B requirements must be non-null'')
     | Some r \<Rightarrow>
         and_then (require (pr1_abi_version r = 1 \<and> pr1_struct_size r = 72)
           (status ms_abi_mismatch
             ''CPU GEMM prepacked-B requirements ABI version or size mismatch'')) (\<lambda>_.
         require (pr1_packed_b_bytes r = 0 \<and> pr1_packed_b_alignment r = 0 \<and> pr1_reserved0 r = 0 \<and>
             pr1_execution_workspace_bytes r = 0 \<and> pr1_execution_workspace_alignment r = 0 \<and>
             pr1_reserved1 r = 0 \<and> reserved_is_zero (pr1_reserved r))
           (status ms_invalid_argument
             ''CPU GEMM prepacked-B requirement output fields must be zero'')))"

record matcore_packed_b_desc_v1 =
  pd_abi_version :: u32
  pd_struct_size :: u32
  pd_source_data :: u64
  pd_packed_data :: u64
  pd_storage_bytes :: u64
  pd_packed_elements :: u64
  pd_k :: i64
  pd_n :: i64
  pd_kc :: u32
  pd_nc :: u32
  pd_nr :: u32
  pd_reserved0 :: u32
  pd_provenance :: u64
  pd_reserved :: "u64 list"

definition validate_empty_packed_b_desc ::
  "matcore_packed_b_desc_v1 option \<Rightarrow> matcore_status_v0 + unit" where
  "validate_empty_packed_b_desc packed_b =
    (case packed_b of
       None \<Rightarrow> Inl (status ms_invalid_argument ''CPU GEMM packed-B descriptor must be non-null'')
     | Some p \<Rightarrow>
         and_then (require (pd_abi_version p = 1 \<and> pd_struct_size p = 112)
           (status ms_abi_mismatch
             ''CPU GEMM packed-B descriptor ABI version or size mismatch'')) (\<lambda>_.
         require (pd_source_data p = 0 \<and> pd_packed_data p = 0 \<and> pd_storage_bytes p = 0 \<and>
             pd_packed_elements p = 0 \<and> pd_k p = 0 \<and> pd_n p = 0 \<and> pd_kc p = 0 \<and> pd_nc p = 0 \<and>
             pd_nr p = 0 \<and> pd_reserved0 p = 0 \<and> pd_provenance p = 0 \<and>
             reserved_is_zero (pd_reserved p))
           (status ms_invalid_argument ''CPU GEMM packed-B output fields must be zero'')))"

definition unpack_packed_b_desc ::
  "matcore_packed_b_desc_v1 option \<Rightarrow> matcore_status_v0 + CpuPackedBViewV1" where
  "unpack_packed_b_desc packed_b =
    (case packed_b of
       None \<Rightarrow> Inl (status ms_invalid_argument ''CPU GEMM packed-B descriptor must be non-null'')
     | Some p \<Rightarrow>
         and_then (require (pd_abi_version p = 1 \<and> pd_struct_size p = 112)
           (status ms_abi_mismatch
             ''CPU GEMM packed-B descriptor ABI version or size mismatch'')) (\<lambda>_.
         and_then (require (pd_reserved0 p = 0 \<and> reserved_is_zero (pd_reserved p))
           (status ms_prepack_mismatch ''CPU GEMM packed-B descriptor is malformed'')) (\<lambda>_.
         Inr (default_packed_b_view
           \<lparr>pbv_version := kCpuPackedGemmBackendVersionV1, pbv_struct_size := sizeof_packed_b_view,
            pbv_source_data := pd_source_data p, pbv_packed_data := pd_packed_data p,
            pbv_storage_bytes := pd_storage_bytes p, pbv_packed_elements := pd_packed_elements p,
            pbv_k := pd_k p, pbv_n := pd_n p, pbv_kc := pd_kc p, pbv_nc := pd_nc p,
            pbv_nr := pd_nr p, pbv_provenance := pd_provenance p\<rparr>))))"

record matcore_cpu_gemm_candidate_v1 =
  ca1_stable_id :: "string option"
  ca1_legal :: u32
  ca1_deterministic_priority :: u32
  ca1_estimated_cost :: u64
  ca1_reason :: "string option"
  ca1_reserved :: "u64 list"

definition empty_candidate_report :: "matcore_cpu_gemm_candidate_v1 \<Rightarrow> bool" where
  "empty_candidate_report c \<longleftrightarrow> ca1_stable_id c = None \<and> ca1_legal c = 0 \<and>
     ca1_deterministic_priority c = 0 \<and> ca1_estimated_cost c = 0 \<and> ca1_reason c = None \<and>
     reserved_is_zero (ca1_reserved c)"

record matcore_cpu_gemm_plan_report_v1 =
  pp1_abi_version :: u32
  pp1_struct_size :: u32
  pp1_planner_version :: u32
  pp1_request :: u32
  pp1_plan_status :: u32
  pp1_architecture :: u32
  pp1_capability_detection_complete :: u32
  pp1_usable_vector_bits :: u32
  pp1_feature_bits :: u64
  pp1_m :: i64
  pp1_n :: i64
  pp1_k :: i64
  pp1_minimum_alignment_bytes :: u32
  pp1_candidate_count :: u32
  pp1_candidates :: "matcore_cpu_gemm_candidate_v1 list"
  pp1_selected_stable_id :: "string option"
  pp1_selection_reason :: "string option"
  pp1_reserved :: "u64 list"

definition validate_empty_report :: "matcore_cpu_gemm_plan_report_v1 \<Rightarrow> matcore_status_v0 + unit" where
  "validate_empty_report report =
    (let nonzero = status ms_invalid_argument ''CPU plan report output fields must be zero''
     in and_then (require (pp1_abi_version report = 1 \<and> pp1_struct_size report = 264)
          (status ms_abi_mismatch ''CPU plan report ABI version or size mismatch'')) (\<lambda>_.
        and_then (require (pp1_planner_version report = 0 \<and> pp1_request report = 0 \<and>
            pp1_plan_status report = 0 \<and> pp1_architecture report = 0 \<and>
            pp1_capability_detection_complete report = 0 \<and> pp1_usable_vector_bits report = 0 \<and>
            pp1_feature_bits report = 0 \<and> pp1_m report = 0 \<and> pp1_n report = 0 \<and>
            pp1_k report = 0 \<and> pp1_minimum_alignment_bytes report = 0 \<and>
            pp1_candidate_count report = 0 \<and> pp1_selected_stable_id report = None \<and>
            pp1_selection_reason report = None \<and> reserved_is_zero (pp1_reserved report)) nonzero) (\<lambda>_.
        require (list_all empty_candidate_report (pp1_candidates report)) nonzero)))"

record matcore_cpu_gemm_candidate_v2 =
  ca2_stable_id :: "string option"
  ca2_legal :: u32
  ca2_deterministic_priority :: u32
  ca2_actual_threads :: u32
  ca2_required_workspace_alignment :: u32
  ca2_estimated_cost :: u64
  ca2_required_workspace_bytes :: u64
  ca2_reason :: "string option"
  ca2_reserved :: "u64 list"

definition empty_candidate_report_v2 :: "matcore_cpu_gemm_candidate_v2 \<Rightarrow> bool" where
  "empty_candidate_report_v2 c \<longleftrightarrow> ca2_stable_id c = None \<and> ca2_legal c = 0 \<and>
     ca2_deterministic_priority c = 0 \<and> ca2_actual_threads c = 0 \<and>
     ca2_required_workspace_alignment c = 0 \<and> ca2_estimated_cost c = 0 \<and>
     ca2_required_workspace_bytes c = 0 \<and> ca2_reason c = None \<and> reserved_is_zero (ca2_reserved c)"

record matcore_cpu_gemm_plan_report_v2 =
  pp2_abi_version :: u32
  pp2_struct_size :: u32
  pp2_planner_version :: u32
  pp2_request :: u32
  pp2_plan_status :: u32
  pp2_architecture :: u32
  pp2_capability_detection_complete :: u32
  pp2_usable_vector_bits :: u32
  pp2_feature_bits :: u64
  pp2_m :: i64
  pp2_n :: i64
  pp2_k :: i64
  pp2_minimum_alignment_bytes :: u32
  pp2_requested_threads :: u32
  pp2_candidate_count :: u32
  pp2_selected_actual_threads :: u32
  pp2_selected_workspace_bytes :: u64
  pp2_selected_workspace_alignment :: u32
  pp2_reserved0 :: u32
  pp2_candidates :: "matcore_cpu_gemm_candidate_v2 list"
  pp2_selected_stable_id :: "string option"
  pp2_selection_reason :: "string option"
  pp2_external_provider :: "string option"
  pp2_external_provider_version :: "string option"
  pp2_external_provider_config :: "string option"
  pp2_reserved :: "u64 list"

definition validate_empty_report_v2 :: "matcore_cpu_gemm_plan_report_v2 \<Rightarrow> matcore_status_v0 + unit" where
  "validate_empty_report_v2 report =
     and_then (require (pp2_abi_version report = 2 \<and> pp2_struct_size report = 488)
       (status ms_abi_mismatch ''CPU plan v2 report ABI version or size mismatch'')) (\<lambda>_.
     and_then (require (pp2_planner_version report = 0 \<and> pp2_request report = 0 \<and>
         pp2_plan_status report = 0 \<and> pp2_architecture report = 0 \<and>
         pp2_capability_detection_complete report = 0 \<and> pp2_usable_vector_bits report = 0 \<and>
         pp2_feature_bits report = 0 \<and> pp2_m report = 0 \<and> pp2_n report = 0 \<and> pp2_k report = 0 \<and>
         pp2_minimum_alignment_bytes report = 0 \<and> pp2_requested_threads report = 0 \<and>
         pp2_candidate_count report = 0 \<and> pp2_selected_actual_threads report = 0 \<and>
         pp2_selected_workspace_bytes report = 0 \<and> pp2_selected_workspace_alignment report = 0 \<and>
         pp2_reserved0 report = 0 \<and> pp2_selected_stable_id report = None \<and>
         pp2_selection_reason report = None \<and> pp2_external_provider report = None \<and>
         pp2_external_provider_version report = None \<and> pp2_external_provider_config report = None \<and>
         reserved_is_zero (pp2_reserved report))
       (status ms_invalid_argument ''CPU plan v2 report output fields must be zero'')) (\<lambda>_.
     require (list_all empty_candidate_report_v2 (pp2_candidates report))
       (status ms_invalid_argument ''CPU plan v2 candidate output fields must be zero'')))"

fun to_c_architecture :: "CpuArchitectureV1 \<Rightarrow> u32" where
  "to_c_architecture arch1_x86_64 = 1"
| "to_c_architecture arch1_aarch64 = 2"
| "to_c_architecture arch1_unknown = 0"
| "to_c_architecture (arch1_other _) = 0"

fun to_c_plan_status :: "CpuPlanStatusV1 \<Rightarrow> u32" where
  "to_c_plan_status st1_selected = 1"
| "to_c_plan_status st1_no_legal_variant = 2"
| "to_c_plan_status st1_forced_variant_illegal = 3"
| "to_c_plan_status st1_invalid_problem = 4"
| "to_c_plan_status st1_invalid_capabilities = 5"
| "to_c_plan_status (st1_other _) = 5"

definition populate_report :: "CpuGemmPlanV1 \<Rightarrow> matcore_cpu_gemm_plan_report_v1" where
  "populate_report plan =
     \<lparr>pp1_abi_version = 1, pp1_struct_size = 264, pp1_planner_version = plan1_version plan,
      pp1_request = 0, pp1_plan_status = to_c_plan_status (plan1_status plan),
      pp1_architecture = to_c_architecture (cap1_architecture (plan1_capabilities plan)),
      pp1_capability_detection_complete =
        (if cap1_detection_complete (plan1_capabilities plan) then 1 else 0),
      pp1_usable_vector_bits = ucast (cap1_usable_vector_bits (plan1_capabilities plan)),
      pp1_feature_bits = cap1_features (plan1_capabilities plan),
      pp1_m = prob_m (plan1_problem plan), pp1_n = prob_n (plan1_problem plan),
      pp1_k = prob_k (plan1_problem plan),
      pp1_minimum_alignment_bytes = prob_minimum_alignment_bytes (plan1_problem plan),
      pp1_candidate_count = of_nat (length (plan1_candidates plan)),
      pp1_candidates = map (\<lambda>source.
        \<lparr>ca1_stable_id = view_data (dec1_stable_id source),
         ca1_legal = (if dec1_legal source then 1 else 0),
         ca1_deterministic_priority = ucast (dec1_deterministic_priority source),
         ca1_estimated_cost = dec1_estimated_cost source,
         ca1_reason = view_data (dec1_reason source), ca1_reserved = [0, 0]\<rparr>) (plan1_candidates plan),
      pp1_selected_stable_id = view_data (plan1_selected_id plan),
      pp1_selection_reason = view_data (plan1_selection_reason plan),
      pp1_reserved = [0, 0, 0, 0]\<rparr>"

fun variant_code_v2 :: "CpuGemmVariantV2 \<Rightarrow> nat" where
  "variant_code_v2 var2_reference = 0"
| "variant_code_v2 var2_tiled = 1"
| "variant_code_v2 var2_compiler_vectorized = 2"
| "variant_code_v2 var2_external_openblas = 3"
| "variant_code_v2 var2_native_packed_avx2_fma = 4"
| "variant_code_v2 (var2_other c) = unat c"

fun request_code_v2 :: "CpuGemmRequestV2 \<Rightarrow> nat" where
  "request_code_v2 req2_automatic = 0"
| "request_code_v2 req2_force_reference = 1"
| "request_code_v2 req2_force_tiled = 2"
| "request_code_v2 req2_force_compiler_vectorized = 3"
| "request_code_v2 req2_force_external_openblas = 4"
| "request_code_v2 req2_force_native_packed_avx2_fma = 5"
| "request_code_v2 (req2_other c) = unat c"

definition populate_report_v2 ::
  "CpuGemmPlanV2 \<Rightarrow> OpenBlasProviderInfoV1 \<Rightarrow> matcore_cpu_gemm_plan_report_v2" where
  "populate_report_v2 plan provider =
    (let output =
       \<lparr>pp2_abi_version = 2, pp2_struct_size = 488, pp2_planner_version = plan2_version plan,
        pp2_request = of_nat (request_code_v2 (plan2_request plan)),
        pp2_plan_status = to_c_plan_status (plan2_status plan),
        pp2_architecture = to_c_architecture (cap1_architecture (plan2_capabilities plan)),
        pp2_capability_detection_complete =
          (if cap1_detection_complete (plan2_capabilities plan) then 1 else 0),
        pp2_usable_vector_bits = ucast (cap1_usable_vector_bits (plan2_capabilities plan)),
        pp2_feature_bits = cap1_features (plan2_capabilities plan),
        pp2_m = prob_m (plan2_problem plan), pp2_n = prob_n (plan2_problem plan),
        pp2_k = prob_k (plan2_problem plan),
        pp2_minimum_alignment_bytes = prob_minimum_alignment_bytes (plan2_problem plan),
        pp2_requested_threads = res1_requested_threads (plan2_resources plan),
        pp2_candidate_count = of_nat (length (plan2_candidates plan)),
        pp2_selected_actual_threads = 0, pp2_selected_workspace_bytes = 0,
        pp2_selected_workspace_alignment = 0, pp2_reserved0 = 0,
        pp2_candidates = map (\<lambda>source.
          \<lparr>ca2_stable_id = view_data (dec2_stable_id source),
           ca2_legal = (if dec2_legal source then 1 else 0),
           ca2_deterministic_priority = ucast (dec2_deterministic_priority source),
           ca2_actual_threads = dec2_actual_threads source,
           ca2_required_workspace_alignment = dec2_required_workspace_alignment source,
           ca2_estimated_cost = dec2_estimated_cost source,
           ca2_required_workspace_bytes = dec2_required_workspace_bytes source,
           ca2_reason = view_data (dec2_reason source), ca2_reserved = [0, 0]\<rparr>)
          (plan2_candidates plan),
        pp2_selected_stable_id = view_data (plan2_selected_id plan),
        pp2_selection_reason = view_data (plan2_selection_reason plan),
        pp2_external_provider = Some (if obi_linked provider then ''OpenBLAS'' else ''unavailable''),
        pp2_external_provider_version = Some (obi_package_version provider),
        pp2_external_provider_config = Some (obi_runtime_config provider),
        pp2_reserved = [0, 0, 0, 0]\<rparr>;
       selected = variant_code_v2 (plan2_selected_variant plan)
     in if plan2_status plan = st1_selected \<and> selected < length (plan2_candidates plan)
        then let candidate = plan2_candidates plan ! selected
          in output\<lparr>pp2_selected_actual_threads := dec2_actual_threads candidate,
                    pp2_selected_workspace_bytes := dec2_required_workspace_bytes candidate,
                    pp2_selected_workspace_alignment := dec2_required_workspace_alignment candidate\<rparr>
        else output)"

section \<open>Resources\<close>

datatype CpuExternalProviderProbeV1 = probe_exclude | probe_include

definition default_resources_v1 :: CpuGemmImplementationResourcesV1 where
  "default_resources_v1 =
     \<lparr>res1_openblas_linked = False, res1_openblas_local_thread_control = False,
      res1_native_packed_avx2_fma_compiled = False, res1_native_packed_workspace_size_valid = False,
      res1_native_packed_workspace_bytes = 0, res1_native_packed_workspace_alignment = 0,
      res1_openblas_maximum_threads = 0, res1_requested_threads = 1,
      res1_openblas_conformance_evaluated = False, res1_openblas_conformant = False\<rparr>"

definition probed_openblas ::
  "'f openblas_adapter \<Rightarrow> CpuGemmImplementationResourcesV1 \<Rightarrow> CpuGemmImplementationResourcesV1" where
  "probed_openblas ob resources =
    (let provider = ob_info ob; conformance = ob_conformance ob;
         thread_control = obi_linked provider \<and> obc_conformant conformance
     in resources\<lparr>res1_openblas_linked := obi_linked provider,
          res1_openblas_conformance_evaluated := obc_probe_attempted conformance,
          res1_openblas_conformant := obc_conformant conformance,
          res1_openblas_local_thread_control := thread_control,
          res1_openblas_maximum_threads :=
            (if thread_control \<and> 0 < sint (obi_maximum_reported_threads provider) then 1
             else res1_openblas_maximum_threads resources)\<rparr>)"

definition discover_cpu_gemm_implementation_resources_v1 ::
  "'f process \<Rightarrow> CpuGemmProblemV1 \<Rightarrow> u32 \<Rightarrow> CpuExternalProviderProbeV1 \<Rightarrow>
   CpuGemmImplementationResourcesV1" where
  "discover_cpu_gemm_implementation_resources_v1 pr problem requested_threads probe =
    (let resources = default_resources_v1
           \<lparr>res1_openblas_linked := ob_linked_at_build (pr_openblas pr)\<rparr>;
         resources = (if probe = probe_include then probed_openblas (pr_openblas pr) resources
                      else resources);
         resources = resources
           \<lparr>res1_native_packed_avx2_fma_compiled := pr_packed_avx2_build pr,
            res1_requested_threads := requested_threads\<rparr>
     in case cpu_packed_avx2_workspace_requirements_v1 problem transient_a_and_b of
          Inl _ \<Rightarrow> resources
        | Inr requirements \<Rightarrow> resources
            \<lparr>res1_native_packed_workspace_size_valid := True,
             res1_native_packed_workspace_bytes := preq_total_bytes requirements,
             res1_native_packed_workspace_alignment := ucast (preq_alignment_bytes requirements)\<rparr>)"

definition forced_native_packed_request :: "CpuGemmRequestV2 \<Rightarrow> bool" where
  "forced_native_packed_request request \<longleftrightarrow> request = req2_force_native_packed_avx2_fma"

definition external_provider_probe :: "CpuGemmRequestV2 \<Rightarrow> CpuExternalProviderProbeV1" where
  "external_provider_probe request =
    (if request = req2_automatic \<or> request = req2_force_external_openblas then probe_include
     else probe_exclude)"

definition default_provider_info :: OpenBlasProviderInfoV1 where
  "default_provider_info = \<lparr>obi_linked = False, obi_package_version = ''unavailable'',
     obi_runtime_config = ''unavailable'', obi_runtime_core = ''unavailable'',
     obi_parallel_model = - 1, obi_maximum_reported_threads = 0\<rparr>"

definition external_provider_info ::
  "'f process \<Rightarrow> CpuExternalProviderProbeV1 \<Rightarrow> bool \<Rightarrow> OpenBlasProviderInfoV1" where
  "external_provider_info pr probe linked_at_build =
    (if probe = probe_include then ob_info (pr_openblas pr)
     else if linked_at_build
     then default_provider_info\<lparr>obi_linked := True, obi_package_version := ''uninspected'',
            obi_runtime_config := ''uninspected'', obi_runtime_core := ''uninspected''\<rparr>
     else default_provider_info)"

section \<open>Statuses of the engines\<close>

fun packed_execution_status :: "CpuPackedGemmStatusV1 \<Rightarrow> matcore_status_v0" where
  "packed_execution_status pst_success = ok_status"
| "packed_execution_status pst_workspace_insufficient =
     status ms_insufficient_workspace ''native packed GEMM workspace is too small''"
| "packed_execution_status pst_workspace_misaligned =
     status ms_invalid_alignment ''native packed GEMM alignment contract failed''"
| "packed_execution_status pst_invalid_pointer_alignment =
     status ms_invalid_alignment ''native packed GEMM alignment contract failed''"
| "packed_execution_status pst_alias_violation =
     status ms_alias_violation ''native packed GEMM buffers overlap illegally''"
| "packed_execution_status pst_arithmetic_overflow =
     status ms_arithmetic_overflow ''native packed GEMM size arithmetic overflowed''"
| "packed_execution_status pst_isa_unavailable =
     status ms_unavailable_variant ''native packed AVX2/FMA is unavailable on this CPU''"
| "packed_execution_status pst_invalid_prepacked_b =
     status ms_prepack_mismatch ''native packed GEMM prepacked-B view is incompatible''"
| "packed_execution_status pst_invalid_problem =
     status ms_invalid_argument ''native packed GEMM received an invalid argument''"
| "packed_execution_status pst_null_pointer =
     status ms_invalid_argument ''native packed GEMM received an invalid argument''"
| "packed_execution_status (pst_other _) =
     status ms_invalid_argument ''native packed GEMM returned an unknown status''"

definition unavailable_plan_status :: "CpuGemmPlanV2 \<Rightarrow> matcore_status_v0" where
  "unavailable_plan_status plan =
    (let candidate_index = request_code_v2 (plan2_request plan) - 1
     in if plan2_status plan = st1_invalid_problem \<or> plan2_status plan = st1_invalid_capabilities
        then status ms_invalid_argument
          ''CPU GEMM planner rejected the problem or capability record''
        else if plan2_request plan \<noteq> req2_automatic \<and> 0 < request_code_v2 (plan2_request plan) \<and>
          candidate_index < length (plan2_candidates plan) \<and>
          dec2_reason (plan2_candidates plan ! candidate_index) \<noteq> []
        then status ms_unavailable_variant (dec2_reason (plan2_candidates plan ! candidate_index))
        else status ms_unavailable_variant
          ''CPU GEMM planner found no legal requested implementation'')"

text \<open>\<open>floats_at\<close> reads a buffer and \<open>write_floats\<close> writes one back.\<close>

definition floats_at :: "'f fmem \<Rightarrow> u64 \<Rightarrow> nat \<Rightarrow> 'f list" where
  "floats_at mem address elements = map mem [slot address ..< slot address + elements]"

definition write_floats :: "u64 \<Rightarrow> 'f list \<Rightarrow> 'f fmem \<Rightarrow> 'f fmem" where
  "write_floats address xs mem =
     (\<lambda>a. if slot address \<le> a \<and> a < slot address + length xs then xs ! (a - slot address) else mem a)"

definition execute_legacy_variant ::
  "'f process \<Rightarrow> CpuGemmVariantV2 \<Rightarrow> ValidatedGemmV0 \<Rightarrow> 'f fmem \<Rightarrow> bool \<times> 'f fmem" where
  "execute_legacy_variant pr variant validated mem =
    (let execute = (\<lambda>request.
           let problem = vg_problem validated;
               m = dim (prob_m problem); n = dim (prob_n problem); k = dim (prob_k problem);
               legacy_plan = plan_cpu_gemm_v1 (pr_instrumented pr) problem
                 (discover_cpu_capabilities_v1 (pr_target pr)) request;
               buffer_at = (\<lambda>address elements.
                 if address = 0 then None else Some (floats_at mem address elements));
               (executed, out) = execute_cpu_gemm_plan_v1 (pr_kernel_ops pr) legacy_plan
                 (buffer_at (vg_lhs validated) (m * k)) (buffer_at (vg_rhs validated) (k * n))
                 (buffer_at (vg_out validated) (m * n))
           in (executed, case out of None \<Rightarrow> mem | Some xs \<Rightarrow> write_floats (vg_out validated) xs mem))
     in case variant of
          var2_reference \<Rightarrow> execute req1_force_reference
        | var2_tiled \<Rightarrow> execute req1_force_tiled
        | var2_compiler_vectorized \<Rightarrow> execute req1_force_compiler_vectorized
        | var2_external_openblas \<Rightarrow> (False, mem)
        | var2_native_packed_avx2_fma \<Rightarrow> (False, mem)
        | var2_other _ \<Rightarrow> execute req1_force_reference)"

section \<open>Planning and one-shot execution\<close>

text \<open>\<^verbatim>\<open>matcore_runtime_plan_gemm_f32_v1\<close>: the status and the report.\<close>

definition matcore_runtime_plan_gemm_f32_v1 ::
  "'f process \<Rightarrow> matcore_tensor_desc_v0 option \<Rightarrow> matcore_tensor_desc_v0 option \<Rightarrow>
   matcore_tensor_desc_v0 option \<Rightarrow> matcore_policy_v0 option \<Rightarrow>
   matcore_cpu_gemm_plan_report_v1 option \<Rightarrow>
   matcore_status_v0 \<times> matcore_cpu_gemm_plan_report_v1 option" where
  "matcore_runtime_plan_gemm_f32_v1 pr out lhs rhs policy report =
    (case and_then (or_fail report (status ms_invalid_argument ''CPU plan report must be non-null'')) (\<lambda>r.
       and_then (validate_empty_report r) (\<lambda>_. validate_gemm_v0 out lhs rhs policy)) of
       Inl st \<Rightarrow> (st, report)
     | Inr validated \<Rightarrow>
         let plan = plan_cpu_gemm_v1 (pr_instrumented pr) (vg_problem validated)
               (discover_cpu_capabilities_v1 (pr_target pr)) req1_automatic
         in if plan1_status plan \<noteq> st1_selected
            then (status ms_invalid_argument ''CPU GEMM planner found no legal implementation'', report)
            else (ok_status, Some (populate_report plan)))"

text \<open>The checks and the plan that the query and the execution of the second generation share.\<close>

definition plan_request_v2 ::
  "'f process \<Rightarrow> matcore_cpu_gemm_execution_options_v1 option \<Rightarrow> CpuGemmRequestV2 \<Rightarrow>
   CpuExternalProviderProbeV1 \<Rightarrow> ValidatedGemmV0 \<Rightarrow> CpuGemmPlanV2" where
  "plan_request_v2 pr options request probe validated =
     plan_cpu_gemm_v2 (pr_instrumented pr) (vg_problem validated)
       (discover_cpu_capabilities_v1 (pr_target pr))
       (discover_cpu_gemm_implementation_resources_v1 pr (vg_problem validated)
         (eo1_requested_threads (the options)) probe)
       request"

definition matcore_runtime_gemm_f32_workspace_size_v1 ::
  "'f process \<Rightarrow> matcore_tensor_desc_v0 option \<Rightarrow> matcore_tensor_desc_v0 option \<Rightarrow>
   matcore_tensor_desc_v0 option \<Rightarrow> matcore_policy_v0 option \<Rightarrow>
   matcore_cpu_gemm_execution_options_v1 option \<Rightarrow>
   matcore_gemm_workspace_requirements_v1 option \<Rightarrow> matcore_cpu_gemm_plan_report_v2 option \<Rightarrow>
   matcore_status_v0 \<times> matcore_gemm_workspace_requirements_v1 option \<times>
   matcore_cpu_gemm_plan_report_v2 option" where
  "matcore_runtime_gemm_f32_workspace_size_v1 pr out lhs rhs policy options requirements report =
    (case and_then (validate_execution_options options) (\<lambda>request.
          and_then (validate_empty_workspace_requirements requirements) (\<lambda>_.
          and_then (or_fail report
            (status ms_invalid_argument ''CPU plan v2 report must be non-null'')) (\<lambda>r.
          and_then (validate_empty_report_v2 r) (\<lambda>_.
          and_then (validate_gemm_v0 out lhs rhs policy) (\<lambda>validated.
          Inr (request, validated)))))) of
       Inl st \<Rightarrow> (st, requirements, report)
     | Inr (request, validated) \<Rightarrow>
         let probe = external_provider_probe request;
             plan = plan_request_v2 pr options request probe validated
         in if plan2_status plan \<noteq> st1_selected
            then (unavailable_plan_status plan, requirements, report)
            else let candidate = plan2_candidates plan ! variant_code_v2 (plan2_selected_variant plan)
              in (ok_status,
                  Some \<lparr>wr1_abi_version = 1, wr1_struct_size = 64,
                        wr1_workspace_bytes = dec2_required_workspace_bytes candidate,
                        wr1_workspace_alignment = dec2_required_workspace_alignment candidate,
                        wr1_actual_threads = dec2_actual_threads candidate,
                        wr1_selected_stable_id = view_data (dec2_stable_id candidate),
                        wr1_reserved = [0, 0, 0, 0]\<rparr>,
                  Some (populate_report_v2 plan (external_provider_info pr probe
                    (res1_openblas_linked (plan2_resources plan))))))"

text \<open>The \<^verbatim>\<open>switch\<close> over the selected variant: \<open>Inl\<close> is an early return, \<open>Inr\<close> the flag
  \<^verbatim>\<open>executed\<close>.\<close>

definition execute_selected_v2 ::
  "'f process \<Rightarrow> CpuGemmVariantV2 \<Rightarrow> ValidatedGemmV0 \<Rightarrow> u32 \<Rightarrow> u64 \<Rightarrow> u64 \<Rightarrow> 'f fmem \<Rightarrow>
   (matcore_status_v0 + bool) \<times> 'f fmem" where
  "execute_selected_v2 pr variant validated requested_threads workspace workspace_bytes mem =
    (case variant of
       var2_external_openblas \<Rightarrow>
         let (provider_status, actual_threads, mem) = ob_execute (pr_openblas pr) (vg_problem validated)
               (vg_lhs validated) (vg_rhs validated) (vg_out validated) requested_threads mem
         in (if provider_status \<noteq> obs_success \<or> actual_threads \<noteq> requested_threads
             then Inl (status ms_external_provider_failure
               ''OpenBLAS SGEMM failed or did not honor the thread policy'')
             else Inr True, mem)
     | var2_native_packed_avx2_fma \<Rightarrow>
         let (packed, mem) = cpu_execute_packed_avx2_v1 (pr_packed_avx2_usable pr) (pr_fma_ops pr)
               (vg_problem validated) (vg_lhs validated) (vg_rhs validated) (vg_out validated)
               workspace workspace_bytes mem;
             result = packed_execution_status packed
         in (if ms_code result \<noteq> ms_ok then Inl result else Inr True, mem)
     | var2_other _ \<Rightarrow> (Inr False, mem)
     | _ \<Rightarrow> let (executed, mem) = execute_legacy_variant pr variant validated mem
         in (Inr executed, mem))"

definition matcore_runtime_gemm_f32_execute_v1 ::
  "'f process \<Rightarrow> matcore_tensor_desc_v0 option \<Rightarrow> matcore_tensor_desc_v0 option \<Rightarrow>
   matcore_tensor_desc_v0 option \<Rightarrow> matcore_policy_v0 option \<Rightarrow>
   matcore_cpu_gemm_execution_options_v1 option \<Rightarrow> u64 \<Rightarrow> u64 \<Rightarrow>
   matcore_cpu_gemm_plan_report_v2 option \<Rightarrow> 'f fmem \<Rightarrow>
   matcore_status_v0 \<times> matcore_cpu_gemm_plan_report_v2 option \<times> 'f fmem" where
  "matcore_runtime_gemm_f32_execute_v1 pr out lhs rhs policy options workspace workspace_bytes report mem =
    (case and_then (validate_execution_options options) (\<lambda>request.
          and_then (or_fail report
            (status ms_invalid_argument ''CPU plan v2 report must be non-null'')) (\<lambda>r.
          and_then (validate_empty_report_v2 r) (\<lambda>_.
          and_then (validate_gemm_v0 out lhs rhs policy) (\<lambda>validated.
          let plan = plan_request_v2 pr options request (external_provider_probe request) validated;
              candidate = plan2_candidates plan ! variant_code_v2 (plan2_selected_variant plan)
          in and_then (require (plan2_status plan = st1_selected) (unavailable_plan_status plan)) (\<lambda>_.
             and_then (validate_selected_workspace_v1 (dec2_required_workspace_bytes candidate)
               (dec2_required_workspace_alignment candidate) workspace workspace_bytes
               (the out) (the lhs) (the rhs)) (\<lambda>_.
             and_then (validate_current_fp_environment_v1 pr) (\<lambda>_.
             Inr (request, validated, plan)))))))) of
       Inl st \<Rightarrow> (st, report, mem)
     | Inr (request, validated, plan) \<Rightarrow>
         let (result, mem) = execute_selected_v2 pr (plan2_selected_variant plan) validated
               (eo1_requested_threads (the options)) workspace workspace_bytes mem
         in case result of
              Inl st \<Rightarrow> (st, report, mem)
            | Inr executed \<Rightarrow>
                if \<not> executed
                then (status ms_unavailable_variant
                  ''selected CPU GEMM implementation did not execute'', report, mem)
                else (ok_status,
                  Some (populate_report_v2 plan (external_provider_info pr
                    (external_provider_probe request) (res1_openblas_linked (plan2_resources plan)))),
                  mem))"

definition matcore_runtime_gemm_f32_v0 ::
  "'f process \<Rightarrow> matcore_tensor_desc_v0 option \<Rightarrow> matcore_tensor_desc_v0 option \<Rightarrow>
   matcore_tensor_desc_v0 option \<Rightarrow> matcore_policy_v0 option \<Rightarrow> 'f fmem \<Rightarrow>
   matcore_status_v0 \<times> 'f fmem" where
  "matcore_runtime_gemm_f32_v0 pr out lhs rhs policy mem =
    (case validate_gemm_v0 out lhs rhs policy of
       Inl st \<Rightarrow> (st, mem)
     | Inr validated \<Rightarrow>
         let resources = discover_cpu_gemm_implementation_resources_v1 pr (vg_problem validated) 1
               probe_include;
             resources = resources\<lparr>res1_native_packed_avx2_fma_compiled := False,
               res1_native_packed_workspace_size_valid := False,
               res1_native_packed_workspace_bytes := 0,
               res1_native_packed_workspace_alignment := 0\<rparr>;
             plan = plan_cpu_gemm_v2 (pr_instrumented pr) (vg_problem validated)
               (discover_cpu_capabilities_v1 (pr_target pr)) resources req2_automatic
         in if plan2_status plan \<noteq> st1_selected then (unavailable_plan_status plan, mem)
            else case validate_current_fp_environment_v1 pr of
              Inl st \<Rightarrow> (st, mem)
            | Inr _ \<Rightarrow>
                if plan2_selected_variant plan = var2_external_openblas
                then let (provider_status, actual_threads, mem) = ob_execute (pr_openblas pr)
                       (vg_problem validated) (vg_lhs validated) (vg_rhs validated)
                       (vg_out validated) 1 mem
                  in (if provider_status \<noteq> obs_success \<or> actual_threads \<noteq> 1
                      then status ms_external_provider_failure
                        ''OpenBLAS SGEMM failed or did not honor one-shot thread policy''
                      else ok_status, mem)
                else let (executed, mem) = execute_legacy_variant pr (plan2_selected_variant plan)
                       validated mem
                  in (if \<not> executed
                      then status ms_unavailable_variant
                        ''selected zero-workspace CPU GEMM implementation did not execute''
                      else ok_status, mem))"

end
