(* ===== verification/RuntimePrepacked.thy ===== *)
theory RuntimePrepacked
  imports RuntimeOneShot
begin

text \<open>
  The three entry points on caller-owned packed B of \<^verbatim>\<open>runtime/cpu_runtime.cpp\<close>: the size query, the
  preparation and the execution. A descriptor argument is its address and its content; the descriptor
  itself is outside the memory of floats.
\<close>

definition matcore_runtime_gemm_f32_prepacked_b_size_v1 ::
  "'f process \<Rightarrow> matcore_tensor_desc_v0 option \<Rightarrow> matcore_tensor_desc_v0 option \<Rightarrow>
   matcore_tensor_desc_v0 option \<Rightarrow> matcore_policy_v0 option \<Rightarrow>
   matcore_cpu_gemm_execution_options_v1 option \<Rightarrow>
   matcore_gemm_prepacked_b_requirements_v1 option \<Rightarrow>
   matcore_status_v0 \<times> matcore_gemm_prepacked_b_requirements_v1 option" where
  "matcore_runtime_gemm_f32_prepacked_b_size_v1 pr out lhs rhs policy options requirements =
    (case and_then (validate_execution_options options) (\<lambda>request.
          and_then (require (forced_native_packed_request request)
            (status ms_unavailable_variant
              ''prepacked-B requires the forced native packed AVX2/FMA variant'')) (\<lambda>_.
          and_then (validate_empty_prepacked_requirements requirements) (\<lambda>_.
          and_then (validate_gemm_v0 out lhs rhs policy) (\<lambda>validated.
          let plan = plan_request_v2 pr options request probe_exclude validated
          in and_then (require (plan2_status plan = st1_selected) (unavailable_plan_status plan)) (\<lambda>_.
             and_then (case cpu_packed_avx2_prepacked_b_requirements_v1 (vg_problem validated) of
                 Inl st \<Rightarrow> Inl (packed_execution_status st) | Inr r \<Rightarrow> Inr r) (\<lambda>packed_storage.
             and_then (case cpu_packed_avx2_workspace_requirements_v1 (vg_problem validated)
                 transient_a_with_prepacked_b of
                 Inl st \<Rightarrow> Inl (packed_execution_status st) | Inr r \<Rightarrow> Inr r) (\<lambda>execution.
             Inr (packed_storage, execution)))))))) of
       Inl st \<Rightarrow> (st, requirements)
     | Inr (packed_storage, execution) \<Rightarrow>
         (ok_status, Some
           \<lparr>pr1_abi_version = 1, pr1_struct_size = 72,
            pr1_packed_b_bytes = preq_total_bytes packed_storage,
            pr1_packed_b_alignment = ucast (preq_alignment_bytes packed_storage),
            pr1_reserved0 = 0, pr1_execution_workspace_bytes = preq_total_bytes execution,
            pr1_execution_workspace_alignment = ucast (preq_alignment_bytes execution),
            pr1_reserved1 = 0, pr1_reserved = [0, 0, 0, 0]\<rparr>))"

text \<open>The checks on the storage and the descriptor before anything is packed.\<close>

definition check_prepack_ranges ::
  "CpuPackedGemmWorkspaceRequirementsV1 \<Rightarrow> u64 \<Rightarrow> u64 \<Rightarrow> matcore_tensor_desc_v0 \<Rightarrow>
   matcore_tensor_desc_v0 \<Rightarrow> matcore_tensor_desc_v0 \<Rightarrow> matcore_status_v0 + unit" where
  "check_prepack_ranges requirements packed_storage packed_b out lhs rhs =
    (let overflow = status ms_arithmetic_overflow
       ''packed-B storage or descriptor range overflows the address space''
     in and_then (or_fail (byte_range packed_storage (preq_total_bytes requirements)) overflow) (\<lambda>storage.
        and_then (or_fail (byte_count out) overflow) (\<lambda>out_span.
        and_then (or_fail (byte_count lhs) overflow) (\<lambda>lhs_span.
        and_then (or_fail (byte_count rhs) overflow) (\<lambda>rhs_span.
        and_then (or_fail (byte_range packed_b 112) overflow) (\<lambda>descriptor.
        require (\<not> (overlaps storage out_span \<or> overlaps storage lhs_span \<or>
            overlaps storage rhs_span \<or> overlaps storage descriptor \<or>
            overlaps descriptor out_span \<or> overlaps descriptor lhs_span \<or>
            overlaps descriptor rhs_span))
          (status ms_alias_violation
            ''packed-B storage and descriptor must not overlap GEMM tensors or each other'')))))))"

definition packed_b_desc :: "CpuPackedBViewV1 \<Rightarrow> matcore_packed_b_desc_v1" where
  "packed_b_desc view =
     \<lparr>pd_abi_version = 1, pd_struct_size = 112, pd_source_data = pbv_source_data view,
      pd_packed_data = pbv_packed_data view, pd_storage_bytes = pbv_storage_bytes view,
      pd_packed_elements = pbv_packed_elements view, pd_k = pbv_k view, pd_n = pbv_n view,
      pd_kc = pbv_kc view, pd_nc = pbv_nc view, pd_nr = pbv_nr view, pd_reserved0 = 0,
      pd_provenance = pbv_provenance view, pd_reserved = [0, 0, 0, 0]\<rparr>"

definition matcore_runtime_gemm_f32_prepack_b_v1 ::
  "'f process \<Rightarrow> matcore_tensor_desc_v0 option \<Rightarrow> matcore_tensor_desc_v0 option \<Rightarrow>
   matcore_tensor_desc_v0 option \<Rightarrow> matcore_policy_v0 option \<Rightarrow>
   matcore_cpu_gemm_execution_options_v1 option \<Rightarrow> u64 \<Rightarrow> u64 \<Rightarrow>
   u64 \<Rightarrow> matcore_packed_b_desc_v1 option \<Rightarrow> 'f fmem \<Rightarrow>
   matcore_status_v0 \<times> matcore_packed_b_desc_v1 option \<times> 'f fmem" where
  "matcore_runtime_gemm_f32_prepack_b_v1 pr out lhs rhs policy options packed_storage
     packed_storage_bytes packed_b_address packed_b mem =
    (case and_then (validate_execution_options options) (\<lambda>request.
          and_then (require (forced_native_packed_request request)
            (status ms_unavailable_variant
              ''prepacked-B requires the forced native packed AVX2/FMA variant'')) (\<lambda>_.
          and_then (validate_empty_packed_b_desc packed_b) (\<lambda>_.
          and_then (validate_gemm_v0 out lhs rhs policy) (\<lambda>validated.
          let plan = plan_request_v2 pr options request probe_exclude validated
          in and_then (require (plan2_status plan = st1_selected) (unavailable_plan_status plan)) (\<lambda>_.
             and_then (case cpu_packed_avx2_prepacked_b_requirements_v1 (vg_problem validated) of
                 Inl st \<Rightarrow> Inl (packed_execution_status st) | Inr r \<Rightarrow> Inr r) (\<lambda>requirements.
             and_then (case cpu_validate_prepare_packed_b_avx2_v1 (vg_problem validated)
                 (vg_rhs validated) packed_storage packed_storage_bytes of
                 Inl st \<Rightarrow> Inl (packed_execution_status st) | Inr v \<Rightarrow> Inr v) (\<lambda>_.
             and_then (check_prepack_ranges requirements packed_storage packed_b_address
               (the out) (the lhs) (the rhs)) (\<lambda>_.
             and_then (validate_current_fp_environment_v1 pr) (\<lambda>_.
             Inr validated))))))))) of
       Inl st \<Rightarrow> (st, packed_b, mem)
     | Inr validated \<Rightarrow>
         (case cpu_prepare_packed_b_avx2_v1 (pr_fma_ops pr) (vg_problem validated) (vg_rhs validated)
             packed_storage packed_storage_bytes mem of
            (Inl st, mem) \<Rightarrow> (packed_execution_status st, packed_b, mem)
          | (Inr view, mem) \<Rightarrow> (ok_status, Some (packed_b_desc view), mem)))"

definition check_descriptor_ranges ::
  "CpuPackedGemmWorkspaceRequirementsV1 \<Rightarrow> CpuPackedBViewV1 \<Rightarrow> u64 \<Rightarrow> matcore_tensor_desc_v0 \<Rightarrow>
   matcore_tensor_desc_v0 \<Rightarrow> matcore_tensor_desc_v0 \<Rightarrow> matcore_status_v0 + ByteSpan" where
  "check_descriptor_ranges requirements view packed_b out lhs rhs =
    (let overflow = status ms_arithmetic_overflow
       ''prepacked-B descriptor or storage range overflows the address space''
     in and_then (or_fail (byte_range packed_b 112) overflow) (\<lambda>descriptor.
        and_then (or_fail (byte_count out) overflow) (\<lambda>out_span.
        and_then (or_fail (byte_count lhs) overflow) (\<lambda>lhs_span.
        and_then (or_fail (byte_count rhs) overflow) (\<lambda>rhs_span.
        and_then (or_fail (byte_range (pbv_packed_data view) (preq_packed_b_bytes requirements))
          overflow) (\<lambda>packed.
        and_then (require (\<not> (overlaps descriptor out_span \<or> overlaps descriptor lhs_span \<or>
            overlaps descriptor rhs_span \<or> overlaps descriptor packed))
          (status ms_alias_violation
            ''prepacked-B descriptor must not overlap tensors or packed storage'')) (\<lambda>_.
        Inr descriptor)))))))"

definition check_descriptor_workspace ::
  "ByteSpan \<Rightarrow> u64 \<Rightarrow> CpuPackedGemmWorkspaceRequirementsV1 \<Rightarrow> matcore_status_v0 + unit" where
  "check_descriptor_workspace descriptor workspace execution =
     and_then (or_fail (byte_range workspace (preq_total_bytes execution))
       (status ms_arithmetic_overflow
         ''prepacked-B workspace range overflows the address space'')) (\<lambda>workspace_span.
     require (\<not> overlaps descriptor workspace_span)
       (status ms_alias_violation ''prepacked-B descriptor must not overlap workspace''))"

definition matcore_runtime_gemm_f32_execute_prepacked_b_v1 ::
  "'f process \<Rightarrow> matcore_tensor_desc_v0 option \<Rightarrow> matcore_tensor_desc_v0 option \<Rightarrow>
   matcore_tensor_desc_v0 option \<Rightarrow> matcore_policy_v0 option \<Rightarrow>
   matcore_cpu_gemm_execution_options_v1 option \<Rightarrow> u64 \<Rightarrow> matcore_packed_b_desc_v1 option \<Rightarrow>
   u64 \<Rightarrow> u64 \<Rightarrow> matcore_cpu_gemm_plan_report_v2 option \<Rightarrow> 'f fmem \<Rightarrow>
   matcore_status_v0 \<times> matcore_cpu_gemm_plan_report_v2 option \<times> 'f fmem" where
  "matcore_runtime_gemm_f32_execute_prepacked_b_v1 pr out lhs rhs policy options packed_b_address
     packed_b workspace workspace_bytes report mem =
    (case and_then (validate_execution_options options) (\<lambda>request.
          and_then (or_fail report
            (status ms_invalid_argument ''CPU plan v2 report must be non-null'')) (\<lambda>r.
          and_then (validate_empty_report_v2 r) (\<lambda>_.
          and_then (require (forced_native_packed_request request)
            (status ms_unavailable_variant
              ''prepacked-B requires the forced native packed AVX2/FMA variant'')) (\<lambda>_.
          and_then (unpack_packed_b_desc packed_b) (\<lambda>view.
          and_then (validate_gemm_v0 out lhs rhs policy) (\<lambda>validated.
          and_then (require (pbv_source_data view = vg_rhs validated)
            (status ms_prepack_mismatch
              ''packed-B source identity does not match the supplied right input'')) (\<lambda>_.
          and_then (case cpu_packed_avx2_prepacked_b_requirements_v1 (vg_problem validated) of
              Inl st \<Rightarrow> Inl (packed_execution_status st) | Inr r \<Rightarrow> Inr r) (\<lambda>packed_requirements.
          and_then (case cpu_validate_packed_avx2_prepacked_b_view_v1 (vg_problem validated)
              (vg_lhs validated) (vg_out validated) view of
              Inl st \<Rightarrow> Inl (packed_execution_status st) | Inr u \<Rightarrow> Inr u) (\<lambda>_.
          and_then (check_descriptor_ranges packed_requirements view packed_b_address
            (the out) (the lhs) (the rhs)) (\<lambda>descriptor.
          let plan = plan_request_v2 pr options request probe_exclude validated
          in and_then (require (plan2_status plan = st1_selected) (unavailable_plan_status plan)) (\<lambda>_.
             and_then (case cpu_packed_avx2_workspace_requirements_v1 (vg_problem validated)
                 transient_a_with_prepacked_b of
                 Inl st \<Rightarrow> Inl (packed_execution_status st) | Inr r \<Rightarrow> Inr r) (\<lambda>execution.
             and_then (case cpu_validate_packed_avx2_prepacked_b_v1 (vg_problem validated)
                 (vg_lhs validated) (vg_out validated) view workspace workspace_bytes of
                 Inl st \<Rightarrow> Inl (packed_execution_status st) | Inr u \<Rightarrow> Inr u) (\<lambda>_.
             and_then (check_descriptor_workspace descriptor workspace execution) (\<lambda>_.
             and_then (validate_current_fp_environment_v1 pr) (\<lambda>_.
             Inr (validated, view, plan, execution)))))))))))))))) of
       Inl st \<Rightarrow> (st, report, mem)
     | Inr (validated, view, plan, execution) \<Rightarrow>
         (case cpu_execute_packed_avx2_prepacked_b_v1 (pr_packed_avx2_usable pr) (pr_fma_ops pr)
             (vg_problem validated) (vg_lhs validated) (vg_out validated) view workspace
             workspace_bytes mem of
            (execute_status, mem) \<Rightarrow>
              if execute_status \<noteq> pst_success
              then (packed_execution_status execute_status, report, mem)
              else let packed_index = variant_code_v2 var2_native_packed_avx2_fma;
                       plan = plan\<lparr>plan2_candidates := (plan2_candidates plan)[packed_index :=
                         (plan2_candidates plan ! packed_index)
                           \<lparr>dec2_required_workspace_bytes := preq_total_bytes execution,
                            dec2_required_workspace_alignment :=
                              ucast (preq_alignment_bytes execution)\<rparr>]\<rparr>
                in (ok_status, Some (populate_report_v2 plan (external_provider_info pr probe_exclude
                      (res1_openblas_linked (plan2_resources plan)))), mem)))"

end
