(* ===== verification/RuntimeContract.thy ===== *)
theory RuntimeContract
  imports RuntimePrepacked
begin

text \<open>
  Lemmas on the entry points of the runtime: which calls they accept, which run a selected candidate leads to,
  which statuses their checks return, and the predicates their properties are stated with.
\<close>

section \<open>The legacy kernels on memory\<close>

text \<open>\<open>kernel_multiplied\<close>: the output holds the reference kernel's product of the inputs, and nothing else has
  changed.\<close>

definition kernel_multiplied ::
  "'f float_ops \<Rightarrow> CpuGemmProblemV1 \<Rightarrow> u64 \<Rightarrow> u64 \<Rightarrow> u64 \<Rightarrow> 'f fmem \<Rightarrow> 'f fmem \<Rightarrow> bool" where
  "kernel_multiplied R problem lhs rhs out mem mem' \<longleftrightarrow>
    (let m = dim (prob_m problem); n = dim (prob_n problem); k = dim (prob_k problem)
     in floats_at mem' out (m * n) =
          reference_gemm R problem (floats_at mem lhs (m * k)) (floats_at mem rhs (k * n))
            (floats_at mem out (m * n)) \<and>
        (\<forall>x. x \<notin> panel (slot out) (m * n) \<longrightarrow> mem' x = mem x))"

lemma floats_at_write:
  "length xs = len \<Longrightarrow> floats_at (write_floats at xs mem) at len = xs"
  by (rule nth_equalityI) (simp_all add: floats_at_def write_floats_def)

lemma legacy_product:
  "kernel_multiplied R problem lhs rhs out mem
    (write_floats out (gemm_result R problem (floats_at mem lhs (dim (prob_m problem) * dim (prob_k problem)))
      (floats_at mem rhs (dim (prob_k problem) * dim (prob_n problem)))
      (floats_at mem out (dim (prob_m problem) * dim (prob_n problem)))) mem)"
proof -
  let ?len = "dim (prob_m problem) * dim (prob_n problem)"
  have len: "length (gemm_result R problem l r (floats_at mem out ?len)) = ?len" for l r
    by (simp add: gemm_result_def Let_def floats_at_def)
  show ?thesis
    unfolding kernel_multiplied_def Let_def reference_cell floats_at_write [OF len]
    by (auto simp: write_floats_def len panel_def)
qed

lemma legacy_runs:
  assumes "vg_lhs v \<noteq> 0" "vg_rhs v \<noteq> 0" "vg_out v \<noteq> 0"
    and "variant \<in> {var2_reference, var2_tiled, var2_compiler_vectorized}"
    and "plan1_status (plan_cpu_gemm_v1 (pr_instrumented pr) (vg_problem v)
      (discover_cpu_capabilities_v1 (pr_target pr)) (legacy_request variant)) = st1_selected"
  shows "\<exists>mem'. execute_legacy_variant pr variant v mem = (True, mem') \<and>
    kernel_multiplied (pr_kernel_ops pr) (vg_problem v) (vg_lhs v) (vg_rhs v) (vg_out v) mem mem'"
  using assms legacy_product [of "pr_kernel_ops pr" "vg_problem v" "vg_lhs v" "vg_rhs v" "vg_out v" mem]
  by (auto simp: execute_legacy_variant_def Let_def execute_plan_v1_result)

section \<open>The workspace of a call\<close>

text \<open>The check of \<^verbatim>\<open>validate_selected_workspace_v1\<close> accepts what the packed engine accepts.\<close>

lemma selected_workspace_Inr:
  assumes "gemm_arguments_ok out lhs rhs policy"
  defines "problem \<equiv> call_problem out lhs rhs"
  shows "validate_selected_workspace_v1 (of_nat (workspace_total problem mode)) 64 workspace bytes
      out lhs rhs = Inr () \<longleftrightarrow>
    workspace_ok workspace bytes (workspace_total problem mode) \<and>
    tensors_avoid problem (td_data lhs) (td_data rhs) (td_data out) workspace
      (workspace_total problem mode)"
proof -
  let ?t = "workspace_total problem mode"
  note ok = validated_gemm [OF assms(1), folded problem_def]
  have dims: "td_dims lhs ! 0 = prob_m problem" "td_dims lhs ! 1 = prob_k problem"
    "td_dims rhs ! 0 = prob_k problem" "td_dims rhs ! 1 = prob_n problem"
    "td_dims out ! 0 = prob_m problem" "td_dims out ! 1 = prob_n problem"
    using assms(1) by (simp_all add: gemm_arguments_ok_def problem_def call_problem_def)
  have pos: "td_data t \<noteq> 0 \<and> 0 < sint (td_dims t ! 0) \<and> 0 < sint (td_dims t ! 1)"
    if "t \<in> {out, lhs, rhs}" for t
    using assms(1) that by (auto simp: gemm_arguments_ok_def tensor_ok_def)
  have spans: "byte_count out = Some s \<longleftrightarrow> s = out_span_of problem (td_data out)"
    "byte_count lhs = Some s \<longleftrightarrow> s = lhs_span_of problem (td_data lhs)"
    "byte_count rhs = Some s \<longleftrightarrow> s = rhs_span_of problem (td_data rhs)" for s
    using ok(2) pos [of out] pos [of lhs] pos [of rhs]
    by (simp_all add: byte_count_Some tensors_ok_def dims [unfolded One_nat_def] dims)
  have zero: "of_nat ?t \<noteq> (0 :: u64)"
    using workspace_positive [OF ok(1), of mode] unat_workspace_total [of problem mode]
    by (metis less_numeral_extra(3) unat_0)
  have align: "workspace mod 64 = 0 \<longleftrightarrow> 64 dvd unat workspace" if "workspace \<noteq> 0"
    using pointer_has_alignment_iff [of 64 workspace] that by (simp add: pointer_has_alignment_def)
  have avoid: "(\<not> (overlaps w (out_span_of problem (td_data out)) \<or>
        overlaps w (lhs_span_of problem (td_data lhs)) \<or> overlaps w (rhs_span_of problem (td_data rhs)))) =
      tensors_avoid problem (td_data lhs) (td_data rhs) (td_data out) workspace ?t"
    if "placed workspace ?t" "w = \<lparr>span_begin = workspace, span_end = workspace + of_nat ?t\<rparr>" for w
    using workspace_tensors [OF ok(1,2) that(1)] that(2) by auto
  have size: "(of_nat ?t > bytes) = (\<not> ?t \<le> unat bytes)"
    using unat_workspace_total [of problem mode] by (simp add: word_less_nat_alt not_le)
  show ?thesis
  proof (cases "workspace = 0")
    case True
    then show ?thesis
      using zero by (simp add: validate_selected_workspace_v1_def workspace_ok_def placed_def)
  next
    case False
    show ?thesis
      unfolding validate_selected_workspace_v1_def byte_range_span Let_def
      using zero False avoid size unat_workspace_total [of problem mode]
      by (auto simp: align [OF False] result_simps spans make_span_Some workspace_ok_def placed_def)
  qed
qed

section \<open>The selected candidate\<close>

lemma registry_v2_codes:
  "i < 5 \<Longrightarrow> variant_code_v2 (rec2_variant (kCpuGemmVariantRegistryV2 ! i)) = i"
  by (auto simp: registry_simps less_Suc_eq numeral_eq_Suc)

abbreviation request_resources ::
  "'f process \<Rightarrow> matcore_cpu_gemm_execution_options_v1 option \<Rightarrow> CpuExternalProviderProbeV1 \<Rightarrow>
   CpuGemmProblemV1 \<Rightarrow> CpuGemmImplementationResourcesV1" where
  "request_resources pr options probe problem \<equiv>
     discover_cpu_gemm_implementation_resources_v1 pr problem (eo1_requested_threads (the options)) probe"

abbreviation request_decision ::
  "'f process \<Rightarrow> CpuGemmImplementationResourcesV1 \<Rightarrow> CpuGemmProblemV1 \<Rightarrow> nat \<Rightarrow>
   CpuCandidateDecisionV2" where
  "request_decision pr resources problem i \<equiv>
     decide_v2 (pr_instrumented pr) problem (discover_cpu_capabilities_v1 (pr_target pr)) resources
       (kCpuGemmVariantRegistryV2 ! i)"

lemma selected_candidate:
  assumes "plan2_status (plan_cpu_gemm_v2 ins problem caps resources request) = st1_selected"
  defines "plan \<equiv> plan_cpu_gemm_v2 ins problem caps resources request"
  obtains i where "i < 5" "plan2_selected_variant plan = rec2_variant (kCpuGemmVariantRegistryV2 ! i)"
    "variant_code_v2 (plan2_selected_variant plan) = i"
    "plan2_candidates plan ! i = decide_v2 ins problem caps resources (kCpuGemmVariantRegistryV2 ! i)"
    "dec2_legal (decide_v2 ins problem caps resources (kCpuGemmVariantRegistryV2 ! i))"
    "request_matches_v2 request (plan2_selected_variant plan)"
proof -
  from plan_v2_best [OF assms(1)] obtain i where
    best: "v2.best request (plan2_candidates plan) i"
    and v: "plan2_selected_variant plan = dec2_variant (plan2_candidates plan ! i)"
    unfolding plan_def by blast
  then have i: "i < 5" by (simp add: v2.best_def candidates_v2 plan_def)
  then have c: "plan2_candidates plan ! i = decide_v2 ins problem caps resources (kCpuGemmVariantRegistryV2 ! i)"
    by (simp add: candidates_v2 plan_def)
  show thesis
    using that [OF i] best v registry_v2_codes [OF i]
    by (simp add: c v2.best_def eligible_v2_def)
qed

lemma legal_legacy_plan:
  assumes "dec2_legal (decide_v2 ins problem caps resources record)"
    and "rec2_variant record \<in> {var2_reference, var2_tiled, var2_compiler_vectorized}"
  shows "plan1_status (plan_cpu_gemm_v1 ins problem caps (legacy_request (rec2_variant record))) = st1_selected"
  using assms by (auto simp: decide_v2_legal legacy_accepts_def)

section \<open>Running the selected candidate\<close>

text \<open>What a successful run of a variant leaves in memory.\<close>

definition left_by_variant ::
  "'f process \<Rightarrow> CpuGemmVariantV2 \<Rightarrow> CpuGemmProblemV1 \<Rightarrow> u64 \<Rightarrow> u64 \<Rightarrow> u64 \<Rightarrow> u32 \<Rightarrow> u64 \<Rightarrow> 'f fmem \<Rightarrow>
   'f fmem \<Rightarrow> bool" where
  "left_by_variant pr variant problem lhs rhs out threads workspace mem mem' =
    (case variant of
       var2_external_openblas \<Rightarrow>
         ob_execute (pr_openblas pr) problem lhs rhs out threads mem = (obs_success, threads, mem')
     | var2_native_packed_avx2_fma \<Rightarrow>
         multiplied (pr_fma_ops pr) problem lhs rhs out
           (workspace_slots problem transient_a_and_b workspace) mem mem'
     | var2_other _ \<Rightarrow> False
     | _ \<Rightarrow> kernel_multiplied (pr_kernel_ops pr) problem lhs rhs out mem mem')"

lemma packed_run_outcome:
  assumes "cpu_validate_packed_avx2_v1 problem lhs rhs out workspace bytes = Inr ()"
  shows "if usable
    then \<exists>mem'. cpu_execute_packed_avx2_v1 usable F problem lhs rhs out workspace bytes mem = (pst_success, mem') \<and>
      multiplied F problem lhs rhs out (workspace_slots problem transient_a_and_b workspace) mem mem'
    else cpu_execute_packed_avx2_v1 usable F problem lhs rhs out workspace bytes mem =
      (pst_isa_unavailable, mem)"
proof (cases usable)
  case True
  then show ?thesis
    using assms execute_avx2_equation [of usable F problem lhs rhs out workspace bytes mem]
      avx2_block.transient_multiplies [OF assms, of F mem] by auto
next
  case False
  have "packed_problem problem" using assms by (simp add: packed_validation)
  then have "\<exists>r. cpu_packed_avx2_workspace_requirements_v1 problem transient_a_and_b = Inr r"
    by (simp add: requirements_Inr)
  with False show ?thesis by (auto simp: cpu_execute_packed_avx2_v1_def)
qed

definition isa_unavailable_status :: matcore_status_v0 where
  "isa_unavailable_status = packed_execution_status pst_isa_unavailable"

text \<open>The workspace a plan asks for, and the run it leads to.\<close>

lemma request_workspace:
  assumes "gemm_arguments_ok out lhs rhs policy"
  defines "problem \<equiv> call_problem out lhs rhs"
  shows "dec2_required_workspace_bytes (request_decision pr (request_resources pr options probe problem) problem i) =
      (if rec2_variant (kCpuGemmVariantRegistryV2 ! i) = var2_native_packed_avx2_fma
       then of_nat (workspace_total problem transient_a_and_b) else 0)"
    "dec2_required_workspace_alignment (request_decision pr (request_resources pr options probe problem) problem i) =
      (if rec2_variant (kCpuGemmVariantRegistryV2 ! i) = var2_native_packed_avx2_fma then 64 else 1)"
proof -
  obtain r where r: "cpu_packed_avx2_workspace_requirements_v1 problem transient_a_and_b = Inr r"
    "preq_total_bytes r = of_nat (workspace_total problem transient_a_and_b)" "preq_alignment_bytes r = 64"
    using validated_gemm(1) [OF assms(1)] by (simp add: requirements_Inr problem_def)
  then show "dec2_required_workspace_bytes (request_decision pr (request_resources pr options probe problem) problem i) =
      (if rec2_variant (kCpuGemmVariantRegistryV2 ! i) = var2_native_packed_avx2_fma
       then of_nat (workspace_total problem transient_a_and_b) else 0)"
    "dec2_required_workspace_alignment (request_decision pr (request_resources pr options probe problem) problem i) =
      (if rec2_variant (kCpuGemmVariantRegistryV2 ! i) = var2_native_packed_avx2_fma then 64 else 1)"
    by (simp_all add: decide_v2_def Let_def discover_cpu_gemm_implementation_resources_v1_def
        split: option.split)
qed

lemma selected_run:
  fixes pr :: "'f process" and mem :: "'f fmem" and options request probe
  assumes valid: "gemm_arguments_ok out lhs rhs policy"
  defines "problem \<equiv> call_problem out lhs rhs"
  defines "v \<equiv> \<lparr>vg_problem = problem, vg_lhs = td_data lhs, vg_rhs = td_data rhs, vg_out = td_data out\<rparr>"
  defines "plan \<equiv> plan_request_v2 pr options request probe v"
  defines "candidate \<equiv> plan2_candidates plan ! variant_code_v2 (plan2_selected_variant plan)"
  defines "variant \<equiv> plan2_selected_variant plan" and "threads \<equiv> eo1_requested_threads (the options)"
  assumes selected: "plan2_status plan = st1_selected"
    and workspace: "validate_selected_workspace_v1 (dec2_required_workspace_bytes candidate)
      (dec2_required_workspace_alignment candidate) workspace bytes out lhs rhs = Inr ()"
  obtains mem' where "execute_selected_v2 pr variant v threads workspace bytes mem = (Inr True, mem')"
      "left_by_variant pr variant problem (td_data lhs) (td_data rhs) (td_data out) threads workspace mem mem'"
    | message mem' where "variant = var2_external_openblas"
      "execute_selected_v2 pr variant v threads workspace bytes mem =
         (Inl (status ms_external_provider_failure message), mem')"
    | "variant = var2_native_packed_avx2_fma" "\<not> pr_packed_avx2_usable pr"
      "execute_selected_v2 pr variant v threads workspace bytes mem = (Inl isa_unavailable_status, mem)"
proof -
  let ?ds = "request_decision pr (request_resources pr options probe problem) problem"
  have plan: "plan = plan_cpu_gemm_v2 (pr_instrumented pr) problem
      (discover_cpu_capabilities_v1 (pr_target pr)) (request_resources pr options probe problem) request"
    by (simp add: plan_def plan_request_v2_def v_def)
  obtain i where i: "i < 5" "variant = rec2_variant (kCpuGemmVariantRegistryV2 ! i)"
    and c: "candidate = ?ds i" and legal: "dec2_legal (?ds i)"
    using selected_candidate [OF selected [unfolded plan], folded plan]
    unfolding variant_def candidate_def by metis
  note problem = validated_gemm [OF valid, folded problem_def]
  have data: "td_data lhs \<noteq> 0" "td_data rhs \<noteq> 0" "td_data out \<noteq> 0"
    using valid by (simp_all add: gemm_arguments_ok_def tensor_ok_def)
  consider "variant \<in> {var2_reference, var2_tiled, var2_compiler_vectorized}"
    | "variant = var2_external_openblas" | "variant = var2_native_packed_avx2_fma"
    using i by (auto simp: registry_simps less_Suc_eq numeral_eq_Suc)
  then show thesis
  proof cases
    case 1
    obtain mem' where "execute_legacy_variant pr variant v mem = (True, mem')"
      "kernel_multiplied (pr_kernel_ops pr) problem (td_data lhs) (td_data rhs) (td_data out) mem mem'"
      using legacy_runs [of v variant pr mem] legal_legacy_plan [OF legal] 1 data
      by (auto simp: v_def i(2))
    then show thesis
      using 1 by (intro that(1) [of mem']) (auto simp: execute_selected_v2_def left_by_variant_def)
  next
    case 2
    obtain s t mem' where "ob_execute (pr_openblas pr) problem (td_data lhs) (td_data rhs) (td_data out)
        threads mem = (s, t, mem')"
      by (metis prod_cases3)
    then show thesis
      using 2 that(1) [of mem'] that(2) [of _ mem']
      by (cases "s = obs_success \<and> t = threads")
        (auto simp: execute_selected_v2_def left_by_variant_def v_def)
  next
    case 3
    have "validate_selected_workspace_v1 (of_nat (workspace_total problem transient_a_and_b)) 64
        workspace bytes out lhs rhs = Inr ()"
      using workspace 3 request_workspace [OF valid, of pr options probe i, folded problem_def]
      by (simp add: c i(2))
    then have "cpu_validate_packed_avx2_v1 problem (td_data lhs) (td_data rhs) (td_data out) workspace
        bytes = Inr ()"
      using problem
      by (simp add: selected_workspace_Inr [OF valid, folded problem_def] packed_validation)
    note run = packed_run_outcome [OF this, of "pr_packed_avx2_usable pr" "pr_fma_ops pr" mem]
    show thesis
    proof (cases "pr_packed_avx2_usable pr")
      case True
      with run obtain mem' where "cpu_execute_packed_avx2_v1 True (pr_fma_ops pr) problem (td_data lhs)
          (td_data rhs) (td_data out) workspace bytes mem = (pst_success, mem')"
        "multiplied (pr_fma_ops pr) problem (td_data lhs) (td_data rhs) (td_data out)
           (workspace_slots problem transient_a_and_b workspace) mem mem'" by auto
      then show thesis
        using 3 True by (intro that(1) [of mem']) (auto simp: execute_selected_v2_def left_by_variant_def v_def)
    next
      case False
      then show thesis
        using run 3 that(3)
        by (simp add: execute_selected_v2_def v_def isa_unavailable_status_def)
    qed
  qed
qed

section \<open>The entry points\<close>

abbreviation call_of ::
  "matcore_tensor_desc_v0 \<Rightarrow> matcore_tensor_desc_v0 \<Rightarrow> matcore_tensor_desc_v0 \<Rightarrow> ValidatedGemmV0" where
  "call_of out lhs rhs \<equiv> \<lparr>vg_problem = call_problem out lhs rhs, vg_lhs = td_data lhs,
     vg_rhs = td_data rhs, vg_out = td_data out\<rparr>"

abbreviation call_plan ::
  "'f process \<Rightarrow> matcore_cpu_gemm_execution_options_v1 option \<Rightarrow> CpuGemmRequestV2 \<Rightarrow>
   matcore_tensor_desc_v0 \<Rightarrow> matcore_tensor_desc_v0 \<Rightarrow> matcore_tensor_desc_v0 \<Rightarrow> CpuGemmPlanV2" where
  "call_plan pr options request out lhs rhs \<equiv>
     plan_request_v2 pr options request (external_provider_probe request) (call_of out lhs rhs)"

abbreviation call_report ::
  "'f process \<Rightarrow> CpuGemmRequestV2 \<Rightarrow> CpuGemmPlanV2 \<Rightarrow> matcore_cpu_gemm_plan_report_v2" where
  "call_report pr request plan \<equiv> populate_report_v2 plan
     (external_provider_info pr (external_provider_probe request)
       (res1_openblas_linked (plan2_resources plan)))"

lemma validated_arguments:
  assumes "validate_gemm_v0 out lhs rhs policy = Inr v"
  obtains z x y p where "out = Some z" "lhs = Some x" "rhs = Some y" "policy = Some p"
    "gemm_arguments_ok z x y p" "v = call_of z x y"
proof -
  have "\<not> (out = None \<or> lhs = None \<or> rhs = None \<or> policy = None)"
    using assms by (metis Inl_Inr_False validate_gemm_null)
  then obtain z x y p where some: "out = Some z" "lhs = Some x" "rhs = Some y" "policy = Some p"
    by (metis option.exhaust_sel)
  with assms show thesis
    by (intro that [OF some]) (simp_all add: validate_gemm_Inr)
qed

text \<open>No check of the library returns an \<^verbatim>\<open>ok\<close> status as an error, and none reports a provider
  failure.\<close>

abbreviation clean_failure :: "matcore_status_v0 \<Rightarrow> bool" where
  "clean_failure st \<equiv> ms_code st \<notin> {ms_ok, ms_external_provider_failure}"

lemma unavailable_plan_fails [simp]: "ms_code (unavailable_plan_status plan) \<noteq> ms_ok"
  "ms_code (unavailable_plan_status plan) \<noteq> ms_external_provider_failure"
  by (simp_all add: unavailable_plan_status_def Let_def)

lemma packed_status_fails [simp]:
  "ms_code (packed_execution_status s) = ms_ok \<longleftrightarrow> s = pst_success"
  "ms_code (packed_execution_status s) \<noteq> ms_external_provider_failure"
  by (cases s; simp)+

lemma checks_fail:
  "validate_execution_options options = Inl st \<Longrightarrow> clean_failure st"
  "validate_empty_report_v2 report = Inl st \<Longrightarrow> clean_failure st"
  "validate_gemm_v0 out lhs rhs policy = Inl st \<Longrightarrow> clean_failure st"
  "validate_current_fp_environment_v1 pr = Inl st \<Longrightarrow> clean_failure st"
  "validate_selected_workspace_v1 rb ra workspace bytes z x y = Inl st \<Longrightarrow> clean_failure st"
proof -
  show "validate_execution_options options = Inl st \<Longrightarrow> clean_failure st"
    by (auto simp: validate_execution_options_def result_simps split: option.splits if_splits)
  show "validate_empty_report_v2 report = Inl st \<Longrightarrow> clean_failure st"
    by (auto simp: validate_empty_report_v2_def result_simps)
  show "validate_current_fp_environment_v1 pr = Inl st \<Longrightarrow> clean_failure st"
    by (auto simp: validate_current_fp_environment_v1_def result_simps)
  show "validate_selected_workspace_v1 rb ra workspace bytes z x y = Inl st \<Longrightarrow> clean_failure st"
    by (auto simp: validate_selected_workspace_v1_def Let_def result_simps split: if_splits)
  have tensor: "validate_tensor t m = Inl e \<Longrightarrow> clean_failure e" for t m e
    by (auto simp: validate_tensor_def result_simps)
  have policy: "validate_cpu_policy_v0 p = Inl e \<Longrightarrow> clean_failure e" for p e
    by (auto simp: validate_cpu_policy_v0_def result_simps split: option.splits)
  show "validate_gemm_v0 out lhs rhs policy = Inl st \<Longrightarrow> clean_failure st"
    unfolding validate_gemm_v0_def Let_def
    by (auto simp: result_simps dest: tensor policy split: option.splits)
qed

lemma execute_v1_checks:
  assumes "matcore_runtime_gemm_f32_execute_v1 pr out lhs rhs policy options workspace bytes report mem = r"
  obtains st where "clean_failure st" "r = (st, report, mem)"
  | request z x y p e plan candidate where "validate_execution_options options = Inr request"
    "report = Some e" "validate_empty_report_v2 e = Inr ()" "out = Some z" "lhs = Some x" "rhs = Some y"
    "policy = Some p" "gemm_arguments_ok z x y p" "plan = call_plan pr options request z x y"
    "candidate = plan2_candidates plan ! variant_code_v2 (plan2_selected_variant plan)"
    "plan2_status plan = st1_selected"
    "validate_selected_workspace_v1 (dec2_required_workspace_bytes candidate)
      (dec2_required_workspace_alignment candidate) workspace bytes z x y = Inr ()" "pr_fp_compatible pr"
proof -
  let ?check = "and_then (validate_execution_options options) (\<lambda>request.
          and_then (or_fail report
            (status ms_invalid_argument ''CPU plan v2 report must be non-null'')) (\<lambda>r.
          and_then (validate_empty_report_v2 r) (\<lambda>_.
          and_then (validate_gemm_v0 out lhs rhs policy) (\<lambda>validated.
          let plan = plan_request_v2 pr options request (external_provider_probe request) validated;
              candidate = plan2_candidates plan ! variant_code_v2 (plan2_selected_variant plan)
          in and_then (require (plan2_status plan = st1_selected) (unavailable_plan_status plan)) (\<lambda>_.
             and_then (validate_selected_workspace_v1 (dec2_required_workspace_bytes candidate)
               (dec2_required_workspace_alignment candidate) workspace bytes
               (the out) (the lhs) (the rhs)) (\<lambda>_.
             and_then (validate_current_fp_environment_v1 pr) (\<lambda>_.
             Inr (request, validated, plan))))))))"
  show thesis
  proof (cases ?check)
    case (Inl st)
    then have "r = (st, report, mem)"
      using assms by (simp add: matcore_runtime_gemm_f32_execute_v1_def)
    moreover have "clean_failure st"
      using Inl unfolding Let_def
      by (auto simp: result_simps dest: checks_fail)
    ultimately show thesis by (rule that(1) [rotated])
  next
    case (Inr c)
    then obtain request v e where ok: "validate_execution_options options = Inr request" "report = Some e"
      "validate_empty_report_v2 e = Inr ()" and v: "validate_gemm_v0 out lhs rhs policy = Inr v"
      and rest: "plan2_status (plan_request_v2 pr options request (external_provider_probe request) v) = st1_selected"
      "let plan = plan_request_v2 pr options request (external_provider_probe request) v;
           candidate = plan2_candidates plan ! variant_code_v2 (plan2_selected_variant plan)
       in validate_selected_workspace_v1 (dec2_required_workspace_bytes candidate)
        (dec2_required_workspace_alignment candidate) workspace bytes (the out) (the lhs) (the rhs) = Inr ()"
      "pr_fp_compatible pr"
      unfolding Let_def validate_current_fp_environment_v1_def by (auto simp: result_simps)
    from v obtain z x y p where args: "out = Some z" "lhs = Some x" "rhs = Some y" "policy = Some p"
      "gemm_arguments_ok z x y p" "v = call_of z x y"
      by (rule validated_arguments)
    show thesis
      by (rule that(2) [OF ok args(1-5) refl refl]) (use rest args in \<open>simp_all add: Let_def\<close>)
  qed
qed

lemma execute_v1_run:
  fixes pr :: "'f process" and mem :: "'f fmem" and options request
  assumes "validate_execution_options options = Inr request" "validate_empty_report_v2 e = Inr ()"
    and args: "gemm_arguments_ok z x y p" and "pr_fp_compatible pr"
  defines "plan \<equiv> call_plan pr options request z x y"
  defines "candidate \<equiv> plan2_candidates plan ! variant_code_v2 (plan2_selected_variant plan)"
  assumes selected: "plan2_status plan = st1_selected"
    and workspace: "validate_selected_workspace_v1 (dec2_required_workspace_bytes candidate)
      (dec2_required_workspace_alignment candidate) workspace bytes z x y = Inr ()"
    and run: "matcore_runtime_gemm_f32_execute_v1 pr (Some z) (Some x) (Some y) (Some p) options workspace
      bytes (Some e) mem = r"
  obtains mem' where "r = (ok_status, Some (call_report pr request plan), mem')"
      "left_by_variant pr (plan2_selected_variant plan) (call_problem z x y) (td_data x) (td_data y)
        (td_data z) (eo1_requested_threads (the options)) workspace mem mem'"
    | message mem' where "plan2_selected_variant plan = var2_external_openblas"
      "r = (status ms_external_provider_failure message, Some e, mem')"
    | "plan2_selected_variant plan = var2_native_packed_avx2_fma" "\<not> pr_packed_avx2_usable pr"
      "r = (isa_unavailable_status, Some e, mem)"
proof -
  have v: "validate_gemm_v0 (Some z) (Some x) (Some y) (Some p) = Inr (call_of z x y)"
    using args by (simp add: validate_gemm_Inr)
  have r: "r = (let (result, mem) = execute_selected_v2 pr (plan2_selected_variant plan) (call_of z x y)
               (eo1_requested_threads (the options)) workspace bytes mem
         in case result of
              Inl st \<Rightarrow> (st, Some e, mem)
            | Inr executed \<Rightarrow>
                if \<not> executed
                then (status ms_unavailable_variant
                  ''selected CPU GEMM implementation did not execute'', Some e, mem)
                else (ok_status, Some (call_report pr request plan), mem))"
    using assms(1,2,4) selected workspace run
    unfolding matcore_runtime_gemm_f32_execute_v1_def Let_def
      plan_def [symmetric] candidate_def [symmetric]
    by (simp add: v validate_current_fp_environment_v1_def flip: plan_def candidate_def)
  show thesis
  proof (rule selected_run [OF args, of pr options request "external_provider_probe request",
        folded plan_def, folded candidate_def, OF selected workspace, of mem])
  qed (use r that in \<open>auto simp: Let_def\<close>)
qed

section \<open>The query and the execution\<close>

lemma workspace_query:
  assumes "matcore_runtime_gemm_f32_workspace_size_v1 pr out lhs rhs policy options requirements report =
      (st, requirements', report')" "ms_code st = ms_ok"
  obtains request e z x y p plan candidate where "validate_execution_options options = Inr request"
    "report = Some e" "validate_empty_report_v2 e = Inr ()" "out = Some z" "lhs = Some x" "rhs = Some y"
    "policy = Some p" "gemm_arguments_ok z x y p" "plan = call_plan pr options request z x y"
    "candidate = plan2_candidates plan ! variant_code_v2 (plan2_selected_variant plan)"
    "plan2_status plan = st1_selected" "report' = Some (call_report pr request plan)"
    "requirements' = Some \<lparr>wr1_abi_version = 1, wr1_struct_size = 64,
                        wr1_workspace_bytes = dec2_required_workspace_bytes candidate,
                        wr1_workspace_alignment = dec2_required_workspace_alignment candidate,
                        wr1_actual_threads = dec2_actual_threads candidate,
                        wr1_selected_stable_id = view_data (dec2_stable_id candidate),
                        wr1_reserved = [0, 0, 0, 0]\<rparr>"
proof -
  let ?check = "and_then (validate_execution_options options) (\<lambda>request.
          and_then (validate_empty_workspace_requirements requirements) (\<lambda>_.
          and_then (or_fail report
            (status ms_invalid_argument ''CPU plan v2 report must be non-null'')) (\<lambda>r.
          and_then (validate_empty_report_v2 r) (\<lambda>_.
          and_then (validate_gemm_v0 out lhs rhs policy) (\<lambda>validated.
          Inr (request, validated))))))"
  show thesis
  proof (cases ?check)
    case (Inl e)
    then have "st = e" "ms_code e \<noteq> ms_ok"
      using assms(1)
      by (auto simp: matcore_runtime_gemm_f32_workspace_size_v1_def result_simps
          validate_empty_workspace_requirements_def dest: checks_fail split: option.splits)
    with assms(2) show thesis by simp
  next
    case (Inr c)
    then obtain request v e where ok: "validate_execution_options options = Inr request" "report = Some e"
      "validate_empty_report_v2 e = Inr ()" and v: "validate_gemm_v0 out lhs rhs policy = Inr v"
      and c: "c = (request, v)"
      by (auto simp: result_simps)
    from v obtain z x y p where args: "out = Some z" "lhs = Some x" "rhs = Some y" "policy = Some p"
      "gemm_arguments_ok z x y p" "v = call_of z x y"
      by (rule validated_arguments)
    show thesis
      using assms Inr unfolding c args(6)
      by (intro that [OF ok args(1-5) refl refl])
        (auto simp: matcore_runtime_gemm_f32_workspace_size_v1_def Let_def split: if_splits)
  qed
qed

lemma registry_v2_ids:
  "i < 5 \<Longrightarrow> rec2_stable_id (kCpuGemmVariantRegistryV2 ! i) = ''cpu.external.openblas.f32.v1'' \<longleftrightarrow>
    rec2_variant (kCpuGemmVariantRegistryV2 ! i) = var2_external_openblas"
  "i < 5 \<Longrightarrow> rec2_stable_id (kCpuGemmVariantRegistryV2 ! i) = ''cpu.native-packed.avx2-fma.f32.v1'' \<longleftrightarrow>
    rec2_variant (kCpuGemmVariantRegistryV2 ! i) = var2_native_packed_avx2_fma"
  "i < 5 \<Longrightarrow> rec2_stable_id (kCpuGemmVariantRegistryV2 ! i) \<noteq> []"
  by (auto simp: registry_simps less_Suc_eq numeral_eq_Suc)

text \<open>A workspace that meets what the query asked for.\<close>

definition workspace_meets ::
  "matcore_gemm_workspace_requirements_v1 \<Rightarrow> matcore_tensor_desc_v0 \<Rightarrow> matcore_tensor_desc_v0 \<Rightarrow>
   matcore_tensor_desc_v0 \<Rightarrow> u64 \<Rightarrow> u64 \<Rightarrow> bool" where
  "workspace_meets req out lhs rhs workspace bytes \<longleftrightarrow>
     (let required = unat (wr1_workspace_bytes req)
      in required = 0 \<or> placed workspace required \<and> required \<le> unat bytes \<and>
         unat (wr1_workspace_alignment req) dvd unat workspace \<and>
         tensors_avoid (call_problem out lhs rhs) (td_data lhs) (td_data rhs) (td_data out) workspace required)"

section \<open>The first generation\<close>

text \<open>The scalar reference is legal for every validated call, whatever the processor answers.\<close>

lemma reference_ready:
  assumes "gemm_arguments_ok out lhs rhs policy"
  shows "v1_ready (call_problem out lhs rhs) (discover_cpu_capabilities_v1 target)"
    "has_feature_v1 (discover_cpu_capabilities_v1 target) feat1_portable_scalar_f32"
  using validated_gemm(3) [OF assms] discover_accepted [of target] by (simp_all add: accepted_v1_def)

lemma automatic_plan_v1:
  assumes "gemm_arguments_ok out lhs rhs policy" "request \<in> {req1_automatic, req1_force_reference}"
  shows "plan1_status (plan_cpu_gemm_v1 ins (call_problem out lhs rhs)
    (discover_cpu_capabilities_v1 target) request) = st1_selected"
proof -
  have "kCpuGemmVariantRegistryV1 ! 0 \<in> set kCpuGemmVariantRegistryV1" by (simp add: registry_simps)
  moreover have "capability_legality_reason ins (kCpuGemmVariantRegistryV1 ! 0)
      (discover_cpu_capabilities_v1 target) = []"
    using reference_ready [OF assms(1), of target]
    by (auto simp: capability_legality_reason_def capability_record_reason_def registry_simps split: if_splits)
  moreover have "request_matches_v1 request (rec1_variant (kCpuGemmVariantRegistryV1 ! 0))"
    using assms(2) by (auto simp: registry_simps)
  ultimately show ?thesis
    unfolding plan_v1_selected_iff using reference_ready(1) [OF assms(1)] by blast
qed

lemma one_is_present: "(x :: u64) AND 1 \<noteq> 0 \<Longrightarrow> x AND 1 = 1"
  by (simp add: and_one_eq mod_2_eq_odd split: if_splits)

lemma reference_legal_v2:
  assumes "gemm_arguments_ok out lhs rhs policy" "res1_requested_threads resources \<noteq> 0"
  shows "dec2_legal (decide_v2 ins (call_problem out lhs rhs) (discover_cpu_capabilities_v1 target)
    resources (kCpuGemmVariantRegistryV2 ! 0))"
  using reference_ready [OF assms(1), of target]
    automatic_plan_v1 [OF assms(1), of req1_force_reference ins target] assms(2)
  unfolding decide_v2_legal legacy_accepts_def
  by (simp add: registry_v2_nth extra_legacy one_is_present) (simp add: registry_simps one_is_present)

lemma automatic_plan_v2:
  assumes "gemm_arguments_ok out lhs rhs policy" "res1_requested_threads resources \<noteq> 0"
  shows "plan2_status (plan_cpu_gemm_v2 ins (call_problem out lhs rhs)
    (discover_cpu_capabilities_v1 target) resources req2_automatic) = st1_selected"
proof -
  let ?p = "plan_cpu_gemm_v2 ins (call_problem out lhs rhs) (discover_cpu_capabilities_v1 target)
    resources req2_automatic"
  have "plan2_candidates ?p ! 0 \<in> set (plan2_candidates ?p)" by (simp add: candidates_v2)
  moreover have "eligible_v2 req2_automatic (plan2_candidates ?p ! 0)"
    using reference_legal_v2 [OF assms] by (simp add: eligible_v2_def candidates_v2)
  ultimately show ?thesis
    unfolding plan_v2_status_cases using reference_ready(1) [OF assms(1)] by auto
qed

section \<open>Prepacked B\<close>

text \<open>The descriptor given to C and the view rebuilt from it are the same view.\<close>

lemma unpack_packed_b:
  "unpack_packed_b_desc (Some (packed_b_desc (cpu_make_packed_b_view_v1 problem rhs storage bytes elements))) =
     Inr (cpu_make_packed_b_view_v1 problem rhs storage bytes elements)"
  by (simp add: unpack_packed_b_desc_def packed_b_desc_def reserved_is_zero_def
      cpu_make_packed_b_view_v1_def Let_def default_packed_b_view_def)

lemma engine_check:
  "(case c of Inl s \<Rightarrow> Inl (packed_execution_status s) | Inr r \<Rightarrow> Inr r) = Inl e \<longleftrightarrow>
     (\<exists>s. c = Inl s \<and> e = packed_execution_status s)"
  "(case c of Inl s \<Rightarrow> Inl (packed_execution_status s) | Inr r \<Rightarrow> Inr r) = Inr x \<longleftrightarrow> c = Inr x"
  by (cases c; auto)+

lemma range_checks_fail:
  "check_prepack_ranges requirements storage address z x y = Inl e \<Longrightarrow> clean_failure e"
  "check_descriptor_ranges requirements view address z x y = Inl e \<Longrightarrow> clean_failure e"
  "check_descriptor_workspace descriptor workspace execution = Inl e \<Longrightarrow> clean_failure e"
  "validate_empty_packed_b_desc packed_b = Inl e \<Longrightarrow> clean_failure e"
  "unpack_packed_b_desc packed_b = Inl e \<Longrightarrow> clean_failure e"
  by (auto simp: check_prepack_ranges_def check_descriptor_ranges_def check_descriptor_workspace_def
      validate_empty_packed_b_desc_def unpack_packed_b_desc_def Let_def result_simps split: option.splits)

lemma prepare_fails:
  "cpu_validate_prepare_packed_b_avx2_v1 problem rhs storage bytes = Inl s \<Longrightarrow> s \<noteq> pst_success"
  "fst (cpu_prepare_packed_b_avx2_v1 F problem rhs storage bytes mem) = Inl s \<Longrightarrow> s \<noteq> pst_success"
proof -
  show valid: "cpu_validate_prepare_packed_b_avx2_v1 problem rhs storage bytes = Inl s \<Longrightarrow> s \<noteq> pst_success" for s
    by (auto simp: cpu_validate_prepare_packed_b_avx2_v1_def Let_def result_simps case_prod_beta
        dest: status_not_success dimensions_fail contract_fails)
  show "fst (cpu_prepare_packed_b_avx2_v1 F problem rhs storage bytes mem) = Inl s \<Longrightarrow> s \<noteq> pst_success"
    by (auto simp: cpu_prepare_packed_b_avx2_v1_def Let_def case_prod_beta dest: valid split: sum.splits)
qed

lemma prepack_ok:
  assumes "matcore_runtime_gemm_f32_prepack_b_v1 pr (Some z) (Some x) (Some y) (Some p) options storage
      storage_bytes address packed_b mem = (st, packed_b', mem')" "ms_code st = ms_ok"
  obtains view where "gemm_arguments_ok z x y p" "packed_b' = Some (packed_b_desc view)"
    "cpu_prepare_packed_b_avx2_v1 (pr_fma_ops pr) (call_problem z x y) (td_data y) storage storage_bytes
       mem = (Inr view, mem')"
proof -
  let ?check = "and_then (validate_execution_options options) (\<lambda>request.
          and_then (require (forced_native_packed_request request)
            (status ms_unavailable_variant
              ''prepacked-B requires the forced native packed AVX2/FMA variant'')) (\<lambda>_.
          and_then (validate_empty_packed_b_desc packed_b) (\<lambda>_.
          and_then (validate_gemm_v0 (Some z) (Some x) (Some y) (Some p)) (\<lambda>validated.
          let plan = plan_request_v2 pr options request probe_exclude validated
          in and_then (require (plan2_status plan = st1_selected) (unavailable_plan_status plan)) (\<lambda>_.
             and_then (case cpu_packed_avx2_prepacked_b_requirements_v1 (vg_problem validated) of
                 Inl st \<Rightarrow> Inl (packed_execution_status st) | Inr r \<Rightarrow> Inr r) (\<lambda>requirements.
             and_then (case cpu_validate_prepare_packed_b_avx2_v1 (vg_problem validated)
                 (vg_rhs validated) storage storage_bytes of
                 Inl st \<Rightarrow> Inl (packed_execution_status st) | Inr v \<Rightarrow> Inr v) (\<lambda>_.
             and_then (check_prepack_ranges requirements storage address z x y) (\<lambda>_.
             and_then (validate_current_fp_environment_v1 pr) (\<lambda>_.
             Inr validated)))))))))"
  show thesis
  proof (cases ?check)
    case (Inl e)
    have "ms_code e \<noteq> ms_ok"
      using Inl unfolding Let_def
      by (auto simp: result_simps engine_check
          dest: checks_fail range_checks_fail prepare_fails(1) status_not_success(3))
    moreover have "st = e"
      using assms(1) Inl by (simp add: matcore_runtime_gemm_f32_prepack_b_v1_def)
    ultimately show thesis using assms(2) by simp
  next
    case (Inr v)
    then have "validate_gemm_v0 (Some z) (Some x) (Some y) (Some p) = Inr v"
      unfolding Let_def by (auto simp: result_simps)
    then have args: "gemm_arguments_ok z x y p" and v: "v = call_of z x y"
      by (simp_all add: validate_gemm_Inr)
    let ?r = "cpu_prepare_packed_b_avx2_v1 (pr_fma_ops pr) (call_problem z x y) (td_data y) storage
       storage_bytes mem"
    have "(st, packed_b', mem') = (case ?r of (Inl st, mem) \<Rightarrow> (packed_execution_status st, packed_b, mem)
          | (Inr view, mem) \<Rightarrow> (ok_status, Some (packed_b_desc view), mem))"
      using assms(1) Inr by (simp add: matcore_runtime_gemm_f32_prepack_b_v1_def v)
    moreover obtain c mem1 where r: "?r = (c, mem1)" by (cases ?r)
    moreover have "c = Inl s \<Longrightarrow> s \<noteq> pst_success" for s
      using prepare_fails(2) [of "pr_fma_ops pr" "call_problem z x y" "td_data y" storage storage_bytes mem] r
      by simp
    ultimately show thesis
      using assms(2) that [OF args] by (cases c) auto
  qed
qed

lemma execute_prepacked_ok:
  assumes "matcore_runtime_gemm_f32_execute_prepacked_b_v1 pr (Some z) (Some x) (Some y) (Some p) options
      address desc workspace bytes report mem = (st, report', mem')" "ms_code st = ms_ok"
    and "unpack_packed_b_desc desc = Inr view"
  shows "gemm_arguments_ok z x y p \<and> pbv_source_data view = td_data y \<and>
    cpu_execute_packed_avx2_prepacked_b_v1 (pr_packed_avx2_usable pr) (pr_fma_ops pr) (call_problem z x y)
       (td_data x) (td_data z) view workspace bytes mem = (pst_success, mem')"
proof -
  let ?check = "and_then (validate_execution_options options) (\<lambda>request.
          and_then (or_fail report
            (status ms_invalid_argument ''CPU plan v2 report must be non-null'')) (\<lambda>r.
          and_then (validate_empty_report_v2 r) (\<lambda>_.
          and_then (require (forced_native_packed_request request)
            (status ms_unavailable_variant
              ''prepacked-B requires the forced native packed AVX2/FMA variant'')) (\<lambda>_.
          and_then (unpack_packed_b_desc desc) (\<lambda>view.
          and_then (validate_gemm_v0 (Some z) (Some x) (Some y) (Some p)) (\<lambda>validated.
          and_then (require (pbv_source_data view = vg_rhs validated)
            (status ms_prepack_mismatch
              ''packed-B source identity does not match the supplied right input'')) (\<lambda>_.
          and_then (case cpu_packed_avx2_prepacked_b_requirements_v1 (vg_problem validated) of
              Inl st \<Rightarrow> Inl (packed_execution_status st) | Inr r \<Rightarrow> Inr r) (\<lambda>packed_requirements.
          and_then (case cpu_validate_packed_avx2_prepacked_b_view_v1 (vg_problem validated)
              (vg_lhs validated) (vg_out validated) view of
              Inl st \<Rightarrow> Inl (packed_execution_status st) | Inr u \<Rightarrow> Inr u) (\<lambda>_.
          and_then (check_descriptor_ranges packed_requirements view address z x y) (\<lambda>descriptor.
          let plan = plan_request_v2 pr options request probe_exclude validated
          in and_then (require (plan2_status plan = st1_selected) (unavailable_plan_status plan)) (\<lambda>_.
             and_then (case cpu_packed_avx2_workspace_requirements_v1 (vg_problem validated)
                 transient_a_with_prepacked_b of
                 Inl st \<Rightarrow> Inl (packed_execution_status st) | Inr r \<Rightarrow> Inr r) (\<lambda>execution.
             and_then (case cpu_validate_packed_avx2_prepacked_b_v1 (vg_problem validated)
                 (vg_lhs validated) (vg_out validated) view workspace bytes of
                 Inl st \<Rightarrow> Inl (packed_execution_status st) | Inr u \<Rightarrow> Inr u) (\<lambda>_.
             and_then (check_descriptor_workspace descriptor workspace execution) (\<lambda>_.
             and_then (validate_current_fp_environment_v1 pr) (\<lambda>_.
             Inr (validated, view, plan, execution))))))))))))))))"
  show ?thesis
  proof (cases ?check)
    case (Inl e)
    have view_fails: "cpu_validate_packed_avx2_prepacked_b_view_v1 problem l z' v = Inl s \<Longrightarrow> s \<noteq> pst_success"
      for problem l z' v s
      by (auto simp: cpu_validate_packed_avx2_prepacked_b_view_v1_def result_simps case_prod_beta
          dest: dimensions_fail contract_fails)
    have "ms_code e \<noteq> ms_ok"
      using Inl unfolding Let_def
      by (auto simp: result_simps engine_check dest: checks_fail range_checks_fail status_not_success(2,3)
          view_fails validation_fails(2))
    moreover have "st = e"
      using assms(1) Inl by (simp add: matcore_runtime_gemm_f32_execute_prepacked_b_v1_def)
    ultimately show ?thesis using assms(2) by simp
  next
    case (Inr c)
    obtain v w plan execution where c: "c = (v, w, plan, execution)" by (cases c)
    have v: "validate_gemm_v0 (Some z) (Some x) (Some y) (Some p) = Inr v"
      and w: "w = view" "pbv_source_data view = vg_rhs v"
      using Inr assms(3) unfolding Let_def c by (auto simp: result_simps engine_check)
    from v have args: "gemm_arguments_ok z x y p" and v: "v = call_of z x y"
      by (simp_all add: validate_gemm_Inr)
    obtain s m where run: "cpu_execute_packed_avx2_prepacked_b_v1 (pr_packed_avx2_usable pr) (pr_fma_ops pr)
        (call_problem z x y) (td_data x) (td_data z) view workspace bytes mem = (s, m)"
      by force
    have "st = packed_execution_status s \<and> (s = pst_success \<longrightarrow> mem' = m)"
      using assms(1) Inr run
      by (cases "s = pst_success")
        (simp_all add: matcore_runtime_gemm_f32_execute_prepacked_b_v1_def c v w(1) Let_def)
    with assms(2) run args w(2) show ?thesis by (simp add: v)
  qed
qed


end
