(* ===== verification/RuntimeExamples.thy ===== *)
theory RuntimeExamples
  imports RuntimeContract
begin

text \<open>
  A concrete process and concrete calls, for the witnesses of \<^theory_text>\<open>RuntimeProperties\<close>. The
  call multiplies a 5 x 3 matrix at 4096 by a 3 x 17 matrix at 8192 into 12288, over the integers.
\<close>

definition example_tensor :: "u64 \<Rightarrow> i64 \<Rightarrow> i64 \<Rightarrow> matcore_tensor_desc_v0" where
  "example_tensor data rows columns =
     \<lparr>td_abi_version = 0, td_struct_size = 192, td_data = data, td_dtype = 1, td_rank = 2,
      td_dims = [rows, columns, 0, 0, 0, 0, 0, 0], td_strides = [columns, 1, 0, 0, 0, 0, 0, 0],
      td_memory_space = 1, td_mutability = 2, td_reserved = [0, 0, 0, 0]\<rparr>"

definition example_policy :: matcore_policy_v0 where
  "example_policy = \<lparr>pol_abi_version = 0, pol_struct_size = 48, pol_target = 1, pol_fallback = 1,
     pol_reserved = [0, 0, 0, 0]\<rparr>"

definition example_options :: "u32 \<Rightarrow> matcore_cpu_gemm_execution_options_v1" where
  "example_options request = \<lparr>eo1_abi_version = 1, eo1_struct_size = 56, eo1_request = request,
     eo1_requested_threads = 1, eo1_flags = 0, eo1_reserved = [0, 0, 0, 0]\<rparr>"

definition empty_report :: matcore_cpu_gemm_plan_report_v2 where
  "empty_report = \<lparr>pp2_abi_version = 2, pp2_struct_size = 488, pp2_planner_version = 0, pp2_request = 0,
     pp2_plan_status = 0, pp2_architecture = 0, pp2_capability_detection_complete = 0,
     pp2_usable_vector_bits = 0, pp2_feature_bits = 0, pp2_m = 0, pp2_n = 0, pp2_k = 0,
     pp2_minimum_alignment_bytes = 0, pp2_requested_threads = 0, pp2_candidate_count = 0,
     pp2_selected_actual_threads = 0, pp2_selected_workspace_bytes = 0,
     pp2_selected_workspace_alignment = 0, pp2_reserved0 = 0, pp2_candidates = [],
     pp2_selected_stable_id = None, pp2_selection_reason = None, pp2_external_provider = None,
     pp2_external_provider_version = None, pp2_external_provider_config = None,
     pp2_reserved = [0, 0, 0, 0]\<rparr>"

definition empty_requirements :: matcore_gemm_workspace_requirements_v1 where
  "empty_requirements = \<lparr>wr1_abi_version = 1, wr1_struct_size = 64, wr1_workspace_bytes = 0,
     wr1_workspace_alignment = 0, wr1_actual_threads = 0, wr1_selected_stable_id = None,
     wr1_reserved = [0, 0, 0, 0]\<rparr>"

definition absent_openblas :: "int openblas_adapter" where
  "absent_openblas =
     \<lparr>ob_linked_at_build = False, ob_info = default_provider_info,
      ob_conformance = \<lparr>obc_version = 1, obc_provider_identity_key = 0, obc_provider_linked = False,
        obc_identity_complete = False, obc_probe_attempted = False,
        obc_caller_environment_compatible = False, obc_finite_correct = False,
        obc_gradual_subnormal_correct = False, obc_nan_input_propagated = False,
        obc_infinity_classes_preserved = False, obc_inf_times_zero_is_nan = False,
        obc_opposite_infinity_sum_is_nan = False, obc_nonfinite_classes_correct = False,
        obc_control_state_preserved = False, obc_thread_state_restored = False,
        obc_conformant = False\<rparr>,
      ob_execute = (\<lambda>_ _ _ _ _ mem. (obs_unavailable, 0, mem))\<rparr>"

definition integer_ops :: "int float_ops" where
  "integer_ops = \<lparr>fl_zero = 0, fl_add = (+), fl_mul = (*)\<rparr>"

definition example_process :: "int process" where
  "example_process = \<lparr>pr_instrumented = False, pr_target = target_x86_gnu True True,
     pr_kernel_ops = integer_ops, pr_fma_ops = integer_fma, pr_packed_avx2_build = True,
     pr_packed_avx2_usable = True, pr_fp_compatible = True, pr_fp_rejection_reason = [],
     pr_openblas = absent_openblas\<rparr>"

abbreviation "example_out \<equiv> example_tensor 12288 5 17"
abbreviation "example_lhs \<equiv> example_tensor 4096 5 3"
abbreviation "example_rhs \<equiv> example_tensor 8192 3 17"

lemmas example_call_simps = example_tensor_def example_policy_def abi_constants

lemma example_arguments: "gemm_arguments_ok example_out example_lhs example_rhs example_policy"
  by (simp add: gemm_arguments_ok_def policy_ok_def tensor_ok_def call_problem_def example_tensor_def
      example_policy_def abi_constants valid_memory_space_def valid_mutability_def reserved_is_zero_def
      placed_def disjoint_ranges_def bytes_at_def Let_def)

lemma example_options_ok:
  "validate_execution_options (Some (example_options 5)) = Inr req2_force_native_packed_avx2_fma"
  by code_simp

lemma example_report_ok: "validate_empty_report_v2 empty_report = Inr ()"
  by code_simp

definition example_capabilities :: CpuCapabilitiesV1 where
  "example_capabilities = discover_cpu_capabilities_v1 (target_x86_gnu True True)"

lemma example_capabilities_value:
  "example_capabilities = \<lparr>cap1_version = 1, cap1_architecture = arch1_x86_64,
     cap1_detection_complete = True, cap1_features = 7, cap1_usable_vector_bits = 256\<rparr>"
  by code_simp

lemma example_legal:
  assumes "gemm_arguments_ok z x y p"
  shows "dec2_legal (decide_v2 False (call_problem z x y) example_capabilities
    (discover_cpu_gemm_implementation_resources_v1 example_process (call_problem z x y) 1 probe)
    (kCpuGemmVariantRegistryV2 ! 4))"
proof -
  let ?res = "discover_cpu_gemm_implementation_resources_v1 example_process (call_problem z x y) 1 probe"
  obtain r where "cpu_packed_avx2_workspace_requirements_v1 (call_problem z x y) transient_a_and_b = Inr r"
      "preq_alignment_bytes r = 64"
    using validated_gemm(1) [OF assms] by (simp add: requirements_Inr)
  then have "res1_native_packed_avx2_fma_compiled ?res" "res1_native_packed_workspace_size_valid ?res"
    "res1_native_packed_workspace_alignment ?res = 64" "res1_requested_threads ?res = 1"
    by (simp_all add: discover_cpu_gemm_implementation_resources_v1_def example_process_def Let_def)
  then have "extra_legality_reason var2_native_packed_avx2_fma (call_problem z x y) example_capabilities ?res = []"
    by (simp add: extra_legality_reason_def example_capabilities_value power_of_two_or_zero_def)
  then show ?thesis
    using reference_ready [OF assms, of "target_x86_gnu True True", folded example_capabilities_def]
    by (simp add: decide_v2_legal registry_v2_nth legacy_accepts_def)
      (simp add: registry_simps example_capabilities_value)
qed

lemma example_plan:
  assumes "gemm_arguments_ok z x y p"
  defines "plan \<equiv> call_plan example_process (Some (example_options 5)) req2_force_native_packed_avx2_fma z x y"
  shows "plan2_status plan = st1_selected" "plan2_selected_variant plan = var2_native_packed_avx2_fma"
proof -
  let ?P = "call_problem z x y" and ?req = req2_force_native_packed_avx2_fma
  let ?res = "discover_cpu_gemm_implementation_resources_v1 example_process ?P 1 probe_exclude"
  have plan: "plan = plan_cpu_gemm_v2 False ?P example_capabilities ?res ?req"
    by (simp add: plan_def plan_request_v2_def external_provider_probe_def example_options_def
        example_process_def example_capabilities_def)
  have "eligible_v2 ?req (plan2_candidates plan ! 4)" "plan2_candidates plan ! 4 \<in> set (plan2_candidates plan)"
    using example_legal [OF assms(1)] by (simp_all add: plan candidates_v2 eligible_v2_def registry_v2_nth)
  then show selected: "plan2_status plan = st1_selected"
    using reference_ready(1) [OF assms(1), of "target_x86_gnu True True", folded example_capabilities_def]
    unfolding plan plan_v2_status_cases by auto
  obtain i where "request_matches_v2 ?req (plan2_selected_variant plan)"
    using selected_candidate [OF selected [unfolded plan], folded plan] by metis
  then show "plan2_selected_variant plan = var2_native_packed_avx2_fma" by simp
qed

section \<open>The calls\<close>

abbreviation "example_problem \<equiv> call_problem example_out example_lhs example_rhs"

lemma example_sizes:
  "prob_m example_problem = 5" "prob_n example_problem = 17" "prob_k example_problem = 3"
  "td_data example_out = 12288" "td_data example_lhs = 4096" "td_data example_rhs = 8192"
  by (simp_all add: call_problem_def example_tensor_def)

lemma example_total: "workspace_total example_problem transient_a_and_b = 512"
  by (simp add: example_sizes workspace_total_def b_panel_offset_def b_panel_bytes_def a_panel_bytes_def round_up_def)

lemma example_meets:
  "placed 16384 512" "(64 :: nat) dvd unat (16384 :: u64)"
  "tensors_avoid example_problem 4096 8192 12288 16384 512"
  by (simp_all add: placed_def tensors_avoid_def disjoint_ranges_def bytes_at_def example_sizes)

abbreviation "example_execution mem \<equiv>
  matcore_runtime_gemm_f32_execute_v1 example_process (Some example_out) (Some example_lhs)
    (Some example_rhs) (Some example_policy) (Some (example_options 5)) 16384 1024 (Some empty_report) mem"

abbreviation "example_call_plan \<equiv> call_plan example_process (Some (example_options 5))
  req2_force_native_packed_avx2_fma example_out example_lhs example_rhs"
abbreviation "example_candidate \<equiv>
  plan2_candidates example_call_plan ! variant_code_v2 (plan2_selected_variant example_call_plan)"

lemma example_candidate:
  "dec2_required_workspace_bytes example_candidate = 512"
  "dec2_required_workspace_alignment example_candidate = 64"
  "dec2_stable_id example_candidate = ''cpu.native-packed.avx2-fma.f32.v1''"
proof -
  have "example_candidate = request_decision example_process (request_resources example_process
      (Some (example_options 5)) (external_provider_probe req2_force_native_packed_avx2_fma) example_problem)
      example_problem 4"
    by (simp add: example_plan(2) [OF example_arguments]) (simp add: plan_request_v2_def candidates_v2)
  then show "dec2_required_workspace_bytes example_candidate = 512"
    "dec2_required_workspace_alignment example_candidate = 64"
    "dec2_stable_id example_candidate = ''cpu.native-packed.avx2-fma.f32.v1''"
    by (simp_all only: request_workspace [OF example_arguments] registry_v2_nth example_total if_True
        decide_v2_fields) (simp_all add: registry_simps)
qed

lemma example_executes: "\<exists>report' mem'. example_execution mem = (ok_status, report', mem')"
proof -
  have workspace: "validate_selected_workspace_v1 (dec2_required_workspace_bytes example_candidate)
      (dec2_required_workspace_alignment example_candidate) 16384 1024 example_out example_lhs example_rhs = Inr ()"
    using selected_workspace_Inr [OF example_arguments, of transient_a_and_b 16384 1024] example_meets
    unfolding example_candidate by (simp only: example_total workspace_ok_def example_sizes) simp
  have fp: "pr_fp_compatible example_process" and usable: "pr_packed_avx2_usable example_process"
    by (simp_all add: example_process_def)
  show ?thesis
    by (rule execute_v1_run [OF example_options_ok example_report_ok example_arguments fp
        example_plan(1) [OF example_arguments] workspace refl])
      (use usable example_plan(2) [OF example_arguments] in auto)
qed

lemma example_query:
  "\<exists>requirements report'. matcore_runtime_gemm_f32_workspace_size_v1 example_process (Some example_out)
     (Some example_lhs) (Some example_rhs) (Some example_policy) (Some (example_options 5))
     (Some empty_requirements) (Some empty_report) = (ok_status, Some requirements, report') \<and>
   wr1_workspace_bytes requirements = 512 \<and> wr1_workspace_alignment requirements = 64 \<and>
   wr1_selected_stable_id requirements = Some ''cpu.native-packed.avx2-fma.f32.v1''"
proof -
  have "validate_empty_workspace_requirements (Some empty_requirements) = Inr ()" by code_simp
  moreover have "validate_gemm_v0 (Some example_out) (Some example_lhs) (Some example_rhs)
      (Some example_policy) = Inr (call_of example_out example_lhs example_rhs)"
    using example_arguments by (simp add: validate_gemm_Inr)
  ultimately show ?thesis
    using example_plan(1) [OF example_arguments] example_candidate
    by (simp only: matcore_runtime_gemm_f32_workspace_size_v1_def example_options_ok example_report_ok
        and_then_simps or_fail_simps sum.case Let_def prod.case not_True_eq_False if_False simp_thms) 
      (simp add: view_data_def)
qed

section \<open>The first generation\<close>

definition empty_report_v1 :: matcore_cpu_gemm_plan_report_v1 where
  "empty_report_v1 = \<lparr>pp1_abi_version = 1, pp1_struct_size = 264, pp1_planner_version = 0, pp1_request = 0,
     pp1_plan_status = 0, pp1_architecture = 0, pp1_capability_detection_complete = 0,
     pp1_usable_vector_bits = 0, pp1_feature_bits = 0, pp1_m = 0, pp1_n = 0, pp1_k = 0,
     pp1_minimum_alignment_bytes = 0, pp1_candidate_count = 0, pp1_candidates = [],
     pp1_selected_stable_id = None, pp1_selection_reason = None, pp1_reserved = [0, 0, 0, 0]\<rparr>"

section \<open>Prepacked B\<close>

definition empty_packed_b :: matcore_packed_b_desc_v1 where
  "empty_packed_b = \<lparr>pd_abi_version = 1, pd_struct_size = 112, pd_source_data = 0, pd_packed_data = 0,
     pd_storage_bytes = 0, pd_packed_elements = 0, pd_k = 0, pd_n = 0, pd_kc = 0, pd_nc = 0, pd_nr = 0,
     pd_reserved0 = 0, pd_provenance = 0, pd_reserved = [0, 0, 0, 0]\<rparr>"

definition example_view :: CpuPackedBViewV1 where
  "example_view = cpu_make_packed_b_view_v1 example_problem 8192 20480 384 96"

lemma example_spans:
  "byte_count example_out = Some \<lparr>span_begin = 12288, span_end = 12628\<rparr>"
  "byte_count example_lhs = Some \<lparr>span_begin = 4096, span_end = 4156\<rparr>"
  "byte_count example_rhs = Some \<lparr>span_begin = 8192, span_end = 8396\<rparr>"
  by code_simp+

lemma example_image: "b_image_elements example_problem = 96" "b_image_total example_problem = 384"
  by (simp_all add: b_image_total_def b_image_elements_def round_up_def example_sizes)

lemma example_aligned: "unat (prob_minimum_alignment_bytes example_problem) dvd unat (8192 :: u64)"
  using validated_gemm(2) [OF example_arguments] unfolding tensors_ok_def example_sizes by blast

lemma example_view_prepared:
  "cpu_validate_prepare_packed_b_avx2_v1 example_problem 8192 20480 384 = Inr example_view"
  unfolding prepare_validation example_view_def
  using validated_gemm(1) [OF example_arguments] example_aligned
  by (simp add: example_image example_sizes placed_def workspace_ok_def disjoint_ranges_def bytes_at_def)

abbreviation "example_prepack mem \<equiv>
  matcore_runtime_gemm_f32_prepack_b_v1 example_process (Some example_out) (Some example_lhs)
    (Some example_rhs) (Some example_policy) (Some (example_options 5)) 20480 384 32768 (Some empty_packed_b) mem"

lemma example_prepacks:
  "\<exists>mem1. example_prepack mem = (ok_status, Some (packed_b_desc example_view), mem1)"
proof -
  obtain r where r: "cpu_packed_avx2_prepacked_b_requirements_v1 example_problem = Inr r"
    "preq_total_bytes r = 384"
    using validated_gemm(1) [OF example_arguments]
    by (simp add: prepacked_requirements validate_problem_exact example_image)
  have ranges: "check_prepack_ranges r 20480 32768 example_out example_lhs example_rhs = Inr ()"
    by (simp add: check_prepack_ranges_def r(2) example_spans byte_range_def overlaps_def u64_max_def)
  obtain view mem1 where run: "cpu_prepare_packed_b_avx2_v1 (pr_fma_ops example_process) example_problem 8192
      20480 384 mem = (Inr view, mem1)"
    using example_view_prepared
    by (auto simp: cpu_prepare_packed_b_avx2_v1_def Let_def case_prod_beta)
  have view: "view = example_view"
    using prepare_results(1) [where prepare = cpu_prepare_packed_b_avx2_v1, OF _ run] example_view_prepared
    by simp
  have checks: "validate_empty_packed_b_desc (Some empty_packed_b) = Inr ()" by code_simp
  have plan: "plan2_status (plan_request_v2 example_process (Some (example_options 5))
      req2_force_native_packed_avx2_fma probe_exclude (call_of example_out example_lhs example_rhs)) = st1_selected"
    using example_plan(1) [OF example_arguments] by (simp add: external_provider_probe_def)
  have v: "validate_gemm_v0 (Some example_out) (Some example_lhs) (Some example_rhs) (Some example_policy) =
      Inr (call_of example_out example_lhs example_rhs)"
    using example_arguments by (simp add: validate_gemm_Inr)
  have fp: "validate_current_fp_environment_v1 example_process = Inr ()"
    by (simp add: validate_current_fp_environment_v1_def example_process_def)
  have prepared: "cpu_validate_prepare_packed_b_avx2_v1 example_problem (td_data example_rhs) 20480 384 = Inr example_view"
    "cpu_prepare_packed_b_avx2_v1 (pr_fma_ops example_process) example_problem (td_data example_rhs)
      20480 384 mem = (Inr example_view, mem1)"
    using example_view_prepared run by (simp_all only: example_sizes view)
  have "example_prepack mem = (ok_status, Some (packed_b_desc example_view), mem1)"
    by (simp only: matcore_runtime_gemm_f32_prepack_b_v1_def example_options_ok checks v plan r(1) ranges fp
        prepared forced_native_packed_request_def and_then_simps require_simps sum.case Let_def option.sel
        ValidatedGemmV0.select_convs prod.case simp_thms)
  then show ?thesis by blast
qed

lemma example_prepacked_valid:
  "cpu_validate_packed_avx2_prepacked_b_v1 example_problem 4096 12288 example_view 16384 1024 = Inr ()"
  using prepared_view_ok [OF example_view_prepared refl refl] validated_gemm(1,2) [OF example_arguments]
  unfolding prepacked_validation view_validation
  by (simp add: example_view_def example_image example_sizes workspace_total_def a_panel_bytes_def round_up_def
      placed_def workspace_ok_def tensors_avoid_def disjoint_ranges_def bytes_at_def)

abbreviation "example_prepacked_execution mem \<equiv>
  matcore_runtime_gemm_f32_execute_prepacked_b_v1 example_process (Some example_out) (Some example_lhs)
    (Some example_rhs) (Some example_policy) (Some (example_options 5)) 32768 (Some (packed_b_desc example_view))
    16384 1024 (Some empty_report) mem"

lemma example_executes_prepacked:
  "\<exists>report' mem2. example_prepacked_execution mem = (ok_status, report', mem2)"
proof -
  obtain r where r: "cpu_packed_avx2_prepacked_b_requirements_v1 example_problem = Inr r"
    "preq_packed_b_bytes r = 384"
    using validated_gemm(1) [OF example_arguments]
    by (simp add: prepacked_requirements validate_problem_exact example_image)
  obtain e where e: "cpu_packed_avx2_workspace_requirements_v1 example_problem transient_a_with_prepacked_b = Inr e"
    "preq_total_bytes e = 128"
    using validated_gemm(1) [OF example_arguments]
    by (simp add: requirements_Inr workspace_total_def a_panel_bytes_def round_up_def example_sizes)
  let ?descriptor = "\<lparr>span_begin = 32768, span_end = 32880\<rparr>"
  have ranges: "check_descriptor_ranges r example_view 32768 example_out example_lhs example_rhs = Inr ?descriptor"
    by (simp add: check_descriptor_ranges_def r(2) example_view_def example_spans byte_range_def overlaps_def
        u64_max_def)
  have apart: "check_descriptor_workspace ?descriptor 16384 e = Inr ()"
    by (simp add: check_descriptor_workspace_def e(2) byte_range_def overlaps_def u64_max_def)
  have unpacked: "unpack_packed_b_desc (Some (packed_b_desc example_view)) = Inr example_view"
    unfolding example_view_def by (rule unpack_packed_b)
  have plan: "plan2_status (plan_request_v2 example_process (Some (example_options 5))
      req2_force_native_packed_avx2_fma probe_exclude (call_of example_out example_lhs example_rhs)) = st1_selected"
    using example_plan(1) [OF example_arguments] by (simp add: external_provider_probe_def)
  have v: "validate_gemm_v0 (Some example_out) (Some example_lhs) (Some example_rhs) (Some example_policy) =
      Inr (call_of example_out example_lhs example_rhs)"
    using example_arguments by (simp add: validate_gemm_Inr)
  have fp: "validate_current_fp_environment_v1 example_process = Inr ()"
    by (simp add: validate_current_fp_environment_v1_def example_process_def)
  have valid: "cpu_validate_packed_avx2_prepacked_b_view_v1 example_problem (td_data example_lhs)
      (td_data example_out) example_view = Inr ()"
    "cpu_validate_packed_avx2_prepacked_b_v1 example_problem (td_data example_lhs)
      (td_data example_out) example_view 16384 1024 = Inr ()"
    using example_prepacked_valid by (simp_all only: example_sizes prepacked_validation)
  obtain mem2 where run: "cpu_execute_packed_avx2_prepacked_b_v1 (pr_packed_avx2_usable example_process)
      (pr_fma_ops example_process) example_problem (td_data example_lhs) (td_data example_out) example_view
      16384 1024 mem = (pst_success, mem2)"
    using execute_avx2_prepacked_equation [of "pr_packed_avx2_usable example_process" "pr_fma_ops example_process"
      example_problem "td_data example_lhs" "td_data example_out" example_view 16384 1024 mem] valid(2)
    by (auto simp: example_process_def)
  have source: "pbv_source_data example_view = td_data example_rhs"
    by (simp add: example_view_def example_sizes)
  show ?thesis
    by (simp only: matcore_runtime_gemm_f32_execute_prepacked_b_v1_def example_options_ok example_report_ok v plan
        r(1) e(1) ranges apart fp valid run unpacked source forced_native_packed_request_def and_then_simps
        require_simps or_fail_simps sum.case Let_def option.sel ValidatedGemmV0.select_convs prod.case
        not_True_eq_False if_False simp_thms) blast
qed


end
