(* ===== verification/RuntimeProperties.thy ===== *)
theory RuntimeProperties
  imports RuntimeExamples
begin

text \<open>
  What the entry points of the runtime promise: which calls they accept, what a successful call leaves in
  memory, what a failed one leaves alone, and how the queries and the executions fit together.
\<close>

text \<open>C13: The argument check of every GEMM entry point accepts a call exactly when no pointer is null, the
  policy and the three descriptors are in order (version, size, type, rank, layout, alignment, host memory), the
  shapes fit together, each tensor lies inside the address space, and the output shares no byte with an input;
  it then returns the problem and the three addresses.\<close>

theorem validate_gemm_exact:
  "validate_gemm_v0 out lhs rhs policy = Inr v \<longleftrightarrow>
    (\<exists>z x y p. out = Some z \<and> lhs = Some x \<and> rhs = Some y \<and> policy = Some p \<and>
      gemm_arguments_ok z x y p \<and> v = call_of z x y)"
  using validated_arguments [of out lhs rhs policy v] validate_gemm_Inr by metis





text \<open>The planning query of the first generation succeeds for every valid call: it answers with the
  report of a plan that was selected.\<close>

theorem plan_query_total:
  assumes "gemm_arguments_ok z x y p" "validate_empty_report r = Inr ()"
  shows "\<exists>plan. plan1_status plan = st1_selected \<and> plan1_problem plan = call_problem z x y \<and>
    matcore_runtime_plan_gemm_f32_v1 pr (Some z) (Some x) (Some y) (Some p) (Some r) =
      (ok_status, Some (populate_report plan))"
proof -
  have v: "validate_gemm_v0 (Some z) (Some x) (Some y) (Some p) = Inr (call_of z x y)"
    using assms(1) by (simp add: validate_gemm_Inr)
  show ?thesis
    using automatic_plan_v1 [OF assms(1)]
    by (intro exI conjI) (auto simp: matcore_runtime_plan_gemm_f32_v1_def Let_def v assms(2))
qed

theorem plan_query_total_witness:
  "\<exists>plan. plan1_status plan = st1_selected \<and> plan1_problem plan = example_problem \<and>
    matcore_runtime_plan_gemm_f32_v1 example_process (Some example_out) (Some example_lhs) (Some example_rhs)
      (Some example_policy) (Some empty_report_v1) = (ok_status, Some (populate_report plan))"
proof (rule plan_query_total [OF example_arguments])
  show "validate_empty_report empty_report_v1 = Inr ()" by code_simp
qed



text \<open>C11: A B that was prepacked through the ABI and is then used through the ABI, at any later time while
  its source and its storage are unchanged and for any problem the checks accept, gives the product of the new
  left input with the original right input. Only the output, the workspace and the packed storage change.\<close>

theorem prepack_then_execute:
  fixes pr :: "'f process" and mem mem1 :: "'f fmem"
  assumes "matcore_runtime_gemm_f32_prepack_b_v1 pr (Some z) (Some x) (Some y) (Some p) options storage
      storage_bytes address packed_b mem = (st, Some desc, mem1)" "ms_code st = ms_ok"
    and "matcore_runtime_gemm_f32_execute_prepacked_b_v1 pr (Some z') (Some x') (Some y') (Some p') options'
      address' (Some desc) workspace bytes report mem1 = (st', report', mem2)" "ms_code st' = ms_ok"
  shows "td_data y' = td_data y \<and> td_dims y' ! 0 = td_dims y ! 0 \<and> td_dims y' ! 1 = td_dims y ! 1 \<and>
    multiplied (pr_fma_ops pr) (call_problem z' x' y') (td_data x') (td_data y) (td_data z')
      (workspace_slots (call_problem z' x' y') transient_a_with_prepacked_b workspace \<union>
       panel (slot storage) (b_image_elements (call_problem z x y))) mem mem2"
proof -
  from assms(1,2) obtain view where args: "gemm_arguments_ok z x y p" and desc: "desc = packed_b_desc view"
    and prepared: "cpu_prepare_packed_b_avx2_v1 (pr_fma_ops pr) (call_problem z x y) (td_data y) storage
       storage_bytes mem = (Inr view, mem1)"
    by (rule prepack_ok) simp
  have "view = cpu_make_packed_b_view_v1 (call_problem z x y) (td_data y) storage storage_bytes
      (of_nat (b_image_elements (call_problem z x y)))"
    using prepare_results(1) [where prepare = cpu_prepare_packed_b_avx2_v1, OF _ prepared]
    by (simp add: prepare_validation)
  then have unpacked: "unpack_packed_b_desc (Some desc) = Inr view"
    and source: "pbv_source_data view = td_data y"
    using unpack_packed_b by (simp_all add: desc)
  note executed = execute_prepacked_ok [OF assms(3,4) unpacked]
  note result = prepared_execution [where prepare = cpu_prepare_packed_b_avx2_v1, OF _ _ prepared,
      of cpu_execute_packed_avx2_prepacked_b_v1 "pr_packed_avx2_usable pr" "call_problem z' x' y'" "td_data x'" "td_data z'" workspace bytes]
  have "prob_k (call_problem z' x' y') = prob_k (call_problem z x y)"
    "prob_n (call_problem z' x' y') = prob_n (call_problem z x y)"
    using result executed by simp_all
  then show ?thesis
    using result executed source args
    by (simp add: gemm_arguments_ok_def call_problem_def)
qed

theorem prepack_then_execute_witness:
  "\<exists>mem1 report' mem2. example_prepack int = (ok_status, Some (packed_b_desc example_view), mem1) \<and>
    example_prepacked_execution mem1 = (ok_status, report', mem2) \<and>
    multiplied integer_fma example_problem 4096 8192 12288
      (workspace_slots example_problem transient_a_with_prepacked_b 16384 \<union> panel (slot 20480) 96) int mem2"
proof -
  obtain mem1 where prepack: "example_prepack int = (ok_status, Some (packed_b_desc example_view), mem1)"
    using example_prepacks [of int] by blast
  obtain report' mem2 where execute: "example_prepacked_execution mem1 = (ok_status, report', mem2)"
    using example_executes_prepacked [of mem1] by blast
  have "multiplied integer_fma example_problem 4096 8192 12288
      (workspace_slots example_problem transient_a_with_prepacked_b 16384 \<union> panel (slot 20480) 96) int mem2"
    using prepack_then_execute [OF prepack _ execute]
    by (simp add: example_sizes example_image) (simp add: example_process_def)
  with prepack execute show ?thesis by blast
qed

end
