(* ===== verification/Spec2Isabelle.thy ===== *)
theory Spec2Isabelle
  imports PlannerV3Decisions ParallelExecution RuntimeProperties
begin

text \<open>
  Verification library for the CPU matrix-product stack of the MatcoreDSL native compiler and runtime
  (\<^verbatim>\<open>src/compiler/lib/planner\<close>, \<^verbatim>\<open>lib/platform\<close> and \<^verbatim>\<open>lib/runtime\<close>).

  \<^bold>\<open>The program.\<close> A call multiplies two row-major f32 matrices into a third. The platform layer describes the
  machine (capabilities, topology, placement of workers). The planners decide which implementation may run and
  which of the legal ones runs. The engines compute: three scalar kernels, a packed engine for AVX2 and one for
  AVX-512, and a parallel engine that deals rectangles of the output to a pool of persistent workers. Callers
  own every buffer, so that each engine first checks addresses, sizes, alignment and overlap.

  \<^bold>\<open>Theories, in the order of the code.\<close>
  \<^item> \<^theory_text>\<open>Prelude\<close>: machine integers, saturating arithmetic, statuses as sums. \<^theory_text>\<open>Selection\<close>: the search for the
    least candidate that all planners share, as a locale. \<^theory_text>\<open>DiagnosticWriter\<close>: the bounded text writer of
    \<^verbatim>\<open>cpu_planner.h\<close>.
  \<^item> \<^theory_text>\<open>PlannerTypesV1\<close>, \<^theory_text>\<open>GemmKernels\<close>, \<^theory_text>\<open>PlannerV1\<close> (\<^verbatim>\<open>planner/cpu_planner.h\<close>): data, the three
    kernels against one specification (locale \<open>gemm_kernel\<close>), discovery, legality, costs, planning, execution.
    \<^theory_text>\<open>PlannerV2\<close> (\<^verbatim>\<open>cpu_planner_v2.h\<close>) refines it and adds providers and workspaces.
  \<^item> \<^theory_text>\<open>Platform\<close> (\<^verbatim>\<open>platform.h\<close>, \<^verbatim>\<open>platform.cpp\<close>), \<^theory_text>\<open>CapabilityV2\<close> (\<^verbatim>\<open>cpu_capability_v2\<close>),
    \<^theory_text>\<open>TopologyText\<close>, \<^theory_text>\<open>Topology\<close>, \<^theory_text>\<open>TopologyRestrict\<close>, \<^theory_text>\<open>Placement\<close>
    (\<^verbatim>\<open>cpu_topology_v1.cpp\<close>): records, validators, parsing, projection to an affinity mask, worker placement.
  \<^item> \<^theory_text>\<open>ParallelTasks\<close>, \<^theory_text>\<open>PlannerV3\<close>, \<^theory_text>\<open>PlannerV3Decisions\<close> (\<^verbatim>\<open>cpu_planner_v3.cpp\<close>): the cut of a
    product into tasks, and the planner over eight variants; the last theory states its properties.
  \<^item> \<^theory_text>\<open>PackedLayout\<close>, \<^theory_text>\<open>PackedKernels\<close>, \<^theory_text>\<open>PackedGemm\<close> (\<^verbatim>\<open>cpu_gemm_backend.cpp\<close>,
    \<^verbatim>\<open>cpu_packed_b_format.h\<close>, \<^verbatim>\<open>cpu_packed_avx2.cpp\<close>, \<^verbatim>\<open>cpu_packed_avx512.cpp\<close>): sizes and checks in
    64-bit words with their exact meaning in natural numbers, packing and register tiles on one flat memory of
    floats, the executions. The locale \<open>block_kernel\<close> is the contract of a block routine.
  \<^item> \<^theory_text>\<open>ExecutionContext\<close>, \<^theory_text>\<open>ExecutionInvariant\<close>, \<^theory_text>\<open>ExecutionProperties\<close>
    (\<^verbatim>\<open>cpu_execution_context.cpp\<close>, \<^verbatim>\<open>thread_affinity_v1.cpp\<close>): the worker pool as a state machine of critical
    sections, callbacks and notifications; its invariant; what it promises a caller under every schedule.
  \<^item> \<^theory_text>\<open>ParallelGemm\<close>, \<^theory_text>\<open>ParallelRun\<close>, \<^theory_text>\<open>ParallelWorkers\<close>, \<^theory_text>\<open>ParallelExecution\<close>
    (\<^verbatim>\<open>cpu_parallel_gemm.cpp\<close>): job, checks and one task; what they do exactly; the workers' callbacks as
    interleaved steps on shared memory with their invariant \<open>run_ok\<close> and measure \<open>run_work\<close>; the whole call.
    The locales \<open>packed_backend\<close> and \<open>parallel_backend\<close> are interpreted for both instruction sets.
  \<^item> \<^theory_text>\<open>RuntimeAbi\<close>, \<^theory_text>\<open>RuntimeOneShot\<close>, \<^theory_text>\<open>RuntimePrepacked\<close> (\<^verbatim>\<open>runtime_c.h\<close>,
    \<^verbatim>\<open>cpu_runtime.cpp\<close>, \<^verbatim>\<open>cpu_backend_registry.cpp\<close>): the C ABI of the f32 calls that need no execution
    context. Argument checks, options, reports; planning and workspace queries, execution, the one-shot call,
    prepacked B. They compose the planners and engines above on one memory. \<^theory_text>\<open>RuntimeContract\<close> holds their
    lemmas, \<^theory_text>\<open>RuntimeExamples\<close> a concrete process and calls, \<^theory_text>\<open>RuntimeProperties\<close> what they promise.
  \<^bold>\<open>What the lemmas show.\<close> Planners: a selected candidate is legal, requested and least in (cost, priority, index);
  later generations refine earlier ones; legality implies the evidence it claims. Platform: the validators accept
  exactly the well-formed records; restriction and placement keep well-formedness. Packed engine: a call is accepted
  exactly when its buffers are in order, and leaves the fused sums of products in the output and nothing else
  changed; both instruction sets agree; packed B is interchangeable. Pool: results are those of a sequential run,
  tasks run once and after all preflights, no submission is used after its end, nobody waits for ever. Parallel
  engine: under every schedule the result is the one of the serial engine, tasks partition the output and race with
  nobody, and every accepted call returns; whether it succeeds depends on the alignment of row bands, a defect of
  the code (\<open>aligned_call_can_fail\<close>). Runtime: the
  argument check accepts exactly the valid calls; a call that returns \<^verbatim>\<open>ok\<close> left the product of the variant it
  reports; what a workspace query promises the execution keeps; the one-shot call refuses no valid call; B prepacked
  through the ABI serves later calls.

  \<^bold>\<open>Conventions and bounds.\<close> A float is a value of an arbitrary type with a zero and the operations used (addition and
  multiplication for the scalar kernels, one fused operation for the packed ones) and no laws, so equal results are
  equal bit for bit; only \<open>packed_matches_reference\<close> relates the two kinds, on inputs with exact products. Vector intrinsics are modelled lane by lane. A pointer is a 64-bit address, a scoped enumeration
  with an underlying type has a constructor for the values outside its enumerators, a status with an output is a sum.
  Loops are folds or total functions; no fuel is used. In the pool, \<open>admissible\<close> bounds a submission: fewer than
  2 to the 64 submissions, and task count plus active workers at most 2 to the 64, so that no counter wraps. A schedule
  of a parallel run is an arbitrary finite list of workers; seven turns of each are proved to be enough for all
  callbacks to return. One output task is one step of a schedule, which \<open>tasks_race_free\<close> justifies.

  \<^bold>\<open>Parameters.\<close> The answers of CPUID, XCR0 and \<^verbatim>\<open>__builtin_cpu_supports\<close>, the operating system's thread calls, the
  floating-point environment of a thread, preprocessor symbols, the OpenBLAS library, and the arithmetic on floats.

  \<^bold>\<open>Not modelled\<close>, and why: discovery of the topology from \<^verbatim>\<open>/sys\<close> and from Windows (file and system calls; the
  parsers of their text are modelled); inspection of floating-point control registers (inline assembly);
  the compiler half of the repository, namely the MLIR dialect and lowering, the Clang front ends, IR documents
  and code generation (their substance is calls into MLIR, LLVM and Clang, which are not under \<^verbatim>\<open>src/\<close>); the GPU
  runtimes and fusion passes under \<^verbatim>\<open>src/src\<close> (drivers and generated kernels); command line tools, benchmarks,
  Python bindings, tests. Of the runtime: the calls on execution contexts (the pool, the planner and the
  engines under them are modelled), the bf16 and i8 references, the OpenBLAS adapter (a parameter), the start-up
  self tests (their outcome is a parameter).
\<close>

end
